(* ===== verification/Strings_Bytes.thy ===== *)
theory Strings_Bytes
  imports Prelude
begin

section \<open>Strings and bytes: the standard library operations the code calls\<close>

text \<open>
  \<^verbatim>\<open>as_bytes\<close>, \<^verbatim>\<open>to_le_bytes\<close>, \<^verbatim>\<open>split(c)\<close>, \<^verbatim>\<open>join\<close>, \<^verbatim>\<open>lines\<close>, \<^verbatim>\<open>find\<close>, \<^verbatim>\<open>trim\<close>,
  \<^verbatim>\<open>to_lowercase\<close> (on the ASCII range), \<^verbatim>\<open>u64::to_string\<close> and \<^verbatim>\<open>str::parse::<u64>\<close>,
  with the laws the components use: the byte encodings are injective and of fixed width,
  splitting and joining are inverse, a printed number parses back.
\<close>

subsection \<open>Bytes of strings and words\<close>

definition bytes_of :: "string \<Rightarrow> bytes" where
  "bytes_of s = map (\<lambda>c. of_char c) s"

definition le_bytes :: "nat \<Rightarrow> 'a::len word \<Rightarrow> bytes" where
  "le_bytes n w = map (\<lambda>i. ucast (drop_bit (8 * i) w)) [0..<n]"

lemma length_bytes_of [simp]: "length (bytes_of s) = length s"
  by (simp add: bytes_of_def)

lemma length_le_bytes [simp]: "length (le_bytes n w) = n"
  by (simp add: le_bytes_def)

lemma of_char_word8_inject: "(of_char c :: u8) = of_char d \<longleftrightarrow> c = d"
proof
  assume eq: "(of_char c :: u8) = of_char d"
  have "unat (of_char x :: u8) = (of_char x :: nat)" for x :: char
  proof -
    have "(of_char x :: u8) = of_nat (of_char x)" by (rule of_nat_of_char [symmetric])
    then show ?thesis by (simp add: unat_of_nat)
  qed
  then have "(of_char c :: nat) = of_char d" using eq by metis
  then show "c = d" by simp
qed simp

lemma bytes_of_inject [simp]: "bytes_of s = bytes_of t \<longleftrightarrow> s = t"
proof -
  have "inj (\<lambda>c. of_char c :: u8)" by (rule injI) (simp add: of_char_word8_inject)
  then show ?thesis by (auto simp: bytes_of_def inj_map_eq_map)
qed

lemma le_bytes_inject:
  fixes v w :: "'a::len word"
  assumes n: "LENGTH('a) \<le> 8 * n" and eq: "le_bytes n v = le_bytes n w"
  shows "v = w"
proof (rule bit_word_eqI)
  fix k assume k: "k < LENGTH('a)"
  have i: "k div 8 < n" using n k by linarith
  have "le_bytes n v ! (k div 8) = le_bytes n w ! (k div 8)" using eq by simp
  then have "(ucast (drop_bit (8 * (k div 8)) v) :: u8) = ucast (drop_bit (8 * (k div 8)) w)"
    using i by (simp add: le_bytes_def)
  then have "bit (ucast (drop_bit (8 * (k div 8)) v) :: u8) (k mod 8)
           = bit (ucast (drop_bit (8 * (k div 8)) w) :: u8) (k mod 8)" by simp
  then show "bit v k = bit w k"
    using k by (simp add: bit_ucast_iff bit_drop_bit_eq)
qed

lemma le_bytes_eq_iff [simp]:
  fixes v w :: "'a::len word"
  shows "LENGTH('a) \<le> 8 * n \<Longrightarrow> le_bytes n v = le_bytes n w \<longleftrightarrow> v = w"
  using le_bytes_inject by blast

subsection \<open>Splitting and joining\<close>

text \<open>\<^verbatim>\<open>s.split(c)\<close> always yields at least one piece.\<close>

fun split_on :: "char \<Rightarrow> string \<Rightarrow> string list" where
  "split_on c [] = [[]]"
| "split_on c (x # xs) =
     (if x = c then [] # split_on c xs
      else (x # hd (split_on c xs)) # tl (split_on c xs))"

fun join_with :: "string \<Rightarrow> string list \<Rightarrow> string" where
  "join_with sep [] = []"
| "join_with sep [x] = x"
| "join_with sep (x # y # ys) = x @ sep @ join_with sep (y # ys)"

lemma split_on_nonempty [simp]: "split_on c s \<noteq> []"
  by (cases s) auto

lemma split_on_code [code]:
  "split_on c [] = [[]]"
  "split_on c (x # xs) = (if x = c then [] # split_on c xs
     else (case split_on c xs of [] \<Rightarrow> [[x]] | p # ps \<Rightarrow> (x # p) # ps))"
  by (auto split: list.split)

lemma split_on_pieces: "p \<in> set (split_on c s) \<Longrightarrow> c \<notin> set p"
proof (induction s arbitrary: p)
  case Nil
  then show ?case by simp
next
  case (Cons x xs)
  have "hd (split_on c xs) \<in> set (split_on c xs)" by simp
  moreover have "set (tl (split_on c xs)) \<subseteq> set (split_on c xs)"
    by (meson list.set_sel(2) split_on_nonempty subsetI)
  ultimately show ?case using Cons by (auto split: if_splits)
qed

lemma split_on_append_sep:
  "split_on c (s @ c # t) = split_on c s @ split_on c t"
proof (induction s)
  case Nil
  then show ?case by simp
next
  case (Cons x xs)
  obtain p ps where "split_on c xs = p # ps" by (cases "split_on c xs") auto
  with Cons show ?case by auto
qed

lemma split_on_no_sep: "c \<notin> set s \<Longrightarrow> split_on c s = [s]"
  by (induction s) auto

lemma split_join:
  "\<lbrakk>xs \<noteq> []; \<forall>x \<in> set xs. c \<notin> set x\<rbrakk> \<Longrightarrow> split_on c (join_with [c] xs) = xs"
proof (induction "[c]" xs rule: join_with.induct)
  case 1
  then show ?case by simp
next
  case (2 x)
  then show ?case by (simp add: split_on_no_sep)
next
  case (3 x y ys)
  then show ?case by (simp add: split_on_append_sep split_on_no_sep)
qed

lemma join_split: "join_with [c] (split_on c s) = s"
proof (induction s)
  case Nil
  then show ?case by simp
next
  case (Cons x xs)
  obtain p ps where sp: "split_on c xs = p # ps"
    by (cases "split_on c xs") auto
  show ?case using Cons by (cases ps) (auto simp: sp)
qed

lemma join_with_append:
  "\<lbrakk>xs \<noteq> []; ys \<noteq> []\<rbrakk> \<Longrightarrow> join_with sep (xs @ ys) = join_with sep xs @ sep @ join_with sep ys"
proof (induction sep xs rule: join_with.induct)
  case (2 sep x)
  then show ?case by (cases ys) auto
qed auto

subsection \<open>Searching\<close>

text \<open>\<^verbatim>\<open>s.find(pat)\<close>: the byte offset of the first occurrence.\<close>

fun find_sub :: "string \<Rightarrow> string \<Rightarrow> nat option" where
  "find_sub pat [] = (if pat = [] then Some 0 else None)"
| "find_sub pat (x # xs) =
     (if prefix pat (x # xs) then Some 0 else map_option Suc (find_sub pat xs))"

lemma find_sub_Some:
  "find_sub pat s = Some i \<Longrightarrow> s = take i s @ pat @ drop (i + length pat) s"
proof (induction s arbitrary: i)
  case Nil
  then show ?case by (auto split: if_splits)
next
  case (Cons x xs)
  show ?case
  proof (cases "prefix pat (x # xs)")
    case True
    with Cons.prems have "i = 0" by simp
    with True show ?thesis by (auto simp: prefix_def)
  next
    case False
    with Cons.prems obtain j where "find_sub pat xs = Some j" and i: "i = Suc j" by auto
    then show ?thesis using Cons.IH[of j] by simp
  qed
qed

subsection \<open>Trimming\<close>

text \<open>
  \<^verbatim>\<open>str::trim\<close> strips Unicode white space; here the UTF-8 sequences of the white-space
  code points.
\<close>

definition ws_seqs :: "string list" where
  "ws_seqs = map (map char_of) ([[9], [10], [11], [12], [13], [32], [194, 133], [194, 160],
     [225, 154, 128]] @ map (\<lambda>b. [226, 128, b]) [128, 129, 130, 131, 132, 133, 134, 135, 136,
     137, 138, 168, 169, 175] @ [[226, 129, 159], [227, 128, 128 :: nat]])"

function trim_start :: "string \<Rightarrow> string" where
  "trim_start s = (case List.find (\<lambda>w. w \<noteq> [] \<and> prefix w s) ws_seqs of
     None \<Rightarrow> s | Some w \<Rightarrow> trim_start (drop (length w) s))"
  by pat_completeness auto
termination
  by (relation "measure length") (auto simp: find_Some_iff prefix_def)

declare trim_start.simps [simp del]

function trim_end :: "string \<Rightarrow> string" where
  "trim_end s = (case List.find (\<lambda>w. w \<noteq> [] \<and> suffix w s) ws_seqs of
     None \<Rightarrow> s | Some w \<Rightarrow> trim_end (take (length s - length w) s))"
  by pat_completeness auto
termination
  by (relation "measure length") (auto simp: find_Some_iff suffix_def)

declare trim_end.simps [simp del]

definition trim :: "string \<Rightarrow> string" where
  "trim s = trim_end (trim_start s)"

subsection \<open>Stripping a prefix, trimming a character\<close>

definition strip_prefix :: "string \<Rightarrow> string \<Rightarrow> string option" where
  "strip_prefix p s = (if prefix p s then Some (drop (length p) s) else None)"

definition trim_start_char :: "char \<Rightarrow> string \<Rightarrow> string" where
  "trim_start_char c s = dropWhile (\<lambda>x. x = c) s"

definition trim_end_char :: "char \<Rightarrow> string \<Rightarrow> string" where
  "trim_end_char c s = rev (dropWhile (\<lambda>x. x = c) (rev s))"

definition trim_char :: "char \<Rightarrow> string \<Rightarrow> string" where
  "trim_char c s = trim_end_char c (trim_start_char c s)"

lemma strip_prefix_Some: "strip_prefix p s = Some t \<longleftrightarrow> s = p @ t"
  by (auto simp: strip_prefix_def prefix_def)

lemma strip_prefix_append [simp]: "strip_prefix p (p @ t) = Some t"
  by (simp add: strip_prefix_Some)

lemma trim_start_char_id: "s = [] \<or> hd s \<noteq> c \<Longrightarrow> trim_start_char c s = s"
  by (cases s) (auto simp: trim_start_char_def)

lemma trim_end_char_id: "s = [] \<or> last s \<noteq> c \<Longrightarrow> trim_end_char c s = s"
  by (cases s rule: rev_cases) (auto simp: trim_end_char_def)

lemma trim_end_char_prefix: "\<exists>n. s = trim_end_char c s @ replicate n c"
proof -
  have "\<exists>n. takeWhile (\<lambda>x. x = c) r = replicate n c" for r
    by (intro exI[of _ "length (takeWhile (\<lambda>x. x = c) r)"] replicate_eqI) (auto dest: set_takeWhileD)
  then obtain n where "takeWhile (\<lambda>x. x = c) (rev s) = replicate n c" by blast
  then have "rev s = replicate n c @ dropWhile (\<lambda>x. x = c) (rev s)"
    by (metis takeWhile_dropWhile_id)
  then have "s = rev (dropWhile (\<lambda>x. x = c) (rev s)) @ replicate n c"
    by (metis rev_append rev_replicate rev_rev_ident)
  then show ?thesis unfolding trim_end_char_def by blast
qed

lemma trim_end_char_last: "trim_end_char c s = [] \<or> last (trim_end_char c s) \<noteq> c"
proof (cases "dropWhile (\<lambda>x. x = c) (rev s)")
  case (Cons x xs)
  then have "x \<noteq> c" using hd_dropWhile[of "\<lambda>x. x = c" "rev s"] by simp
  then show ?thesis by (simp add: trim_end_char_def Cons)
qed (simp add: trim_end_char_def)

lemma trim_start_char_hd: "trim_start_char c s = [] \<or> hd (trim_start_char c s) \<noteq> c"
  using hd_dropWhile[of "\<lambda>x. x = c" s] by (auto simp: trim_start_char_def)

lemma trim_char_hd: "trim_char c s = [] \<or> hd (trim_char c s) \<noteq> c"
proof -
  obtain n where "trim_start_char c s = trim_char c s @ replicate n c"
    using trim_end_char_prefix unfolding trim_char_def by blast
  then show ?thesis using trim_start_char_hd[of c s] by (cases "trim_char c s") auto
qed

lemma trim_char_last: "trim_char c s = [] \<or> last (trim_char c s) \<noteq> c"
  unfolding trim_char_def by (rule trim_end_char_last)

lemma trim_char_id: "s = [] \<or> hd s \<noteq> c \<and> last s \<noteq> c \<Longrightarrow> trim_char c s = s"
  by (auto simp: trim_char_def trim_start_char_id trim_end_char_id)

subsection \<open>Lower case\<close>

definition ascii_lower :: "char \<Rightarrow> char" where
  "ascii_lower c = (let n = of_char c :: nat in if 65 \<le> n \<and> n \<le> 90 then char_of (n + 32) else c)"

definition to_lowercase :: "string \<Rightarrow> string" where
  "to_lowercase s = map ascii_lower s"

text \<open>Printable ASCII characters are never stripped.\<close>

definition graphic :: "char \<Rightarrow> bool" where
  "graphic c = (33 \<le> (of_char c :: nat) \<and> (of_char c :: nat) \<le> 126)"

lemma ws_seqs_not_graphic:
  "\<forall>w \<in> set ws_seqs. w \<noteq> [] \<and> \<not> graphic (hd w) \<and> \<not> graphic (last w)"
  by (simp add: ws_seqs_def graphic_def)

lemma trim_start_graphic:
  assumes "s = [] \<or> graphic (hd s)"
  shows "trim_start s = s"
proof -
  have "\<not> (w \<noteq> [] \<and> prefix w s)" if "w \<in> set ws_seqs" for w
    using that assms ws_seqs_not_graphic by (auto simp: prefix_def)
  then have "List.find (\<lambda>w. w \<noteq> [] \<and> prefix w s) ws_seqs = None"
    by (simp add: find_None_iff)
  then show ?thesis by (subst trim_start.simps) simp
qed

lemma trim_end_graphic:
  assumes "s = [] \<or> graphic (last s)"
  shows "trim_end s = s"
proof -
  have "\<not> (w \<noteq> [] \<and> suffix w s)" if "w \<in> set ws_seqs" for w
    using that assms ws_seqs_not_graphic by (auto simp: suffix_def)
  then have "List.find (\<lambda>w. w \<noteq> [] \<and> suffix w s) ws_seqs = None"
    by (simp add: find_None_iff)
  then show ?thesis by (subst trim_end.simps) simp
qed

lemma trim_end_fixed_iff: "trim_end s = s \<longleftrightarrow> (\<forall>w \<in> set ws_seqs. w \<noteq> [] \<longrightarrow> \<not> suffix w s)"
proof
  assume fixed: "trim_end s = s"
  show "\<forall>w \<in> set ws_seqs. w \<noteq> [] \<longrightarrow> \<not> suffix w s"
  proof (rule ccontr)
    assume "\<not> ?thesis"
    then have "List.find (\<lambda>w. w \<noteq> [] \<and> suffix w s) ws_seqs \<noteq> None" by (auto simp: find_None_iff)
    then obtain v where v: "List.find (\<lambda>w. w \<noteq> [] \<and> suffix w s) ws_seqs = Some v" by auto
    then have "trim_end s = trim_end (take (length s - length v) s)"
      by (subst trim_end.simps) simp
    moreover have "length (trim_end t) \<le> length t" for t
    proof (induction t rule: trim_end.induct)
      case (1 t)
      then show ?case by (subst trim_end.simps) (fastforce split: option.split)
    qed
    ultimately have "length s \<le> length s - length v"
      using fixed by (metis length_take min.bounded_iff)
    moreover have "v \<noteq> []" "suffix v s" using v by (auto simp: find_Some_iff)
    ultimately show False by (auto simp: suffix_def)
  qed
next
  assume "\<forall>w \<in> set ws_seqs. w \<noteq> [] \<longrightarrow> \<not> suffix w s"
  then have "List.find (\<lambda>w. w \<noteq> [] \<and> suffix w s) ws_seqs = None" by (auto simp: find_None_iff)
  then show "trim_end s = s" by (subst trim_end.simps) simp
qed

lemma suffix_append_cases:
  assumes "suffix w (u @ v)"
  shows "suffix w v \<or> hd w \<in> set u"
proof (cases "suffix w v")
  case False
  then obtain w' where w': "w = w' @ v" "suffix w' u" using assms by (auto simp only: suffix_append)
  with False have "w' \<noteq> []" by (intro notI) simp
  then have "hd w \<in> set w'" using w'(1) by simp
  then show ?thesis using set_mono_suffix[OF w'(2)] by blast
qed simp

lemma trim_end_graphic_append:
  assumes "\<forall>c \<in> set u. graphic c" and "trim_end v = v" and "u \<noteq> [] \<or> v \<noteq> []"
  shows "trim_end (u @ v) = u @ v"
  unfolding trim_end_fixed_iff
proof (intro ballI impI)
  fix w assume w: "w \<in> set ws_seqs" "w \<noteq> []"
  then have "\<not> graphic (hd w)" using ws_seqs_not_graphic by blast
  moreover have "\<not> suffix w v" using assms(2) w by (simp add: trim_end_fixed_iff)
  ultimately show "\<not> suffix w (u @ v)" using suffix_append_cases[of w u v] assms(1) by blast
qed

lemma prefix_trim_end: "prefix (trim_end s) s"
proof (induction s rule: trim_end.induct)
  case (1 s)
  show ?case
  proof (cases "List.find (\<lambda>w. w \<noteq> [] \<and> suffix w s) ws_seqs")
    case None
    then show ?thesis by (subst trim_end.simps) simp
  next
    case (Some w)
    have "prefix (trim_end (take (length s - length w) s)) s"
      using 1[OF Some] take_is_prefix prefix_order.trans by blast
    then show ?thesis using Some by (subst trim_end.simps) simp
  qed
qed

lemma prefix_trim_end_char: "prefix (trim_end_char c s) s"
  using trim_end_char_prefix[of s c] by (metis prefixI)

lemma trim_graphic: "s = [] \<or> graphic (hd s) \<and> graphic (last s) \<Longrightarrow> trim s = s"
  by (auto simp: trim_def trim_start_graphic trim_end_graphic)

lemma trim_all_graphic: "\<forall>c \<in> set s. graphic c \<Longrightarrow> trim s = s"
  by (cases "s = []") (auto intro: trim_graphic)

subsection \<open>Lines\<close>

definition newline :: char where
  "newline = char_of (10::nat)"

definition strip_cr :: "string \<Rightarrow> string" where
  "strip_cr l = (if l \<noteq> [] \<and> last l = char_of (13::nat) then butlast l else l)"

text \<open>\<^verbatim>\<open>s.lines()\<close>: no piece for the empty text after a final newline.\<close>

definition lines :: "string \<Rightarrow> string list" where
  "lines s = (let ps = split_on newline s
     in map strip_cr (butlast ps) @ (if last ps = [] then [] else [last ps]))"

text \<open>
  Well-formed UTF-8, the check that \<^verbatim>\<open>BufRead::lines\<close> and \<^verbatim>\<open>read_to_string\<close> make on bytes
  read from a file.
\<close>

definition in_range :: "nat \<Rightarrow> nat \<Rightarrow> nat \<Rightarrow> bool" where
  "in_range lo hi n = (lo \<le> n \<and> n \<le> hi)"

fun utf8_codes :: "nat list \<Rightarrow> bool" where
  "utf8_codes [] = True"
| "utf8_codes [a] = (a < 128)"
| "utf8_codes [a, b] =
     (if a < 128 then utf8_codes [b] else in_range 194 223 a \<and> in_range 128 191 b)"
| "utf8_codes [a, b, c] =
     (if a < 128 then utf8_codes [b, c]
      else if in_range 194 223 a then in_range 128 191 b \<and> utf8_codes [c]
      else in_range 224 239 a \<and> in_range (if a = 224 then 160 else 128) (if a = 237 then 159 else 191) b
        \<and> in_range 128 191 c)"
| "utf8_codes (a # b # c # d # r) =
     (if a < 128 then utf8_codes (b # c # d # r)
      else if in_range 194 223 a then in_range 128 191 b \<and> utf8_codes (c # d # r)
      else if in_range 224 239 a then
        in_range (if a = 224 then 160 else 128) (if a = 237 then 159 else 191) b
        \<and> in_range 128 191 c \<and> utf8_codes (d # r)
      else in_range 240 244 a \<and> in_range (if a = 240 then 144 else 128) (if a = 244 then 143 else 191) b
        \<and> in_range 128 191 c \<and> in_range 128 191 d \<and> utf8_codes r)"

definition utf8_ok :: "string \<Rightarrow> bool" where
  "utf8_ok s = utf8_codes (map of_char s)"

lemma graphic_not_newline [simp]: "graphic c \<Longrightarrow> c \<noteq> newline"
  by (auto simp: graphic_def newline_def)

lemma utf8_codes_ascii: "\<forall>n \<in> set ns. n < 128 \<Longrightarrow> utf8_codes ns"
  by (induction ns rule: utf8_codes.induct) auto

lemma utf8_ok_graphic: "\<forall>c \<in> set s. graphic c \<or> c = newline \<Longrightarrow> utf8_ok s"
  unfolding utf8_ok_def by (intro utf8_codes_ascii) (auto simp: graphic_def newline_def)

lemma set_join_with: "set (join_with [c] xs) \<subseteq> (\<Union>x \<in> set xs. set x) \<union> {c}"
  by (induction "[c]" xs rule: join_with.induct) auto

lemma strip_cr_graphic: "\<forall>c \<in> set l. graphic c \<Longrightarrow> strip_cr l = l"
  by (auto simp: strip_cr_def graphic_def dest!: last_in_set)

lemma lines_join:
  assumes "\<forall>x \<in> set xs. x \<noteq> [] \<and> (\<forall>c \<in> set x. graphic c)"
  shows "lines (join_with [newline] xs) = xs"
proof (cases "xs = []")
  case True
  then show ?thesis by (simp add: lines_def)
next
  case False
  have "\<forall>x \<in> set xs. newline \<notin> set x" using assms by (auto dest: graphic_not_newline)
  then have sp: "split_on newline (join_with [newline] xs) = xs"
    using False by (intro split_join) auto
  have "map strip_cr (butlast xs) = butlast xs"
    using assms by (intro map_idI strip_cr_graphic) (auto dest: in_set_butlastD)
  moreover have "last xs \<noteq> []" using False assms by auto
  ultimately show ?thesis using False by (simp add: lines_def sp)
qed

subsection \<open>Decimal numbers\<close>

definition digit_char :: "nat \<Rightarrow> char" where
  "digit_char n = char_of (48 + n)"

fun dec_of_nat :: "nat \<Rightarrow> string" where
  "dec_of_nat n = (if n < 10 then [digit_char n] else dec_of_nat (n div 10) @ [digit_char (n mod 10)])"

declare dec_of_nat.simps [simp del]

definition show_u64 :: "u64 \<Rightarrow> string" where
  "show_u64 w = dec_of_nat (unat w)"

definition digit_val :: "char \<Rightarrow> nat option" where
  "digit_val c = (let n = of_char c :: nat in if 48 \<le> n \<and> n \<le> 57 then Some (n - 48) else None)"

fun digits_val :: "nat \<Rightarrow> string \<Rightarrow> nat option" where
  "digits_val acc [] = Some acc"
| "digits_val acc (c # cs) =
     (case digit_val c of None \<Rightarrow> None | Some d \<Rightarrow> digits_val (10 * acc + d) cs)"

text \<open>\<^verbatim>\<open>str::parse::<u64>\<close>: an optional plus sign, at least one digit, no overflow.\<close>

definition parse_u64 :: "string \<Rightarrow> u64 option" where
  "parse_u64 s = (let ds = (if s \<noteq> [] \<and> hd s = CHR ''+'' then tl s else s)
     in if ds = [] then None
        else case digits_val 0 ds of None \<Rightarrow> None
           | Some n \<Rightarrow> if n < 2 ^ 64 then Some (of_nat n) else None)"

lemma digit_val_digit_char [simp]: "n < 10 \<Longrightarrow> digit_val (digit_char n) = Some n"
  by (simp add: digit_val_def digit_char_def of_char_of)

lemma digits_val_append:
  "digits_val acc (xs @ ys) =
     (case digits_val acc xs of None \<Rightarrow> None | Some a \<Rightarrow> digits_val a ys)"
  by (induction xs arbitrary: acc) (auto split: option.splits)

lemma digits_val_dec: "digits_val 0 (dec_of_nat n) = Some n"
proof (induction n rule: dec_of_nat.induct)
  case (1 n)
  then show ?case
    by (subst dec_of_nat.simps) (auto simp: digits_val_append)
qed

lemma digit_char_graphic: "n < 10 \<Longrightarrow> graphic (digit_char n)"
  by (simp add: graphic_def digit_char_def of_char_of)

lemma dec_of_nat_graphic: "\<forall>c \<in> set (dec_of_nat n). graphic c"
proof (induction n rule: dec_of_nat.induct)
  case (1 n)
  then show ?case by (subst dec_of_nat.simps) (auto intro: digit_char_graphic)
qed

lemma dec_of_nat_hd: "dec_of_nat n \<noteq> [] \<and> hd (dec_of_nat n) \<noteq> CHR ''+''"
proof (induction n rule: dec_of_nat.induct)
  case (1 n)
  have "digit_char n \<noteq> CHR ''+''" if "n < 10"
    using that digit_val_digit_char[of n] by (auto simp: digit_val_def)
  then show ?case using 1 by (subst (1 2) dec_of_nat.simps) auto
qed

lemma parse_show_u64 [simp]: "parse_u64 (show_u64 w) = Some w"
proof -
  have "unat w < 2 ^ 64" using unsigned_less[of w] by simp
  then show ?thesis
    using dec_of_nat_hd[of "unat w"] by (simp add: parse_u64_def show_u64_def digits_val_dec)
qed

lemma trim_show_u64 [simp]: "trim (show_u64 w) = show_u64 w"
  by (rule trim_all_graphic) (simp add: show_u64_def dec_of_nat_graphic)

lemma utf8_ok_show_u64 [simp]: "utf8_ok (show_u64 w)"
  using dec_of_nat_graphic by (intro utf8_ok_graphic) (auto simp: show_u64_def)

end
