(* ===== verification/Externals.thy ===== *)
theory Externals
  imports Strings_Bytes
begin

section \<open>The third-party code the runtime calls\<close>

text \<open>
  The crates \<^verbatim>\<open>sha2\<close>, \<^verbatim>\<open>ed25519_dalek\<close> and \<^verbatim>\<open>hex\<close> are not part of the repository. They
  are one record of functions, the first argument of every definition that uses them.
  The predicates below state the documented behaviour a theorem may rely on. The
  record \<open>demo_ext\<close> satisfies all of them: the witnesses of the theorems run on it.
\<close>

record externals =
  sha256 :: "bytes \<Rightarrow> bytes"
  ed_public :: "bytes \<Rightarrow> bytes"
  ed_sign :: "bytes \<Rightarrow> bytes \<Rightarrow> bytes"
  ed_verify :: "bytes \<Rightarrow> bytes \<Rightarrow> bytes \<Rightarrow> bool"
  hex_encode :: "bytes \<Rightarrow> string"
  hex_decode :: "string \<Rightarrow> bytes option"

text \<open>A signature made with a key verifies under its public key.\<close>

definition sign_correct :: "externals \<Rightarrow> bool" where
  "sign_correct X = (\<forall>k m. ed_verify X (ed_public X k) m (ed_sign X k m))"

text \<open>Under an honestly generated key, one signature does not verify for two messages.\<close>

definition sign_binding :: "externals \<Rightarrow> bool" where
  "sign_binding X = (\<forall>k m m' s. ed_verify X (ed_public X k) m s
     \<longrightarrow> ed_verify X (ed_public X k) m' s \<longrightarrow> m = m')"

text \<open>A digest has 32 bytes.\<close>

definition digest_size :: "externals \<Rightarrow> bool" where
  "digest_size X = (\<forall>b. length (sha256 X b) = 32)"

text \<open>Hexadecimal text is printable, two characters per byte, and decodes to its bytes.\<close>

definition hex_codec :: "externals \<Rightarrow> bool" where
  "hex_codec X = (\<forall>b. hex_decode X (hex_encode X b) = Some b
     \<and> length (hex_encode X b) = 2 * length b \<and> (\<forall>c \<in> set (hex_encode X b). graphic c))"

lemma hex_codecD:
  assumes "hex_codec X"
  shows "hex_decode X (hex_encode X b) = Some b"
    and "length (hex_encode X b) = 2 * length b"
    and "c \<in> set (hex_encode X b) \<Longrightarrow> graphic c"
  using assms by (auto simp: hex_codec_def)

lemma hex_encode_inject: "hex_codec X \<Longrightarrow> hex_encode X a = hex_encode X b \<Longrightarrow> a = b"
  by (metis hex_codecD(1) option.inject)

subsection \<open>A concrete instance\<close>

definition nibble_char :: "nat \<Rightarrow> char" where
  "nibble_char n = char_of (if n < 10 then 48 + n else 87 + n)"

definition char_nibble :: "char \<Rightarrow> nat option" where
  "char_nibble c = (let n = of_char c :: nat in
     if 48 \<le> n \<and> n \<le> 57 then Some (n - 48)
     else if 97 \<le> n \<and> n \<le> 102 then Some (n - 87)
     else if 65 \<le> n \<and> n \<le> 70 then Some (n - 55) else None)"

fun demo_hex :: "bytes \<Rightarrow> string" where
  "demo_hex [] = []"
| "demo_hex (b # bs) = nibble_char (unat b div 16) # nibble_char (unat b mod 16) # demo_hex bs"

fun demo_unhex :: "string \<Rightarrow> bytes option" where
  "demo_unhex [] = Some []"
| "demo_unhex [c] = None"
| "demo_unhex (c # d # cs) =
     (case (char_nibble c, char_nibble d, demo_unhex cs) of
        (Some h, Some l, Some bs) \<Rightarrow> Some (of_nat (16 * h + l) # bs) | _ \<Rightarrow> None)"

definition demo_ext :: externals where
  "demo_ext = \<lparr>sha256 = (\<lambda>b. b), ed_public = (\<lambda>k. k), ed_sign = (\<lambda>k m. k @ m),
     ed_verify = (\<lambda>p m s. s = p @ m), hex_encode = demo_hex, hex_decode = demo_unhex\<rparr>"

lemma char_nibble_nibble_char [simp]: "n < 16 \<Longrightarrow> char_nibble (nibble_char n) = Some n"
  by (simp add: char_nibble_def nibble_char_def of_char_of)

lemma nibble_char_graphic: "n < 16 \<Longrightarrow> graphic (nibble_char n)"
  by (simp add: graphic_def nibble_char_def of_char_of)

lemma u8_div_16 [simp]: "unat (b :: u8) div 16 < 16"
  using unsigned_less[of b] by (simp add: div_less_iff_less_mult)

lemma demo_unhex_hex: "demo_unhex (demo_hex b) = Some b"
proof (induction b)
  case (Cons b bs)
  have "of_nat (16 * (unat b div 16) + unat b mod 16) = b" by simp
  then show ?case using Cons by simp
qed simp

lemma demo_hex_shape:
  "length (demo_hex b) = 2 * length b \<and> (\<forall>c \<in> set (demo_hex b). graphic c)"
  by (induction b) (auto intro: nibble_char_graphic)

lemma demo_ext_laws [simp]:
  "sign_correct demo_ext" "sign_binding demo_ext" "hex_codec demo_ext"
  using demo_unhex_hex demo_hex_shape
  by (auto simp: sign_correct_def sign_binding_def hex_codec_def demo_ext_def)

lemma demo_ext_sel [simp]:
  "sha256 demo_ext = (\<lambda>b. b)" "ed_public demo_ext = (\<lambda>k. k)"
  "ed_sign demo_ext = (\<lambda>k m. k @ m)" "ed_verify demo_ext = (\<lambda>p m s. s = p @ m)"
  "hex_encode demo_ext = demo_hex" "hex_decode demo_ext = demo_unhex"
  by (simp_all add: demo_ext_def)

end
