(* ===== verification/Secure_Time.thy ===== *)
theory Secure_Time
  imports Strings_Bytes
begin

section \<open>Secure timestamps\<close>

text \<open>
  \<^verbatim>\<open>elastos-common/src/timestamp.rs\<close> and \<^verbatim>\<open>elastos-runtime/src/primitives/time.rs\<close>.
  The environment of the process is a record: the wall clock, the monotonic clock and the
  UUID generator are oracles (the value of the n-th reading or draw), the process-wide
  \<^verbatim>\<open>MONOTONIC_COUNTER\<close> is a word. Every reading is a step on this record, so an
  operation that reads the clock twice may see two different times, as the code may.
  Components extend the record with their own state.
\<close>

record env =
  wall_clock :: "nat \<Rightarrow> u64"
  wall_reads :: nat
  mono_counter :: u64
  instant_clock :: "nat \<Rightarrow> nat"
  instant_reads :: nat
  uuid_bytes :: "nat \<Rightarrow> bytes"
  uuid_strings :: "nat \<Rightarrow> string"
  uuid_draws :: nat

subsection \<open>Reading the clocks\<close>

definition read_wall :: "'a env_scheme \<Rightarrow> u64 \<times> 'a env_scheme" where
  "read_wall e = (wall_clock e (wall_reads e), e\<lparr>wall_reads := Suc (wall_reads e)\<rparr>)"

definition fetch_counter :: "'a env_scheme \<Rightarrow> u64 \<times> 'a env_scheme" where
  "fetch_counter e = (mono_counter e, e\<lparr>mono_counter := mono_counter e + 1\<rparr>)"

definition read_instant :: "'a env_scheme \<Rightarrow> nat \<times> 'a env_scheme" where
  "read_instant e = (instant_clock e (instant_reads e), e\<lparr>instant_reads := Suc (instant_reads e)\<rparr>)"

text \<open>\<^verbatim>\<open>Uuid::new_v4()\<close>, as its 16 bytes or as text.\<close>

definition draw_uuid_bytes :: "'a env_scheme \<Rightarrow> bytes \<times> 'a env_scheme" where
  "draw_uuid_bytes e = (uuid_bytes e (uuid_draws e), e\<lparr>uuid_draws := Suc (uuid_draws e)\<rparr>)"

definition draw_uuid_string :: "'a env_scheme \<Rightarrow> string \<times> 'a env_scheme" where
  "draw_uuid_string e = (uuid_strings e (uuid_draws e), e\<lparr>uuid_draws := Suc (uuid_draws e)\<rparr>)"

subsection \<open>\<^verbatim>\<open>SecureTimestamp\<close>\<close>

datatype secure_timestamp = Timestamp (unix_secs: u64) (monotonic_seq: u64)

definition CLOCK_SKEW_TOLERANCE_SECS :: u64 where
  "CLOCK_SKEW_TOLERANCE_SECS = 300"

definition ts_now :: "'a env_scheme \<Rightarrow> secure_timestamp \<times> 'a env_scheme" where
  "ts_now e = (let (secs, e) = read_wall e; (seq, e) = fetch_counter e in (Timestamp secs seq, e))"

definition ts_at :: "u64 \<Rightarrow> 'a env_scheme \<Rightarrow> secure_timestamp \<times> 'a env_scheme" where
  "ts_at secs e = (let (seq, e) = fetch_counter e in (Timestamp secs seq, e))"

definition after_secs :: "u64 \<Rightarrow> 'a env_scheme \<Rightarrow> secure_timestamp \<times> 'a env_scheme" where
  "after_secs secs e = (let (now, e) = read_wall e; (seq, e) = fetch_counter e
     in (Timestamp (now + secs) seq, e))"

definition after_mins :: "u64 \<Rightarrow> 'a env_scheme \<Rightarrow> secure_timestamp \<times> 'a env_scheme" where
  "after_mins mins e = after_secs (mins * 60) e"

definition after_hours :: "u64 \<Rightarrow> 'a env_scheme \<Rightarrow> secure_timestamp \<times> 'a env_scheme" where
  "after_hours hours e = after_secs (hours * 3600) e"

definition is_before :: "secure_timestamp \<Rightarrow> secure_timestamp \<Rightarrow> bool" where
  "is_before s t = (if unix_secs s \<noteq> unix_secs t then unix_secs s < unix_secs t
     else monotonic_seq s < monotonic_seq t)"

definition is_after :: "secure_timestamp \<Rightarrow> secure_timestamp \<Rightarrow> bool" where
  "is_after s t = is_before t s"

definition is_future :: "secure_timestamp \<Rightarrow> 'a env_scheme \<Rightarrow> bool \<times> 'a env_scheme" where
  "is_future t e = (let (now, e) = ts_now e
     in (unix_secs t > unix_secs now + CLOCK_SKEW_TOLERANCE_SECS, e))"

definition is_expired :: "secure_timestamp \<Rightarrow> 'a env_scheme \<Rightarrow> bool \<times> 'a env_scheme" where
  "is_expired t e = (let (now, e) = ts_now e in (is_before t now, e))"

definition init_counter :: "u64 \<Rightarrow> 'a env_scheme \<Rightarrow> 'a env_scheme" where
  "init_counter v e = e\<lparr>mono_counter := v\<rparr>"

subsection \<open>\<^verbatim>\<open>SecureTimeSource\<close>: the counter across restarts\<close>

text \<open>\<^verbatim>\<open>counter_path\<close> with the text of the file it names, if the file exists.\<close>

record time_source =
  counter_file :: "string option option"

definition time_source_new :: time_source where
  "time_source_new = \<lparr>counter_file = None\<rparr>"

definition time_with_persistence ::
    "string option \<Rightarrow> 'a env_scheme \<Rightarrow> time_source \<times> 'a env_scheme" where
  "time_with_persistence file e =
     (\<lparr>counter_file = Some file\<rparr>,
      case file of None \<Rightarrow> e
      | Some content \<Rightarrow> (case parse_u64 (trim content) of None \<Rightarrow> e
          | Some v \<Rightarrow> init_counter (v + 1) e))"

text \<open>
  The outcome of a plain \<^verbatim>\<open>fs::write\<close>: the file holds the new text, or the call failed and
  left the given content behind.
\<close>

datatype write_outcome = WriteOk | WriteErr "string option"

text \<open>The first component says whether the call returned \<^verbatim>\<open>Ok\<close>.\<close>

definition time_persist :: "write_outcome \<Rightarrow> time_source \<Rightarrow> 'a env_scheme \<Rightarrow> bool \<times> time_source" where
  "time_persist w src e = (case counter_file src of None \<Rightarrow> (True, src)
     | Some _ \<Rightarrow> (case w of WriteOk \<Rightarrow> (True, src\<lparr>counter_file := Some (Some (show_u64 (mono_counter e)))\<rparr>)
         | WriteErr left \<Rightarrow> (False, src\<lparr>counter_file := Some left\<rparr>)))"

subsection \<open>Timestamps are linearly ordered\<close>

text \<open>The order of \<^verbatim>\<open>is_before\<close> makes the type an instance of the library's class.\<close>

instantiation secure_timestamp :: linorder
begin

definition less_secure_timestamp :: "secure_timestamp \<Rightarrow> secure_timestamp \<Rightarrow> bool" where
  "less_secure_timestamp s t = is_before s t"

definition less_eq_secure_timestamp :: "secure_timestamp \<Rightarrow> secure_timestamp \<Rightarrow> bool" where
  "less_eq_secure_timestamp s t = (is_before s t \<or> s = t)"

instance
proof
  fix s t u :: secure_timestamp
  show "(s < t) = (s \<le> t \<and> \<not> t \<le> s)"
    by (auto simp: less_secure_timestamp_def less_eq_secure_timestamp_def is_before_def
        split: if_splits)
  show "s \<le> s" by (simp add: less_eq_secure_timestamp_def)
  show "s \<le> u" if "s \<le> t" "t \<le> u"
    using that by (auto simp: less_eq_secure_timestamp_def is_before_def split: if_splits)
  show "s = t" if "s \<le> t" "t \<le> s"
    using that by (auto simp: less_eq_secure_timestamp_def is_before_def split: if_splits)
  show "s \<le> t \<or> t \<le> s"
    by (cases s; cases t) (auto simp: less_eq_secure_timestamp_def is_before_def)
qed

end

subsection \<open>Laws of the readings\<close>

text \<open>What a reading returns and what it leaves alone.\<close>

lemma ts_now_eq:
  "ts_now e = (Timestamp (wall_clock e (wall_reads e)) (mono_counter e),
     e\<lparr>wall_reads := Suc (wall_reads e), mono_counter := mono_counter e + 1\<rparr>)"
  by (simp add: ts_now_def read_wall_def fetch_counter_def)

lemma ts_at_eq:
  "ts_at secs e = (Timestamp secs (mono_counter e), e\<lparr>mono_counter := mono_counter e + 1\<rparr>)"
  by (simp add: ts_at_def fetch_counter_def)

lemma after_secs_eq:
  "after_secs secs e = (Timestamp (wall_clock e (wall_reads e) + secs) (mono_counter e),
     e\<lparr>wall_reads := Suc (wall_reads e), mono_counter := mono_counter e + 1\<rparr>)"
  by (simp add: after_secs_def read_wall_def fetch_counter_def)

lemma is_expired_eq:
  "is_expired t e = (t < Timestamp (wall_clock e (wall_reads e)) (mono_counter e),
     e\<lparr>wall_reads := Suc (wall_reads e), mono_counter := mono_counter e + 1\<rparr>)"
  by (simp add: is_expired_def ts_now_eq less_secure_timestamp_def)

lemma is_future_eq:
  "is_future t e = (unix_secs t > wall_clock e (wall_reads e) + CLOCK_SKEW_TOLERANCE_SECS,
     e\<lparr>wall_reads := Suc (wall_reads e), mono_counter := mono_counter e + 1\<rparr>)"
  by (simp add: is_future_def ts_now_eq)

lemmas time_reads = ts_now_eq ts_at_eq after_secs_eq is_expired_eq is_future_eq
  draw_uuid_bytes_def draw_uuid_string_def read_instant_def

text \<open>A wall clock that does not run backwards.\<close>

definition wall_monotone :: "'a env_scheme \<Rightarrow> bool" where
  "wall_monotone e = (\<forall>i j. i \<le> j \<longrightarrow> wall_clock e i \<le> wall_clock e j)"

subsection \<open>Properties\<close>

lemma word_less_inc: "(w :: 'a::len word) \<noteq> - 1 \<Longrightarrow> w < w + 1"
  using inc_less_eq_iff[of w "w + 1"] by simp

text \<open>
  Two timestamps taken one after the other are strictly increasing in the
  order of \<^verbatim>\<open>is_before\<close>, while the wall clock does not run backwards and the
  process-wide counter has not reached its last value; the counter moves by exactly one.
\<close>

theorem ts_now_strictly_increasing:
  assumes "wall_monotone e" and "mono_counter e \<noteq> - 1"
    and "ts_now e = (t1, e1)" and "ts_now e1 = (t2, e2)"
  shows "is_before t1 t2 \<and> is_after t2 t1 \<and> mono_counter e2 = mono_counter e + 2"
proof -
  have "wall_clock e (wall_reads e) \<le> wall_clock e (Suc (wall_reads e))"
    using assms(1) by (simp add: wall_monotone_def)
  moreover have "mono_counter e < mono_counter e + 1"
    using assms(2) by (rule word_less_inc)
  ultimately show ?thesis
    using assms(3,4) by (auto simp: ts_now_eq is_before_def is_after_def)
qed

definition demo_env :: env where
  "demo_env = \<lparr>wall_clock = (\<lambda>n. 1000 + of_nat n), wall_reads = 0, mono_counter = 7,
     instant_clock = (\<lambda>n. n), instant_reads = 0, uuid_bytes = (\<lambda>n. replicate 15 0 @ [of_nat n]),
     uuid_strings = (\<lambda>n. replicate n CHR ''u''), uuid_draws = 0\<rparr>"

theorem ts_now_strictly_increasing_witness:
  "is_before (fst (ts_now (demo_env\<lparr>wall_clock := \<lambda>_. 1000\<rparr>)))
     (fst (ts_now (snd (ts_now (demo_env\<lparr>wall_clock := \<lambda>_. 1000\<rparr>)))))"
proof -
  let ?e = "demo_env\<lparr>wall_clock := \<lambda>_. 1000\<rparr>"
  have "wall_monotone ?e" by (simp add: wall_monotone_def)
  moreover have "mono_counter ?e \<noteq> - 1" by code_simp
  ultimately show ?thesis
    using ts_now_strictly_increasing[OF _ _ surjective_pairing surjective_pairing] by blast
qed

text \<open>
  A time source that was persisted and loaded again after a restart continues
  strictly above every sequence number the previous process has handed out: it starts at
  the saved counter plus one, and all earlier timestamps carry smaller sequence numbers.
\<close>

theorem counter_survives_restart:
  assumes "counter_file src \<noteq> None" and "mono_counter e \<noteq> - 1"
    and "time_persist WriteOk src e = (ok, src')"
    and "counter_file src' = Some file"
  shows "ok \<and> mono_counter (snd (time_with_persistence file e')) = mono_counter e + 1
    \<and> mono_counter e < mono_counter (snd (time_with_persistence file e'))"
  using assms word_less_inc[OF assms(2)]
  by (auto simp: time_persist_def time_with_persistence_def init_counter_def)

theorem counter_survives_restart_witness:
  "mono_counter (snd (time_with_persistence (Some ''7'') (demo_env\<lparr>mono_counter := 0\<rparr>))) = 8"
proof -
  let ?src = "\<lparr>counter_file = Some None\<rparr>"
  let ?p = "time_persist WriteOk ?src demo_env"
  have "show_u64 7 = ''7''" by code_simp
  then have f: "counter_file (snd ?p) = Some (Some ''7'')"
    by (simp add: time_persist_def demo_env_def)
  have c: "mono_counter demo_env = 7" by (simp add: demo_env_def)
  have "mono_counter demo_env \<noteq> - 1" by code_simp
  then have "mono_counter (snd (time_with_persistence (Some ''7'') (demo_env\<lparr>mono_counter := 0\<rparr>)))
      = mono_counter demo_env + 1"
    using counter_survives_restart[OF _ _ surjective_pairing f,
        where e' = "demo_env\<lparr>mono_counter := 0\<rparr>"] by simp
  with c show ?thesis by simp
qed

end
