(* ===== verification/Cap_Token.thy ===== *)
theory Cap_Token
  imports Externals Secure_Time
begin

section \<open>Capability tokens\<close>

text \<open>
  \<^verbatim>\<open>elastos-runtime/src/capability/token.rs\<close>: identifiers, resource patterns, actions,
  constraints, the token itself, the byte string its signature covers, signing and
  verification.
\<close>

subsection \<open>Token identifiers\<close>

datatype token_id = TokenId (token_bytes: bytes)

datatype token_id_error = InvalidHex | Expected16Bytes nat

definition token_id_new :: "'a env_scheme \<Rightarrow> token_id \<times> 'a env_scheme" where
  "token_id_new e = (let (b, e) = draw_uuid_bytes e in (TokenId b, e))"

definition token_id_from_hex :: "externals \<Rightarrow> string \<Rightarrow> token_id_error + token_id" where
  "token_id_from_hex X s = (case hex_decode X s of
     None \<Rightarrow> Inl InvalidHex
   | Some b \<Rightarrow> if length b \<noteq> 16 then Inl (Expected16Bytes (length b)) else Inr (TokenId b))"

definition token_id_display :: "externals \<Rightarrow> token_id \<Rightarrow> string" where
  "token_id_display X t = hex_encode X (token_bytes t)"

subsection \<open>Resources and patterns\<close>

datatype resource_id = ResourceId (as_str: string)

definition normalize_resource :: "string \<Rightarrow> string" where
  "normalize_resource s = (case find_sub ''://'' s of
     Some scheme_end \<Rightarrow>
       (let scheme = take (scheme_end + 3) s; rest = drop (scheme_end + 3) s;
            normalized = filter (\<lambda>seg. seg \<noteq> [] \<and> seg \<noteq> ''.'') (split_on CHR ''/'' rest)
        in scheme @ join_with ''/'' normalized)
   | None \<Rightarrow> s)"

definition matches :: "resource_id \<Rightarrow> resource_id \<Rightarrow> bool" where
  "matches r pattern =
     (let pattern_norm = normalize_resource (as_str pattern); resource_norm = normalize_resource (as_str r)
      in if suffix ''/*'' pattern_norm then
           (let pre = take (length pattern_norm - 1) pattern_norm
            in if \<not> prefix pre resource_norm then False
               else \<not> (\<exists>seg \<in> set (split_on CHR ''/'' (drop (length pre) resource_norm)). seg = ''..''))
         else resource_norm = pattern_norm)"

subsection \<open>Actions, constraints, tokens\<close>

datatype action = Read | Write | Execute | Message | Delete | Admin

fun action_display :: "action \<Rightarrow> string" where
  "action_display Read = ''read''"
| "action_display Write = ''write''"
| "action_display Execute = ''execute''"
| "action_display Message = ''message''"
| "action_display Delete = ''delete''"
| "action_display Admin = ''admin''"

text \<open>The discriminant \<^verbatim>\<open>action as u8\<close>.\<close>

fun action_u8 :: "action \<Rightarrow> u8" where
  "action_u8 Read = 0"
| "action_u8 Write = 1"
| "action_u8 Execute = 2"
| "action_u8 Message = 3"
| "action_u8 Delete = 4"
| "action_u8 Admin = 5"

record token_constraints =
  con_epoch :: u64
  con_delegatable :: bool
  con_max_classification :: "u8 option"
  con_max_uses :: "u32 option"

definition constraints_new ::
    "u64 \<Rightarrow> bool \<Rightarrow> u8 option \<Rightarrow> u32 option \<Rightarrow> token_constraints" where
  "constraints_new epoch delegatable max_classification max_uses =
     \<lparr>con_epoch = epoch, con_delegatable = delegatable,
      con_max_classification = max_classification, con_max_uses = max_uses\<rparr>"

record capability_token =
  tok_version :: u8
  tok_id :: token_id
  tok_capsule :: string
  tok_issuer :: bytes
  tok_resource :: resource_id
  tok_action :: action
  tok_constraints :: token_constraints
  tok_issued_at :: secure_timestamp
  tok_expiry :: "secure_timestamp option"
  tok_signature :: bytes

definition CURRENT_VERSION :: u8 where
  "CURRENT_VERSION = 1"

definition token_new ::
    "string \<Rightarrow> bytes \<Rightarrow> resource_id \<Rightarrow> action \<Rightarrow> token_constraints \<Rightarrow> secure_timestamp
     \<Rightarrow> secure_timestamp option \<Rightarrow> 'a env_scheme \<Rightarrow> capability_token \<times> 'a env_scheme" where
  "token_new capsule issuer resource action constraints issued_at expiry e =
     (let (tid, e) = token_id_new e
      in (\<lparr>tok_version = CURRENT_VERSION, tok_id = tid, tok_capsule = capsule,
           tok_issuer = issuer, tok_resource = resource, tok_action = action,
           tok_constraints = constraints, tok_issued_at = issued_at, tok_expiry = expiry,
           tok_signature = replicate 64 0\<rparr>, e))"

subsection \<open>The signed bytes\<close>

text \<open>What is fed to the hasher, in order.\<close>

definition enc_option :: "('a \<Rightarrow> bytes) \<Rightarrow> 'a option \<Rightarrow> bytes" where
  "enc_option f x = (case x of None \<Rightarrow> [0] | Some v \<Rightarrow> 1 # f v)"

definition enc_string :: "string \<Rightarrow> bytes" where
  "enc_string s = le_bytes 8 (of_nat (length s) :: u64) @ bytes_of s"

definition enc_timestamp :: "secure_timestamp \<Rightarrow> bytes" where
  "enc_timestamp t = le_bytes 8 (unix_secs t) @ le_bytes 8 (monotonic_seq t)"

definition signable_preimage :: "capability_token \<Rightarrow> bytes" where
  "signable_preimage t =
     [tok_version t]
     @ token_bytes (tok_id t)
     @ enc_string (tok_capsule t)
     @ tok_issuer t
     @ enc_string (as_str (tok_resource t))
     @ [action_u8 (tok_action t)]
     @ le_bytes 8 (con_epoch (tok_constraints t))
     @ [of_bool (con_delegatable (tok_constraints t))]
     @ enc_option (\<lambda>v. [v]) (con_max_classification (tok_constraints t))
     @ enc_option (le_bytes 4) (con_max_uses (tok_constraints t))
     @ enc_timestamp (tok_issued_at t)
     @ enc_option enc_timestamp (tok_expiry t)"

definition signable_bytes :: "externals \<Rightarrow> capability_token \<Rightarrow> bytes" where
  "signable_bytes X t = sha256 X (signable_preimage t)"

definition token_sign :: "externals \<Rightarrow> bytes \<Rightarrow> capability_token \<Rightarrow> capability_token" where
  "token_sign X signing_key t = t\<lparr>tok_signature := ed_sign X signing_key (signable_bytes X t)\<rparr>"

definition verify_signature :: "externals \<Rightarrow> bytes \<Rightarrow> capability_token \<Rightarrow> bool" where
  "verify_signature X public_key t = ed_verify X public_key (signable_bytes X t) (tok_signature t)"

subsection \<open>Lemmas: identifiers and signatures\<close>

lemma token_id_hex_roundtrip:
  "hex_codec X \<Longrightarrow> length b = 16 \<Longrightarrow> token_id_from_hex X (token_id_display X (TokenId b)) = Inr (TokenId b)"
  by (simp add: token_id_from_hex_def token_id_display_def hex_codecD(1))

lemma token_id_display_inject:
  "hex_codec X \<Longrightarrow> token_id_display X a = token_id_display X b \<Longrightarrow> a = b"
  by (simp add: token_id_display_def token_id.expand hex_encode_inject)

lemma signable_preimage_signature [simp]:
  "signable_preimage (t\<lparr>tok_signature := s\<rparr>) = signable_preimage t"
  by (simp add: signable_preimage_def)

lemma signable_bytes_signature [simp]:
  "signable_bytes X (t\<lparr>tok_signature := s\<rparr>) = signable_bytes X t"
  by (simp add: signable_bytes_def)

lemma verify_sign:
  "sign_correct X \<Longrightarrow> verify_signature X (ed_public X k) (token_sign X k t)"
  by (simp add: verify_signature_def token_sign_def sign_correct_def)

lemma token_sign_sel [simp]:
  "tok_version (token_sign X k t) = tok_version t" "tok_id (token_sign X k t) = tok_id t"
  "tok_capsule (token_sign X k t) = tok_capsule t" "tok_issuer (token_sign X k t) = tok_issuer t"
  "tok_resource (token_sign X k t) = tok_resource t" "tok_action (token_sign X k t) = tok_action t"
  "tok_constraints (token_sign X k t) = tok_constraints t"
  "tok_issued_at (token_sign X k t) = tok_issued_at t" "tok_expiry (token_sign X k t) = tok_expiry t"
  by (simp_all add: token_sign_def)

lemma action_u8_inject [simp]: "action_u8 a = action_u8 b \<longleftrightarrow> a = b"
  by (cases a; cases b) simp_all

subsection \<open>The signed bytes determine the token\<close>

text \<open>
  What the Rust types guarantee: \<^verbatim>\<open>[u8; 16]\<close>, \<^verbatim>\<open>[u8; 32]\<close>, and strings shorter than the
  address space.
\<close>

definition token_wf :: "capability_token \<Rightarrow> bool" where
  "token_wf t = (length (token_bytes (tok_id t)) = 16 \<and> length (tok_issuer t) = 32
     \<and> length (tok_capsule t) < 2 ^ 64 \<and> length (as_str (tok_resource t)) < 2 ^ 64)"

lemma enc_string_append_inject:
  assumes "length a < 2 ^ 64" "length b < 2 ^ 64"
  shows "enc_string a @ x = enc_string b @ y \<longleftrightarrow> a = b \<and> x = y"
proof
  assume "enc_string a @ x = enc_string b @ y"
  then have n: "(of_nat (length a) :: u64) = of_nat (length b)"
    and r: "bytes_of a @ x = bytes_of b @ y"
    by (simp_all add: enc_string_def)
  have "length a = length b"
    using arg_cong[OF n, of unat] assms by (simp add: unsigned_of_nat take_bit_nat_eq_self)
  with r show "a = b \<and> x = y" by simp
qed simp

lemma enc_option_append_inject:
  assumes "\<And>v w x y. f v @ x = f w @ y \<longleftrightarrow> v = w \<and> x = y"
  shows "enc_option f a @ x = enc_option f b @ y \<longleftrightarrow> a = b \<and> x = y"
  using assms by (auto simp: enc_option_def split: option.splits)

lemma enc_timestamp_append_inject:
  "enc_timestamp s @ x = enc_timestamp t @ y \<longleftrightarrow> s = t \<and> x = y"
  by (cases s; cases t) (auto simp: enc_timestamp_def)

lemma enc_u32_append_inject: "le_bytes 4 (v :: u32) @ x = le_bytes 4 w @ y \<longleftrightarrow> v = w \<and> x = y"
  by auto

lemmas enc_append_inject = enc_string_append_inject enc_timestamp_append_inject
  enc_option_append_inject[where f = "\<lambda>v. [v]", simplified]
  enc_option_append_inject[where f = "le_bytes 4 :: u32 \<Rightarrow> bytes", OF enc_u32_append_inject]
  enc_option_append_inject[where f = enc_timestamp, OF enc_timestamp_append_inject]

lemma enc_expiry_inject: "enc_option enc_timestamp a = enc_option enc_timestamp b \<longleftrightarrow> a = b"
  using enc_append_inject(5)[of a "[]" b "[]"] by simp

text \<open>
  The byte string a signature covers determines every field of the token
  except the signature itself: no two different tokens are signed as the same bytes, whatever
  the lengths and contents of their strings.
\<close>

theorem signable_preimage_injective:
  assumes "token_wf t" and "token_wf t'" and "signable_preimage t = signable_preimage t'"
  shows "t\<lparr>tok_signature := tok_signature t'\<rparr> = t'"
proof -
  have fields: "tok_version t = tok_version t'" "tok_id t = tok_id t'" "tok_capsule t = tok_capsule t'"
    "tok_issuer t = tok_issuer t'" "tok_resource t = tok_resource t'" "tok_action t = tok_action t'"
    "con_epoch (tok_constraints t) = con_epoch (tok_constraints t')"
    "con_delegatable (tok_constraints t) = con_delegatable (tok_constraints t')"
    "con_max_classification (tok_constraints t) = con_max_classification (tok_constraints t')"
    "con_max_uses (tok_constraints t) = con_max_uses (tok_constraints t')"
    "tok_issued_at t = tok_issued_at t'" "tok_expiry t = tok_expiry t'"
    using assms
    by (auto simp: signable_preimage_def token_wf_def enc_append_inject enc_expiry_inject
        token_id.expand resource_id.expand of_bool_eq_iff)
  then have "tok_constraints t = tok_constraints t'" by (intro token_constraints.equality) auto
  with fields show ?thesis by (intro capability_token.equality) auto
qed

text \<open>A token over \<^verbatim>\<open>elastos://a\<close> for the capsule \<open>c\<close>, used by the examples.\<close>

definition demo_token :: "u8 \<Rightarrow> string \<Rightarrow> action \<Rightarrow> capability_token" where
  "demo_token n capsule act = \<lparr>tok_version = 1, tok_id = TokenId (replicate 15 0 @ [n]),
     tok_capsule = capsule, tok_issuer = replicate 32 1, tok_resource = ResourceId ''elastos://a'',
     tok_action = act, tok_constraints = constraints_new 0 False None None,
     tok_issued_at = Timestamp 1000 1, tok_expiry = None, tok_signature = []\<rparr>"

theorem signable_preimage_injective_witness:
  "signable_preimage (demo_token 1 ''c'' Read) \<noteq> signable_preimage (demo_token 1 ''c'' Write)"
proof
  let ?t = "demo_token 1 ''c'' Read" and ?u = "demo_token 1 ''c'' Write"
  assume "signable_preimage ?t = signable_preimage ?u"
  then have "?t\<lparr>tok_signature := tok_signature ?u\<rparr> = ?u"
    by (intro signable_preimage_injective) (simp_all add: token_wf_def demo_token_def)
  then show False by (simp add: demo_token_def)
qed

text \<open>
  A signature is worth one token: if it verifies for two tokens, they are the
  same token, or their signed bytes are an explicit collision of the hash. Changing any field
  of a signed token (its resource, its action, its expiry, its use limit) therefore makes
  \<^verbatim>\<open>verify_signature\<close> fail.
\<close>

theorem tampered_token_rejected:
  assumes "sign_binding X" and "token_wf t" and "token_wf t'"
    and "verify_signature X (ed_public X k) t" and "verify_signature X (ed_public X k) t'"
    and "tok_signature t' = tok_signature t"
  shows "t' = t \<or> (signable_preimage t \<noteq> signable_preimage t'
    \<and> sha256 X (signable_preimage t) = sha256 X (signable_preimage t'))"
proof -
  have "signable_bytes X t = signable_bytes X t'"
    using assms(1,4,5,6) by (auto simp: sign_binding_def verify_signature_def)
  moreover have "t' = t" if "signable_preimage t' = signable_preimage t"
    using signable_preimage_injective[OF assms(3,2) that] assms(6)[symmetric] by simp
  ultimately show ?thesis unfolding signable_bytes_def by metis
qed

theorem tampered_token_rejected_witness:
  "verify_signature demo_ext [5] (token_sign demo_ext [5] (demo_token 1 ''c'' Read))
   \<and> \<not> verify_signature demo_ext [5] ((token_sign demo_ext [5] (demo_token 1 ''c'' Read))\<lparr>tok_action := Admin\<rparr>)"
proof -
  let ?t = "token_sign demo_ext [5] (demo_token 1 ''c'' Read)"
  let ?u = "?t\<lparr>tok_action := Admin\<rparr>"
  have v: "verify_signature demo_ext (ed_public demo_ext [5]) ?t"
    using verify_sign[of demo_ext "[5]"] by simp
  have w: "token_wf ?t" "token_wf ?u" "tok_signature ?u = tok_signature ?t" "?u \<noteq> ?t"
    by (simp_all add: token_wf_def demo_token_def token_sign_def)
  have "\<not> verify_signature demo_ext (ed_public demo_ext [5]) ?u"
    using tampered_token_rejected[OF demo_ext_laws(2) w(1,2) v _ w(3)] w(4) by auto
  with v show ?thesis by simp
qed

end
