(* ===== verification/Resource_Scope.thy ===== *)
theory Resource_Scope
  imports Cap_Token
begin

section \<open>Resource patterns as a scope order\<close>

text \<open>
  What \<^verbatim>\<open>ResourceId::matches\<close> promises. The interface \<open>scope_order\<close> states what delegation
  and the policy rules need from it: every scope covers itself and covering is transitive.
  The second half relates the string comparison of the code to a specification on path
  segments.
\<close>

subsection \<open>The interface\<close>

locale scope_order =
  fixes within :: "'r \<Rightarrow> 'r \<Rightarrow> bool"
  assumes within_refl: "within r r"
    and within_trans: "\<lbrakk>within r q; within q p\<rbrakk> \<Longrightarrow> within r p"
begin

text \<open>A chain of scopes, each within the one before, stays within the first.\<close>

fun narrowing :: "'r \<Rightarrow> 'r list \<Rightarrow> bool" where
  "narrowing p [] = True"
| "narrowing p (q # qs) = (within q p \<and> narrowing q qs)"

lemma narrowing_within_root: "narrowing p qs \<Longrightarrow> q \<in> set qs \<Longrightarrow> within q p"
proof (induction qs arbitrary: p)
  case Nil
  then show ?case by simp
next
  case (Cons x qs)
  then show ?case by (auto intro: within_trans)
qed

lemma narrowing_grants_no_more:
  "\<lbrakk>narrowing p qs; q \<in> set qs; within r q\<rbrakk> \<Longrightarrow> within r p"
  using narrowing_within_root within_trans by blast

end

subsection \<open>Normal forms\<close>

lemma find_sub_take:
  "find_sub pat s = Some i \<Longrightarrow> find_sub pat (take (i + length pat) s @ t) = Some i"
proof (induction s arbitrary: i)
  case Nil
  then have "pat = []" "i = 0" by (auto split: if_splits)
  then show ?case by (cases t) auto
next
  case (Cons x xs)
  show ?case
  proof (cases "prefix pat (x # xs)")
    case True
    then obtain u where u: "x # xs = pat @ u" by (auto simp: prefix_def)
    have "i = 0" using Cons.prems True by simp
    moreover have "take (length pat) (x # xs) = pat" using u by simp
    moreover have "find_sub pat (pat @ t) = Some 0"
      using prefixI[of "pat @ t" pat t] by (cases "pat @ t") auto
    ultimately show ?thesis by simp
  next
    case False
    with Cons.prems obtain j where j: "find_sub pat xs = Some j" "i = Suc j" by auto
    have len: "length pat \<le> length (take (j + length pat) xs)"
      using arg_cong[OF find_sub_Some[OF j(1)], of length] by simp
    have "\<not> prefix pat (x # take (j + length pat) xs @ t)"
    proof
      assume "prefix pat (x # take (j + length pat) xs @ t)"
      then have "prefix pat (x # take (j + length pat) xs)"
        using len by (metis append_Cons le_SucI length_Cons prefix_length_prefix prefix_prefix
            prefix_order.refl prefixI)
      then have "prefix pat (x # xs)"
        by (metis append_Cons append_take_drop_id prefix_prefix)
      with False show False by simp
    qed
    then show ?thesis using Cons.IH[OF j(1)] j(2) by simp
  qed
qed

text \<open>The scheme with its \<^verbatim>\<open>://\<close>, and the path segments that count.\<close>

definition scheme_part :: "string \<Rightarrow> string option" where
  "scheme_part s = map_option (\<lambda>i. take (i + 3) s) (find_sub ''://'' s)"

definition path_segments :: "string \<Rightarrow> string list" where
  "path_segments s = (case find_sub ''://'' s of None \<Rightarrow> []
     | Some i \<Rightarrow> filter (\<lambda>seg. seg \<noteq> [] \<and> seg \<noteq> ''.'') (split_on CHR ''/'' (drop (i + 3) s)))"

lemma path_segments_ok:
  "seg \<in> set (path_segments s) \<Longrightarrow> seg \<noteq> [] \<and> seg \<noteq> ''.'' \<and> CHR ''/'' \<notin> set seg"
  by (auto simp: path_segments_def split: option.splits dest: split_on_pieces)

lemma normalize_scheme:
  "scheme_part s = Some sch \<Longrightarrow> normalize_resource s = sch @ join_with ''/'' (path_segments s)"
  by (auto simp: scheme_part_def normalize_resource_def path_segments_def)

lemma normalize_no_scheme: "scheme_part s = None \<Longrightarrow> normalize_resource s = s"
  by (simp add: scheme_part_def normalize_resource_def)

lemma scheme_part_append:
  assumes "scheme_part s = Some sch"
  shows "scheme_part (sch @ t) = Some sch"
    and "find_sub ''://'' (sch @ t) = Some (length sch - 3)" and "3 \<le> length sch"
proof -
  from assms obtain i where i: "find_sub ''://'' s = Some i" and sch: "sch = take (i + 3) s"
    by (auto simp: scheme_part_def)
  have len: "length sch = i + 3"
    using arg_cong[OF find_sub_Some[OF i], of length] by (simp add: sch)
  have f: "find_sub ''://'' (sch @ t) = Some i"
    using find_sub_take[OF i, of t] by (simp add: sch eval_nat_numeral)
  then show "find_sub ''://'' (sch @ t) = Some (length sch - 3)" by (simp add: len)
  show "scheme_part (sch @ t) = Some sch"
    using f by (simp add: scheme_part_def len)
  show "3 \<le> length sch" by (simp add: len)
qed

lemma filter_split_join:
  assumes "\<forall>seg \<in> set segs. seg \<noteq> [] \<and> seg \<noteq> ''.'' \<and> CHR ''/'' \<notin> set seg"
  shows "filter (\<lambda>seg. seg \<noteq> [] \<and> seg \<noteq> ''.'') (split_on CHR ''/'' (join_with ''/'' segs)) = segs"
proof (cases "segs = []")
  case False
  then show ?thesis using assms by (subst split_join) (auto intro: filter_True)
qed simp

lemma path_segments_normal:
  assumes "scheme_part s = Some sch"
    and "\<forall>seg \<in> set segs. seg \<noteq> [] \<and> seg \<noteq> ''.'' \<and> CHR ''/'' \<notin> set seg"
  shows "path_segments (sch @ join_with ''/'' segs) = segs"
  using filter_split_join[OF assms(2)] scheme_part_append[OF assms(1)]
  by (simp add: path_segments_def)

lemma scheme_part_normalize: "scheme_part (normalize_resource s) = scheme_part s"
  by (cases "scheme_part s") (auto simp: normalize_no_scheme normalize_scheme scheme_part_append(1))

lemma path_segments_normalize: "path_segments (normalize_resource s) = path_segments s"
proof (cases "scheme_part s")
  case None
  then show ?thesis by (simp add: normalize_no_scheme)
next
  case (Some sch)
  then show ?thesis
    using path_segments_normal[OF Some] path_segments_ok by (simp add: normalize_scheme)
qed

lemma normalize_idem: "normalize_resource (normalize_resource s) = normalize_resource s"
proof (cases "scheme_part s")
  case None
  then show ?thesis by (simp add: normalize_no_scheme)
next
  case (Some sch)
  then have "normalize_resource (normalize_resource s)
      = sch @ join_with ''/'' (path_segments (normalize_resource s))"
    by (intro normalize_scheme) (simp add: scheme_part_normalize)
  also have "\<dots> = normalize_resource s"
    by (subst path_segments_normalize) (rule normalize_scheme[OF Some, symmetric])
  finally show ?thesis .
qed

subsection \<open>Matching on normal forms\<close>

definition no_dotdot :: "string \<Rightarrow> bool" where
  "no_dotdot s = (''..'' \<notin> set (split_on CHR ''/'' s))"

lemma matches_wild:
  assumes "normalize_resource (as_str p) = pre @ ''*''" and "suffix ''/'' pre"
  shows "matches r p \<longleftrightarrow> (\<exists>t. normalize_resource (as_str r) = pre @ t \<and> no_dotdot t)"
proof -
  have "suffix ''/*'' (pre @ ''*'')" using assms(2) by (auto simp: suffix_def)
  then show ?thesis
    using assms by (auto simp: matches_def Let_def prefix_def no_dotdot_def)
qed

lemma matches_exact:
  "\<not> suffix ''/*'' (normalize_resource (as_str p)) \<Longrightarrow>
   matches r p \<longleftrightarrow> normalize_resource (as_str r) = normalize_resource (as_str p)"
  by (simp add: matches_def Let_def)

lemma wild_cases:
  obtains (wild) pre where "normalize_resource (as_str p) = pre @ ''*''" "suffix ''/'' pre"
  | (exact) "\<not> suffix ''/*'' (normalize_resource (as_str p))"
proof (cases "suffix ''/*'' (normalize_resource (as_str p))")
  case True
  then obtain u where "normalize_resource (as_str p) = (u @ ''/'') @ ''*''"
    by (auto simp: suffix_def)
  then show ?thesis using wild[of "u @ ''/''"] by (simp add: suffix_def)
qed (rule exact)

lemma no_dotdot_append_slash:
  "no_dotdot (u @ CHR ''/'' # v) \<longleftrightarrow> no_dotdot u \<and> no_dotdot v"
  by (auto simp: no_dotdot_def split_on_append_sep)

lemma matches_refl: "matches r r"
proof (cases rule: wild_cases[of r])
  case (wild pre)
  then show ?thesis by (auto simp: matches_wild no_dotdot_def)
next
  case exact
  then show ?thesis by (simp add: matches_exact)
qed

lemma matches_trans:
  assumes rq: "matches r q" and qp: "matches q p"
  shows "matches r p"
proof (cases rule: wild_cases[of p])
  case (wild pre)
  then obtain t where q: "normalize_resource (as_str q) = pre @ t" and t: "no_dotdot t"
    using qp by (auto simp: matches_wild)
  show ?thesis
  proof (cases rule: wild_cases[of q])
    case qw: (wild preq)
    obtain v where r: "normalize_resource (as_str r) = preq @ v" and v: "no_dotdot v"
      using rq qw by (auto simp: matches_wild)
    have "pre @ t = preq @ ''*''" using q qw by simp
    moreover have "t \<noteq> []" using wild(2) calculation by (auto simp: suffix_def)
    ultimately obtain t0 where t0: "t = t0 @ ''*''" "preq = pre @ t0"
      by (metis append_butlast_last_id append.assoc append_eq_append_conv butlast_append
          last_appendR last_snoc butlast_snoc)
    have "no_dotdot (t0 @ v)"
    proof (cases t0 rule: rev_cases)
      case (snoc u c)
      then have "c = CHR ''/''" using qw(2) t0(2) by (auto simp: suffix_def)
      then show ?thesis using snoc t t0(1) v by (simp add: no_dotdot_append_slash)
    qed (simp add: v)
    then show ?thesis using wild r t0(2) by (auto simp: matches_wild)
  next
    case exact
    then show ?thesis using rq q t wild by (auto simp: matches_exact matches_wild)
  qed
next
  case exact
  then have "normalize_resource (as_str q) = normalize_resource (as_str p)" using qp by (simp add: matches_exact)
  then show ?thesis using rq exact by (simp add: matches_exact)
qed

interpretation scope: scope_order matches
  by unfold_locales (rule matches_refl, rule matches_trans)

subsection \<open>The specification on segments\<close>

text \<open>
  A pattern whose last segment is a star covers the resources of its scheme whose segments
  extend the ones before the star and never step up afterwards; any other pattern covers
  exactly the resources with its own segments.
\<close>

definition scope_spec :: "string \<Rightarrow> string \<Rightarrow> bool" where
  "scope_spec r p = (scheme_part r = scheme_part p \<and>
     (let ps = path_segments p; rs = path_segments r; k = length ps - 1
      in if ps \<noteq> [] \<and> last ps = ''*''
         then take k rs = butlast ps \<and> (k = 0 \<or> k < length rs) \<and> ''..'' \<notin> set (drop k rs)
         else rs = ps))"

lemma scheme_part_ends_slash:
  assumes "scheme_part s = Some sch"
  obtains v where "sch = v @ ''/''"
proof -
  from assms obtain i where i: "find_sub ''://'' s = Some i" and sch: "sch = take (i + 3) s"
    by (auto simp: scheme_part_def)
  have s: "s = take i s @ ''://'' @ drop (i + 3) s"
    using find_sub_Some[OF i] by (simp add: eval_nat_numeral)
  have "length (take i s) = i"
    using arg_cong[OF find_sub_Some[OF i], of length] by simp
  then have "take (i + 3) (take i s @ ''://'' @ drop (i + 3) s) = take i s @ ''://''" by simp
  then have "sch = take i s @ ''://''" unfolding sch by (subst s)
  then show ?thesis using that[of "take i s @ '':/''"] by simp
qed

lemma star_suffix_iff:
  assumes "CHR ''/'' \<notin> set l"
  shows "suffix ''/*'' (u @ ''/'' @ l) \<longleftrightarrow> l = ''*''"
proof
  assume "suffix ''/*'' (u @ ''/'' @ l)"
  then obtain v where "u @ CHR ''/'' # l = v @ CHR ''/'' # ''*''" by (auto simp: suffix_def)
  then have "last (split_on CHR ''/'' (u @ CHR ''/'' # l)) = last (split_on CHR ''/'' (v @ CHR ''/'' # ''*''))"
    by simp
  then show "l = ''*''" using assms by (simp add: split_on_append_sep split_on_no_sep)
qed (simp add: suffix_def)

lemma normal_form_last:
  assumes "scheme_part s = Some sch" and "path_segments s = qs @ [l]"
  obtains u where "normalize_resource s = u @ ''/'' @ l" and "CHR ''/'' \<notin> set l"
    and "u @ ''/'' = sch @ (if qs = [] then [] else join_with ''/'' qs @ ''/'')"
proof -
  obtain v where v: "sch = v @ ''/''" using scheme_part_ends_slash[OF assms(1)] .
  have l: "CHR ''/'' \<notin> set l" using path_segments_ok[of l s] assms(2) by simp
  show ?thesis
  proof (cases "qs = []")
    case True
    then show ?thesis
      by (intro that[of v]) (simp_all add: normalize_scheme[OF assms(1)] assms(2) v l)
  next
    case False
    then show ?thesis
      by (intro that[of "sch @ join_with ''/'' qs"])
        (simp_all add: normalize_scheme[OF assms(1)] assms(2) l join_with_append)
  qed
qed

lemma normal_form_eq_iff:
  assumes "scheme_part p = Some sch"
  shows "normalize_resource r = normalize_resource p \<longleftrightarrow>
     scheme_part r = scheme_part p \<and> path_segments r = path_segments p"
proof
  assume "normalize_resource r = normalize_resource p"
  then show "scheme_part r = scheme_part p \<and> path_segments r = path_segments p"
    by (metis scheme_part_normalize path_segments_normalize)
qed (use assms in \<open>simp add: normalize_scheme\<close>)

lemma join_prefix_segments:
  assumes "qs \<noteq> []" and ok: "\<forall>seg \<in> set qs \<union> set rs. seg \<noteq> [] \<and> CHR ''/'' \<notin> set seg"
    and eq: "join_with ''/'' rs = join_with ''/'' qs @ ''/'' @ t"
  shows "rs = qs @ split_on CHR ''/'' t \<and> t \<noteq> []"
proof -
  have "rs \<noteq> []" using eq by auto
  then have "rs = split_on CHR ''/'' (join_with ''/'' rs)" using ok by (simp add: split_join)
  also have "\<dots> = split_on CHR ''/'' (join_with ''/'' qs @ CHR ''/'' # t)" by (simp add: eq)
  also have "\<dots> = split_on CHR ''/'' (join_with ''/'' qs) @ split_on CHR ''/'' t"
    by (rule split_on_append_sep)
  also have "split_on CHR ''/'' (join_with ''/'' qs) = qs"
    using assms(1) ok by (intro split_join) auto
  finally have "rs = qs @ split_on CHR ''/'' t" .
  moreover have "t \<noteq> []" using calculation ok by auto
  ultimately show ?thesis by blast
qed

lemma matches_star:
  assumes p: "scheme_part (as_str p) = Some sch" "path_segments (as_str p) = qs @ [''*'']"
  shows "matches r p \<longleftrightarrow> scheme_part (as_str r) = Some sch \<and>
     (\<exists>ts. path_segments (as_str r) = qs @ ts \<and> (qs = [] \<or> ts \<noteq> []) \<and> ''..'' \<notin> set ts)"
    (is "_ \<longleftrightarrow> ?S")
proof -
  obtain u where u0: "normalize_resource (as_str p) = u @ ''/'' @ ''*''"
    and pre: "u @ ''/'' = sch @ (if qs = [] then [] else join_with ''/'' qs @ ''/'')"
    using normal_form_last[OF p] .
  then have u: "normalize_resource (as_str p) = (u @ ''/'') @ ''*''" by simp
  have m: "matches r p \<longleftrightarrow> (\<exists>t. normalize_resource (as_str r) = (u @ ''/'') @ t \<and> no_dotdot t)"
    using u by (intro matches_wild) (auto simp: suffix_def)
  let ?rs = "path_segments (as_str r)"
  have ok: "\<forall>seg \<in> set qs \<union> set ?rs. seg \<noteq> [] \<and> CHR ''/'' \<notin> set seg"
    using path_segments_ok[of _ "as_str p"] path_segments_ok[of _ "as_str r"] p(2) by auto
  show ?thesis
  proof
    assume "matches r p"
    then obtain t where t: "normalize_resource (as_str r) = (u @ ''/'') @ t" "no_dotdot t"
      using m by blast
    have sr: "scheme_part (as_str r) = Some sch"
      using scheme_part_append(1)[OF p(1)] t(1) scheme_part_normalize[of "as_str r"]
      by (simp add: pre)
    then have j: "join_with ''/'' ?rs = (if qs = [] then [] else join_with ''/'' qs @ ''/'') @ t"
      using t(1) by (simp add: normalize_scheme pre)
    show ?S
    proof (cases "qs = []")
      case True
      then have j': "join_with ''/'' ?rs = t" using j by simp
      have "''..'' \<notin> set ?rs"
      proof (cases "?rs = []")
        case False
        then have "split_on CHR ''/'' (join_with ''/'' ?rs) = ?rs"
          using ok by (intro split_join) auto
        then show ?thesis using t(2) unfolding j' by (simp add: no_dotdot_def)
      qed simp
      then show ?thesis using True sr by simp
    next
      case False
      then have "?rs = qs @ split_on CHR ''/'' t"
        using join_prefix_segments[of qs ?rs t] ok j by simp
      moreover have "split_on CHR ''/'' t \<noteq> []" by (rule split_on_nonempty)
      ultimately show ?thesis using sr t(2) by (auto simp: no_dotdot_def)
    qed
  next
    assume ?S
    then obtain ts where sr: "scheme_part (as_str r) = Some sch"
      and ts: "?rs = qs @ ts" "qs = [] \<or> ts \<noteq> []" "''..'' \<notin> set ts" by blast
    have "normalize_resource (as_str r) = (u @ ''/'') @ join_with ''/'' ts"
      using sr ts(1,2) by (auto simp: normalize_scheme pre join_with_append)
    moreover have "no_dotdot (join_with ''/'' ts)"
      using ts ok by (cases "ts = []") (auto simp: no_dotdot_def split_join)
    ultimately show "matches r p" using m by blast
  qed
qed

lemma star_last_iff:
  assumes "scheme_part s = Some sch"
  shows "suffix ''/*'' (normalize_resource s)
    \<longleftrightarrow> path_segments s \<noteq> [] \<and> last (path_segments s) = ''*''"
proof (cases "path_segments s" rule: rev_cases)
  case Nil
  obtain v where "sch = v @ ''/''" using scheme_part_ends_slash[OF assms] .
  then show ?thesis using Nil assms by (auto simp: normalize_scheme suffix_def)
next
  case (snoc qs l)
  obtain u where "normalize_resource s = u @ ''/'' @ l" "CHR ''/'' \<notin> set l"
    using normal_form_last[OF assms snoc] .
  then show ?thesis using snoc star_suffix_iff[of l u] by simp
qed

subsection \<open>Properties\<close>



text \<open>
  Scopes form a preorder: a resource covered by a pattern that is itself
  covered by another pattern is covered by that one. A token delegated for a narrower
  pattern therefore never reaches a resource its parent does not reach, however many
  slashes, dots or stars the strings contain.
\<close>

theorem scope_never_widens:
  assumes "matches r child" and "matches child parent"
  shows "matches r parent \<and> matches parent parent"
  using scope.within_trans[OF assms] scope.within_refl by blast

theorem scope_never_widens_witness:
  "matches (ResourceId ''localhost://Users/a/b/c'') (ResourceId ''localhost://Users/*'')
   \<and> matches (ResourceId ''localhost://Users/*'') (ResourceId ''localhost://Users/*'')"
proof (rule scope_never_widens)
  show "matches (ResourceId ''localhost://Users/a/b/c'') (ResourceId ''localhost://Users/a/*'')"
    by code_simp
  show "matches (ResourceId ''localhost://Users/a/*'') (ResourceId ''localhost://Users/*'')"
    by code_simp
qed

end
