(* ===== verification/Audit_Log.thy ===== *)
theory Audit_Log
  imports Cap_Token
begin

section \<open>The audit log\<close>

text \<open>
  \<^verbatim>\<open>elastos-runtime/src/primitives/audit.rs\<close>: the event types, the log with its ring buffer
  and its file, one emitting helper per kind of event, and the readers. The state of the
  log is the extension \<open>host\<close> of the environment record, because every component that
  emits an event also reads the clock. JSON is an oracle of the log (\<open>audit_json\<close>,
  \<open>audit_parse\<close>), and so is the operating system's answer to a write (\<open>audit_io\<close>: how many
  bytes of the line the writer takes, and how many of its pending bytes reach the file).
  The locks are not modelled: an operation on the log is one step.
\<close>

subsection \<open>Events\<close>

text \<open>A \<^verbatim>\<open>serde_json::Value\<close>, and an \<^verbatim>\<open>f32\<close> as its bit pattern.\<close>

datatype json = JNull | JBool bool | JInt int | JStr string | JArr "json list"
  | JObj "(string \<times> json) list"

type_synonym f32 = "32 word"

datatype trust_level = Trusted | Community | Untrusted

datatype stop_reason = Requested | Completed | Error string | ResourceLimit string
  | SecurityViolation string

datatype fetch_source = LocalCache | IpfsGateway string | Peer string

datatype audit_event =
    RuntimeStart secure_timestamp string
  | RuntimeStop secure_timestamp
  | CapsuleLaunch secure_timestamp string string "string option" trust_level
  | CapsuleStop secure_timestamp string stop_reason
  | CapabilityGrant secure_timestamp string string string string "secure_timestamp option"
  | CapabilityRevoke secure_timestamp string string
  | CapabilityUse secure_timestamp string string string string bool
  | ContentFetch secure_timestamp string fetch_source bool
  | AuthAttempt secure_timestamp string bool string
  | EpochAdvance secure_timestamp u64 u64 string
  | ConfigChange secure_timestamp string string string
  | SecurityWarning secure_timestamp string string
  | SessionCreated secure_timestamp string string "string option"
  | SessionDestroyed secure_timestamp string string
  | CapabilityRequested secure_timestamp string string string string
  | CapabilityDenied secure_timestamp string string string
  | IdentityRegistered secure_timestamp string string
  | StorageAccess secure_timestamp string string string string bool
  | MessageSent secure_timestamp string string nat
  | PolicyProposal secure_timestamp string string f32 string
  | PolicyDecisionMade secure_timestamp string string string nat nat bool string
  | PolicyDivergence secure_timestamp string string string string string string string
  | Custom string json

fun event_type_name :: "audit_event \<Rightarrow> string" where
  "event_type_name (RuntimeStart _ _) = ''runtime_start''"
| "event_type_name (RuntimeStop _) = ''runtime_stop''"
| "event_type_name (CapsuleLaunch _ _ _ _ _) = ''capsule_launch''"
| "event_type_name (CapsuleStop _ _ _) = ''capsule_stop''"
| "event_type_name (CapabilityGrant _ _ _ _ _ _) = ''capability_grant''"
| "event_type_name (CapabilityRevoke _ _ _) = ''capability_revoke''"
| "event_type_name (CapabilityUse _ _ _ _ _ _) = ''capability_use''"
| "event_type_name (ContentFetch _ _ _ _) = ''content_fetch''"
| "event_type_name (AuthAttempt _ _ _ _) = ''auth_attempt''"
| "event_type_name (EpochAdvance _ _ _ _) = ''epoch_advance''"
| "event_type_name (ConfigChange _ _ _ _) = ''config_change''"
| "event_type_name (SecurityWarning _ _ _) = ''security_warning''"
| "event_type_name (SessionCreated _ _ _ _) = ''session_created''"
| "event_type_name (SessionDestroyed _ _ _) = ''session_destroyed''"
| "event_type_name (CapabilityRequested _ _ _ _ _) = ''capability_requested''"
| "event_type_name (CapabilityDenied _ _ _ _) = ''capability_denied''"
| "event_type_name (IdentityRegistered _ _ _) = ''identity_registered''"
| "event_type_name (StorageAccess _ _ _ _ _ _) = ''storage_access''"
| "event_type_name (MessageSent _ _ _ _) = ''message_sent''"
| "event_type_name (PolicyProposal _ _ _ _ _) = ''policy_proposal''"
| "event_type_name (PolicyDecisionMade _ _ _ _ _ _ _ _) = ''policy_decision_made''"
| "event_type_name (PolicyDivergence _ _ _ _ _ _ _ _) = ''policy_divergence''"
| "event_type_name (Custom _ _) = ''custom''"

subsection \<open>The log\<close>

definition MAX_MEMORY_EVENTS :: nat where
  "MAX_MEMORY_EVENTS = 1000"

text \<open>
  \<open>audit_writer\<close> holds the bytes pending in the \<^verbatim>\<open>BufWriter\<close>, if there is one;
  \<open>audit_file\<close> the bytes of the file at \<open>audit_path\<close>.
\<close>

datatype amount = Everything | AtMost nat

fun take_amount :: "amount \<Rightarrow> 'a list \<Rightarrow> 'a list" where
  "take_amount Everything xs = xs"
| "take_amount (AtMost n) xs = take n xs"

fun drop_amount :: "amount \<Rightarrow> 'a list \<Rightarrow> 'a list" where
  "drop_amount Everything xs = []"
| "drop_amount (AtMost n) xs = drop n xs"

record host = env +
  audit_buffer :: "audit_event list"
  audit_writer :: "string option"
  audit_path :: "string option"
  audit_file :: string
  audit_echo :: bool
  audit_stdout :: "string list"
  audit_json :: "audit_event \<Rightarrow> string option"
  audit_parse :: "string \<Rightarrow> audit_event option"
  audit_io :: "nat \<Rightarrow> amount \<times> amount"
  audit_ios :: nat
  audit_opens :: bool

definition audit_new :: "'a host_scheme \<Rightarrow> 'a host_scheme" where
  "audit_new h = h\<lparr>audit_buffer := [], audit_writer := None, audit_path := None, audit_echo := False\<rparr>"

text \<open>\<open>dir_ok\<close>, \<open>open_ok\<close>: the outcomes of \<^verbatim>\<open>create_dir_all\<close> and of opening for append.\<close>

definition audit_with_file ::
    "string \<Rightarrow> string \<Rightarrow> bool \<Rightarrow> bool \<Rightarrow> 'a host_scheme \<Rightarrow> ('a host_scheme) option" where
  "audit_with_file path content dir_ok open_ok h =
     (if \<not> dir_ok then None else if \<not> open_ok then None
      else Some (h\<lparr>audit_buffer := [], audit_writer := Some [], audit_path := Some path,
        audit_file := content, audit_echo := False\<rparr>))"

definition set_echo_stdout :: "bool \<Rightarrow> 'a host_scheme \<Rightarrow> 'a host_scheme" where
  "set_echo_stdout echo h = h\<lparr>audit_echo := echo\<rparr>"

definition push_event :: "audit_event \<Rightarrow> audit_event list \<Rightarrow> audit_event list" where
  "push_event ev buffer =
     (if length buffer \<ge> MAX_MEMORY_EVENTS then tl buffer else buffer) @ [ev]"

text \<open>\<^verbatim>\<open>writeln!(w, json)\<close> and \<^verbatim>\<open>w.flush()\<close>, whose errors \<open>emit\<close> drops.\<close>

definition write_line :: "string \<Rightarrow> 'a host_scheme \<Rightarrow> 'a host_scheme" where
  "write_line json h = (case audit_writer h of None \<Rightarrow> h
     | Some pending \<Rightarrow>
       (let (taken, flushed) = audit_io h (audit_ios h);
            pending = pending @ take_amount taken (json @ [newline])
        in h\<lparr>audit_ios := Suc (audit_ios h), audit_file := audit_file h @ take_amount flushed pending,
             audit_writer := Some (drop_amount flushed pending)\<rparr>))"

definition emit :: "audit_event \<Rightarrow> 'a host_scheme \<Rightarrow> 'a host_scheme" where
  "emit ev h =
     (let h = h\<lparr>audit_buffer := push_event ev (audit_buffer h)\<rparr>
      in case audit_json h ev of None \<Rightarrow> h
         | Some json \<Rightarrow>
           (let h = (if audit_echo h then h\<lparr>audit_stdout := audit_stdout h @ [''[AUDIT] '' @ json]\<rparr> else h)
            in write_line json h))"

subsection \<open>The emitting helpers\<close>

definition runtime_start :: "string \<Rightarrow> 'a host_scheme \<Rightarrow> 'a host_scheme" where
  "runtime_start version h = (let (t, h) = ts_now h in emit (RuntimeStart t version) h)"

definition runtime_stop :: "'a host_scheme \<Rightarrow> 'a host_scheme" where
  "runtime_stop h = (let (t, h) = ts_now h in emit (RuntimeStop t) h)"

definition capsule_launch ::
    "string \<Rightarrow> string \<Rightarrow> string option \<Rightarrow> trust_level \<Rightarrow> 'a host_scheme \<Rightarrow> 'a host_scheme" where
  "capsule_launch capsule_id capsule_name cid trust h =
     (let (t, h) = ts_now h in emit (CapsuleLaunch t capsule_id capsule_name cid trust) h)"

definition capsule_stop :: "string \<Rightarrow> stop_reason \<Rightarrow> 'a host_scheme \<Rightarrow> 'a host_scheme" where
  "capsule_stop capsule_id reason h =
     (let (t, h) = ts_now h in emit (CapsuleStop t capsule_id reason) h)"

definition capability_grant ::
    "externals \<Rightarrow> token_id \<Rightarrow> string \<Rightarrow> resource_id \<Rightarrow> action \<Rightarrow> secure_timestamp option
     \<Rightarrow> 'a host_scheme \<Rightarrow> 'a host_scheme" where
  "capability_grant X tid capsule_id resource act expiry h =
     (let (t, h) = ts_now h in emit (CapabilityGrant t (token_id_display X tid) capsule_id
        (as_str resource) (action_display act) expiry) h)"

definition capability_revoke ::
    "externals \<Rightarrow> token_id \<Rightarrow> string \<Rightarrow> 'a host_scheme \<Rightarrow> 'a host_scheme" where
  "capability_revoke X tid reason h =
     (let (t, h) = ts_now h in emit (CapabilityRevoke t (token_id_display X tid) reason) h)"

definition capability_use ::
    "externals \<Rightarrow> token_id \<Rightarrow> string \<Rightarrow> resource_id \<Rightarrow> action \<Rightarrow> bool
     \<Rightarrow> 'a host_scheme \<Rightarrow> 'a host_scheme" where
  "capability_use X tid capsule_id resource act success h =
     (let (t, h) = ts_now h in emit (CapabilityUse t (token_id_display X tid) capsule_id
        (as_str resource) (action_display act) success) h)"

definition content_fetch :: "string \<Rightarrow> fetch_source \<Rightarrow> bool \<Rightarrow> 'a host_scheme \<Rightarrow> 'a host_scheme" where
  "content_fetch cid source success h =
     (let (t, h) = ts_now h in emit (ContentFetch t cid source success) h)"

definition epoch_advance :: "u64 \<Rightarrow> u64 \<Rightarrow> string \<Rightarrow> 'a host_scheme \<Rightarrow> 'a host_scheme" where
  "epoch_advance old_epoch new_epoch reason h =
     (let (t, h) = ts_now h in emit (EpochAdvance t old_epoch new_epoch reason) h)"

definition storage_access ::
    "string \<Rightarrow> string \<Rightarrow> string \<Rightarrow> string \<Rightarrow> bool \<Rightarrow> 'a host_scheme \<Rightarrow> 'a host_scheme" where
  "storage_access session_id user_id uri act success h =
     (let (t, h) = ts_now h in emit (StorageAccess t session_id user_id uri act success) h)"

definition security_warning :: "string \<Rightarrow> string \<Rightarrow> 'a host_scheme \<Rightarrow> 'a host_scheme" where
  "security_warning warning_type details h =
     (let (t, h) = ts_now h in emit (SecurityWarning t warning_type details) h)"

definition message_sent :: "string \<Rightarrow> string \<Rightarrow> nat \<Rightarrow> 'a host_scheme \<Rightarrow> 'a host_scheme" where
  "message_sent sender to size_bytes h =
     (let (t, h) = ts_now h in emit (MessageSent t sender to size_bytes) h)"

definition policy_proposal ::
    "string \<Rightarrow> string \<Rightarrow> f32 \<Rightarrow> string \<Rightarrow> 'a host_scheme \<Rightarrow> 'a host_scheme" where
  "policy_proposal request_id recommended_outcome confidence rationale h =
     (let (t, h) = ts_now h
      in emit (PolicyProposal t request_id recommended_outcome confidence rationale) h)"

definition policy_divergence ::
    "string \<Rightarrow> string \<Rightarrow> string \<Rightarrow> string \<Rightarrow> string \<Rightarrow> string \<Rightarrow> string
     \<Rightarrow> 'a host_scheme \<Rightarrow> 'a host_scheme" where
  "policy_divergence request_id real_id shadow_id real_outcome shadow_outcome real_why shadow_why h =
     (let (t, h) = ts_now h in emit (PolicyDivergence t request_id real_id shadow_id
        real_outcome shadow_outcome real_why shadow_why) h)"

definition policy_decision_made ::
    "string \<Rightarrow> string \<Rightarrow> string \<Rightarrow> nat \<Rightarrow> nat \<Rightarrow> bool \<Rightarrow> string
     \<Rightarrow> 'a host_scheme \<Rightarrow> 'a host_scheme" where
  "policy_decision_made decision_id request_id outcome passed failed shadow why h =
     (let (t, h) = ts_now h in emit (PolicyDecisionMade t decision_id request_id outcome
        passed failed shadow why) h)"

text \<open>The bridge to the sinks of the namespace crate, which has its own \<^verbatim>\<open>FetchSource\<close>.\<close>

datatype ns_fetch_source = NsLocalCache | NsIpfsGateway string

fun runtime_source :: "ns_fetch_source \<Rightarrow> fetch_source" where
  "runtime_source NsLocalCache = LocalCache"
| "runtime_source (NsIpfsGateway gw) = IpfsGateway gw"

definition sink_content_fetch ::
    "string \<Rightarrow> ns_fetch_source \<Rightarrow> bool \<Rightarrow> 'a host_scheme \<Rightarrow> 'a host_scheme" where
  "sink_content_fetch identifier source verified h =
     content_fetch identifier (runtime_source source) verified h"

definition namespace_loaded :: "string \<Rightarrow> 'a host_scheme \<Rightarrow> 'a host_scheme" where
  "namespace_loaded owner h = emit (Custom ''namespace_loaded'' (JObj [(''owner'', JStr owner)])) h"

definition namespace_created :: "string \<Rightarrow> 'a host_scheme \<Rightarrow> 'a host_scheme" where
  "namespace_created owner h = emit (Custom ''namespace_created'' (JObj [(''owner'', JStr owner)])) h"

definition namespace_saved :: "string \<Rightarrow> string \<Rightarrow> 'a host_scheme \<Rightarrow> 'a host_scheme" where
  "namespace_saved owner cid h =
     emit (Custom ''namespace_saved'' (JObj [(''cid'', JStr cid), (''owner'', JStr owner)])) h"

subsection \<open>Readers\<close>

definition log_path :: "'a host_scheme \<Rightarrow> string option" where
  "log_path h = audit_path h"

definition recent_events :: "nat \<Rightarrow> 'a host_scheme \<Rightarrow> audit_event list" where
  "recent_events limit h = take limit (rev (audit_buffer h))"

definition recent_events_filtered ::
    "nat \<Rightarrow> string option \<Rightarrow> 'a host_scheme \<Rightarrow> audit_event list" where
  "recent_events_filtered limit event_type h =
     take limit (filter (\<lambda>e. case event_type of Some f \<Rightarrow> event_type_name e = f | None \<Rightarrow> True)
       (rev (audit_buffer h)))"

definition read_from_file :: "nat \<Rightarrow> 'a host_scheme \<Rightarrow> audit_event list" where
  "read_from_file limit h =
     (if audit_path h \<noteq> None \<and> audit_opens h then
        (let events = List.map_filter (audit_parse h) (takeWhile utf8_ok (lines (audit_file h)))
         in drop (length events - limit) events)
      else recent_events limit h)"

definition event_count :: "'a host_scheme \<Rightarrow> nat" where
  "event_count h = length (audit_buffer h)"

subsection \<open>Laws of \<open>emit\<close>\<close>

lemma emit_frame [simp, frame]:
  "wall_clock (emit ev h) = wall_clock h" "wall_reads (emit ev h) = wall_reads h"
  "mono_counter (emit ev h) = mono_counter h" "instant_clock (emit ev h) = instant_clock h"
  "instant_reads (emit ev h) = instant_reads h" "uuid_bytes (emit ev h) = uuid_bytes h"
  "uuid_strings (emit ev h) = uuid_strings h" "uuid_draws (emit ev h) = uuid_draws h"
  "audit_path (emit ev h) = audit_path h" "audit_json (emit ev h) = audit_json h"
  "audit_parse (emit ev h) = audit_parse h" "audit_io (emit ev h) = audit_io h"
  "audit_opens (emit ev h) = audit_opens h" "audit_echo (emit ev h) = audit_echo h"
  "host.more (emit ev h) = host.more h"
  by (simp_all add: emit_def write_line_def Let_def split: option.splits prod.splits)

lemma emit_buffer [simp]: "audit_buffer (emit ev h) = push_event ev (audit_buffer h)"
  by (simp add: emit_def write_line_def Let_def split: option.splits prod.splits)

text \<open>
  The buffer is the end of the history: \<open>keep_last n xs\<close> is what a ring of \<open>n\<close> slots holds
  after the events \<open>xs\<close>.
\<close>

definition keep_last :: "nat \<Rightarrow> 'a list \<Rightarrow> 'a list" where
  "keep_last n xs = drop (length xs - n) xs"

lemma length_keep_last [simp]: "length (keep_last n xs) = min n (length xs)"
  by (simp add: keep_last_def)

lemma keep_last_short: "length xs \<le> n \<Longrightarrow> keep_last n xs = xs"
  by (simp add: keep_last_def)

lemma keep_last_append: "keep_last n (keep_last n xs @ ys) = keep_last n (xs @ ys)"
proof (cases "length xs \<le> n")
  case False
  then have "length (keep_last n xs @ ys) - n = length ys" by simp
  moreover have "length (xs @ ys) - n = length xs - n + length ys" using False by simp
  ultimately show ?thesis using False
    by (simp add: keep_last_def drop_append drop_drop add.commute)
qed (simp add: keep_last_short)

lemma push_event_keep_last:
  "length b \<le> MAX_MEMORY_EVENTS \<Longrightarrow> push_event ev b = keep_last MAX_MEMORY_EVENTS (b @ [ev])"
  by (auto simp: push_event_def keep_last_def MAX_MEMORY_EVENTS_def drop_Suc drop_0)

lemma push_event_bound: "length b \<le> MAX_MEMORY_EVENTS \<Longrightarrow> length (push_event ev b) \<le> MAX_MEMORY_EVENTS"
  by (simp add: push_event_keep_last)

lemma push_event_last [simp]: "last (push_event ev b) = ev" "push_event ev b \<noteq> []"
  by (simp_all add: push_event_def)

lemma buffer_fold_emit:
  "length (audit_buffer h) \<le> MAX_MEMORY_EVENTS \<Longrightarrow>
   audit_buffer (fold emit es h) = keep_last MAX_MEMORY_EVENTS (audit_buffer h @ es)"
proof (induction es arbitrary: h)
  case Nil
  then show ?case by (simp add: keep_last_short)
next
  case (Cons ev es)
  then show ?case
    using keep_last_append[of MAX_MEMORY_EVENTS "audit_buffer h @ [ev]" es]
    by (simp add: push_event_keep_last)
qed

subsection \<open>The file\<close>

text \<open>An event whose JSON is one line of valid text that parses back.\<close>

definition json_line :: "'a host_scheme \<Rightarrow> audit_event \<Rightarrow> bool" where
  "json_line h ev = (case audit_json h ev of None \<Rightarrow> False
     | Some j \<Rightarrow> audit_parse h j = Some ev \<and> newline \<notin> set j \<and> utf8_ok j \<and> strip_cr j = j)"

text \<open>A writer whose every write and flush goes through.\<close>

definition disk_healthy :: "'a host_scheme \<Rightarrow> bool" where
  "disk_healthy h = (\<forall>n. audit_io h n = (Everything, Everything))"

lemma emit_file:
  assumes "disk_healthy h" "audit_writer h = Some []" "audit_json h ev = Some j"
  shows "audit_file (emit ev h) = audit_file h @ j @ [newline]"
    and "audit_writer (emit ev h) = Some []"
  using assms by (auto simp: emit_def write_line_def disk_healthy_def Let_def)

lemma lines_terminated:
  "\<forall>x \<in> set xs. newline \<notin> set x \<Longrightarrow>
   lines (concat (map (\<lambda>x. x @ [newline]) xs)) = map strip_cr xs"
proof -
  assume ok: "\<forall>x \<in> set xs. newline \<notin> set x"
  then have "split_on newline (concat (map (\<lambda>x. x @ [newline]) xs)) = xs @ [[]]"
    by (induction xs) (simp_all add: split_on_append_sep split_on_no_sep)
  then show ?thesis by (simp add: lines_def)
qed

lemma file_fold_emit:
  assumes "disk_healthy h" "audit_writer h = Some []" "\<forall>ev \<in> set es. audit_json h ev \<noteq> None"
  shows "audit_file (fold emit es h)
    = audit_file h @ concat (map (\<lambda>j. j @ [newline]) (map (the \<circ> audit_json h) es))"
  using assms
proof (induction es arbitrary: h)
  case (Cons ev es)
  then obtain j where j: "audit_json h ev = Some j" by auto
  have "disk_healthy (emit ev h)" using Cons.prems(1) by (simp add: disk_healthy_def)
  then have "audit_file (fold emit es (emit ev h)) = audit_file (emit ev h)
      @ concat (map (\<lambda>j. j @ [newline]) (map (the \<circ> audit_json (emit ev h)) es))"
    using Cons.prems(3) emit_file(2)[OF Cons.prems(1,2) j] by (intro Cons.IH) simp_all
  then show ?case using emit_file(1)[OF Cons.prems(1,2) j] j by (simp add: comp_def)
qed simp

lemma fold_emit_frame:
  "audit_path (fold emit es h) = audit_path h" "audit_opens (fold emit es h) = audit_opens h"
  "audit_parse (fold emit es h) = audit_parse h"
  by (induction es arbitrary: h) simp_all

subsection \<open>Properties\<close>

text \<open>
  The ring buffer implements the abstract log that keeps the newest thousand
  events: after any sequence of events on a log within its bound, \<^verbatim>\<open>recent_events(limit)\<close>
  returns the newest events of the whole history, newest first, at most \<^verbatim>\<open>limit\<close> and at
  most \<^verbatim>\<open>MAX_MEMORY_EVENTS\<close> of them, and the bound is kept.
\<close>

theorem recent_events_are_latest:
  assumes "event_count h \<le> MAX_MEMORY_EVENTS"
  shows "recent_events limit (fold emit es h)
      = take (min limit MAX_MEMORY_EVENTS) (rev (audit_buffer h @ es))
    \<and> event_count (fold emit es h) \<le> MAX_MEMORY_EVENTS"
proof -
  have "rev (keep_last n xs) = take n (rev xs)" for n and xs :: "audit_event list"
    by (cases "n \<le> length xs") (simp_all add: keep_last_def rev_drop)
  then show ?thesis
    using assms
    by (simp only: recent_events_def event_count_def buffer_fold_emit take_take length_keep_last)
      simp
qed

definition demo_host :: host where
  "demo_host = \<lparr>wall_clock = (\<lambda>n. 1000 + of_nat n), wall_reads = 0, mono_counter = 7,
     instant_clock = (\<lambda>n. n), instant_reads = 0, uuid_bytes = (\<lambda>n. replicate 15 0 @ [of_nat n]),
     uuid_strings = (\<lambda>n. replicate n CHR ''u''), uuid_draws = 0,
     audit_buffer = [], audit_writer = Some [], audit_path = Some ''audit.log'', audit_file = [],
     audit_echo = False, audit_stdout = [], audit_json = (\<lambda>ev. Some (event_type_name ev)),
     audit_parse = (\<lambda>l. Some (Custom l JNull)), audit_io = (\<lambda>n. (Everything, Everything)),
     audit_ios = 0, audit_opens = True\<rparr>"

theorem recent_events_are_latest_witness:
  "recent_events 1 (fold emit [Custom ''a'' JNull, Custom ''b'' JNull] demo_host) = [Custom ''b'' JNull]"
proof -
  have "event_count demo_host \<le> MAX_MEMORY_EVENTS" by code_simp
  moreover have "audit_buffer demo_host = []" by (simp add: demo_host_def)
  ultimately show ?thesis
    using recent_events_are_latest[of demo_host 1 "[Custom ''a'' JNull, Custom ''b'' JNull]"]
    by (simp add: MAX_MEMORY_EVENTS_def)
qed

text \<open>
  The log file is complete: on a fresh log whose writes succeed, when every
  event serialises to one line that parses back, \<^verbatim>\<open>read_from_file(limit)\<close> returns exactly
  the last \<^verbatim>\<open>limit\<close> events emitted, in the order of emission, however many there were.
\<close>

theorem read_from_file_complete:
  assumes "audit_with_file path [] dir_ok open_ok h0 = Some h"
    and "disk_healthy h" and "audit_opens h" and "\<forall>ev \<in> set es. json_line h ev"
  shows "read_from_file limit (fold emit es h) = drop (length es - limit) es"
proof -
  have h: "audit_writer h = Some []" "audit_path h = Some path" "audit_file h = []"
    using assms(1) by (auto simp: audit_with_file_def split: if_splits)
  let ?js = "map (the \<circ> audit_json h) es"
  have js: "\<forall>ev \<in> set es. \<exists>j. audit_json h ev = Some j \<and> audit_parse h j = Some ev
      \<and> newline \<notin> set j \<and> utf8_ok j \<and> strip_cr j = j"
    using assms(4) by (auto simp: json_line_def split: option.splits)
  have "audit_file (fold emit es h) = concat (map (\<lambda>j. j @ [newline]) ?js)"
    using file_fold_emit[OF assms(2) h(1)] js h(3) by fastforce
  moreover have "lines (concat (map (\<lambda>j. j @ [newline]) ?js)) = map strip_cr ?js"
    using js by (intro lines_terminated) fastforce
  moreover have "map strip_cr ?js = ?js" using js by (intro map_idI) fastforce
  moreover have "takeWhile utf8_ok ?js = ?js" using js by (intro takeWhile_eq_all_conv[THEN iffD2]) fastforce
  moreover have "List.map_filter (audit_parse h) ?js = es"
    using js by (induction es) (auto simp: List.map_filter_simps)
  ultimately show ?thesis
    using assms(3) h(2)
    by (simp only: read_from_file_def fold_emit_frame Let_def simp_thms if_True not_None_eq) simp
qed

theorem read_from_file_complete_witness:
  "read_from_file 1 (fold emit [Custom ''a'' JNull, Custom ''custom'' JNull]
      (demo_host\<lparr>audit_json := (\<lambda>ev. case ev of Custom l JNull \<Rightarrow> Some l | _ \<Rightarrow> None)\<rparr>))
     = [Custom ''custom'' JNull]"
proof -
  let ?h = "demo_host\<lparr>audit_json := (\<lambda>ev. case ev of Custom l JNull \<Rightarrow> Some l | _ \<Rightarrow> None)\<rparr>"
  let ?es = "[Custom ''a'' JNull, Custom ''custom'' JNull]"
  have "audit_with_file ''audit.log'' [] True True ?h = Some ?h"
    by (simp add: audit_with_file_def demo_host_def)
  moreover have "disk_healthy ?h" "audit_opens ?h"
    by (simp_all add: disk_healthy_def demo_host_def)
  moreover have "\<forall>ev \<in> set ?es. json_line ?h ev" by code_simp
  ultimately have "read_from_file 1 (fold emit ?es ?h) = drop (length ?es - 1) ?es"
    by (rule read_from_file_complete)
  then show ?thesis by simp
qed

end
