(* ===== verification/Metrics.thy ===== *)
theory Metrics
  imports Audit_Log
begin

section \<open>Per-capsule metrics and rate limits\<close>

text \<open>
  \<^verbatim>\<open>elastos-runtime/src/primitives/metrics.rs\<close>. The manager's maps are the extension
  \<open>meter\<close> of the host record. Counters are 64-bit words and wrap; the clock of the
  rate-limiting period is the monotonic one, in nanoseconds.
\<close>

subsection \<open>The counters of one capsule\<close>

record capsule_metrics =
  capability_requests :: u64
  messages_sent :: u64
  messages_received :: u64
  memory_bytes :: u64
  total_capability_uses :: u64
  total_bytes_read :: u64
  total_bytes_written :: u64
  error_count :: u64
  started_at :: u64
  cpu_time_ms :: u64

definition capsule_metrics_new :: "'a env_scheme \<Rightarrow> capsule_metrics \<times> 'a env_scheme" where
  "capsule_metrics_new e = (let (now, e) = read_wall e in
     (\<lparr>capability_requests = 0, messages_sent = 0, messages_received = 0, memory_bytes = 0,
       total_capability_uses = 0, total_bytes_read = 0, total_bytes_written = 0,
       error_count = 0, started_at = now, cpu_time_ms = 0\<rparr>, e))"

definition cm_capability_request :: "capsule_metrics \<Rightarrow> capsule_metrics" where
  "cm_capability_request m = m\<lparr>capability_requests := capability_requests m + 1\<rparr>"

definition cm_capability_use :: "capsule_metrics \<Rightarrow> capsule_metrics" where
  "cm_capability_use m = m\<lparr>total_capability_uses := total_capability_uses m + 1\<rparr>"

definition cm_message_sent :: "capsule_metrics \<Rightarrow> capsule_metrics" where
  "cm_message_sent m = m\<lparr>messages_sent := messages_sent m + 1\<rparr>"

definition cm_message_received :: "capsule_metrics \<Rightarrow> capsule_metrics" where
  "cm_message_received m = m\<lparr>messages_received := messages_received m + 1\<rparr>"

definition cm_bytes_read :: "u64 \<Rightarrow> capsule_metrics \<Rightarrow> capsule_metrics" where
  "cm_bytes_read n m = m\<lparr>total_bytes_read := total_bytes_read m + n\<rparr>"

definition cm_bytes_written :: "u64 \<Rightarrow> capsule_metrics \<Rightarrow> capsule_metrics" where
  "cm_bytes_written n m = m\<lparr>total_bytes_written := total_bytes_written m + n\<rparr>"

definition cm_error :: "capsule_metrics \<Rightarrow> capsule_metrics" where
  "cm_error m = m\<lparr>error_count := error_count m + 1\<rparr>"

definition cm_set_memory :: "u64 \<Rightarrow> capsule_metrics \<Rightarrow> capsule_metrics" where
  "cm_set_memory n m = m\<lparr>memory_bytes := n\<rparr>"

definition reset_period_counters :: "capsule_metrics \<Rightarrow> capsule_metrics" where
  "reset_period_counters m = m\<lparr>capability_requests := 0, messages_sent := 0, messages_received := 0\<rparr>"

subsection \<open>Limits\<close>

record resource_limits =
  max_capability_requests_per_min :: u32
  max_messages_per_sec :: u32
  max_memory_bytes :: u64
  max_storage_bytes :: u64

definition resource_limits_default :: resource_limits where
  "resource_limits_default = \<lparr>max_capability_requests_per_min = 1000, max_messages_per_sec = 100,
     max_memory_bytes = 256 * 1024 * 1024, max_storage_bytes = 1024 * 1024 * 1024\<rparr>"

subsection \<open>The manager\<close>

record meter = host +
  metrics :: "(string, capsule_metrics) hmap"
  default_limits :: resource_limits
  limits :: "(string, resource_limits) hmap"
  period_start :: nat
  period_duration :: nat

definition metrics_new :: "'a meter_scheme \<Rightarrow> 'a meter_scheme" where
  "metrics_new s = (let (now, s) = read_instant s in
     s\<lparr>metrics := [], default_limits := resource_limits_default, limits := [],
       period_start := now, period_duration := 60 * 1000000000\<rparr>)"

definition start_capsule :: "string \<Rightarrow> 'a meter_scheme \<Rightarrow> 'a meter_scheme" where
  "start_capsule capsule_id s = (let (m, s) = capsule_metrics_new s in
     s\<lparr>metrics := hm_insert capsule_id m (metrics s)\<rparr>)"

definition stop_capsule :: "string \<Rightarrow> 'a meter_scheme \<Rightarrow> capsule_metrics option \<times> 'a meter_scheme" where
  "stop_capsule capsule_id s =
     (hm_get (metrics s) capsule_id, s\<lparr>metrics := hm_remove capsule_id (metrics s)\<rparr>)"

definition get_metrics :: "string \<Rightarrow> 'a meter_scheme \<Rightarrow> capsule_metrics option" where
  "get_metrics capsule_id s = hm_get (metrics s) capsule_id"

definition get_all_metrics :: "'a meter_scheme \<Rightarrow> (string, capsule_metrics) hmap" where
  "get_all_metrics s = metrics s"

definition check_period_reset :: "'a meter_scheme \<Rightarrow> 'a meter_scheme" where
  "check_period_reset s = (let (now, s) = read_instant s in
     if now - period_start s \<ge> period_duration s then
       (let (now, s) = read_instant s
        in s\<lparr>period_start := now, metrics := hm_map_values reset_period_counters (metrics s)\<rparr>)
     else s)"

definition update_metrics ::
    "(capsule_metrics \<Rightarrow> capsule_metrics) \<Rightarrow> string \<Rightarrow> 'a meter_scheme \<Rightarrow> 'a meter_scheme" where
  "update_metrics f capsule_id s = s\<lparr>metrics := hm_modify capsule_id f (metrics s)\<rparr>"

definition record_capability_request :: "string \<Rightarrow> 'a meter_scheme \<Rightarrow> 'a meter_scheme" where
  "record_capability_request capsule_id s =
     update_metrics cm_capability_request capsule_id (check_period_reset s)"

definition record_capability_use :: "string \<Rightarrow> 'a meter_scheme \<Rightarrow> 'a meter_scheme" where
  "record_capability_use capsule_id s = update_metrics cm_capability_use capsule_id s"

definition record_message_sent :: "string \<Rightarrow> 'a meter_scheme \<Rightarrow> 'a meter_scheme" where
  "record_message_sent capsule_id s = update_metrics cm_message_sent capsule_id (check_period_reset s)"

definition record_message_received :: "string \<Rightarrow> 'a meter_scheme \<Rightarrow> 'a meter_scheme" where
  "record_message_received capsule_id s = update_metrics cm_message_received capsule_id s"

definition record_bytes_read :: "string \<Rightarrow> u64 \<Rightarrow> 'a meter_scheme \<Rightarrow> 'a meter_scheme" where
  "record_bytes_read capsule_id n s = update_metrics (cm_bytes_read n) capsule_id s"

definition record_bytes_written :: "string \<Rightarrow> u64 \<Rightarrow> 'a meter_scheme \<Rightarrow> 'a meter_scheme" where
  "record_bytes_written capsule_id n s = update_metrics (cm_bytes_written n) capsule_id s"

definition record_error :: "string \<Rightarrow> 'a meter_scheme \<Rightarrow> 'a meter_scheme" where
  "record_error capsule_id s = update_metrics cm_error capsule_id s"

definition set_memory_bytes :: "string \<Rightarrow> u64 \<Rightarrow> 'a meter_scheme \<Rightarrow> 'a meter_scheme" where
  "set_memory_bytes capsule_id n s = update_metrics (cm_set_memory n) capsule_id s"

definition set_limits :: "string \<Rightarrow> resource_limits \<Rightarrow> 'a meter_scheme \<Rightarrow> 'a meter_scheme" where
  "set_limits capsule_id l s = s\<lparr>limits := hm_insert capsule_id l (limits s)\<rparr>"

definition get_limits :: "string \<Rightarrow> 'a meter_scheme \<Rightarrow> resource_limits" where
  "get_limits capsule_id s = (case hm_get (limits s) capsule_id of Some l \<Rightarrow> l | None \<Rightarrow> default_limits s)"

definition would_exceed_capability_limit :: "string \<Rightarrow> 'a meter_scheme \<Rightarrow> bool" where
  "would_exceed_capability_limit capsule_id s =
     (let l = get_limits capsule_id s in case hm_get (metrics s) capsule_id of
        Some m \<Rightarrow> capability_requests m \<ge> ucast (max_capability_requests_per_min l)
      | None \<Rightarrow> False)"

definition would_exceed_message_limit :: "string \<Rightarrow> 'a meter_scheme \<Rightarrow> bool" where
  "would_exceed_message_limit capsule_id s =
     (let l = get_limits capsule_id s in case hm_get (metrics s) capsule_id of
        Some m \<Rightarrow> messages_sent m \<ge> ucast (max_messages_per_sec l) * 60
      | None \<Rightarrow> False)"

subsection \<open>Frames and laws\<close>

lemma emit_meter [simp, frame]:
  "metrics (emit ev s) = metrics s" "default_limits (emit ev s) = default_limits s"
  "limits (emit ev s) = limits s" "period_start (emit ev s) = period_start s"
  "period_duration (emit ev s) = period_duration s" "meter.more (emit ev s) = meter.more s"
  by (simp_all add: emit_def write_line_def Let_def split: option.splits prod.splits)

lemma update_metrics_frame [simp, frame]:
  "audit_buffer (update_metrics f c s) = audit_buffer s" "wall_reads (update_metrics f c s) = wall_reads s"
  "wall_clock (update_metrics f c s) = wall_clock s" "mono_counter (update_metrics f c s) = mono_counter s"
  "limits (update_metrics f c s) = limits s" "default_limits (update_metrics f c s) = default_limits s"
  "period_start (update_metrics f c s) = period_start s"
  "period_duration (update_metrics f c s) = period_duration s"
  "instant_clock (update_metrics f c s) = instant_clock s"
  "instant_reads (update_metrics f c s) = instant_reads s"
  "uuid_draws (update_metrics f c s) = uuid_draws s" "uuid_bytes (update_metrics f c s) = uuid_bytes s"
  "uuid_strings (update_metrics f c s) = uuid_strings s"
  "meter.more (update_metrics f c s) = meter.more s"
  by (simp_all add: update_metrics_def)

lemma metrics_update_metrics [simp]:
  "hm_get (metrics (update_metrics f c s)) k =
     (if k = c then map_option f (hm_get (metrics s) k) else hm_get (metrics s) k)"
  by (simp add: update_metrics_def)

lemma check_period_reset_frame [simp, frame]:
  "audit_buffer (check_period_reset s) = audit_buffer s" "wall_reads (check_period_reset s) = wall_reads s"
  "wall_clock (check_period_reset s) = wall_clock s" "mono_counter (check_period_reset s) = mono_counter s"
  "limits (check_period_reset s) = limits s" "default_limits (check_period_reset s) = default_limits s"
  "period_duration (check_period_reset s) = period_duration s"
  "instant_clock (check_period_reset s) = instant_clock s"
  "uuid_draws (check_period_reset s) = uuid_draws s" "uuid_bytes (check_period_reset s) = uuid_bytes s"
  "meter.more (check_period_reset s) = meter.more s"
  by (simp_all add: check_period_reset_def read_instant_def Let_def)

text \<open>Whether the next call finds the period over.\<close>

definition period_over :: "'a meter_scheme \<Rightarrow> bool" where
  "period_over s = (instant_clock s (instant_reads s) - period_start s \<ge> period_duration s)"

lemma check_period_reset_metrics:
  "metrics (check_period_reset s)
    = (if period_over s then hm_map_values reset_period_counters (metrics s) else metrics s)"
  by (simp add: check_period_reset_def period_over_def read_instant_def Let_def)

subsection \<open>Properties\<close>

text \<open>
  The counting window: recording a sent message adds one to the sender's counter
  alone while the period runs; once it is over, it restarts every capsule's period counters at
  zero first, so the sender's counter is one and every other one is zero, and the next period
  starts at the clock's next reading. Lifetime counters are never reset.
\<close>

theorem message_window:
  assumes "hm_get (metrics s) c = Some m"
  shows "get_metrics c (record_message_sent c s) = Some (if period_over s
       then m\<lparr>capability_requests := 0, messages_sent := 1, messages_received := 0\<rparr>
       else m\<lparr>messages_sent := messages_sent m + 1\<rparr>)
    \<and> (d \<noteq> c \<longrightarrow> get_metrics d (record_message_sent c s)
         = (if period_over s then map_option reset_period_counters (get_metrics d s) else get_metrics d s))
    \<and> period_start (record_message_sent c s)
         = (if period_over s then instant_clock s (Suc (instant_reads s)) else period_start s)"
  using assms
  by (auto simp: record_message_sent_def get_metrics_def check_period_reset_metrics
      cm_message_sent_def reset_period_counters_def update_metrics_def)
    (auto simp: check_period_reset_def period_over_def read_instant_def Let_def)

text \<open>A state for the examples, with the capsule \<open>c\<close> tracked.\<close>

definition demo_metrics :: "u64 \<Rightarrow> capsule_metrics" where
  "demo_metrics sent = \<lparr>capability_requests = 0, messages_sent = sent, messages_received = 0,
     memory_bytes = 0, total_capability_uses = 0, total_bytes_read = 0, total_bytes_written = 0,
     error_count = 0, started_at = 0, cpu_time_ms = 0\<rparr>"

definition demo_meter :: meter where
  "demo_meter = \<lparr>wall_clock = (\<lambda>n. 1000 + of_nat n), wall_reads = 0, mono_counter = 7,
     instant_clock = (\<lambda>n. n), instant_reads = 0, uuid_bytes = (\<lambda>n. replicate 15 0 @ [of_nat n]),
     uuid_strings = (\<lambda>n. replicate n CHR ''u''), uuid_draws = 0,
     audit_buffer = [], audit_writer = None, audit_path = None, audit_file = [],
     audit_echo = False, audit_stdout = [], audit_json = (\<lambda>ev. None),
     audit_parse = (\<lambda>l. None), audit_io = (\<lambda>n. (Everything, Everything)),
     audit_ios = 0, audit_opens = False,
     metrics = [(''c'', demo_metrics 5)], default_limits = resource_limits_default, limits = [],
     period_start = 0, period_duration = 60 * 1000000000\<rparr>"

theorem message_window_witness:
  "get_metrics ''c'' (record_message_sent ''c'' demo_meter) = Some (demo_metrics 6)"
proof -
  have c: "hm_get (metrics demo_meter) ''c'' = Some (demo_metrics 5)"
    by (simp add: demo_meter_def hm_get_def)
  have "\<not> period_over demo_meter"
    by (simp add: period_over_def demo_meter_def)
  then show ?thesis using message_window[OF c, of "''d''"] by (simp add: demo_metrics_def)
qed

end
