(* ===== verification/Cap_Store.thy ===== *)
theory Cap_Store
  imports Metrics
begin

section \<open>The capability store: epoch, use counts, revocation list\<close>

text \<open>
  \<^verbatim>\<open>elastos-runtime/src/capability/store.rs\<close>. The store's fields extend the state to
  \<open>runtime\<close>. A persistent store has a directory with the files \<^verbatim>\<open>epoch\<close> and
  \<^verbatim>\<open>revoked_tokens\<close>; the outcomes of the writes are an oracle. A file that exists may be
  unreadable. The \<^verbatim>\<open>.tmp\<close> files are not modelled: nothing reads them.
\<close>

datatype file_state = Absent | Unreadable | File string

record store_files =
  epoch_file :: file_state
  revoked_file :: file_state

datatype io_outcome = IoOk | IoErr file_state

record runtime = meter +
  store_epoch :: u64
  use_counts :: "(token_id, u32) hmap"
  revoked_tokens :: "token_id list"
  store_disk :: "store_files option"
  store_io :: "nat \<Rightarrow> io_outcome"
  store_ios :: nat

text \<open>\<^verbatim>\<open>HashSet::insert\<close>, and the outcome of the next write.\<close>

definition set_insert :: "'a \<Rightarrow> 'a list \<Rightarrow> 'a list" where
  "set_insert x xs = (if x \<in> set xs then xs else xs @ [x])"

definition next_io :: "'a runtime_scheme \<Rightarrow> io_outcome \<times> 'a runtime_scheme" where
  "next_io s = (store_io s (store_ios s), s\<lparr>store_ios := Suc (store_ios s)\<rparr>)"

text \<open>\<^verbatim>\<open>fs::read_to_string\<close>: fails on an unreadable file and on bytes that are not UTF-8.\<close>

fun read_to_string :: "file_state \<Rightarrow> string option" where
  "read_to_string Absent = None"
| "read_to_string Unreadable = None"
| "read_to_string (File content) = (if utf8_ok content then Some content else None)"

subsection \<open>Operations\<close>

definition store_new :: "'a runtime_scheme \<Rightarrow> 'a runtime_scheme" where
  "store_new s = s\<lparr>store_epoch := 0, use_counts := [], revoked_tokens := [], store_disk := None\<rparr>"

definition current_epoch :: "'a runtime_scheme \<Rightarrow> u64" where
  "current_epoch s = store_epoch s"

definition set_epoch :: "u64 \<Rightarrow> 'a runtime_scheme \<Rightarrow> 'a runtime_scheme" where
  "set_epoch e s = s\<lparr>store_epoch := e\<rparr>"

text \<open>
  The new epoch is written to a temporary file that then replaces \<^verbatim>\<open>epoch\<close>; the memory
  follows only if both succeed. A failed rename leaves the old file in place.
\<close>

definition advance_epoch :: "'a runtime_scheme \<Rightarrow> u64 \<times> 'a runtime_scheme" where
  "advance_epoch s =
     (let new_epoch = store_epoch s + 1 in
      case store_disk s of
        Some d \<Rightarrow> (let (io, s) = next_io s in
          case io of
            IoErr _ \<Rightarrow> (store_epoch s, s)
          | IoOk \<Rightarrow> (new_epoch, s\<lparr>store_disk := Some (d\<lparr>epoch_file := File (show_u64 new_epoch)\<rparr>),
              store_epoch := new_epoch\<rparr>))
      | None \<Rightarrow> (new_epoch, s\<lparr>store_epoch := new_epoch\<rparr>))"

definition is_epoch_valid :: "u64 \<Rightarrow> 'a runtime_scheme \<Rightarrow> bool" where
  "is_epoch_valid token_epoch s = (token_epoch \<ge> current_epoch s)"

definition get_use_count :: "token_id \<Rightarrow> 'a runtime_scheme \<Rightarrow> u32" where
  "get_use_count t s = (case hm_get (use_counts s) t of Some n \<Rightarrow> n | None \<Rightarrow> 0)"

definition increment_use_count :: "token_id \<Rightarrow> 'a runtime_scheme \<Rightarrow> u32 \<times> 'a runtime_scheme" where
  "increment_use_count t s = (let n = get_use_count t s + 1
     in (n, s\<lparr>use_counts := hm_insert t n (use_counts s)\<rparr>))"

definition has_exceeded_uses :: "token_id \<Rightarrow> u32 \<Rightarrow> 'a runtime_scheme \<Rightarrow> bool" where
  "has_exceeded_uses t max_uses s = (get_use_count t s \<ge> max_uses)"

text \<open>\<^verbatim>\<open>Err\<close> is \<open>Inl\<close>; the entry is created also when the use is refused.\<close>

definition try_use_token ::
    "token_id \<Rightarrow> u32 \<Rightarrow> 'a runtime_scheme \<Rightarrow> (u32 + u32) \<times> 'a runtime_scheme" where
  "try_use_token t max_uses s =
     (let count = get_use_count t s in
      if count \<ge> max_uses then (Inl count, s\<lparr>use_counts := hm_insert t count (use_counts s)\<rparr>)
      else (Inr (count + 1), s\<lparr>use_counts := hm_insert t (count + 1) (use_counts s)\<rparr>))"

definition persist_revoked_tokens :: "externals \<Rightarrow> 'a runtime_scheme \<Rightarrow> 'a runtime_scheme" where
  "persist_revoked_tokens X s = (case store_disk s of None \<Rightarrow> s
     | Some d \<Rightarrow>
       (let content = join_with [newline] (map (\<lambda>t. hex_encode X (token_bytes t)) (revoked_tokens s));
            (io, s) = next_io s
        in case io of IoOk \<Rightarrow> s\<lparr>store_disk := Some (d\<lparr>revoked_file := File content\<rparr>)\<rparr>
           | IoErr _ \<Rightarrow> s))"

definition revoke_token :: "externals \<Rightarrow> token_id \<Rightarrow> 'a runtime_scheme \<Rightarrow> 'a runtime_scheme" where
  "revoke_token X t s =
     persist_revoked_tokens X (s\<lparr>revoked_tokens := set_insert t (revoked_tokens s)\<rparr>)"

definition is_token_revoked :: "token_id \<Rightarrow> 'a runtime_scheme \<Rightarrow> bool" where
  "is_token_revoked t s = (t \<in> set (revoked_tokens s))"

definition get_revoked_tokens :: "'a runtime_scheme \<Rightarrow> token_id list" where
  "get_revoked_tokens s = revoked_tokens s"

definition cleanup_use_counts :: "token_id list \<Rightarrow> 'a runtime_scheme \<Rightarrow> 'a runtime_scheme" where
  "cleanup_use_counts valid s =
     s\<lparr>use_counts := hm_retain (\<lambda>t _. t \<in> set valid) (use_counts s)\<rparr>"

text \<open>
  The epoch file is written in place, so a failed write leaves what the oracle says. The
  boolean tells \<^verbatim>\<open>Ok\<close> from \<^verbatim>\<open>Err\<close>.
\<close>

definition store_persist :: "externals \<Rightarrow> 'a runtime_scheme \<Rightarrow> bool \<times> 'a runtime_scheme" where
  "store_persist X s = (case store_disk s of None \<Rightarrow> (True, s)
     | Some d \<Rightarrow>
       (let (io, s) = next_io s in
        case io of
          IoErr left \<Rightarrow> (False, s\<lparr>store_disk := Some (d\<lparr>epoch_file := left\<rparr>)\<rparr>)
        | IoOk \<Rightarrow> (True, persist_revoked_tokens X
            (s\<lparr>store_disk := Some (d\<lparr>epoch_file := File (show_u64 (current_epoch s))\<rparr>)\<rparr>))))"

definition parse_revoked_line :: "externals \<Rightarrow> string \<Rightarrow> token_id option" where
  "parse_revoked_line X line = (case hex_decode X (trim line) of None \<Rightarrow> None
     | Some b \<Rightarrow> if length b = 16 then Some (TokenId b) else None)"

definition load_state :: "externals \<Rightarrow> 'a runtime_scheme \<Rightarrow> 'a runtime_scheme" where
  "load_state X s = (case store_disk s of None \<Rightarrow> s
     | Some d \<Rightarrow>
       (let s = (case read_to_string (epoch_file d) of None \<Rightarrow> s
            | Some content \<Rightarrow> (case parse_u64 (trim content) of None \<Rightarrow> s | Some e \<Rightarrow> set_epoch e s))
        in case read_to_string (revoked_file d) of None \<Rightarrow> s
           | Some content \<Rightarrow> s\<lparr>revoked_tokens :=
               fold set_insert (List.map_filter (parse_revoked_line X) (lines content))
                 (revoked_tokens s)\<rparr>))"

definition store_with_persistence ::
    "externals \<Rightarrow> bool \<Rightarrow> store_files \<Rightarrow> 'a runtime_scheme \<Rightarrow> 'a runtime_scheme option" where
  "store_with_persistence X dir_ok d s = (if \<not> dir_ok then None
     else Some (load_state X
       (s\<lparr>store_epoch := 0, use_counts := [], revoked_tokens := [], store_disk := Some d\<rparr>)))"

subsection \<open>Frames\<close>

lemma emit_runtime [simp, frame]:
  "store_epoch (emit ev s) = store_epoch s" "use_counts (emit ev s) = use_counts s"
  "revoked_tokens (emit ev s) = revoked_tokens s" "store_disk (emit ev s) = store_disk s"
  "store_io (emit ev s) = store_io s" "store_ios (emit ev s) = store_ios s"
  by (simp_all add: emit_def write_line_def Let_def split: option.splits prod.splits)

lemma meter_runtime [simp, frame]:
  "store_epoch (update_metrics f c s) = store_epoch s" "use_counts (update_metrics f c s) = use_counts s"
  "revoked_tokens (update_metrics f c s) = revoked_tokens s"
  "store_disk (update_metrics f c s) = store_disk s"
  "store_io (update_metrics f c s) = store_io s" "store_ios (update_metrics f c s) = store_ios s"
  by (simp_all add: update_metrics_def)

lemma next_io_eq: "next_io s = (store_io s (store_ios s), s\<lparr>store_ios := Suc (store_ios s)\<rparr>)"
  by (simp add: next_io_def)

lemma persist_revoked_frame [simp, frame]:
  "store_epoch (persist_revoked_tokens X s) = store_epoch s"
  "use_counts (persist_revoked_tokens X s) = use_counts s"
  "revoked_tokens (persist_revoked_tokens X s) = revoked_tokens s"
  "store_io (persist_revoked_tokens X s) = store_io s"
  "audit_buffer (persist_revoked_tokens X s) = audit_buffer s"
  "metrics (persist_revoked_tokens X s) = metrics s"
  "wall_reads (persist_revoked_tokens X s) = wall_reads s"
  "wall_clock (persist_revoked_tokens X s) = wall_clock s"
  "mono_counter (persist_revoked_tokens X s) = mono_counter s"
  by (simp_all add: persist_revoked_tokens_def next_io_eq Let_def split: option.splits io_outcome.splits)

lemma revoke_token_frame [simp, frame]:
  "store_epoch (revoke_token X t s) = store_epoch s"
  "use_counts (revoke_token X t s) = use_counts s"
  "store_io (revoke_token X t s) = store_io s"
  "audit_buffer (revoke_token X t s) = audit_buffer s"
  by (simp_all add: revoke_token_def)

lemma set_set_insert [simp]: "set (set_insert x xs) = insert x (set xs)"
  by (auto simp: set_insert_def)

lemma distinct_set_insert [simp]: "distinct xs \<Longrightarrow> distinct (set_insert x xs)"
  by (simp add: set_insert_def)

lemma set_fold_set_insert: "set (fold set_insert xs ys) = set xs \<union> set ys"
  by (induction xs arbitrary: ys) auto

lemma revoked_revoke_token [simp]:
  "set (revoked_tokens (revoke_token X t s)) = insert t (set (revoked_tokens s))"
  by (simp add: revoke_token_def)

lemma try_use_frame [simp, frame]:
  "store_epoch (snd (try_use_token t m s)) = store_epoch s"
  "revoked_tokens (snd (try_use_token t m s)) = revoked_tokens s"
  "store_disk (snd (try_use_token t m s)) = store_disk s"
  "store_io (snd (try_use_token t m s)) = store_io s"
  by (simp_all add: try_use_token_def Let_def)

lemma advance_epoch_cases:
  "snd (advance_epoch s) = s\<lparr>store_epoch := store_epoch s + 1\<rparr> \<and> store_disk s = None
   \<or> (\<exists>d. store_disk s = Some d \<and> store_io s (store_ios s) = IoOk \<and> snd (advance_epoch s)
       = s\<lparr>store_ios := Suc (store_ios s), store_epoch := store_epoch s + 1,
           store_disk := Some (d\<lparr>epoch_file := File (show_u64 (store_epoch s + 1))\<rparr>)\<rparr>)
   \<or> store_disk s \<noteq> None \<and> store_io s (store_ios s) \<noteq> IoOk
       \<and> snd (advance_epoch s) = s\<lparr>store_ios := Suc (store_ios s)\<rparr>"
  by (simp add: advance_epoch_def next_io_eq Let_def split: option.splits io_outcome.splits)

lemma advance_epoch_frame [simp, frame]:
  "revoked_tokens (snd (advance_epoch s)) = revoked_tokens s"
  "use_counts (snd (advance_epoch s)) = use_counts s"
  "audit_buffer (snd (advance_epoch s)) = audit_buffer s"
  "store_io (snd (advance_epoch s)) = store_io s"
  using advance_epoch_cases[of s] by auto

lemma fst_advance_epoch: "fst (advance_epoch s) = store_epoch (snd (advance_epoch s))"
  by (simp add: advance_epoch_def next_io_eq Let_def split: option.splits io_outcome.splits)

lemma advance_epoch_mono: "store_epoch s \<noteq> - 1 \<Longrightarrow> store_epoch s \<le> store_epoch (snd (advance_epoch s))"
  using advance_epoch_cases[of s] word_less_inc[of "store_epoch s"] by auto

lemma store_persist_frame [simp, frame]:
  "revoked_tokens (snd (store_persist X s)) = revoked_tokens s"
  "store_epoch (snd (store_persist X s)) = store_epoch s"
  by (simp_all add: store_persist_def next_io_eq Let_def split: option.splits io_outcome.splits)

subsection \<open>Refusal is permanent\<close>

text \<open>
  The interface between the store and its clients: a predicate of refusal that no step of the
  provider takes back.
\<close>

locale permanent_refusal =
  fixes refused :: "'t \<Rightarrow> 's \<Rightarrow> bool" and step :: "'s \<Rightarrow> 's \<Rightarrow> bool"
  assumes step_refused: "refused t s \<Longrightarrow> step s s' \<Longrightarrow> refused t s'"
begin

lemma refused_forever: "step\<^sup>*\<^sup>* s s' \<Longrightarrow> refused t s \<Longrightarrow> refused t s'"
  by (induction rule: rtranclp_induct) (auto intro: step_refused)

end

text \<open>Every operation on the store after it is set up, one at a time.\<close>

inductive store_step :: "externals \<Rightarrow> 'a runtime_scheme \<Rightarrow> 'a runtime_scheme \<Rightarrow> bool" for X where
  step_advance: "store_epoch s \<noteq> - 1 \<Longrightarrow> store_step X s (snd (advance_epoch s))"
| step_use: "store_step X s (snd (try_use_token t m s))"
| step_increment: "store_step X s (snd (increment_use_count t s))"
| step_revoke: "length (token_bytes t) = 16 \<Longrightarrow> store_step X s (revoke_token X t s)"
| step_cleanup: "store_step X s (cleanup_use_counts valid s)"
| step_persist: "store_step X s (snd (store_persist X s))"

inductive_cases store_stepE: "store_step X s s'"

definition token_refused :: "capability_token \<Rightarrow> 'a runtime_scheme \<Rightarrow> bool" where
  "token_refused t s = (is_token_revoked (tok_id t) s
     \<or> \<not> is_epoch_valid (con_epoch (tok_constraints t)) s)"

lemma refused_mono:
  "token_refused t s \<Longrightarrow> set (revoked_tokens s) \<subseteq> set (revoked_tokens s') \<Longrightarrow>
   store_epoch s \<le> store_epoch s' \<Longrightarrow> token_refused t s'"
  by (auto simp: token_refused_def is_token_revoked_def is_epoch_valid_def current_epoch_def)

lemma store_step_mono:
  "store_step X s s' \<Longrightarrow>
   set (revoked_tokens s) \<subseteq> set (revoked_tokens s') \<and> store_epoch s \<le> store_epoch s'"
  by (erule store_stepE)
    (auto simp: advance_epoch_mono increment_use_count_def cleanup_use_counts_def Let_def)

interpretation store: permanent_refusal token_refused "store_step X" for X
  by unfold_locales (use store_step_mono in \<open>blast intro: refused_mono\<close>)

subsection \<open>Memory and disk agree\<close>

text \<open>What a restart would load from the files \<open>d\<close>.\<close>

definition saved_epoch :: "store_files \<Rightarrow> u64" where
  "saved_epoch d = (case read_to_string (epoch_file d) of None \<Rightarrow> 0
     | Some content \<Rightarrow> (case parse_u64 (trim content) of None \<Rightarrow> 0 | Some e \<Rightarrow> e))"

definition saved_revoked :: "externals \<Rightarrow> store_files \<Rightarrow> token_id set" where
  "saved_revoked X d = (case read_to_string (revoked_file d) of None \<Rightarrow> {}
     | Some content \<Rightarrow> set (List.map_filter (parse_revoked_line X) (lines content)))"

definition disk_synced :: "externals \<Rightarrow> 'a runtime_scheme \<Rightarrow> bool" where
  "disk_synced X s = (case store_disk s of None \<Rightarrow> False
     | Some d \<Rightarrow> saved_epoch d = store_epoch s \<and> saved_revoked X d = set (revoked_tokens s))"

definition ids_wf :: "'a runtime_scheme \<Rightarrow> bool" where
  "ids_wf s = (\<forall>t \<in> set (revoked_tokens s). length (token_bytes t) = 16)"

definition io_reliable :: "'a runtime_scheme \<Rightarrow> bool" where
  "io_reliable s = (\<forall>n. store_io s n = IoOk)"

lemma saved_epoch_file [simp]: "saved_epoch (d\<lparr>epoch_file := File (show_u64 e)\<rparr>) = e"
  by (simp add: saved_epoch_def utf8_ok_show_u64)

lemma saved_epoch_revoked [simp]: "saved_epoch (d\<lparr>revoked_file := f\<rparr>) = saved_epoch d"
  by (simp add: saved_epoch_def)

lemma saved_revoked_epoch [simp]: "saved_revoked X (d\<lparr>epoch_file := f\<rparr>) = saved_revoked X d"
  by (simp add: saved_revoked_def)

lemma saved_revoked_file:
  assumes "hex_codec X" and "\<forall>t \<in> set ts. length (token_bytes t) = 16"
  shows "saved_revoked X (d\<lparr>revoked_file := File (join_with [newline]
           (map (\<lambda>t. hex_encode X (token_bytes t)) ts))\<rparr>) = set ts"
proof -
  let ?ls = "map (\<lambda>t. hex_encode X (token_bytes t)) ts"
  have ls: "\<forall>x \<in> set ?ls. x \<noteq> [] \<and> (\<forall>c \<in> set x. graphic c)"
  proof -
    have "hex_encode X (token_bytes t) \<noteq> []" if "t \<in> set ts" for t
      using hex_codecD(2)[OF assms(1), of "token_bytes t"] assms(2) that by auto
    then show ?thesis using hex_codecD(3)[OF assms(1)] by auto
  qed
  have "utf8_ok (join_with [newline] ?ls)"
    using ls set_join_with[of newline ?ls] by (intro utf8_ok_graphic) blast
  moreover have "List.map_filter (parse_revoked_line X) ?ls = ts"
    using ls assms(2)
    by (induction ts)
      (simp_all add: List.map_filter_simps parse_revoked_line_def trim_all_graphic hex_codecD(1)[OF assms(1)])
  ultimately show ?thesis
    using lines_join[OF ls] by (simp add: saved_revoked_def)
qed

lemma load_state_result:
  assumes "store_with_persistence X dir_ok d s = Some s'"
  shows "store_epoch s' = saved_epoch d" "set (revoked_tokens s') = saved_revoked X d"
    "use_counts s' = []" "store_disk s' = Some d" "store_io s' = store_io s"
  using assms
  by (auto simp: store_with_persistence_def load_state_def saved_epoch_def saved_revoked_def
      set_epoch_def set_fold_set_insert Let_def split: if_splits option.splits)

lemma persist_revoked_synced:
  assumes "hex_codec X" "ids_wf s" "io_reliable s" "store_disk s = Some d"
    and "saved_epoch d = store_epoch s"
  shows "disk_synced X (persist_revoked_tokens X s)"
  using assms saved_revoked_file[of X "revoked_tokens s" d]
  by (simp add: persist_revoked_tokens_def next_io_eq io_reliable_def disk_synced_def ids_wf_def)

lemma store_step_synced:
  assumes "store_step X s s'" "hex_codec X" "ids_wf s" "io_reliable s" "disk_synced X s"
  shows "disk_synced X s' \<and> ids_wf s' \<and> io_reliable s'"
  using assms(1)
proof (cases rule: store_step.cases)
  case step_advance
  then show ?thesis using assms(3-) advance_epoch_cases[of s]
    by (auto simp: disk_synced_def ids_wf_def io_reliable_def split: option.splits)
next
  case (step_revoke t)
  obtain d where d: "store_disk s = Some d" "saved_epoch d = store_epoch s"
    using assms(5) by (auto simp: disk_synced_def split: option.splits)
  let ?s = "s\<lparr>revoked_tokens := set_insert t (revoked_tokens s)\<rparr>"
  have "ids_wf ?s" "io_reliable ?s" using assms(3,4) step_revoke
    by (auto simp: ids_wf_def io_reliable_def)
  then show ?thesis
    using persist_revoked_synced[of X ?s d] d assms(2) step_revoke
    by (simp add: revoke_token_def ids_wf_def io_reliable_def)
next
  case step_persist
  obtain d where d: "store_disk s = Some d" "saved_epoch d = store_epoch s"
    using assms(5) by (auto simp: disk_synced_def split: option.splits)
  let ?s = "s\<lparr>store_ios := Suc (store_ios s),
    store_disk := Some (d\<lparr>epoch_file := File (show_u64 (store_epoch s))\<rparr>)\<rparr>"
  have "s' = persist_revoked_tokens X ?s"
    using step_persist d assms(4)
    by (simp add: store_persist_def next_io_eq io_reliable_def current_epoch_def)
  moreover have "ids_wf ?s" "io_reliable ?s" using assms(3,4)
    by (auto simp: ids_wf_def io_reliable_def)
  ultimately show ?thesis
    using persist_revoked_synced[of X ?s] assms(2)
    by (simp add: ids_wf_def io_reliable_def)
qed (use assms(3-) in \<open>auto simp: disk_synced_def ids_wf_def io_reliable_def
  increment_use_count_def cleanup_use_counts_def Let_def split: option.splits\<close>)

lemma store_steps_synced:
  "(store_step X)\<^sup>*\<^sup>* s s' \<Longrightarrow> hex_codec X \<Longrightarrow> ids_wf s \<Longrightarrow> io_reliable s \<Longrightarrow> disk_synced X s \<Longrightarrow>
   disk_synced X s' \<and> ids_wf s' \<and> io_reliable s'"
  by (induction rule: rtranclp_induct) (auto dest: store_step_synced)

subsection \<open>Use counts\<close>

text \<open>A sequence of uses, each of a token with its own limit; the result tells which succeed.\<close>

fun use_run :: "(token_id \<Rightarrow> u32) \<Rightarrow> token_id list \<Rightarrow> 'a runtime_scheme \<Rightarrow> bool list \<times> 'a runtime_scheme" where
  "use_run lim [] s = ([], s)"
| "use_run lim (t # ts) s =
     (let (r, s) = try_use_token t (lim t) s; (rs, s) = use_run lim ts s
      in ((case r of Inr _ \<Rightarrow> True | Inl _ \<Rightarrow> False) # rs, s))"

definition uses_of :: "token_id \<Rightarrow> token_id list \<Rightarrow> bool list \<Rightarrow> nat" where
  "uses_of t ts oks = length (filter (\<lambda>(t', ok). t' = t \<and> ok) (zip ts oks))"

lemma get_use_count_try [simp]:
  "get_use_count t' (snd (try_use_token t m s)) =
     (if t' = t \<and> get_use_count t s < m then get_use_count t s + 1 else get_use_count t' s)"
  by (auto simp: try_use_token_def Let_def get_use_count_def word_gt_0 split: option.splits)

lemma unat_add_one_below: "(w :: 'a::len word) < v \<Longrightarrow> unat (w + 1) = Suc (unat w)"
proof -
  assume "w < v"
  then have "w \<noteq> - 1" using word_order.extremum_strict by blast
  then have "1 + w \<noteq> 0" by (metis add.commute eq_neg_iff_add_eq_0)
  then show ?thesis using unatSuc[of w] by (simp add: add.commute)
qed

lemma try_use_ok_iff: "(\<exists>n. fst (try_use_token t m s) = Inr n) \<longleftrightarrow> get_use_count t s < m"
  by (auto simp: try_use_token_def Let_def)

lemma use_run_count:
  assumes "use_run lim ts s = (oks, s')"
  shows "length oks = length ts \<and> uses_of t ts oks =
    min (count_list ts t) (unat (lim t) - unat (get_use_count t s))"
  using assms
proof (induction ts arbitrary: s oks)
  case Nil
  then show ?case by (simp add: uses_of_def)
next
  case (Cons u ts)
  let ?s = "snd (try_use_token u (lim u) s)" and ?r = "fst (try_use_token u (lim u) s)"
  obtain rs where rs: "use_run lim ts ?s = (rs, s')"
    and oks: "oks = (case ?r of Inr _ \<Rightarrow> True | Inl _ \<Rightarrow> False) # rs"
    using Cons.prems by (auto simp: Let_def split: prod.splits)
  have IH: "length rs = length ts" "uses_of t ts rs =
      min (count_list ts t) (unat (lim t) - unat (get_use_count t ?s))"
    using Cons.IH[OF rs] by auto
  have head: "(case ?r of Inr _ \<Rightarrow> True | Inl _ \<Rightarrow> False) = (get_use_count u s < lim u)"
    using try_use_ok_iff[of u "lim u" s] by (cases ?r) auto
  note oks = oks[unfolded head]
  show ?case
  proof (cases "u = t \<and> get_use_count t s < lim t")
    case True
    then have "unat (get_use_count t ?s) = Suc (unat (get_use_count t s))"
      using unat_add_one_below[of "get_use_count t s" "lim t"] by simp
    moreover have "unat (get_use_count t s) < unat (lim t)" using True by (simp add: word_less_nat_alt)
    ultimately show ?thesis using IH True by (auto simp: oks uses_of_def min_def)
  next
    case False
    then have "get_use_count t ?s = get_use_count t s" by auto
    moreover have "unat (lim t) - unat (get_use_count t s) = 0" if "u = t"
      using False that by (simp add: not_less word_le_nat_alt)
    ultimately show ?thesis using IH False by (cases "u = t") (simp_all add: oks uses_of_def)
  qed
qed

subsection \<open>Properties\<close>

text \<open>
  Use limits are exact under interleaving: in any sequence of uses of any
  tokens, a token whose count stands at \<open>k\<close> is let through exactly as often as it is tried,
  up to its limit minus \<open>k\<close>; tries of other tokens never spend its budget.
\<close>

theorem use_limit_exact:
  "uses_of t ts (fst (use_run lim ts s))
     = min (count_list ts t) (unat (lim t) - unat (get_use_count t s))"
  using use_run_count[OF surjective_pairing, of lim ts s t] by simp

text \<open>
  Property C6. Revocation and mass revocation survive a restart: from a persistent store in
  step with its files, after any sequence of the store's operations with working writes,
  loading the files again refuses exactly the tokens that were refused, the epoch included.
\<close>

theorem revocation_survives_restart:
  assumes "hex_codec X" and "store_with_persistence X True d s0 = Some s"
    and "\<forall>t \<in> saved_revoked X d. length (token_bytes t) = 16" and "io_reliable s0"
    and "(store_step X)\<^sup>*\<^sup>* s s'" and "store_disk s' = Some d'"
    and "store_with_persistence X True d' s1 = Some r"
  shows "token_refused t r \<longleftrightarrow> token_refused t s'"
proof -
  note l = load_state_result[OF assms(2)] load_state_result[OF assms(7)]
  have "disk_synced X s" "ids_wf s" "io_reliable s"
    using l assms(3,4) by (auto simp: disk_synced_def ids_wf_def io_reliable_def)
  then have "disk_synced X s'" using store_steps_synced[OF assms(5,1)] by blast
  then show ?thesis
    using l assms(6) by (simp add: disk_synced_def token_refused_def is_token_revoked_def
        is_epoch_valid_def current_epoch_def)
qed

text \<open>
  Advancing the epoch is all or nothing: it either raises the epoch in memory and
  on disk by one and reports the new one, or, when the file cannot be replaced, changes
  neither and reports the old one; in no case does the disk fall behind the memory.
\<close>

theorem advance_epoch_atomic:
  assumes "advance_epoch s = (e, s')" and "disk_synced X s"
  shows "disk_synced X s' \<and> e = store_epoch s'
    \<and> store_epoch s' = (if store_io s (store_ios s) = IoOk then store_epoch s + 1 else store_epoch s)"
proof -
  have s': "s' = snd (advance_epoch s)" "e = store_epoch s'"
    using assms(1) fst_advance_epoch[of s] by auto
  obtain d where d: "store_disk s = Some d" "saved_epoch d = store_epoch s"
      "saved_revoked X d = set (revoked_tokens s)"
    using assms(2) by (auto simp: disk_synced_def split: option.splits)
  show ?thesis
    unfolding s'(2) using advance_epoch_cases[of s] d
    by (elim disjE exE conjE) (simp_all add: disk_synced_def flip: s'(1))
qed

text \<open>
  Use counts do not survive a restart: whatever the store had counted, a store
  loaded from its files counts zero uses for every token, so a token that had used up its
  limit can be used again as often as at first, although the epoch and the revocations are
  restored.
\<close>

theorem restart_resets_use_counts:
  assumes "store_with_persistence X True d s = Some r"
  shows "get_use_count t r = 0
    \<and> uses_of t ts (fst (use_run lim ts r)) = min (count_list ts t) (unat (lim t))"
  using load_state_result[OF assms(1)] use_run_count[OF surjective_pairing, of lim ts r]
  by (simp add: get_use_count_def)

subsection \<open>Examples\<close>

definition demo_rt :: runtime where
  "demo_rt = \<lparr>wall_clock = (\<lambda>n. 1000 + of_nat n), wall_reads = 0, mono_counter = 7,
     instant_clock = (\<lambda>n. n), instant_reads = 0, uuid_bytes = (\<lambda>n. replicate 15 0 @ [of_nat n]),
     uuid_strings = (\<lambda>n. replicate n CHR ''u''), uuid_draws = 0,
     audit_buffer = [], audit_writer = None, audit_path = None, audit_file = [],
     audit_echo = False, audit_stdout = [], audit_json = (\<lambda>ev. None),
     audit_parse = (\<lambda>l. None), audit_io = (\<lambda>n. (Everything, Everything)),
     audit_ios = 0, audit_opens = False,
     metrics = [(''c'', demo_metrics 5)], default_limits = resource_limits_default, limits = [],
     period_start = 0, period_duration = 60 * 1000000000,
     store_epoch = 0, use_counts = [], revoked_tokens = [], store_disk = None,
     store_io = (\<lambda>n. IoOk), store_ios = 0\<rparr>"

definition demo_files :: store_files where
  "demo_files = \<lparr>epoch_file = Absent, revoked_file = Absent\<rparr>"

text \<open>The persistent store that the examples start from.\<close>

definition demo_disk_rt :: runtime where
  "demo_disk_rt = demo_rt\<lparr>store_disk := Some demo_files\<rparr>"

lemma demo_load: "store_with_persistence X True demo_files demo_rt = Some demo_disk_rt"
  by (simp add: store_with_persistence_def load_state_def demo_files_def demo_disk_rt_def demo_rt_def)

theorem restart_resets_use_counts_witness:
  "uses_of (TokenId []) [TokenId [], TokenId []]
     (fst (use_run (\<lambda>_. 1) [TokenId [], TokenId []] demo_disk_rt)) = 1"
  using restart_resets_use_counts[OF demo_load[of demo_ext], where t = "TokenId []"
    and lim = "\<lambda>_. 1" and ts = "[TokenId [], TokenId []]"] by simp

theorem advance_epoch_atomic_witness:
  "disk_synced demo_ext (snd (advance_epoch demo_disk_rt))
   \<and> store_epoch (snd (advance_epoch demo_disk_rt)) = 1"
proof -
  have "disk_synced demo_ext demo_disk_rt"
    by (simp add: disk_synced_def demo_disk_rt_def demo_rt_def saved_epoch_def saved_revoked_def
        demo_files_def)
  from advance_epoch_atomic[OF surjective_pairing this] show ?thesis
    by (simp add: demo_disk_rt_def demo_rt_def)
qed

theorem revocation_survives_restart_witness:
  "\<exists>r. store_with_persistence demo_ext True
       (the (store_disk (revoke_token demo_ext (TokenId (replicate 16 7)) demo_disk_rt))) demo_rt = Some r
     \<and> token_refused (demo_token 0 ''c'' Read\<lparr>tok_id := TokenId (replicate 16 7)\<rparr>) r"
proof -
  let ?s' = "revoke_token demo_ext (TokenId (replicate 16 7)) demo_disk_rt"
  let ?t = "demo_token 0 ''c'' Read\<lparr>tok_id := TokenId (replicate 16 7)\<rparr>"
  have "store_step demo_ext demo_disk_rt ?s'" by (rule step_revoke) simp
  then have st: "(store_step demo_ext)\<^sup>*\<^sup>* demo_disk_rt ?s'" by simp
  obtain d' where d': "store_disk ?s' = Some d'"
    by (simp add: revoke_token_def persist_revoked_tokens_def demo_disk_rt_def demo_rt_def next_io_eq)
  obtain r where r: "store_with_persistence demo_ext True d' demo_rt = Some r"
    by (simp add: store_with_persistence_def)
  have a: "\<forall>t \<in> saved_revoked demo_ext demo_files. length (token_bytes t) = 16" "io_reliable demo_rt"
    by (simp_all add: saved_revoked_def demo_files_def io_reliable_def demo_rt_def)
  have "token_refused ?t ?s'" by (simp add: token_refused_def is_token_revoked_def)
  then have "token_refused ?t r"
    using revocation_survives_restart[OF demo_ext_laws(3) demo_load a st d' r] by simp
  then show ?thesis using r d' by auto
qed

end
