(* ===== verification/Cap_Manager.thy ===== *)
theory Cap_Manager
  imports Cap_Store Resource_Scope
begin

section \<open>The capability manager: grant, validate, delegate, revoke\<close>

text \<open>
  \<^verbatim>\<open>elastos-runtime/src/capability/manager.rs\<close>. The manager's own state is the key pair; the
  store, the metrics and the audit log it shares with the other components are the
  \<open>runtime\<close> record. Random key material is an argument of the operation that draws it, and
  so is what the file system says of the key file.
\<close>

subsection \<open>Errors\<close>

datatype validation_error =
    InvalidSignature
  | UntrustedIssuer
  | WrongCapsule string string
  | WrongAction action action
  | WrongResource string string
  | TokenRevoked
  | TokenExpired
  | FutureDatedToken
  | UseLimitExceeded u32 u32
  | ClassificationUnavailable u8
  | ClassificationExceeded u8 u8
  | InvalidVersion u8 u8
  | DelegationNotAllowed
  | DelegationScopeWidened

definition show_word :: "'a::len word \<Rightarrow> string" where
  "show_word w = dec_of_nat (unat w)"

fun validation_error_display :: "validation_error \<Rightarrow> string" where
  "validation_error_display InvalidSignature = ''invalid token signature''"
| "validation_error_display UntrustedIssuer = ''token issuer not trusted''"
| "validation_error_display (WrongCapsule expected got) =
     ''wrong capsule: expected '' @ expected @ '', got '' @ got"
| "validation_error_display (WrongAction expected got) =
     ''wrong action: expected '' @ action_display expected @ '', got '' @ action_display got"
| "validation_error_display (WrongResource expected got) =
     ''wrong resource: expected '' @ expected @ '', got '' @ got"
| "validation_error_display TokenRevoked = ''token has been revoked''"
| "validation_error_display TokenExpired = ''token has expired''"
| "validation_error_display FutureDatedToken = ''token issued_at is in the future''"
| "validation_error_display (UseLimitExceeded current max_uses) =
     ''use limit exceeded: '' @ show_word current @ '' >= '' @ show_word max_uses"
| "validation_error_display (ClassificationUnavailable token) =
     ''resource classification required for token capped at '' @ show_word token"
| "validation_error_display (ClassificationExceeded token resource) =
     ''classification exceeded: token allows '' @ show_word token @ '', resource requires '' @ show_word resource"
| "validation_error_display (InvalidVersion expected got) =
     ''invalid token version: expected '' @ show_word expected @ '', got '' @ show_word got"
| "validation_error_display DelegationNotAllowed = ''token is not delegatable''"
| "validation_error_display DelegationScopeWidened = ''delegated token cannot widen scope of parent''"

subsection \<open>The signing key and its file\<close>

record cap_manager =
  signing_key :: bytes
  verifying_key :: bytes

definition manager_with_key :: "externals \<Rightarrow> bytes \<Rightarrow> cap_manager" where
  "manager_with_key X key = \<lparr>signing_key = key, verifying_key = ed_public X key\<rparr>"

definition manager_new :: "externals \<Rightarrow> bytes \<Rightarrow> cap_manager" where
  "manager_new X random_key = manager_with_key X random_key"

text \<open>What is at \<^verbatim>\<open>signing_key\<close>; a regular file may be unreadable.\<close>

datatype key_path =
    KeyMissing
  | KeySymlink
  | KeyRegular "bytes option"
  | KeyNotRegular
  | KeyUninspectable

definition read_signing_key_file :: "bytes option \<Rightarrow> bytes option" where
  "read_signing_key_file content = (case content of None \<Rightarrow> None
     | Some b \<Rightarrow> if length b \<noteq> 32 then None else Some b)"

text \<open>
  How writing the key goes: the parent is no real directory, the file cannot be created, a
  write or sync fails after some bytes, or all is well.
\<close>

datatype key_write = ParentRejected | OpenFailed | WriteFailed bytes | KeyWritten

definition persist_signing_key_bytes ::
    "key_write \<Rightarrow> key_path \<Rightarrow> bytes \<Rightarrow> bool \<times> key_path" where
  "persist_signing_key_bytes w path key =
     (case w of ParentRejected \<Rightarrow> (False, path)
      | _ \<Rightarrow> if path \<noteq> KeyMissing \<and> path \<noteq> KeyUninspectable then (False, path)
        else (case w of ParentRejected \<Rightarrow> (False, path) | OpenFailed \<Rightarrow> (False, path)
          | WriteFailed part \<Rightarrow> (False, KeyRegular (Some part))
          | KeyWritten \<Rightarrow> (True, KeyRegular (Some key))))"

definition generate_and_persist_key ::
    "key_write \<Rightarrow> key_path \<Rightarrow> bytes \<Rightarrow> 'a host_scheme \<Rightarrow> bytes \<times> key_path \<times> 'a host_scheme" where
  "generate_and_persist_key w path random_key s =
     (let (ok, path) = persist_signing_key_bytes w path random_key;
          s = security_warning ''signing_key_generated''
            ''New capability signing key generated. All previously issued tokens are invalid.'' s
      in (random_key, path, s))"

definition load_or_generate ::
    "externals \<Rightarrow> key_write \<Rightarrow> key_path \<Rightarrow> bytes \<Rightarrow> 'a host_scheme
     \<Rightarrow> cap_manager \<times> key_path \<times> 'a host_scheme" where
  "load_or_generate X w path random_key s =
     (let (key, path, s) = (case path of
         KeySymlink \<Rightarrow> (random_key, path, s)
       | KeyRegular content \<Rightarrow> (case read_signing_key_file content of
             Some key \<Rightarrow> (key, path, s)
           | None \<Rightarrow> (random_key, path, s))
       | KeyNotRegular \<Rightarrow> (random_key, path, s)
       | KeyMissing \<Rightarrow> generate_and_persist_key w path random_key s
       | KeyUninspectable \<Rightarrow> (random_key, path, s))
      in (manager_with_key X key, path, s))"

definition public_key :: "cap_manager \<Rightarrow> bytes" where
  "public_key M = verifying_key M"

definition public_key_bytes :: "cap_manager \<Rightarrow> bytes" where
  "public_key_bytes M = verifying_key M"

subsection \<open>Granting\<close>

definition grant ::
    "externals \<Rightarrow> cap_manager \<Rightarrow> string \<Rightarrow> resource_id \<Rightarrow> action \<Rightarrow> token_constraints
     \<Rightarrow> secure_timestamp option \<Rightarrow> 'a runtime_scheme \<Rightarrow> capability_token \<times> 'a runtime_scheme" where
  "grant X M capsule_id resource act constraints expiry s =
     (let (issued_at, s) = ts_now s;
          constraints = (if con_epoch constraints < current_epoch s
            then constraints\<lparr>con_epoch := current_epoch s\<rparr> else constraints);
          (token, s) = token_new capsule_id (public_key_bytes M) resource act constraints issued_at expiry s;
          token = token_sign X (signing_key M) token;
          s = record_capability_request capsule_id s;
          s = capability_grant X (tok_id token) capsule_id resource act expiry s
      in (token, s))"

subsection \<open>Validation\<close>

definition audit_validation_failure ::
    "externals \<Rightarrow> capability_token \<Rightarrow> string \<Rightarrow> string \<Rightarrow> 'a host_scheme \<Rightarrow> 'a host_scheme" where
  "audit_validation_failure X token capsule_id reason s =
     (let s = capability_use X (tok_id token) capsule_id (tok_resource token) (tok_action token) False s
      in security_warning ''capability_validation_failed''
           (''token '' @ token_id_display X (tok_id token) @ '' failed validation: '' @ reason) s)"

definition refuse ::
    "externals \<Rightarrow> capability_token \<Rightarrow> string \<Rightarrow> string \<Rightarrow> validation_error \<Rightarrow> 'a host_scheme
     \<Rightarrow> (validation_error + unit) \<times> 'a host_scheme" where
  "refuse X token caller reason err s = (Inl err, audit_validation_failure X token caller reason s)"

text \<open>
  The checks 9 to 12 and the success path, which read the clock and spend a use; the tests 1
  to 8 only look. Each guard is the code's, in the code's order.
\<close>

definition validate_uses ::
    "externals \<Rightarrow> capability_token \<Rightarrow> string \<Rightarrow> action \<Rightarrow> resource_id \<Rightarrow> bool \<Rightarrow> 'a runtime_scheme
     \<Rightarrow> (validation_error + unit) \<times> 'a runtime_scheme" where
  "validate_uses X token caller requested_action requested_resource audit_success s =
     (let (r, s) = (case con_max_uses (tok_constraints token) of
          None \<Rightarrow> (None, s)
        | Some max_uses \<Rightarrow> (let (r, s) = try_use_token (tok_id token) max_uses s
            in (case r of Inl current \<Rightarrow> (Some (UseLimitExceeded current max_uses), s)
                | Inr _ \<Rightarrow> (None, s))))
      in case r of
           Some err \<Rightarrow> refuse X token caller ''use_limit_exceeded'' err s
         | None \<Rightarrow>
             (let s = (if audit_success
                then capability_use X (tok_id token) caller requested_resource requested_action True s
                else s);
                s = record_capability_use caller s
              in (Inr (), s)))"

definition validate_class ::
    "externals \<Rightarrow> capability_token \<Rightarrow> string \<Rightarrow> action \<Rightarrow> resource_id \<Rightarrow> u8 option \<Rightarrow> bool
     \<Rightarrow> 'a runtime_scheme \<Rightarrow> (validation_error + unit) \<times> 'a runtime_scheme" where
  "validate_class X token caller requested_action requested_resource resource_classification
     audit_success s =
     (case (con_max_classification (tok_constraints token), resource_classification) of
        (Some token_max, Some resource_class) \<Rightarrow>
          if token_max < resource_class then
            refuse X token caller ''classification_exceeded''
              (ClassificationExceeded token_max resource_class) s
          else validate_uses X token caller requested_action requested_resource audit_success s
      | (Some token_max, None) \<Rightarrow>
          refuse X token caller ''classification_unavailable'' (ClassificationUnavailable token_max) s
      | _ \<Rightarrow> validate_uses X token caller requested_action requested_resource audit_success s)"

definition validate_time ::
    "externals \<Rightarrow> capability_token \<Rightarrow> string \<Rightarrow> action \<Rightarrow> resource_id \<Rightarrow> u8 option \<Rightarrow> bool
     \<Rightarrow> 'a runtime_scheme \<Rightarrow> (validation_error + unit) \<times> 'a runtime_scheme" where
  "validate_time X token caller requested_action requested_resource resource_classification
     audit_success s =
     (let (future, s) = is_future (tok_issued_at token) s
      in if future then refuse X token caller ''future_dated'' FutureDatedToken s
         else
           (let (expired, s) = (case tok_expiry token of None \<Rightarrow> (False, s)
              | Some expiry \<Rightarrow> is_expired expiry s)
            in if expired then refuse X token caller ''expired'' TokenExpired s
               else validate_class X token caller requested_action requested_resource
                 resource_classification audit_success s))"

definition validate_recurring ::
    "externals \<Rightarrow> cap_manager \<Rightarrow> capability_token \<Rightarrow> string \<Rightarrow> action \<Rightarrow> resource_id \<Rightarrow> u8 option
     \<Rightarrow> bool \<Rightarrow> 'a runtime_scheme \<Rightarrow> (validation_error + unit) \<times> 'a runtime_scheme" where
  "validate_recurring X M token caller requested_action requested_resource resource_classification
     audit_success s =
     (if tok_version token \<noteq> CURRENT_VERSION then
        refuse X token caller ''invalid_version'' (InvalidVersion CURRENT_VERSION (tok_version token)) s
      else if \<not> verify_signature X (verifying_key M) token then
        refuse X token caller ''invalid_signature'' InvalidSignature s
      else if tok_issuer token \<noteq> public_key_bytes M then
        refuse X token caller ''untrusted_issuer'' UntrustedIssuer s
      else if tok_capsule token \<noteq> caller then
        refuse X token caller ''wrong_capsule'' (WrongCapsule (tok_capsule token) caller) s
      else if tok_action token \<noteq> requested_action then
        refuse X token caller ''wrong_action'' (WrongAction (tok_action token) requested_action) s
      else if \<not> matches requested_resource (tok_resource token) then
        refuse X token caller ''wrong_resource''
          (WrongResource (as_str (tok_resource token)) (as_str requested_resource)) s
      else if \<not> is_epoch_valid (con_epoch (tok_constraints token)) s then
        refuse X token caller ''epoch_revoked'' TokenRevoked s
      else if is_token_revoked (tok_id token) s then
        refuse X token caller ''individually_revoked'' TokenRevoked s
      else validate_time X token caller requested_action requested_resource resource_classification
        audit_success s)"

definition validate ::
    "externals \<Rightarrow> cap_manager \<Rightarrow> capability_token \<Rightarrow> string \<Rightarrow> action \<Rightarrow> resource_id \<Rightarrow> u8 option
     \<Rightarrow> 'a runtime_scheme \<Rightarrow> (validation_error + unit) \<times> 'a runtime_scheme" where
  "validate X M token caller requested_action requested_resource resource_classification s =
     validate_recurring X M token caller requested_action requested_resource
       resource_classification True s"

subsection \<open>Delegation and revocation\<close>

definition effective_expiry ::
    "secure_timestamp option \<Rightarrow> secure_timestamp option \<Rightarrow> secure_timestamp option" where
  "effective_expiry parent_expiry expiry = (case (parent_expiry, expiry) of
     (Some p, Some r) \<Rightarrow> Some (if unix_secs p < unix_secs r then p else r)
   | (Some p, None) \<Rightarrow> Some p
   | (None, Some r) \<Rightarrow> Some r
   | (None, None) \<Rightarrow> None)"

definition child_constraints :: "token_constraints \<Rightarrow> token_constraints" where
  "child_constraints parent = \<lparr>con_epoch = con_epoch parent, con_delegatable = False,
     con_max_classification = con_max_classification parent, con_max_uses = con_max_uses parent\<rparr>"

definition delegate ::
    "externals \<Rightarrow> cap_manager \<Rightarrow> capability_token \<Rightarrow> string \<Rightarrow> string \<Rightarrow> resource_id
     \<Rightarrow> secure_timestamp option \<Rightarrow> 'a runtime_scheme
     \<Rightarrow> (validation_error + capability_token) \<times> 'a runtime_scheme" where
  "delegate X M parent caller to_capsule resource expiry s =
     (let (r, s) = validate X M parent caller (tok_action parent) (tok_resource parent) None s
      in case r of
        Inl err \<Rightarrow> (Inl err, s)
      | Inr _ \<Rightarrow>
        if \<not> con_delegatable (tok_constraints parent) then (Inl DelegationNotAllowed, s)
        else if \<not> matches resource (tok_resource parent) then (Inl DelegationScopeWidened, s)
        else
          (let (token, s) = grant X M to_capsule resource (tok_action parent)
                 (child_constraints (tok_constraints parent))
                 (effective_expiry (tok_expiry parent) expiry) s;
               s = security_warning ''capability_delegated''
                 (''Token '' @ token_id_display X (tok_id token) @ '' delegated from ''
                  @ tok_capsule parent @ '' to '' @ to_capsule @ '' for '' @ as_str resource) s
           in (Inr token, s)))"

definition revoke ::
    "externals \<Rightarrow> token_id \<Rightarrow> string \<Rightarrow> 'a runtime_scheme \<Rightarrow> 'a runtime_scheme" where
  "revoke X t reason s = capability_revoke X t reason (revoke_token X t s)"

definition revoke_all :: "string \<Rightarrow> 'a runtime_scheme \<Rightarrow> u64 \<times> 'a runtime_scheme" where
  "revoke_all reason s =
     (let old_epoch = current_epoch s; (new_epoch, s) = advance_epoch s;
          s = epoch_advance old_epoch new_epoch reason s
      in (new_epoch, s))"

text \<open>The arrow of the message is a three-byte character.\<close>

definition arrow :: string where
  "arrow = map char_of [226, 134, 146 :: nat]"

text \<open>
  \<^verbatim>\<open>fs::write\<close> follows a symbolic link and overwrites what is there: \<open>w\<close> is \<open>None\<close> when it
  succeeds and otherwise what it leaves at the path.
\<close>

definition rotate_signing_key ::
    "externals \<Rightarrow> bytes \<Rightarrow> key_path option \<Rightarrow> key_path \<Rightarrow> string \<Rightarrow> cap_manager \<Rightarrow> 'a runtime_scheme
     \<Rightarrow> bytes \<times> cap_manager \<times> key_path \<times> 'a runtime_scheme" where
  "rotate_signing_key X random_key w path reason M s =
     (let new_pub = ed_public X random_key;
          path = (case w of Some left \<Rightarrow> left
            | None \<Rightarrow> if path = KeySymlink then KeySymlink else KeyRegular (Some random_key));
          old_epoch = current_epoch s; (new_epoch, s) = advance_epoch s;
          s = security_warning ''signing_key_rotated''
            (''Signing key rotated (reason: '' @ reason @ ''). Epoch advanced '' @ show_u64 old_epoch
             @ '' '' @ arrow @ '' '' @ show_u64 new_epoch @ ''. All prior tokens invalidated.'') s
      in (new_pub, M\<lparr>signing_key := random_key, verifying_key := new_pub\<rparr>, path, s))"

subsection \<open>Frames\<close>

lemmas audit_helpers = capability_use_def security_warning_def capability_revoke_def
  capability_grant_def epoch_advance_def

text \<open>The parts of the state that auditing and metrics leave alone.\<close>

definition same_store :: "'a runtime_scheme \<Rightarrow> 'a runtime_scheme \<Rightarrow> bool" where
  "same_store s s' = (store_epoch s' = store_epoch s \<and> use_counts s' = use_counts s
     \<and> revoked_tokens s' = revoked_tokens s \<and> store_disk s' = store_disk s
     \<and> store_io s' = store_io s \<and> store_ios s' = store_ios s)"

lemma same_store_refl [simp]: "same_store s s"
  by (simp add: same_store_def)

lemma same_store_trans: "same_store s t \<Longrightarrow> same_store t u \<Longrightarrow> same_store s u"
  by (simp add: same_store_def)

lemma same_storeD:
  assumes "same_store s s'"
  shows "store_epoch s' = store_epoch s" "revoked_tokens s' = revoked_tokens s"
    "store_disk s' = store_disk s" "get_use_count t s' = get_use_count t s" "token_refused k s' = token_refused k s"
  using assms by (simp_all add: same_store_def get_use_count_def token_refused_def
      is_token_revoked_def is_epoch_valid_def current_epoch_def)

lemma same_store_helpers [simp]:
  "same_store s (capability_use X t c r a b s)" "same_store s (security_warning w d s)"
  "same_store s (capability_revoke X t w s)" "same_store s (capability_grant X t c r a x s)"
  "same_store s (epoch_advance e f w s)" "same_store s (update_metrics g c s)"
  "same_store s (record_capability_use c s)" "same_store s (snd (is_future ts s))"
  "same_store s (snd (is_expired ts s))" "same_store s (snd (ts_now s))"
  by (simp_all add: same_store_def audit_helpers time_reads Let_def record_capability_use_def)

lemma same_store_reset [simp]: "same_store s (check_period_reset s)"
  by (simp add: same_store_def check_period_reset_def read_instant_def Let_def)

lemma same_store_request [simp]: "same_store s (record_capability_request c s)"
  using same_store_trans[OF same_store_reset[of s] same_store_helpers(6)]
  by (simp add: record_capability_request_def)

lemma same_store_failure [simp]: "same_store s (audit_validation_failure X t c r s)"
  unfolding audit_validation_failure_def Let_def
  using same_store_trans[OF same_store_helpers(1) same_store_helpers(2)] .

lemma helper_store [simp, frame]:
  "store_epoch (security_warning w d s) = store_epoch s"
  "revoked_tokens (security_warning w d s) = revoked_tokens s"
  "store_epoch (capability_revoke X t w s) = store_epoch s"
  "revoked_tokens (capability_revoke X t w s) = revoked_tokens s"
  "store_epoch (epoch_advance e f w s) = store_epoch s"
  "revoked_tokens (epoch_advance e f w s) = revoked_tokens s"
  by (simp_all add: audit_helpers ts_now_eq)

lemma fst_refuse [simp]: "fst (refuse X t c r e s) = Inl e"
  by (simp add: refuse_def)

lemma snd_refuse [simp]: "snd (refuse X t c r e s) = audit_validation_failure X t c r s"
  by (simp add: refuse_def)

subsection \<open>The checks as a table\<close>

fun first_error :: "(bool \<times> 'e) list \<Rightarrow> 'e option" where
  "first_error [] = None"
| "first_error ((ok, e) # cs) = (if ok then first_error cs else Some e)"

lemma first_error_None_iff: "first_error cs = None \<longleftrightarrow> (\<forall>c \<in> set cs. fst c)"
  by (induction cs rule: first_error.induct) auto

text \<open>
  The specification: the checks in order, each with the error of its failure, as predicates
  of the state at the call. The two clock readings of the call are the next two of the
  oracle.
\<close>

definition checks ::
    "externals \<Rightarrow> cap_manager \<Rightarrow> capability_token \<Rightarrow> string \<Rightarrow> action \<Rightarrow> resource_id \<Rightarrow> u8 option
     \<Rightarrow> 'a runtime_scheme \<Rightarrow> (bool \<times> validation_error) list" where
  "checks X M t caller act res cls s =
    [(tok_version t = 1, InvalidVersion 1 (tok_version t)),
     (verify_signature X (verifying_key M) t, InvalidSignature),
     (tok_issuer t = verifying_key M, UntrustedIssuer),
     (tok_capsule t = caller, WrongCapsule (tok_capsule t) caller),
     (tok_action t = act, WrongAction (tok_action t) act),
     (matches res (tok_resource t), WrongResource (as_str (tok_resource t)) (as_str res)),
     (store_epoch s \<le> con_epoch (tok_constraints t), TokenRevoked),
     (tok_id t \<notin> set (revoked_tokens s), TokenRevoked),
     (unix_secs (tok_issued_at t) \<le> wall_clock s (wall_reads s) + 300, FutureDatedToken),
     (\<forall>x \<in> set_option (tok_expiry t).
        Timestamp (wall_clock s (Suc (wall_reads s))) (mono_counter s + 1) \<le> x, TokenExpired),
     (con_max_classification (tok_constraints t) = None \<or> cls \<noteq> None,
        ClassificationUnavailable (the (con_max_classification (tok_constraints t)))),
     (\<forall>m \<in> set_option (con_max_classification (tok_constraints t)). \<forall>c \<in> set_option cls. c \<le> m,
        ClassificationExceeded (the (con_max_classification (tok_constraints t))) (the cls)),
     (\<forall>n \<in> set_option (con_max_uses (tok_constraints t)). get_use_count (tok_id t) s < n,
        UseLimitExceeded (get_use_count (tok_id t) s) (the (con_max_uses (tok_constraints t))))]"

lemma validate_uses_result:
  "fst (validate_uses X t caller act res b s) =
     (case con_max_uses (tok_constraints t) of None \<Rightarrow> Inr ()
      | Some n \<Rightarrow> if get_use_count (tok_id t) s < n then Inr ()
          else Inl (UseLimitExceeded (get_use_count (tok_id t) s) n))"
  by (auto simp: validate_uses_def try_use_token_def Let_def split: option.split)

lemma validate_class_result:
  "fst (validate_class X t caller act res cls b s) =
     (case first_error (drop 10 (checks X M t caller act res cls s)) of None \<Rightarrow> Inr () | Some e \<Rightarrow> Inl e)"
  by (cases "con_max_classification (tok_constraints t)"; cases cls)
    (auto simp: validate_class_def validate_uses_result checks_def split: option.split)

lemma checks_split:
  "drop 8 (checks X M t caller act res cls s) =
    (unix_secs (tok_issued_at t) \<le> wall_clock s (wall_reads s) + 300, FutureDatedToken)
    # (\<forall>x \<in> set_option (tok_expiry t).
        Timestamp (wall_clock s (Suc (wall_reads s))) (mono_counter s + 1) \<le> x, TokenExpired)
    # drop 10 (checks X M t caller act res cls s)"
  by (simp add: checks_def)

lemma validate_time_result:
  "fst (validate_time X t caller act res cls b s) =
     (case first_error (drop 8 (checks X M t caller act res cls s)) of None \<Rightarrow> Inr () | Some e \<Rightarrow> Inl e)"
proof -
  define s1 where "s1 = s\<lparr>wall_reads := Suc (wall_reads s), mono_counter := mono_counter s + 1\<rparr>"
  define s2 where "s2 = s1\<lparr>wall_reads := Suc (wall_reads s1), mono_counter := mono_counter s1 + 1\<rparr>"
  have d: "drop 10 (checks X M t caller act res cls s1) = drop 10 (checks X M t caller act res cls s)"
    "drop 10 (checks X M t caller act res cls s2) = drop 10 (checks X M t caller act res cls s)"
    by (simp_all add: checks_def s1_def s2_def get_use_count_def)
  have "fst (validate_time X t caller act res cls b s) =
    (if unix_secs (tok_issued_at t) > wall_clock s (wall_reads s) + 300 then Inl FutureDatedToken
     else case tok_expiry t of
         None \<Rightarrow> fst (validate_class X t caller act res cls b s1)
       | Some x \<Rightarrow> if x < Timestamp (wall_clock s (Suc (wall_reads s))) (mono_counter s + 1)
           then Inl TokenExpired else fst (validate_class X t caller act res cls b s2))"
    by (simp add: validate_time_def time_reads CLOCK_SKEW_TOLERANCE_SECS_def s1_def s2_def
        split: option.split)
  also have "\<dots> = (case first_error (drop 8 (checks X M t caller act res cls s)) of
      None \<Rightarrow> Inr () | Some e \<Rightarrow> Inl e)"
    unfolding validate_class_result[where M = M] d checks_split
    by (cases "tok_expiry t") (simp_all add: not_less)
  finally show ?thesis .
qed

lemma validate_recurring_result:
  "fst (validate_recurring X M t caller act res cls b s) =
     (case first_error (checks X M t caller act res cls s) of None \<Rightarrow> Inr () | Some e \<Rightarrow> Inl e)"
proof -
  have "first_error (checks X M t caller act res cls s) =
    first_error (take 8 (checks X M t caller act res cls s) @ drop 8 (checks X M t caller act res cls s))"
    by simp
  then show ?thesis
    unfolding validate_recurring_def CURRENT_VERSION_def public_key_bytes_def is_epoch_valid_def
      is_token_revoked_def current_epoch_def
    by (simp add: validate_time_result[where M = M])
      (simp add: checks_def)
qed

subsection \<open>What a validation leaves behind\<close>

text \<open>
  The effect of a validation with the result \<open>r\<close>: the store is as before, but that a success
  of a limited token adds one to its count; and the audit log has one more event for a
  success that is to be audited, none for another success, and two for a refusal.
\<close>

definition validation_events ::
    "externals \<Rightarrow> capability_token \<Rightarrow> string \<Rightarrow> action \<Rightarrow> resource_id \<Rightarrow> bool
     \<Rightarrow> (validation_error + unit) \<Rightarrow> audit_event list \<Rightarrow> audit_event list \<Rightarrow> bool" where
  "validation_events X t caller act res b r log log' = (case r of
     Inl _ \<Rightarrow> \<exists>t1 t2 reason. log' = push_event (SecurityWarning t2 ''capability_validation_failed''
           (''token '' @ token_id_display X (tok_id t) @ '' failed validation: '' @ reason))
         (push_event (CapabilityUse t1 (token_id_display X (tok_id t)) caller
           (as_str (tok_resource t)) (action_display (tok_action t)) False) log)
   | Inr _ \<Rightarrow> if b then \<exists>t1. log' = push_event (CapabilityUse t1 (token_id_display X (tok_id t)) caller
           (as_str res) (action_display act) True) log
       else log' = log)"

definition validation_effect ::
    "externals \<Rightarrow> capability_token \<Rightarrow> string \<Rightarrow> action \<Rightarrow> resource_id \<Rightarrow> bool
     \<Rightarrow> (validation_error + unit) \<Rightarrow> 'a runtime_scheme \<Rightarrow> 'a runtime_scheme \<Rightarrow> bool" where
  "validation_effect X t caller act res b r s s' =
     (store_epoch s' = store_epoch s \<and> revoked_tokens s' = revoked_tokens s
      \<and> store_disk s' = store_disk s
      \<and> (\<forall>u. get_use_count u s' = (if u = tok_id t \<and> r = Inr () \<and> con_max_uses (tok_constraints t) \<noteq> None
           then get_use_count u s + 1 else get_use_count u s))
      \<and> validation_events X t caller act res b r (audit_buffer s) (audit_buffer s'))"

definition effect_of where
  "effect_of X t caller act res b s p = validation_effect X t caller act res b (fst p) s (snd p)"

lemma effect_after:
  "effect_of X t caller act res b s1 p \<Longrightarrow> same_store s s1 \<Longrightarrow> audit_buffer s1 = audit_buffer s \<Longrightarrow>
   effect_of X t caller act res b s p"
  by (simp add: effect_of_def validation_effect_def same_store_def get_use_count_def)

lemma failure_buffer:
  "\<exists>t1 t2. audit_buffer (audit_validation_failure X t c reason s) =
     push_event (SecurityWarning t2 ''capability_validation_failed''
       (''token '' @ token_id_display X (tok_id t) @ '' failed validation: '' @ reason))
     (push_event (CapabilityUse t1 (token_id_display X (tok_id t)) c
       (as_str (tok_resource t)) (action_display (tok_action t)) False) (audit_buffer s))"
  by (auto simp: audit_validation_failure_def audit_helpers ts_now_eq)

lemma effect_refuse: "effect_of X t caller act res b s (refuse X t caller reason e s)"
  using failure_buffer[of X t caller reason s] same_store_failure[of s X t caller reason]
  by (auto simp: effect_of_def validation_effect_def validation_events_def same_store_def
      get_use_count_def)

lemma effect_success:
  assumes "audit_buffer s1 = audit_buffer s" "store_epoch s1 = store_epoch s"
    "revoked_tokens s1 = revoked_tokens s" "store_disk s1 = store_disk s"
    and "\<And>u. get_use_count u s1 = (if u = tok_id t \<and> con_max_uses (tok_constraints t) \<noteq> None
      then get_use_count u s + 1 else get_use_count u s)"
  shows "effect_of X t caller act res b s
    (Inr (), record_capability_use caller (if b then capability_use X (tok_id t) caller res act True s1 else s1))"
    (is "effect_of _ _ _ _ _ _ _ (_, ?s2)")
proof -
  have "same_store s1 ?s2"
    by (simp add: same_store_trans[OF same_store_helpers(1) same_store_helpers(7)])
  moreover have "validation_events X t caller act res b (Inr ()) (audit_buffer s1) (audit_buffer ?s2)"
    by (auto simp: validation_events_def record_capability_use_def capability_use_def ts_now_eq)
  moreover note same_storeD[OF calculation(1)]
  ultimately show ?thesis using assms
    by (simp only: effect_of_def validation_effect_def fst_conv snd_conv) simp
qed

lemma effect_uses: "effect_of X t caller act res b s (validate_uses X t caller act res b s)"
proof (cases "con_max_uses (tok_constraints t)")
  case None
  then show ?thesis
    using effect_success[of s s t X caller act res b] by (simp add: validate_uses_def)
next
  case (Some n)
  let ?s = "snd (try_use_token (tok_id t) n s)"
  have buf: "audit_buffer ?s = audit_buffer s" by (simp add: try_use_token_def Let_def)
  show ?thesis
  proof (cases "get_use_count (tok_id t) s < n")
    case True
    then have lt: "\<not> n \<le> get_use_count (tok_id t) s" by simp
    have "validate_uses X t caller act res b s = (Inr (), record_capability_use caller
        (if b then capability_use X (tok_id t) caller res act True ?s else ?s))"
      using lt by (simp add: validate_uses_def Some try_use_token_def Let_def)
    then show ?thesis using effect_success[of ?s s t X caller act res b] True Some buf by simp
  next
    case False
    then have ge: "n \<le> get_use_count (tok_id t) s" by simp
    have v: "validate_uses X t caller act res b s = refuse X t caller ''use_limit_exceeded''
        (UseLimitExceeded (get_use_count (tok_id t) s) n) ?s"
      using ge by (simp add: validate_uses_def Some try_use_token_def Let_def)
    have "get_use_count u ?s = get_use_count u s" for u using False by simp
    then show ?thesis
      using effect_refuse[of X t caller act res b ?s "''use_limit_exceeded''"] buf
      by (simp add: v effect_of_def validation_effect_def)
  qed
qed

lemma effect_class: "effect_of X t caller act res b s (validate_class X t caller act res cls b s)"
  by (auto simp: validate_class_def effect_uses effect_refuse split: option.split)

lemma effect_time: "effect_of X t caller act res b s (validate_time X t caller act res cls b s)"
proof -
  have e: "effect_of X t caller act res b s p"
    if "effect_of X t caller act res b (s\<lparr>wall_reads := i, mono_counter := j\<rparr>) p" for p i j
    by (rule effect_after[OF that]) (simp_all add: same_store_def)
  show ?thesis
    by (auto simp: validate_time_def time_reads split: option.split
        intro!: e effect_class effect_refuse)
qed

lemma effect_recurring:
  "effect_of X t caller act res b s (validate_recurring X M t caller act res cls b s)"
  by (simp add: validate_recurring_def effect_time effect_refuse)

lemmas validate_effect = effect_recurring[unfolded effect_of_def]

lemma validate_frame [simp, frame]:
  "store_epoch (snd (validate_recurring X M t c a r k b s)) = store_epoch s"
  "revoked_tokens (snd (validate_recurring X M t c a r k b s)) = revoked_tokens s"
  "store_disk (snd (validate_recurring X M t c a r k b s)) = store_disk s"
  using validate_effect[where X = X and t = t and caller = c and act = a and res = r and b = b
      and s = s and M = M and cls = k] by (simp_all add: validation_effect_def)

subsection \<open>Granted tokens\<close>

lemma raise_epoch:
  "(if con_epoch con < e then con\<lparr>con_epoch := e\<rparr> else con)
    = (con :: token_constraints)\<lparr>con_epoch := max (con_epoch con) e\<rparr>"
  by (cases con) (auto simp: max_def)

lemma grant_token:
  "grant X M c r a con x s = (t, s') \<Longrightarrow>
   t = token_sign X (signing_key M)
     \<lparr>tok_version = 1, tok_id = TokenId (uuid_bytes s (uuid_draws s)), tok_capsule = c,
      tok_issuer = verifying_key M, tok_resource = r, tok_action = a,
      tok_constraints = con\<lparr>con_epoch := max (con_epoch con) (store_epoch s)\<rparr>,
      tok_issued_at = Timestamp (wall_clock s (wall_reads s)) (mono_counter s),
      tok_expiry = x, tok_signature = replicate 64 0\<rparr>"
  by (auto simp: grant_def token_new_def token_id_new_def time_reads Let_def
      current_epoch_def public_key_bytes_def CURRENT_VERSION_def raise_epoch)

lemma same_store_grant [simp]: "same_store s (snd (grant X M c r a con x s))"
proof -
  define s1 where "s1 = s\<lparr>wall_reads := Suc (wall_reads s), mono_counter := mono_counter s + 1,
    uuid_draws := Suc (uuid_draws s)\<rparr>"
  obtain tid where "snd (grant X M c r a con x s)
      = capability_grant X tid c r a x (record_capability_request c s1)"
    by (auto simp: grant_def token_new_def token_id_new_def time_reads Let_def s1_def)
  moreover have "same_store s s1" by (simp add: same_store_def s1_def)
  ultimately show ?thesis
    using same_store_trans[OF same_store_trans[OF _ same_store_request] same_store_helpers(4)] by simp
qed

lemma grant_clock:
  "wall_reads (snd (grant X M c r a con x s)) = wall_reads s + 2"
  "wall_clock (snd (grant X M c r a con x s)) = wall_clock s"
  by (simp_all add: grant_def token_new_def token_id_new_def time_reads Let_def
      capability_grant_def record_capability_request_def)

subsection \<open>Every step of the capability system\<close>

text \<open>
  The manager's operations, the store's own, and any step of the other components, which
  share the clock, the metrics and the log but not the store. Epoch advances stop at the last
  value of the word.
\<close>

inductive manager_step ::
    "externals \<Rightarrow> cap_manager \<times> 'a runtime_scheme \<Rightarrow> cap_manager \<times> 'a runtime_scheme \<Rightarrow> bool" for X where
  step_grant: "manager_step X (M, s) (M, snd (grant X M c r a con x s))"
| step_validate: "manager_step X (M, s) (M, snd (validate_recurring X M t c a r cls b s))"
| step_delegate: "manager_step X (M, s) (M, snd (delegate X M t c to r x s))"
| step_revoke_token: "manager_step X (M, s) (M, revoke X i why s)"
| step_revoke_all: "store_epoch s \<noteq> - 1 \<Longrightarrow> manager_step X (M, s) (M, snd (revoke_all why s))"
| step_rotate: "store_epoch s \<noteq> - 1 \<Longrightarrow> rotate_signing_key X key w path why M s = (p, M', path', s')
    \<Longrightarrow> manager_step X (M, s) (M', s')"
| step_store: "store_step X s s' \<Longrightarrow> manager_step X (M, s) (M, s')"
| step_other: "same_store s s' \<Longrightarrow> manager_step X (M, s) (M, s')"

inductive_cases manager_stepE: "manager_step X p q"

text \<open>The granting half of a delegation, from the state after the validation.\<close>

definition child_grant where
  "child_grant X M parent to_capsule resource expiry s =
     grant X M to_capsule resource (tok_action parent) (child_constraints (tok_constraints parent))
       (effective_expiry (tok_expiry parent) expiry) s"

lemma delegate_cases:
  obtains (refused) e where
      "fst (validate X M t c (tok_action t) (tok_resource t) None s) = Inl e"
      "delegate X M t c to r x s
        = (Inl e, snd (validate X M t c (tok_action t) (tok_resource t) None s))"
  | (not_allowed) "fst (validate X M t c (tok_action t) (tok_resource t) None s) = Inr ()"
      "\<not> con_delegatable (tok_constraints t)"
      "delegate X M t c to r x s
        = (Inl DelegationNotAllowed, snd (validate X M t c (tok_action t) (tok_resource t) None s))"
  | (widened) "fst (validate X M t c (tok_action t) (tok_resource t) None s) = Inr ()"
      "con_delegatable (tok_constraints t)" "\<not> matches r (tok_resource t)"
      "delegate X M t c to r x s
        = (Inl DelegationScopeWidened, snd (validate X M t c (tok_action t) (tok_resource t) None s))"
  | (granted) child s1 d where
      "fst (validate X M t c (tok_action t) (tok_resource t) None s) = Inr ()"
      "con_delegatable (tok_constraints t)" "matches r (tok_resource t)"
      "child_grant X M t to r x (snd (validate X M t c (tok_action t) (tok_resource t) None s))
        = (child, s1)"
      "delegate X M t c to r x s = (Inr child, security_warning ''capability_delegated'' d s1)"
proof -
  let ?v = "validate X M t c (tok_action t) (tok_resource t) None s"
  let ?g = "child_grant X M t to r x (snd ?v)"
  have d: "delegate X M t c to r x s = (case fst ?v of Inl e \<Rightarrow> (Inl e, snd ?v)
    | Inr _ \<Rightarrow> if \<not> con_delegatable (tok_constraints t) then (Inl DelegationNotAllowed, snd ?v)
        else if \<not> matches r (tok_resource t) then (Inl DelegationScopeWidened, snd ?v)
        else (Inr (fst ?g), security_warning ''capability_delegated''
          (''Token '' @ token_id_display X (tok_id (fst ?g)) @ '' delegated from ''
                  @ tok_capsule t @ '' to '' @ to @ '' for '' @ as_str r) (snd ?g)))"
    by (cases "fst ?v") (simp_all add: delegate_def child_grant_def split_def Let_def)
  show ?thesis
  proof (cases "fst ?v")
    case (Inl e)
    then show ?thesis using d refused by simp
  next
    case (Inr u)
    then have v: "fst ?v = Inr ()" by simp
    consider "\<not> con_delegatable (tok_constraints t)"
      | "con_delegatable (tok_constraints t)" "\<not> matches r (tok_resource t)"
      | "con_delegatable (tok_constraints t)" "matches r (tok_resource t)" by blast
    then show ?thesis
    proof cases
      case 3
      then show ?thesis using d v granted[of "fst ?g" "snd ?g"] by simp
    qed (use d v not_allowed widened in simp_all)
  qed
qed

lemma validate_store:
  "store_epoch (snd (validate X M t c a r cls s)) = store_epoch s"
  "revoked_tokens (snd (validate X M t c a r cls s)) = revoked_tokens s"
  by (simp_all add: validate_def)

lemma delegate_store:
  "store_epoch (snd (delegate X M t c to r x s)) = store_epoch s"
  "revoked_tokens (snd (delegate X M t c to r x s)) = revoked_tokens s"
proof -
  have g: "same_store s' (snd (child_grant X M t to r x s'))" for s' :: "'a runtime_scheme"
    by (simp add: child_grant_def)
  have "store_epoch (snd (delegate X M t c to r x s)) = store_epoch s
      \<and> revoked_tokens (snd (delegate X M t c to r x s)) = revoked_tokens s"
  proof (cases rule: delegate_cases[of X M t c s to r x])
    case (granted child s1 d)
    then show ?thesis
      using same_storeD(1,2)[OF g[of "snd (validate X M t c (tok_action t) (tok_resource t) None s)"]]
      by (simp add: validate_store)
  qed (simp_all add: validate_store)
  then show "store_epoch (snd (delegate X M t c to r x s)) = store_epoch s"
    "revoked_tokens (snd (delegate X M t c to r x s)) = revoked_tokens s" by simp_all
qed

lemma revoke_all_store:
  "store_epoch (snd (revoke_all why s)) = store_epoch (snd (advance_epoch s))"
  "revoked_tokens (snd (revoke_all why s)) = revoked_tokens s"
  by (simp_all add: revoke_all_def split_def Let_def)

lemma rotate_store:
  assumes "rotate_signing_key X key w path why M s = (p, M', path', s')"
  shows "store_epoch s' = store_epoch (snd (advance_epoch s))" "revoked_tokens s' = revoked_tokens s"
  using assms by (auto simp: rotate_signing_key_def split_def Let_def)

lemma revoke_store:
  "store_epoch (revoke X i why s) = store_epoch s"
  "set (revoked_tokens (revoke X i why s)) = insert i (set (revoked_tokens s))"
  by (simp_all add: revoke_def)

definition refused_in :: "capability_token \<Rightarrow> cap_manager \<times> 'a runtime_scheme \<Rightarrow> bool" where
  "refused_in t p = token_refused t (snd p)"

lemma manager_step_mono:
  assumes "manager_step X p q"
  shows "set (revoked_tokens (snd p)) \<subseteq> set (revoked_tokens (snd q))
    \<and> store_epoch (snd p) \<le> store_epoch (snd q)"
  using assms
proof (cases rule: manager_step.cases)
  case (step_grant M s c r a con x)
  then show ?thesis using same_storeD(1,2)[OF same_store_grant] by (metis order_refl snd_conv)
next
  case (step_store s s' M)
  then show ?thesis using store_step_mono[of X s s'] by simp
next
  case (step_other s s' M)
  then show ?thesis using same_storeD(1,2)[of s s'] by simp
qed (auto simp: delegate_store revoke_store revoke_all_store rotate_store advance_epoch_mono)

interpretation manager: permanent_refusal refused_in "manager_step X" for X
proof
  show "refused_in t q" if "refused_in t p" "manager_step X p q" for t p q
    using that refused_mono manager_step_mono[OF that(2)] unfolding refused_in_def by metis
qed

lemma refused_not_validated:
  assumes "token_refused t s"
  shows "\<exists>e. fst (validate_recurring X M t c a r cls b s) = Inl e"
proof -
  have "first_error (checks X M t c a r cls s) \<noteq> None"
    unfolding first_error_None_iff
    using assms by (auto simp: checks_def token_refused_def is_token_revoked_def
        is_epoch_valid_def current_epoch_def)
  then show ?thesis by (auto simp: validate_recurring_result)
qed

subsection \<open>Runs of validations\<close>

record validation_call =
  call_token :: capability_token
  call_caller :: string
  call_action :: action
  call_resource :: resource_id
  call_class :: "u8 option"
  call_audit :: bool

text \<open>Validations one after the other; the flags tell which succeed.\<close>

fun validate_run ::
    "externals \<Rightarrow> cap_manager \<Rightarrow> validation_call list \<Rightarrow> 'a runtime_scheme \<Rightarrow> bool list \<times> 'a runtime_scheme" where
  "validate_run X M [] s = ([], s)"
| "validate_run X M (c # cs) s =
     (let (r, s) = validate_recurring X M (call_token c) (call_caller c) (call_action c)
            (call_resource c) (call_class c) (call_audit c) s;
          (rs, s) = validate_run X M cs s
      in ((r = Inr ()) # rs, s))"

definition successes_of :: "token_id \<Rightarrow> validation_call list \<Rightarrow> bool list \<Rightarrow> nat" where
  "successes_of i cs oks = length (filter (\<lambda>(c, ok). tok_id (call_token c) = i \<and> ok) (zip cs oks))"

lemma validate_ok_below_limit:
  assumes "fst (validate_recurring X M t c a r cls b s) = Inr ()"
    and "con_max_uses (tok_constraints t) = Some n"
  shows "get_use_count (tok_id t) s < n"
proof -
  have "first_error (checks X M t c a r cls s) = None"
    using assms(1) by (simp add: validate_recurring_result split: option.splits)
  then show ?thesis using assms(2) unfolding first_error_None_iff by (simp add: checks_def)
qed

lemma validate_count:
  "get_use_count u (snd (validate_recurring X M t c a r cls b s)) =
    (if u = tok_id t \<and> fst (validate_recurring X M t c a r cls b s) = Inr ()
        \<and> con_max_uses (tok_constraints t) \<noteq> None
     then get_use_count u s + 1 else get_use_count u s)"
  using validate_effect[where X = X and t = t and caller = c and act = a and res = r and b = b
      and s = s and M = M and cls = cls] by (simp add: validation_effect_def)

lemma validate_run_budget:
  assumes "\<forall>c \<in> set cs. tok_id (call_token c) = i \<longrightarrow> con_max_uses (tok_constraints (call_token c)) = Some n"
  shows "successes_of i cs (fst (validate_run X M cs s)) \<le> unat n - unat (get_use_count i s)"
  using assms
proof (induction cs arbitrary: s)
  case Nil
  then show ?case by (simp add: successes_of_def)
next
  case (Cons c cs)
  let ?v = "validate_recurring X M (call_token c) (call_caller c) (call_action c)
            (call_resource c) (call_class c) (call_audit c) s"
  have IH: "successes_of i cs (fst (validate_run X M cs (snd ?v)))
      \<le> unat n - unat (get_use_count i (snd ?v))"
    using Cons by simp
  have run: "fst (validate_run X M (c # cs) s) = (fst ?v = Inr ()) # fst (validate_run X M cs (snd ?v))"
    by (simp add: split_def Let_def)
  show ?case
  proof (cases "tok_id (call_token c) = i \<and> fst ?v = Inr ()")
    case True
    then have lim: "con_max_uses (tok_constraints (call_token c)) = Some n" using Cons.prems by simp
    then have below: "get_use_count i s < n" using validate_ok_below_limit[of X M "call_token c"] True by blast
    then have "unat (get_use_count i (snd ?v)) = Suc (unat (get_use_count i s))"
      using True lim by (simp add: validate_count unat_add_one_below)
    moreover have "unat (get_use_count i s) < unat n" using below by (simp add: word_less_nat_alt)
    ultimately show ?thesis using IH True unfolding run by (simp add: successes_of_def)
  next
    case False
    then have "get_use_count i (snd ?v) = get_use_count i s" by (auto simp: validate_count)
    then show ?thesis using IH False unfolding run by (auto simp: successes_of_def)
  qed
qed

subsection \<open>Properties\<close>

text \<open>
  Property C1. Validation implements its table of checks: it succeeds exactly when all
  hold, and otherwise reports the error of the first check that fails, in the documented
  order, each decided on the state and the clock readings of the call.
\<close>

theorem validate_reports_first_failure:
  "fst (validate_recurring X M t caller act res cls audit_success s) =
     (case first_error (checks X M t caller act res cls s) of None \<Rightarrow> Inr () | Some e \<Rightarrow> Inl e)"
  by (rule validate_recurring_result)

text \<open>
  Every refusal is audited and nothing else changes: a failed validation
  appends a failed use and a security warning naming the token; a success appends one
  \<^verbatim>\<open>CapabilityUse\<close> unless the caller coalesces; the store keeps its epoch, revocations and
  files, and the one count that moves is that of a limited token that succeeded.
\<close>

theorem validate_audits_and_counts:
  "validation_effect X t caller act res audit_success
     (fst (validate_recurring X M t caller act res cls audit_success s)) s
     (snd (validate_recurring X M t caller act res cls audit_success s))"
  by (rule validate_effect)

text \<open>
  Property C3. Revocation is final: once a token's identifier is revoked, whatever grants,
  validations, delegations, revocations, key rotations, store operations and steps of other
  components follow, no validation of a token with that identifier ever succeeds.
\<close>

theorem revoked_never_validates:
  assumes "(manager_step X)\<^sup>*\<^sup>* (M, revoke X (tok_id t) why s) (M', s')"
  shows "\<exists>e. fst (validate_recurring X M' t caller act res cls audit_success s') = Inl e"
proof -
  have "refused_in t (M, revoke X (tok_id t) why s)"
    by (simp add: refused_in_def token_refused_def is_token_revoked_def revoke_store)
  then have "refused_in t (M', s')" by (rule manager.refused_forever[OF assms])
  then show ?thesis using refused_not_validated by (auto simp: refused_in_def)
qed

text \<open>
  Mass revocation is final: after \<^verbatim>\<open>revoke_all\<close> with a working epoch file, no
  token whose epoch was at most the epoch of that moment ever validates again.
\<close>

theorem revoke_all_is_final:
  assumes "store_epoch s \<noteq> - 1" and "store_disk s = None \<or> store_io s (store_ios s) = IoOk"
    and "con_epoch (tok_constraints t) \<le> store_epoch s"
    and "(manager_step X)\<^sup>*\<^sup>* (M, snd (revoke_all why s)) (M', s')"
  shows "\<exists>e. fst (validate_recurring X M' t caller act res cls audit_success s') = Inl e"
proof -
  have "store_epoch (snd (revoke_all why s)) = store_epoch s + 1"
    using advance_epoch_cases[of s] assms(2) by (auto simp: revoke_all_store)
  then have "refused_in t (M, snd (revoke_all why s))"
    using le_less_trans[OF assms(3) word_less_inc[OF assms(1)]]
    by (simp add: refused_in_def token_refused_def is_epoch_valid_def current_epoch_def not_le)
  then have "refused_in t (M', s')" by (rule manager.refused_forever[OF assms(4)])
  then show ?thesis using refused_not_validated by (auto simp: refused_in_def)
qed

text \<open>
  The use budget holds across callers: in any sequence of validations, the
  tokens with one identifier succeed together at most as often as their limit allows, whoever
  presents them and whatever else is validated in between.
\<close>

theorem validation_budget:
  assumes "\<forall>c \<in> set cs. tok_id (call_token c) = i
      \<longrightarrow> con_max_uses (tok_constraints (call_token c)) = Some n"
  shows "successes_of i cs (fst (validate_run X M cs s)) \<le> unat n - unat (get_use_count i s)"
  using assms by (rule validate_run_budget)


text \<open>
  Property C2. Delegation only narrows: a delegated token acts for the named capsule with the
  parent's action, reaches no resource its parent does not reach, carries a valid signature,
  cannot be delegated further, and expires no later (in seconds) than its parent.
\<close>

theorem delegation_narrows:
  assumes "delegate X M parent caller to res x s = (Inr child, s')"
    and "sign_correct X" and "verifying_key M = ed_public X (signing_key M)"
  shows "tok_action child = tok_action parent \<and> tok_capsule child = to
    \<and> (\<forall>r. matches r (tok_resource child) \<longrightarrow> matches r (tok_resource parent))
    \<and> verify_signature X (verifying_key M) child
    \<and> \<not> con_delegatable (tok_constraints child)
    \<and> (\<forall>p. tok_expiry parent = Some p \<longrightarrow>
        (\<exists>e. tok_expiry child = Some e \<and> unix_secs e \<le> unix_secs p))"
proof (cases rule: delegate_cases[of X M parent caller s to res x])
  case (granted c s1 d)
  then have c: "c = child" using assms(1) by simp
  let ?s = "snd (validate X M parent caller (tok_action parent) (tok_resource parent) None s)"
  have g: "grant X M to res (tok_action parent) (child_constraints (tok_constraints parent))
      (effective_expiry (tok_expiry parent) x) ?s = (child, s1)"
    using granted(4) c by (simp add: child_grant_def)
  note t = grant_token[OF g]
  have "verify_signature X (verifying_key M) child"
    unfolding t assms(3) by (rule verify_sign[OF assms(2)])
  moreover have "matches r (tok_resource parent)" if "matches r res" for r
    using scope.within_trans[OF that granted(3)] .
  moreover have "\<exists>e. effective_expiry (Some p) x = Some e \<and> unix_secs e \<le> unix_secs p" for p
    by (cases x) (auto simp: effective_expiry_def)
  ultimately show ?thesis by (simp add: t child_constraints_def)
qed (use assms(1) in simp_all)

text \<open>
  A delegated token gets the parent's use limit in full, on a count of its own:
  delegating costs the parent one use and gives the child as many as the parent had at
  first, so a holder of a delegatable token limited to n uses can have it used more than n
  times through its children.
\<close>

theorem delegation_copies_use_limit:
  assumes "delegate X M parent caller to res x s = (Inr child, s')"
    and "con_max_uses (tok_constraints parent) = Some n"
  shows "con_max_uses (tok_constraints child) = Some n
    \<and> get_use_count (tok_id parent) s' = get_use_count (tok_id parent) s + 1
    \<and> (tok_id child \<noteq> tok_id parent \<longrightarrow> get_use_count (tok_id child) s' = get_use_count (tok_id child) s)"
proof (cases rule: delegate_cases[of X M parent caller s to res x])
  case (granted c s1 d)
  let ?s = "snd (validate X M parent caller (tok_action parent) (tok_resource parent) None s)"
  have g: "grant X M to res (tok_action parent) (child_constraints (tok_constraints parent))
      (effective_expiry (tok_expiry parent) x) ?s = (child, s1)"
    using granted(4,5) assms(1) by (simp add: child_grant_def)
  have "s' = security_warning ''capability_delegated'' d s1" using granted(5) assms(1) by simp
  then have same: "same_store ?s s'"
    using same_store_trans[OF same_store_grant same_store_helpers(2)] g by (metis snd_conv)
  have "get_use_count u ?s = (if u = tok_id parent then get_use_count u s + 1 else get_use_count u s)" for u
    using granted(1) assms(2) by (simp add: validate_def validate_count)
  then show ?thesis
    using grant_token[OF g] assms(2) same_storeD(4)[OF same]
    by (simp add: child_constraints_def)
qed (use assms(1) in simp_all)

text \<open>
  A token with a classification ceiling can never be delegated: the parent is
  validated without a resource classification, which such a token always fails, so the
  ceiling that \<^verbatim>\<open>delegate\<close> copies to the child is always absent.
\<close>

theorem classified_token_not_delegated:
  assumes "con_max_classification (tok_constraints parent) \<noteq> None"
  shows "\<exists>e. fst (delegate X M parent caller to res x s) = Inl e"
proof -
  have "first_error (checks X M parent caller (tok_action parent) (tok_resource parent) None s) \<noteq> None"
    unfolding first_error_None_iff using assms by (simp add: checks_def)
  then have "\<exists>e. fst (validate X M parent caller (tok_action parent) (tok_resource parent) None s) = Inl e"
    by (auto simp: validate_def validate_recurring_result)
  then show ?thesis
    by (cases rule: delegate_cases[of X M parent caller s to res x]) auto
qed

text \<open>
  The signing key survives a restart: a key generated and written on the first
  start is the key of every later start, so the tokens signed with it keep verifying.
\<close>

theorem signing_key_survives_restart:
  assumes "load_or_generate X KeyWritten KeyMissing key s = (M, path, s')"
    and "length key = 32" and "sign_correct X"
  shows "load_or_generate X w path key2 s2 = (M, path, s2)
    \<and> verify_signature X (verifying_key (fst (load_or_generate X w path key2 s2)))
        (token_sign X (signing_key M) t)"
  using assms verify_sign[OF assms(3)]
  by (auto simp: load_or_generate_def generate_and_persist_key_def persist_signing_key_bytes_def
      read_signing_key_file_def manager_with_key_def Let_def)

text \<open>
  A torn first write of the key file is never repaired: when the write of a fresh
  key stops short, the short file stays, and every later start runs on a new key that is not
  kept, whatever its own writes could do.
\<close>

theorem torn_key_file_stays:
  assumes "load_or_generate X (WriteFailed part) KeyMissing key s = (M, path, s')"
    and "length part \<noteq> 32"
  shows "load_or_generate X w path key2 s2 = (manager_with_key X key2, path, s2)"
  using assms
  by (auto simp: load_or_generate_def generate_and_persist_key_def persist_signing_key_bytes_def
      read_signing_key_file_def Let_def)

subsection \<open>Examples\<close>

definition demo_key :: bytes where
  "demo_key = replicate 32 1"

definition demo_manager :: cap_manager where
  "demo_manager = manager_with_key demo_ext demo_key"

definition demo_constraints :: token_constraints where
  "demo_constraints = constraints_new 0 True None (Some 2)"

text \<open>A signed, delegatable token limited to two uses.\<close>

definition demo_parent :: capability_token where
  "demo_parent = token_sign demo_ext demo_key (demo_token 200 ''c'' Read\<lparr>tok_constraints := demo_constraints\<rparr>)"

lemma demo_sel:
  "verifying_key demo_manager = demo_key" "signing_key demo_manager = demo_key"
  "ed_public demo_ext demo_key = demo_key"
  by (simp_all add: demo_manager_def manager_with_key_def)

lemma demo_parent_verifies: "verify_signature demo_ext demo_key demo_parent"
  using verify_sign[of demo_ext demo_key] by (simp add: demo_parent_def)

lemma demo_parent_sel:
  "tok_version demo_parent = 1" "tok_id demo_parent = TokenId (replicate 15 0 @ [200])"
  "tok_capsule demo_parent = ''c''" "tok_issuer demo_parent = demo_key"
  "tok_resource demo_parent = ResourceId ''elastos://a''" "tok_action demo_parent = Read"
  "tok_constraints demo_parent = demo_constraints" "tok_issued_at demo_parent = Timestamp 1000 1"
  "tok_expiry demo_parent = None"
  by (simp_all add: demo_parent_def demo_token_def demo_key_def)

lemma demo_rt_sel:
  "store_epoch demo_rt = 0" "revoked_tokens demo_rt = []" "use_counts demo_rt = []"
  "wall_reads demo_rt = 0" "wall_clock demo_rt = (\<lambda>n. 1000 + of_nat n)" "store_disk demo_rt = None"
  "uuid_draws demo_rt = 0" "uuid_bytes demo_rt = (\<lambda>n. replicate 15 0 @ [of_nat n])"
  by (simp_all add: demo_rt_def)

lemma demo_parent_valid:
  "fst (validate demo_ext demo_manager demo_parent ''c'' Read (ResourceId ''elastos://a'') None demo_rt) = Inr ()"
proof -
  have "first_error (checks demo_ext demo_manager demo_parent ''c'' Read (ResourceId ''elastos://a'')
      None demo_rt) = None"
    by (simp add: checks_def demo_parent_sel demo_sel demo_parent_verifies demo_rt_sel scope.within_refl
        demo_constraints_def constraints_new_def get_use_count_def)
  then show ?thesis by (simp add: validate_def validate_recurring_result)
qed

lemma demo_delegation:
  obtains child s' where
    "delegate demo_ext demo_manager demo_parent ''c'' ''d'' (ResourceId ''elastos://a'') None demo_rt = (Inr child, s')"
proof (cases rule: delegate_cases[of demo_ext demo_manager demo_parent "''c''" demo_rt "''d''" "ResourceId ''elastos://a''" None])
  case not_allowed
  then show ?thesis by (simp add: demo_parent_sel demo_constraints_def constraints_new_def)
next
  case widened
  then show ?thesis by (simp add: demo_parent_sel scope.within_refl)
qed (use demo_parent_valid that in \<open>auto simp: demo_parent_sel\<close>)

theorem delegation_narrows_witness:
  "\<exists>child s'. delegate demo_ext demo_manager demo_parent ''c'' ''d'' (ResourceId ''elastos://a'') None demo_rt
       = (Inr child, s') \<and> tok_capsule child = ''d'' \<and> \<not> con_delegatable (tok_constraints child)"
proof (rule demo_delegation)
  fix child s'
  assume d: "delegate demo_ext demo_manager demo_parent ''c'' ''d'' (ResourceId ''elastos://a'') None demo_rt
     = (Inr child, s')"
  show ?thesis
    using delegation_narrows[OF d demo_ext_laws(1)] d by (simp add: demo_sel)
qed

theorem delegation_copies_use_limit_witness:
  "\<exists>child s'. delegate demo_ext demo_manager demo_parent ''c'' ''d'' (ResourceId ''elastos://a'') None demo_rt
       = (Inr child, s') \<and> con_max_uses (tok_constraints child) = Some 2
       \<and> get_use_count (tok_id demo_parent) s' = 1"
proof (rule demo_delegation)
  fix child s'
  assume d: "delegate demo_ext demo_manager demo_parent ''c'' ''d'' (ResourceId ''elastos://a'') None demo_rt
     = (Inr child, s')"
  show ?thesis
    using delegation_copies_use_limit[OF d, of 2] d
    by (simp add: demo_parent_sel demo_constraints_def constraints_new_def get_use_count_def demo_rt_sel)
qed

theorem classified_token_not_delegated_witness:
  "\<exists>e. fst (delegate demo_ext demo_manager
     (demo_parent\<lparr>tok_constraints := constraints_new 0 True (Some 3) None\<rparr>)
     ''c'' ''d'' (ResourceId ''elastos://a'') None demo_rt) = Inl e"
  by (rule classified_token_not_delegated) (simp add: constraints_new_def)

theorem signing_key_survives_restart_witness:
  "\<exists>M path s'. load_or_generate demo_ext KeyWritten KeyMissing demo_key demo_rt = (M, path, s')
     \<and> load_or_generate demo_ext OpenFailed path [7] demo_rt = (M, path, demo_rt)"
proof -
  obtain M path s' where l: "load_or_generate demo_ext KeyWritten KeyMissing demo_key demo_rt = (M, path, s')"
    using prod_cases3 by blast
  have "length demo_key = 32" by (simp add: demo_key_def)
  from signing_key_survives_restart[OF l this demo_ext_laws(1)] l show ?thesis by blast
qed

theorem torn_key_file_stays_witness:
  "\<exists>M path s'. load_or_generate demo_ext (WriteFailed [1, 1]) KeyMissing demo_key demo_rt = (M, path, s')
     \<and> load_or_generate demo_ext KeyWritten path [7] demo_rt = (manager_with_key demo_ext [7], path, demo_rt)"
proof -
  obtain M path s' where l:
    "load_or_generate demo_ext (WriteFailed [1, 1]) KeyMissing demo_key demo_rt = (M, path, s')"
    using prod_cases3 by blast
  from torn_key_file_stays[OF l] l show ?thesis by simp
qed

theorem revoked_never_validates_witness:
  "\<exists>e. fst (validate_recurring demo_ext demo_manager demo_parent ''c'' Read (ResourceId ''elastos://a'') None True
     (snd (grant demo_ext demo_manager ''c'' (ResourceId ''x'') Read demo_constraints None
        (revoke demo_ext (tok_id demo_parent) ''why'' demo_rt)))) = Inl e"
proof -
  have "(manager_step demo_ext)\<^sup>*\<^sup>* (demo_manager, revoke demo_ext (tok_id demo_parent) ''why'' demo_rt)
     (demo_manager, snd (grant demo_ext demo_manager ''c'' (ResourceId ''x'') Read demo_constraints None
        (revoke demo_ext (tok_id demo_parent) ''why'' demo_rt)))"
    by (rule r_into_rtranclp) (rule step_grant)
  then show ?thesis by (rule revoked_never_validates)
qed

theorem revoke_all_is_final_witness:
  "\<exists>e. fst (validate_recurring demo_ext demo_manager demo_parent ''c'' Read (ResourceId ''elastos://a'') None True
     (snd (revoke_all ''why'' demo_rt))) = Inl e"
proof (rule revoke_all_is_final)
  show "store_epoch demo_rt \<noteq> - 1" by (simp add: demo_rt_sel)
  show "store_disk demo_rt = None \<or> store_io demo_rt (store_ios demo_rt) = IoOk"
    by (simp add: demo_rt_sel)
  show "con_epoch (tok_constraints demo_parent) \<le> store_epoch demo_rt"
    by (simp add: demo_parent_sel demo_rt_sel demo_constraints_def constraints_new_def)
qed (rule rtranclp.rtrancl_refl)

theorem validation_budget_witness:
  "let c = \<lparr>call_token = demo_parent, call_caller = ''c'', call_action = Read,
        call_resource = ResourceId ''elastos://a'', call_class = None, call_audit = True\<rparr>
   in successes_of (tok_id demo_parent) [c, c, c]
        (fst (validate_run demo_ext demo_manager [c, c, c] demo_rt)) \<le> 2"
proof -
  let ?c = "\<lparr>call_token = demo_parent, call_caller = ''c'', call_action = Read,
        call_resource = ResourceId ''elastos://a'', call_class = None, call_audit = True\<rparr>"
  have "\<forall>c \<in> set [?c, ?c, ?c]. tok_id (call_token c) = tok_id demo_parent
      \<longrightarrow> con_max_uses (tok_constraints (call_token c)) = Some 2"
    by (simp add: demo_parent_sel demo_constraints_def constraints_new_def)
  from validation_budget[OF this, of demo_ext demo_manager demo_rt] show ?thesis
    by (simp add: get_use_count_def demo_rt_sel Let_def del: validate_run.simps)
qed


end
