(* ===== verification/Session.thy ===== *)
theory Session
  imports Audit_Log
begin

section \<open>Sessions\<close>

text \<open>
  \<^verbatim>\<open>elastos-runtime/src/session/mod.rs\<close> and \<^verbatim>\<open>registry.rs\<close>: the sessions by bearer token,
  the map from VMs to tokens, and the cleanups that should end the sessions of a dead VM.
\<close>

subsection \<open>The session type\<close>

datatype session_id = SessionId (session_id_str: string)

datatype session_type = ShellSession | CapsuleSession

fun session_type_display :: "session_type \<Rightarrow> string" where
  "session_type_display ShellSession = ''shell''"
| "session_type_display CapsuleSession = ''capsule''"

record session =
  ses_id :: session_id
  ses_token :: string
  ses_vm_id :: "string option"
  ses_type :: session_type
  ses_owner :: "string option"
  ses_created_at :: secure_timestamp
  ses_last_active :: secure_timestamp

definition session_id_new :: "'a env_scheme \<Rightarrow> session_id \<times> 'a env_scheme" where
  "session_id_new e = (let (u, e) = draw_uuid_string e in (SessionId u, e))"

definition session_new ::
    "session_type \<Rightarrow> string option \<Rightarrow> 'a env_scheme \<Rightarrow> session \<times> 'a env_scheme" where
  "session_new ty vm e =
     (let (now, e) = ts_now e; (i, e) = session_id_new e; (tok, e) = draw_uuid_string e
      in (\<lparr>ses_id = i, ses_token = tok, ses_vm_id = vm, ses_type = ty, ses_owner = None,
           ses_created_at = now, ses_last_active = now\<rparr>, e))"

definition session_with_owner ::
    "session_type \<Rightarrow> string option \<Rightarrow> string \<Rightarrow> 'a env_scheme \<Rightarrow> session \<times> 'a env_scheme" where
  "session_with_owner ty vm owner e =
     (let (now, e) = ts_now e; (i, e) = session_id_new e; (tok, e) = draw_uuid_string e
      in (\<lparr>ses_id = i, ses_token = tok, ses_vm_id = vm, ses_type = ty, ses_owner = Some owner,
           ses_created_at = now, ses_last_active = now\<rparr>, e))"

definition session_set_owner :: "string \<Rightarrow> session \<Rightarrow> session" where
  "session_set_owner owner s = s\<lparr>ses_owner := Some owner\<rparr>"

definition session_new_shell :: "string \<Rightarrow> 'a env_scheme \<Rightarrow> session \<times> 'a env_scheme" where
  "session_new_shell vm e = session_new ShellSession (Some vm) e"

definition session_new_capsule :: "string \<Rightarrow> 'a env_scheme \<Rightarrow> session \<times> 'a env_scheme" where
  "session_new_capsule vm e = session_new CapsuleSession (Some vm) e"

definition session_is_shell :: "session \<Rightarrow> bool" where
  "session_is_shell s = (ses_type s = ShellSession)"

definition session_touch :: "session \<Rightarrow> 'a env_scheme \<Rightarrow> session \<times> 'a env_scheme" where
  "session_touch s e = (let (now, e) = ts_now e in (s\<lparr>ses_last_active := now\<rparr>, e))"

subsection \<open>The registry\<close>

record registry =
  reg_sessions :: "(string, session) hmap"
  reg_vm_sessions :: "(string, string) hmap"
  reg_default_owner :: "string option"

definition registry_new :: registry where
  "registry_new = \<lparr>reg_sessions = [], reg_vm_sessions = [], reg_default_owner = None\<rparr>"

definition set_default_owner :: "string \<Rightarrow> registry \<Rightarrow> registry" where
  "set_default_owner owner R = R\<lparr>reg_default_owner := Some owner\<rparr>"

definition create_session ::
    "session_type \<Rightarrow> string option \<Rightarrow> registry \<Rightarrow> 'a host_scheme
     \<Rightarrow> session \<times> registry \<times> 'a host_scheme" where
  "create_session ty vm R h =
     (let (ses, h) = (case reg_default_owner R of
            Some owner \<Rightarrow> session_with_owner ty vm owner h
          | None \<Rightarrow> session_new ty vm h);
          R = R\<lparr>reg_sessions := hm_insert (ses_token ses) ses (reg_sessions R)\<rparr>;
          R = (case vm of None \<Rightarrow> R
            | Some v \<Rightarrow> R\<lparr>reg_vm_sessions := hm_insert v (ses_token ses) (reg_vm_sessions R)\<rparr>);
          (t, h) = ts_now h;
          h = emit (SessionCreated t (session_id_str (ses_id ses)) (session_type_display (ses_type ses)) vm) h
      in (ses, R, h))"

definition validate_session_token :: "string \<Rightarrow> registry \<Rightarrow> session option" where
  "validate_session_token tok R = hm_get (reg_sessions R) tok"

text \<open>The closure of \<^verbatim>\<open>get_session_mut\<close> is the argument \<open>f\<close>.\<close>

definition get_session_mut ::
    "string \<Rightarrow> (session \<Rightarrow> 'r \<times> session) \<Rightarrow> registry \<Rightarrow> 'r option \<times> registry" where
  "get_session_mut tok f R = (case hm_get (reg_sessions R) tok of None \<Rightarrow> (None, R)
     | Some ses \<Rightarrow> (let (r, ses) = f ses
         in (Some r, R\<lparr>reg_sessions := hm_insert tok ses (reg_sessions R)\<rparr>)))"

definition touch_session :: "string \<Rightarrow> registry \<Rightarrow> 'a env_scheme \<Rightarrow> registry \<times> 'a env_scheme" where
  "touch_session tok R e = (case hm_get (reg_sessions R) tok of None \<Rightarrow> (R, e)
     | Some ses \<Rightarrow> (let (ses, e) = session_touch ses e
         in (R\<lparr>reg_sessions := hm_insert tok ses (reg_sessions R)\<rparr>, e)))"

definition is_shell_token :: "string \<Rightarrow> registry \<Rightarrow> bool" where
  "is_shell_token tok R = (case hm_get (reg_sessions R) tok of None \<Rightarrow> False
     | Some ses \<Rightarrow> session_is_shell ses)"

definition emit_destroyed :: "session \<Rightarrow> string \<Rightarrow> 'a host_scheme \<Rightarrow> 'a host_scheme" where
  "emit_destroyed ses reason h =
     (let (t, h) = ts_now h in emit (SessionDestroyed t (session_id_str (ses_id ses)) reason) h)"

definition unmap_vm :: "session \<Rightarrow> registry \<Rightarrow> registry" where
  "unmap_vm ses R = (case ses_vm_id ses of None \<Rightarrow> R
     | Some v \<Rightarrow> R\<lparr>reg_vm_sessions := hm_remove v (reg_vm_sessions R)\<rparr>)"

definition invalidate_session ::
    "string \<Rightarrow> registry \<Rightarrow> 'a host_scheme \<Rightarrow> session option \<times> registry \<times> 'a host_scheme" where
  "invalidate_session tok R h =
     (let found = hm_get (reg_sessions R) tok;
          R = R\<lparr>reg_sessions := hm_remove tok (reg_sessions R)\<rparr>
      in case found of None \<Rightarrow> (None, R, h)
         | Some ses \<Rightarrow> (Some ses, unmap_vm ses R, emit_destroyed ses ''invalidated'' h))"

definition invalidate_vm_session ::
    "string \<Rightarrow> registry \<Rightarrow> 'a host_scheme \<Rightarrow> session option \<times> registry \<times> 'a host_scheme" where
  "invalidate_vm_session v R h = (case hm_get (reg_vm_sessions R) v of
       None \<Rightarrow> (None, R, h)
     | Some tok \<Rightarrow>
         (let found = hm_get (reg_sessions R) tok;
              R = R\<lparr>reg_sessions := hm_remove tok (reg_sessions R)\<rparr>;
              R = R\<lparr>reg_vm_sessions := hm_remove v (reg_vm_sessions R)\<rparr>
          in case found of None \<Rightarrow> (None, R, h)
             | Some ses \<Rightarrow> (Some ses, R, emit_destroyed ses (''vm_terminated:'' @ v) h)))"

definition list_sessions :: "registry \<Rightarrow> session list" where
  "list_sessions R = map snd (reg_sessions R)"

definition session_count :: "registry \<Rightarrow> nat" where
  "session_count R = length (reg_sessions R)"

definition has_vm_session :: "string \<Rightarrow> registry \<Rightarrow> bool" where
  "has_vm_session v R = hm_contains (reg_vm_sessions R) v"

definition get_vm_token :: "string \<Rightarrow> registry \<Rightarrow> string option" where
  "get_vm_token v R = hm_get (reg_vm_sessions R) v"

text \<open>\<^verbatim>\<open>a.saturating_sub(b)\<close>\<close>

definition sat_sub :: "'a::len word \<Rightarrow> 'a word \<Rightarrow> 'a word" where
  "sat_sub a b = (if b \<le> a then a - b else 0)"

definition idle_secs :: "secure_timestamp \<Rightarrow> session \<Rightarrow> u64" where
  "idle_secs now ses = sat_sub (unix_secs now) (unix_secs (ses_last_active ses))"

definition drop_stale ::
    "secure_timestamp \<Rightarrow> session \<Rightarrow> registry \<times> 'a host_scheme \<Rightarrow> registry \<times> 'a host_scheme" where
  "drop_stale now ses p =
     (unmap_vm ses (fst p),
      emit_destroyed ses (''stale_cleanup:idle_'' @ show_u64 (idle_secs now ses) @ ''s'') (snd p))"

definition cleanup_stale_sessions ::
    "u64 \<Rightarrow> registry \<Rightarrow> 'a host_scheme \<Rightarrow> nat \<times> registry \<times> 'a host_scheme" where
  "cleanup_stale_sessions max_idle R h =
     (let (now, h) = ts_now h;
          removed = filter (\<lambda>(_, ses). idle_secs now ses > max_idle) (reg_sessions R);
          R = R\<lparr>reg_sessions := hm_retain (\<lambda>_ ses. \<not> idle_secs now ses > max_idle) (reg_sessions R)\<rparr>;
          (R, h) = fold (\<lambda>(_, ses). drop_stale now ses) removed (R, h)
      in (length removed, R, h))"

fun invalidate_vms ::
    "string list \<Rightarrow> registry \<Rightarrow> 'a host_scheme \<Rightarrow> nat \<times> registry \<times> 'a host_scheme" where
  "invalidate_vms [] R h = (0, R, h)"
| "invalidate_vms (v # vs) R h =
     (let (found, R, h) = invalidate_vm_session v R h; (n, R, h) = invalidate_vms vs R h
      in ((if found \<noteq> None then 1 else 0) + n, R, h))"

definition cleanup_dead_vm_sessions ::
    "string list \<Rightarrow> registry \<Rightarrow> 'a host_scheme \<Rightarrow> nat \<times> registry \<times> 'a host_scheme" where
  "cleanup_dead_vm_sessions live R h =
     invalidate_vms (filter (\<lambda>v. v \<notin> set live) (map fst (reg_vm_sessions R))) R h"

subsection \<open>The invariant\<close>

text \<open>
  Every session of a VM is the one the VM map names, and the map names only sessions of the
  VM; each session is stored under its own token.
\<close>

definition registry_inv :: "registry \<Rightarrow> bool" where
  "registry_inv R = (hm_wf (reg_sessions R) \<and> hm_wf (reg_vm_sessions R)
     \<and> (\<forall>tok ses. hm_get (reg_sessions R) tok = Some ses \<longrightarrow> ses_token ses = tok
          \<and> (\<forall>v. ses_vm_id ses = Some v \<longrightarrow> hm_get (reg_vm_sessions R) v = Some tok))
     \<and> (\<forall>v tok. hm_get (reg_vm_sessions R) v = Some tok \<longrightarrow>
          (\<exists>ses. hm_get (reg_sessions R) tok = Some ses \<and> ses_vm_id ses = Some v)))"

lemma registry_invI:
  assumes "hm_wf (reg_sessions R)" "hm_wf (reg_vm_sessions R)"
    and "\<And>tok ses. hm_get (reg_sessions R) tok = Some ses \<Longrightarrow> ses_token ses = tok"
    and "\<And>tok ses v. hm_get (reg_sessions R) tok = Some ses \<Longrightarrow> ses_vm_id ses = Some v \<Longrightarrow>
        hm_get (reg_vm_sessions R) v = Some tok"
    and "\<And>tok v. hm_get (reg_vm_sessions R) v = Some tok \<Longrightarrow>
        \<exists>ses. hm_get (reg_sessions R) tok = Some ses \<and> ses_vm_id ses = Some v"
  shows "registry_inv R"
  using assms by (simp add: registry_inv_def)

lemma registry_invD:
  assumes "registry_inv R"
  shows "hm_wf (reg_sessions R)" "hm_wf (reg_vm_sessions R)"
    and "hm_get (reg_sessions R) tok = Some ses \<Longrightarrow> ses_token ses = tok"
    and "hm_get (reg_sessions R) tok = Some ses \<Longrightarrow> ses_vm_id ses = Some v \<Longrightarrow>
        hm_get (reg_vm_sessions R) v = Some tok"
    and "hm_get (reg_vm_sessions R) v = Some tok \<Longrightarrow>
        \<exists>ses. hm_get (reg_sessions R) tok = Some ses \<and> ses_vm_id ses = Some v"
  using assms by (simp_all add: registry_inv_def)

lemma registry_inv_new: "registry_inv registry_new"
  by (simp add: registry_inv_def registry_new_def)

lemma invalidate_vm_registry:
  assumes "registry_inv R"
  shows "fst (snd (invalidate_vm_session v R h)) = (case hm_get (reg_vm_sessions R) v of None \<Rightarrow> R
    | Some tok \<Rightarrow> R\<lparr>reg_sessions := hm_remove tok (reg_sessions R),
        reg_vm_sessions := hm_remove v (reg_vm_sessions R)\<rparr>)"
  by (auto simp: invalidate_vm_session_def Let_def split: option.split)

subsection \<open>Preservation\<close>

lemma create_session_result:
  "create_session ty vm R h = (ses, R', h') \<Longrightarrow>
   ses_token ses = uuid_strings h (Suc (uuid_draws h)) \<and> ses_vm_id ses = vm \<and> ses_type ses = ty
   \<and> reg_sessions R' = hm_insert (ses_token ses) ses (reg_sessions R)
   \<and> reg_vm_sessions R' = (case vm of None \<Rightarrow> reg_vm_sessions R
       | Some v \<Rightarrow> hm_insert v (ses_token ses) (reg_vm_sessions R))"
  by (auto simp: create_session_def session_with_owner_def session_new_def session_id_new_def
      time_reads Let_def split: option.splits)

lemma create_session_inv:
  assumes inv: "registry_inv R" and new: "create_session ty vm R h = (ses, R', h')"
    and fresh: "hm_get (reg_sessions R) (uuid_strings h (Suc (uuid_draws h))) = None"
    and free: "\<And>v. vm = Some v \<Longrightarrow> hm_get (reg_vm_sessions R) v = None"
  shows "registry_inv R'"
proof -
  note r = create_session_result[OF new]
  show ?thesis
  proof (rule registry_invI)
    show "hm_wf (reg_sessions R')" "hm_wf (reg_vm_sessions R')"
      using r registry_invD(1,2)[OF inv] by (simp_all split: option.split)
    show "ses_token s = tok" if "hm_get (reg_sessions R') tok = Some s" for tok s
      using that r registry_invD(3)[OF inv, of tok s] by (auto split: if_splits)
    show "hm_get (reg_vm_sessions R') v = Some tok"
      if "hm_get (reg_sessions R') tok = Some s" "ses_vm_id s = Some v" for tok s v
    proof (cases "tok = ses_token ses")
      case True
      then have "vm = Some v" using that r by auto
      then show ?thesis using that r True by simp
    next
      case False
      then have "hm_get (reg_vm_sessions R) v = Some tok"
        using that r registry_invD(4)[OF inv, of tok s v] by simp
      then show ?thesis using r free[of v] by (auto split: option.splits)
    qed
    show "\<exists>s. hm_get (reg_sessions R') tok = Some s \<and> ses_vm_id s = Some v"
      if "hm_get (reg_vm_sessions R') v = Some tok" for tok v
    proof (cases "vm = Some v")
      case True
      then show ?thesis using that r by auto
    next
      case False
      then have "hm_get (reg_vm_sessions R) v = Some tok" using that r by (auto split: option.splits)
      then show ?thesis using registry_invD(5)[OF inv, of v tok] r fresh by auto
    qed
  qed
qed

text \<open>Taking out one session with its mapping, the common core of all the removals.\<close>

definition without_session :: "string \<Rightarrow> session \<Rightarrow> registry \<Rightarrow> registry" where
  "without_session tok ses R = unmap_vm ses (R\<lparr>reg_sessions := hm_remove tok (reg_sessions R)\<rparr>)"

lemma without_session_sel:
  "reg_sessions (without_session tok ses R) = hm_remove tok (reg_sessions R)"
  "reg_vm_sessions (without_session tok ses R) = (case ses_vm_id ses of None \<Rightarrow> reg_vm_sessions R
     | Some v \<Rightarrow> hm_remove v (reg_vm_sessions R))"
  by (simp_all add: without_session_def unmap_vm_def split: option.split)

lemma without_session_inv:
  assumes inv: "registry_inv R" and ses: "hm_get (reg_sessions R) tok = Some ses"
  shows "registry_inv (without_session tok ses R)"
proof (rule registry_invI)
  show "hm_wf (reg_sessions (without_session tok ses R))" "hm_wf (reg_vm_sessions (without_session tok ses R))"
    using registry_invD(1,2)[OF inv] by (simp_all add: without_session_sel split: option.split)
  show "ses_token s = t" if "hm_get (reg_sessions (without_session tok ses R)) t = Some s" for t s
    using that registry_invD(3)[OF inv, of t s] by (auto simp: without_session_sel split: if_splits)
  show "hm_get (reg_vm_sessions (without_session tok ses R)) v = Some t"
    if "hm_get (reg_sessions (without_session tok ses R)) t = Some s" "ses_vm_id s = Some v" for t s v
  proof -
    have "t \<noteq> tok" "hm_get (reg_sessions R) t = Some s"
      using that(1) by (auto simp: without_session_sel split: if_splits)
    then have "hm_get (reg_vm_sessions R) v = Some t" "ses_vm_id ses \<noteq> Some v"
      using registry_invD(4)[OF inv, of t s v] registry_invD(4)[OF inv ses, of v] that(2) by auto
    then show ?thesis by (auto simp: without_session_sel split: option.splits)
  qed
  show "\<exists>s. hm_get (reg_sessions (without_session tok ses R)) t = Some s \<and> ses_vm_id s = Some v"
    if "hm_get (reg_vm_sessions (without_session tok ses R)) v = Some t" for t v
  proof -
    have m: "hm_get (reg_vm_sessions R) v = Some t" "ses_vm_id ses \<noteq> Some v"
      using that by (auto simp: without_session_sel split: option.splits if_splits)
    then obtain s where "hm_get (reg_sessions R) t = Some s" "ses_vm_id s = Some v"
      using registry_invD(5)[OF inv, of v t] by auto
    moreover from this have "t \<noteq> tok" using m(2) ses by auto
    ultimately show ?thesis by (simp add: without_session_sel)
  qed
qed

lemma invalidate_session_registry:
  "fst (snd (invalidate_session tok R h)) = (case hm_get (reg_sessions R) tok of
     None \<Rightarrow> R\<lparr>reg_sessions := hm_remove tok (reg_sessions R)\<rparr> | Some ses \<Rightarrow> without_session tok ses R)"
  by (simp add: invalidate_session_def without_session_def Let_def split: option.split)

lemma hm_remove_absent: "hm_get m k = None \<Longrightarrow> hm_remove k m = m"
  by (simp add: hm_get_None_iff hm_remove_def delete_id)

lemma invalidate_session_inv:
  assumes "registry_inv R"
  shows "registry_inv (fst (snd (invalidate_session tok R h)))"
  using assms without_session_inv[OF assms, of tok]
  by (simp add: invalidate_session_registry hm_remove_absent split: option.split)

lemma invalidate_vm_without:
  assumes "registry_inv R" "hm_get (reg_vm_sessions R) v = Some tok"
  obtains ses where "hm_get (reg_sessions R) tok = Some ses" "ses_vm_id ses = Some v"
    "fst (snd (invalidate_vm_session v R h)) = without_session tok ses R"
    "fst (invalidate_vm_session v R h) = Some ses"
proof -
  obtain ses where s: "hm_get (reg_sessions R) tok = Some ses" "ses_vm_id ses = Some v"
    using registry_invD(5)[OF assms] by blast
  show ?thesis
    using that[OF s] s assms(2)
    by (simp add: invalidate_vm_session_def without_session_def unmap_vm_def Let_def)
qed

lemma invalidate_vm_inv:
  assumes "registry_inv R"
  shows "registry_inv (fst (snd (invalidate_vm_session v R h)))"
proof (cases "hm_get (reg_vm_sessions R) v")
  case None
  then show ?thesis using assms by (simp add: invalidate_vm_session_def)
next
  case (Some tok)
  obtain ses where "hm_get (reg_sessions R) tok = Some ses"
    "fst (snd (invalidate_vm_session v R h)) = without_session tok ses R"
    using invalidate_vm_without[OF assms Some] .
  then show ?thesis using without_session_inv[OF assms] by simp
qed

text \<open>No session of the VM is left.\<close>

definition vm_gone :: "string \<Rightarrow> registry \<Rightarrow> bool" where
  "vm_gone v R = (\<forall>tok ses. hm_get (reg_sessions R) tok = Some ses \<longrightarrow> ses_vm_id ses \<noteq> Some v)"

lemma vm_gone_iff: "registry_inv R \<Longrightarrow> vm_gone v R \<longleftrightarrow> hm_get (reg_vm_sessions R) v = None"
  using registry_invD(4,5)[of R] unfolding vm_gone_def by (metis option.exhaust option.distinct(1))

lemma invalidate_vm_map:
  assumes "registry_inv R"
  shows "hm_get (reg_vm_sessions (fst (snd (invalidate_vm_session v R h)))) u
    = (if u = v then None else hm_get (reg_vm_sessions R) u)"
  using assms by (auto simp: invalidate_vm_registry split: option.splits)

lemma invalidate_vms_map:
  assumes "registry_inv R"
  shows "registry_inv (fst (snd (invalidate_vms vs R h)))
    \<and> (\<forall>u. hm_get (reg_vm_sessions (fst (snd (invalidate_vms vs R h)))) u
         = (if u \<in> set vs then None else hm_get (reg_vm_sessions R) u))"
  using assms
proof (induction vs arbitrary: R h)
  case (Cons v vs)
  let ?p = "invalidate_vm_session v R h"
  have "fst (snd (invalidate_vms (v # vs) R h)) = fst (snd (invalidate_vms vs (fst (snd ?p)) (snd (snd ?p))))"
    by (simp add: split_def Let_def)
  then show ?case
    using Cons.IH[OF invalidate_vm_inv[OF Cons.prems, of v h], of "snd (snd ?p)"]
    by (auto simp: invalidate_vm_map[OF Cons.prems])
qed simp

subsection \<open>The periodic cleanup\<close>

lemma unmap_vm_sel [simp]:
  "reg_sessions (unmap_vm ses R) = reg_sessions R"
  "hm_get (reg_vm_sessions (unmap_vm ses R)) v
     = (if ses_vm_id ses = Some v then None else hm_get (reg_vm_sessions R) v)"
  "hm_wf (reg_vm_sessions R) \<Longrightarrow> hm_wf (reg_vm_sessions (unmap_vm ses R))"
  by (auto simp: unmap_vm_def split: option.split)

definition unmap_all :: "(string \<times> session) list \<Rightarrow> registry \<Rightarrow> registry" where
  "unmap_all es R = fold (\<lambda>e. unmap_vm (snd e)) es R"

lemma unmap_all_rec [simp]:
  "unmap_all [] R = R" "unmap_all (e # es) R = unmap_all es (unmap_vm (snd e) R)"
  by (simp_all add: unmap_all_def)

lemma fold_drop_stale:
  "fst (fold (\<lambda>(_, ses). drop_stale now ses) es (R, h)) = unmap_all es R"
  by (induction es arbitrary: R h) (simp_all add: drop_stale_def split_def)

lemma unmap_all_sessions: "reg_sessions (unmap_all es R) = reg_sessions R"
  by (induction es arbitrary: R) simp_all

lemma unmap_all_wf: "hm_wf (reg_vm_sessions R) \<Longrightarrow> hm_wf (reg_vm_sessions (unmap_all es R))"
  by (induction es arbitrary: R) simp_all

lemma unmap_all_get:
  "hm_get (reg_vm_sessions (unmap_all es R)) v =
     (if Some v \<in> set (map (ses_vm_id \<circ> snd) es) then None else hm_get (reg_vm_sessions R) v)"
proof (induction es arbitrary: R)
  case (Cons e es)
  show ?case by (cases "ses_vm_id (snd e) = Some v") (auto simp: Cons)
qed simp

lemma cleanup_stale_registry:
  obtains now where
    "reg_sessions (fst (snd (cleanup_stale_sessions max_idle R h)))
       = hm_retain (\<lambda>_ ses. \<not> idle_secs now ses > max_idle) (reg_sessions R)"
    "\<And>v. hm_get (reg_vm_sessions (fst (snd (cleanup_stale_sessions max_idle R h)))) v =
       (if \<exists>t ses. (t, ses) \<in> set (reg_sessions R) \<and> idle_secs now ses > max_idle \<and> ses_vm_id ses = Some v
        then None else hm_get (reg_vm_sessions R) v)"
    "hm_wf (reg_vm_sessions R) \<Longrightarrow>
       hm_wf (reg_vm_sessions (fst (snd (cleanup_stale_sessions max_idle R h))))"
proof -
  let ?now = "fst (ts_now h)"
  let ?es = "filter (\<lambda>(_, ses). idle_secs ?now ses > max_idle) (reg_sessions R)"
  let ?R = "R\<lparr>reg_sessions := hm_retain (\<lambda>_ ses. \<not> idle_secs ?now ses > max_idle) (reg_sessions R)\<rparr>"
  have e: "fst (snd (cleanup_stale_sessions max_idle R h))
    = fst (fold (\<lambda>(_, ses). drop_stale ?now ses) ?es (?R, snd (ts_now h)))"
    by (simp add: cleanup_stale_sessions_def split_def Let_def)
  show ?thesis
  proof (rule that[of ?now])
    show "hm_get (reg_vm_sessions (fst (snd (cleanup_stale_sessions max_idle R h)))) v =
       (if \<exists>t ses. (t, ses) \<in> set (reg_sessions R) \<and> idle_secs ?now ses > max_idle \<and> ses_vm_id ses = Some v
        then None else hm_get (reg_vm_sessions R) v)" for v
    proof -
      have "Some v \<in> set (map (ses_vm_id \<circ> snd) ?es) \<longleftrightarrow> (\<exists>t ses. (t, ses) \<in> set (reg_sessions R)
          \<and> idle_secs ?now ses > max_idle \<and> ses_vm_id ses = Some v)"
        by force
      moreover have "reg_vm_sessions ?R = reg_vm_sessions R" by simp
      ultimately show ?thesis by (simp only: e fold_drop_stale unmap_all_get)
    qed
  qed (simp_all add: e fold_drop_stale unmap_all_sessions unmap_all_wf)
qed

lemma cleanup_stale_inv:
  assumes inv: "registry_inv R"
  shows "registry_inv (fst (snd (cleanup_stale_sessions max_idle R h)))"
proof (rule cleanup_stale_registry[of max_idle R h])
  let ?R = "fst (snd (cleanup_stale_sessions max_idle R h))"
  fix now
  assume s: "reg_sessions ?R
       = hm_retain (\<lambda>_ ses. \<not> idle_secs now ses > max_idle) (reg_sessions R)"
    and m: "\<And>v. hm_get (reg_vm_sessions ?R) v =
       (if \<exists>t ses. (t, ses) \<in> set (reg_sessions R) \<and> idle_secs now ses > max_idle \<and> ses_vm_id ses = Some v
        then None else hm_get (reg_vm_sessions R) v)"
    and wf: "hm_wf (reg_vm_sessions R) \<Longrightarrow> hm_wf (reg_vm_sessions ?R)"
  have get: "hm_get (reg_sessions ?R) tok = Some ses \<longleftrightarrow>
      hm_get (reg_sessions R) tok = Some ses \<and> \<not> idle_secs now ses > max_idle" for tok ses
    unfolding s hm_get_retain[OF registry_invD(1)[OF inv]] by (auto split: option.splits)
  have mem: "(tok, ses) \<in> set (reg_sessions R) \<longleftrightarrow> hm_get (reg_sessions R) tok = Some ses" for tok ses
    using hm_get_Some_mem[OF registry_invD(1)[OF inv]] by simp
  have stale: "(\<exists>t ses. (t, ses) \<in> set (reg_sessions R) \<and> idle_secs now ses > max_idle \<and> ses_vm_id ses = Some v)
      \<longleftrightarrow> (\<exists>ses. hm_get (reg_sessions R) tok = Some ses \<and> idle_secs now ses > max_idle)"
    if vm: "hm_get (reg_vm_sessions R) v = Some tok" for v tok
  proof -
    obtain s where s: "hm_get (reg_sessions R) tok = Some s" "ses_vm_id s = Some v"
      using registry_invD(5)[OF inv vm] by blast
    have u: "t = tok" if "hm_get (reg_sessions R) t = Some ses" "ses_vm_id ses = Some v" for t ses
      using registry_invD(4)[OF inv that] vm by simp
    show ?thesis unfolding mem by (metis option.inject s u)
  qed
  show ?thesis
  proof (rule registry_invI)
    show "hm_wf (reg_sessions ?R)" "hm_wf (reg_vm_sessions ?R)"
      using registry_invD(1,2)[OF inv] wf by (simp_all add: s)
    show "ses_token ses = tok" if "hm_get (reg_sessions ?R) tok = Some ses" for tok ses
      using that get registry_invD(3)[OF inv] by blast
    show "hm_get (reg_vm_sessions ?R) v = Some tok"
      if "hm_get (reg_sessions ?R) tok = Some ses" "ses_vm_id ses = Some v" for tok ses v
    proof -
      have g: "hm_get (reg_sessions R) tok = Some ses" "\<not> idle_secs now ses > max_idle"
        using that(1) get by auto
      have "hm_get (reg_vm_sessions R) v = Some tok" using registry_invD(4)[OF inv g(1) that(2)] .
      then show ?thesis using m[of v] stale[of v tok] g by auto
    qed
    show "\<exists>ses. hm_get (reg_sessions ?R) tok = Some ses \<and> ses_vm_id ses = Some v"
      if "hm_get (reg_vm_sessions ?R) v = Some tok" for v tok
    proof -
      have g: "hm_get (reg_vm_sessions R) v = Some tok"
        "\<not> (\<exists>t ses. (t, ses) \<in> set (reg_sessions R) \<and> idle_secs now ses > max_idle \<and> ses_vm_id ses = Some v)"
        using that unfolding m by (simp_all split: if_splits)
      then show ?thesis using stale[OF g(1)] get registry_invD(5)[OF inv g(1)] by auto
    qed
  qed
qed

subsection \<open>The registry as a state machine\<close>

text \<open>
  The steps of the registry. A session of a VM is created only while the VM has none: this is
  the use the registry is written for, not a check it makes.
\<close>

inductive registry_step ::
    "registry \<times> 'a host_scheme \<Rightarrow> registry \<times> 'a host_scheme \<Rightarrow> bool" where
  step_create: "hm_get (reg_sessions R) (uuid_strings h (Suc (uuid_draws h))) = None \<Longrightarrow>
     (\<And>v. vm = Some v \<Longrightarrow> \<not> has_vm_session v R) \<Longrightarrow>
     create_session ty vm R h = (ses, R', h') \<Longrightarrow> registry_step (R, h) (R', h')"
| step_owner: "registry_step (R, h) (set_default_owner owner R, h)"
| step_touch: "touch_session tok R h = (R', h') \<Longrightarrow> registry_step (R, h) (R', h')"
| step_invalidate: "registry_step (R, h) (snd (invalidate_session tok R h))"
| step_invalidate_vm: "registry_step (R, h) (snd (invalidate_vm_session v R h))"
| step_stale: "registry_step (R, h) (snd (cleanup_stale_sessions max_idle R h))"
| step_dead: "registry_step (R, h) (snd (cleanup_dead_vm_sessions live R h))"

lemma registry_inv_same:
  assumes "registry_inv R" "hm_wf (reg_sessions R')" "reg_vm_sessions R' = reg_vm_sessions R"
    and "\<And>tok. map_option (\<lambda>s. (ses_token s, ses_vm_id s)) (hm_get (reg_sessions R') tok)
        = map_option (\<lambda>s. (ses_token s, ses_vm_id s)) (hm_get (reg_sessions R) tok)"
  shows "registry_inv R'"
proof -
  have e: "\<exists>s'. hm_get (reg_sessions R) tok = Some s' \<and> ses_token s' = ses_token s \<and> ses_vm_id s' = ses_vm_id s"
    if "hm_get (reg_sessions R') tok = Some s" for tok s
    using assms(4)[of tok] that by (cases "hm_get (reg_sessions R) tok") auto
  have e': "\<exists>s'. hm_get (reg_sessions R') tok = Some s' \<and> ses_vm_id s' = ses_vm_id s"
    if "hm_get (reg_sessions R) tok = Some s" for tok s
    using assms(4)[of tok] that by (cases "hm_get (reg_sessions R') tok") auto
  show ?thesis
  proof (rule registry_invI)
    show "ses_token s = tok" if "hm_get (reg_sessions R') tok = Some s" for tok s
      using e[OF that] registry_invD(3)[OF assms(1)] by metis
    show "hm_get (reg_vm_sessions R') v = Some tok"
      if "hm_get (reg_sessions R') tok = Some s" "ses_vm_id s = Some v" for tok s v
      using e[OF that(1)] that(2) registry_invD(4)[OF assms(1)] assms(3) by metis
    show "\<exists>s. hm_get (reg_sessions R') tok = Some s \<and> ses_vm_id s = Some v"
      if "hm_get (reg_vm_sessions R') v = Some tok" for tok v
      using registry_invD(5)[OF assms(1), of v tok] that assms(3) e' by metis
  qed (use assms(2,3) registry_invD(2)[OF assms(1)] in simp_all)
qed

lemma touch_session_inv:
  assumes "registry_inv R" "touch_session tok R h = (R', h')"
  shows "registry_inv R'"
proof (rule registry_inv_same[OF assms(1)])
  show "hm_wf (reg_sessions R')" "reg_vm_sessions R' = reg_vm_sessions R"
    using assms registry_invD(1)[OF assms(1)]
    by (auto simp: touch_session_def split: option.splits prod.splits)
  show "map_option (\<lambda>s. (ses_token s, ses_vm_id s)) (hm_get (reg_sessions R') t)
      = map_option (\<lambda>s. (ses_token s, ses_vm_id s)) (hm_get (reg_sessions R) t)" for t
    using assms(2)
    by (auto simp: touch_session_def session_touch_def time_reads split: option.splits)
qed

lemma cleanup_dead_map:
  assumes "registry_inv R"
  shows "registry_inv (fst (snd (cleanup_dead_vm_sessions live R h)))
    \<and> (\<forall>v. hm_get (reg_vm_sessions (fst (snd (cleanup_dead_vm_sessions live R h)))) v
         = (if v \<in> set live then hm_get (reg_vm_sessions R) v else None))"
proof -
  have "hm_get (reg_vm_sessions R) v = None" if "v \<notin> fst ` set (reg_vm_sessions R)" for v
    using that by (simp add: hm_get_None_iff)
  then show ?thesis
    using invalidate_vms_map[OF assms, of "filter (\<lambda>v. v \<notin> set live) (map fst (reg_vm_sessions R))" h]
    unfolding cleanup_dead_vm_sessions_def by auto
qed

lemma registry_step_inv: "registry_step p q \<Longrightarrow> registry_inv (fst p) \<Longrightarrow> registry_inv (fst q)"
proof (induction rule: registry_step.induct)
  case (step_create R h vm ty ses R' h')
  then show ?case
    using create_session_inv[of R ty vm h ses R' h'] by (simp add: has_vm_session_def hm_contains_def)
next
  case (step_owner R h owner)
  then show ?case
    using registry_inv_same[of R "set_default_owner owner R"] registry_invD(1)[of R]
    by (simp add: set_default_owner_def)
next
  case (step_touch tok R h R' h')
  then show ?case using touch_session_inv by simp
qed (simp_all add: invalidate_session_inv invalidate_vm_inv cleanup_stale_inv cleanup_dead_map)

lemma registry_steps_inv: "registry_step\<^sup>*\<^sup>* p q \<Longrightarrow> registry_inv (fst p) \<Longrightarrow> registry_inv (fst q)"
  by (induction rule: rtranclp_induct) (auto dest: registry_step_inv)

subsection \<open>Properties\<close>


text \<open>
  A dead VM leaves no session: in a state with an exact map,
  \<^verbatim>\<open>invalidate_vm_session\<close> ends the VM's session and no other one, and after
  \<^verbatim>\<open>cleanup_dead_vm_sessions\<close> exactly the sessions of VMs that are not live are gone from the map.
\<close>

theorem dead_vm_sessions_end:
  assumes "registry_inv R"
  shows "vm_gone v (fst (snd (invalidate_vm_session v R h)))
    \<and> (u \<noteq> v \<longrightarrow> get_vm_token u (fst (snd (invalidate_vm_session v R h))) = get_vm_token u R)
    \<and> (w \<notin> set live \<longrightarrow> vm_gone w (fst (snd (cleanup_dead_vm_sessions live R h))))"
  using assms invalidate_vm_inv[OF assms, of v h] invalidate_vm_map[OF assms, of v h]
    cleanup_dead_map[OF assms, of live h]
  by (simp add: vm_gone_iff get_vm_token_def)

text \<open>
  Nothing keeps a VM from getting a second session, and then the first one
  outlives the VM: the map holds the second token only, ending the VM's session ends that
  one, a second call finds nothing to end, and the first token still validates.
\<close>

theorem second_session_outlives_vm:
  assumes "create_session ty (Some v) R h = (s1, R1, h1)"
    and "create_session ty' (Some v) R1 h1 = (s2, R2, h2)"
    and "ses_token s1 \<noteq> ses_token s2"
    and "invalidate_vm_session v R2 h2 = (gone, R3, h3)"
  shows "gone = Some s2 \<and> validate_session_token (ses_token s1) R3 = Some s1
    \<and> fst (invalidate_vm_session v R3 h3) = None"
  using create_session_result[OF assms(1)] create_session_result[OF assms(2)] assms(3,4)
  by (auto simp: invalidate_vm_session_def validate_session_token_def Let_def)

subsection \<open>Examples\<close>

lemma demo_create:
  obtains ses R h where "create_session CapsuleSession (Some ''v'') registry_new demo_host = (ses, R, h)"
    "ses_token ses = ''u''" "uuid_strings h = uuid_strings demo_host" "uuid_draws h = 2"
    "registry_step (registry_new, demo_host) (R, h)"
proof -
  obtain ses R h where c: "create_session CapsuleSession (Some ''v'') registry_new demo_host = (ses, R, h)"
    using prod_cases3 by blast
  then have h: "uuid_strings h = uuid_strings demo_host" "uuid_draws h = 2"
    by (auto simp: create_session_def registry_new_def session_new_def session_id_new_def time_reads
        demo_host_def)
  have "registry_step (registry_new, demo_host) (R, h)"
    by (rule step_create[OF _ _ c]) (simp_all add: registry_new_def has_vm_session_def hm_contains_def)
  moreover have "ses_token ses = ''u''"
    using create_session_result[OF c] by (simp add: demo_host_def)
  ultimately show ?thesis using that[OF c _ h] by blast
qed


theorem dead_vm_sessions_end_witness:
  "vm_gone ''v'' (fst (snd (invalidate_vm_session ''v'' registry_new demo_host)))"
  using dead_vm_sessions_end[OF registry_inv_new, of "''v''" demo_host] by blast

theorem second_session_outlives_vm_witness:
  "\<exists>s1 R1 h1 s2 R2 h2 gone R3 h3.
     create_session CapsuleSession (Some ''v'') registry_new demo_host = (s1, R1, h1)
     \<and> create_session CapsuleSession (Some ''v'') R1 h1 = (s2, R2, h2)
     \<and> invalidate_vm_session ''v'' R2 h2 = (gone, R3, h3)
     \<and> validate_session_token (ses_token s1) R3 = Some s1"
proof (rule demo_create)
  fix s1 R1 h1
  assume c1: "create_session CapsuleSession (Some ''v'') registry_new demo_host = (s1, R1, h1)"
    and t1: "ses_token s1 = ''u''" and h1: "uuid_strings h1 = uuid_strings demo_host" "uuid_draws h1 = 2"
  obtain s2 R2 h2 where c2: "create_session CapsuleSession (Some ''v'') R1 h1 = (s2, R2, h2)"
    using prod_cases3 by blast
  obtain gone R3 h3 where i: "invalidate_vm_session ''v'' R2 h2 = (gone, R3, h3)"
    using prod_cases3 by blast
  have "ses_token s1 \<noteq> ses_token s2"
    using create_session_result[OF c2] t1 h1 by (simp add: demo_host_def numeral_3_eq_3)
  from second_session_outlives_vm[OF c1 c2 this i] c1 c2 i show ?thesis by blast
qed

end
