(* ===== verification/Pending.thy ===== *)
theory Pending
  imports Session Cap_Store
begin

section \<open>Pending capability requests\<close>

text \<open>
  \<^verbatim>\<open>elastos-runtime/src/capability/pending.rs\<close>: the requests that wait for the user, their
  index by session, the limits, the decisions and the cleanups. Expiry is decided by the
  clock at each test, so listing and cleaning thread the state through the list.
\<close>

definition DEFAULT_REQUEST_TIMEOUT_SECS :: u64 where
  "DEFAULT_REQUEST_TIMEOUT_SECS = 300"

definition MAX_PENDING_REQUESTS :: nat where
  "MAX_PENDING_REQUESTS = 1024"

definition MAX_PENDING_PER_SESSION :: nat where
  "MAX_PENDING_PER_SESSION = 32"

subsection \<open>Requests\<close>

datatype grant_duration = Once | SessionLong

definition grant_duration_from_str :: "string \<Rightarrow> string + grant_duration" where
  "grant_duration_from_str s =
     (if to_lowercase s = ''once'' then Inr Once
      else if to_lowercase s = ''session'' then Inr SessionLong
      else Inl (''Invalid duration: '' @ s @ ''. Expected '' @ [CHR 0x27] @ ''once'' @ [CHR 0x27]
        @ '' or '' @ [CHR 0x27] @ ''session'' @ [CHR 0x27]))"

fun grant_duration_display :: "grant_duration \<Rightarrow> string" where
  "grant_duration_display Once = ''once''"
| "grant_duration_display SessionLong = ''session''"

datatype request_status =
    RPending
  | RGranted capability_token grant_duration
  | RDenied string
  | RExpired

record pending_request =
  req_id :: string
  req_session :: session_id
  req_resource :: resource_id
  req_action :: action
  req_reason :: string
  req_requested_at :: secure_timestamp
  req_expires_at :: secure_timestamp
  req_status :: request_status

definition request_new_with_reason ::
    "session_id \<Rightarrow> resource_id \<Rightarrow> action \<Rightarrow> string \<Rightarrow> u64 \<Rightarrow> 'a env_scheme
     \<Rightarrow> pending_request \<times> 'a env_scheme" where
  "request_new_with_reason sid resource act reason timeout e =
     (let (requested_at, e) = ts_now e; (expires_at, e) = after_secs timeout e;
          (i, e) = draw_uuid_string e
      in (\<lparr>req_id = i, req_session = sid, req_resource = resource, req_action = act,
           req_reason = reason, req_requested_at = requested_at, req_expires_at = expires_at,
           req_status = RPending\<rparr>, e))"

definition request_new ::
    "session_id \<Rightarrow> resource_id \<Rightarrow> action \<Rightarrow> u64 \<Rightarrow> 'a env_scheme \<Rightarrow> pending_request \<times> 'a env_scheme" where
  "request_new sid resource act timeout e = request_new_with_reason sid resource act [] timeout e"

definition request_is_expired :: "pending_request \<Rightarrow> 'a env_scheme \<Rightarrow> bool \<times> 'a env_scheme" where
  "request_is_expired r e = is_expired (req_expires_at r) e"

text \<open>The clock is read only for a request whose status is pending.\<close>

definition request_is_pending :: "pending_request \<Rightarrow> 'a env_scheme \<Rightarrow> bool \<times> 'a env_scheme" where
  "request_is_pending r e = (if req_status r = RPending
     then (let (expired, e) = request_is_expired r e in (\<not> expired, e)) else (False, e))"

fun status_granted :: "request_status \<Rightarrow> bool" where
  "status_granted (RGranted _ _) = True"
| "status_granted _ = False"

fun status_denied :: "request_status \<Rightarrow> bool" where
  "status_denied (RDenied _) = True"
| "status_denied _ = False"

definition request_is_granted :: "pending_request \<Rightarrow> bool" where
  "request_is_granted r = status_granted (req_status r)"

definition request_is_denied :: "pending_request \<Rightarrow> bool" where
  "request_is_denied r = status_denied (req_status r)"

definition granted_token :: "pending_request \<Rightarrow> capability_token option" where
  "granted_token r = (case req_status r of RGranted t _ \<Rightarrow> Some t | _ \<Rightarrow> None)"

subsection \<open>The store\<close>

record pending_store =
  pend_requests :: "(string, pending_request) hmap"
  pend_sessions :: "(string, string list) hmap"
  pend_timeout :: u64

definition pending_new :: pending_store where
  "pending_new = \<lparr>pend_requests = [], pend_sessions = [], pend_timeout = DEFAULT_REQUEST_TIMEOUT_SECS\<rparr>"

definition pending_with_timeout :: "u64 \<Rightarrow> pending_store" where
  "pending_with_timeout timeout = \<lparr>pend_requests = [], pend_sessions = [], pend_timeout = timeout\<rparr>"

text \<open>Filtering with a test that reads the clock.\<close>

fun filter_st :: "('x \<Rightarrow> 's \<Rightarrow> bool \<times> 's) \<Rightarrow> 'x list \<Rightarrow> 's \<Rightarrow> 'x list \<times> 's" where
  "filter_st f [] s = ([], s)"
| "filter_st f (x # xs) s =
     (let (keep, s) = f x s; (ys, s) = filter_st f xs s in (if keep then x # ys else ys, s))"

definition set_status :: "request_status \<Rightarrow> pending_request \<Rightarrow> pending_request" where
  "set_status st r = r\<lparr>req_status := st\<rparr>"

definition mark_request :: "request_status \<Rightarrow> string \<Rightarrow> pending_store \<Rightarrow> pending_store" where
  "mark_request st i P = P\<lparr>pend_requests := hm_modify i (set_status st) (pend_requests P)\<rparr>"

definition cleanup_expired ::
    "pending_store \<Rightarrow> 'a env_scheme \<Rightarrow> nat \<times> pending_store \<times> 'a env_scheme" where
  "cleanup_expired P e =
     (let (found, e) = filter_st (\<lambda>(i, r) e. let (expired, e) = request_is_expired r e
            in (expired \<and> req_status r = RPending, e)) (pend_requests P) e;
          ids = map fst found
      in (length ids, fold (mark_request RExpired) ids P, e))"

definition keep_request :: "secure_timestamp \<Rightarrow> u64 \<Rightarrow> pending_request \<Rightarrow> bool" where
  "keep_request now retention r = (if req_status r = RPending then True
     else \<not> sat_sub (unix_secs now) (unix_secs (req_requested_at r)) > retention)"

definition cleanup_old ::
    "u64 \<Rightarrow> pending_store \<Rightarrow> 'a env_scheme \<Rightarrow> nat \<times> pending_store \<times> 'a env_scheme" where
  "cleanup_old retention P e =
     (let (now, e) = ts_now e;
          removed = map fst (filter (\<lambda>(_, r). \<not> keep_request now retention r) (pend_requests P));
          P = P\<lparr>pend_requests := hm_retain (\<lambda>_ r. keep_request now retention r) (pend_requests P)\<rparr>;
          P = (if removed \<noteq> [] then
                 P\<lparr>pend_sessions := hm_map_values (filter (\<lambda>i. i \<notin> set removed)) (pend_sessions P)\<rparr>
               else P)
      in (length removed, P, e))"

text \<open>How many requests of a session have the status pending, expired ones included.\<close>

definition session_pending_count :: "string \<Rightarrow> pending_store \<Rightarrow> nat" where
  "session_pending_count sid P = (case hm_get (pend_sessions P) sid of None \<Rightarrow> 0
     | Some ids \<Rightarrow> length (filter (\<lambda>i. case hm_get (pend_requests P) i of None \<Rightarrow> False
         | Some r \<Rightarrow> req_status r = RPending) ids))"

definition reject_request ::
    "string \<Rightarrow> session_id \<Rightarrow> resource_id \<Rightarrow> action \<Rightarrow> string \<Rightarrow> pending_store \<Rightarrow> 'a host_scheme
     \<Rightarrow> pending_request \<times> pending_store \<times> 'a host_scheme" where
  "reject_request why sid resource act reason P h =
     (let (r, h) = request_new_with_reason sid resource act reason (pend_timeout P) h
      in (set_status (RDenied why) r, P, h))"

definition make_room :: "pending_store \<Rightarrow> 'a host_scheme \<Rightarrow> pending_store \<times> 'a host_scheme" where
  "make_room P h = (if length (pend_requests P) \<ge> MAX_PENDING_REQUESTS then
       (let (_, P, h) = cleanup_expired P h; (_, P, h) = cleanup_old 0 P h in (P, h))
     else (P, h))"

definition store_request :: "session_id \<Rightarrow> pending_request \<Rightarrow> pending_store \<Rightarrow> pending_store" where
  "store_request sid r P =
     (let P = P\<lparr>pend_requests := hm_insert (req_id r) r (pend_requests P)\<rparr>;
          ids = (case hm_get (pend_sessions P) (session_id_str sid) of None \<Rightarrow> [] | Some ids \<Rightarrow> ids)
      in P\<lparr>pend_sessions := hm_insert (session_id_str sid) (ids @ [req_id r]) (pend_sessions P)\<rparr>)"

definition create_request_with_reason ::
    "session_id \<Rightarrow> resource_id \<Rightarrow> action \<Rightarrow> string \<Rightarrow> pending_store \<Rightarrow> 'a host_scheme
     \<Rightarrow> pending_request \<times> pending_store \<times> 'a host_scheme" where
  "create_request_with_reason sid resource act reason P h =
     (let (P, h) = make_room P h in
      if length (pend_requests P) \<ge> MAX_PENDING_REQUESTS then
        reject_request ''Too many pending requests'' sid resource act reason P h
      else if session_pending_count (session_id_str sid) P \<ge> MAX_PENDING_PER_SESSION then
        reject_request ''Too many pending requests for this session'' sid resource act reason P h
      else
        (let (r, h) = request_new_with_reason sid resource act reason (pend_timeout P) h;
             P = store_request sid r P;
             (t, h) = ts_now h;
             h = emit (CapabilityRequested t (req_id r) (session_id_str sid) (as_str resource)
               (action_display act)) h
         in (r, P, h)))"

definition create_request ::
    "session_id \<Rightarrow> resource_id \<Rightarrow> action \<Rightarrow> pending_store \<Rightarrow> 'a host_scheme
     \<Rightarrow> pending_request \<times> pending_store \<times> 'a host_scheme" where
  "create_request sid resource act P h = create_request_with_reason sid resource act [] P h"

definition get_request :: "string \<Rightarrow> pending_store \<Rightarrow> pending_request option" where
  "get_request i P = hm_get (pend_requests P) i"

definition grant_request ::
    "string \<Rightarrow> capability_token \<Rightarrow> grant_duration \<Rightarrow> pending_store \<Rightarrow> 'a env_scheme
     \<Rightarrow> (string + unit) \<times> pending_store \<times> 'a env_scheme" where
  "grant_request i token duration P e = (case hm_get (pend_requests P) i of
       None \<Rightarrow> (Inl (''Request not found: '' @ i), P, e)
     | Some r \<Rightarrow>
         if req_status r \<noteq> RPending then (Inl (''Request '' @ i @ '' is not pending''), P, e)
         else (let (expired, e) = request_is_expired r e
           in if expired then
                (Inl (''Request '' @ i @ '' has expired''), mark_request RExpired i P, e)
              else (Inr (), mark_request (RGranted token duration) i P, e)))"

definition deny_request ::
    "string \<Rightarrow> string \<Rightarrow> pending_store \<Rightarrow> 'a host_scheme \<Rightarrow> (string + unit) \<times> pending_store \<times> 'a host_scheme" where
  "deny_request i reason P h = (case hm_get (pend_requests P) i of
       None \<Rightarrow> (Inl (''Request not found: '' @ i), P, h)
     | Some r \<Rightarrow>
         if req_status r \<noteq> RPending then (Inl (''Request '' @ i @ '' is not pending''), P, h)
         else
           (let P = mark_request (RDenied reason) i P; (t, h) = ts_now h;
                h = emit (CapabilityDenied t i (session_id_str (req_session r)) reason) h
            in (Inr (), P, h)))"

definition list_pending :: "pending_store \<Rightarrow> 'a env_scheme \<Rightarrow> pending_request list \<times> 'a env_scheme" where
  "list_pending P e = filter_st request_is_pending (map snd (pend_requests P)) e"

definition list_session_pending ::
    "string \<Rightarrow> pending_store \<Rightarrow> 'a env_scheme \<Rightarrow> pending_request list \<times> 'a env_scheme" where
  "list_session_pending sid P e = (case hm_get (pend_sessions P) sid of None \<Rightarrow> ([], e)
     | Some ids \<Rightarrow> filter_st request_is_pending (List.map_filter (hm_get (pend_requests P)) ids) e)"

definition pending_count :: "pending_store \<Rightarrow> 'a env_scheme \<Rightarrow> nat \<times> 'a env_scheme" where
  "pending_count P e = (let (rs, e) = list_pending P e in (length rs, e))"

definition list_session_granted :: "string \<Rightarrow> pending_store \<Rightarrow> pending_request list" where
  "list_session_granted sid P =
     filter (\<lambda>r. session_id_str (req_session r) = sid \<and> request_is_granted r) (map snd (pend_requests P))"

definition revoke_request :: "string \<Rightarrow> pending_store \<Rightarrow> 'a host_scheme \<Rightarrow> pending_store \<times> 'a host_scheme" where
  "revoke_request i P h = (case hm_get (pend_requests P) i of None \<Rightarrow> (P, h)
     | Some r \<Rightarrow> if request_is_granted r then
         (let P = mark_request (RDenied ''Revoked by user'') i P; (t, h) = ts_now h;
              h = emit (CapabilityDenied t i (session_id_str (req_session r)) ''Revoked by user'') h
          in (P, h))
       else (P, h))"

definition epoch_reason :: string where
  "epoch_reason = ''Epoch advanced - all capabilities revoked''"

definition revoke_all_granted :: "pending_store \<Rightarrow> 'a host_scheme \<Rightarrow> pending_store \<times> 'a host_scheme" where
  "revoke_all_granted P h =
     (let (now, h) = ts_now h;
          granted = filter (\<lambda>(_, r). request_is_granted r) (pend_requests P);
          h = fold (\<lambda>(i, r). emit (CapabilityDenied now i (session_id_str (req_session r)) epoch_reason))
                granted h
      in (P\<lparr>pend_requests := hm_map_values
            (\<lambda>r. if request_is_granted r then set_status (RDenied epoch_reason) r else r)
            (pend_requests P)\<rparr>, h))"

subsection \<open>The invariant\<close>

definition ids_of :: "string \<Rightarrow> pending_store \<Rightarrow> string list" where
  "ids_of sid P = (case hm_get (pend_sessions P) sid of None \<Rightarrow> [] | Some ids \<Rightarrow> ids)"

definition pending_at :: "pending_store \<Rightarrow> string \<Rightarrow> bool" where
  "pending_at P i = (case hm_get (pend_requests P) i of None \<Rightarrow> False | Some r \<Rightarrow> req_status r = RPending)"

lemma session_pending_count_eq:
  "session_pending_count sid P = length (filter (pending_at P) (ids_of sid P))"
  by (simp add: session_pending_count_def ids_of_def pending_at_def[abs_def] split: option.split)

text \<open>
  The request map is keyed by the requests' identifiers and bounded; the index lists, for
  each session, exactly the identifiers of its requests, once each; and no session has more
  than its share of unanswered requests.
\<close>

definition pending_inv :: "pending_store \<Rightarrow> bool" where
  "pending_inv P = (hm_wf (pend_requests P) \<and> hm_wf (pend_sessions P)
     \<and> length (pend_requests P) \<le> MAX_PENDING_REQUESTS
     \<and> (\<forall>i r. hm_get (pend_requests P) i = Some r \<longrightarrow> req_id r = i)
     \<and> (\<forall>sid i. i \<in> set (ids_of sid P) \<longleftrightarrow>
          (\<exists>r. hm_get (pend_requests P) i = Some r \<and> session_id_str (req_session r) = sid))
     \<and> (\<forall>sid. distinct (ids_of sid P))
     \<and> (\<forall>sid. session_pending_count sid P \<le> MAX_PENDING_PER_SESSION))"

lemma pending_invI:
  assumes "hm_wf (pend_requests P)" "hm_wf (pend_sessions P)"
    "length (pend_requests P) \<le> MAX_PENDING_REQUESTS"
    and "\<And>i r. hm_get (pend_requests P) i = Some r \<Longrightarrow> req_id r = i"
    and "\<And>sid i. i \<in> set (ids_of sid P) \<longleftrightarrow>
          (\<exists>r. hm_get (pend_requests P) i = Some r \<and> session_id_str (req_session r) = sid)"
    and "\<And>sid. distinct (ids_of sid P)"
    and "\<And>sid. session_pending_count sid P \<le> MAX_PENDING_PER_SESSION"
  shows "pending_inv P"
  using assms by (simp add: pending_inv_def)

lemma pending_invD:
  assumes "pending_inv P"
  shows "hm_wf (pend_requests P)" "hm_wf (pend_sessions P)"
    "length (pend_requests P) \<le> MAX_PENDING_REQUESTS"
    and "hm_get (pend_requests P) i = Some r \<Longrightarrow> req_id r = i"
    and "i \<in> set (ids_of sid P) \<longleftrightarrow>
          (\<exists>r. hm_get (pend_requests P) i = Some r \<and> session_id_str (req_session r) = sid)"
    and "distinct (ids_of sid P)"
    and "session_pending_count sid P \<le> MAX_PENDING_PER_SESSION"
  using assms by (simp_all add: pending_inv_def)

lemma pending_inv_init: "pending_inv (pending_with_timeout n)"
  by (simp add: pending_inv_def pending_with_timeout_def ids_of_def session_pending_count_eq)

lemma length_filter_mono:
  "(\<And>x. x \<in> set xs \<Longrightarrow> p x \<Longrightarrow> q x) \<Longrightarrow> length (filter p xs) \<le> length (filter q xs)"
  by (induction xs) (auto intro: le_SucI)

text \<open>Steps that only change statuses, and never back to pending.\<close>

definition status_step :: "pending_store \<Rightarrow> pending_store \<Rightarrow> bool" where
  "status_step P P' = (pend_sessions P' = pend_sessions P
     \<and> map fst (pend_requests P') = map fst (pend_requests P)
     \<and> (\<exists>f. (\<forall>i r. f i r = RPending \<longrightarrow> req_status r = RPending)
          \<and> (\<forall>i. hm_get (pend_requests P') i
               = map_option (\<lambda>r. set_status (f i r) r) (hm_get (pend_requests P) i))))"

lemma status_stepI:
  assumes "pend_sessions P' = pend_sessions P" "map fst (pend_requests P') = map fst (pend_requests P)"
    and "\<And>i r. f i r = RPending \<Longrightarrow> req_status r = RPending"
    and "\<And>i. hm_get (pend_requests P') i = map_option (\<lambda>r. set_status (f i r) r) (hm_get (pend_requests P) i)"
  shows "status_step P P'"
  unfolding status_step_def using assms by blast

lemma status_step_get:
  assumes "status_step P P'" "hm_get (pend_requests P) i = Some r"
  obtains st where "hm_get (pend_requests P') i = Some (set_status st r)"
    "st = RPending \<Longrightarrow> req_status r = RPending"
  using assms by (auto simp: status_step_def)

lemma status_step_back:
  assumes "status_step P P'" "hm_get (pend_requests P') i = Some r'"
  obtains r st where "hm_get (pend_requests P) i = Some r" "r' = set_status st r"
    "st = RPending \<Longrightarrow> req_status r = RPending"
  using assms by (auto simp: status_step_def)

lemma set_status_sel [simp]:
  "req_id (set_status st r) = req_id r" "req_session (set_status st r) = req_session r"
  "req_status (set_status st r) = st" "req_requested_at (set_status st r) = req_requested_at r"
  "req_expires_at (set_status st r) = req_expires_at r"
  by (simp_all add: set_status_def)

lemma set_status_self [simp]: "set_status (req_status r) r = r"
  by (simp add: set_status_def)

lemma status_step_inv:
  assumes step: "status_step P P'" and inv: "pending_inv P"
  shows "pending_inv P'"
proof -
  have keys: "map fst (pend_requests P') = map fst (pend_requests P)"
    and idx: "pend_sessions P' = pend_sessions P" using step by (simp_all add: status_step_def)
  have ids: "ids_of sid P' = ids_of sid P" for sid by (simp add: ids_of_def idx)
  have mem: "(\<exists>r. hm_get (pend_requests P') i = Some r \<and> session_id_str (req_session r) = sid)
      \<longleftrightarrow> (\<exists>r. hm_get (pend_requests P) i = Some r \<and> session_id_str (req_session r) = sid)" for i sid
  proof
    assume "\<exists>r. hm_get (pend_requests P') i = Some r \<and> session_id_str (req_session r) = sid"
    then obtain r' where r': "hm_get (pend_requests P') i = Some r'"
      "session_id_str (req_session r') = sid" by blast
    obtain r st where "hm_get (pend_requests P) i = Some r" "r' = set_status st r"
      using status_step_back[OF step r'(1)] .
    then show "\<exists>r. hm_get (pend_requests P) i = Some r \<and> session_id_str (req_session r) = sid"
      using r'(2) by auto
  next
    assume "\<exists>r. hm_get (pend_requests P) i = Some r \<and> session_id_str (req_session r) = sid"
    then obtain r where r: "hm_get (pend_requests P) i = Some r"
      "session_id_str (req_session r) = sid" by blast
    obtain st where "hm_get (pend_requests P') i = Some (set_status st r)"
      using status_step_get[OF step r(1)] .
    then show "\<exists>r. hm_get (pend_requests P') i = Some r \<and> session_id_str (req_session r) = sid"
      using r(2) by auto
  qed
  have pend: "pending_at P i" if at: "pending_at P' i" for i
  proof -
    obtain r' where "hm_get (pend_requests P') i = Some r'" "req_status r' = RPending"
      using at by (auto simp: pending_at_def split: option.splits)
    then show ?thesis by (auto simp: pending_at_def elim: status_step_back[OF step])
  qed
  show ?thesis
  proof (rule pending_invI)
    show "hm_wf (pend_requests P')" using pending_invD(1)[OF inv] keys by (simp add: hm_wf_def)
    show "hm_wf (pend_sessions P')" using pending_invD(2)[OF inv] idx by simp
    show "length (pend_requests P') \<le> MAX_PENDING_REQUESTS"
      using pending_invD(3)[OF inv] keys by (metis length_map)
    show "req_id r = i" if "hm_get (pend_requests P') i = Some r" for i r
      using status_step_back[OF step that] pending_invD(4)[OF inv] by (metis set_status_sel(1))
    show "i \<in> set (ids_of sid P') \<longleftrightarrow>
        (\<exists>r. hm_get (pend_requests P') i = Some r \<and> session_id_str (req_session r) = sid)" for sid i
      unfolding ids mem by (rule pending_invD(5)[OF inv])
    show "distinct (ids_of sid P')" for sid unfolding ids by (rule pending_invD(6)[OF inv])
    show "session_pending_count sid P' \<le> MAX_PENDING_PER_SESSION" for sid
      using length_filter_mono[of "ids_of sid P" "pending_at P'" "pending_at P"] pend
        pending_invD(7)[OF inv, of sid]
      by (simp add: session_pending_count_eq ids)
  qed
qed

lemma status_step_refl [simp]: "status_step P P"
  by (rule status_stepI[where f = "\<lambda>_. req_status"]) (simp_all add: option.map_ident)

lemma status_step_mark: "st \<noteq> RPending \<Longrightarrow> status_step P (mark_request st i P)"
  by (rule status_stepI[where f = "\<lambda>j r. if j = i then st else req_status r"])
    (auto simp: mark_request_def option.map_ident split: if_splits)

lemma status_step_trans:
  assumes a: "status_step P Q" and b: "status_step Q R"
  shows "status_step P R"
proof -
  obtain f where f: "\<And>i r. f i r = RPending \<Longrightarrow> req_status r = RPending"
    "\<And>i. hm_get (pend_requests Q) i = map_option (\<lambda>r. set_status (f i r) r) (hm_get (pend_requests P) i)"
    using a unfolding status_step_def by blast
  obtain g where g: "\<And>i r. g i r = RPending \<Longrightarrow> req_status r = RPending"
    "\<And>i. hm_get (pend_requests R) i = map_option (\<lambda>r. set_status (g i r) r) (hm_get (pend_requests Q) i)"
    using b unfolding status_step_def by blast
  show ?thesis
  proof (rule status_stepI[where f = "\<lambda>i r. g i (set_status (f i r) r)"])
    show "hm_get (pend_requests R) i = map_option (\<lambda>r. set_status (g i (set_status (f i r) r)) r)
        (hm_get (pend_requests P) i)" for i
      by (simp add: g(2) f(2) option.map_comp comp_def set_status_def)
    show "req_status r = RPending" if "g i (set_status (f i r) r) = RPending" for i r
      using f(1)[of i r] g(1)[OF that] by simp
  qed (use a b in \<open>simp_all add: status_step_def\<close>)
qed

subsection \<open>Preservation\<close>

lemma status_step_fold_mark: "status_step P (fold (mark_request RExpired) ids P)"
proof (induction ids arbitrary: P)
  case (Cons i ids)
  have "status_step P (mark_request RExpired i P)" by (rule status_step_mark) simp
  then show ?case using status_step_trans[OF _ Cons] by simp
qed simp

lemma status_step_cleanup_expired: "status_step P (fst (snd (cleanup_expired P e)))"
  by (simp add: cleanup_expired_def split_def Let_def status_step_fold_mark)

lemma status_step_grant: "status_step P (fst (snd (grant_request i t d P e)))"
  by (auto simp: grant_request_def split_def Let_def status_step_mark split: option.split)

lemma status_step_deny: "status_step P (fst (snd (deny_request i why P h)))"
  by (auto simp: deny_request_def split_def Let_def status_step_mark split: option.split)

lemma status_step_revoke: "status_step P (fst (revoke_request i P h))"
  by (auto simp: revoke_request_def split_def Let_def status_step_mark split: option.split)

lemma status_step_revoke_all: "status_step P (fst (revoke_all_granted P h))"
  by (rule status_stepI[where f = "\<lambda>_ r. if request_is_granted r then RDenied epoch_reason else req_status r"])
    (auto simp: revoke_all_granted_def split_def Let_def split: if_splits
      intro!: option.map_cong0)

lemma cleanup_old_store:
  "fst (snd (cleanup_old n P e)) = (let now = fst (ts_now e);
      removed = map fst (filter (\<lambda>(_, r). \<not> keep_request now n r) (pend_requests P))
    in P\<lparr>pend_requests := hm_retain (\<lambda>_ r. keep_request now n r) (pend_requests P),
         pend_sessions := if removed = [] then pend_sessions P
           else hm_map_values (filter (\<lambda>i. i \<notin> set removed)) (pend_sessions P)\<rparr>)"
  by (simp add: cleanup_old_def split_def Let_def)

lemma cleanup_old_get:
  assumes "pending_inv P"
  shows "hm_get (pend_requests (fst (snd (cleanup_old n P e)))) i = Some r \<longleftrightarrow>
      hm_get (pend_requests P) i = Some r \<and> keep_request (fst (ts_now e)) n r"
  unfolding cleanup_old_store Let_def
  by (auto simp: hm_get_retain[OF pending_invD(1)[OF assms]] split: option.splits)

lemma cleanup_old_ids:
  assumes inv: "pending_inv P"
  shows "ids_of sid (fst (snd (cleanup_old n P e))) =
    filter (\<lambda>i. \<exists>r. hm_get (pend_requests P) i = Some r \<and> keep_request (fst (ts_now e)) n r) (ids_of sid P)"
proof -
  let ?keep = "keep_request (fst (ts_now e)) n"
  let ?rem = "map fst (filter (\<lambda>(_, r). \<not> ?keep r) (pend_requests P))"
  have mem: "i \<in> set ?rem \<longleftrightarrow> (\<exists>r. hm_get (pend_requests P) i = Some r \<and> \<not> ?keep r)" for i
    by (force simp: hm_get_Some_mem[OF pending_invD(1)[OF inv]])
  have "ids_of sid (fst (snd (cleanup_old n P e))) = filter (\<lambda>i. i \<notin> set ?rem) (ids_of sid P)"
  proof (cases "?rem = []")
    case True
    then show ?thesis unfolding cleanup_old_store Let_def by (simp add: ids_of_def)
  next
    case False
    then show ?thesis unfolding cleanup_old_store Let_def
      by (simp add: ids_of_def split: option.split)
  qed
  also have "\<dots> = filter (\<lambda>i. \<exists>r. hm_get (pend_requests P) i = Some r \<and> ?keep r) (ids_of sid P)"
  proof (rule filter_cong[OF refl])
    fix i assume "i \<in> set (ids_of sid P)"
    then obtain r where "hm_get (pend_requests P) i = Some r"
      using pending_invD(5)[OF inv, of i sid] by blast
    then show "i \<notin> set ?rem \<longleftrightarrow> (\<exists>r. hm_get (pend_requests P) i = Some r \<and> ?keep r)"
      unfolding mem by auto
  qed
  finally show ?thesis .
qed

lemma length_hm_retain: "length (hm_retain p m) \<le> length m"
  by (simp add: hm_retain_def)

lemma cleanup_old_inv:
  assumes inv: "pending_inv P"
  shows "pending_inv (fst (snd (cleanup_old n P e)))"
proof -
  let ?P = "fst (snd (cleanup_old n P e))"
  note get = cleanup_old_get[OF inv, of n e] and ids = cleanup_old_ids[OF inv, of _ n e]
  show ?thesis
  proof (rule pending_invI)
    show "hm_wf (pend_requests ?P)" "hm_wf (pend_sessions ?P)"
      using pending_invD(1,2)[OF inv] by (simp_all add: cleanup_old_store Let_def)
    show "length (pend_requests ?P) \<le> MAX_PENDING_REQUESTS"
      using order_trans[OF length_hm_retain pending_invD(3)[OF inv]]
      by (simp add: cleanup_old_store Let_def)
    show "req_id r = i" if "hm_get (pend_requests ?P) i = Some r" for i r
      using that get pending_invD(4)[OF inv] by blast
    show "i \<in> set (ids_of sid ?P) \<longleftrightarrow>
        (\<exists>r. hm_get (pend_requests ?P) i = Some r \<and> session_id_str (req_session r) = sid)" for sid i
      unfolding ids get using pending_invD(5)[OF inv, of i sid] by auto
    show "distinct (ids_of sid ?P)" for sid
      unfolding ids using pending_invD(6)[OF inv] by simp
    show "session_pending_count sid ?P \<le> MAX_PENDING_PER_SESSION" for sid
    proof -
      have "pending_at P i" if p: "pending_at ?P i" for i
      proof -
        obtain r where "hm_get (pend_requests ?P) i = Some r" "req_status r = RPending"
          using p unfolding pending_at_def by (cases "hm_get (pend_requests ?P) i") auto
        then show ?thesis unfolding get by (simp add: pending_at_def)
      qed
      then have "session_pending_count sid ?P \<le> session_pending_count sid P"
        unfolding session_pending_count_eq ids filter_filter by (intro length_filter_mono) auto
      then show ?thesis using pending_invD(7)[OF inv, of sid] by simp
    qed
  qed
qed

lemma make_room_inv: "pending_inv P \<Longrightarrow> pending_inv (fst (make_room P h))"
  by (simp add: make_room_def split_def Let_def cleanup_old_inv
      status_step_inv[OF status_step_cleanup_expired])

lemma store_request_inv:
  assumes inv: "pending_inv P" and room: "length (pend_requests P) < MAX_PENDING_REQUESTS"
    and share: "session_pending_count (session_id_str sid) P < MAX_PENDING_PER_SESSION"
    and fresh: "hm_get (pend_requests P) (req_id r) = None" and sid: "req_session r = sid"
  shows "pending_inv (store_request sid r P)"
proof -
  let ?P = "store_request sid r P" and ?s = "session_id_str sid"
  have req: "pend_requests ?P = hm_insert (req_id r) r (pend_requests P)"
    by (simp add: store_request_def Let_def)
  have ids: "ids_of s ?P = (if s = ?s then ids_of s P @ [req_id r] else ids_of s P)" for s
    by (simp add: store_request_def ids_of_def Let_def)
  have out: "req_id r \<notin> set (ids_of s P)" for s
    using pending_invD(5)[OF inv, of "req_id r" s] fresh by simp
  have at: "pending_at ?P i = pending_at P i" if "i \<noteq> req_id r" for i
    using that by (simp add: pending_at_def req)
  show ?thesis
  proof (rule pending_invI)
    show "hm_wf (pend_requests ?P)" using pending_invD(1)[OF inv] by (simp add: req)
    show "hm_wf (pend_sessions ?P)"
      using pending_invD(2)[OF inv] by (simp add: store_request_def Let_def)
    show "length (pend_requests ?P) \<le> MAX_PENDING_REQUESTS"
      using room by (simp add: req length_insert_new[OF fresh])
    show "req_id q = i" if "hm_get (pend_requests ?P) i = Some q" for i q
      using that pending_invD(4)[OF inv, of i q] by (auto simp: req split: if_splits)
    show "i \<in> set (ids_of s ?P) \<longleftrightarrow>
        (\<exists>q. hm_get (pend_requests ?P) i = Some q \<and> session_id_str (req_session q) = s)" for s i
      using pending_invD(5)[OF inv, of i s] out[of s] fresh sid by (auto simp: ids req)
    show "distinct (ids_of s ?P)" for s
      using pending_invD(6)[OF inv, of s] out[of s] by (auto simp: ids)
    show "session_pending_count s ?P \<le> MAX_PENDING_PER_SESSION" for s
    proof -
      have "filter (pending_at ?P) (ids_of s P) = filter (pending_at P) (ids_of s P)"
        using at out[of s] by (intro filter_cong[OF refl]) metis
      then show ?thesis
        using pending_invD(7)[OF inv, of s] share
        by (cases "s = ?s") (simp_all add: session_pending_count_eq ids)
    qed
  qed
qed

lemma filter_st_frame:
  "(\<And>x e. g (snd (f x e)) = g e) \<Longrightarrow> g (snd (filter_st f xs e)) = g e"
  by (induction xs arbitrary: e) (simp_all add: split_def Let_def)

lemma cleanup_expired_frame [simp, frame]:
  "uuid_draws (snd (snd (cleanup_expired P e))) = uuid_draws e"
  "uuid_strings (snd (snd (cleanup_expired P e))) = uuid_strings e"
  "wall_clock (snd (snd (cleanup_expired P e))) = wall_clock e"
  unfolding cleanup_expired_def Let_def split_def snd_conv
  by (rule filter_st_frame; simp add: request_is_expired_def is_expired_eq split_def)+

lemma make_room_frame:
  "uuid_draws (snd (make_room P h)) = uuid_draws h" "uuid_strings (snd (make_room P h)) = uuid_strings h"
  by (simp_all add: make_room_def cleanup_old_def ts_now_eq split_def Let_def)

text \<open>The outcome of a creation: a rejection that stores nothing, or a stored request.\<close>

lemma create_request_cases:
  assumes "create_request_with_reason sid res act why P h = (r, P', h')"
  obtains (rejected) msg where "P' = fst (make_room P h)" "req_status r = RDenied msg"
      "length (pend_requests P') \<ge> MAX_PENDING_REQUESTS
        \<or> session_pending_count (session_id_str sid) P' \<ge> MAX_PENDING_PER_SESSION"
  | (stored) "P' = store_request sid r (fst (make_room P h))" "req_status r = RPending"
      "req_id r = uuid_strings h (uuid_draws h)" "req_session r = sid"
      "length (pend_requests (fst (make_room P h))) < MAX_PENDING_REQUESTS"
      "session_pending_count (session_id_str sid) (fst (make_room P h)) < MAX_PENDING_PER_SESSION"
proof -
  let ?P = "fst (make_room P h)" and ?h = "snd (make_room P h)"
  consider "length (pend_requests ?P) \<ge> MAX_PENDING_REQUESTS"
    | "length (pend_requests ?P) < MAX_PENDING_REQUESTS"
      "session_pending_count (session_id_str sid) ?P \<ge> MAX_PENDING_PER_SESSION"
    | "length (pend_requests ?P) < MAX_PENDING_REQUESTS"
      "session_pending_count (session_id_str sid) ?P < MAX_PENDING_PER_SESSION"
    by linarith
  then show ?thesis
  proof cases
    case 3
    then have "P' = store_request sid r ?P" "req_status r = RPending" "req_session r = sid"
      "req_id r = uuid_strings ?h (uuid_draws ?h)"
      using assms by (auto simp: create_request_with_reason_def request_new_with_reason_def
          time_reads split_def Let_def)
    then show ?thesis using stored 3 by (simp add: make_room_frame)
  qed (use assms rejected in \<open>auto simp: create_request_with_reason_def reject_request_def
    split_def Let_def\<close>)
qed

subsection \<open>The store as a state machine\<close>

text \<open>The identifiers drawn so far. A new one differs from them: that is what UUIDs promise.\<close>

definition drawn :: "'a env_scheme \<Rightarrow> string set" where
  "drawn e = uuid_strings e ` {..<uuid_draws e}"

definition fresh_draw :: "pending_store \<Rightarrow> 'a env_scheme \<Rightarrow> bool" where
  "fresh_draw P e = (uuid_strings e (uuid_draws e) \<notin> drawn e
     \<and> hm_get (pend_requests P) (uuid_strings e (uuid_draws e)) = None)"

inductive pending_step ::
    "pending_store \<times> 'a host_scheme \<Rightarrow> pending_store \<times> 'a host_scheme \<Rightarrow> bool" where
  step_create_request: "fresh_draw P h \<Longrightarrow>
     pending_step (P, h) (snd (create_request_with_reason sid res act why P h))"
| step_grant_request: "pending_step (P, h) (snd (grant_request i t d P h))"
| step_deny_request: "pending_step (P, h) (snd (deny_request i why P h))"
| step_cleanup_expired: "pending_step (P, h) (snd (cleanup_expired P h))"
| step_cleanup_old: "pending_step (P, h) (snd (cleanup_old n P h))"
| step_revoke_request: "pending_step (P, h) (revoke_request i P h)"
| step_revoke_all_granted: "pending_step (P, h) (revoke_all_granted P h)"

lemma status_step_None:
  "status_step P P' \<Longrightarrow> hm_get (pend_requests P) i = None \<Longrightarrow> hm_get (pend_requests P') i = None"
  by (auto simp: status_step_def)

lemma make_room_get:
  "pending_inv P \<Longrightarrow> hm_get (pend_requests P) i = None \<Longrightarrow>
   hm_get (pend_requests (fst (make_room P h))) i = None"
proof -
  assume inv: "pending_inv P" and none: "hm_get (pend_requests P) i = None"
  let ?Q = "fst (snd (cleanup_expired P h))"
  have q: "pending_inv ?Q" "hm_get (pend_requests ?Q) i = None"
    using status_step_inv[OF status_step_cleanup_expired inv]
      status_step_None[OF status_step_cleanup_expired none] by blast+
  have "hm_get (pend_requests (fst (snd (cleanup_old n ?Q e)))) i = None" for n and e :: "'a host_scheme"
    using cleanup_old_get[OF q(1), of n e i] q(2) by (metis not_None_eq)
  then show ?thesis using none by (simp add: make_room_def split_def Let_def)
qed

lemma create_request_inv:
  assumes "pending_inv P" "fresh_draw P h"
  shows "pending_inv (fst (snd (create_request_with_reason sid res act why P h)))"
proof -
  obtain r P' h' where c: "create_request_with_reason sid res act why P h = (r, P', h')"
    using prod_cases3 by blast
  show ?thesis
  proof (cases rule: create_request_cases[OF c])
    case 1
    then show ?thesis using make_room_inv[OF assms(1)] c by simp
  next
    case 2
    have "hm_get (pend_requests (fst (make_room P h))) (req_id r) = None"
      using make_room_get[OF assms(1), of _ h] assms(2) 2(3) by (simp add: fresh_draw_def)
    then show ?thesis
      using store_request_inv[OF make_room_inv[OF assms(1), of h] 2(5,6) _ 2(4)] 2(1) c by simp
  qed
qed

lemma pending_step_inv: "pending_step p q \<Longrightarrow> pending_inv (fst p) \<Longrightarrow> pending_inv (fst q)"
  by (induction rule: pending_step.induct)
    (simp_all add: create_request_inv status_step_inv[OF status_step_grant]
      status_step_inv[OF status_step_deny] status_step_inv[OF status_step_cleanup_expired]
      cleanup_old_inv status_step_inv[OF status_step_revoke] status_step_inv[OF status_step_revoke_all])

lemma pending_steps_inv: "pending_step\<^sup>*\<^sup>* p q \<Longrightarrow> pending_inv (fst p) \<Longrightarrow> pending_inv (fst q)"
  by (induction rule: rtranclp_induct) (auto dest: pending_step_inv)

subsection \<open>Decisions are final\<close>

text \<open>A request that is denied, expired or gone is settled: it is not pending and not granted.\<close>

definition settled_at :: "pending_store \<Rightarrow> string \<Rightarrow> bool" where
  "settled_at P i = (\<forall>r. hm_get (pend_requests P) i = Some r \<longrightarrow>
     req_status r \<noteq> RPending \<and> \<not> status_granted (req_status r))"

lemma settled_mark:
  "settled_at P i \<Longrightarrow> st \<noteq> RPending \<Longrightarrow> \<not> status_granted st \<Longrightarrow> settled_at (mark_request st j P) i"
  by (auto simp: settled_at_def mark_request_def)

lemma settled_mark_other:
  "settled_at P i \<Longrightarrow> hm_get (pend_requests P) j = Some r \<Longrightarrow> req_status r = RPending \<Longrightarrow>
   settled_at (mark_request st j P) i"
  by (auto simp: settled_at_def mark_request_def)

lemma settled_fold_mark: "settled_at P i \<Longrightarrow> settled_at (fold (mark_request RExpired) ids P) i"
  by (induction ids arbitrary: P) (simp_all add: settled_mark)

lemma settled_cleanup_expired: "settled_at P i \<Longrightarrow> settled_at (fst (snd (cleanup_expired P e))) i"
  by (simp add: cleanup_expired_def split_def Let_def settled_fold_mark)

lemma settled_cleanup_old:
  "pending_inv P \<Longrightarrow> settled_at P i \<Longrightarrow> settled_at (fst (snd (cleanup_old n P e))) i"
  by (simp add: settled_at_def cleanup_old_get)

lemma settled_make_room:
  "pending_inv P \<Longrightarrow> settled_at P i \<Longrightarrow> settled_at (fst (make_room P h)) i"
  by (simp add: make_room_def split_def Let_def settled_cleanup_expired settled_cleanup_old
      status_step_inv[OF status_step_cleanup_expired])

lemma settled_create:
  assumes "pending_inv P" "settled_at P i" "i \<noteq> uuid_strings h (uuid_draws h)"
  shows "settled_at (fst (snd (create_request_with_reason sid res act why P h))) i"
proof -
  obtain r P' h' where c: "create_request_with_reason sid res act why P h = (r, P', h')"
    using prod_cases3 by blast
  show ?thesis
  proof (cases rule: create_request_cases[OF c])
    case 1
    then show ?thesis using settled_make_room[OF assms(1,2)] c by simp
  next
    case 2
    then show ?thesis using settled_make_room[OF assms(1,2), of h] c assms(3)
      by (simp add: settled_at_def store_request_def Let_def)
  qed
qed

lemma settled_grant: "settled_at P i \<Longrightarrow> settled_at (fst (snd (grant_request j t d P e))) i"
  by (auto simp: grant_request_def split_def Let_def settled_mark_other split: option.split)

lemma settled_deny: "settled_at P i \<Longrightarrow> settled_at (fst (snd (deny_request j why P h))) i"
  by (auto simp: deny_request_def split_def Let_def settled_mark split: option.split)

lemma settled_revoke: "settled_at P i \<Longrightarrow> settled_at (fst (revoke_request j P h)) i"
  by (auto simp: revoke_request_def split_def Let_def settled_mark split: option.split)

lemma settled_revoke_all: "settled_at P i \<Longrightarrow> settled_at (fst (revoke_all_granted P h)) i"
  by (auto simp: revoke_all_granted_def split_def Let_def settled_at_def)

text \<open>The identifiers drawn grow and the source of identifiers stays.\<close>

lemma fold_emit_uuid [simp]:
  "uuid_draws (fold (\<lambda>p. emit (f p)) rs h) = uuid_draws h"
  "uuid_strings (fold (\<lambda>p. emit (f p)) rs h) = uuid_strings h"
  by (induction rs arbitrary: h) auto

lemma pending_step_uuid:
  "pending_step p q \<Longrightarrow> uuid_strings (snd q) = uuid_strings (snd p) \<and> uuid_draws (snd p) \<le> uuid_draws (snd q)"
proof (induction rule: pending_step.induct)
  case (step_create_request P h sid res act why)
  let ?h = "snd (make_room P h)"
  have "uuid_strings (snd (snd (create_request_with_reason sid res act why P h))) = uuid_strings ?h
      \<and> uuid_draws ?h \<le> uuid_draws (snd (snd (create_request_with_reason sid res act why P h)))"
    by (auto simp: create_request_with_reason_def reject_request_def request_new_with_reason_def
        time_reads split_def Let_def)
  then show ?case by (simp add: make_room_frame)
next
  case (step_revoke_all_granted P h)
  then show ?case by (simp add: revoke_all_granted_def split_def Let_def) (simp add: ts_now_eq)
qed (auto simp: grant_request_def deny_request_def revoke_request_def cleanup_old_def
    request_is_expired_def time_reads split_def Let_def split: option.split)

definition request_refused :: "string \<Rightarrow> pending_store \<times> 'a host_scheme \<Rightarrow> bool" where
  "request_refused i p = (pending_inv (fst p) \<and> settled_at (fst p) i \<and> i \<in> drawn (snd p))"

lemma request_refused_step:
  assumes "request_refused i p" "pending_step p q"
  shows "request_refused i q"
proof -
  have r: "pending_inv (fst p)" "settled_at (fst p) i" "i \<in> drawn (snd p)"
    using assms(1) by (simp_all add: request_refused_def)
  have "settled_at (fst q) i"
    using assms(2) r
    by (cases rule: pending_step.cases)
      (auto simp: settled_grant settled_deny settled_cleanup_expired settled_cleanup_old
        settled_revoke settled_revoke_all fresh_draw_def intro!: settled_create)
  moreover have "drawn (snd p) \<subseteq> drawn (snd q)"
    using pending_step_uuid[OF assms(2)] unfolding drawn_def by (intro image_mono subsetI) auto
  ultimately show ?thesis
    using r pending_step_inv[OF assms(2)] by (auto simp: request_refused_def)
qed

interpretation pending: permanent_refusal request_refused pending_step
  by unfold_locales (rule request_refused_step)

subsection \<open>Properties\<close>


text \<open>
  Property C13. A request is granted exactly when it is stored, unanswered and not past its
  expiry at the clock's reading; a request found expired is marked so and never granted, and
  a request with an answer keeps it.
\<close>

theorem grant_request_decides:
  "let now = Timestamp (wall_clock e (wall_reads e)) (mono_counter e) in
   (fst (grant_request i t d P e) = Inr () \<longleftrightarrow>
      (\<exists>r. get_request i P = Some r \<and> req_status r = RPending \<and> now \<le> req_expires_at r))
   \<and> get_request i (fst (snd (grant_request i t d P e))) = map_option (\<lambda>r.
      if req_status r \<noteq> RPending then r
      else if now \<le> req_expires_at r then set_status (RGranted t d) r else set_status RExpired r)
      (get_request i P)"
  by (auto simp: grant_request_def get_request_def request_is_expired_def is_expired_eq Let_def
      mark_request_def not_le split: option.split)

text \<open>
  Decisions are final: once a request is denied or expired, no sequence of
  creations, grants, denials, cleanups and revocations makes it grantable again, even after
  it has been cleaned away, as long as new identifiers differ from the drawn ones.
\<close>

theorem settled_never_granted:
  assumes "pending_inv P" and "settled_at P i" and "i \<in> drawn h"
    and "pending_step\<^sup>*\<^sup>* (P, h) (P', h')"
  shows "\<exists>e. fst (grant_request i t d P' h') = Inl e"
proof -
  have "request_refused i (P', h')"
    using pending.refused_forever[OF assms(4)] assms(1-3) by (simp add: request_refused_def)
  then have "settled_at P' i" by (simp add: request_refused_def)
  then show ?thesis by (auto simp: grant_request_def settled_at_def split: option.split)
qed

text \<open>
  Expired requests lock their session out: the share of a session is counted by
  status, and expiry is marked only when the whole store is full. With 32 unanswered requests
  a session gets every further request denied and the store stays as it is, whatever the
  clock says, so this stays true however long ago the requests expired.
\<close>

theorem expired_requests_lock_session:
  assumes "length (pend_requests P) < MAX_PENDING_REQUESTS"
    and "session_pending_count (session_id_str sid) P \<ge> MAX_PENDING_PER_SESSION"
  shows "fst (snd (create_request_with_reason sid res act why P h)) = P
    \<and> req_status (fst (create_request_with_reason sid res act why P h))
        = RDenied ''Too many pending requests for this session''"
  using assms by (simp add: create_request_with_reason_def make_room_def reject_request_def
      split_def Let_def)

text \<open>
  A full store drops granted requests: the cleanup that makes room removes every
  answered request of an earlier second, so the capsule that asks for a decision that was
  already taken in its favour finds no request any more.
\<close>

theorem capacity_evicts_granted:
  assumes "hm_wf (pend_requests P)" and "length (pend_requests P) \<ge> MAX_PENDING_REQUESTS"
    and "get_request i P = Some r" and "request_is_granted r"
    and "\<forall>n. wall_clock h n = now" and "unix_secs (req_requested_at r) < now"
  shows "get_request i (fst (make_room P h)) = None"
proof -
  let ?Q = "fst (snd (cleanup_expired P h))" and ?e = "snd (snd (cleanup_expired P h))"
  have keys: "map fst (pend_requests ?Q) = map fst (pend_requests P)"
    using status_step_cleanup_expired[of P h] by (simp add: status_step_def)
  then have wf: "hm_wf (pend_requests ?Q)" using assms(1) by (simp add: hm_wf_def)
  have now: "unix_secs (fst (ts_now ?e)) = now"
    using assms(5) by (simp add: ts_now_eq)
  have got: "hm_get (pend_requests P) i = Some r" using assms(3) by (simp add: get_request_def)
  obtain st where q: "hm_get (pend_requests ?Q) i = Some (set_status st r)"
    and st: "st = RPending \<longrightarrow> req_status r = RPending"
    using status_step_get[OF status_step_cleanup_expired[of P h] got] by blast
  have "st \<noteq> RPending" using st assms(4) by (auto simp: request_is_granted_def)
  then have "\<not> keep_request (fst (ts_now ?e)) 0 (set_status st r)"
    using now assms(6) by (auto simp: keep_request_def sat_sub_def word_gt_0)
  then have "hm_get (pend_requests (fst (snd (cleanup_old 0 ?Q ?e)))) i = None"
    unfolding cleanup_old_store Let_def by (simp add: hm_get_retain[OF wf] q)
  then show ?thesis
    using assms(2) by (simp add: make_room_def get_request_def split_def Let_def)
qed

text \<open>
  After a mass revocation no request is granted, every other request is as it
  was, and the audit log has one denial per request that was granted.
\<close>

theorem revoke_all_granted_effect:
  "get_request i (fst (revoke_all_granted P h)) = map_option (\<lambda>r.
      if request_is_granted r then set_status (RDenied epoch_reason) r else r) (get_request i P)
   \<and> audit_buffer (snd (revoke_all_granted P h)) = fold push_event
      (map (\<lambda>(j, r). CapabilityDenied (fst (ts_now h)) j (session_id_str (req_session r)) epoch_reason)
        (filter (\<lambda>(j, r). request_is_granted r) (pend_requests P))) (audit_buffer h)"
proof -
  have "audit_buffer (fold (\<lambda>p. emit (f p)) rs g) = fold push_event (map f rs) (audit_buffer g)"
    for f :: "string \<times> pending_request \<Rightarrow> audit_event" and rs and g :: "'a host_scheme"
    by (induction rs arbitrary: g) simp_all
  then show ?thesis
    by (simp add: revoke_all_granted_def get_request_def split_def Let_def) (simp add: ts_now_eq)
qed

subsection \<open>Examples\<close>

definition demo_request :: "string \<Rightarrow> request_status \<Rightarrow> pending_request" where
  "demo_request i st = \<lparr>req_id = i, req_session = SessionId ''s'', req_resource = ResourceId ''r'',
     req_action = Read, req_reason = [], req_requested_at = Timestamp 10 1,
     req_expires_at = Timestamp 310 2, req_status = st\<rparr>"

text \<open>A store of \<open>n\<close> requests of one session, the one under the empty identifier with the status \<open>st\<close>.\<close>

definition demo_pending :: "nat \<Rightarrow> request_status \<Rightarrow> request_status \<Rightarrow> pending_store" where
  "demo_pending n st others =
     (let ids = map (\<lambda>k. replicate k CHR ''u'') [0..<n]
      in \<lparr>pend_requests = map (\<lambda>i. (i, demo_request i (if i = [] then st else others))) ids,
          pend_sessions = [(''s'', ids)], pend_timeout = 300\<rparr>)"

lemma demo_pending_wf: "hm_wf (pend_requests (demo_pending n st others))"
  by (simp add: demo_pending_def hm_wf_def comp_def distinct_map inj_on_def Let_def)

lemma demo_pending_get:
  "k < n \<Longrightarrow> hm_get (pend_requests (demo_pending n st others)) (replicate k CHR ''u'')
     = Some (demo_request (replicate k CHR ''u'') (if k = 0 then st else others))"
  using hm_get_Some_mem[OF demo_pending_wf] by (force simp: demo_pending_def Let_def)


theorem settled_never_granted_witness:
  "\<exists>e. fst (grant_request ''x'' (demo_token 1 ''c'' Read) Once
     (fst (snd (cleanup_old 0 (pending_with_timeout 300) (demo_host\<lparr>uuid_strings := \<lambda>_. ''x'', uuid_draws := 1\<rparr>))))
     (snd (snd (cleanup_old 0 (pending_with_timeout 300) (demo_host\<lparr>uuid_strings := \<lambda>_. ''x'', uuid_draws := 1\<rparr>)))))
     = Inl e"
proof (rule settled_never_granted[OF pending_inv_init])
  let ?h = "demo_host\<lparr>uuid_strings := \<lambda>_. ''x'', uuid_draws := 1\<rparr>"
  show "settled_at (pending_with_timeout 300) ''x''"
    by (simp add: settled_at_def pending_with_timeout_def)
  show "''x'' \<in> drawn ?h" by (simp add: drawn_def)
  show "pending_step\<^sup>*\<^sup>* (pending_with_timeout 300, ?h)
     (fst (snd (cleanup_old 0 (pending_with_timeout 300) ?h)),
      snd (snd (cleanup_old 0 (pending_with_timeout 300) ?h)))"
    unfolding prod.collapse by (intro r_into_rtranclp step_cleanup_old)
qed

theorem expired_requests_lock_session_witness:
  "req_status (fst (create_request_with_reason (SessionId ''s'') (ResourceId ''r'') Read []
     (demo_pending 32 RPending RPending) (demo_host\<lparr>wall_clock := \<lambda>_. 1000000\<rparr>)))
     = RDenied ''Too many pending requests for this session''"
proof -
  let ?P = "demo_pending 32 RPending RPending"
  let ?ids = "map (\<lambda>k. replicate k CHR ''u'') [0..<32]"
  have "filter (pending_at ?P) ?ids = ?ids"
    using demo_pending_get[of _ 32 RPending RPending]
    by (intro filter_True) (auto simp: pending_at_def demo_request_def)
  moreover have "ids_of ''s'' ?P = ?ids" by (simp add: ids_of_def demo_pending_def hm_get_def Let_def)
  ultimately have "session_pending_count ''s'' ?P = 32"
    by (simp only: session_pending_count_eq) simp
  moreover have "length (pend_requests ?P) = 32" by (simp add: demo_pending_def Let_def)
  ultimately show ?thesis
    using expired_requests_lock_session[of ?P "SessionId ''s''" "ResourceId ''r''" Read "[]"
        "demo_host\<lparr>wall_clock := \<lambda>_. 1000000\<rparr>"]
    by (simp add: MAX_PENDING_REQUESTS_def MAX_PENDING_PER_SESSION_def)
qed

theorem capacity_evicts_granted_witness:
  "get_request [] (fst (make_room (demo_pending 1024 (RGranted (demo_token 1 ''c'' Read) Once) (RDenied []))
     (demo_host\<lparr>wall_clock := \<lambda>_. 1000\<rparr>))) = None"
proof (rule capacity_evicts_granted[OF demo_pending_wf])
  let ?st = "RGranted (demo_token 1 ''c'' Read) Once"
  show "MAX_PENDING_REQUESTS \<le> length (pend_requests (demo_pending 1024 ?st (RDenied [])))"
    by (simp add: demo_pending_def MAX_PENDING_REQUESTS_def Let_def)
  show "get_request [] (demo_pending 1024 ?st (RDenied [])) = Some (demo_request [] ?st)"
    using demo_pending_get[of 0 1024 ?st "RDenied []"] by (simp add: get_request_def)
  show "request_is_granted (demo_request [] ?st)" by (simp add: demo_request_def request_is_granted_def)
  show "\<forall>n. wall_clock (demo_host\<lparr>wall_clock := \<lambda>_. 1000\<rparr>) n = 1000" by simp
  show "unix_secs (req_requested_at (demo_request [] ?st)) < 1000" by (simp add: demo_request_def)
qed

end
