(* ===== verification/Policy.thy ===== *)
theory Policy
  imports Pending Resource_Scope
begin

section \<open>Policy verifiers and the evaluator\<close>

text \<open>
  \<^verbatim>\<open>elastos-runtime/src/capability/policy.rs\<close> and \<^verbatim>\<open>evaluator.rs\<close>: proposals, rules, the
  three verifiers, and the service that runs a real and a shadow verifier and audits both.
  The trait \<^verbatim>\<open>PolicyVerifier\<close> is the locale \<open>policy_verifier\<close>; the verifiers of the code
  are its interpretations. An \<^verbatim>\<open>f32\<close> is its bit pattern.
\<close>

unbundle bit_operations_syntax

subsection \<open>Single-precision numbers\<close>

definition f32_nan :: "f32 \<Rightarrow> bool" where
  "f32_nan x = (x AND 0x7FFFFFFF > 0x7F800000)"

text \<open>The order of the numbers that are not NaN, as integers; both zeros are \<open>0\<close>.\<close>

definition f32_key :: "f32 \<Rightarrow> int" where
  "f32_key x = (if x AND 0x80000000 = 0 then uint (x AND 0x7FFFFFFF) else - uint (x AND 0x7FFFFFFF))"

definition f32_lt :: "f32 \<Rightarrow> f32 \<Rightarrow> bool" where
  "f32_lt x y = (\<not> f32_nan x \<and> \<not> f32_nan y \<and> f32_key x < f32_key y)"

definition f32_clamp :: "f32 \<Rightarrow> f32 \<Rightarrow> f32 \<Rightarrow> f32" where
  "f32_clamp lo hi x = (let x = (if f32_lt x lo then lo else x) in if f32_lt hi x then hi else x)"

definition f32_one :: f32 where
  "f32_one = 0x3F800000"

definition f32_half :: f32 where
  "f32_half = 0x3F000000"

text \<open>\<^verbatim>\<open>{:.2}\<close>: the exact value in hundredths, rounded half to even.\<close>

definition round_half_even :: "nat \<Rightarrow> nat \<Rightarrow> nat" where
  "round_half_even n d = (let q = n div d; r = n mod d in
     if 2 * r > d \<or> (2 * r = d \<and> odd q) then q + 1 else q)"

definition f32_hundredths :: "f32 \<Rightarrow> nat" where
  "f32_hundredths x =
     (let e = unat (drop_bit 23 x AND 0xFF); m = unat (x AND 0x7FFFFF);
          m = (if e = 0 then m else m + 2 ^ 23); e = (if e = 0 then 1 else e)
      in if e \<ge> 150 then 100 * m * 2 ^ (e - 150) else round_half_even (100 * m) (2 ^ (150 - e)))"

definition f32_show2 :: "f32 \<Rightarrow> string" where
  "f32_show2 x =
     (if f32_nan x then ''NaN''
      else (if x AND 0x80000000 = 0 then [] else ''-'') @
        (if x AND 0x7FFFFFFF = 0x7F800000 then ''inf''
         else (let h = f32_hundredths x in dec_of_nat (h div 100) @ ''.''
           @ dec_of_nat (h div 10 mod 10) @ dec_of_nat (h mod 10))))"

subsection \<open>Types\<close>

datatype policy_outcome = Grant | Deny | Defer

fun policy_outcome_display :: "policy_outcome \<Rightarrow> string" where
  "policy_outcome_display Grant = ''grant''"
| "policy_outcome_display Deny = ''deny''"
| "policy_outcome_display Defer = ''defer''"

datatype check_severity = Blocking | Advisory

fun check_severity_display :: "check_severity \<Rightarrow> string" where
  "check_severity_display Blocking = ''blocking''"
| "check_severity_display Advisory = ''advisory''"

datatype evidence_type = RuntimeCheck | UserConfirm | HistoryMatch | PolicyRuleEvidence

fun evidence_type_display :: "evidence_type \<Rightarrow> string" where
  "evidence_type_display RuntimeCheck = ''runtime_check''"
| "evidence_type_display UserConfirm = ''user_confirm''"
| "evidence_type_display HistoryMatch = ''history_match''"
| "evidence_type_display PolicyRuleEvidence = ''policy_rule''"

record proposed_constraints =
  pc_resource_scope :: "string option"
  pc_ttl_secs :: "u64 option"
  pc_max_uses :: "u32 option"
  pc_delegatable :: bool
  pc_max_classification :: "u8 option"

definition proposed_constraints_default :: proposed_constraints where
  "proposed_constraints_default = \<lparr>pc_resource_scope = None, pc_ttl_secs = None, pc_max_uses = None,
     pc_delegatable = False, pc_max_classification = None\<rparr>"

record grant_proposal =
  gp_request_id :: string
  gp_recommended_outcome :: policy_outcome
  gp_proposed_constraints :: proposed_constraints
  gp_rationale :: string
  gp_confidence :: f32
  gp_evidence_gaps :: "string list"
  gp_created_at :: secure_timestamp

definition clamp_confidence :: "f32 \<Rightarrow> f32" where
  "clamp_confidence v = f32_clamp 0 f32_one v"

definition grant_proposal_new ::
    "string \<Rightarrow> policy_outcome \<Rightarrow> proposed_constraints \<Rightarrow> string \<Rightarrow> f32 \<Rightarrow> string list
     \<Rightarrow> 'a env_scheme \<Rightarrow> grant_proposal \<times> 'a env_scheme" where
  "grant_proposal_new rid outcome constraints rationale confidence gaps e =
     (let (now, e) = ts_now e
      in (\<lparr>gp_request_id = rid, gp_recommended_outcome = outcome,
           gp_proposed_constraints = constraints, gp_rationale = rationale,
           gp_confidence = clamp_confidence confidence, gp_evidence_gaps = gaps,
           gp_created_at = now\<rparr>, e))"

record verifier_check =
  vc_name :: string
  vc_passed :: bool
  vc_reason :: string
  vc_severity :: check_severity

record policy_decision =
  pd_id :: string
  pd_request_id :: string
  pd_resource :: string
  pd_action :: string
  pd_outcome :: policy_outcome
  pd_checks :: "verifier_check list"
  pd_effective_constraints :: proposed_constraints
  pd_effective_expiry :: "secure_timestamp option"
  pd_rationale :: string
  pd_decided_at :: secure_timestamp
  pd_shadow :: bool

record evidence_record =
  ev_decision_id :: string
  ev_type :: evidence_type
  ev_source :: string
  ev_content :: string
  ev_recorded_at :: secure_timestamp
  ev_confidence_delta :: f32

record turn_plan =
  tp_request_id :: string
  tp_intent :: string
  tp_objective :: string
  tp_evidence_gaps :: "string list"
  tp_recommended_action :: policy_outcome
  tp_compiled_at :: secure_timestamp

subsection \<open>The fields every verifier fills alike\<close>

text \<open>A new identifier, the snapshot of the request and the time of the decision.\<close>

definition decide ::
    "pending_request \<Rightarrow> policy_outcome \<Rightarrow> verifier_check list \<Rightarrow> proposed_constraints \<Rightarrow> string \<Rightarrow> bool
     \<Rightarrow> 'a env_scheme \<Rightarrow> policy_decision \<times> 'a env_scheme" where
  "decide request outcome chks constraints rationale shadow e =
     (let (i, e) = draw_uuid_string e; (now, e) = ts_now e
      in (\<lparr>pd_id = i, pd_request_id = req_id request, pd_resource = as_str (req_resource request),
           pd_action = action_display (req_action request), pd_outcome = outcome, pd_checks = chks,
           pd_effective_constraints = constraints, pd_effective_expiry = None,
           pd_rationale = rationale, pd_decided_at = now, pd_shadow = shadow\<rparr>, e))"

definition auto_grant_verify ::
    "pending_request \<Rightarrow> grant_proposal \<Rightarrow> bool \<Rightarrow> 'a env_scheme \<Rightarrow> policy_decision \<times> 'a env_scheme" where
  "auto_grant_verify request proposal shadow e =
     decide request Grant
       [\<lparr>vc_name = ''auto_grant'', vc_passed = True,
         vc_reason = ''Auto-grant verifier: unconditional grant'', vc_severity = Advisory\<rparr>]
       proposed_constraints_default ''Auto-grant: all requests approved'' shadow e"

definition shell_passthrough_verify ::
    "pending_request \<Rightarrow> grant_proposal \<Rightarrow> bool \<Rightarrow> 'a env_scheme \<Rightarrow> policy_decision \<times> 'a env_scheme" where
  "shell_passthrough_verify request proposal shadow e =
     decide request (gp_recommended_outcome proposal)
       [\<lparr>vc_name = ''shell_passthrough'', vc_passed = True,
         vc_reason = gp_rationale proposal, vc_severity = Advisory\<rparr>]
       proposed_constraints_default (gp_rationale proposal) shadow e"

subsection \<open>Rules\<close>

datatype rule_check =
    ResourceBlocklist "string list"
  | ActionBlocklist "action list"
  | ConfidenceThreshold f32
  | MaxTtlSecs u64
  | NoDelegation
  | ScopeNarrowing string string

record policy_rule =
  pr_name :: string
  pr_check :: rule_check
  pr_severity :: check_severity

definition evaluate_rule :: "policy_rule \<Rightarrow> pending_request \<Rightarrow> grant_proposal \<Rightarrow> bool \<times> string" where
  "evaluate_rule rule request proposal = (case pr_check rule of
     ResourceBlocklist blocked_segments \<Rightarrow>
       (let segs = split_on CHR ''/'' (as_str (req_resource request))
        in case List.find (\<lambda>b. b \<in> set segs) blocked_segments of
             Some s \<Rightarrow> (False, ''resource contains blocked segment: '' @ s)
           | None \<Rightarrow> (True, ''no blocklist match''))
   | ActionBlocklist actions \<Rightarrow>
       if req_action request \<in> set actions
       then (False, action_display (req_action request) @ '' action denied by policy'')
       else (True, action_display (req_action request) @ '' action allowed'')
   | ConfidenceThreshold min_conf \<Rightarrow>
       if f32_lt (gp_confidence proposal) min_conf
       then (False, ''confidence '' @ f32_show2 (gp_confidence proposal) @ '' below threshold '' @ f32_show2 min_conf)
       else (True, ''confidence '' @ f32_show2 (gp_confidence proposal) @ '' meets threshold'')
   | MaxTtlSecs max_ttl \<Rightarrow> (case pc_ttl_secs (gp_proposed_constraints proposal) of
       Some ttl \<Rightarrow> if ttl > max_ttl
         then (False, ''proposed TTL '' @ show_u64 ttl @ ''s exceeds max '' @ show_u64 max_ttl @ ''s'')
         else (True, ''TTL within limits'')
     | None \<Rightarrow> (True, ''TTL within limits''))
   | NoDelegation \<Rightarrow>
       if pc_delegatable (gp_proposed_constraints proposal)
       then (False, ''delegation not permitted by policy'') else (True, ''not delegatable'')
   | ScopeNarrowing from_pattern to_scope \<Rightarrow>
       (let res = as_str (req_resource request); broad = ResourceId from_pattern; actual = ResourceId res
        in if \<not> matches actual broad then (True, ''pattern not applicable'')
           else (let narrow = ResourceId to_scope
             in if matches actual narrow then (True, ''scope already narrow'')
                else (False, ''broad scope '' @ res @ '' should be narrowed to '' @ to_scope))))"

definition default_rules :: "policy_rule list" where
  "default_rules =
    [\<lparr>pr_name = ''resource_blocklist'',
      pr_check = ResourceBlocklist [''admin'', ''config'', ''.ssh'', ''.keys''], pr_severity = Blocking\<rparr>,
     \<lparr>pr_name = ''action_blocklist'', pr_check = ActionBlocklist [Admin], pr_severity = Blocking\<rparr>,
     \<lparr>pr_name = ''confidence_threshold'', pr_check = ConfidenceThreshold f32_half, pr_severity = Advisory\<rparr>,
     \<lparr>pr_name = ''max_ttl'', pr_check = MaxTtlSecs 86400, pr_severity = Advisory\<rparr>,
     \<lparr>pr_name = ''no_delegation'', pr_check = NoDelegation, pr_severity = Advisory\<rparr>]"

text \<open>The loop over the rules, with the checks and the reasons of the blocking failures so far.\<close>

fun run_rules ::
    "policy_rule list \<Rightarrow> pending_request \<Rightarrow> grant_proposal \<Rightarrow> verifier_check list \<Rightarrow> string list
     \<Rightarrow> verifier_check list \<times> string list" where
  "run_rules [] request proposal chks blocking = (chks, blocking)"
| "run_rules (rule # rules) request proposal chks blocking =
     (let (passed, reason) = evaluate_rule rule request proposal;
          blocking = (if \<not> passed \<and> pr_severity rule = Blocking then blocking @ [reason] else blocking);
          chks = chks @ [\<lparr>vc_name = pr_name rule, vc_passed = passed, vc_reason = reason,
            vc_severity = pr_severity rule\<rparr>]
      in run_rules rules request proposal chks blocking)"

definition rules_verify ::
    "policy_rule list \<Rightarrow> pending_request \<Rightarrow> grant_proposal \<Rightarrow> bool \<Rightarrow> 'a env_scheme
     \<Rightarrow> policy_decision \<times> 'a env_scheme" where
  "rules_verify rules request proposal shadow e =
     (let (chks, blocking) = run_rules rules request proposal [] [];
          advisory = map vc_reason (filter (\<lambda>c. \<not> vc_passed c \<and> vc_severity c = Advisory) chks);
          outcome = (if blocking \<noteq> [] \<or> gp_recommended_outcome proposal \<noteq> Grant then Deny else Grant);
          rationale = (if blocking \<noteq> [] then ''Blocked: '' @ join_with ''; '' blocking
            else if advisory \<noteq> [] then ''Advisory warnings ('' @ join_with ''; '' advisory
              @ ''); echoing proposal: '' @ gp_rationale proposal
            else ''All rules passed, echoing proposal: '' @ gp_rationale proposal)
      in decide request outcome chks (gp_proposed_constraints proposal) rationale shadow e)"

subsection \<open>The evaluator\<close>

type_synonym 'e verifier = "pending_request \<Rightarrow> grant_proposal \<Rightarrow> bool \<Rightarrow> 'e \<Rightarrow> policy_decision \<times> 'e"

definition emit_decision :: "bool \<Rightarrow> policy_decision \<Rightarrow> 'a host_scheme \<Rightarrow> 'a host_scheme" where
  "emit_decision shadow d h = policy_decision_made (pd_id d) (pd_request_id d)
     (policy_outcome_display (pd_outcome d)) (length (filter vc_passed (pd_checks d)))
     (length (filter (\<lambda>c. \<not> vc_passed c) (pd_checks d))) shadow (pd_rationale d) h"

definition run_shadow ::
    "'a host_scheme verifier option \<Rightarrow> pending_request \<Rightarrow> grant_proposal \<Rightarrow> policy_decision
     \<Rightarrow> 'a host_scheme \<Rightarrow> 'a host_scheme" where
  "run_shadow shadow request proposal decision h = (case shadow of None \<Rightarrow> h
     | Some verify \<Rightarrow>
       (let (sd, h) = verify request proposal True h;
            h = emit_decision True sd h
        in if pd_outcome decision \<noteq> pd_outcome sd
           then policy_divergence (req_id request) (pd_id decision) (pd_id sd)
             (policy_outcome_display (pd_outcome decision)) (policy_outcome_display (pd_outcome sd))
             (pd_rationale decision) (pd_rationale sd) h
           else h))"

definition evaluate ::
    "'a host_scheme verifier \<Rightarrow> 'a host_scheme verifier option \<Rightarrow> pending_request \<Rightarrow> policy_outcome
     \<Rightarrow> string \<Rightarrow> 'a host_scheme \<Rightarrow> policy_decision \<times> 'a host_scheme" where
  "evaluate verify shadow request shell_outcome rationale h =
     (let (proposal, h) = grant_proposal_new (req_id request) shell_outcome proposed_constraints_default
            rationale f32_one [] h;
          h = policy_proposal (req_id request) (policy_outcome_display shell_outcome) f32_one rationale h;
          (decision, h) = verify request proposal False h;
          h = emit_decision (pd_shadow decision) decision h;
          h = run_shadow shadow request proposal decision h
      in (decision, h))"

subsection \<open>The interface of a verifier\<close>

text \<open>
  What the evaluator relies on: a decision snapshots the request it was asked about and
  carries the flag it was given. A tightening verifier, moreover, grants only what the
  proposal grants.
\<close>

locale policy_verifier =
  fixes verify :: "pending_request \<Rightarrow> grant_proposal \<Rightarrow> bool \<Rightarrow> 'e \<Rightarrow> policy_decision \<times> 'e"
  assumes snapshot: "verify r p sh e = (d, e') \<Longrightarrow>
    pd_request_id d = req_id r \<and> pd_resource d = as_str (req_resource r)
    \<and> pd_action d = action_display (req_action r) \<and> pd_shadow d = sh"
begin

lemma decision_for_request: "pd_request_id (fst (verify r p sh e)) = req_id r"
  using snapshot[OF surjective_pairing] by blast

lemma decision_shadow_flag: "pd_shadow (fst (verify r p sh e)) = sh"
  using snapshot[OF surjective_pairing] by blast

end

locale tightening_verifier = policy_verifier +
  assumes tightens: "verify r p sh e = (d, e') \<Longrightarrow> pd_outcome d = Grant \<Longrightarrow> gp_recommended_outcome p = Grant"
begin

lemma never_loosens:
  "gp_recommended_outcome p \<noteq> Grant \<Longrightarrow> pd_outcome (fst (verify r p sh e)) \<noteq> Grant"
  using tightens[OF surjective_pairing] by blast

end

lemma decide_sel [simp]:
  "pd_request_id (fst (decide r out cs con why sh e)) = req_id r"
  "pd_resource (fst (decide r out cs con why sh e)) = as_str (req_resource r)"
  "pd_action (fst (decide r out cs con why sh e)) = action_display (req_action r)"
  "pd_shadow (fst (decide r out cs con why sh e)) = sh"
  "pd_outcome (fst (decide r out cs con why sh e)) = out"
  "pd_checks (fst (decide r out cs con why sh e)) = cs"
  "pd_rationale (fst (decide r out cs con why sh e)) = why"
  by (simp_all add: decide_def draw_uuid_string_def ts_now_eq)

lemma decide_buffer [simp]: "audit_buffer (snd (decide r out cs con why sh h)) = audit_buffer h"
  by (simp add: decide_def draw_uuid_string_def ts_now_eq)

lemma rules_verify_decide:
  "\<exists>why. rules_verify rules r p sh e = decide r
      (if snd (run_rules rules r p [] []) \<noteq> [] \<or> gp_recommended_outcome p \<noteq> Grant then Deny else Grant)
      (fst (run_rules rules r p [] [])) (gp_proposed_constraints p) why sh e"
  by (simp add: rules_verify_def split_def Let_def) blast

interpretation auto_grant: policy_verifier auto_grant_verify
proof
  fix r p sh d and e e' :: "'e env_scheme"
  assume "auto_grant_verify r p sh e = (d, e')"
  then have "d = fst (auto_grant_verify r p sh e)" by simp
  then show "pd_request_id d = req_id r \<and> pd_resource d = as_str (req_resource r)
      \<and> pd_action d = action_display (req_action r) \<and> pd_shadow d = sh"
    by (simp add: auto_grant_verify_def)
qed

interpretation passthrough: tightening_verifier shell_passthrough_verify
proof
  fix r p sh d and e e' :: "'e env_scheme"
  assume "shell_passthrough_verify r p sh e = (d, e')"
  then have d: "d = fst (shell_passthrough_verify r p sh e)" by simp
  then show "pd_request_id d = req_id r \<and> pd_resource d = as_str (req_resource r)
      \<and> pd_action d = action_display (req_action r) \<and> pd_shadow d = sh"
    by (simp add: shell_passthrough_verify_def)
  show "gp_recommended_outcome p = Grant" if "pd_outcome d = Grant"
    using that d by (simp add: shell_passthrough_verify_def)
qed

interpretation rules: tightening_verifier "rules_verify rs" for rs
proof
  fix r p sh d and e e' :: "'e env_scheme"
  assume "rules_verify rs r p sh e = (d, e')"
  then have d: "d = fst (rules_verify rs r p sh e)" by simp
  obtain why where v: "rules_verify rs r p sh e = decide r
      (if snd (run_rules rs r p [] []) \<noteq> [] \<or> gp_recommended_outcome p \<noteq> Grant then Deny else Grant)
      (fst (run_rules rs r p [] [])) (gp_proposed_constraints p) why sh e"
    using rules_verify_decide by blast
  show "pd_request_id d = req_id r \<and> pd_resource d = as_str (req_resource r)
      \<and> pd_action d = action_display (req_action r) \<and> pd_shadow d = sh"
    unfolding d v by simp
  show "gp_recommended_outcome p = Grant" if "pd_outcome d = Grant"
    using that unfolding d v by (simp split: if_splits)
qed

subsection \<open>Lemmas on rules\<close>

definition rule_passes :: "policy_rule \<Rightarrow> pending_request \<Rightarrow> grant_proposal \<Rightarrow> bool" where
  "rule_passes rule r p = fst (evaluate_rule rule r p)"

lemma run_rules_eq:
  "run_rules rs r p cs bs =
    (cs @ map (\<lambda>u. \<lparr>vc_name = pr_name u, vc_passed = rule_passes u r p,
        vc_reason = snd (evaluate_rule u r p), vc_severity = pr_severity u\<rparr>) rs,
     bs @ map (\<lambda>u. snd (evaluate_rule u r p))
        (filter (\<lambda>u. \<not> rule_passes u r p \<and> pr_severity u = Blocking) rs))"
  by (induction rs arbitrary: cs bs) (auto simp: rule_passes_def split_def Let_def)

lemma blocklist_passes:
  assumes "pr_check u = ResourceBlocklist bs"
  shows "rule_passes u r p \<longleftrightarrow> (\<forall>b \<in> set bs. b \<notin> set (split_on CHR ''/'' (as_str (req_resource r))))"
proof -
  let ?f = "List.find (\<lambda>b. b \<in> set (split_on CHR ''/'' (as_str (req_resource r)))) bs"
  have "rule_passes u r p \<longleftrightarrow> ?f = None"
    using assms by (cases ?f) (simp_all add: rule_passes_def evaluate_rule_def Let_def)
  then show ?thesis by (auto simp: find_None_iff)
qed

lemma action_blocklist_passes:
  "pr_check u = ActionBlocklist as \<Longrightarrow> rule_passes u r p \<longleftrightarrow> req_action r \<notin> set as"
  by (simp add: rule_passes_def evaluate_rule_def)

lemma rules_verify_outcome:
  "pd_outcome (fst (rules_verify rs r p sh e)) =
    (if gp_recommended_outcome p = Grant \<and> (\<forall>u \<in> set rs. pr_severity u = Blocking \<longrightarrow> rule_passes u r p)
     then Grant else Deny)"
proof -
  obtain why where v: "rules_verify rs r p sh e = decide r
      (if snd (run_rules rs r p [] []) \<noteq> [] \<or> gp_recommended_outcome p \<noteq> Grant then Deny else Grant)
      (fst (run_rules rs r p [] [])) (gp_proposed_constraints p) why sh e"
    using rules_verify_decide by blast
  show ?thesis unfolding v by (auto simp: run_rules_eq filter_empty_conv)
qed

lemma evaluate_eq:
  fixes h :: "'a host_scheme"
  obtains p h1 where "gp_recommended_outcome p = out" "gp_request_id p = req_id r" "gp_confidence p = f32_one"
    "audit_buffer h1 = push_event (PolicyProposal
        (fst (ts_now (snd (ts_now h)))) (req_id r) (policy_outcome_display out) f32_one why) (audit_buffer h)"
    "\<And>sh. evaluate V sh r out why h = (fst (V r p False h1),
        run_shadow sh r p (fst (V r p False h1))
          (emit_decision (pd_shadow (fst (V r p False h1))) (fst (V r p False h1)) (snd (V r p False h1))))"
proof -
  define g where "g = grant_proposal_new (req_id r) out proposed_constraints_default why f32_one [] h"
  let ?h1 = "policy_proposal (req_id r) (policy_outcome_display out) f32_one why (snd g)"
  have "clamp_confidence f32_one = f32_one" by code_simp
  then have "gp_recommended_outcome (fst g) = out" "gp_request_id (fst g) = req_id r"
    "gp_confidence (fst g) = f32_one"
    by (simp_all add: g_def grant_proposal_new_def ts_now_eq)
  moreover have "audit_buffer ?h1 = push_event (PolicyProposal
        (fst (ts_now (snd (ts_now h)))) (req_id r) (policy_outcome_display out) f32_one why) (audit_buffer h)"
    by (simp add: g_def grant_proposal_new_def policy_proposal_def ts_now_eq)
  moreover have "evaluate V sh r out why h = (fst (V r (fst g) False ?h1),
        run_shadow sh r (fst g) (fst (V r (fst g) False ?h1))
          (emit_decision (pd_shadow (fst (V r (fst g) False ?h1))) (fst (V r (fst g) False ?h1))
            (snd (V r (fst g) False ?h1))))" for sh
    by (simp add: evaluate_def g_def split_def Let_def)
  ultimately show ?thesis using that by blast
qed

text \<open>The evaluator inherits what its verifier promises.\<close>

lemma evaluate_tightens:
  fixes h :: "'a host_scheme"
  assumes "\<And>p e. gp_recommended_outcome p \<noteq> Grant \<Longrightarrow> pd_outcome (fst (V r p False e)) \<noteq> Grant"
    and "pd_outcome (fst (evaluate V sh r out why h)) = Grant"
  shows "out = Grant"
proof (rule evaluate_eq[of out r h why V])
  fix p h1
  assume "gp_recommended_outcome p = out" "\<And>sh. evaluate V sh r out why h = (fst (V r p False h1),
        run_shadow sh r p (fst (V r p False h1))
          (emit_decision (pd_shadow (fst (V r p False h1))) (fst (V r p False h1)) (snd (V r p False h1))))"
  then show ?thesis using assms(1)[of p h1] assms(2) by auto
qed

lemma evaluate_request:
  fixes h :: "'a host_scheme"
  assumes "\<And>p e. pd_request_id (fst (V r p False e)) = req_id r"
  shows "pd_request_id (fst (evaluate V sh r out why h)) = req_id r"
  by (rule evaluate_eq[of out r h why V]) (simp add: assms)

subsection \<open>Properties\<close>

text \<open>
  Property C15. The rules verifier grants exactly when the proposal recommends a grant and no
  blocking rule fails; every other proposal, a deferral included, is denied, and advisory
  failures are recorded as checks without changing the outcome.
\<close>

theorem rules_only_tighten:
  "pd_outcome (fst (rules_verify rs r p sh e)) =
    (if gp_recommended_outcome p = Grant \<and> (\<forall>u \<in> set rs. pr_severity u = Blocking \<longrightarrow> rule_passes u r p)
     then Grant else Deny)
   \<and> map vc_passed (pd_checks (fst (rules_verify rs r p sh e))) = map (\<lambda>u. rule_passes u r p) rs"
proof -
  obtain why where v: "rules_verify rs r p sh e = decide r
      (if snd (run_rules rs r p [] []) \<noteq> [] \<or> gp_recommended_outcome p \<noteq> Grant then Deny else Grant)
      (fst (run_rules rs r p [] [])) (gp_proposed_constraints p) why sh e"
    using rules_verify_decide by blast
  have "map vc_passed (pd_checks (fst (rules_verify rs r p sh e))) = map (\<lambda>u. rule_passes u r p) rs"
    unfolding v by (simp add: run_rules_eq comp_def)
  then show ?thesis by (simp add: rules_verify_outcome)
qed

definition demo_proposal :: "policy_outcome \<Rightarrow> grant_proposal" where
  "demo_proposal out = \<lparr>gp_request_id = ''q'', gp_recommended_outcome = out,
     gp_proposed_constraints = proposed_constraints_default, gp_rationale = ''why'',
     gp_confidence = f32_one, gp_evidence_gaps = [], gp_created_at = Timestamp 10 1\<rparr>"

theorem rules_only_tighten_witness:
  "pd_outcome (fst (rules_verify [] (demo_request ''q'' RPending) (demo_proposal Defer) False demo_host)) = Deny"
  using rules_only_tighten[of "[]" "demo_request ''q'' RPending" "demo_proposal Defer" False demo_host]
  by (simp add: demo_proposal_def)

text \<open>
  The default rules never grant the action \<^verbatim>\<open>Admin\<close>, nor a resource one of whose
  path segments is \<^verbatim>\<open>admin\<close>, \<^verbatim>\<open>config\<close>, \<^verbatim>\<open>.ssh\<close> or \<^verbatim>\<open>.keys\<close>, whatever the proposal says.
\<close>

theorem default_rules_block:
  assumes "req_action r = Admin
    \<or> (\<exists>b \<in> {''admin'', ''config'', ''.ssh'', ''.keys''}. b \<in> set (split_on CHR ''/'' (as_str (req_resource r))))"
  shows "pd_outcome (fst (rules_verify default_rules r p sh e)) = Deny"
proof -
  have "\<exists>u \<in> set default_rules. pr_severity u = Blocking \<and> \<not> rule_passes u r p"
    using assms
  proof
    assume "req_action r = Admin"
    then show ?thesis
      by (intro bexI[of _ "default_rules ! 1"])
        (simp_all add: default_rules_def action_blocklist_passes[of _ "[Admin]"])
  next
    assume "\<exists>b \<in> {''admin'', ''config'', ''.ssh'', ''.keys''}. b \<in> set (split_on CHR ''/'' (as_str (req_resource r)))"
    then show ?thesis
      by (intro bexI[of _ "default_rules ! 0"])
        (auto simp: default_rules_def blocklist_passes[of _ "[''admin'', ''config'', ''.ssh'', ''.keys'']"])
  qed
  then show ?thesis by (auto simp: rules_verify_outcome)
qed

theorem default_rules_block_witness:
  "pd_outcome (fst (rules_verify default_rules
     (demo_request ''q'' RPending\<lparr>req_resource := ResourceId ''localhost://Users/me/.ssh/id''\<rparr>)
     (demo_proposal Grant) False demo_host)) = Deny"
proof (rule default_rules_block)
  have "''.ssh'' \<in> set (split_on CHR ''/'' ''localhost://Users/me/.ssh/id'')" by code_simp
  then show "req_action (demo_request ''q'' RPending\<lparr>req_resource := ResourceId ''localhost://Users/me/.ssh/id''\<rparr>) = Admin
    \<or> (\<exists>b \<in> {''admin'', ''config'', ''.ssh'', ''.keys''}. b \<in> set (split_on CHR ''/''
        (as_str (req_resource (demo_request ''q'' RPending\<lparr>req_resource := ResourceId ''localhost://Users/me/.ssh/id''\<rparr>)))))"
    by (simp del: split_on.simps)
qed

text \<open>
  The blocklist looks at the pattern, not at what it covers: the default rules
  grant a request for the pattern \<^verbatim>\<open>localhost://*\<close>, and a token for it reaches resources with
  each of the blocked segments.
\<close>

theorem blocklist_misses_wildcards:
  assumes "req_resource r = ResourceId ''localhost://*''" and "req_action r \<noteq> Admin"
    and "gp_recommended_outcome p = Grant"
  shows "pd_outcome (fst (rules_verify default_rules r p sh e)) = Grant
    \<and> (\<forall>b \<in> {''admin'', ''config'', ''.ssh'', ''.keys''}. \<exists>x. matches x (req_resource r)
         \<and> b \<in> set (split_on CHR ''/'' (as_str x)))"
proof -
  have "\<forall>b \<in> {''admin'', ''config'', ''.ssh'', ''.keys''}. b \<notin> set (split_on CHR ''/'' ''localhost://*'')"
    by code_simp
  then have "pd_outcome (fst (rules_verify default_rules r p sh e)) = Grant"
    unfolding rules_verify_outcome using assms
    by (simp add: default_rules_def blocklist_passes[of _ "[''admin'', ''config'', ''.ssh'', ''.keys'']"]
        action_blocklist_passes[of _ "[Admin]"] del: split_on.simps)
  moreover have "\<forall>b \<in> set [''admin'', ''config'', ''.ssh'', ''.keys'']. matches (ResourceId (''localhost://'' @ b)) (ResourceId ''localhost://*'')
       \<and> b \<in> set (split_on CHR ''/'' (''localhost://'' @ b))"
    by code_simp
  then have "\<exists>x. matches x (req_resource r) \<and> b \<in> set (split_on CHR ''/'' (as_str x))"
    if "b \<in> {''admin'', ''config'', ''.ssh'', ''.keys''}" for b
    using that assms(1)
    by (intro exI[of _ "ResourceId (''localhost://'' @ b)"]) (auto simp del: split_on.simps append_Cons)
  ultimately show ?thesis by blast
qed

theorem blocklist_misses_wildcards_witness:
  "pd_outcome (fst (rules_verify default_rules
     (demo_request ''q'' RPending\<lparr>req_resource := ResourceId ''localhost://*''\<rparr>)
     (demo_proposal Grant) False demo_host)) = Grant"
  using blocklist_misses_wildcards[of "demo_request ''q'' RPending\<lparr>req_resource := ResourceId ''localhost://*''\<rparr>"
      "demo_proposal Grant" False demo_host]
  by (simp add: demo_request_def demo_proposal_def)

text \<open>
  A confidence that is not a number passes every threshold: clamping keeps NaN,
  and no comparison with it is true, so the check for too little confidence is silent
  exactly where the confidence is meaningless; every other confidence is clamped to [0, 1].
\<close>

theorem nan_confidence_passes:
  assumes "pr_check u = ConfidenceThreshold least"
  shows "(f32_nan c \<longrightarrow> rule_passes u r (fst (grant_proposal_new rid out con why c gaps e)))
    \<and> (\<not> f32_nan c \<longrightarrow> \<not> f32_lt (clamp_confidence c) 0 \<and> \<not> f32_lt f32_one (clamp_confidence c))"
proof -
  have one: "\<not> f32_nan f32_one" "\<not> f32_nan 0" "f32_key 0 < f32_key f32_one" by code_simp+
  have "f32_nan c \<Longrightarrow> f32_nan (clamp_confidence c)"
    by (simp add: clamp_confidence_def f32_clamp_def f32_lt_def Let_def)
  then have "f32_nan c \<Longrightarrow> rule_passes u r (fst (grant_proposal_new rid out con why c gaps e))"
    using assms by (simp add: rule_passes_def evaluate_rule_def grant_proposal_new_def ts_now_eq f32_lt_def)
  moreover have "\<not> f32_lt (clamp_confidence c) 0 \<and> \<not> f32_lt f32_one (clamp_confidence c)" if "\<not> f32_nan c"
    using one that by (simp add: clamp_confidence_def f32_clamp_def f32_lt_def Let_def)
  ultimately show ?thesis by blast
qed

theorem nan_confidence_passes_witness:
  "rule_passes (default_rules ! 2) (demo_request ''q'' RPending)
     (fst (grant_proposal_new ''q'' Grant proposed_constraints_default [] 0x7FC00000 [] demo_host))"
proof -
  have "f32_nan 0x7FC00000" by code_simp
  moreover have "pr_check (default_rules ! 2) = ConfidenceThreshold f32_half" by (simp add: default_rules_def)
  ultimately show ?thesis using nan_confidence_passes by blast
qed

text \<open>
  The evaluator enforces the real verifier alone: whatever shadow verifier runs
  beside it, the decision is the same, it is about the request, and with the rules verifier
  or the pass-through it is a grant only if the shell's own outcome was.
\<close>

theorem shadow_is_not_enforced:
  fixes h :: "'a host_scheme"
  shows "fst (evaluate V (Some S) r out why h) = fst (evaluate V None r out why h)
    \<and> (pd_outcome (fst (evaluate (rules_verify rs) sh r out why h)) = Grant \<longrightarrow> out = Grant)
    \<and> pd_request_id (fst (evaluate (rules_verify rs) sh r out why h)) = req_id r
    \<and> (pd_outcome (fst (evaluate shell_passthrough_verify sh r out why h)) = Grant \<longrightarrow> out = Grant)"
proof -
  have a: "fst (evaluate V (Some S) r out why h) = fst (evaluate V None r out why h)"
    by (rule evaluate_eq[of out r h why V]) simp
  show ?thesis
    using a evaluate_tightens[of "rules_verify rs" r sh out why h, OF rules.never_loosens]
      evaluate_request[of "rules_verify rs" r sh out why h, OF rules.decision_for_request]
      evaluate_tightens[of shell_passthrough_verify r sh out why h, OF passthrough.never_loosens]
    by simp
qed

theorem shadow_is_not_enforced_witness:
  "pd_outcome (fst (evaluate (rules_verify default_rules) (Some auto_grant_verify)
     (demo_request ''q'' RPending) Deny ''why'' demo_host)) \<noteq> Grant"
  using shadow_is_not_enforced[where out = Deny and rs = default_rules and sh = "Some auto_grant_verify"
      and r = "demo_request ''q'' RPending" and why = "''why''" and h = demo_host] by blast

text \<open>
  A disagreement is always audited: with a rules verifier enforced and the
  auto-grant verifier in its shadow, a divergence event is the newest in the log exactly
  when the enforced outcome is not a grant.
\<close>

theorem divergence_is_audited:
  fixes h :: "'a host_scheme"
  shows "(\<exists>t a b c d e f. last (audit_buffer (snd (evaluate (rules_verify rs) (Some auto_grant_verify) r out why h)))
       = PolicyDivergence t (req_id r) a b c d e f)
    \<longleftrightarrow> pd_outcome (fst (evaluate (rules_verify rs) (Some auto_grant_verify) r out why h)) \<noteq> Grant"
proof (rule evaluate_eq[of out r h why "rules_verify rs"])
  fix p h1
  assume ev0: "\<And>sh. evaluate (rules_verify rs) sh r out why h = (fst (rules_verify rs r p False h1),
        run_shadow sh r p (fst (rules_verify rs r p False h1))
          (emit_decision (pd_shadow (fst (rules_verify rs r p False h1))) (fst (rules_verify rs r p False h1))
            (snd (rules_verify rs r p False h1))))"
  note ev = ev0[of "Some auto_grant_verify"]
  show ?thesis
    unfolding ev
    by (simp add: run_shadow_def split_def Let_def auto_grant_verify_def emit_decision_def
        policy_decision_made_def policy_divergence_def ts_now_eq)
qed

end
