(* ===== verification/Messaging.thy ===== *)
theory Messaging
  imports Cap_Manager
begin

section \<open>Messages between capsules\<close>

text \<open>
  \<^verbatim>\<open>elastos-runtime/src/messaging/channel.rs\<close>: the inboxes, the checks of \<^verbatim>\<open>send\<close>, and
  receiving. The channel's own state is beside the \<open>runtime\<close> record, which holds the
  metrics, the store and the audit log it shares with the capability manager. The
  notification channel of an inbox is the number of its unread notifications, at most 100;
  its receiver is taken to be alive.
\<close>

definition MAX_MESSAGE_SIZE :: nat where
  "MAX_MESSAGE_SIZE = 1024 * 1024"

definition MAX_QUEUE_SIZE :: nat where
  "MAX_QUEUE_SIZE = 1000"

definition NOTIFY_CAPACITY :: nat where
  "NOTIFY_CAPACITY = 100"

datatype message_id = MessageId (message_id_bytes: bytes)

record msg =
  msg_id :: message_id
  msg_from :: string
  msg_to :: string
  msg_payload :: bytes
  msg_timestamp :: secure_timestamp
  msg_reply_to :: "message_id option"

definition message_id_new :: "'a env_scheme \<Rightarrow> message_id \<times> 'a env_scheme" where
  "message_id_new e = (let (b, e) = draw_uuid_bytes e in (MessageId b, e))"

definition message_id_display :: "externals \<Rightarrow> message_id \<Rightarrow> string" where
  "message_id_display X i = hex_encode X (message_id_bytes i)"

definition message_new :: "string \<Rightarrow> string \<Rightarrow> bytes \<Rightarrow> 'a env_scheme \<Rightarrow> msg \<times> 'a env_scheme" where
  "message_new sender to payload e =
     (let (i, e) = message_id_new e; (now, e) = ts_now e
      in (\<lparr>msg_id = i, msg_from = sender, msg_to = to, msg_payload = payload, msg_timestamp = now,
           msg_reply_to = None\<rparr>, e))"

definition message_reply :: "msg \<Rightarrow> string \<Rightarrow> bytes \<Rightarrow> 'a env_scheme \<Rightarrow> msg \<times> 'a env_scheme" where
  "message_reply original sender payload e =
     (let (i, e) = message_id_new e; (now, e) = ts_now e
      in (\<lparr>msg_id = i, msg_from = sender, msg_to = msg_from original, msg_payload = payload,
           msg_timestamp = now, msg_reply_to = Some (msg_id original)\<rparr>, e))"

definition message_size :: "msg \<Rightarrow> nat" where
  "message_size m = length (msg_payload m)"

datatype message_error =
    NotAuthorized
  | MessageTooLarge nat nat
  | QueueFull
  | DestinationNotFound
  | SenderNotRegistered
  | RateLimitExceeded

fun message_error_display :: "message_error \<Rightarrow> string" where
  "message_error_display NotAuthorized = ''not authorized to send message''"
| "message_error_display (MessageTooLarge n limit) =
     ''message too large: '' @ dec_of_nat n @ '' bytes (max '' @ dec_of_nat limit @ '')''"
| "message_error_display QueueFull = ''destination queue is full''"
| "message_error_display DestinationNotFound = ''destination capsule not found''"
| "message_error_display SenderNotRegistered = ''sender capsule not registered''"
| "message_error_display RateLimitExceeded = ''message rate limit exceeded''"

subsection \<open>The channel\<close>

record inbox =
  inbox_queue :: "msg list"
  inbox_notify :: nat

record channel =
  inboxes :: "(string, inbox) hmap"
  shell_id :: "string option"

definition channel_new :: channel where
  "channel_new = \<lparr>inboxes = [], shell_id = None\<rparr>"

definition set_shell_id :: "string \<Rightarrow> channel \<Rightarrow> channel" where
  "set_shell_id i C = C\<lparr>shell_id := Some i\<rparr>"

definition register_capsule :: "string \<Rightarrow> channel \<Rightarrow> channel" where
  "register_capsule c C =
     C\<lparr>inboxes := hm_insert c \<lparr>inbox_queue = [], inbox_notify = 0\<rparr> (inboxes C)\<rparr>"

definition unregister_capsule :: "string \<Rightarrow> channel \<Rightarrow> channel" where
  "unregister_capsule c C = C\<lparr>inboxes := hm_remove c (inboxes C)\<rparr>"

definition message_resource :: "string \<Rightarrow> resource_id" where
  "message_resource to = ResourceId (''elastos://message/'' @ to)"

text \<open>Pushing a message and notifying, unless the notification channel is full.\<close>

definition push_message :: "msg \<Rightarrow> inbox \<Rightarrow> inbox" where
  "push_message m b = b\<lparr>inbox_queue := inbox_queue b @ [m],
     inbox_notify := (if inbox_notify b < NOTIFY_CAPACITY then inbox_notify b + 1 else inbox_notify b)\<rparr>"

text \<open>From the lookup of the destination on.\<close>

definition deliver ::
    "msg \<Rightarrow> channel \<Rightarrow> 'a runtime_scheme \<Rightarrow> (message_error + message_id) \<times> channel \<times> 'a runtime_scheme" where
  "deliver m C s =
     (if \<not> hm_contains (inboxes C) (msg_to m) then (Inl DestinationNotFound, C, s)
      else if \<not> hm_contains (inboxes C) (msg_from m) then (Inl SenderNotRegistered, C, s)
      else
        (let full = (case hm_get (inboxes C) (msg_to m) of None \<Rightarrow> False
               | Some b \<Rightarrow> length (inbox_queue b) \<ge> MAX_QUEUE_SIZE)
         in if full then (Inl QueueFull, C, s)
            else
              (let C = C\<lparr>inboxes := hm_modify (msg_to m) (push_message m) (inboxes C)\<rparr>;
                   s = record_message_sent (msg_from m) s;
                   s = message_sent (msg_from m) (msg_to m) (message_size m) s
               in (Inr (msg_id m), C, s))))"

definition send ::
    "externals \<Rightarrow> cap_manager \<Rightarrow> msg \<Rightarrow> capability_token option \<Rightarrow> channel \<Rightarrow> 'a runtime_scheme
     \<Rightarrow> (message_error + message_id) \<times> channel \<times> 'a runtime_scheme" where
  "send X M m token C s =
     (if message_size m > MAX_MESSAGE_SIZE then
        (Inl (MessageTooLarge (message_size m) MAX_MESSAGE_SIZE), C, s)
      else if would_exceed_message_limit (msg_from m) s then (Inl RateLimitExceeded, C, s)
      else if shell_id C = Some (msg_from m) then deliver m C s
      else (case token of None \<Rightarrow> (Inl NotAuthorized, C, s)
        | Some t \<Rightarrow>
          (let (r, s) = validate X M t (msg_from m) Message (message_resource (msg_to m)) None s
           in case r of
             Inl e \<Rightarrow>
               (let s = security_warning ''message_capability_denied''
                  (''Capsule '' @ msg_from m @ '' denied messaging to '' @ msg_to m @ '': ''
                   @ validation_error_display e) s
                in (Inl NotAuthorized, C, s))
           | Inr _ \<Rightarrow> deliver m C s)))"

definition receive :: "string \<Rightarrow> channel \<Rightarrow> 'a meter_scheme \<Rightarrow> msg list \<times> channel \<times> 'a meter_scheme" where
  "receive c C s = (case hm_get (inboxes C) c of None \<Rightarrow> ([], C, s)
     | Some b \<Rightarrow>
         (let ms = inbox_queue b;
              C = C\<lparr>inboxes := hm_insert c (b\<lparr>inbox_queue := []\<rparr>) (inboxes C)\<rparr>;
              s = fold (\<lambda>_. record_message_received c) ms s
          in (ms, C, s)))"

definition receive_one ::
    "string \<Rightarrow> channel \<Rightarrow> 'a meter_scheme \<Rightarrow> msg option \<times> channel \<times> 'a meter_scheme" where
  "receive_one c C s = (case hm_get (inboxes C) c of None \<Rightarrow> (None, C, s)
     | Some b \<Rightarrow> (case inbox_queue b of
           [] \<Rightarrow> (None, C, s)
         | m # ms \<Rightarrow> (Some m, C\<lparr>inboxes := hm_insert c (b\<lparr>inbox_queue := ms\<rparr>) (inboxes C)\<rparr>,
             record_message_received c s)))"

definition queue_size :: "string \<Rightarrow> channel \<Rightarrow> nat" where
  "queue_size c C = (case hm_get (inboxes C) c of None \<Rightarrow> 0 | Some b \<Rightarrow> length (inbox_queue b))"

definition is_registered :: "string \<Rightarrow> channel \<Rightarrow> bool" where
  "is_registered c C = hm_contains (inboxes C) c"

definition list_registered :: "channel \<Rightarrow> string list" where
  "list_registered C = map fst (inboxes C)"

subsection \<open>The outcome of a send\<close>

definition queue_of :: "string \<Rightarrow> channel \<Rightarrow> msg list" where
  "queue_of c C = (case hm_get (inboxes C) c of None \<Rightarrow> [] | Some b \<Rightarrow> inbox_queue b)"

definition authorized ::
    "externals \<Rightarrow> cap_manager \<Rightarrow> msg \<Rightarrow> capability_token option \<Rightarrow> channel \<Rightarrow> 'a runtime_scheme \<Rightarrow> bool" where
  "authorized X M m token C s = (shell_id C = Some (msg_from m)
     \<or> (\<exists>t \<in> set_option token. first_error (checks X M t (msg_from m) Message
           (message_resource (msg_to m)) None s) = None))"

text \<open>The checks of \<^verbatim>\<open>send\<close> in order, each with its error, on the state at the call.\<close>

definition send_checks ::
    "externals \<Rightarrow> cap_manager \<Rightarrow> msg \<Rightarrow> capability_token option \<Rightarrow> channel \<Rightarrow> 'a runtime_scheme
     \<Rightarrow> (bool \<times> message_error) list" where
  "send_checks X M m token C s =
    [(message_size m \<le> MAX_MESSAGE_SIZE, MessageTooLarge (message_size m) MAX_MESSAGE_SIZE),
     (\<not> would_exceed_message_limit (msg_from m) s, RateLimitExceeded),
     (authorized X M m token C s, NotAuthorized),
     (is_registered (msg_to m) C, DestinationNotFound),
     (is_registered (msg_from m) C, SenderNotRegistered),
     (length (queue_of (msg_to m) C) < MAX_QUEUE_SIZE, QueueFull)]"

lemma deliver_result:
  "fst (deliver m C s) = (case first_error (drop 3 (send_checks X M m token C s0)) of
     None \<Rightarrow> Inr (msg_id m) | Some e \<Rightarrow> Inl e)"
  by (auto simp: deliver_def send_checks_def is_registered_def hm_contains_def queue_of_def Let_def
      split: option.split)

lemma deliver_channel:
  "fst (snd (deliver m C s)) = (if fst (deliver m C s) = Inr (msg_id m)
     then C\<lparr>inboxes := hm_modify (msg_to m) (push_message m) (inboxes C)\<rparr> else C)"
  by (simp add: deliver_def Let_def)

lemma validate_result:
  "fst (validate X M t c a r cls s) =
     (case first_error (checks X M t c a r cls s) of None \<Rightarrow> Inr () | Some e \<Rightarrow> Inl e)"
  by (simp add: validate_def validate_recurring_result)

lemma send_cases:
  obtains (refused) e where "fst (send X M m token C s) = Inl e" "fst (snd (send X M m token C s)) = C"
      "first_error (take 3 (send_checks X M m token C s)) = Some e"
  | (passed) s' where "send X M m token C s = deliver m C s'"
      "first_error (take 3 (send_checks X M m token C s)) = None"
proof -
  consider "message_size m > MAX_MESSAGE_SIZE"
    | "message_size m \<le> MAX_MESSAGE_SIZE" "would_exceed_message_limit (msg_from m) s"
    | "message_size m \<le> MAX_MESSAGE_SIZE" "\<not> would_exceed_message_limit (msg_from m) s"
      "shell_id C = Some (msg_from m)"
    | "message_size m \<le> MAX_MESSAGE_SIZE" "\<not> would_exceed_message_limit (msg_from m) s"
      "shell_id C \<noteq> Some (msg_from m)" by linarith
  then show ?thesis
  proof cases
    case 1
    then show ?thesis using refused by (simp add: send_def send_checks_def)
  next
    case 2
    then show ?thesis using refused by (simp add: send_def send_checks_def)
  next
    case 3
    then show ?thesis using passed[of s] by (simp add: send_def send_checks_def authorized_def)
  next
    case 4
    show ?thesis
    proof (cases token)
      case None
      then show ?thesis using 4 refused by (simp add: send_def send_checks_def authorized_def)
    next
      case (Some t)
      let ?v = "validate X M t (msg_from m) Message (message_resource (msg_to m)) None s"
      show ?thesis
      proof (cases "fst ?v")
        case (Inl e)
        then have "first_error (checks X M t (msg_from m) Message (message_resource (msg_to m)) None s) \<noteq> None"
          by (auto simp: validate_result split: option.splits)
        then show ?thesis using 4 Some Inl refused
          by (simp add: send_def send_checks_def authorized_def split_def)
      next
        case (Inr u)
        then have "first_error (checks X M t (msg_from m) Message (message_resource (msg_to m)) None s) = None"
          by (auto simp: validate_result split: option.splits)
        then show ?thesis using 4 Some Inr passed[of "snd ?v"]
          by (simp add: send_def send_checks_def authorized_def split_def)
      qed
    qed
  qed
qed

lemma first_error_append:
  "first_error (xs @ ys) = (case first_error xs of None \<Rightarrow> first_error ys | Some e \<Rightarrow> Some e)"
  by (induction xs rule: first_error.induct) auto

lemma first_error_split:
  "first_error xs = (case first_error (take n xs) of None \<Rightarrow> first_error (drop n xs) | Some e \<Rightarrow> Some e)"
  by (metis append_take_drop_id first_error_append)

lemma send_result:
  "fst (send X M m token C s) = (case first_error (send_checks X M m token C s) of
     None \<Rightarrow> Inr (msg_id m) | Some e \<Rightarrow> Inl e)"
proof (cases rule: send_cases[of X M m token C s])
  case (refused e)
  then show ?thesis
    using first_error_split[of "send_checks X M m token C s" 3] by simp
next
  case (passed s')
  then show ?thesis
    using first_error_split[of "send_checks X M m token C s" 3]
    by (simp add: deliver_result[of m C s' X M token s])
qed

lemma send_channel:
  "fst (snd (send X M m token C s)) = (if fst (send X M m token C s) = Inr (msg_id m)
     then C\<lparr>inboxes := hm_modify (msg_to m) (push_message m) (inboxes C)\<rparr> else C)"
  by (cases rule: send_cases[of X M m token C s]) (simp_all add: deliver_channel)

subsection \<open>Runs\<close>

text \<open>A sequence of operations on the channel by any capsules, with what each yields.\<close>

datatype chan_op =
    OpSend msg "capability_token option"
  | OpReceiveOne string
  | OpReceive string

text \<open>\<open>accepted\<close> are the messages sent with success, \<open>taken\<close> the pairs of receiver and message.\<close>

fun chan_run ::
    "externals \<Rightarrow> cap_manager \<Rightarrow> chan_op list \<Rightarrow> channel \<Rightarrow> 'a runtime_scheme
     \<Rightarrow> msg list \<times> (string \<times> msg) list \<times> channel \<times> 'a runtime_scheme" where
  "chan_run X M [] C s = ([], [], C, s)"
| "chan_run X M (OpSend m token # ops) C s =
     (let (r, C, s) = send X M m token C s; (acc, got, C, s) = chan_run X M ops C s
      in (if r = Inr (msg_id m) then m # acc else acc, got, C, s))"
| "chan_run X M (OpReceiveOne c # ops) C s =
     (let (r, C, s) = receive_one c C s; (acc, got, C, s) = chan_run X M ops C s
      in (acc, map (Pair c) (case r of None \<Rightarrow> [] | Some m \<Rightarrow> [m]) @ got, C, s))"
| "chan_run X M (OpReceive c # ops) C s =
     (let (ms, C, s) = receive c C s; (acc, got, C, s) = chan_run X M ops C s
      in (acc, map (Pair c) ms @ got, C, s))"

definition sent_to :: "string \<Rightarrow> msg list \<Rightarrow> msg list" where
  "sent_to c ms = filter (\<lambda>m. msg_to m = c) ms"

definition taken_by :: "string \<Rightarrow> (string \<times> msg) list \<Rightarrow> msg list" where
  "taken_by c ps = map snd (filter (\<lambda>p. fst p = c) ps)"

lemma taken_by_append: "taken_by c (ps @ qs) = taken_by c ps @ taken_by c qs"
  by (simp add: taken_by_def)

lemma taken_by_map_Pair: "taken_by c (map (Pair d) ms) = (if d = c then ms else [])"
  by (simp add: taken_by_def filter_map comp_def)

lemma queue_of_send:
  "queue_of c (fst (snd (send X M m token C s))) =
    queue_of c C @ (if fst (send X M m token C s) = Inr (msg_id m) \<and> msg_to m = c then [m] else [])"
proof (cases "fst (send X M m token C s) = Inr (msg_id m)")
  case True
  then have "is_registered (msg_to m) C"
    by (simp add: send_result send_checks_def split: option.splits if_splits)
  then show ?thesis using True
    by (auto simp: send_channel queue_of_def push_message_def is_registered_def hm_contains_def
        split: option.split)
next
  case False
  then show ?thesis by (simp add: send_channel)
qed

lemma queue_of_receive_one:
  "queue_of c (fst (snd (receive_one d C s))) =
    (if c = d then drop (length (case fst (receive_one d C s) of None \<Rightarrow> [] | Some m \<Rightarrow> [m])) (queue_of c C)
     else queue_of c C)"
  "(case fst (receive_one d C s) of None \<Rightarrow> [] | Some m \<Rightarrow> [m]) = take 1 (queue_of d C)"
  by (auto simp: receive_one_def queue_of_def split: option.split list.split)

lemma queue_of_receive:
  "queue_of c (fst (snd (receive d C s))) = (if c = d then [] else queue_of c C)"
  "fst (receive d C s) = queue_of d C"
  by (auto simp: receive_def queue_of_def Let_def split: option.split)

lemma chan_run_fifo:
  "taken_by c (fst (snd (chan_run X M ops C s))) @ queue_of c (fst (snd (snd (chan_run X M ops C s))))
    = queue_of c C @ sent_to c (fst (chan_run X M ops C s))"
proof (induction ops arbitrary: C s)
  case Nil
  then show ?case by (simp add: taken_by_def sent_to_def)
next
  case (Cons oper ops)
  show ?case
  proof (cases oper)
    case (OpSend m token)
    let ?C = "fst (snd (send X M m token C s))" and ?s = "snd (snd (send X M m token C s))"
    have "taken_by c (fst (snd (chan_run X M (oper # ops) C s)))
        @ queue_of c (fst (snd (snd (chan_run X M (oper # ops) C s))))
      = queue_of c ?C @ sent_to c (fst (chan_run X M ops ?C ?s))"
      using Cons[of ?C ?s] by (simp add: OpSend split_def Let_def)
    then show ?thesis
      by (simp add: queue_of_send OpSend split_def Let_def sent_to_def)
  next
    case (OpReceiveOne d)
    let ?C = "fst (snd (receive_one d C s))" and ?s = "snd (snd (receive_one d C s))"
    have "taken_by c (fst (snd (chan_run X M (oper # ops) C s)))
        @ queue_of c (fst (snd (snd (chan_run X M (oper # ops) C s))))
      = (if d = c then take 1 (queue_of d C) else [])
        @ queue_of c ?C @ sent_to c (fst (chan_run X M ops ?C ?s))"
      using Cons[of ?C ?s]
      by (simp add: OpReceiveOne split_def Let_def taken_by_append taken_by_map_Pair queue_of_receive_one(2))
    moreover have "(if d = c then take 1 (queue_of d C) else []) @ queue_of c ?C = queue_of c C"
      unfolding queue_of_receive_one by (cases "queue_of c C") auto
    ultimately show ?thesis by (simp add: OpReceiveOne split_def Let_def)
  next
    case (OpReceive d)
    let ?C = "fst (snd (receive d C s))" and ?s = "snd (snd (receive d C s))"
    show ?thesis
      using Cons[of ?C ?s]
      by (auto simp: OpReceive split_def Let_def taken_by_append taken_by_map_Pair queue_of_receive)
  qed
qed

lemma queue_bound_send:
  "\<forall>c. length (queue_of c C) \<le> MAX_QUEUE_SIZE \<Longrightarrow>
   \<forall>c. length (queue_of c (fst (snd (send X M m token C s)))) \<le> MAX_QUEUE_SIZE"
proof (intro allI)
  fix c
  assume bound: "\<forall>c. length (queue_of c C) \<le> MAX_QUEUE_SIZE"
  show "length (queue_of c (fst (snd (send X M m token C s)))) \<le> MAX_QUEUE_SIZE"
  proof (cases "fst (send X M m token C s) = Inr (msg_id m) \<and> msg_to m = c")
    case True
    then have "length (queue_of c C) < MAX_QUEUE_SIZE"
      by (auto simp: send_result send_checks_def split: option.splits if_splits)
    then show ?thesis by (simp add: queue_of_send)
  next
    case False
    then show ?thesis using bound by (auto simp: queue_of_send)
  qed
qed

lemma chan_run_bound:
  "\<forall>c. length (queue_of c C) \<le> MAX_QUEUE_SIZE \<Longrightarrow>
   length (queue_of c (fst (snd (snd (chan_run X M ops C s))))) \<le> MAX_QUEUE_SIZE"
proof (induction ops arbitrary: C s)
  case (Cons oper ops)
  show ?case
  proof (cases oper)
    case (OpSend m token)
    show ?thesis
      using Cons.IH[OF queue_bound_send[OF Cons.prems], of X M m token s] 
      by (simp add: OpSend split_def Let_def)
  next
    case (OpReceiveOne d)
    have "\<forall>c. length (queue_of c (fst (snd (receive_one d C s)))) \<le> MAX_QUEUE_SIZE"
    proof
      fix c
      show "length (queue_of c (fst (snd (receive_one d C s)))) \<le> MAX_QUEUE_SIZE"
        using Cons.prems[rule_format, of c]
        by (auto simp: queue_of_receive_one intro: diff_le_self[THEN le_trans])
    qed
    from Cons.IH[OF this] show ?thesis by (simp add: OpReceiveOne split_def Let_def)
  next
    case (OpReceive d)
    have "\<forall>c. length (queue_of c (fst (snd (receive d C s)))) \<le> MAX_QUEUE_SIZE"
      using Cons.prems by (simp add: queue_of_receive)
    from Cons.IH[OF this] show ?thesis by (simp add: OpReceive split_def Let_def)
  qed
qed simp

subsection \<open>Properties\<close>

text \<open>
  Sending implements its table of checks: a message is delivered exactly when its
  size, the rate, the sender's authority (the shell, or a token valid for the capsule, the
  message action and the destination), both registrations and the queue allow it; otherwise
  the error is that of the first check that fails. A delivered message goes to the end of
  its destination's queue and nowhere else; a refused one changes no queue.
\<close>

theorem send_reports_first_failure:
  "fst (send X M m token C s) = (case first_error (send_checks X M m token C s) of
       None \<Rightarrow> Inr (msg_id m) | Some e \<Rightarrow> Inl e)
   \<and> queue_of c (fst (snd (send X M m token C s))) = queue_of c C
       @ (if first_error (send_checks X M m token C s) = None \<and> msg_to m = c then [m] else [])"
  by (auto simp: send_result queue_of_send split: option.splits)

text \<open>
  Property C16. Delivery is first in, first out, without loss, duplication or misdelivery: over any
  run of sends and receives by any capsules, what a capsule has taken followed by what is
  still queued for it is what was queued at first followed by the messages accepted for it,
  in the order they were sent; and no queue ever exceeds \<^verbatim>\<open>MAX_QUEUE_SIZE\<close>.
\<close>

theorem messages_are_fifo:
  assumes "\<forall>d. length (queue_of d C) \<le> MAX_QUEUE_SIZE"
    and "chan_run X M ops C s = (acc, got, C', s')"
  shows "taken_by c got @ queue_of c C' = queue_of c C @ sent_to c acc
    \<and> length (queue_of c C') \<le> MAX_QUEUE_SIZE"
  using chan_run_fifo[of c X M ops C s] chan_run_bound[OF assms(1), of c X M ops s] assms(2) by simp

text \<open>
  The message rate limit does not recover by itself: the check reads the counter
  without looking at the clock, and a refused send does not reach the code that starts a new
  period. A sender at its limit is refused at every later time, and the state stays exactly
  as it was, so no number of retries and no waiting helps.
\<close>

theorem rate_limit_does_not_recover:
  assumes "would_exceed_message_limit (msg_from m) s" and "message_size m \<le> MAX_MESSAGE_SIZE"
  shows "send X M m token C (s\<lparr>instant_clock := clock, instant_reads := n\<rparr>)
    = (Inl RateLimitExceeded, C, s\<lparr>instant_clock := clock, instant_reads := n\<rparr>)"
proof -
  have "get_limits (msg_from m) (s\<lparr>instant_clock := clock, instant_reads := n\<rparr>) = get_limits (msg_from m) s"
    by (simp add: get_limits_def split: option.split)
  then have "would_exceed_message_limit (msg_from m) (s\<lparr>instant_clock := clock, instant_reads := n\<rparr>)"
    using assms(1) by (simp add: would_exceed_message_limit_def Let_def)
  then show ?thesis using assms(2) by (simp add: send_def)
qed

text \<open>
  A message that cannot be delivered still costs a use of its token: the token is
  validated before the destination and its queue are looked at, so a send to a capsule that
  is not registered fails and yet spends one of the token's limited uses.
\<close>

theorem failed_send_spends_use:
  assumes "message_size m \<le> MAX_MESSAGE_SIZE" and "\<not> would_exceed_message_limit (msg_from m) s"
    and "shell_id C \<noteq> Some (msg_from m)"
    and "fst (validate X M t (msg_from m) Message (message_resource (msg_to m)) None s) = Inr ()"
    and "con_max_uses (tok_constraints t) = Some n" and "\<not> is_registered (msg_to m) C"
  shows "fst (send X M m (Some t) C s) = Inl DestinationNotFound
    \<and> get_use_count (tok_id t) (snd (snd (send X M m (Some t) C s))) = get_use_count (tok_id t) s + 1"
proof -
  let ?v = "validate X M t (msg_from m) Message (message_resource (msg_to m)) None s"
  have "send X M m (Some t) C s = (Inl DestinationNotFound, C, snd ?v)"
    using assms by (simp add: send_def deliver_def is_registered_def split_def)
  then show ?thesis using assms(4,5) by (simp add: validate_def validate_count)
qed

subsection \<open>Examples\<close>

definition demo_msg :: "string \<Rightarrow> string \<Rightarrow> msg" where
  "demo_msg sender to = \<lparr>msg_id = MessageId [], msg_from = sender, msg_to = to, msg_payload = [1, 2],
     msg_timestamp = Timestamp 10 1, msg_reply_to = None\<rparr>"

definition demo_channel :: channel where
  "demo_channel = \<lparr>inboxes = [(''c'', \<lparr>inbox_queue = [], inbox_notify = 0\<rparr>)], shell_id = None\<rparr>"

lemma demo_channel_queue: "queue_of d demo_channel = []"
  by (simp add: demo_channel_def queue_of_def hm_get_def)

lemma demo_msg_sel [simp]:
  "msg_from (demo_msg a b) = a" "msg_to (demo_msg a b) = b" "message_size (demo_msg a b) = 2"
  by (simp_all add: demo_msg_def message_size_def)

theorem messages_are_fifo_witness:
  "\<exists>acc got C' s'. chan_run demo_ext demo_manager [OpSend (demo_msg ''c'' ''c'') None, OpReceiveOne ''c'']
       demo_channel demo_rt = (acc, got, C', s')
     \<and> taken_by ''c'' got @ queue_of ''c'' C' = sent_to ''c'' acc"
proof -
  obtain acc got C' s' where r: "chan_run demo_ext demo_manager
      [OpSend (demo_msg ''c'' ''c'') None, OpReceiveOne ''c''] demo_channel demo_rt = (acc, got, C', s')"
    by (rule prod_cases4)
  have "\<forall>d. length (queue_of d demo_channel) \<le> MAX_QUEUE_SIZE" by (simp add: demo_channel_queue)
  from messages_are_fifo[OF this r, of "''c''"] r show ?thesis
    by (auto simp: demo_channel_queue simp del: chan_run.simps)
qed

text \<open>A state in which \<open>c\<close> has sent its 6000 messages.\<close>

theorem rate_limit_does_not_recover_witness:
  "fst (send demo_ext demo_manager (demo_msg ''c'' ''c'') None demo_channel
     (demo_rt\<lparr>metrics := [(''c'', demo_metrics 6000)],
        instant_clock := \<lambda>n. 1000000000000 * n, instant_reads := 9\<rparr>)) = Inl RateLimitExceeded"
proof -
  let ?s = "demo_rt\<lparr>metrics := [(''c'', demo_metrics 6000)]\<rparr>"
  have "would_exceed_message_limit (msg_from (demo_msg ''c'' ''c'')) ?s"
    by (simp add: would_exceed_message_limit_def get_limits_def demo_rt_def demo_metrics_def hm_get_def
        resource_limits_default_def)
  then have "send demo_ext demo_manager (demo_msg ''c'' ''c'') None demo_channel
      (?s\<lparr>instant_clock := \<lambda>n. 1000000000000 * n, instant_reads := 9\<rparr>)
    = (Inl RateLimitExceeded, demo_channel, ?s\<lparr>instant_clock := \<lambda>n. 1000000000000 * n, instant_reads := 9\<rparr>)"
    by (rule rate_limit_does_not_recover) (simp add: MAX_MESSAGE_SIZE_def)
  then show ?thesis by simp
qed

definition demo_msg_token :: capability_token where
  "demo_msg_token = token_sign demo_ext demo_key (demo_token 9 ''c'' Message
     \<lparr>tok_resource := message_resource ''d'', tok_constraints := demo_constraints\<rparr>)"

theorem failed_send_spends_use_witness:
  "fst (send demo_ext demo_manager (demo_msg ''c'' ''d'') (Some demo_msg_token) demo_channel demo_rt)
     = Inl DestinationNotFound
   \<and> get_use_count (tok_id demo_msg_token) (snd (snd (send demo_ext demo_manager (demo_msg ''c'' ''d'')
       (Some demo_msg_token) demo_channel demo_rt))) = 1"
proof -
  let ?m = "demo_msg ''c'' ''d''"
  have ver: "verify_signature demo_ext demo_key demo_msg_token"
    using verify_sign[of demo_ext demo_key] by (simp add: demo_msg_token_def)
  have sel: "tok_version demo_msg_token = 1" "tok_issuer demo_msg_token = demo_key"
    "tok_capsule demo_msg_token = ''c''" "tok_action demo_msg_token = Message"
    "tok_resource demo_msg_token = message_resource ''d''" "tok_constraints demo_msg_token = demo_constraints"
    "tok_issued_at demo_msg_token = Timestamp 1000 1" "tok_expiry demo_msg_token = None"
    by (simp_all add: demo_msg_token_def demo_token_def demo_key_def)
  have "first_error (checks demo_ext demo_manager demo_msg_token ''c'' Message (message_resource ''d'')
      None demo_rt) = None"
    by (simp add: checks_def sel ver demo_sel demo_rt_sel scope.within_refl demo_constraints_def
        constraints_new_def get_use_count_def)
  then have v: "fst (validate demo_ext demo_manager demo_msg_token (msg_from ?m) Message
      (message_resource (msg_to ?m)) None demo_rt) = Inr ()"
    by (simp add: validate_result)
  have r: "\<not> would_exceed_message_limit (msg_from ?m) demo_rt"
    by (simp add: would_exceed_message_limit_def get_limits_def demo_rt_def demo_metrics_def hm_get_def
        resource_limits_default_def)
  have "shell_id demo_channel \<noteq> Some (msg_from ?m)" "\<not> is_registered (msg_to ?m) demo_channel"
    by (simp_all add: demo_channel_def is_registered_def hm_contains_def hm_get_def)
  moreover have "con_max_uses (tok_constraints demo_msg_token) = Some 2"
    by (simp add: sel demo_constraints_def constraints_new_def)
  ultimately show ?thesis
    using failed_send_spends_use[OF _ r _ v] by (simp add: MAX_MESSAGE_SIZE_def get_use_count_def demo_rt_sel)
qed

end
