(* ===== verification/Localhost.thy ===== *)
theory Localhost
  imports Strings_Bytes
begin

unbundle bit_operations_syntax

section \<open>Rooted \<^verbatim>\<open>localhost://\<close> resources and their files\<close>

text \<open>
  \<^verbatim>\<open>elastos-common/src/localhost.rs\<close>: the roots, the parser of \<^verbatim>\<open>localhost://\<close> URIs, the map
  from a URI to a path below the data directory, the paths of the system services, and the
  creation of the roots with their permissions. A \<^verbatim>\<open>PathBuf\<close> is the list of its components
  (\<^verbatim>\<open>Path\<close> compares components); the root directory is the component \<^verbatim>\<open>/\<close>. An
  \<^verbatim>\<open>expect\<close> that fails is \<^const>\<open>None\<close>.
\<close>

subsection \<open>Roots and schemes\<close>

definition MY_WEBSITE_URI :: string where
  "MY_WEBSITE_URI = ''localhost://MyWebSite''"

definition PUBLISHER_ROOT_URI :: string where
  "PUBLISHER_ROOT_URI = ''localhost://ElastOS/SystemServices/Publisher''"

definition EDGE_ROOT_URI :: string where
  "EDGE_ROOT_URI = ''localhost://ElastOS/SystemServices/Edge''"

definition FILE_BACKED_ROOTS :: "string list" where
  "FILE_BACKED_ROOTS = [''AppCapsules'', ''ElastOS'', ''Local'', ''MyWebSite'', ''Public'', ''Users'',
     ''UsersAI'']"

definition DYNAMIC_ROOTS :: "string list" where
  "DYNAMIC_ROOTS = [''WebSpaces'']"

definition ALL_ROOTS :: "string list" where
  "ALL_ROOTS = [''AppCapsules'', ''ElastOS'', ''Local'', ''MyWebSite'', ''Public'', ''Users'', ''UsersAI'',
     ''WebSpaces'']"

definition is_supported_resource_scheme :: "string \<Rightarrow> bool" where
  "is_supported_resource_scheme uri = (prefix ''elastos://'' uri \<or> prefix ''localhost://'' uri)"

definition is_system_only_backend_resource :: "string \<Rightarrow> bool" where
  "is_system_only_backend_resource uri = (case strip_prefix ''elastos://'' uri of None \<Rightarrow> False
     | Some rest \<Rightarrow> takeWhile (\<lambda>c. c \<notin> set ''/?#'') rest
         \<in> {''elacity'', ''elacity-sdk'', ''gateway'', ''ipfs'', ''ipfs-cluster'', ''ipfs-provider'', ''kubo''})"

definition is_runtime_system_service_resource :: "string \<Rightarrow> bool" where
  "is_runtime_system_service_resource uri = (case strip_prefix ''localhost://'' uri of None \<Rightarrow> False
     | Some rest \<Rightarrow> rest = ''ElastOS/SystemServices'' \<or> prefix ''ElastOS/SystemServices/'' rest)"

definition parse_localhost_path :: "string \<Rightarrow> (string \<times> string) option" where
  "parse_localhost_path path =
     (let trimmed = trim_end_char CHR ''/'' (trim_start_char CHR ''/'' (trim path)) in
      if trimmed = [] then None
      else case find_sub ''/'' trimmed of
        Some idx \<Rightarrow> (let root = take idx trimmed; remainder = drop (idx + 1) trimmed
          in if root \<in> set ALL_ROOTS then Some (root, remainder) else None)
      | None \<Rightarrow> if trimmed \<in> set ALL_ROOTS then Some (trimmed, []) else None)"

definition parse_localhost_uri :: "string \<Rightarrow> (string \<times> string) option" where
  "parse_localhost_uri uri = (case strip_prefix ''localhost://'' uri of None \<Rightarrow> None
     | Some rest \<Rightarrow> parse_localhost_path rest)"

definition localhost_uri_of :: "string \<times> string \<Rightarrow> string" where
  "localhost_uri_of p = (case p of (root, rest) \<Rightarrow>
     if rest = [] then ''localhost://'' @ root else ''localhost://'' @ root @ ''/'' @ rest)"

definition rooted_localhost_uri :: "string \<Rightarrow> string option" where
  "rooted_localhost_uri path_or_uri = (case parse_localhost_uri path_or_uri of
       Some p \<Rightarrow> Some (localhost_uri_of p)
     | None \<Rightarrow> map_option localhost_uri_of (parse_localhost_path path_or_uri))"

definition is_file_backed_root :: "string \<Rightarrow> bool" where
  "is_file_backed_root root = (root \<in> set FILE_BACKED_ROOTS)"

definition is_plaintext_root :: "string \<Rightarrow> bool" where
  "is_plaintext_root root = (root \<in> {''MyWebSite'', ''Public''})"

definition file_backed_prefixes :: "string list" where
  "file_backed_prefixes = FILE_BACKED_ROOTS"

definition OWNER_ONLY_ROOTS :: "string list" where
  "OWNER_ONLY_ROOTS = [''Users'', ''UsersAI'']"

subsection \<open>Paths\<close>

type_synonym path = "string list"

definition path_parts :: "string \<Rightarrow> string list" where
  "path_parts s = filter (\<lambda>c. c \<noteq> [] \<and> c \<noteq> ''.'') (split_on CHR ''/'' s)"

text \<open>\<^verbatim>\<open>Path::join\<close> on a base that is not empty: an absolute argument replaces the base.\<close>

definition path_join :: "path \<Rightarrow> string \<Rightarrow> path" where
  "path_join p s = (if prefix ''/'' s then ''/'' # path_parts s else p @ path_parts s)"

text \<open>The loop over the segments; \<^const>\<open>None\<close> is the early return.\<close>

fun push_segments :: "path \<Rightarrow> string list \<Rightarrow> path option" where
  "push_segments p [] = Some p"
| "push_segments p (segment # segs) =
     (if segment = [] then push_segments p segs
      else if segment = ''.'' \<or> segment = ''..'' \<or> CHR 0x5C \<in> set segment then None
      else push_segments (path_join p segment) segs)"

definition rooted_localhost_fs_path :: "path \<Rightarrow> string \<Rightarrow> path option" where
  "rooted_localhost_fs_path base_dir path_or_uri =
     (case (if prefix ''localhost://'' path_or_uri then parse_localhost_uri path_or_uri
            else parse_localhost_path path_or_uri) of
        None \<Rightarrow> None
      | Some (root, rest) \<Rightarrow>
          if \<not> is_file_backed_root root then None
          else (let path = path_join base_dir root in
            if rest \<noteq> [] then push_segments path (split_on CHR ''/'' rest) else Some path))"

definition my_website_root_path :: "path \<Rightarrow> path option" where
  "my_website_root_path base_dir = rooted_localhost_fs_path base_dir MY_WEBSITE_URI"

definition publisher_root_path :: "path \<Rightarrow> path option" where
  "publisher_root_path base_dir = rooted_localhost_fs_path base_dir PUBLISHER_ROOT_URI"

definition edge_root_path :: "path \<Rightarrow> path option" where
  "edge_root_path base_dir = rooted_localhost_fs_path base_dir EDGE_ROOT_URI"

definition join_opt :: "path option \<Rightarrow> string \<Rightarrow> path option" where
  "join_opt p s = map_option (\<lambda>p. path_join p s) p"

definition publisher_artifacts_path :: "path \<Rightarrow> path option" where
  "publisher_artifacts_path b = join_opt (publisher_root_path b) ''artifacts''"

definition publisher_site_releases_root_path :: "path \<Rightarrow> path option" where
  "publisher_site_releases_root_path b = join_opt (publisher_root_path b) ''SiteReleases''"

definition publisher_release_head_path :: "path \<Rightarrow> path option" where
  "publisher_release_head_path b = join_opt (publisher_root_path b) ''release-head.json''"

definition publisher_release_manifest_path :: "path \<Rightarrow> path option" where
  "publisher_release_manifest_path b = join_opt (publisher_root_path b) ''release.json''"

definition installation_release_head_path :: "path \<Rightarrow> path" where
  "installation_release_head_path b = path_join b ''installation/release-head.json''"

definition installation_release_manifest_path :: "path \<Rightarrow> path" where
  "installation_release_manifest_path b = path_join b ''installation/release.json''"

definition publisher_install_script_path :: "path \<Rightarrow> path option" where
  "publisher_install_script_path b = join_opt (publisher_root_path b) ''install.sh''"

definition publisher_publish_state_path :: "path \<Rightarrow> path option" where
  "publisher_publish_state_path b = join_opt (publisher_root_path b) ''publish-state.json''"

definition edge_bindings_path :: "path \<Rightarrow> path option" where
  "edge_bindings_path b = join_opt (edge_root_path b) ''Bindings''"

definition edge_site_heads_path :: "path \<Rightarrow> path option" where
  "edge_site_heads_path b = join_opt (edge_root_path b) ''SiteHeads''"

definition edge_release_channels_root_path :: "path \<Rightarrow> path option" where
  "edge_release_channels_root_path b = join_opt (edge_root_path b) ''ReleaseChannels''"

definition edge_site_history_root_path :: "path \<Rightarrow> path option" where
  "edge_site_history_root_path b = join_opt (edge_root_path b) ''SiteHistory''"

definition edge_browser_apps_root_path :: "path \<Rightarrow> path option" where
  "edge_browser_apps_root_path b = join_opt (edge_root_path b) ''BrowserApps''"

subsection \<open>File names of the edge state\<close>

text \<open>
  A character of the argument is one to four bytes here: every character that is not ASCII
  becomes one underscore, written for its first byte, and its continuation bytes vanish.
\<close>

definition is_ascii_alphanumeric :: "char \<Rightarrow> bool" where
  "is_ascii_alphanumeric c = (let n = of_char c :: nat in
     48 \<le> n \<and> n \<le> 57 \<or> 65 \<le> n \<and> n \<le> 90 \<or> 97 \<le> n \<and> n \<le> 122)"

definition sanitize_char :: "char \<Rightarrow> string" where
  "sanitize_char ch =
     (if in_range 128 191 (of_char ch) then []
      else if is_ascii_alphanumeric ch \<or> ch = CHR ''.'' \<or> ch = CHR ''-'' then [ascii_lower ch]
      else ''_'')"

definition sanitize_edge_state_name :: "string \<Rightarrow> string" where
  "sanitize_edge_state_name v = concat (map sanitize_char v)"

definition sanitize_edge_binding_name :: "string \<Rightarrow> string" where
  "sanitize_edge_binding_name domain = sanitize_edge_state_name (trim_end_char CHR ''.'' (trim domain))"

definition json_name :: "string \<Rightarrow> string" where
  "json_name n = n @ ''.json''"

definition publisher_site_releases_dir :: "path \<Rightarrow> string \<Rightarrow> path option" where
  "publisher_site_releases_dir b target_uri =
     join_opt (publisher_site_releases_root_path b) (sanitize_edge_state_name target_uri)"

definition publisher_site_release_path :: "path \<Rightarrow> string \<Rightarrow> string \<Rightarrow> path option" where
  "publisher_site_release_path b target_uri release_name =
     join_opt (publisher_site_releases_dir b target_uri) (json_name (sanitize_edge_state_name release_name))"

definition edge_binding_path :: "path \<Rightarrow> string \<Rightarrow> path option" where
  "edge_binding_path b domain =
     join_opt (edge_bindings_path b) (json_name (sanitize_edge_binding_name domain))"

definition edge_site_head_path :: "path \<Rightarrow> string \<Rightarrow> path option" where
  "edge_site_head_path b target_uri =
     join_opt (edge_site_heads_path b) (json_name (sanitize_edge_state_name target_uri))"

definition edge_site_history_dir :: "path \<Rightarrow> string \<Rightarrow> path option" where
  "edge_site_history_dir b target_uri =
     join_opt (edge_site_history_root_path b) (sanitize_edge_state_name target_uri)"

definition edge_release_channels_dir :: "path \<Rightarrow> string \<Rightarrow> path option" where
  "edge_release_channels_dir b target_uri =
     join_opt (edge_release_channels_root_path b) (sanitize_edge_state_name target_uri)"

definition edge_release_channel_path :: "path \<Rightarrow> string \<Rightarrow> string \<Rightarrow> path option" where
  "edge_release_channel_path b target_uri channel_name =
     join_opt (edge_release_channels_dir b target_uri) (json_name (sanitize_edge_state_name channel_name))"

definition edge_browser_app_path :: "path \<Rightarrow> string \<Rightarrow> path option" where
  "edge_browser_app_path b app_name =
     join_opt (edge_browser_apps_root_path b) (json_name (sanitize_edge_state_name app_name))"

subsection \<open>Creating the roots\<close>

text \<open>
  The directories of the file system with their permission bits, the process umask, and the
  answers of the operating system to \<^verbatim>\<open>mkdir\<close>, \<^verbatim>\<open>lstat\<close> and \<^verbatim>\<open>chmod\<close>, in order.
\<close>

datatype fs_node = DirNode u32 | DirLink | OtherNode

record fs =
  fs_nodes :: "path \<Rightarrow> fs_node option"
  fs_umask :: u32
  fs_io :: "nat \<Rightarrow> string option"
  fs_ios :: nat

definition next_fs_io :: "'a fs_scheme \<Rightarrow> string option \<times> 'a fs_scheme" where
  "next_fs_io d = (fs_io d (fs_ios d), d\<lparr>fs_ios := Suc (fs_ios d)\<rparr>)"

text \<open>\<^verbatim>\<open>create_dir_all\<close>: every prefix of the path, shortest first, unless it is a directory.\<close>

fun mkdirs :: "path list \<Rightarrow> 'a fs_scheme \<Rightarrow> (string + unit) \<times> 'a fs_scheme" where
  "mkdirs [] d = (Inr (), d)"
| "mkdirs (p # ps) d = (case fs_nodes d p of
       Some OtherNode \<Rightarrow> (Inl ''File exists'', d)
     | Some _ \<Rightarrow> mkdirs ps d
     | None \<Rightarrow> (let (err, d) = next_fs_io d in case err of
           Some e \<Rightarrow> (Inl e, d)
         | None \<Rightarrow> mkdirs ps (d\<lparr>fs_nodes := (fs_nodes d)(p \<mapsto> DirNode (0x1FF AND NOT (fs_umask d)))\<rparr>)))"

definition path_prefixes :: "path \<Rightarrow> path list" where
  "path_prefixes p = map (\<lambda>n. take n p) [1..<length p + 1]"

definition create_dir_all :: "path \<Rightarrow> 'a fs_scheme \<Rightarrow> (string + unit) \<times> 'a fs_scheme" where
  "create_dir_all p d = mkdirs (path_prefixes p) d"

text \<open>The healing of an owner-only root: \<^verbatim>\<open>symlink_metadata\<close>, then \<^verbatim>\<open>set_permissions\<close>.\<close>

definition heal_owner_only :: "path \<Rightarrow> 'a fs_scheme \<Rightarrow> (string + unit) \<times> 'a fs_scheme" where
  "heal_owner_only p d =
     (let (err, d) = next_fs_io d in case err of
        Some e \<Rightarrow> (Inl e, d)
      | None \<Rightarrow> (case fs_nodes d p of
          Some (DirNode mode) \<Rightarrow>
            if mode AND 0x3F \<noteq> 0 then
              (let (err, d) = next_fs_io d in case err of
                 Some e \<Rightarrow> (Inl e, d)
               | None \<Rightarrow> (Inr (), d\<lparr>fs_nodes := (fs_nodes d)(p \<mapsto> DirNode 0x1C0)\<rparr>))
            else (Inr (), d)
        | _ \<Rightarrow> (Inr (), d)))"

fun ensure_roots :: "path \<Rightarrow> string list \<Rightarrow> path list \<Rightarrow> 'a fs_scheme \<Rightarrow> (string + path list) \<times> 'a fs_scheme" where
  "ensure_roots b [] created d = (Inr created, d)"
| "ensure_roots b (root # roots) created d =
     (let p = path_join b root; (r, d) = create_dir_all p d in case r of
        Inl e \<Rightarrow> (Inl e, d)
      | Inr _ \<Rightarrow>
          (let (r, d) = (if root \<in> set OWNER_ONLY_ROOTS then heal_owner_only p d else (Inr (), d)) in
           case r of Inl e \<Rightarrow> (Inl e, d) | Inr _ \<Rightarrow> ensure_roots b roots (created @ [p]) d))"

definition ensure_file_backed_roots :: "path \<Rightarrow> 'a fs_scheme \<Rightarrow> (string + path list) \<times> 'a fs_scheme" where
  "ensure_file_backed_roots b d = ensure_roots b FILE_BACKED_ROOTS [] d"

fun create_each :: "path list \<Rightarrow> path list \<Rightarrow> 'a fs_scheme \<Rightarrow> (string + path list) \<times> 'a fs_scheme" where
  "create_each [] created d = (Inr created, d)"
| "create_each (p # ps) created d = (let (r, d) = create_dir_all p d in
     case r of Inl e \<Rightarrow> (Inl e, d) | Inr _ \<Rightarrow> create_each ps (created @ [p]) d)"

definition system_service_paths :: "path \<Rightarrow> path option list" where
  "system_service_paths b = [publisher_artifacts_path b, publisher_site_releases_root_path b,
     edge_bindings_path b, edge_browser_apps_root_path b, edge_site_heads_path b,
     edge_release_channels_root_path b, edge_site_history_root_path b, my_website_root_path b]"

text \<open>The outer \<^const>\<open>None\<close> is a panic of one of the \<^verbatim>\<open>expect\<close>s.\<close>

definition ensure_system_service_roots ::
    "path \<Rightarrow> 'a fs_scheme \<Rightarrow> ((string + path list) \<times> 'a fs_scheme) option" where
  "ensure_system_service_roots b d =
     (let (r, d) = ensure_file_backed_roots b d in case r of
        Inl e \<Rightarrow> Some (Inl e, d)
      | Inr created \<Rightarrow>
          (if None \<in> set (system_service_paths b) then None
           else Some (create_each (map the (system_service_paths b)) created d)))"

subsection \<open>Parsing\<close>

lemma in_ALL_ROOTS: "root \<in> set ALL_ROOTS \<Longrightarrow> root \<noteq> [] \<and> (\<forall>c \<in> set root. graphic c \<and> c \<noteq> CHR ''/'')"
  by (auto simp: ALL_ROOTS_def graphic_def)

lemma FILE_BACKED_subset: "set FILE_BACKED_ROOTS \<subseteq> set ALL_ROOTS"
  by (simp add: FILE_BACKED_ROOTS_def ALL_ROOTS_def)

lemma find_sub_char:
  "c \<notin> set u \<Longrightarrow> find_sub [c] (u @ c # v) = Some (length u)"
  "c \<notin> set u \<Longrightarrow> find_sub [c] u = None"
  by (induction u) auto

lemma find_sub_char_Some:
  assumes "find_sub [c] s = Some i"
  shows "s = take i s @ c # drop (i + 1) s"
  using find_sub_Some[OF assms] by simp

text \<open>A parsed path, written back from its root and remainder.\<close>

lemma parse_localhost_path_Some:
  assumes "parse_localhost_path p = Some (root, rest)"
  shows "root \<in> set ALL_ROOTS"
    and "trim_end_char CHR ''/'' (trim_start_char CHR ''/'' (trim p))
      = (if rest = [] then root else root @ CHR ''/'' # rest) "
proof -
  let ?t = "trim_end_char CHR ''/'' (trim_start_char CHR ''/'' (trim p))"
  have last: "?t = [] \<or> last ?t \<noteq> CHR ''/''" by (rule trim_end_char_last)
  show "root \<in> set ALL_ROOTS"
    using assms by (auto simp: parse_localhost_path_def Let_def split: option.splits if_splits)
  show "?t = (if rest = [] then root else root @ CHR ''/'' # rest)"
  proof (cases "find_sub ''/'' ?t")
    case None
    then show ?thesis using assms by (auto simp: parse_localhost_path_def Let_def split: if_splits)
  next
    case (Some i)
    have r: "root = take i ?t" "rest = drop (i + 1) ?t"
      using assms Some by (auto simp: parse_localhost_path_def Let_def split: if_splits)
    have t: "?t = root @ CHR ''/'' # rest"
      using find_sub_char_Some[OF Some] unfolding r[symmetric] .
    moreover have "rest \<noteq> []" using last unfolding t by auto
    ultimately show ?thesis by simp
  qed
qed

lemma parse_localhost_path_canonical:
  assumes "root \<in> set ALL_ROOTS" and "rest = [] \<or> last rest \<noteq> CHR ''/''"
    and "trim_end rest = rest"
  shows "parse_localhost_path (if rest = [] then root else root @ CHR ''/'' # rest) = Some (root, rest)"
proof -
  note root = in_ALL_ROOTS[OF assms(1)]
  let ?t = "if rest = [] then root else root @ CHR ''/'' # rest"
  have hd: "graphic (hd ?t)" "hd ?t \<noteq> CHR ''/''" "?t \<noteq> []" using root by (auto simp: hd_append)
  have "trim_start ?t = ?t" using hd by (intro trim_start_graphic) simp
  moreover have "trim_end ?t = ?t"
  proof (cases "rest = []")
    case True
    then show ?thesis using root by (intro trim_end_graphic) simp
  next
    case False
    have "graphic CHR ''/''" by (simp add: graphic_def)
    then show ?thesis
      using trim_end_graphic_append[of "root @ ''/''" rest] root assms(3) False by simp
  qed
  ultimately have tr: "trim ?t = ?t" by (simp add: trim_def)
  have "trim_start_char CHR ''/'' ?t = ?t" using hd(2) by (intro trim_start_char_id) simp
  moreover have "trim_end_char CHR ''/'' ?t = ?t"
    using assms(2) root by (intro trim_end_char_id) auto
  ultimately have eq: "trim_end_char CHR ''/'' (trim_start_char CHR ''/'' (trim ?t)) = ?t"
    using tr by simp
  have "CHR ''/'' \<notin> set root" using root by auto
  then show ?thesis
    using hd(3) assms(1) unfolding parse_localhost_path_def eq Let_def
    by (simp add: find_sub_char del: find_sub.simps)
qed

text \<open>
  Writing the canonical URI and parsing it again gives the same root and remainder, unless the
  remainder ends in white space.
\<close>

lemma parse_canonical_uri:
  assumes "root \<in> set ALL_ROOTS" and "rest = [] \<or> last rest \<noteq> CHR ''/''"
    and "trim_end rest = rest"
  shows "parse_localhost_uri (localhost_uri_of (root, rest)) = Some (root, rest)"
proof -
  have "strip_prefix ''localhost://'' (localhost_uri_of (root, rest))
      = Some (if rest = [] then root else root @ CHR ''/'' # rest)"
    using strip_prefix_append[of "''localhost://''"] by (auto simp: localhost_uri_of_def)
  then show ?thesis
    using parse_localhost_path_canonical[OF assms] by (simp add: parse_localhost_uri_def)
qed

lemma parse_rooted_uri:
  assumes "parse_localhost_path p = Some (root, rest)" and "trim_end rest = rest"
  shows "parse_localhost_uri (localhost_uri_of (root, rest)) = Some (root, rest)"
proof (rule parse_canonical_uri[OF parse_localhost_path_Some(1)[OF assms(1)] _ assms(2)])
  show "rest = [] \<or> last rest \<noteq> CHR ''/''"
    using trim_end_char_last[of "CHR ''/''" "trim_start_char CHR ''/'' (trim p)"]
      parse_localhost_path_Some(2)[OF assms(1)]
    by (auto split: if_splits)
qed

subsection \<open>Paths below the data directory\<close>

lemma path_parts_segment:
  "CHR ''/'' \<notin> set s \<Longrightarrow> s \<noteq> [] \<Longrightarrow> s \<noteq> ''.'' \<Longrightarrow> path_parts s = [s]"
  by (simp add: path_parts_def split_on_no_sep)

lemma path_join_segment:
  "CHR ''/'' \<notin> set s \<Longrightarrow> path_join p s = p @ (if s = [] \<or> s = ''.'' then [] else [s])"
  by (cases s) (auto simp: path_join_def path_parts_def split_on_no_sep)

definition safe_segment :: "string \<Rightarrow> bool" where
  "safe_segment s = (s \<noteq> ''.'' \<and> s \<noteq> ''..'' \<and> CHR 0x5C \<notin> set s)"

lemma push_segments_eq:
  "\<forall>s \<in> set segs. CHR ''/'' \<notin> set s \<Longrightarrow>
   push_segments p segs =
     (if \<forall>s \<in> set segs. safe_segment s then Some (p @ filter (\<lambda>s. s \<noteq> []) segs) else None)"
  by (induction segs arbitrary: p) (auto simp: path_join_segment safe_segment_def)

lemma fs_path_eq:
  "rooted_localhost_fs_path b u =
     (case (if prefix ''localhost://'' u then parse_localhost_uri u else parse_localhost_path u) of
        None \<Rightarrow> None
      | Some (root, rest) \<Rightarrow>
          if root \<in> set FILE_BACKED_ROOTS \<and> (\<forall>s \<in> set (split_on CHR ''/'' rest). safe_segment s)
          then Some (b @ root # filter (\<lambda>s. s \<noteq> []) (split_on CHR ''/'' rest)) else None)"
proof -
  have j: "path_join b root = b @ [root]" if "root \<in> set FILE_BACKED_ROOTS" for root
    using that FILE_BACKED_subset in_ALL_ROOTS[of root]
    by (subst path_join_segment) (auto simp: FILE_BACKED_ROOTS_def)
  have p: "push_segments q (split_on CHR ''/'' rest) =
      (if \<forall>s \<in> set (split_on CHR ''/'' rest). safe_segment s
       then Some (q @ filter (\<lambda>s. s \<noteq> []) (split_on CHR ''/'' rest)) else None)" for q rest
    using split_on_pieces by (intro push_segments_eq) blast
  show ?thesis
    unfolding rooted_localhost_fs_path_def is_file_backed_root_def p Let_def
    by (auto simp: j safe_segment_def split: option.split prod.split)
qed

lemma join_opt_segment:
  "CHR ''/'' \<notin> set s \<Longrightarrow> join_opt (Some p) s = Some (p @ (if s = [] \<or> s = ''.'' then [] else [s]))"
  by (simp add: join_opt_def path_join_segment)

lemma fs_path_of_uri:
  assumes "u = localhost_uri_of (root, rest)" and "root \<in> set FILE_BACKED_ROOTS"
    and "rest = [] \<or> graphic (last rest) \<and> last rest \<noteq> CHR ''/''"
    and "list_all (\<lambda>s. safe_segment s \<and> s \<noteq> []) segs" and "rest \<noteq> [] \<Longrightarrow> split_on CHR ''/'' rest = segs"
    and "rest = [] \<Longrightarrow> segs = []"
  shows "rooted_localhost_fs_path b u = Some (b @ root # segs)"
proof -
  have "parse_localhost_uri u = Some (root, rest)"
    unfolding assms(1) using assms(2,3) FILE_BACKED_subset trim_end_graphic[of rest]
    by (intro parse_canonical_uri) auto
  moreover have "prefix ''localhost://'' u" by (simp add: assms(1) localhost_uri_of_def)
  moreover have "filter (\<lambda>s. s \<noteq> []) segs = segs" using assms(4) by (auto simp: list_all_iff filter_id_conv)
  ultimately show ?thesis
    using assms(2,4-6) by (cases "rest = []") (auto simp: fs_path_eq list_all_iff safe_segment_def)
qed

lemma website_root [simp]: "my_website_root_path b = Some (b @ [''MyWebSite''])"
  unfolding my_website_root_path_def
  by (rule fs_path_of_uri[where rest = "[]"])
    (simp_all add: MY_WEBSITE_URI_def localhost_uri_of_def FILE_BACKED_ROOTS_def)

lemma publisher_root [simp]:
  "publisher_root_path b = Some (b @ [''ElastOS'', ''SystemServices'', ''Publisher''])"
  unfolding publisher_root_path_def
  by (rule fs_path_of_uri[where rest = "''SystemServices/Publisher''"])
    (simp_all add: PUBLISHER_ROOT_URI_def localhost_uri_of_def FILE_BACKED_ROOTS_def
      safe_segment_def graphic_def del: split_on.simps add: split_on_code split_on.simps(1))

lemma edge_root [simp]: "edge_root_path b = Some (b @ [''ElastOS'', ''SystemServices'', ''Edge''])"
  unfolding edge_root_path_def
  by (rule fs_path_of_uri[where rest = "''SystemServices/Edge''"])
    (simp_all add: EDGE_ROOT_URI_def localhost_uri_of_def FILE_BACKED_ROOTS_def
      safe_segment_def graphic_def del: split_on.simps add: split_on_code split_on.simps(1))

subsection \<open>Sanitised names\<close>

definition name_char :: "char \<Rightarrow> bool" where
  "name_char c = (let n = of_char c :: nat in
     48 \<le> n \<and> n \<le> 57 \<or> 97 \<le> n \<and> n \<le> 122 \<or> c = CHR ''.'' \<or> c = CHR ''-'' \<or> c = CHR ''_'')"

lemma sanitize_char_chars: "c \<in> set (sanitize_char ch) \<Longrightarrow> name_char c"
  by (auto simp: sanitize_char_def name_char_def is_ascii_alphanumeric_def ascii_lower_def Let_def
      of_char_of split: if_splits)

lemma sanitize_chars: "c \<in> set (sanitize_edge_state_name v) \<Longrightarrow> name_char c"
  by (auto simp: sanitize_edge_state_name_def dest: sanitize_char_chars)

lemma sanitize_char_fixed: "name_char c \<Longrightarrow> sanitize_char c = [c]"
  by (auto simp: sanitize_char_def name_char_def is_ascii_alphanumeric_def ascii_lower_def Let_def
      in_range_def)

lemma sanitize_idem:
  "sanitize_edge_state_name (sanitize_edge_state_name v) = sanitize_edge_state_name v"
proof -
  have "concat (map sanitize_char w) = w" if "\<forall>c \<in> set w. name_char c" for w
    using that by (induction w) (auto simp: sanitize_char_fixed)
  then show ?thesis using sanitize_chars unfolding sanitize_edge_state_name_def by blast
qed

lemma name_char_no_slash:
  assumes "\<And>c. c \<in> set w \<Longrightarrow> name_char c"
  shows "CHR ''/'' \<notin> set w"
proof
  assume "CHR ''/'' \<in> set w"
  then have "name_char CHR ''/''" by (rule assms)
  then show False by (simp add: name_char_def)
qed

lemma sanitize_no_slash [simp]: "CHR ''/'' \<notin> set (sanitize_edge_state_name v)"
  by (rule name_char_no_slash) (rule sanitize_chars)

lemma json_name_ok [simp]:
  "json_name n \<noteq> []" "json_name n \<noteq> ''.''" "CHR ''/'' \<in> set (json_name n) \<longleftrightarrow> CHR ''/'' \<in> set n"
  by (auto simp: json_name_def append_eq_Cons_conv)

subsection \<open>Permissions\<close>

fun dir_node :: "bool \<Rightarrow> fs_node option \<Rightarrow> bool" where
  "dir_node private (Some (DirNode mode)) = (private \<longrightarrow> mode AND 0x3F = 0)"
| "dir_node private (Some DirLink) = True"
| "dir_node private _ = False"

text \<open>The state after a directory was made, and the step of the loop in these terms.\<close>

definition made :: "path \<Rightarrow> 'a fs_scheme \<Rightarrow> 'a fs_scheme" where
  "made p d = d\<lparr>fs_ios := Suc (fs_ios d),
     fs_nodes := (fs_nodes d)(p \<mapsto> DirNode (0x1FF AND NOT (fs_umask d)))\<rparr>"

lemma mkdirs_Cons:
  "mkdirs (p # ps) d = (case fs_nodes d p of
       Some n \<Rightarrow> if n = OtherNode then (Inl ''File exists'', d) else mkdirs ps d
     | None \<Rightarrow> (case fs_io d (fs_ios d) of
           Some e \<Rightarrow> (Inl e, d\<lparr>fs_ios := Suc (fs_ios d)\<rparr>) | None \<Rightarrow> mkdirs ps (made p d)))"
  by (simp add: next_fs_io_def made_def split: option.split fs_node.split)

lemma made_nodes [simp]:
  "fs_nodes (made p d) q = (if q = p then Some (DirNode (0x1FF AND NOT (fs_umask d))) else fs_nodes d q)"
  by (simp add: made_def)

lemma mkdirs_keeps: "fs_nodes d q = Some n \<Longrightarrow> fs_nodes (snd (mkdirs ps d)) q = Some n"
proof (induction ps arbitrary: d)
  case (Cons p ps)
  have "fs_nodes (made p d) q = Some n" if "fs_nodes d p = None" using that Cons.prems by auto
  then show ?case
    using Cons by (auto simp: mkdirs_Cons simp del: mkdirs.simps made_nodes split: option.split)
qed simp

lemma dir_node_weak: "dir_node b n \<Longrightarrow> dir_node False n"
  by (induction b n rule: dir_node.induct) auto

lemma mkdirs_dirs:
  assumes "fst (mkdirs ps d) = Inr ()" and "p \<in> set ps"
  shows "dir_node False (fs_nodes (snd (mkdirs ps d)) p)"
  using assms
proof (induction ps arbitrary: d)
  case (Cons q ps)
  obtain d' n where d': "mkdirs (q # ps) d = mkdirs ps d'" and q: "fs_nodes d' q = Some n" "n \<noteq> OtherNode"
    using Cons.prems(1) that[of "made q d"]
    by (cases "fs_nodes d q") (auto simp: mkdirs_Cons simp del: mkdirs.simps split: option.splits if_splits)
  show ?case
  proof (cases "p \<in> set ps")
    case True
    then show ?thesis using Cons.IH[of d'] Cons.prems(1) unfolding d' by blast
  next
    case False
    then have "p = q" using Cons.prems(2) by simp
    then show ?thesis unfolding d' using q(2) mkdirs_keeps[OF q(1), of ps] by (cases n) auto
  qed
qed simp

lemma create_dir_all_dir:
  assumes "fst (create_dir_all p d) = Inr ()" and "p \<noteq> []"
  shows "dir_node False (fs_nodes (snd (create_dir_all p d)) p)"
proof -
  have "take (length p) p \<in> set (path_prefixes p)"
    unfolding path_prefixes_def using assms(2) by (subst set_map, intro imageI) (cases p, auto)
  then show ?thesis using assms(1) unfolding create_dir_all_def by (intro mkdirs_dirs) auto
qed

lemma create_dir_all_keeps:
  "dir_node b (fs_nodes d q) \<Longrightarrow> dir_node b (fs_nodes (snd (create_dir_all p d)) q)"
  using mkdirs_keeps[of d q] unfolding create_dir_all_def by (cases "fs_nodes d q") fastforce+

lemma heal_nodes:
  assumes "heal_owner_only p d = (Inr (), d')"
  shows "dir_node False (fs_nodes d p) \<Longrightarrow> dir_node True (fs_nodes d' p)"
    and "q \<noteq> p \<Longrightarrow> fs_nodes d' q = fs_nodes d q"
  using assms
  by (auto simp: heal_owner_only_def next_fs_io_def split: option.splits fs_node.splits if_splits)

lemma heal_keeps:
  assumes "heal_owner_only p d = (Inr (), d')" and "dir_node b (fs_nodes d q)"
  shows "dir_node b (fs_nodes d' q)"
proof (cases "q = p")
  case True
  have "dir_node False (fs_nodes d p)" using assms(2) True by (cases "fs_nodes d p" rule: option.exhaust;
      simp) (metis dir_node.simps fs_node.exhaust)
  then have "dir_node True (fs_nodes d' p)" by (rule heal_nodes[OF assms(1)])
  then show ?thesis unfolding True
    by (cases "fs_nodes d' p"; simp) (metis dir_node.simps fs_node.exhaust)
qed (use heal_nodes(2)[OF assms(1)] assms(2) in simp)

definition root_dir :: "path \<Rightarrow> string \<Rightarrow> 'a fs_scheme \<Rightarrow> bool" where
  "root_dir b root d = dir_node (root \<in> set OWNER_ONLY_ROOTS) (fs_nodes d (path_join b root))"

lemma ensure_roots_dirs:
  assumes "ensure_roots b roots created d = (Inr ps, d')"
    and "\<forall>r \<in> set roots. path_join b r \<noteq> []"
  shows "ps = created @ map (path_join b) roots \<and> (\<forall>r. root_dir b r d \<longrightarrow> root_dir b r d')
    \<and> (\<forall>r \<in> set roots. root_dir b r d')"
  using assms
proof (induction roots arbitrary: created d)
  case (Cons x roots)
  let ?p = "path_join b x" and ?own = "x \<in> set OWNER_ONLY_ROOTS"
  obtain d1 where d1: "create_dir_all ?p d = (Inr (), d1)"
    using Cons.prems(1) by (auto simp: Let_def split: prod.splits sum.splits)
  obtain d2 where d2: "(if ?own then heal_owner_only ?p d1 else (Inr (), d1)) = (Inr (), d2)"
    and rest: "ensure_roots b roots (created @ [?p]) d2 = (Inr ps, d')"
    using Cons.prems(1) d1 by (auto simp: Let_def split: prod.splits sum.splits if_splits)
  have x: "root_dir b x d2"
  proof -
    have "dir_node False (fs_nodes d1 ?p)"
      using create_dir_all_dir[of ?p d] d1 Cons.prems(2) by simp
    then show ?thesis using d2 heal_nodes(1)[of ?p d1 d2] by (auto simp: root_dir_def split: if_splits)
  qed
  have keep: "root_dir b r d2" if "root_dir b r d" for r
  proof -
    have "root_dir b r d1" using that create_dir_all_keeps[of _ d _ ?p] d1 by (auto simp: root_dir_def)
    then show ?thesis using d2 heal_keeps[of ?p d1 d2] by (auto simp: root_dir_def split: if_splits)
  qed
  have "\<forall>r \<in> set roots. path_join b r \<noteq> []" using Cons.prems(2) by simp
  then show ?case using Cons.IH[OF rest] x keep by auto
qed simp

subsection \<open>Properties\<close>

text \<open>
  Property C20. A \<^verbatim>\<open>localhost://\<close> URI or rooted path never leaves the data directory: every
  path that \<^verbatim>\<open>rooted_localhost_fs_path\<close> returns is the data directory, one of the seven
  file-backed roots, and segments that are neither empty, \<^verbatim>\<open>.\<close> nor \<^verbatim>\<open>..\<close> and contain
  no separator of either kind.
\<close>

theorem localhost_path_confined:
  assumes "rooted_localhost_fs_path b u = Some p"
  shows "\<exists>root segs. p = b @ root # segs \<and> root \<in> set FILE_BACKED_ROOTS
    \<and> (\<forall>s \<in> set segs. s \<noteq> [] \<and> s \<noteq> ''.'' \<and> s \<noteq> ''..'' \<and> CHR ''/'' \<notin> set s \<and> CHR 0x5C \<notin> set s)"
proof -
  obtain root rest where p: "p = b @ root # filter (\<lambda>s. s \<noteq> []) (split_on CHR ''/'' rest)"
    and "root \<in> set FILE_BACKED_ROOTS" "\<forall>s \<in> set (split_on CHR ''/'' rest). safe_segment s"
    using assms unfolding fs_path_eq by (auto split: option.splits if_splits)
  then show ?thesis
    by (intro exI[of _ root] exI[of _ "filter (\<lambda>s. s \<noteq> []) (split_on CHR ''/'' rest)"])
      (auto simp: safe_segment_def dest: split_on_pieces)
qed

theorem localhost_path_confined_witness:
  "\<exists>root segs. [''data'', ''Users'', ''a''] = [''data''] @ root # segs \<and> root \<in> set FILE_BACKED_ROOTS
    \<and> (\<forall>s \<in> set segs. s \<noteq> [] \<and> s \<noteq> ''.'' \<and> s \<noteq> ''..'' \<and> CHR ''/'' \<notin> set s \<and> CHR 0x5C \<notin> set s)"
proof (rule localhost_path_confined)
  show "rooted_localhost_fs_path [''data''] ''localhost://Users/a'' = Some [''data'', ''Users'', ''a'']"
    using fs_path_of_uri[of "''localhost://Users/a''" "''Users''" "''a''" "[''a'']" "[''data'']"]
    by (simp add: localhost_uri_of_def FILE_BACKED_ROOTS_def safe_segment_def graphic_def)
qed

lemma parse_localhost_path_hd:
  assumes "parse_localhost_path p = Some (root, rest)" and "p = [] \<or> graphic (hd p)" and "hd p \<noteq> CHR ''/''"
  shows "hd p = hd root"
proof -
  let ?t = "trim_end_char CHR ''/'' (trim_start_char CHR ''/'' (trim p))"
  have tr: "trim p = trim_end p" using assms(2) by (simp add: trim_def trim_start_graphic)
  note pre = prefix_trim_end[of p]
  have "trim_start_char CHR ''/'' (trim p) = trim p"
    using pre assms(3) unfolding tr
    by (intro trim_start_char_id) (metis hd_append2 prefixE)
  then have "prefix ?t p"
    using prefix_trim_end_char[of "CHR ''/''" "trim p"] pre by (metis tr prefix_order.trans)
  moreover have "?t \<noteq> [] \<and> hd ?t = hd root"
    using parse_localhost_path_Some[OF assms(1)] in_ALL_ROOTS by simp
  ultimately show ?thesis by (metis hd_append2 prefixE)
qed

lemma parse_path_of_uri: "prefix ''localhost://'' u \<Longrightarrow> parse_localhost_path u = None"
proof (rule ccontr)
  assume "prefix ''localhost://'' u" and "parse_localhost_path u \<noteq> None"
  then obtain t root rest where u: "u = ''localhost://'' @ t" and p: "parse_localhost_path u = Some (root, rest)"
    by (auto simp: prefix_def)
  have "hd u = hd root" using u by (intro parse_localhost_path_hd[OF p]) (simp_all add: graphic_def)
  moreover have "\<forall>r \<in> set ALL_ROOTS. hd r \<noteq> CHR ''l''" by (simp add: ALL_ROOTS_def)
  ultimately show False using parse_localhost_path_Some(1)[OF p] by (auto simp: u)
qed

text \<open>The parse both functions share.\<close>

definition parse_rooted :: "string \<Rightarrow> (string \<times> string) option" where
  "parse_rooted u = (if prefix ''localhost://'' u then parse_localhost_uri u else parse_localhost_path u)"

lemma rooted_localhost_uri_eq: "rooted_localhost_uri u = map_option localhost_uri_of (parse_rooted u)"
  by (auto simp: rooted_localhost_uri_def parse_rooted_def parse_path_of_uri parse_localhost_uri_def
      strip_prefix_def split: option.split)

lemma parse_rooted_path: "parse_rooted u = Some p \<Longrightarrow> \<exists>w. parse_localhost_path w = Some p"
  by (auto simp: parse_rooted_def parse_localhost_uri_def split: if_splits option.splits)

text \<open>
  The canonical URI is a fixed point and names the same file: when
  \<^verbatim>\<open>rooted_localhost_uri\<close> gives a URI that does not end in white space, canonicalising it
  again changes nothing, and it maps to the same path below any data directory as the
  original.
\<close>

theorem canonical_uri_stable:
  assumes "rooted_localhost_uri u = Some v" and "trim_end v = v"
  shows "rooted_localhost_uri v = Some v \<and> rooted_localhost_fs_path b v = rooted_localhost_fs_path b u"
proof -
  obtain root rest where u: "parse_rooted u = Some (root, rest)" and v: "v = localhost_uri_of (root, rest)"
    using assms(1) by (auto simp: rooted_localhost_uri_eq)
  obtain w where "parse_localhost_path w = Some (root, rest)" using parse_rooted_path[OF u] by blast
  moreover have "suffix rest v" by (auto simp: v localhost_uri_of_def suffix_def)
  then have "trim_end rest = rest"
    using assms(2) suffix_order.trans[of _ rest v] unfolding trim_end_fixed_iff by blast
  ultimately have "parse_localhost_uri v = Some (root, rest)" unfolding v by (intro parse_rooted_uri)
  moreover have "prefix ''localhost://'' v" by (simp add: v localhost_uri_of_def)
  ultimately have "parse_rooted v = Some (root, rest)" by (simp add: parse_rooted_def)
  then show ?thesis
    using u by (simp add: rooted_localhost_uri_eq v fs_path_eq parse_rooted_def[symmetric])
qed

theorem canonical_uri_stable_witness:
  "rooted_localhost_uri ''localhost://Users/a'' = Some ''localhost://Users/a''
   \<and> rooted_localhost_fs_path [''data''] ''localhost://Users/a''
     = rooted_localhost_fs_path [''data''] ''/Users/a/''"
proof (rule canonical_uri_stable)
  have t: "trim ''/Users/a/'' = ''/Users/a/''" by (rule trim_graphic) (simp add: graphic_def)
  have p: "parse_localhost_path ''/Users/a/'' = Some (''Users'', ''a'')"
    by (simp add: parse_localhost_path_def t trim_start_char_def trim_end_char_def ALL_ROOTS_def)
  show "rooted_localhost_uri ''/Users/a/'' = Some ''localhost://Users/a''"
    by (simp add: rooted_localhost_uri_eq parse_rooted_def p localhost_uri_of_def)
  show "trim_end ''localhost://Users/a'' = ''localhost://Users/a''"
    by (rule trim_end_graphic) (simp add: graphic_def)
qed

text \<open>
  Per-person roots are private once the roots exist: when
  \<^verbatim>\<open>ensure_file_backed_roots\<close> succeeds, whatever was there before, it returns the seven
  roots in order, each is a directory (or a link to one), and no directory among \<^verbatim>\<open>Users\<close> and
  \<^verbatim>\<open>UsersAI\<close> has a permission bit for anyone but its owner.
\<close>

theorem owner_only_roots_private:
  assumes "ensure_file_backed_roots b d = (Inr ps, d')"
  shows "ps = map (\<lambda>r. b @ [r]) FILE_BACKED_ROOTS
    \<and> (\<forall>r \<in> set FILE_BACKED_ROOTS. \<exists>n. fs_nodes d' (b @ [r]) = Some n \<and> n \<noteq> OtherNode)
    \<and> (\<forall>r \<in> set OWNER_ONLY_ROOTS. \<forall>mode. fs_nodes d' (b @ [r]) = Some (DirNode mode) \<longrightarrow> mode AND 0x3F = 0)"
proof -
  have j: "path_join b r = b @ [r]" if "r \<in> set FILE_BACKED_ROOTS" for r
    using that FILE_BACKED_subset in_ALL_ROOTS[of r]
    by (subst path_join_segment) (auto simp: FILE_BACKED_ROOTS_def)
  then have "\<forall>r \<in> set FILE_BACKED_ROOTS. path_join b r \<noteq> []" by simp
  then have r: "ps = map (path_join b) FILE_BACKED_ROOTS" "\<forall>r \<in> set FILE_BACKED_ROOTS. root_dir b r d'"
    using ensure_roots_dirs[OF assms[unfolded ensure_file_backed_roots_def]] by auto
  have "ps = map (\<lambda>r. b @ [r]) FILE_BACKED_ROOTS" using j r(1) by simp
  moreover have "\<exists>n. fs_nodes d' (b @ [r]) = Some n \<and> n \<noteq> OtherNode" if "r \<in> set FILE_BACKED_ROOTS" for r
    using bspec[OF r(2) that] j[OF that]
    by (cases "fs_nodes d' (b @ [r])") (auto simp: root_dir_def split: if_splits)
  moreover have "mode AND 0x3F = 0"
    if "r \<in> set OWNER_ONLY_ROOTS" "fs_nodes d' (b @ [r]) = Some (DirNode mode)" for r mode
  proof -
    have "r \<in> set FILE_BACKED_ROOTS" using that(1) by (auto simp: OWNER_ONLY_ROOTS_def FILE_BACKED_ROOTS_def)
    then show ?thesis using r(2) that j by (auto simp: root_dir_def)
  qed
  ultimately show ?thesis by blast
qed

text \<open>A disk with a \<^verbatim>\<open>Users\<close> directory that an earlier start left open to everybody.\<close>

definition demo_fs :: fs where
  "demo_fs = \<lparr>fs_nodes = [[''d''] \<mapsto> DirNode 0x1ED, [''d'', ''Users''] \<mapsto> DirNode 0x1ED],
     fs_umask = 0x12, fs_io = (\<lambda>_. None), fs_ios = 0\<rparr>"

theorem owner_only_roots_private_witness:
  "fs_nodes demo_fs [''d'', ''Users''] = Some (DirNode 0x1ED)
   \<and> (\<exists>mode. fs_nodes (snd (ensure_file_backed_roots [''d''] demo_fs)) ([''d''] @ [''Users'']) = Some (DirNode mode)
        \<and> mode AND 0x3F = 0)"
proof -
  have "fst (ensure_file_backed_roots [''d''] demo_fs) = Inr (map (\<lambda>r. [''d''] @ [r]) FILE_BACKED_ROOTS)"
    by code_simp
  then obtain d' where d': "ensure_file_backed_roots [''d''] demo_fs
      = (Inr (map (\<lambda>r. [''d''] @ [r]) FILE_BACKED_ROOTS), d')" by (metis prod.collapse)
  have "fs_nodes (snd (ensure_file_backed_roots [''d''] demo_fs)) ([''d''] @ [''Users'']) = Some (DirNode 0x1C0)"
    by code_simp
  then have n: "fs_nodes d' ([''d''] @ [''Users'']) = Some (DirNode 0x1C0)" by (simp add: d')
  have "''Users'' \<in> set OWNER_ONLY_ROOTS" by (simp add: OWNER_ONLY_ROOTS_def)
  then have "\<exists>mode. fs_nodes d' ([''d''] @ [''Users'']) = Some (DirNode mode) \<and> mode AND 0x3F = 0"
    using owner_only_roots_private[OF d'] n by blast
  moreover have "fs_nodes demo_fs [''d'', ''Users''] = Some (DirNode 0x1ED)" by (simp add: demo_fs_def)
  ultimately show ?thesis by (simp add: d')
qed

end
