(* ===== verification/Content_Resolver.thy ===== *)
theory Content_Resolver
  imports Cap_Manager Localhost
begin

section \<open>Content-addressed identifiers and their resolver\<close>

text \<open>
  \<^verbatim>\<open>elastos-namespace/src/resolver.rs\<close>: the parser of \<^verbatim>\<open>elastos://\<close> URIs and the resolver with
  its memory cache, its file cache and its gateways. The CID parser of the \<^verbatim>\<open>cid\<close> crate is
  the argument \<open>P\<close>. The transport (\<^verbatim>\<open>ContentFetcher\<close>) and the file system are oracles of the
  state \<open>content\<close>, which extends the state of the runtime: the n-th call gets the n-th
  answer. The files of the cache directory are a map from their names.
\<close>

subsection \<open>URIs\<close>

definition MAX_CONTENT_SIZE :: nat where
  "MAX_CONTENT_SIZE = 100 * 1024 * 1024"

datatype identifier_type = IpfsCid | Sha256 | UnknownId

record content_uri =
  uri_identifier :: string
  uri_id_type :: identifier_type
  uri_path :: "string option"

datatype parse_error = InvalidScheme | EmptyIdentifier | InvalidIdentifier string

fun parse_error_display :: "parse_error \<Rightarrow> string" where
  "parse_error_display InvalidScheme = ''URI must start with elastos://''"
| "parse_error_display EmptyIdentifier = ''empty content identifier''"
| "parse_error_display (InvalidIdentifier i) = ''invalid identifier: '' @ i"

definition is_ascii_hexdigit :: "char \<Rightarrow> bool" where
  "is_ascii_hexdigit c = (char_nibble c \<noteq> None)"

definition detect_type :: "string \<Rightarrow> identifier_type" where
  "detect_type i =
     (if (case strip_prefix ''sha256:'' i of None \<Rightarrow> False
          | Some hash \<Rightarrow> length hash = 64 \<and> list_all is_ascii_hexdigit hash) then Sha256
      else if prefix ''Qm'' i \<and> length i = 46 then IpfsCid
      else if prefix ''baf'' i \<and> length i \<ge> 50 then IpfsCid
      else UnknownId)"

definition parse_content_uri :: "string \<Rightarrow> parse_error + content_uri" where
  "parse_content_uri uri =
     (if \<not> prefix ''elastos://'' uri then Inl InvalidScheme
      else (let rest = drop 10 uri in
        if rest = [] then Inl EmptyIdentifier
        else (let (identifier, p) = (case find_sub ''/'' rest of
                  Some slash_pos \<Rightarrow> (take slash_pos rest,
                    (let p = drop (slash_pos + 1) rest in if p = [] then None else Some p))
                | None \<Rightarrow> (rest, None));
                id_type = detect_type identifier
              in if id_type = UnknownId then Inl (InvalidIdentifier identifier)
                 else Inr \<lparr>uri_identifier = identifier, uri_id_type = id_type, uri_path = p\<rparr>)))"

definition content_uri_display :: "content_uri \<Rightarrow> string" where
  "content_uri_display u = (case uri_path u of
       Some p \<Rightarrow> ''elastos://'' @ uri_identifier u @ ''/'' @ p
     | None \<Rightarrow> ''elastos://'' @ uri_identifier u)"

subsection \<open>Results, errors and the state\<close>

record fetch_result =
  fr_content :: bytes
  fr_source :: ns_fetch_source
  fr_verified :: bool

datatype fetch_error = ParseFailed parse_error | ContentNotFound | HashMismatch string string
  | TooLarge nat nat | Network string | IoFailed string

fun fetch_error_display :: "fetch_error \<Rightarrow> string" where
  "fetch_error_display (ParseFailed e) = ''parse error: '' @ parse_error_display e"
| "fetch_error_display ContentNotFound = ''content not found''"
| "fetch_error_display (HashMismatch e a) = ''hash mismatch: expected '' @ e @ '', got '' @ a"
| "fetch_error_display (TooLarge n m) =
     ''content too large: '' @ dec_of_nat n @ '' bytes (max '' @ dec_of_nat m @ '')''"
| "fetch_error_display (Network e) = ''network error: '' @ e"
| "fetch_error_display (IoFailed e) = ''io error: '' @ e"

record resolver_config =
  cfg_cache_dir :: "string option"
  cfg_ipfs_gateways :: "string list"
  cfg_max_content_size :: nat
  cfg_enable_cache :: bool

definition resolver_config_default :: resolver_config where
  "resolver_config_default = \<lparr>cfg_cache_dir = None, cfg_ipfs_gateways = [],
     cfg_max_content_size = MAX_CONTENT_SIZE, cfg_enable_cache = True\<rparr>"

text \<open>
  The answer of the file system to one call: success, or a failure that left the written file
  with the given bytes (or untouched) or removed some of the files.
\<close>

datatype fs_answer = FsOk | FsFail "bytes option" "string list"

record content = runtime +
  rs_config :: resolver_config
  rs_cache :: "(string, bytes) hmap"
  rs_files :: "(string, bytes) hmap"
  rs_io :: "nat \<Rightarrow> fs_answer"
  rs_ios :: nat
  rs_fetch :: "nat \<Rightarrow> string \<Rightarrow> fetch_error + bytes"
  rs_fetches :: nat

definition resolver_new :: "resolver_config \<Rightarrow> 'a content_scheme \<Rightarrow> 'a content_scheme" where
  "resolver_new config s = s\<lparr>rs_config := config, rs_cache := []\<rparr>"

text \<open>\<^verbatim>\<open>NullFetcher\<close>, as an oracle.\<close>

definition null_fetcher :: "nat \<Rightarrow> string \<Rightarrow> fetch_error + bytes" where
  "null_fetcher n url = Inl ContentNotFound"

definition next_answer :: "'a content_scheme \<Rightarrow> fs_answer \<times> 'a content_scheme" where
  "next_answer s = (rs_io s (rs_ios s), s\<lparr>rs_ios := Suc (rs_ios s)\<rparr>)"

subsection \<open>Verification against the CID\<close>

datatype cid_version = CidV0 | CidV1

record cid =
  cid_version :: cid_version
  cid_codec :: u64
  cid_hash_code :: u64
  cid_digest :: bytes

type_synonym cid_parser = "string \<Rightarrow> string + cid"

datatype cid_verification = Verified | Unverifiable string | InvalidCid string | Mismatch string

definition verify_cid_content :: "externals \<Rightarrow> cid_parser \<Rightarrow> string \<Rightarrow> bytes \<Rightarrow> cid_verification" where
  "verify_cid_content X P cid_str content = (case P cid_str of
       Inl e \<Rightarrow> InvalidCid (''failed to parse CID '' @ [CHR 0x27] @ cid_str @ [CHR 0x27] @ '': '' @ e)
     | Inr parsed \<Rightarrow>
         if cid_version parsed \<noteq> CidV1 \<or> cid_codec parsed \<noteq> 0x55 then Unverifiable ''non-raw codec''
         else if cid_hash_code parsed \<noteq> 0x12 then Unverifiable ''unsupported hash function''
         else (let expected = cid_digest parsed; actual = sha256 X content
           in if actual = expected then Verified
              else Mismatch (''CID hash mismatch: expected '' @ hex_encode X expected @ '', got ''
                @ hex_encode X actual)))"

subsection \<open>The caches\<close>

definition cache_filename :: "externals \<Rightarrow> string \<Rightarrow> string" where
  "cache_filename X identifier =
     hex_encode X (take 16 (sha256 X (bytes_of identifier))) @ ''.cache''"

definition hash_content :: "externals \<Rightarrow> bytes \<Rightarrow> string" where
  "hash_content X content = ''sha256:'' @ hex_encode X (sha256 X content)"

definition verify_hash :: "externals \<Rightarrow> bytes \<Rightarrow> string \<Rightarrow> bool" where
  "verify_hash X content expected = (hash_content X content = expected)"

text \<open>Reading a file that exists; \<^const>\<open>None\<close> when it does not or the read fails.\<close>

definition read_cache_file :: "string \<Rightarrow> 'a content_scheme \<Rightarrow> bytes option \<times> 'a content_scheme" where
  "read_cache_file name s = (case hm_get (rs_files s) name of None \<Rightarrow> (None, s)
     | Some content \<Rightarrow> (let (a, s) = next_answer s in (if a = FsOk then Some content else None, s)))"

definition check_cache :: "externals \<Rightarrow> string \<Rightarrow> 'a content_scheme \<Rightarrow> bytes option \<times> 'a content_scheme" where
  "check_cache X identifier s = (case hm_get (rs_cache s) identifier of
       Some content \<Rightarrow> (Some content, s)
     | None \<Rightarrow> (case cfg_cache_dir (rs_config s) of
           None \<Rightarrow> (None, s)
         | Some _ \<Rightarrow> (let (r, s) = read_cache_file (cache_filename X identifier) s in
             case r of None \<Rightarrow> (None, s)
             | Some content \<Rightarrow> (Some content, s\<lparr>rs_cache := hm_insert identifier content (rs_cache s)\<rparr>))))"

definition store_cache :: "externals \<Rightarrow> string \<Rightarrow> bytes \<Rightarrow> 'a content_scheme \<Rightarrow> 'a content_scheme" where
  "store_cache X identifier content s =
     (let s = s\<lparr>rs_cache := hm_insert identifier content (rs_cache s)\<rparr> in
      case cfg_cache_dir (rs_config s) of None \<Rightarrow> s
      | Some _ \<Rightarrow> (let (a, s) = next_answer s in
          if a \<noteq> FsOk then s
          else (let name = cache_filename X identifier; (a, s) = next_answer s in
            case a of
              FsOk \<Rightarrow> s\<lparr>rs_files := hm_insert name content (rs_files s)\<rparr>
            | FsFail (Some torn) _ \<Rightarrow> s\<lparr>rs_files := hm_insert name torn (rs_files s)\<rparr>
            | FsFail None _ \<Rightarrow> s)))"

definition clear_cache :: "'a content_scheme \<Rightarrow> 'a content_scheme" where
  "clear_cache s =
     (let s = s\<lparr>rs_cache := []\<rparr> in
      case cfg_cache_dir (rs_config s) of None \<Rightarrow> s
      | Some _ \<Rightarrow>
          (let (a, s) = next_answer s;
               s = (case a of FsOk \<Rightarrow> s\<lparr>rs_files := []\<rparr>
                 | FsFail _ removed \<Rightarrow>
                     s\<lparr>rs_files := hm_retain (\<lambda>n _. n \<notin> set removed) (rs_files s)\<rparr>);
               (a, s) = next_answer s
           in s))"

record resolver_stats =
  memory_entries :: nat
  memory_bytes :: nat

definition resolver_cache_stats :: "'a content_scheme \<Rightarrow> resolver_stats" where
  "resolver_cache_stats s = \<lparr>memory_entries = length (rs_cache s),
     memory_bytes = sum_list (map (\<lambda>(_, v). length v) (rs_cache s))\<rparr>"

subsection \<open>Fetching\<close>

definition fetch_url :: "string \<Rightarrow> 'a content_scheme \<Rightarrow> (fetch_error + bytes) \<times> 'a content_scheme" where
  "fetch_url url s =
     (let r = rs_fetch s (rs_fetches s) url; s = s\<lparr>rs_fetches := Suc (rs_fetches s)\<rparr> in
      case r of Inl e \<Rightarrow> (Inl e, s)
      | Inr b \<Rightarrow> if length b > cfg_max_content_size (rs_config s)
          then (Inl (TooLarge (length b) (cfg_max_content_size (rs_config s))), s) else (Inr b, s))"

definition path_suffix :: "content_uri \<Rightarrow> string" where
  "path_suffix uri = (case uri_path uri of None \<Rightarrow> [] | Some p \<Rightarrow> ''/'' @ p)"

definition gateway_url :: "string \<Rightarrow> content_uri \<Rightarrow> string" where
  "gateway_url gateway uri =
     trim_end_char CHR ''/'' gateway @ ''/ipfs/'' @ uri_identifier uri @ path_suffix uri"

text \<open>
  What a response is worth: \<^const>\<open>None\<close> is a mismatch, which sends the loop to the next
  gateway; otherwise whether it counts as verified.
\<close>

definition gateway_verdict :: "externals \<Rightarrow> cid_parser \<Rightarrow> content_uri \<Rightarrow> bytes \<Rightarrow> bool option" where
  "gateway_verdict X P uri content =
     (if path_suffix uri = [] then (case verify_cid_content X P (uri_identifier uri) content of
          Verified \<Rightarrow> Some True
        | Unverifiable _ \<Rightarrow> Some False
        | InvalidCid _ \<Rightarrow> Some False
        | Mismatch _ \<Rightarrow> None)
      else Some False)"

fun try_gateways ::
    "externals \<Rightarrow> cid_parser \<Rightarrow> content_uri \<Rightarrow> string list \<Rightarrow> 'a content_scheme
     \<Rightarrow> (fetch_error + fetch_result) \<times> 'a content_scheme" where
  "try_gateways X P uri [] s =
     (Inl ContentNotFound, sink_content_fetch (uri_identifier uri) (NsIpfsGateway ''all'') False s)"
| "try_gateways X P uri (gateway # gateways) s =
     (let (r, s) = fetch_url (gateway_url gateway uri) s in case r of
        Inl e \<Rightarrow> try_gateways X P uri gateways s
      | Inr content \<Rightarrow> (case gateway_verdict X P uri content of
          None \<Rightarrow> try_gateways X P uri gateways s
        | Some verified \<Rightarrow>
            (let s = (if cfg_enable_cache (rs_config s) then store_cache X (uri_identifier uri) content s
                      else s);
                 s = sink_content_fetch (uri_identifier uri) (NsIpfsGateway gateway) verified s
             in (Inr \<lparr>fr_content = content, fr_source = NsIpfsGateway gateway, fr_verified = verified\<rparr>, s))))"

definition fetch_from_ipfs ::
    "externals \<Rightarrow> cid_parser \<Rightarrow> content_uri \<Rightarrow> 'a content_scheme
     \<Rightarrow> (fetch_error + fetch_result) \<times> 'a content_scheme" where
  "fetch_from_ipfs X P uri s = try_gateways X P uri (cfg_ipfs_gateways (rs_config s)) s"

definition fetch_by_sha256 ::
    "externals \<Rightarrow> content_uri \<Rightarrow> 'a content_scheme \<Rightarrow> (fetch_error + fetch_result) \<times> 'a content_scheme" where
  "fetch_by_sha256 X uri s = (case cfg_cache_dir (rs_config s) of
       None \<Rightarrow> (Inl ContentNotFound, s)
     | Some _ \<Rightarrow>
         (let (r, s) = read_cache_file (cache_filename X (uri_identifier uri)) s in case r of
            None \<Rightarrow> (Inl ContentNotFound, s)
          | Some content \<Rightarrow>
              if verify_hash X content (uri_identifier uri) then
                (Inr \<lparr>fr_content = content, fr_source = NsLocalCache, fr_verified = True\<rparr>,
                 sink_content_fetch (uri_identifier uri) NsLocalCache True s)
              else (Inl ContentNotFound, s)))"

definition fetch_uri ::
    "externals \<Rightarrow> cid_parser \<Rightarrow> content_uri \<Rightarrow> 'a content_scheme
     \<Rightarrow> (fetch_error + fetch_result) \<times> 'a content_scheme" where
  "fetch_uri X P uri s =
     (let (hit, s) = (if cfg_enable_cache (rs_config s) then check_cache X (uri_identifier uri) s
                      else (None, s))
      in case hit of
        Some content \<Rightarrow>
          (Inr \<lparr>fr_content = content, fr_source = NsLocalCache, fr_verified = True\<rparr>,
           sink_content_fetch (uri_identifier uri) NsLocalCache True s)
      | None \<Rightarrow> (case uri_id_type uri of
          IpfsCid \<Rightarrow> fetch_from_ipfs X P uri s
        | Sha256 \<Rightarrow> fetch_by_sha256 X uri s
        | UnknownId \<Rightarrow> (Inl ContentNotFound, s)))"

definition fetch_content ::
    "externals \<Rightarrow> cid_parser \<Rightarrow> string \<Rightarrow> 'a content_scheme
     \<Rightarrow> (fetch_error + fetch_result) \<times> 'a content_scheme" where
  "fetch_content X P uri s = (case parse_content_uri uri of
       Inl e \<Rightarrow> (Inl (ParseFailed e), s) | Inr u \<Rightarrow> fetch_uri X P u s)"

subsection \<open>What a cache promises\<close>

text \<open>
  A cache returns after a \<open>put\<close> what was put and nothing it did not hold before; it may
  forget. Under these laws a property of all entries is kept by putting an entry that has it.
\<close>

locale cache =
  fixes lookup :: "'s \<Rightarrow> 'k \<Rightarrow> 'v option" and put :: "'k \<Rightarrow> 'v \<Rightarrow> 's \<Rightarrow> 's"
  assumes hit_after_put: "lookup (put k v s) k = Some v"
    and no_invention: "\<lbrakk>lookup (put k v s) j = Some w; j \<noteq> k\<rbrakk> \<Longrightarrow> lookup s j = Some w"
begin

definition sound :: "('k \<Rightarrow> 'v \<Rightarrow> bool) \<Rightarrow> 's \<Rightarrow> bool" where
  "sound ok s = (\<forall>k v. lookup s k = Some v \<longrightarrow> ok k v)"

lemma soundI: "(\<And>k v. lookup s k = Some v \<Longrightarrow> ok k v) \<Longrightarrow> sound ok s"
  by (simp add: sound_def)

lemma soundD: "\<lbrakk>sound ok s; lookup s k = Some v\<rbrakk> \<Longrightarrow> ok k v"
  by (simp add: sound_def)

lemma sound_put: "\<lbrakk>sound ok s; ok k v\<rbrakk> \<Longrightarrow> sound ok (put k v s)"
  unfolding sound_def by (metis hit_after_put no_invention option.inject)

lemma sound_mono: "\<lbrakk>sound ok s; \<And>k v. lookup t k = Some v \<Longrightarrow> lookup s k = Some v\<rbrakk> \<Longrightarrow> sound ok t"
  by (simp add: sound_def)

end

interpretation table: cache hm_get hm_insert
  by unfold_locales (auto split: if_splits)

subsection \<open>Parsing and printing URIs\<close>

definition uri_wf :: "content_uri \<Rightarrow> bool" where
  "uri_wf u = (CHR ''/'' \<notin> set (uri_identifier u) \<and> uri_id_type u = detect_type (uri_identifier u)
     \<and> uri_id_type u \<noteq> UnknownId \<and> uri_path u \<noteq> Some [])"

lemma detect_type_nonempty: "detect_type [] = UnknownId"
  by (simp add: detect_type_def strip_prefix_def)

lemma uri_wf_identifier: "uri_wf u \<Longrightarrow> uri_identifier u \<noteq> []"
  using detect_type_nonempty by (auto simp: uri_wf_def)

lemma find_sub_char_fresh:
  "find_sub [c] s = Some i \<Longrightarrow> c \<notin> set (take i s)"
  "find_sub [c] s = None \<Longrightarrow> c \<notin> set s"
proof -
  show "find_sub [c] s = Some i \<Longrightarrow> c \<notin> set (take i s)"
    by (induction s arbitrary: i) (auto split: if_splits)
  show "find_sub [c] s = None \<Longrightarrow> c \<notin> set s"
    by (induction s) (auto split: if_splits)
qed

lemma parse_display:
  assumes "uri_wf u"
  shows "parse_content_uri (content_uri_display u) = Inr u"
proof -
  have i: "uri_identifier u \<noteq> []" "CHR ''/'' \<notin> set (uri_identifier u)"
    and ty: "detect_type (uri_identifier u) = uri_id_type u" "uri_id_type u \<noteq> UnknownId"
    using assms uri_wf_identifier by (auto simp: uri_wf_def)
  show ?thesis
  proof (cases "uri_path u")
    case None
    then show ?thesis using i ty find_sub_char(2)[OF i(2)]
      by (simp add: parse_content_uri_def content_uri_display_def del: find_sub.simps)
  next
    case (Some p)
    then have "p \<noteq> []" using assms by (simp add: uri_wf_def)
    then show ?thesis using i ty Some find_sub_char(1)[OF i(2), of p]
      by (simp add: parse_content_uri_def content_uri_display_def del: find_sub.simps)
  qed
qed

lemma parse_uri_wf:
  assumes "parse_content_uri s = Inr u"
  shows "uri_wf u \<and> (s = content_uri_display u \<or> uri_path u = None \<and> s = content_uri_display u @ ''/'')"
proof -
  obtain rest where s: "s = ''elastos://'' @ rest"
    using assms by (auto simp: parse_content_uri_def prefix_def split: if_splits)
  show ?thesis
  proof (cases "find_sub ''/'' rest")
    case None
    then show ?thesis using assms find_sub_char_fresh(2)[OF None]
      by (auto simp: parse_content_uri_def s uri_wf_def content_uri_display_def Let_def split: if_splits)
  next
    case (Some i)
    note r = find_sub_char_Some[OF Some] find_sub_char_fresh(1)[OF Some]
    let ?p = "drop (i + 1) rest"
    have u: "u = \<lparr>uri_identifier = take i rest, uri_id_type = detect_type (take i rest),
        uri_path = (if ?p = [] then None else Some ?p)\<rparr>" "detect_type (take i rest) \<noteq> UnknownId"
      using assms Some unfolding s parse_content_uri_def
      by (auto simp: Let_def simp del: find_sub.simps drop_eq_Nil drop_eq_Nil2 split: if_splits)
    have "s = ''elastos://'' @ take i rest @ ''/'' @ ?p" unfolding s using r(1) by simp
    then show ?thesis using u r(2)
      by (auto simp: uri_wf_def content_uri_display_def simp del: drop_eq_Nil drop_eq_Nil2)
  qed
qed

subsection \<open>Frames\<close>

lemma emit_content [simp, frame]:
  "rs_config (emit ev s) = rs_config s" "rs_cache (emit ev s) = rs_cache s"
  "rs_files (emit ev s) = rs_files s" "rs_io (emit ev s) = rs_io s" "rs_ios (emit ev s) = rs_ios s"
  "rs_fetch (emit ev s) = rs_fetch s" "rs_fetches (emit ev s) = rs_fetches s"
  by (simp_all add: emit_def write_line_def Let_def split: option.splits prod.splits)

lemma sink_frame [simp, frame]:
  "rs_config (sink_content_fetch i src v s) = rs_config s"
  "rs_cache (sink_content_fetch i src v s) = rs_cache s"
  "rs_files (sink_content_fetch i src v s) = rs_files s"
  "rs_io (sink_content_fetch i src v s) = rs_io s"
  "rs_fetch (sink_content_fetch i src v s) = rs_fetch s"
  "rs_fetches (sink_content_fetch i src v s) = rs_fetches s"
  by (simp_all add: sink_content_fetch_def content_fetch_def ts_now_eq)

lemma store_cache_frame [simp, frame]:
  "rs_config (store_cache X i b s) = rs_config s" "rs_io (store_cache X i b s) = rs_io s"
  "rs_cache (store_cache X i b s) = hm_insert i b (rs_cache s)"
  "rs_fetch (store_cache X i b s) = rs_fetch s" "rs_fetches (store_cache X i b s) = rs_fetches s"
  by (simp_all add: store_cache_def next_answer_def Let_def split: option.split fs_answer.split)

lemma fetch_url_frame [simp, frame]:
  "rs_config (snd (fetch_url url s)) = rs_config s" "rs_cache (snd (fetch_url url s)) = rs_cache s"
  "rs_files (snd (fetch_url url s)) = rs_files s" "rs_io (snd (fetch_url url s)) = rs_io s"
  "rs_fetch (snd (fetch_url url s)) = rs_fetch s"
  "rs_fetches (snd (fetch_url url s)) = Suc (rs_fetches s)"
  by (simp_all add: fetch_url_def Let_def split: sum.split)

lemma read_cache_file_frame [simp, frame]:
  "rs_config (snd (read_cache_file n s)) = rs_config s" "rs_cache (snd (read_cache_file n s)) = rs_cache s"
  "rs_files (snd (read_cache_file n s)) = rs_files s" "rs_io (snd (read_cache_file n s)) = rs_io s"
  "rs_fetch (snd (read_cache_file n s)) = rs_fetch s"
  "rs_fetches (snd (read_cache_file n s)) = rs_fetches s"
  by (simp_all add: read_cache_file_def next_answer_def Let_def split: option.split)

lemma read_cache_file_Some: "fst (read_cache_file n s) = Some b \<Longrightarrow> hm_get (rs_files s) n = Some b"
  by (auto simp: read_cache_file_def next_answer_def Let_def split: option.splits if_splits)

subsection \<open>The gateway loop\<close>

definition cid_authentic :: "externals \<Rightarrow> cid_parser \<Rightarrow> string \<Rightarrow> bytes \<Rightarrow> bool" where
  "cid_authentic X P i b = (case P i of Inl _ \<Rightarrow> False
     | Inr c \<Rightarrow> cid_version c = CidV1 \<and> cid_codec c = 0x55 \<and> cid_hash_code c = 0x12
         \<and> cid_digest c = sha256 X b)"

lemma verify_cid_Verified: "verify_cid_content X P i b = Verified \<longleftrightarrow> cid_authentic X P i b"
  by (auto simp: verify_cid_content_def cid_authentic_def Let_def split: sum.split)

text \<open>What the i-th of the gateways would answer, and the first answer that counts.\<close>

definition gateway_answer ::
    "externals \<Rightarrow> cid_parser \<Rightarrow> content_uri \<Rightarrow> 'a content_scheme \<Rightarrow> nat \<Rightarrow> string \<Rightarrow> fetch_result option" where
  "gateway_answer X P u s i g = (case rs_fetch s (rs_fetches s + i) (gateway_url g u) of
       Inl _ \<Rightarrow> None
     | Inr b \<Rightarrow> if length b > cfg_max_content_size (rs_config s) then None
         else map_option (\<lambda>v. \<lparr>fr_content = b, fr_source = NsIpfsGateway g, fr_verified = v\<rparr>)
           (gateway_verdict X P u b))"

fun first_answer :: "(nat \<Rightarrow> 'g \<Rightarrow> 'r option) \<Rightarrow> nat \<Rightarrow> 'g list \<Rightarrow> 'r option" where
  "first_answer f n [] = None"
| "first_answer f n (g # gs) = (case f n g of None \<Rightarrow> first_answer f (Suc n) gs | Some r \<Rightarrow> Some r)"

lemma first_answer_Some: "first_answer f n gs = Some r \<Longrightarrow> \<exists>i. \<exists>g \<in> set gs. f i g = Some r"
  by (induction gs arbitrary: n) (fastforce split: option.splits)+

lemma fst_try_gateways:
  assumes "rs_fetch s = rs_fetch s0" "rs_config s = rs_config s0" "rs_fetches s = rs_fetches s0 + n"
  shows "fst (try_gateways X P u gs s) = (case first_answer (gateway_answer X P u s0) n gs of
     None \<Rightarrow> Inl ContentNotFound | Some r \<Rightarrow> Inr r)"
  using assms
proof (induction gs arbitrary: s n)
  case (Cons g gs)
  let ?s = "snd (fetch_url (gateway_url g u) s)"
  have IH: "fst (try_gateways X P u gs ?s) = (case first_answer (gateway_answer X P u s0) (Suc n) gs of
     None \<Rightarrow> Inl ContentNotFound | Some r \<Rightarrow> Inr r)"
    using Cons.prems by (intro Cons.IH) simp_all
  have f: "fst (fetch_url (gateway_url g u) s) = (case rs_fetch s0 (rs_fetches s0 + n) (gateway_url g u) of
      Inl e \<Rightarrow> Inl e | Inr b \<Rightarrow> if length b > cfg_max_content_size (rs_config s0)
        then Inl (TooLarge (length b) (cfg_max_content_size (rs_config s0))) else Inr b)"
    using Cons.prems by (simp add: fetch_url_def Let_def split: sum.split)
  have a: "gateway_answer X P u s0 n g = (case fst (fetch_url (gateway_url g u) s) of Inl _ \<Rightarrow> None
      | Inr b \<Rightarrow> map_option (\<lambda>v. \<lparr>fr_content = b, fr_source = NsIpfsGateway g, fr_verified = v\<rparr>)
          (gateway_verdict X P u b))"
    by (simp add: gateway_answer_def f split: sum.split)
  show ?case
  proof (cases "fst (fetch_url (gateway_url g u) s)")
    case (Inl e)
    then show ?thesis using IH a by (simp add: case_prod_beta)
  next
    case (Inr b)
    then show ?thesis using IH a
      by (cases "gateway_verdict X P u b") (simp_all add: case_prod_beta Let_def)
  qed
qed simp

lemma fetch_from_ipfs_eq:
  "fst (fetch_from_ipfs X P u s)
    = (case first_answer (gateway_answer X P u s) 0 (cfg_ipfs_gateways (rs_config s)) of
        None \<Rightarrow> Inl ContentNotFound | Some r \<Rightarrow> Inr r)"
  unfolding fetch_from_ipfs_def by (rule fst_try_gateways) simp_all

lemma gateway_verdict_True:
  "gateway_verdict X P u b = Some True \<Longrightarrow> uri_path u = None \<and> cid_authentic X P (uri_identifier u) b"
  by (auto simp: gateway_verdict_def path_suffix_def verify_cid_Verified[symmetric]
      split: if_splits cid_verification.splits option.splits)

subsection \<open>The caches along a run\<close>

definition authentic :: "externals \<Rightarrow> cid_parser \<Rightarrow> string \<Rightarrow> bytes \<Rightarrow> bool" where
  "authentic X P i b = (if detect_type i = Sha256 then verify_hash X b i else cid_authentic X P i b)"

text \<open>An identifier whose content can be checked: a SHA-256 name or a raw SHA2-256 CID.\<close>

definition checkable :: "cid_parser \<Rightarrow> string \<Rightarrow> bool" where
  "checkable P i = (detect_type i = Sha256 \<or> (case P i of Inl _ \<Rightarrow> False
     | Inr c \<Rightarrow> cid_version c = CidV1 \<and> cid_codec c = 0x55 \<and> cid_hash_code c = 0x12))"

definition no_torn_writes :: "'a content_scheme \<Rightarrow> bool" where
  "no_torn_writes s = (\<forall>n b r. rs_io s n \<noteq> FsFail (Some b) r)"

definition caches_authentic :: "externals \<Rightarrow> cid_parser \<Rightarrow> string set \<Rightarrow> 'a content_scheme \<Rightarrow> bool" where
  "caches_authentic X P I s =
     (table.sound (\<lambda>i b. i \<in> I \<longrightarrow> authentic X P i b) (rs_cache s)
      \<and> table.sound (\<lambda>n b. \<forall>i \<in> I. n = cache_filename X i \<longrightarrow> authentic X P i b) (rs_files s)
      \<and> no_torn_writes s)"

inductive resolver_step ::
    "externals \<Rightarrow> cid_parser \<Rightarrow> string set \<Rightarrow> 'a content_scheme \<Rightarrow> 'a content_scheme \<Rightarrow> bool"
  for X P I where
  step_fetch: "\<lbrakk>uri_wf u; uri_path u = None; uri_identifier u \<in> I\<rbrakk>
     \<Longrightarrow> resolver_step X P I s (snd (fetch_uri X P u s))"
| step_clear: "resolver_step X P I s (clear_cache s)"
| step_restart: "resolver_step X P I s (resolver_new (rs_config s) s)"

lemma gateway_verdict_bare:
  assumes "checkable P (uri_identifier u)" "uri_id_type u = IpfsCid" "uri_wf u" "gateway_verdict X P u b = Some v"
    "uri_path u = None"
  shows "authentic X P (uri_identifier u) b"
proof -
  have t: "detect_type (uri_identifier u) = IpfsCid" using assms(2,3) by (simp add: uri_wf_def)
  then have "verify_cid_content X P (uri_identifier u) b = Verified"
    using assms(1,4,5) by (auto simp: checkable_def gateway_verdict_def path_suffix_def verify_cid_content_def
        Let_def split: sum.splits if_splits)
  then show ?thesis using t by (simp add: authentic_def verify_cid_Verified)
qed

lemma store_cache_authentic:
  assumes "caches_authentic X P I s" "inj_on (cache_filename X) I" "i \<in> I" "authentic X P i b"
  shows "caches_authentic X P I (store_cache X i b s)"
proof -
  let ?okf = "\<lambda>n b. \<forall>i \<in> I. n = cache_filename X i \<longrightarrow> authentic X P i b"
  have "\<forall>j \<in> I. cache_filename X i = cache_filename X j \<longrightarrow> authentic X P j b"
    using assms(2-4) by (auto dest: inj_onD)
  then have f: "table.sound ?okf (hm_insert (cache_filename X i) b (rs_files s))"
    using assms(1) by (intro table.sound_put) (auto simp: caches_authentic_def)
  have "rs_io s n \<noteq> FsFail (Some c) r" for n c r
    using assms(1) by (simp add: caches_authentic_def no_torn_writes_def)
  then have "rs_files (store_cache X i b s) \<in> {rs_files s, hm_insert (cache_filename X i) b (rs_files s)}"
    by (auto simp: store_cache_def next_answer_def Let_def split: option.split fs_answer.split)
  then have "table.sound ?okf (rs_files (store_cache X i b s))"
    using f assms(1) by (auto simp: caches_authentic_def)
  moreover have "table.sound (\<lambda>i b. i \<in> I \<longrightarrow> authentic X P i b) (rs_cache (store_cache X i b s))"
    using assms(1,4) by (auto simp: caches_authentic_def intro: table.sound_put)
  ultimately show ?thesis using assms(1) by (simp add: caches_authentic_def no_torn_writes_def)
qed

lemma caches_authentic_frame:
  "\<lbrakk>caches_authentic X P I s; rs_cache t = rs_cache s; rs_files t = rs_files s; rs_io t = rs_io s\<rbrakk>
   \<Longrightarrow> caches_authentic X P I t"
  by (simp add: caches_authentic_def no_torn_writes_def)

lemma try_gateways_authentic:
  assumes "caches_authentic X P I s" "inj_on (cache_filename X) I"
    and "checkable P (uri_identifier u)" "uri_id_type u = IpfsCid" "uri_wf u" "uri_path u = None"
    and "uri_identifier u \<in> I"
  shows "caches_authentic X P I (snd (try_gateways X P u gs s))
    \<and> (\<forall>r. fst (try_gateways X P u gs s) = Inr r \<longrightarrow> authentic X P (uri_identifier u) (fr_content r))"
  using assms(1)
proof (induction gs arbitrary: s)
  case Nil
  then show ?case by (auto intro: caches_authentic_frame)
next
  case (Cons g gs)
  let ?s = "snd (fetch_url (gateway_url g u) s)"
  have s: "caches_authentic X P I ?s" by (rule caches_authentic_frame[OF Cons.prems]) simp_all
  note IH = Cons.IH[OF s]
  show ?case
  proof (cases "fst (fetch_url (gateway_url g u) s)")
    case (Inl e)
    then show ?thesis using IH by (simp add: case_prod_beta)
  next
    case (Inr b)
    show ?thesis
    proof (cases "gateway_verdict X P u b")
      case None
      then show ?thesis using IH Inr by (simp add: case_prod_beta)
    next
      case (Some v)
      have a: "authentic X P (uri_identifier u) b"
        using gateway_verdict_bare[OF assms(3,4,5) Some assms(6)] .
      have "caches_authentic X P I (if cfg_enable_cache (rs_config ?s)
          then store_cache X (uri_identifier u) b ?s else ?s)"
        using store_cache_authentic[OF s assms(2,7) a] s by simp
      then show ?thesis using Some Inr a
        by (auto simp: case_prod_beta Let_def intro: caches_authentic_frame)
    qed
  qed
qed

lemma check_cache_cases:
  obtains (mem) b where "hm_get (rs_cache s) i = Some b" "check_cache X i s = (Some b, s)"
  | (disk) b where "hm_get (rs_cache s) i = None" "hm_get (rs_files s) (cache_filename X i) = Some b"
      "check_cache X i s = (Some b, (snd (read_cache_file (cache_filename X i) s))
         \<lparr>rs_cache := hm_insert i b (rs_cache s)\<rparr>)"
  | (miss) t where "hm_get (rs_cache s) i = None" "check_cache X i s = (None, t)"
      "t = s \<or> t = snd (read_cache_file (cache_filename X i) s)"
proof (cases "hm_get (rs_cache s) i")
  case None
  show ?thesis
  proof (cases "cfg_cache_dir (rs_config s)")
    case no_dir: None
    then show ?thesis using miss[of s] None by (simp add: check_cache_def)
  next
    case (Some d)
    let ?r = "read_cache_file (cache_filename X i) s"
    show ?thesis
    proof (cases "fst ?r")
      case missing: None
      show ?thesis by (rule miss[of "snd ?r"]) (simp_all add: check_cache_def case_prod_beta None Some missing)
    next
      case found: (Some b)
      show ?thesis
        by (rule disk[of b]) (simp_all add: check_cache_def case_prod_beta None Some found
            read_cache_file_Some[OF found])
    qed
  qed
next
  case (Some b)
  then show ?thesis using mem[of b] by (simp add: check_cache_def)
qed

lemma check_cache_authentic:
  assumes "caches_authentic X P I s" "i \<in> I"
  shows "caches_authentic X P I (snd (check_cache X i s))
    \<and> (\<forall>b. fst (check_cache X i s) = Some b \<longrightarrow> authentic X P i b)"
proof (cases rule: check_cache_cases[of s i X])
  case (mem b)
  then show ?thesis using assms by (auto simp: caches_authentic_def dest: table.soundD)
next
  case (disk b)
  have a: "authentic X P i b" using disk(2) assms by (auto simp: caches_authentic_def dest: table.soundD)
  have "table.sound (\<lambda>i b. i \<in> I \<longrightarrow> authentic X P i b) (hm_insert i b (rs_cache s))"
    using assms(1) a by (intro table.sound_put) (simp_all add: caches_authentic_def)
  then show ?thesis using disk(3) a assms(1) by (simp add: caches_authentic_def no_torn_writes_def)
next
  case (miss t)
  then have "caches_authentic X P I t" using assms(1) by (auto intro: caches_authentic_frame)
  then show ?thesis using miss by simp
qed

lemma fetch_by_sha256_result:
  assumes "fetch_by_sha256 X u s = (r, s')"
  shows "rs_cache s' = rs_cache s \<and> rs_files s' = rs_files s \<and> rs_io s' = rs_io s
    \<and> (case r of Inl e \<Rightarrow> e = ContentNotFound
       | Inr x \<Rightarrow> verify_hash X (fr_content x) (uri_identifier u) \<and> fr_source x = NsLocalCache \<and> fr_verified x)"
  using assms by (auto simp: fetch_by_sha256_def case_prod_beta split: option.splits if_splits)

lemma fetch_uri_authentic:
  assumes s: "caches_authentic X P I s" and inj: "inj_on (cache_filename X) I"
    and u: "uri_wf u" "uri_path u = None" "uri_identifier u \<in> I" and c: "\<forall>i \<in> I. checkable P i"
  shows "caches_authentic X P I (snd (fetch_uri X P u s))
    \<and> (\<forall>r. fst (fetch_uri X P u s) = Inr r \<longrightarrow> authentic X P (uri_identifier u) (fr_content r))"
proof -
  define p where "p = (if cfg_enable_cache (rs_config s) then check_cache X (uri_identifier u) s else (None, s))"
  have p: "caches_authentic X P I (snd p)" "\<And>b. fst p = Some b \<Longrightarrow> authentic X P (uri_identifier u) b"
    using check_cache_authentic[OF s u(3)] s by (auto simp: p_def split: if_splits)
  have f: "fetch_uri X P u s = (case fst p of
      Some b \<Rightarrow> (Inr \<lparr>fr_content = b, fr_source = NsLocalCache, fr_verified = True\<rparr>,
          sink_content_fetch (uri_identifier u) NsLocalCache True (snd p))
    | None \<Rightarrow> (case uri_id_type u of IpfsCid \<Rightarrow> fetch_from_ipfs X P u (snd p)
        | Sha256 \<Rightarrow> fetch_by_sha256 X u (snd p) | UnknownId \<Rightarrow> (Inl ContentNotFound, snd p)))"
    unfolding fetch_uri_def p_def[symmetric] by (simp add: case_prod_beta Let_def)
  show ?thesis
  proof (cases "fst p")
    case (Some b)
    then show ?thesis using p f by (auto intro: caches_authentic_frame)
  next
    case None
    show ?thesis
    proof (cases "uri_id_type u")
      case IpfsCid
      then show ?thesis
        using try_gateways_authentic[OF p(1) inj _ IpfsCid u] c u(3) None f by (simp add: fetch_from_ipfs_def)
    next
      case Sha256
      obtain r s' where q: "fetch_by_sha256 X u (snd p) = (r, s')" by fastforce
      have "detect_type (uri_identifier u) = Sha256" using u(1) Sha256 by (simp add: uri_wf_def)
      then show ?thesis using fetch_by_sha256_result[OF q] q f None Sha256 p(1)
        by (auto simp: authentic_def intro: caches_authentic_frame[OF p(1)] split: sum.splits)
    next
      case UnknownId
      then show ?thesis using u(1) by (simp add: uri_wf_def)
    qed
  qed
qed

lemma clear_cache_authentic:
  assumes "caches_authentic X P I s"
  shows "caches_authentic X P I (clear_cache s)"
proof -
  have files: "rs_files (clear_cache s) = rs_files s \<or> rs_files (clear_cache s) = []
      \<or> (\<exists>rm. rs_files (clear_cache s) = hm_retain (\<lambda>n _. n \<notin> rm) (rs_files s))"
    by (auto simp: clear_cache_def next_answer_def Let_def split: option.split fs_answer.split)
  have "hm_get (rs_files (clear_cache s)) k = Some v \<Longrightarrow> hm_get (rs_files s) k = Some v" for k v
  proof -
    have "hm_get (hm_retain (\<lambda>n _. n \<notin> rm) m) k = (if k \<in> rm then None else hm_get m k)"
      for rm and m :: "(string, bytes) hmap"
      by (induction m) (auto simp: hm_get_def hm_retain_def)
    then show "hm_get (rs_files (clear_cache s)) k = Some v \<Longrightarrow> hm_get (rs_files s) k = Some v"
      using files by (auto split: if_splits)
  qed
  then have "table.sound (\<lambda>n b. \<forall>i \<in> I. n = cache_filename X i \<longrightarrow> authentic X P i b) (rs_files (clear_cache s))"
    using assms by (auto simp: caches_authentic_def intro: table.sound_mono)
  moreover have "rs_cache (clear_cache s) = []" "rs_io (clear_cache s) = rs_io s"
    by (auto simp: clear_cache_def next_answer_def Let_def split: option.split fs_answer.split)
  ultimately show ?thesis using assms
    by (simp add: caches_authentic_def no_torn_writes_def table.sound_def)
qed

lemma resolver_run_authentic:
  assumes "(resolver_step X P I)\<^sup>*\<^sup>* s s'" "caches_authentic X P I s"
    and "inj_on (cache_filename X) I" "\<forall>i \<in> I. checkable P i"
  shows "caches_authentic X P I s'"
  using assms(1,2)
proof (induction rule: rtranclp_induct)
  case (step s1 s2)
  have s1: "caches_authentic X P I s1" by (rule step.IH[OF step.prems])
  from step.hyps(2) show ?case
  proof cases
    case (step_fetch u)
    then show ?thesis using fetch_uri_authentic[OF s1 assms(3) _ _ _ assms(4)] by simp
  next
    case step_clear
    then show ?thesis using clear_cache_authentic[OF s1] by simp
  next
    case step_restart
    then show ?thesis using s1
      by (simp add: resolver_new_def caches_authentic_def no_torn_writes_def table.sound_def)
  qed
qed

subsection \<open>Properties\<close>

text \<open>
  URIs survive printing: what \<^verbatim>\<open>ContentUri::parse\<close> accepts has an identifier
  without a slash and of a known type and no empty path; printing it gives the text back, up
  to one trailing slash after a bare identifier, and parses to the same URI again.
\<close>

theorem content_uri_roundtrip:
  assumes "parse_content_uri s = Inr u"
  shows "uri_wf u \<and> parse_content_uri (content_uri_display u) = Inr u
    \<and> (s = content_uri_display u \<or> uri_path u = None \<and> s = content_uri_display u @ ''/'')"
  using parse_uri_wf[OF assms] parse_display by blast

definition demo_cid_text :: string where
  "demo_cid_text = ''baf'' @ replicate 47 CHR ''a''"

definition demo_uri :: content_uri where
  "demo_uri = \<lparr>uri_identifier = demo_cid_text, uri_id_type = IpfsCid, uri_path = None\<rparr>"

lemma demo_uri_wf: "uri_wf demo_uri" "detect_type demo_cid_text = IpfsCid"
  by (simp_all add: uri_wf_def demo_uri_def demo_cid_text_def detect_type_def strip_prefix_def)

theorem content_uri_roundtrip_witness:
  "uri_wf demo_uri \<and> parse_content_uri (content_uri_display demo_uri) = Inr demo_uri
    \<and> (content_uri_display demo_uri = content_uri_display demo_uri \<or> uri_path demo_uri = None
       \<and> content_uri_display demo_uri = content_uri_display demo_uri @ ''/'')"
  by (rule content_uri_roundtrip) (rule parse_display, rule demo_uri_wf)

lemma fetch_from_ipfs_result:
  assumes "fst (fetch_from_ipfs X P u s) = Inr r"
  shows "length (fr_content r) \<le> cfg_max_content_size (rs_config s)
    \<and> (fr_verified r \<longrightarrow> uri_path u = None \<and> cid_authentic X P (uri_identifier u) (fr_content r))"
proof -
  have "first_answer (gateway_answer X P u s) 0 (cfg_ipfs_gateways (rs_config s)) = Some r"
    using assms by (simp add: fetch_from_ipfs_eq split: option.splits)
  from first_answer_Some[OF this] obtain i g where "gateway_answer X P u s i g = Some r" by blast
  then show ?thesis using gateway_verdict_True[of X P u]
    by (cases "rs_fetch s (rs_fetches s + i) (gateway_url g u)")
      (auto simp: gateway_answer_def split: if_splits)
qed

text \<open>
  Gateways are tried in order and the first acceptable response wins: failed
  transfers, oversized bodies and bodies that do not hash to the CID are skipped; the result
  never exceeds the size limit, and it is reported as verified only for a bare raw CID whose
  SHA-256 digest the body has.
\<close>

theorem first_good_gateway_wins:
  "fst (fetch_from_ipfs X P u s)
    = (case first_answer (gateway_answer X P u s) 0 (cfg_ipfs_gateways (rs_config s)) of
        None \<Rightarrow> Inl ContentNotFound | Some r \<Rightarrow> Inr r)
   \<and> (\<forall>r. fst (fetch_from_ipfs X P u s) = Inr r \<longrightarrow>
        length (fr_content r) \<le> cfg_max_content_size (rs_config s)
        \<and> (fr_verified r \<longrightarrow> uri_path u = None \<and> cid_authentic X P (uri_identifier u) (fr_content r)))"
  using fetch_from_ipfs_eq[of X P u s] fetch_from_ipfs_result[of X P u s] by blast

text \<open>A resolver with two gateways: the first serves junk, the second the content.\<close>

definition demo_cids :: cid_parser where
  "demo_cids i = (if i = demo_cid_text
     then Inr \<lparr>cid_version = CidV1, cid_codec = 0x55, cid_hash_code = 0x12, cid_digest = [1, 2, 3]\<rparr>
     else Inl ''bad'')"

definition demo_resolver_config :: resolver_config where
  "demo_resolver_config = \<lparr>cfg_cache_dir = Some ''cache'', cfg_ipfs_gateways = [''https://a/'', ''https://b''],
     cfg_max_content_size = 10, cfg_enable_cache = True\<rparr>"

definition demo_content :: content where
  "demo_content = runtime.extend demo_rt (content.fields demo_resolver_config [] [] (\<lambda>_. FsOk) 0
     (\<lambda>n url. Inr (if n = 0 then [9] else [1, 2, 3])) 0)"

lemma demo_content_sel [simp]:
  "rs_config demo_content = demo_resolver_config" "rs_cache demo_content = []" "rs_files demo_content = []"
  "rs_io demo_content = (\<lambda>_. FsOk)" "rs_ios demo_content = 0" "rs_fetches demo_content = 0"
  "rs_fetch demo_content = (\<lambda>n url. Inr (if n = 0 then [9] else [1, 2, 3]))"
  by (simp_all add: demo_content_def content.fields_def runtime.defs)

lemma demo_answers:
  "gateway_answer demo_ext demo_cids demo_uri demo_content 0 g = None"
  "gateway_answer demo_ext demo_cids demo_uri demo_content 1 g
    = Some \<lparr>fr_content = [1, 2, 3], fr_source = NsIpfsGateway g, fr_verified = True\<rparr>"
  by (simp_all add: gateway_answer_def gateway_verdict_def path_suffix_def demo_uri_def
      verify_cid_content_def demo_cids_def demo_resolver_config_def)

lemma demo_fetch:
  "fst (fetch_from_ipfs demo_ext demo_cids demo_uri demo_content)
    = Inr \<lparr>fr_content = [1, 2, 3], fr_source = NsIpfsGateway ''https://b'', fr_verified = True\<rparr>"
  using demo_answers[unfolded One_nat_def] by (simp add: fetch_from_ipfs_eq demo_resolver_config_def)

theorem first_good_gateway_wins_witness:
  "cid_authentic demo_ext demo_cids demo_cid_text [1, 2, 3]"
  using first_good_gateway_wins[THEN conjunct2, rule_format, OF demo_fetch]
  by (simp add: demo_uri_def)

text \<open>
  As long as only bare identifiers that can be checked are fetched, everything
  the resolver ever returns is authentic: over any sequence of fetches, cache clearings and
  restarts from empty caches, with writes that are not torn and no two of the identifiers on
  one cache file, the content returned for an identifier hashes to it, whether it comes from
  a gateway, from memory or from the disk.
\<close>

theorem bare_fetches_authentic:
  assumes "rs_cache s = []" "rs_files s = []" "no_torn_writes s"
    and "inj_on (cache_filename X) I" "\<forall>i \<in> I. checkable P i"
    and "(resolver_step X P I)\<^sup>*\<^sup>* s s'"
    and "uri_wf u" "uri_path u = None" "uri_identifier u \<in> I"
    and "fst (fetch_uri X P u s') = Inr r"
  shows "authentic X P (uri_identifier u) (fr_content r)"
proof -
  have "caches_authentic X P I s"
    using assms(1-3) by (simp add: caches_authentic_def table.sound_def)
  then have "caches_authentic X P I s'" by (rule resolver_run_authentic[OF assms(6) _ assms(4,5)])
  then show ?thesis using fetch_uri_authentic[OF _ assms(4,7-9,5)] assms(10) by blast
qed

lemma demo_fetch_uri:
  "fst (fetch_uri demo_ext demo_cids demo_uri demo_content)
    = Inr \<lparr>fr_content = [1, 2, 3], fr_source = NsIpfsGateway ''https://b'', fr_verified = True\<rparr>"
  using demo_fetch
  by (simp add: fetch_uri_def check_cache_def read_cache_file_def demo_resolver_config_def demo_uri_def)

theorem bare_fetches_authentic_witness:
  "authentic demo_ext demo_cids demo_cid_text [1, 2, 3]"
proof -
  let ?r = "\<lparr>fr_content = [1, 2, 3], fr_source = NsIpfsGateway ''https://b'', fr_verified = True\<rparr>"
  have c: "\<forall>i \<in> {demo_cid_text}. checkable demo_cids i" by (simp add: checkable_def demo_cids_def)
  have t: "no_torn_writes demo_content" by (simp add: no_torn_writes_def)
  have "authentic demo_ext demo_cids (uri_identifier demo_uri) (fr_content ?r)"
    using demo_uri_wf(1) c t demo_fetch_uri
    by (intro bare_fetches_authentic[of demo_content demo_ext "{demo_cid_text}" demo_cids demo_content demo_uri ?r])
      (simp_all add: demo_uri_def)
  then show ?thesis by (simp add: demo_uri_def)
qed

lemma try_gateways_stores:
  assumes "try_gateways X P u gs t = (Inr r, s')" "cfg_enable_cache (rs_config t)"
  shows "hm_get (rs_cache s') (uri_identifier u) = Some (fr_content r) \<and> rs_config s' = rs_config t"
  using assms
proof (induction gs arbitrary: t)
  case (Cons g gs)
  let ?t = "snd (fetch_url (gateway_url g u) t)"
  have IH: "try_gateways X P u gs ?t = (Inr r, s') \<Longrightarrow> ?case"
    using Cons.IH[of ?t] Cons.prems(2) by simp
  show ?case
  proof (cases "fst (fetch_url (gateway_url g u) t)")
    case (Inl e)
    then show ?thesis using IH Cons.prems(1) by (simp add: case_prod_beta)
  next
    case (Inr b)
    then show ?thesis using IH Cons.prems
      by (cases "gateway_verdict X P u b") (auto simp: case_prod_beta Let_def)
  qed
qed simp

lemma fetch_uri_after_miss:
  assumes "fetch_uri X P u s = (Inr r, s')" "fr_source r \<noteq> NsLocalCache" "cfg_enable_cache (rs_config s)"
    "uri_id_type u = IpfsCid"
  obtains t where "rs_config t = rs_config s" "fetch_from_ipfs X P u t = (Inr r, s')"
proof (cases rule: check_cache_cases[of s "uri_identifier u" X])
  case (miss t)
  then have "rs_config t = rs_config s" by auto
  moreover have "fetch_from_ipfs X P u t = (Inr r, s')" using assms miss(2) by (simp add: fetch_uri_def)
  ultimately show ?thesis by (rule that)
qed (use assms in \<open>auto simp: fetch_uri_def\<close>)

lemma fetch_uri_hit:
  "\<lbrakk>hm_get (rs_cache s) (uri_identifier v) = Some b; cfg_enable_cache (rs_config s)\<rbrakk> \<Longrightarrow>
   fst (fetch_uri X P v s) = Inr \<lparr>fr_content = b, fr_source = NsLocalCache, fr_verified = True\<rparr>"
  by (simp add: fetch_uri_def check_cache_def)

text \<open>
  A sub-path poisons its CID: the content fetched for \<^verbatim>\<open>cid/path\<close>, which is
  reported as unverified, is cached under \<^verbatim>\<open>cid\<close> alone, and the next fetch of the bare CID
  (or of any other path below it) returns it from the cache as verified.
\<close>

theorem subpath_poisons_cid:
  assumes "cfg_enable_cache (rs_config s)" and "uri_path u = Some p" and "uri_id_type u = IpfsCid"
    and "fetch_uri X P u s = (Inr r, s')" and "fr_source r \<noteq> NsLocalCache"
    and "uri_identifier v = uri_identifier u"
  shows "\<not> fr_verified r \<and> fst (fetch_uri X P v s')
    = Inr \<lparr>fr_content = fr_content r, fr_source = NsLocalCache, fr_verified = True\<rparr>"
proof -
  obtain t where t: "rs_config t = rs_config s" "fetch_from_ipfs X P u t = (Inr r, s')"
    using fetch_uri_after_miss[OF assms(4,5,1,3)] .
  have "\<not> fr_verified r" using fetch_from_ipfs_result[of X P u t r] t(2) assms(2) by auto
  moreover have "hm_get (rs_cache s') (uri_identifier v) = Some (fr_content r) \<and> cfg_enable_cache (rs_config s')"
    using try_gateways_stores[OF t(2)[unfolded fetch_from_ipfs_def]] t(1) assms(1,6) by simp
  ultimately show ?thesis using fetch_uri_hit by blast
qed

definition demo_sub_uri :: content_uri where
  "demo_sub_uri = demo_uri\<lparr>uri_path := Some ''evil''\<rparr>"

lemma demo_sub_fetch:
  "\<exists>s. fetch_uri demo_ext demo_cids demo_sub_uri demo_content
    = (Inr \<lparr>fr_content = [9], fr_source = NsIpfsGateway ''https://a/'', fr_verified = False\<rparr>, s)"
  by (simp add: fetch_uri_def check_cache_def read_cache_file_def demo_resolver_config_def demo_sub_uri_def
      demo_uri_def fetch_from_ipfs_def fetch_url_def gateway_verdict_def path_suffix_def Let_def)

theorem subpath_poisons_cid_witness:
  "\<exists>s :: content. fst (fetch_uri demo_ext demo_cids demo_uri s)
      = Inr \<lparr>fr_content = [9], fr_source = NsLocalCache, fr_verified = True\<rparr>
    \<and> \<not> cid_authentic demo_ext demo_cids demo_cid_text [9]"
proof -
  obtain s where s: "fetch_uri demo_ext demo_cids demo_sub_uri demo_content
      = (Inr \<lparr>fr_content = [9], fr_source = NsIpfsGateway ''https://a/'', fr_verified = False\<rparr>, s)"
    using demo_sub_fetch by blast
  have "\<not> cid_authentic demo_ext demo_cids demo_cid_text [9]"
    by (simp add: cid_authentic_def demo_cids_def)
  moreover have "fst (fetch_uri demo_ext demo_cids demo_uri s)
      = Inr \<lparr>fr_content = [9], fr_source = NsLocalCache, fr_verified = True\<rparr>"
    using subpath_poisons_cid[OF _ _ _ s, of "''evil''" demo_uri]
    by (simp add: demo_sub_uri_def demo_uri_def demo_resolver_config_def)
  ultimately show ?thesis by blast
qed

end
