(* ===== verification/Namespace_Tree.thy ===== *)
theory Namespace_Tree
  imports Secure_Time Externals Localhost "HOL-Library.List_Lexorder" "HOL-Library.Char_ord"
begin

section \<open>Namespaces: signed trees from paths to content identifiers\<close>

text \<open>
  \<^verbatim>\<open>elastos-namespace/src/namespace.rs\<close>. A \<^verbatim>\<open>BTreeMap\<close> is an association list in the order of
  its keys; the byte-wise order of Rust strings is the lexicographic order of the library.
  A mutable reference into the tree is a function from the referenced entry to its new value;
  what a call changed before it failed stays changed. JSON, base64 and the key and signature
  parsers of the crates are the record \<open>ns_codec\<close>.
\<close>

subsection \<open>\<^verbatim>\<open>ContentId\<close>\<close>

datatype content_id = ContentId (cid_str: string)

definition content_id_ipfs :: "string \<Rightarrow> content_id" where
  "content_id_ipfs h =
     (if prefix ''elastos://'' h then ContentId h else ContentId (''elastos://'' @ h))"

definition from_content :: "externals \<Rightarrow> bytes \<Rightarrow> content_id" where
  "from_content X content = ContentId (''elastos://sha256:'' @ hex_encode X (sha256 X content))"

definition cid_raw :: "content_id \<Rightarrow> string" where
  "cid_raw c = (case strip_prefix ''elastos://'' (cid_str c) of Some r \<Rightarrow> r | None \<Rightarrow> cid_str c)"

definition cid_is_ipfs :: "content_id \<Rightarrow> bool" where
  "cid_is_ipfs c = (let raw = cid_raw c in prefix ''Qm'' raw \<or> prefix ''baf'' raw)"

definition cid_is_sha256 :: "content_id \<Rightarrow> bool" where
  "cid_is_sha256 c = prefix ''sha256:'' (cid_raw c)"

subsection \<open>Ordered maps\<close>

fun bt_insert :: "'k::linorder \<Rightarrow> 'v \<Rightarrow> ('k \<times> 'v) list \<Rightarrow> ('k \<times> 'v) list" where
  "bt_insert k v [] = [(k, v)]"
| "bt_insert k v ((j, w) # m) =
     (if k < j then (k, v) # (j, w) # m else if k = j then (k, v) # m else (j, w) # bt_insert k v m)"

definition bt_remove :: "'k \<Rightarrow> ('k \<times> 'v) list \<Rightarrow> ('k \<times> 'v) list" where
  "bt_remove k m = AList.delete k m"

definition bt_wf :: "('k::linorder \<times> 'v) list \<Rightarrow> bool" where
  "bt_wf m = sorted_wrt (<) (map fst m)"

lemma map_of_bt_insert [simp]: "map_of (bt_insert k v m) = (map_of m)(k \<mapsto> v)"
  by (induction k v m rule: bt_insert.induct) (auto simp: fun_eq_iff)

lemma map_of_bt_remove [simp]: "map_of (bt_remove k m) = (map_of m)(k := None)"
  by (rule ext) (simp add: bt_remove_def delete_conv')

lemma set_bt_insert: "set (bt_insert k v m) \<subseteq> insert (k, v) (set m)"
  by (induction k v m rule: bt_insert.induct) auto

lemma fst_set_bt_insert: "fst ` set (bt_insert k v m) = insert k (fst ` set m)"
  by (induction k v m rule: bt_insert.induct) auto

lemma set_bt_remove: "set (bt_remove k m) \<subseteq> set m"
  by (auto simp: bt_remove_def AList.delete_eq)

lemma bt_wf_Nil [simp]: "bt_wf []"
  by (simp add: bt_wf_def)

lemma bt_wf_insert [simp]: "bt_wf m \<Longrightarrow> bt_wf (bt_insert k v m)"
proof (induction k v m rule: bt_insert.induct)
  case (2 k v j w m)
  have "\<forall>x \<in> fst ` set (bt_insert k v m). j < x" if "\<not> k < j" "k \<noteq> j"
    using 2(2) that by (auto simp: bt_wf_def fst_set_bt_insert)
  then show ?case using 2 by (auto simp: bt_wf_def)
qed (simp add: bt_wf_def)

lemma bt_wf_remove [simp]: "bt_wf m \<Longrightarrow> bt_wf (bt_remove k m)"
  unfolding bt_wf_def bt_remove_def
  by (induction m) (auto simp: AList.delete_eq)

subsection \<open>Entries\<close>

datatype ns_entry =
  NsFile (file_cid: content_id) (file_size: u64) (file_type: "string option") (modified_at: secure_timestamp)
| NsDirectory (dir_children: "(string \<times> ns_entry) list") (modified_at: secure_timestamp)

definition entry_file ::
    "content_id \<Rightarrow> u64 \<Rightarrow> string option \<Rightarrow> 'a env_scheme \<Rightarrow> ns_entry \<times> 'a env_scheme" where
  "entry_file cid n content_type e = (let (now, e) = ts_now e in (NsFile cid n content_type now, e))"

definition entry_directory :: "'a env_scheme \<Rightarrow> ns_entry \<times> 'a env_scheme" where
  "entry_directory e = (let (now, e) = ts_now e in (NsDirectory [] now, e))"

fun entry_is_file :: "ns_entry \<Rightarrow> bool" where
  "entry_is_file (NsFile _ _ _ _) = True"
| "entry_is_file (NsDirectory _ _) = False"

fun entry_is_directory :: "ns_entry \<Rightarrow> bool" where
  "entry_is_directory (NsFile _ _ _ _) = False"
| "entry_is_directory (NsDirectory _ _) = True"

fun entry_cid :: "ns_entry \<Rightarrow> content_id option" where
  "entry_cid (NsFile cid _ _ _) = Some cid"
| "entry_cid (NsDirectory _ _) = None"

fun entry_size :: "ns_entry \<Rightarrow> u64" where
  "entry_size (NsFile _ n _ _) = n"
| "entry_size (NsDirectory children _) = sum_list (map (\<lambda>p. entry_size (snd p)) children)"

fun entry_children :: "ns_entry \<Rightarrow> (string \<times> ns_entry) list option" where
  "entry_children (NsFile _ _ _ _) = None"
| "entry_children (NsDirectory children _) = Some children"

text \<open>The children, to be stored back with the new time of the directory.\<close>

fun children_mut ::
    "ns_entry \<Rightarrow> 'a env_scheme \<Rightarrow> ((string \<times> ns_entry) list \<times> secure_timestamp) option \<times> 'a env_scheme" where
  "children_mut (NsFile _ _ _ _) e = (None, e)"
| "children_mut (NsDirectory children _) e = (let (now, e) = ts_now e in (Some (children, now), e))"

subsection \<open>\<^verbatim>\<open>Namespace\<close>\<close>

definition NAMESPACE_VERSION :: u32 where
  "NAMESPACE_VERSION = 1"

record namespace =
  ns_version :: u32
  ns_owner :: string
  ns_root :: ns_entry
  ns_created_at :: secure_timestamp
  ns_modified_at :: secure_timestamp
  ns_signature :: "string option"

datatype namespace_error = NotFound string | NotADirectory string | NotAFile string | InvalidPath string
  | InvalidOwner string | NotSigned | InvalidSignature string | SigningKeyMismatch
  | SerializationError string | IoError string | FetchError string

fun namespace_error_display :: "namespace_error \<Rightarrow> string" where
  "namespace_error_display (NotFound p) = ''path not found: '' @ p"
| "namespace_error_display (NotADirectory p) = ''not a directory: '' @ p"
| "namespace_error_display (NotAFile p) = ''not a file: '' @ p"
| "namespace_error_display (InvalidPath p) = ''invalid path: '' @ p"
| "namespace_error_display (InvalidOwner e) = ''invalid owner: '' @ e"
| "namespace_error_display NotSigned = ''namespace is not signed''"
| "namespace_error_display (InvalidSignature e) = ''invalid signature: '' @ e"
| "namespace_error_display SigningKeyMismatch = ''signing key doesn'' @ [CHR 0x27] @ ''t match owner''"
| "namespace_error_display (SerializationError e) = ''serialization error: '' @ e"
| "namespace_error_display (IoError e) = ''IO error: '' @ e"
| "namespace_error_display (FetchError e) = ''fetch error: '' @ e"

text \<open>
  \<^verbatim>\<open>serde_json\<close> on namespaces (compact and pretty), the \<^verbatim>\<open>base64\<close> engine, and the error
  messages of the \<^verbatim>\<open>hex\<close> decoder and of the key and signature parsers (none: accepted).
\<close>

record ns_codec =
  js_compact :: "namespace \<Rightarrow> string + string"
  js_pretty :: "namespace \<Rightarrow> string + string"
  js_parse :: "string \<Rightarrow> string + namespace"
  b64_encode :: "bytes \<Rightarrow> string"
  b64_decode :: "string \<Rightarrow> string + bytes"
  hex_error :: "string \<Rightarrow> string"
  key_error :: "bytes \<Rightarrow> string option"
  sig_error :: "bytes \<Rightarrow> string option"

definition namespace_new :: "externals \<Rightarrow> bytes \<Rightarrow> 'a env_scheme \<Rightarrow> namespace \<times> 'a env_scheme" where
  "namespace_new X owner_pubkey e =
     (let (now, e) = ts_now e; (root, e) = entry_directory e in
      (\<lparr>ns_version = NAMESPACE_VERSION, ns_owner = hex_encode X owner_pubkey, ns_root = root,
        ns_created_at = now, ns_modified_at = now, ns_signature = None\<rparr>, e))"

definition with_owner_hex ::
    "externals \<Rightarrow> ns_codec \<Rightarrow> string \<Rightarrow> 'a env_scheme \<Rightarrow> (namespace_error + namespace) \<times> 'a env_scheme" where
  "with_owner_hex X J owner_hex e = (case hex_decode X owner_hex of
       None \<Rightarrow> (Inl (InvalidOwner (hex_error J owner_hex)), e)
     | Some b \<Rightarrow>
         if length b \<noteq> 32 then (Inl (InvalidOwner ''Owner key must be 32 bytes''), e)
         else (let (now, e) = ts_now e; (root, e) = entry_directory e in
           (Inr \<lparr>ns_version = NAMESPACE_VERSION, ns_owner = owner_hex, ns_root = root,
             ns_created_at = now, ns_modified_at = now, ns_signature = None\<rparr>, e)))"

subsection \<open>Paths\<close>

definition normalize_path :: "string \<Rightarrow> string" where
  "normalize_path path =
     (let path = (case parse_localhost_uri path of Some (_, rest) \<Rightarrow> rest | None \<Rightarrow> path);
          path = trim_char CHR ''/'' path
      in if path = [] then [] else path)"

definition path_components :: "string \<Rightarrow> string list" where
  "path_components path =
     (let path = normalize_path path in if path = [] then [] else split_on CHR ''/'' path)"

fun resolve_at :: "string list \<Rightarrow> ns_entry \<Rightarrow> ns_entry option" where
  "resolve_at [] current = Some current"
| "resolve_at (component # cs) (NsDirectory children _) =
     (case map_of children component of None \<Rightarrow> None | Some child \<Rightarrow> resolve_at cs child)"
| "resolve_at (component # cs) (NsFile _ _ _ _) = None"

definition resolve :: "string \<Rightarrow> namespace \<Rightarrow> ns_entry option" where
  "resolve path ns = resolve_at (path_components path) (ns_root ns)"

text \<open>
  \<^verbatim>\<open>resolve_mut\<close>: the entry is replaced by what \<open>f\<close> makes of it. The times of the
  directories above it stay as they are.
\<close>

fun resolve_mut_at ::
    "string list \<Rightarrow> (ns_entry \<Rightarrow> 'a env_scheme \<Rightarrow> 'r \<times> ns_entry \<times> 'a env_scheme)
     \<Rightarrow> ns_entry \<Rightarrow> 'a env_scheme \<Rightarrow> 'r option \<times> ns_entry \<times> 'a env_scheme" where
  "resolve_mut_at [] f current e = (let (r, current, e) = f current e in (Some r, current, e))"
| "resolve_mut_at (component # cs) f (NsDirectory children t) e = (case map_of children component of
       None \<Rightarrow> (None, NsDirectory children t, e)
     | Some child \<Rightarrow> (let (r, child, e) = resolve_mut_at cs f child e
         in (r, NsDirectory (bt_insert component child children) t, e)))"
| "resolve_mut_at (component # cs) f (NsFile a b c d) e = (None, NsFile a b c d, e)"

definition resolve_mut ::
    "string \<Rightarrow> (ns_entry \<Rightarrow> 'a env_scheme \<Rightarrow> 'r \<times> ns_entry \<times> 'a env_scheme)
     \<Rightarrow> ns_entry \<Rightarrow> 'a env_scheme \<Rightarrow> 'r option \<times> ns_entry \<times> 'a env_scheme" where
  "resolve_mut path f root e = resolve_mut_at (path_components path) f root e"

text \<open>The walk of \<^verbatim>\<open>get_or_create_parent\<close>; \<open>l\<close> is the component that led to \<open>current\<close>.\<close>

fun walk_parent ::
    "string \<Rightarrow> string list \<Rightarrow> (ns_entry \<Rightarrow> 'a env_scheme \<Rightarrow> ns_entry \<times> 'a env_scheme)
     \<Rightarrow> ns_entry \<Rightarrow> 'a env_scheme \<Rightarrow> (namespace_error + unit) \<times> ns_entry \<times> 'a env_scheme" where
  "walk_parent l [] f current e =
     (if \<not> entry_is_directory current then (Inl (NotADirectory l), current, e)
      else (let (current, e) = f current e in (Inr (), current, e)))"
| "walk_parent l (component # cs) f (NsFile a b c d) e = (Inl (NotADirectory component), NsFile a b c d, e)"
| "walk_parent l (component # cs) f (NsDirectory children _) e =
     (let (now, e) = ts_now e;
          (child, e) = (case map_of children component of
              Some child \<Rightarrow> (child, e) | None \<Rightarrow> entry_directory e);
          (r, child, e) = walk_parent component cs f child e
      in (r, NsDirectory (bt_insert component child children) now, e))"

definition get_or_create_parent ::
    "string \<Rightarrow> (ns_entry \<Rightarrow> 'a env_scheme \<Rightarrow> ns_entry \<times> 'a env_scheme)
     \<Rightarrow> ns_entry \<Rightarrow> 'a env_scheme \<Rightarrow> (namespace_error + unit) \<times> ns_entry \<times> 'a env_scheme" where
  "get_or_create_parent path f root e =
     (let components = path_components path in
      if components = [] then (let (root, e) = f root e in (Inr (), root, e))
      else walk_parent [] (butlast components) f root e)"

subsection \<open>Operations\<close>

definition put_child :: "string \<Rightarrow> ns_entry \<Rightarrow> ns_entry \<Rightarrow> 'a env_scheme \<Rightarrow> ns_entry \<times> 'a env_scheme" where
  "put_child name entry parent e = (case children_mut parent e of
       (Some (children, now), e) \<Rightarrow> (NsDirectory (bt_insert name entry children) now, e)
     | (None, e) \<Rightarrow> (parent, e))"

definition ns_put ::
    "string \<Rightarrow> ns_entry \<Rightarrow> namespace \<Rightarrow> 'a env_scheme \<Rightarrow> (namespace_error + unit) \<times> namespace \<times> 'a env_scheme" where
  "ns_put path entry ns e =
     (let components = path_components path in
      if components = [] then (Inl (InvalidPath ''Cannot replace root''), ns, e)
      else (let (r, root, e) = get_or_create_parent path (put_child (last components) entry) (ns_root ns) e;
                ns = ns\<lparr>ns_root := root\<rparr>
        in case r of Inl err \<Rightarrow> (Inl err, ns, e)
           | Inr _ \<Rightarrow> (let (now, e) = ts_now e
               in (Inr (), ns\<lparr>ns_modified_at := now, ns_signature := None\<rparr>, e))))"

definition remove_child ::
    "string \<Rightarrow> string \<Rightarrow> string \<Rightarrow> ns_entry \<Rightarrow> 'a env_scheme
     \<Rightarrow> (namespace_error + ns_entry) \<times> ns_entry \<times> 'a env_scheme" where
  "remove_child path parent_path name parent e = (case children_mut parent e of
       (None, e) \<Rightarrow> (Inl (NotADirectory parent_path), parent, e)
     | (Some (children, now), e) \<Rightarrow> (case map_of children name of
           None \<Rightarrow> (Inl (NotFound path), NsDirectory children now, e)
         | Some entry \<Rightarrow> (Inr entry, NsDirectory (bt_remove name children) now, e)))"

definition ns_remove ::
    "string \<Rightarrow> namespace \<Rightarrow> 'a env_scheme \<Rightarrow> (namespace_error + ns_entry) \<times> namespace \<times> 'a env_scheme" where
  "ns_remove path ns e =
     (let components = path_components path in
      if components = [] then (Inl (InvalidPath ''Cannot remove root''), ns, e)
      else (let name = last components;
                parent_path = (if length components = 1 then [] else join_with ''/'' (butlast components));
                (r, root, e) = resolve_mut parent_path (remove_child path parent_path name) (ns_root ns) e;
                ns = ns\<lparr>ns_root := root\<rparr>
        in case r of None \<Rightarrow> (Inl (NotFound parent_path), ns, e)
           | Some (Inl err) \<Rightarrow> (Inl err, ns, e)
           | Some (Inr entry) \<Rightarrow> (let (now, e) = ts_now e
               in (Inr entry, ns\<lparr>ns_modified_at := now, ns_signature := None\<rparr>, e))))"

definition ns_list :: "string \<Rightarrow> namespace \<Rightarrow> namespace_error + (string \<times> ns_entry) list" where
  "ns_list path ns = (case resolve path ns of
       None \<Rightarrow> Inl (NotFound path)
     | Some (NsDirectory children _) \<Rightarrow> Inr children
     | Some (NsFile _ _ _ _) \<Rightarrow> Inl (NotADirectory path))"

fun count_recursive :: "ns_entry \<Rightarrow> u64" where
  "count_recursive (NsFile _ _ _ _) = 1"
| "count_recursive (NsDirectory children _) = sum_list (map (\<lambda>p. count_recursive (snd p)) children)"

definition entry_count :: "namespace \<Rightarrow> u64" where
  "entry_count ns = count_recursive (ns_root ns)"

definition total_size :: "namespace \<Rightarrow> u64" where
  "total_size ns = entry_size (ns_root ns)"

subsection \<open>Signatures and serialisation\<close>

definition signing_message :: "externals \<Rightarrow> ns_codec \<Rightarrow> namespace \<Rightarrow> namespace_error + bytes" where
  "signing_message X J ns = (case js_compact J ns of
       Inl e \<Rightarrow> Inl (SerializationError e) | Inr json \<Rightarrow> Inr (sha256 X (bytes_of json)))"

definition ns_sign :: "externals \<Rightarrow> ns_codec \<Rightarrow> bytes \<Rightarrow> namespace \<Rightarrow> (namespace_error + unit) \<times> namespace" where
  "ns_sign X J signing_key ns =
     (if ns_owner ns \<noteq> hex_encode X (ed_public X signing_key) then (Inl SigningKeyMismatch, ns)
      else (let ns = ns\<lparr>ns_signature := None\<rparr> in case signing_message X J ns of
          Inl err \<Rightarrow> (Inl err, ns)
        | Inr message \<Rightarrow>
            (Inr (), ns\<lparr>ns_signature := Some (b64_encode J (ed_sign X signing_key message))\<rparr>)))"

definition ns_verify :: "externals \<Rightarrow> ns_codec \<Rightarrow> namespace \<Rightarrow> namespace_error + bool" where
  "ns_verify X J ns = (case ns_signature ns of None \<Rightarrow> Inl NotSigned | Some signature_b64 \<Rightarrow>
     (case hex_decode X (ns_owner ns) of
        None \<Rightarrow> Inl (InvalidOwner (hex_error J (ns_owner ns)))
      | Some owner_bytes \<Rightarrow>
          if length owner_bytes \<noteq> 32 then Inl (InvalidOwner ''Invalid key length'')
          else (case key_error J owner_bytes of Some e \<Rightarrow> Inl (InvalidOwner e) | None \<Rightarrow>
            (case b64_decode J signature_b64 of Inl e \<Rightarrow> Inl (InvalidSignature e) | Inr sig_bytes \<Rightarrow>
              (case sig_error J sig_bytes of Some e \<Rightarrow> Inl (InvalidSignature e) | None \<Rightarrow>
                (case signing_message X J (ns\<lparr>ns_signature := None\<rparr>) of Inl err \<Rightarrow> Inl err | Inr message \<Rightarrow>
                  Inr (ed_verify X owner_bytes message sig_bytes)))))))"

definition to_cid :: "externals \<Rightarrow> ns_codec \<Rightarrow> namespace \<Rightarrow> namespace_error + content_id" where
  "to_cid X J ns = (case js_compact J ns of
       Inl e \<Rightarrow> Inl (SerializationError e) | Inr json \<Rightarrow> Inr (from_content X (bytes_of json)))"

definition to_json :: "ns_codec \<Rightarrow> namespace \<Rightarrow> namespace_error + string" where
  "to_json J ns = (case js_pretty J ns of Inl e \<Rightarrow> Inl (SerializationError e) | Inr json \<Rightarrow> Inr json)"

definition from_json :: "ns_codec \<Rightarrow> string \<Rightarrow> namespace_error + namespace" where
  "from_json J json = (case js_parse J json of Inl e \<Rightarrow> Inl (SerializationError e) | Inr ns \<Rightarrow> Inr ns)"

subsection \<open>The abstract view: files by path\<close>

text \<open>
  The contract of a namespace: a partial function from lists of components to file entries.
  \<open>graft p x m\<close> is \<open>m\<close> with everything at and below \<open>p\<close> replaced by \<open>x\<close>.
\<close>

definition files :: "ns_entry \<Rightarrow> string list \<Rightarrow> ns_entry option" where
  "files root p = (case resolve_at p root of
       Some entry \<Rightarrow> if entry_is_file entry then Some entry else None | None \<Rightarrow> None)"

definition graft ::
    "string list \<Rightarrow> (string list \<Rightarrow> ns_entry option) \<Rightarrow> (string list \<Rightarrow> ns_entry option) \<Rightarrow> string list
     \<Rightarrow> ns_entry option" where
  "graft p x m q = (if prefix p q then x (drop (length p) q) else m q)"

lemma files_Nil: "files entry [] = (if entry_is_file entry then Some entry else None)"
  by (simp add: files_def)

lemma files_Cons:
  "files (NsDirectory children t) (c # cs)
    = (case map_of children c of None \<Rightarrow> None | Some child \<Rightarrow> files child cs)"
  by (simp add: files_def split: option.split)

lemma files_simps [simp]:
  "files (NsFile a b c d) [] = Some (NsFile a b c d)" "files (NsFile a b c d) (x # xs) = None"
  "files (NsDirectory children t) [] = None"
  by (simp_all add: files_def)

lemma files_new_directory [simp]: "files (NsDirectory [] t) = (\<lambda>_. None)"
proof
  show "files (NsDirectory [] t) q = None" for q by (cases q) (simp_all add: files_Cons)
qed

lemma files_directory_cong:
  "(\<And>c. map_option files (map_of ch c) = map_option files (map_of ch' c))
   \<Longrightarrow> files (NsDirectory ch t) = files (NsDirectory ch' t')"
proof
  fix q
  assume *: "\<And>c. map_option files (map_of ch c) = map_option files (map_of ch' c)"
  show "files (NsDirectory ch t) q = files (NsDirectory ch' t') q"
  proof (cases q)
    case (Cons c cs)
    then show ?thesis using *[of c] by (auto simp: files_Cons split: option.splits)
  qed simp
qed

lemma files_time: "files (NsDirectory ch t) = files (NsDirectory ch t')"
  by (rule files_directory_cong) simp

lemma files_bt_insert:
  "files (NsDirectory (bt_insert c child ch) t) = graft [c] (files child) (files (NsDirectory ch t'))"
proof
  fix q
  show "files (NsDirectory (bt_insert c child ch) t) q = graft [c] (files child) (files (NsDirectory ch t')) q"
    by (cases q) (auto simp: graft_def files_Cons)
qed

lemma files_bt_remove:
  "files (NsDirectory (bt_remove c ch) t) = graft [c] (\<lambda>_. None) (files (NsDirectory ch t'))"
proof
  fix q
  show "files (NsDirectory (bt_remove c ch) t) q = graft [c] (\<lambda>_. None) (files (NsDirectory ch t')) q"
    by (cases q) (auto simp: graft_def files_Cons)
qed

lemma graft_Cons:
  "graft [c] (graft p x (case map_of ch c of None \<Rightarrow> (\<lambda>_. None) | Some child \<Rightarrow> files child))
     (files (NsDirectory ch t)) = graft (c # p) x (files (NsDirectory ch t'))"
proof
  fix q
  show "graft [c] (graft p x (case map_of ch c of None \<Rightarrow> (\<lambda>_. None) | Some child \<Rightarrow> files child))
     (files (NsDirectory ch t)) q = graft (c # p) x (files (NsDirectory ch t')) q"
    by (cases q) (auto simp: graft_def files_Cons split: option.split)
qed

lemma graft_same: "graft [c] (case map_of ch c of None \<Rightarrow> (\<lambda>_. None) | Some child \<Rightarrow> files child)
    (files (NsDirectory ch t)) = files (NsDirectory ch t')"
proof
  fix q
  show "graft [c] (case map_of ch c of None \<Rightarrow> (\<lambda>_. None) | Some child \<Rightarrow> files child)
    (files (NsDirectory ch t)) q = files (NsDirectory ch t') q"
    by (cases q) (auto simp: graft_def files_Cons split: option.split)
qed

text \<open>A file on the way to \<open>p\<close>.\<close>

definition blocked :: "ns_entry \<Rightarrow> string list \<Rightarrow> bool" where
  "blocked root p = (\<exists>q. strict_prefix q p \<and> files root q \<noteq> None)"

lemma blocked_Nil [simp]: "\<not> blocked root []"
  by (simp add: blocked_def)

lemma strict_prefix_Cons_iff:
  "strict_prefix q (c # p) \<longleftrightarrow> q = [] \<or> (\<exists>q'. q = c # q' \<and> strict_prefix q' p)"
  by (cases q) (auto simp: strict_prefix_def)

lemma blocked_file [simp]: "blocked (NsFile a b c d) (x # p)"
  unfolding blocked_def by (rule exI[of _ "[]"]) (simp add: strict_prefix_def)

lemma blocked_directory:
  "blocked (NsDirectory ch t) (c # p)
    = (case map_of ch c of None \<Rightarrow> False | Some child \<Rightarrow> blocked child p)"
  by (auto simp: blocked_def strict_prefix_Cons_iff files_Cons split: option.splits)

lemma blocked_new_directory [simp]: "\<not> blocked (NsDirectory [] t) p"
  by (simp add: blocked_def)

lemma walk_parent_put:
  assumes "walk_parent l ps (put_child name entry) cur e = (r, cur', e')"
  shows "(\<not> blocked cur (ps @ [name]) \<longrightarrow> r = Inr ()
        \<and> files cur' = graft (ps @ [name]) (files entry) (files cur))
     \<and> (blocked cur (ps @ [name]) \<longrightarrow> (\<exists>c. r = Inl (NotADirectory c)) \<and> files cur' = files cur)"
  using assms
proof (induction ps arbitrary: l cur e r cur' e')
  case Nil
  show ?case
  proof (cases cur)
    case (NsDirectory ch t)
    then show ?thesis using Nil.prems
      by (auto simp: put_child_def case_prod_beta blocked_directory files_bt_insert split: option.split)
  qed (use Nil.prems in auto)
next
  case (Cons c ps)
  show ?case
  proof (cases cur)
    case (NsFile a b d t)
    then show ?thesis using Cons.prems by auto
  next
    case (NsDirectory ch t)
    define old where "old = (case map_of ch c of None \<Rightarrow> (\<lambda>_. None) | Some child \<Rightarrow> files child)"
    obtain now e1 where t1: "ts_now e = (now, e1)" by fastforce
    obtain child e2 where c: "(case map_of ch c of Some child \<Rightarrow> (child, e1) | None \<Rightarrow> entry_directory e1)
        = (child, e2)" by fastforce
    obtain child' where w: "walk_parent c ps (put_child name entry) child e2 = (r, child', e')"
      and cur': "cur' = NsDirectory (bt_insert c child' ch) now"
      using Cons.prems NsDirectory t1 c by (auto split: prod.splits)
    have child: "files child = old" "blocked cur ((c # ps) @ [name]) = blocked child (ps @ [name])"
    proof -
      show "files child = old"
        using c by (auto simp: old_def entry_directory_def case_prod_beta split: option.splits)
      show "blocked cur ((c # ps) @ [name]) = blocked child (ps @ [name])"
        using c NsDirectory
        by (auto simp: entry_directory_def case_prod_beta blocked_directory split: option.splits)
    qed
    have f: "files cur' = graft [c] (files child') (files cur)"
      unfolding cur' NsDirectory by (rule files_bt_insert)
    show ?thesis
    proof (cases "blocked child (ps @ [name])")
      case True
      then have "files child' = old" "\<exists>c. r = Inl (NotADirectory c)" using Cons.IH[OF w] child by auto
      then show ?thesis using True child(2) f graft_same[of c ch t t] unfolding NsDirectory old_def by simp
    next
      case False
      then have "files child' = graft (ps @ [name]) (files entry) old" "r = Inr ()"
        using Cons.IH[OF w] child by auto
      then show ?thesis using False child(2) f graft_Cons[of c "ps @ [name]" "files entry" ch t t]
        unfolding NsDirectory old_def by simp
    qed
  qed
qed

lemma walk_parent_resolve:
  "\<lbrakk>walk_parent l ps (put_child name entry) cur e = (Inr (), cur', e')\<rbrakk>
   \<Longrightarrow> resolve_at (ps @ [name]) cur' = Some entry"
proof (induction ps arbitrary: l cur e cur' e')
  case Nil
  then show ?case
    by (cases cur) (auto simp: put_child_def case_prod_beta)
next
  case (Cons c ps)
  show ?case
  proof (cases cur)
    case (NsDirectory ch t)
    then show ?thesis using Cons.prems by (auto split: prod.splits dest!: Cons.IH)
  qed (use Cons.prems in simp)
qed

lemma remove_child_cases:
  "case remove_child path pp name cur e of (r, cur', e') \<Rightarrow> (case r of
      Inr x \<Rightarrow> resolve_at [name] cur = Some x \<and> files cur' = graft [name] (\<lambda>_. None) (files cur)
    | Inl err \<Rightarrow> resolve_at [name] cur = None \<and> files cur' = files cur)"
proof (cases cur)
  case (NsDirectory ch t)
  have "files (NsDirectory ch now) = files (NsDirectory ch t)" for now by (rule files_time)
  then show ?thesis using NsDirectory
    by (auto simp: remove_child_def case_prod_beta files_bt_remove[where t' = t] split: option.split)
qed (simp add: remove_child_def)

lemma resolve_mut_remove:
  assumes "resolve_mut_at ps (remove_child path pp name) cur e = (r, cur', e')"
  shows "(\<forall>x. r = Some (Inr x) \<longrightarrow> resolve_at (ps @ [name]) cur = Some x
        \<and> files cur' = graft (ps @ [name]) (\<lambda>_. None) (files cur))
     \<and> ((\<forall>x. r \<noteq> Some (Inr x)) \<longrightarrow> resolve_at (ps @ [name]) cur = None \<and> files cur' = files cur)"
  using assms
proof (induction ps arbitrary: cur e r cur' e')
  case Nil
  then show ?case using remove_child_cases[where cur = cur and path = path and pp = pp and name = name and e = e]
    by (auto split: prod.splits sum.splits)
next
  case (Cons c ps)
  show ?case
  proof (cases cur)
    case (NsDirectory ch t)
    show ?thesis
    proof (cases "map_of ch c")
      case None
      then show ?thesis using Cons.prems NsDirectory by auto
    next
      case (Some child)
      then obtain child' where w: "resolve_mut_at ps (remove_child path pp name) child e = (r, child', e')"
        and cur': "cur' = NsDirectory (bt_insert c child' ch) t"
        using Cons.prems NsDirectory by (auto split: prod.splits)
      have f: "files cur' = graft [c] (files child') (files cur)"
        unfolding cur' NsDirectory by (rule files_bt_insert)
      show ?thesis using Cons.IH[OF w] f Some NsDirectory graft_same[of c ch t t]
          graft_Cons[of c "ps @ [name]" "\<lambda>_. None" ch t t] by simp
    qed
  qed (use Cons.prems in auto)
qed

subsection \<open>Well-formed trees\<close>

fun entry_wf :: "ns_entry \<Rightarrow> bool" where
  "entry_wf (NsFile _ _ _ _) = True"
| "entry_wf (NsDirectory children _) = (bt_wf children \<and> list_all (\<lambda>p. entry_wf (snd p)) children)"

lemma entry_wf_child: "\<lbrakk>entry_wf (NsDirectory ch t); map_of ch c = Some x\<rbrakk> \<Longrightarrow> entry_wf x"
  by (force simp: list_all_iff dest: map_of_SomeD)

lemma entry_wf_insert:
  "\<lbrakk>entry_wf (NsDirectory ch t); entry_wf x\<rbrakk> \<Longrightarrow> entry_wf (NsDirectory (bt_insert c x ch) t')"
  using set_bt_insert[of c x ch] by (auto simp: list_all_iff)

lemma entry_wf_remove: "entry_wf (NsDirectory ch t) \<Longrightarrow> entry_wf (NsDirectory (bt_remove c ch) t')"
  using set_bt_remove[of c ch] by (auto simp: list_all_iff)

lemma walk_parent_wf:
  "\<lbrakk>walk_parent l ps (put_child name entry) cur e = (r, cur', e'); entry_wf cur; entry_wf entry\<rbrakk>
   \<Longrightarrow> entry_wf cur'"
proof (induction ps arbitrary: l cur e r cur' e')
  case Nil
  then show ?case
    by (cases cur) (auto simp: put_child_def case_prod_beta intro: entry_wf_insert simp del: entry_wf.simps(2))
next
  case (Cons c ps)
  show ?case
  proof (cases cur)
    case (NsDirectory ch t)
    then show ?thesis using Cons.prems
      by (auto simp: entry_directory_def simp del: entry_wf.simps(2) split: prod.splits option.splits
          intro!: entry_wf_insert intro: entry_wf_child dest!: Cons.IH simp: entry_wf.simps(2)[of "[]"])
  qed (use Cons.prems in auto)
qed

lemma resolve_mut_wf:
  "\<lbrakk>resolve_mut_at ps (remove_child path pp name) cur e = (r, cur', e'); entry_wf cur\<rbrakk> \<Longrightarrow> entry_wf cur'"
proof (induction ps arbitrary: cur e r cur' e')
  case Nil
  then show ?case
    by (cases cur) (auto simp: remove_child_def case_prod_beta split: option.splits intro: entry_wf_remove)
next
  case (Cons c ps)
  show ?case
  proof (cases cur)
    case (NsDirectory ch t)
    then show ?thesis using Cons.prems
      by (auto simp del: entry_wf.simps(2) split: prod.splits option.splits
          intro: entry_wf_insert entry_wf_child dest!: Cons.IH)
  qed (use Cons.prems in auto)
qed

inductive namespace_step :: "externals \<Rightarrow> ns_codec \<Rightarrow> namespace \<Rightarrow> namespace \<Rightarrow> bool"
  for X J where
  step_put: "\<lbrakk>ns_put path entry ns (e :: env) = (r, ns', e'); entry_wf entry\<rbrakk> \<Longrightarrow> namespace_step X J ns ns'"
| step_remove: "ns_remove path ns (e :: env) = (r, ns', e') \<Longrightarrow> namespace_step X J ns ns'"
| step_sign: "ns_sign X J key ns = (r, ns') \<Longrightarrow> namespace_step X J ns ns'"

inductive_cases namespace_stepE: "namespace_step X J ns ns'"

lemma ns_put_root:
  assumes "ns_put path entry ns e = (r, ns', e')" "path_components path \<noteq> []"
  obtains l e1 where "walk_parent l (butlast (path_components path))
      (put_child (last (path_components path)) entry) (ns_root ns) e = (r, ns_root ns', e1)"
    "r = Inr () \<Longrightarrow> ns_signature ns' = None"
    "r \<noteq> Inr () \<Longrightarrow> ns' = ns\<lparr>ns_root := ns_root ns'\<rparr>"
  using assms
  by (auto simp: ns_put_def get_or_create_parent_def Let_def split: prod.splits sum.splits)

lemma ns_remove_root:
  assumes "ns_remove path ns e = (r, ns', e')" "path_components path \<noteq> []"
    and "pp = (if length (path_components path) = 1 then [] else join_with ''/'' (butlast (path_components path)))"
  obtains q e1 where
    "resolve_mut_at (path_components pp) (remove_child path pp (last (path_components path))) (ns_root ns) e
      = (q, ns_root ns', e1)"
    "\<And>x. r = Inr x \<Longrightarrow> q = Some (Inr x) \<and> ns_signature ns' = None"
    "\<And>err. r = Inl err \<Longrightarrow> (\<forall>x. q \<noteq> Some (Inr x)) \<and> ns' = ns\<lparr>ns_root := ns_root ns'\<rparr>"
  using assms
  by (auto simp: ns_remove_def resolve_mut_def Let_def split: prod.splits sum.splits option.splits)

lemma namespace_step_wf: "\<lbrakk>namespace_step X J ns ns'; entry_wf (ns_root ns)\<rbrakk> \<Longrightarrow> entry_wf (ns_root ns')"
proof (induction rule: namespace_step.cases)
  case (step_put path entry ns e r ns' e')
  show ?case
  proof (cases "path_components path = []")
    case False
    then show ?thesis using step_put by (auto elim!: ns_put_root[OF step_put(3)] dest: walk_parent_wf)
  qed (use step_put in \<open>auto simp: ns_put_def\<close>)
next
  case (step_remove path ns e r ns' e')
  show ?case
  proof (cases "path_components path = []")
    case False
    then show ?thesis using step_remove
      by (auto elim!: ns_remove_root[OF step_remove(3) _ refl] dest: resolve_mut_wf)
  qed (use step_remove in \<open>auto simp: ns_remove_def\<close>)
next
  case (step_sign key ns r ns')
  then show ?case by (auto simp: ns_sign_def Let_def split: if_splits sum.splits)
qed

subsection \<open>Counting\<close>

fun file_paths :: "ns_entry \<Rightarrow> string list list" where
  "file_paths (NsFile _ _ _ _) = [[]]"
| "file_paths (NsDirectory children _)
    = concat (map (\<lambda>p. map ((#) (fst p)) (file_paths (snd p))) children)"

lemma set_file_paths: "entry_wf root \<Longrightarrow> set (file_paths root) = {p. files root p \<noteq> None}"
proof (induction root)
  case (NsFile a b c d)
  have "files (NsFile a b c d) p \<noteq> None \<longleftrightarrow> p = []" for p by (cases p) simp_all
  then show ?case by auto
next
  case (NsDirectory ch t)
  have d: "distinct (map fst ch)"
    using NsDirectory.prems by (auto simp: bt_wf_def strict_sorted_iff)
  have mem: "map_of ch c = Some x \<longleftrightarrow> (c, x) \<in> set ch" for c x
    using d by (simp add: map_of_eq_Some_iff)
  have IH: "set (file_paths x) = {p. files x p \<noteq> None}" if "(c, x) \<in> set ch" for c x
    using NsDirectory.IH[OF that, of x] NsDirectory.prems that by (auto simp: list_all_iff)
  show ?case
  proof (rule set_eqI)
    fix p
    show "p \<in> set (file_paths (NsDirectory ch t)) \<longleftrightarrow> p \<in> {p. files (NsDirectory ch t) p \<noteq> None}"
    proof (cases p)
      case (Cons c cs)
      have "p \<in> set (file_paths (NsDirectory ch t)) \<longleftrightarrow> (\<exists>x. (c, x) \<in> set ch \<and> cs \<in> set (file_paths x))"
        unfolding Cons by force
      also have "\<dots> \<longleftrightarrow> (\<exists>x. map_of ch c = Some x \<and> files x cs \<noteq> None)"
        using IH mem by (metis (mono_tags, lifting) mem_Collect_eq)
      also have "\<dots> \<longleftrightarrow> files (NsDirectory ch t) p \<noteq> None"
        unfolding Cons files_Cons by (cases "map_of ch c") simp_all
      finally show ?thesis by simp
    qed auto
  qed
qed

lemma distinct_file_paths: "entry_wf root \<Longrightarrow> distinct (file_paths root)"
proof (induction root)
  case (NsDirectory ch t)
  have "distinct (map fst ch)"
    using NsDirectory.prems by (auto simp: bt_wf_def strict_sorted_iff)
  moreover have "\<forall>p \<in> set ch. distinct (file_paths (snd p))"
    using NsDirectory by (auto simp: list_all_iff)
  ultimately have "distinct (concat (map (\<lambda>p. map ((#) (fst p)) (file_paths (snd p))) ch))"
    by (induction ch) (auto simp: distinct_map inj_on_def image_iff)
  then show ?case by simp
qed simp

lemma count_file_paths: "count_recursive root = of_nat (length (file_paths root))"
proof (induction root)
  case (NsDirectory ch t)
  have "\<forall>p \<in> set ch. count_recursive (snd p) = of_nat (length (file_paths (snd p)))"
    using NsDirectory by (auto elim!: snds.cases)
  then show ?case by (induction ch) simp_all
qed simp

lemma sum_list_map_concat: "sum_list (map g (concat xss)) = sum_list (map (\<lambda>xs. sum_list (map g xs)) xss)"
  by (induction xss) simp_all

lemma size_file_paths:
  assumes "entry_wf root"
  shows "entry_size root = (\<Sum>p \<leftarrow> file_paths root. case files root p of None \<Rightarrow> 0 | Some x \<Rightarrow> entry_size x)"
  using assms
proof (induction root)
  case (NsDirectory ch t)
  define g where "g = (\<lambda>x p. case files x p of None \<Rightarrow> 0 | Some x \<Rightarrow> entry_size x)"
  have d: "distinct (map fst ch)"
    using NsDirectory.prems by (auto simp: bt_wf_def strict_sorted_iff)
  have IH: "\<forall>q \<in> set ch. entry_size (snd q) = sum_list (map (g (snd q)) (file_paths (snd q)))"
    using NsDirectory by (auto simp: g_def list_all_iff)
  have "\<forall>q \<in> set ch. g (NsDirectory ch t) (fst q # p) = g (snd q) p" for p
    using d by (auto simp: g_def files_Cons)
  then have "\<forall>q \<in> set ch. entry_size (snd q)
      = sum_list (map (g (NsDirectory ch t)) (map ((#) (fst q)) (file_paths (snd q))))"
    using IH by (simp add: comp_def)
  then have "sum_list (map (\<lambda>q. entry_size (snd q)) ch) = sum_list (map (\<lambda>q.
      sum_list (map (g (NsDirectory ch t)) (map ((#) (fst q)) (file_paths (snd q))))) ch)"
    by (simp cong: map_cong)
  also have "\<dots> = sum_list (map (g (NsDirectory ch t)) (file_paths (NsDirectory ch t)))"
    by (simp add: sum_list_map_concat comp_def)
  finally show ?case by (simp add: g_def)
qed simp

subsection \<open>The operations only read the clock\<close>

definition clock_only :: "'a env_scheme \<Rightarrow> 'a env_scheme \<Rightarrow> bool" where
  "clock_only e e' = (e' = e\<lparr>wall_reads := wall_reads e', mono_counter := mono_counter e'\<rparr>)"

lemma clock_only_refl [simp]: "clock_only e e"
  by (simp add: clock_only_def)

lemma clock_only_trans: "\<lbrakk>clock_only e e1; clock_only e1 e2\<rbrakk> \<Longrightarrow> clock_only e e2"
  unfolding clock_only_def by (metis (no_types, lifting) env.surjective env.update_convs(2,3))

lemma ts_now_clock: "ts_now e = (t, e') \<Longrightarrow> clock_only e e'"
  by (auto simp: ts_now_eq clock_only_def)

lemma walk_parent_clock:
  "walk_parent l ps (put_child name entry) cur e = (r, cur', e') \<Longrightarrow> clock_only e e'"
proof (induction ps arbitrary: l cur e r cur' e')
  case Nil
  then show ?case
    by (cases cur) (auto simp: put_child_def split: prod.splits dest: ts_now_clock)
next
  case (Cons c ps)
  show ?case
  proof (cases cur)
    case (NsDirectory ch t)
    then show ?thesis using Cons.prems
      by (auto simp: entry_directory_def split: prod.splits option.splits dest!: Cons.IH ts_now_clock
          intro: clock_only_trans)
  qed (use Cons.prems in auto)
qed

lemma ns_put_clock: "ns_put path entry ns e = (r, ns', e') \<Longrightarrow> clock_only e e' \<and> ns_owner ns' = ns_owner ns"
  by (auto simp: ns_put_def get_or_create_parent_def put_child_def Let_def
      split: prod.splits sum.splits if_splits option.splits dest!: walk_parent_clock ts_now_clock
      intro: clock_only_trans)

lemma entry_file_clock: "entry_file cid n ct e = (entry, e') \<Longrightarrow> clock_only e e'
    \<and> (\<exists>t. entry = NsFile cid n ct t)"
  by (auto simp: entry_file_def split: prod.splits dest: ts_now_clock)

lemma with_owner_hex_clock: "with_owner_hex X J owner e = (r, e') \<Longrightarrow> clock_only e e'
    \<and> (\<forall>ns. r = Inr ns \<longrightarrow> ns_owner ns = owner)"
  by (auto simp: with_owner_hex_def entry_directory_def split: prod.splits option.splits if_splits
      dest!: ts_now_clock intro: clock_only_trans)

lemma resolve_mut_clock:
  "resolve_mut_at ps (remove_child path pp name) cur e = (r, cur', e') \<Longrightarrow> clock_only e e'"
proof (induction ps arbitrary: cur e r cur' e')
  case Nil
  then show ?case
    by (cases cur) (auto simp: remove_child_def split: prod.splits option.splits dest!: ts_now_clock)
next
  case (Cons c ps)
  then show ?case by (cases cur) (auto split: prod.splits option.splits)
qed

lemma ns_remove_clock: "ns_remove path ns e = (r, ns', e') \<Longrightarrow> clock_only e e' \<and> ns_owner ns' = ns_owner ns"
  by (auto simp: ns_remove_def resolve_mut_def Let_def
      split: prod.splits sum.splits if_splits option.splits dest!: resolve_mut_clock ts_now_clock
      intro: clock_only_trans)

subsection \<open>Paths that survive joining\<close>

definition plain_head :: "string list \<Rightarrow> bool" where
  "plain_head cs = (cs = [] \<or> hd cs \<noteq> [] \<and> hd cs \<noteq> ''localhost:'' \<and> last cs \<noteq> [])"

lemma path_components_pieces: "c \<in> set (path_components p) \<Longrightarrow> CHR ''/'' \<notin> set c"
  using split_on_pieces by (auto simp: path_components_def Let_def split: if_splits)

lemma join_with_last: "cs \<noteq> [] \<Longrightarrow> last cs \<noteq> [] \<Longrightarrow> join_with sep cs \<noteq> [] \<and> last (join_with sep cs) = last (last cs)"
  by (induction sep cs rule: join_with.induct) auto

lemma join_with_hd: "cs \<noteq> [] \<Longrightarrow> hd cs \<noteq> [] \<Longrightarrow> hd (join_with sep cs) = hd (hd cs)"
  by (induction sep cs rule: join_with.induct) auto

lemma join_with_takeWhile:
  "\<lbrakk>cs \<noteq> []; \<forall>c \<in> set cs. x \<notin> set c\<rbrakk> \<Longrightarrow> takeWhile (\<lambda>y. y \<noteq> x) (join_with [x] cs) = hd cs"
proof (induction "[x]" cs rule: join_with.induct)
  case (2 c)
  then show ?case by (auto intro: takeWhile_eq_all_conv[THEN iffD2])
next
  case (3 c d ds)
  then show ?case by (simp add: takeWhile_append)
qed simp

lemma not_localhost_uri:
  assumes "takeWhile (\<lambda>y. y \<noteq> CHR ''/'') s \<noteq> ''localhost:''"
  shows "parse_localhost_uri s = None"
proof -
  have "takeWhile (\<lambda>y. y \<noteq> CHR ''/'') (''localhost://'' @ t) = ''localhost:''" for t by simp
  then have "\<not> prefix ''localhost://'' s" using assms unfolding prefix_def by metis
  then show ?thesis by (simp add: parse_localhost_uri_def strip_prefix_def)
qed

lemma path_components_Nil [simp]: "path_components [] = []"
  by (simp add: path_components_def normalize_path_def parse_localhost_uri_def strip_prefix_def
      trim_char_def trim_start_char_def trim_end_char_def)

lemma path_components_join:
  assumes "plain_head cs" "\<forall>c \<in> set cs. CHR ''/'' \<notin> set c"
  shows "path_components (join_with ''/'' cs) = cs"
proof (cases "cs = []")
  case False
  let ?s = "join_with ''/'' cs"
  have h: "hd cs \<noteq> []" "hd cs \<noteq> ''localhost:''" "last cs \<noteq> []" using assms(1) False by (auto simp: plain_head_def)
  have s: "?s \<noteq> []" "last ?s = last (last cs)" "hd ?s = hd (hd cs)"
    using join_with_last[OF False h(3)] join_with_hd[OF False h(1)] by auto
  have "hd (hd cs) \<noteq> CHR ''/''" "last (last cs) \<noteq> CHR ''/''"
    using assms(2) h False by (metis hd_in_set last_in_set)+
  then have "trim_char CHR ''/'' ?s = ?s" using s by (intro trim_char_id) simp
  moreover have "parse_localhost_uri ?s = None"
    using join_with_takeWhile[OF False assms(2)] h(2) by (intro not_localhost_uri) simp
  ultimately have "normalize_path ?s = ?s" by (simp add: normalize_path_def)
  then show ?thesis using s(1) split_join[OF False assms(2)] by (simp add: path_components_def)
qed simp

lemma path_components_parent:
  assumes "path_components p = cs" "cs \<noteq> []" "plain_head (butlast cs)"
  shows "path_components (if length cs = 1 then [] else join_with ''/'' (butlast cs)) = butlast cs"
proof (cases "length cs = 1")
  case True
  then show ?thesis by (cases cs) auto
next
  case False
  have "\<forall>c \<in> set (butlast cs). CHR ''/'' \<notin> set c"
    using path_components_pieces assms(1) by (auto dest: in_set_butlastD)
  then show ?thesis using False path_components_join[OF assms(3)] by simp
qed

subsection \<open>Properties\<close>

text \<open>
  Property C17. \<^verbatim>\<open>put\<close> implements the update of a map from paths to files: unless a file lies on
  the way, it replaces everything at and below the path by the new entry and touches no other
  file, the path then resolves to the entry, and the signature is dropped. If a file is in the
  way it fails with \<^verbatim>\<open>NotADirectory\<close> and no file changes; the root itself cannot be replaced.
\<close>

theorem put_refines_map:
  assumes "ns_put path entry ns e = (r, ns', e')"
  shows "if path_components path = [] then r = Inl (InvalidPath ''Cannot replace root'') \<and> ns' = ns
    else if blocked (ns_root ns) (path_components path)
    then (\<exists>c. r = Inl (NotADirectory c)) \<and> files (ns_root ns') = files (ns_root ns)
    else r = Inr () \<and> resolve path ns' = Some entry \<and> ns_signature ns' = None
      \<and> files (ns_root ns') = graft (path_components path) (files entry) (files (ns_root ns))"
proof (cases "path_components path = []")
  case True
  then show ?thesis using assms by (simp add: ns_put_def)
next
  case False
  obtain l e1 where w: "walk_parent l (butlast (path_components path))
      (put_child (last (path_components path)) entry) (ns_root ns) e = (r, ns_root ns', e1)"
    and s: "r = Inr () \<Longrightarrow> ns_signature ns' = None"
    using ns_put_root[OF assms False] by metis
  have "r = Inr () \<Longrightarrow> resolve path ns' = Some entry"
    using walk_parent_resolve w False by (fastforce simp: resolve_def)
  then show ?thesis using walk_parent_put[OF w] s False by auto
qed

definition demo_dir :: "(string \<times> ns_entry) list \<Rightarrow> ns_entry" where
  "demo_dir children = NsDirectory children (Timestamp 1 1)"

definition demo_leaf :: ns_entry where
  "demo_leaf = NsFile (ContentId ''elastos://x'') 3 None (Timestamp 1 1)"

definition demo_ns :: namespace where
  "demo_ns = \<lparr>ns_version = 1, ns_owner = demo_hex (replicate 32 7),
     ns_root = demo_dir [(''a'', demo_dir [(''b'', demo_leaf)])],
     ns_created_at = Timestamp 1 1, ns_modified_at = Timestamp 1 1, ns_signature = Some ''sig''\<rparr>"

lemma demo_path: "path_components ''a/c'' = [''a'', ''c'']" "path_components ''a//b'' = [''a'', [], ''b'']"
  "path_components ''a/b'' = [''a'', ''b'']"
  using path_components_join[of "[''a'', ''c'']"] path_components_join[of "[''a'', [], ''b'']"]
    path_components_join[of "[''a'', ''b'']"] by (simp_all add: plain_head_def)

theorem put_refines_map_witness:
  "files (ns_root (fst (snd (ns_put ''a/c'' demo_leaf demo_ns demo_env)))) [''a'', ''c''] = Some demo_leaf
   \<and> files (ns_root (fst (snd (ns_put ''a/c'' demo_leaf demo_ns demo_env)))) [''a'', ''b''] = Some demo_leaf"
proof -
  obtain r ns' e' where p: "ns_put ''a/c'' demo_leaf demo_ns demo_env = (r, ns', e')" by (metis surj_pair)
  have "\<not> blocked (ns_root demo_ns) [''a'', ''c'']"
    by (simp add: demo_ns_def demo_dir_def blocked_directory)
  then have "files (ns_root ns') = graft [''a'', ''c''] (files demo_leaf) (files (ns_root demo_ns))"
    using put_refines_map[OF p] by (simp add: demo_path)
  then show ?thesis unfolding p
    by (simp add: graft_def demo_ns_def demo_dir_def files_Cons demo_leaf_def)
qed

text \<open>
  On paths without empty components \<^verbatim>\<open>remove\<close> implements the removal from that map:
  it succeeds exactly if the path resolves, returns the entry it resolved to, removes the
  files at and below the path and no others, and drops the signature; otherwise no file changes.
\<close>

theorem remove_refines_map:
  assumes "ns_remove path ns e = (r, ns', e')"
    and "path_components path \<noteq> []" and "[] \<notin> set (path_components path)"
    and "hd (path_components path) \<noteq> ''localhost:''"
  shows "case r of
      Inr x \<Rightarrow> resolve path ns = Some x \<and> ns_signature ns' = None
        \<and> files (ns_root ns') = graft (path_components path) (\<lambda>_. None) (files (ns_root ns))
    | Inl _ \<Rightarrow> resolve path ns = None \<and> files (ns_root ns') = files (ns_root ns)"
proof -
  let ?cs = "path_components path"
  let ?pp = "if length ?cs = 1 then [] else join_with ''/'' (butlast ?cs)"
  have "plain_head (butlast ?cs)"
  proof (cases "butlast ?cs = []")
    case False
    then have "hd (butlast ?cs) = hd ?cs" by (cases ?cs) auto
    moreover have "hd (butlast ?cs) \<in> set ?cs" "last (butlast ?cs) \<in> set ?cs"
      using False by (metis hd_in_set in_set_butlastD, metis last_in_set in_set_butlastD)
    ultimately show ?thesis using assms(3,4) by (auto simp: plain_head_def)
  qed (simp add: plain_head_def)
  then have pp: "path_components ?pp = butlast ?cs" by (rule path_components_parent[OF refl assms(2)])
  obtain q e1 where w: "resolve_mut_at (butlast ?cs) (remove_child path ?pp (last ?cs)) (ns_root ns) e
      = (q, ns_root ns', e1)"
    and ok: "\<And>x. r = Inr x \<Longrightarrow> q = Some (Inr x) \<and> ns_signature ns' = None"
    and err: "\<And>err. r = Inl err \<Longrightarrow> (\<forall>x. q \<noteq> Some (Inr x))"
    using ns_remove_root[OF assms(1,2) refl] unfolding pp by metis
  show ?thesis using resolve_mut_remove[OF w] ok err assms(2) by (auto simp: resolve_def split: sum.split)
qed

theorem remove_refines_map_witness:
  "files (ns_root (fst (snd (ns_remove ''a/b'' demo_ns demo_env)))) [''a'', ''b''] = None"
proof -
  obtain r ns' e' where p: "ns_remove ''a/b'' demo_ns demo_env = (r, ns', e')" by (metis surj_pair)
  have "resolve ''a/b'' demo_ns = Some demo_leaf"
    by (simp add: resolve_def demo_path demo_ns_def demo_dir_def)
  then have "files (ns_root ns') = graft [''a'', ''b''] (\<lambda>_. None) (files (ns_root demo_ns))"
    using remove_refines_map[OF p] by (auto simp: demo_path split: sum.splits)
  then show ?thesis unfolding p by (simp add: graft_def)
qed

text \<open>
  \<^verbatim>\<open>remove\<close> joins the parent components and splits them again, which loses a trailing
  empty component: for a path with a doubled slash before its last component, which does not
  resolve, it removes the entry of the same name one level up and returns it.
\<close>

theorem remove_double_slash:
  assumes "path_components path = [a, [], b]" and "a \<noteq> []" and "a \<noteq> ''localhost:''"
    and "ns_root ns = NsDirectory ch t" and "map_of ch a = Some (NsDirectory ch' t')"
    and "map_of ch' [] = None" and "map_of ch' b = Some x"
  shows "resolve path ns = None \<and> fst (ns_remove path ns e) = Inr x
    \<and> files (ns_root (fst (snd (ns_remove path ns e)))) = graft [a, b] (\<lambda>_. None) (files (ns_root ns))"
proof -
  obtain r ns' e' where p: "ns_remove path ns e = (r, ns', e')" by (metis surj_pair)
  have "CHR ''/'' \<notin> set a" using path_components_pieces[of a path] assms(1) by simp
  then have a: "last a \<noteq> CHR ''/''" "hd a \<noteq> CHR ''/''"
    using assms(2) by (metis last_in_set, metis hd_in_set)
  have "trim_char CHR ''/'' (a @ ''/'') = a"
    using a assms(2) by (simp add: trim_char_def trim_start_char_def trim_end_char_def
        dropWhile_eq_self_iff[THEN iffD2] hd_rev dropWhile_append3)
  moreover have "parse_localhost_uri (a @ ''/'') = None"
    using \<open>CHR ''/'' \<notin> set a\<close> assms(3) by (intro not_localhost_uri) (simp add: takeWhile_append)
  ultimately have pp: "path_components (a @ ''/'') = [a]"
    using assms(2) \<open>CHR ''/'' \<notin> set a\<close> by (simp add: path_components_def normalize_path_def split_on_no_sep)
  obtain q e1 where w: "resolve_mut_at [a] (remove_child path (a @ ''/'') b) (ns_root ns) e
      = (q, ns_root ns', e1)"
    and q: "\<And>y. r = Inr y \<Longrightarrow> q = Some (Inr y)" "\<And>err. r = Inl err \<Longrightarrow> (\<forall>y. q \<noteq> Some (Inr y))"
  proof -
    have c: "path_components path \<noteq> []" "a @ ''/'' = (if length (path_components path) = 1 then []
        else join_with ''/'' (butlast (path_components path)))" by (simp_all add: assms(1))
    show thesis by (rule ns_remove_root[OF p c]) (rule that, auto simp: assms(1) pp)
  qed
  have "resolve path ns = None" using assms(1,4-6) by (simp add: resolve_def)
  moreover have "resolve_at [a, b] (ns_root ns) = Some x" using assms(4,5,7) by simp
  ultimately show ?thesis using resolve_mut_remove[OF w] q p by (cases r) auto
qed

theorem remove_double_slash_witness:
  "resolve ''a//b'' demo_ns = None \<and> fst (ns_remove ''a//b'' demo_ns demo_env) = Inr demo_leaf"
  using remove_double_slash[where ns = demo_ns and e = demo_env, OF demo_path(2)]
  by (simp add: demo_ns_def demo_dir_def)



text \<open>
  \<^verbatim>\<open>entry_count\<close> and \<^verbatim>\<open>total_size\<close> agree with the map: in a well-formed tree they
  are the number of file paths and the sum of the file sizes over these paths, as 64-bit words.
\<close>

theorem counts_agree_with_map:
  assumes "entry_wf (ns_root ns)"
  shows "entry_count ns = of_nat (card {p. files (ns_root ns) p \<noteq> None})
    \<and> total_size ns = (\<Sum>p \<in> {p. files (ns_root ns) p \<noteq> None}.
        case files (ns_root ns) p of None \<Rightarrow> 0 | Some x \<Rightarrow> entry_size x)"
proof -
  let ?ps = "file_paths (ns_root ns)"
  note d = distinct_file_paths[OF assms] and s = set_file_paths[OF assms]
  have "entry_count ns = of_nat (card (set ?ps))"
    by (simp add: entry_count_def count_file_paths distinct_card[OF d])
  moreover have "total_size ns = (\<Sum>p \<in> set ?ps. case files (ns_root ns) p of None \<Rightarrow> 0 | Some x \<Rightarrow> entry_size x)"
    by (simp add: total_size_def size_file_paths[OF assms] sum_list_distinct_conv_sum_set[OF d])
  ultimately show ?thesis by (simp add: s)
qed

theorem counts_agree_with_map_witness:
  "of_nat (card {p. files (ns_root demo_ns) p \<noteq> None}) = (1 :: u64)"
proof -
  have "entry_count demo_ns = 1" by (simp add: entry_count_def demo_ns_def demo_dir_def demo_leaf_def)
  then show ?thesis using counts_agree_with_map[of demo_ns]
    by (simp add: demo_ns_def demo_dir_def demo_leaf_def bt_wf_def)
qed

text \<open>What the codecs promise for a key pair, and for base64.\<close>

definition good_key :: "externals \<Rightarrow> ns_codec \<Rightarrow> bytes \<Rightarrow> bool" where
  "good_key X J k = (length (ed_public X k) = 32 \<and> key_error J (ed_public X k) = None
     \<and> (\<forall>m. sig_error J (ed_sign X k m) = None))"

definition b64_codec :: "ns_codec \<Rightarrow> bool" where
  "b64_codec J = (\<forall>b. b64_decode J (b64_encode J b) = Inr b)"

text \<open>
  A namespace signed by the key of its owner verifies: if \<^verbatim>\<open>sign\<close> succeeds, only
  the signature field has changed and \<^verbatim>\<open>verify\<close> answers true. It fails only for a key that is
  not the owner's, and then changes nothing, or when the namespace cannot be serialised.
\<close>

theorem sign_then_verify:
  assumes "sign_correct X" "hex_codec X" "b64_codec J" "good_key X J k"
    and "ns_sign X J k ns = (r, ns')"
  shows "case r of
      Inr _ \<Rightarrow> ns_verify X J ns' = Inr True \<and> ns' = ns\<lparr>ns_signature := ns_signature ns'\<rparr>
    | Inl err \<Rightarrow> err = SigningKeyMismatch \<and> ns' = ns \<and> ns_owner ns \<noteq> hex_encode X (ed_public X k)
        \<or> (\<exists>e. err = SerializationError e \<and> js_compact J (ns\<lparr>ns_signature := None\<rparr>) = Inl e)"
proof (cases "ns_owner ns = hex_encode X (ed_public X k)")
  case True
  have v: "ed_verify X (ed_public X k) m (ed_sign X k m)" for m
    using assms(1) by (simp add: sign_correct_def)
  show ?thesis
  proof (cases "js_compact J (ns\<lparr>ns_signature := None\<rparr>)")
    case (Inl e)
    then show ?thesis using assms(5) True by (auto simp: ns_sign_def signing_message_def)
  next
    case (Inr json)
    then have "r = Inr ()" "ns' = ns\<lparr>ns_signature := Some (b64_encode J (ed_sign X k (sha256 X (bytes_of json))))\<rparr>"
      using assms(5) True by (auto simp: ns_sign_def signing_message_def)
    then show ?thesis using assms(2-4) True Inr v
      by (simp add: ns_verify_def signing_message_def hex_codecD(1) good_key_def b64_codec_def)
  qed
qed (use assms(5) in \<open>auto simp: ns_sign_def\<close>)

definition demo_codec :: ns_codec where
  "demo_codec = \<lparr>js_compact = (\<lambda>ns. Inr (show_u64 (unix_secs (ns_modified_at ns)))), js_pretty = (\<lambda>_. Inl ''no''),
     js_parse = (\<lambda>_. Inl ''no''), b64_encode = demo_hex,
     b64_decode = (\<lambda>s. case demo_unhex s of None \<Rightarrow> Inl ''bad'' | Some b \<Rightarrow> Inr b),
     hex_error = (\<lambda>_. ''bad''), key_error = (\<lambda>_. None), sig_error = (\<lambda>_. None)\<rparr>"

lemma demo_codec_laws:
  "b64_codec demo_codec" "good_key demo_ext demo_codec (replicate 32 7)"
  by (simp_all add: b64_codec_def demo_codec_def demo_unhex_hex good_key_def)

lemma demo_sign_result:
  "fst (ns_sign demo_ext demo_codec (replicate 32 7) demo_ns) = Inr ()"
  by (simp add: ns_sign_def demo_ns_def signing_message_def demo_codec_def)

theorem sign_then_verify_witness:
  "ns_verify demo_ext demo_codec (snd (ns_sign demo_ext demo_codec (replicate 32 7) demo_ns)) = Inr True"
  using sign_then_verify[OF demo_ext_laws(1,3) demo_codec_laws surjective_pairing, of demo_ns] demo_sign_result
  by simp

text \<open>
  A signature pins the whole namespace: two namespaces of one honest owner that both
  verify under the same signature are equal in every field, provided the hash of the JSON
  text does not collide on the two.
\<close>

theorem signature_binds_namespace:
  assumes "sign_binding X" "hex_codec X" "ns_owner ns = hex_encode X (ed_public X k)"
    and "ns_verify X J ns = Inr True" "ns_verify X J ns' = Inr True"
    and "ns_owner ns' = ns_owner ns" "ns_signature ns' = ns_signature ns"
    and "signing_message X J (ns'\<lparr>ns_signature := None\<rparr>) = signing_message X J (ns\<lparr>ns_signature := None\<rparr>)
      \<Longrightarrow> ns'\<lparr>ns_signature := None\<rparr> = ns\<lparr>ns_signature := None\<rparr>"
  shows "ns' = ns"
proof -
  have signed: "\<exists>m s. signing_message X J (n\<lparr>ns_signature := None\<rparr>) = Inr m
      \<and> b64_decode J (the (ns_signature n)) = Inr s \<and> ed_verify X (ed_public X k) m s"
    if "ns_verify X J n = Inr True" "ns_owner n = ns_owner ns" for n
    using that assms(2,3) by (auto simp: ns_verify_def hex_codecD(1) split: option.splits sum.splits if_splits)
  obtain m s m' s' where "signing_message X J (ns\<lparr>ns_signature := None\<rparr>) = Inr m"
      "b64_decode J (the (ns_signature ns)) = Inr s" "ed_verify X (ed_public X k) m s"
      "signing_message X J (ns'\<lparr>ns_signature := None\<rparr>) = Inr m'"
      "b64_decode J (the (ns_signature ns')) = Inr s'" "ed_verify X (ed_public X k) m' s'"
    using signed[OF assms(4)] signed[OF assms(5,6)] by auto
  then have "ns'\<lparr>ns_signature := None\<rparr> = ns\<lparr>ns_signature := None\<rparr>"
    using assms(1,7,8) unfolding sign_binding_def by (metis sum.inject(2))
  then show ?thesis using assms(7) by (cases ns; cases ns') simp
qed

theorem signature_binds_namespace_witness:
  "\<exists>ns'. ns_verify demo_ext demo_codec ns' = Inr True
     \<and> (\<forall>n. ns_verify demo_ext demo_codec n = Inr True \<longrightarrow> n = demo_ns\<lparr>ns_modified_at := ns_modified_at n,
         ns_signature := ns_signature ns'\<rparr> \<longrightarrow> monotonic_seq (ns_modified_at n) = 1 \<longrightarrow> n = ns')"
proof -
  let ?k = "replicate 32 7 :: bytes"
  let ?ns = "snd (ns_sign demo_ext demo_codec ?k demo_ns)"
  have ns: "?ns = demo_ns\<lparr>ns_signature := ns_signature ?ns\<rparr>"
    by (simp add: ns_sign_def demo_ns_def signing_message_def demo_codec_def)
  have v: "ns_verify demo_ext demo_codec ?ns = Inr True"
    by (simp add: ns_sign_def demo_ns_def signing_message_def demo_codec_def ns_verify_def demo_unhex_hex)
  have o: "ns_owner ?ns = hex_encode demo_ext (ed_public demo_ext ?k)"
    by (subst ns) (simp add: demo_ns_def)
  have m: "ns_modified_at ?ns = Timestamp 1 1" by (subst ns) (simp add: demo_ns_def)
  have "n = ?ns" if n: "ns_verify demo_ext demo_codec n = Inr True"
      "n = demo_ns\<lparr>ns_modified_at := ns_modified_at n, ns_signature := ns_signature ?ns\<rparr>"
      "monotonic_seq (ns_modified_at n) = 1" for n
  proof (rule signature_binds_namespace[OF demo_ext_laws(2,3) o v n(1)])
    show "ns_owner n = ns_owner ?ns" by (subst n(2), subst ns) simp
    show "ns_signature n = ns_signature ?ns" by (subst n(2)) simp
    assume "signing_message demo_ext demo_codec (n\<lparr>ns_signature := None\<rparr>)
      = signing_message demo_ext demo_codec (?ns\<lparr>ns_signature := None\<rparr>)"
    then have "show_u64 (unix_secs (ns_modified_at n)) = show_u64 (unix_secs (ns_modified_at ?ns))"
      by (simp add: signing_message_def demo_codec_def)
    then have "unix_secs (ns_modified_at n) = unix_secs (ns_modified_at ?ns)"
      by (metis option.inject parse_show_u64)
    then have "ns_modified_at n = Timestamp 1 1" using n(3) m by (cases "ns_modified_at n") simp
    then have "n = ?ns" by (subst n(2), subst ns) (simp add: demo_ns_def)
    then show "n\<lparr>ns_signature := None\<rparr> = ?ns\<lparr>ns_signature := None\<rparr>" by simp
  qed
  then show ?thesis using v by blast
qed

text \<open>
  An owner given in hexadecimal that is not in lower case, as the encoder writes it, is
  accepted by \<^verbatim>\<open>with_owner_hex\<close>, but no key can sign the namespace, not even the owner's.
\<close>

theorem uppercase_owner_cannot_sign:
  assumes "hex_codec X" and "hex_decode X owner = Some b" "length b = 32" "owner \<noteq> hex_encode X b"
    and "with_owner_hex X J owner e = (r, e')"
  shows "\<exists>ns. r = Inr ns \<and> (\<forall>k. ns_sign X J k ns = (Inl SigningKeyMismatch, ns))"
proof -
  have "owner \<noteq> hex_encode X (ed_public X k)" for k
    using assms(1,2,4) by (metis hex_codecD(1) option.inject)
  then show ?thesis using assms(2,3,5)
    by (auto simp: with_owner_hex_def ns_sign_def Let_def split: prod.splits)
qed

theorem uppercase_owner_cannot_sign_witness:
  "\<exists>ns. fst (with_owner_hex demo_ext demo_codec (replicate 64 CHR ''A'') demo_env) = Inr ns
    \<and> (\<forall>k. ns_sign demo_ext demo_codec k ns = (Inl SigningKeyMismatch, ns))"
proof -
  have "demo_unhex (replicate 64 CHR ''A'') = Some (replicate 32 0xAA)" by code_simp
  moreover have "replicate 64 CHR ''A'' \<noteq> demo_hex (replicate 32 0xAA)" by code_simp
  ultimately show ?thesis
    using uppercase_owner_cannot_sign[OF demo_ext_laws(3) _ _ _ surjective_pairing,
        of "replicate 64 CHR ''A''" "replicate 32 0xAA" demo_codec demo_env] by simp
qed

end
