(* ===== verification/Namespace_Store.thy ===== *)
theory Namespace_Store
  imports Content_Resolver Namespace_Tree
begin

section \<open>The namespace store\<close>

text \<open>
  \<^verbatim>\<open>elastos-namespace/src/store.rs\<close>: loading and saving of namespaces, the bounded content
  cache, and the operations on paths. The state extends that of the resolver: the namespaces
  in memory, the content cache (in the order in which \<^verbatim>\<open>HashMap\<close> would iterate), the files
  below the storage path and an oracle for the outcome of each call to the file system.
\<close>

subsection \<open>State\<close>

definition LOCAL_NAMESPACE_ROOT_URI :: string where
  "LOCAL_NAMESPACE_ROOT_URI = ''localhost://Public''"

record cache_entry =
  ce_content :: bytes
  ce_size :: u64

text \<open>
  The outcome of a call: success, or an error message, with what a failed write left in the
  file if it touched it.
\<close>

datatype store_answer = StOk | StFail string "string option"

record nstore = content +
  st_path :: path
  st_namespaces :: "(string, namespace) hmap"
  st_cache :: "(string, cache_entry) hmap"
  st_limit :: u64
  st_files :: "(path, string) hmap"
  st_io :: "nat \<Rightarrow> store_answer"
  st_ios :: nat

type_synonym ('a, 'z) op = "'z nstore_scheme \<Rightarrow> (namespace_error + 'a) \<times> 'z nstore_scheme"

definition ns_store_new :: "path \<Rightarrow> 'z nstore_scheme \<Rightarrow> 'z nstore_scheme" where
  "ns_store_new storage_path s = s\<lparr>st_path := storage_path, st_namespaces := [], st_cache := [],
     st_limit := 100 * 1024 * 1024\<rparr>"

definition with_cache_limit :: "u64 \<Rightarrow> 'z nstore_scheme \<Rightarrow> 'z nstore_scheme" where
  "with_cache_limit limit s = s\<lparr>st_limit := limit\<rparr>"

definition namespace_path :: "string \<Rightarrow> 'z nstore_scheme \<Rightarrow> path" where
  "namespace_path owner s = path_join (st_path s) (owner @ ''.namespace.json'')"

definition next_st_io :: "'z nstore_scheme \<Rightarrow> store_answer \<times> 'z nstore_scheme" where
  "next_st_io s = (st_io s (st_ios s), s\<lparr>st_ios := Suc (st_ios s)\<rparr>)"

subsection \<open>Loading and saving\<close>

text \<open>Reading a file that exists: the call may fail, and so does text that is not UTF-8.\<close>

definition read_namespace_file :: "string \<Rightarrow> (string, 'z) op" where
  "read_namespace_file json s = (let (a, s) = next_st_io s in case a of
       StFail err _ \<Rightarrow> (Inl (IoError err), s)
     | StOk \<Rightarrow> if utf8_ok json then (Inr json, s)
         else (Inl (IoError ''stream did not contain valid UTF-8''), s))"

definition load :: "ns_codec \<Rightarrow> string \<Rightarrow> (namespace, 'z) op" where
  "load J owner s = (case hm_get (st_namespaces s) owner of
       Some ns \<Rightarrow> (Inr ns, s)
     | None \<Rightarrow> (case hm_get (st_files s) (namespace_path owner s) of
           None \<Rightarrow> (Inl (NotFound (''namespace for '' @ owner)), s)
         | Some json \<Rightarrow> (let (r, s) = read_namespace_file json s in case r of
               Inl err \<Rightarrow> (Inl err, s)
             | Inr json \<Rightarrow> (case from_json J json of
                   Inl err \<Rightarrow> (Inl err, s)
                 | Inr ns \<Rightarrow> (let s = s\<lparr>st_namespaces := hm_insert owner ns (st_namespaces s)\<rparr>
                     in (Inr ns, namespace_loaded owner s))))))"

definition save :: "externals \<Rightarrow> ns_codec \<Rightarrow> namespace \<Rightarrow> (content_id, 'z) op" where
  "save X J ns s = (let (a, s) = next_st_io s in case a of
       StFail err _ \<Rightarrow> (Inl (IoError err), s)
     | StOk \<Rightarrow> (case to_json J ns of
         Inl err \<Rightarrow> (Inl err, s)
       | Inr json \<Rightarrow> (let p = namespace_path (ns_owner ns) s; (a, s) = next_st_io s in case a of
           StFail err None \<Rightarrow> (Inl (IoError err), s)
         | StFail err (Some torn) \<Rightarrow> (Inl (IoError err), s\<lparr>st_files := hm_insert p torn (st_files s)\<rparr>)
         | StOk \<Rightarrow> (let s = s\<lparr>st_files := hm_insert p json (st_files s),
                 st_namespaces := hm_insert (ns_owner ns) ns (st_namespaces s)\<rparr>
             in case to_cid X J ns of
               Inl err \<Rightarrow> (Inl err, s)
             | Inr cid \<Rightarrow> (Inr cid, namespace_saved (ns_owner ns) (cid_str cid) s)))))"

definition load_or_create :: "externals \<Rightarrow> ns_codec \<Rightarrow> string \<Rightarrow> (namespace, 'z) op" where
  "load_or_create X J owner s = (let (r, s) = load J owner s in case r of
       Inr ns \<Rightarrow> (Inr ns, s)
     | Inl (NotFound _) \<Rightarrow> (let (r, s) = with_owner_hex X J owner s in case r of
           Inl err \<Rightarrow> (Inl err, s)
         | Inr ns \<Rightarrow> (let (r, s) = save X J ns s in case r of
               Inl err \<Rightarrow> (Inl err, s)
             | Inr _ \<Rightarrow> (Inr ns, namespace_created owner s)))
     | Inl err \<Rightarrow> (Inl err, s))"

definition current_namespace :: "string \<Rightarrow> 'z nstore_scheme \<Rightarrow> namespace option" where
  "current_namespace owner s = hm_get (st_namespaces s) owner"

subsection \<open>The content cache\<close>

definition is_cached :: "content_id \<Rightarrow> 'z nstore_scheme \<Rightarrow> bool" where
  "is_cached cid s = hm_contains (st_cache s) (cid_raw cid)"

definition cached_size :: "content_id \<Rightarrow> 'z nstore_scheme \<Rightarrow> u64 option" where
  "cached_size cid s = map_option ce_size (hm_get (st_cache s) (cid_raw cid))"

definition total_bytes :: "(string, cache_entry) hmap \<Rightarrow> u64" where
  "total_bytes m = sum_list (map (\<lambda>(_, e). ce_size e) m)"

fun keys_to_remove :: "u64 \<Rightarrow> u64 \<Rightarrow> (string, cache_entry) hmap \<Rightarrow> string list" where
  "keys_to_remove to_remove removed [] = []"
| "keys_to_remove to_remove removed ((key, entry) # m) =
     (if removed \<ge> to_remove then [] else key # keys_to_remove to_remove (removed + ce_size entry) m)"

definition saturating_sub :: "u64 \<Rightarrow> u64 \<Rightarrow> u64" where
  "saturating_sub a b = (if b \<le> a then a - b else 0)"

definition maybe_evict :: "u64 \<Rightarrow> u64 \<Rightarrow> (string, cache_entry) hmap \<Rightarrow> (string, cache_entry) hmap" where
  "maybe_evict limit needed m =
     (let current_size = total_bytes m in
      if current_size + needed \<le> limit then m
      else (let to_remove = saturating_sub (current_size + needed) limit
        in fold hm_remove (keys_to_remove to_remove 0 m) m))"

definition maybe_evict_cache :: "u64 \<Rightarrow> 'z nstore_scheme \<Rightarrow> 'z nstore_scheme" where
  "maybe_evict_cache needed s = s\<lparr>st_cache := maybe_evict (st_limit s) needed (st_cache s)\<rparr>"

definition cache_content :: "content_id \<Rightarrow> bytes \<Rightarrow> 'z nstore_scheme \<Rightarrow> 'z nstore_scheme" where
  "cache_content cid content s =
     (let n = of_nat (length content); s = maybe_evict_cache n s
      in s\<lparr>st_cache := hm_insert (cid_raw cid) \<lparr>ce_content = content, ce_size = n\<rparr> (st_cache s)\<rparr>)"

definition read_content :: "externals \<Rightarrow> cid_parser \<Rightarrow> content_id \<Rightarrow> (bytes, 'z) op" where
  "read_content X P cid s = (case hm_get (st_cache s) (cid_raw cid) of
       Some entry \<Rightarrow> (Inr (ce_content entry), s)
     | None \<Rightarrow> (let (r, s) = fetch_content X P (''elastos://'' @ cid_raw cid) s in case r of
           Inl err \<Rightarrow> (Inl (FetchError (fetch_error_display err)), s)
         | Inr result \<Rightarrow> (Inr (fr_content result), cache_content cid (fr_content result) s)))"

definition store_content :: "externals \<Rightarrow> bytes \<Rightarrow> (content_id, 'z) op" where
  "store_content X content s =
     (let cid = from_content X content in (Inr cid, cache_content cid content s))"

definition store_clear_cache :: "'z nstore_scheme \<Rightarrow> 'z nstore_scheme" where
  "store_clear_cache s = s\<lparr>st_cache := []\<rparr>"

record prefetch_result =
  pre_fetched :: nat
  pre_failed :: nat
  pre_errors :: "(content_id \<times> string) list"

fun prefetch_from ::
    "externals \<Rightarrow> cid_parser \<Rightarrow> prefetch_result \<Rightarrow> content_id list \<Rightarrow> 'z nstore_scheme
     \<Rightarrow> prefetch_result \<times> 'z nstore_scheme" where
  "prefetch_from X P r [] s = (r, s)"
| "prefetch_from X P r (cid # cids) s =
     (if is_cached cid s then prefetch_from X P r cids s
      else (let (q, s) = read_content X P cid s in case q of
          Inr _ \<Rightarrow> prefetch_from X P (r\<lparr>pre_fetched := pre_fetched r + 1\<rparr>) cids s
        | Inl e \<Rightarrow> prefetch_from X P (r\<lparr>pre_failed := pre_failed r + 1,
            pre_errors := pre_errors r @ [(cid, namespace_error_display e)]\<rparr>) cids s))"

definition prefetch ::
    "externals \<Rightarrow> cid_parser \<Rightarrow> content_id list \<Rightarrow> 'z nstore_scheme \<Rightarrow> prefetch_result \<times> 'z nstore_scheme" where
  "prefetch X P cids s =
     prefetch_from X P \<lparr>pre_fetched = 0, pre_failed = 0, pre_errors = []\<rparr> cids s"

record store_cache_stats =
  stats_entry_count :: nat
  stats_total_bytes :: u64
  stats_limit_bytes :: u64

definition cache_stats :: "'z nstore_scheme \<Rightarrow> store_cache_stats" where
  "cache_stats s = \<lparr>stats_entry_count = length (st_cache s), stats_total_bytes = total_bytes (st_cache s),
     stats_limit_bytes = st_limit s\<rparr>"

subsection \<open>Operations on paths\<close>

record read_result =
  rr_content :: bytes
  rr_cid :: content_id
  rr_size :: u64
  rr_content_type :: "string option"
  rr_was_cached :: bool

definition read_path :: "externals \<Rightarrow> ns_codec \<Rightarrow> cid_parser \<Rightarrow> string \<Rightarrow> string \<Rightarrow> (read_result, 'z) op" where
  "read_path X J P owner path s = (let (r, s) = load J owner s in case r of
       Inl err \<Rightarrow> (Inl err, s)
     | Inr ns \<Rightarrow> (case resolve path ns of
           None \<Rightarrow> (Inl (NotFound path), s)
         | Some (NsDirectory _ _) \<Rightarrow> (Inl (NotAFile path), s)
         | Some (NsFile cid n content_type _) \<Rightarrow>
             (let cached = is_cached cid s; (r, s) = read_content X P cid s in case r of
                Inl err \<Rightarrow> (Inl err, s)
              | Inr content \<Rightarrow> (Inr \<lparr>rr_content = content, rr_cid = cid, rr_size = n,
                  rr_content_type = content_type, rr_was_cached = cached\<rparr>, s))))"

record write_result =
  wr_path :: string
  wr_cid :: content_id
  wr_size :: u64
  wr_namespace_cid :: content_id

definition write_path ::
    "externals \<Rightarrow> ns_codec \<Rightarrow> string \<Rightarrow> string \<Rightarrow> bytes \<Rightarrow> string option \<Rightarrow> (write_result, 'z) op" where
  "write_path X J owner path content content_type s =
     (let (r, s) = store_content X content s in case r of Inl err \<Rightarrow> (Inl err, s) | Inr cid \<Rightarrow>
     (let n = of_nat (length content); (r, s) = load_or_create X J owner s in case r of
        Inl err \<Rightarrow> (Inl err, s)
      | Inr ns \<Rightarrow>
          (let (entry, s) = entry_file cid n content_type s; (r, ns, s) = ns_put path entry ns s in case r of
             Inl err \<Rightarrow> (Inl err, s)
           | Inr _ \<Rightarrow> (let (r, s) = save X J ns s in case r of
               Inl err \<Rightarrow> (Inl err, s)
             | Inr namespace_cid \<Rightarrow> (Inr \<lparr>wr_path = path, wr_cid = cid, wr_size = n,
                 wr_namespace_cid = namespace_cid\<rparr>, s)))))"

record delete_result =
  dr_path :: string
  dr_namespace_cid :: content_id

definition delete_path :: "externals \<Rightarrow> ns_codec \<Rightarrow> string \<Rightarrow> string \<Rightarrow> (delete_result, 'z) op" where
  "delete_path X J owner path s = (let (r, s) = load J owner s in case r of
       Inl err \<Rightarrow> (Inl err, s)
     | Inr ns \<Rightarrow> (let (r, ns, s) = ns_remove path ns s in case r of
           Inl err \<Rightarrow> (Inl err, s)
         | Inr _ \<Rightarrow> (let (r, s) = save X J ns s in case r of
               Inl err \<Rightarrow> (Inl err, s)
             | Inr namespace_cid \<Rightarrow> (Inr \<lparr>dr_path = path, dr_namespace_cid = namespace_cid\<rparr>, s))))"

record entry_info =
  ei_name :: string
  ei_path :: string
  ei_entry_type :: string
  ei_cid :: "content_id option"
  ei_size :: u64
  ei_content_type :: "string option"
  ei_modified_at :: u64
  ei_cached :: bool

definition entry_info_of :: "string \<Rightarrow> 'z nstore_scheme \<Rightarrow> string \<times> ns_entry \<Rightarrow> entry_info" where
  "entry_info_of path s = (\<lambda>(name, entry).
     (let full_path = (if path = [] \<or> path = ''/'' then LOCAL_NAMESPACE_ROOT_URI @ ''/'' @ name
            else LOCAL_NAMESPACE_ROOT_URI @ ''/'' @ trim_char CHR ''/'' path @ ''/'' @ name);
          (cid, n, content_type) = (case entry of
              NsFile cid n content_type _ \<Rightarrow> (Some cid, n, content_type)
            | NsDirectory _ _ \<Rightarrow> (None, entry_size entry, None));
          cached = (case cid of Some c \<Rightarrow> is_cached c s | None \<Rightarrow> True)
      in \<lparr>ei_name = name, ei_path = full_path,
          ei_entry_type = (if entry_is_file entry then ''file'' else ''directory''), ei_cid = cid,
          ei_size = n, ei_content_type = content_type,
          ei_modified_at = unix_secs (modified_at entry), ei_cached = cached\<rparr>))"

definition list_path :: "ns_codec \<Rightarrow> string \<Rightarrow> string \<Rightarrow> (entry_info list, 'z) op" where
  "list_path J owner path s = (let (r, s) = load J owner s in case r of
       Inl err \<Rightarrow> (Inl err, s)
     | Inr ns \<Rightarrow> (case ns_list path ns of
           Inl err \<Rightarrow> (Inl err, s)
         | Inr entries \<Rightarrow> (Inr (map (entry_info_of path s) entries), s)))"

fun calculate_cached_size :: "ns_entry \<Rightarrow> 'z nstore_scheme \<Rightarrow> u64" where
  "calculate_cached_size (NsFile cid n _ _) s = (if is_cached cid s then n else 0)"
| "calculate_cached_size (NsDirectory children _) s =
     sum_list (map (\<lambda>p. calculate_cached_size (snd p) s) children)"

record namespace_status =
  nst_owner :: string
  nst_namespace_cid :: content_id
  nst_entry_count :: u64
  nst_total_size :: u64
  nst_cached_size :: u64
  nst_last_modified :: u64
  nst_signed :: bool

definition namespace_status_of :: "externals \<Rightarrow> ns_codec \<Rightarrow> string \<Rightarrow> (namespace_status, 'z) op" where
  "namespace_status_of X J owner s = (let (r, s) = load J owner s in case r of
       Inl err \<Rightarrow> (Inl err, s)
     | Inr ns \<Rightarrow> (case to_cid X J ns of
           Inl err \<Rightarrow> (Inl err, s)
         | Inr namespace_cid \<Rightarrow> (Inr \<lparr>nst_owner = ns_owner ns, nst_namespace_cid = namespace_cid,
             nst_entry_count = entry_count ns, nst_total_size = total_size ns,
             nst_cached_size = calculate_cached_size (ns_root ns) s,
             nst_last_modified = unix_secs (ns_modified_at ns), nst_signed = (ns_signature ns \<noteq> None)\<rparr>, s)))"

subsection \<open>The bounded cache\<close>

definition nat_total :: "(string, cache_entry) hmap \<Rightarrow> nat" where
  "nat_total m = sum_list (map (\<lambda>(_, e). unat (ce_size e)) m)"

lemma nat_total_simps [simp]:
  "nat_total [] = 0" "nat_total ((k, e) # m) = unat (ce_size e) + nat_total m"
  "nat_total (m @ m') = nat_total m + nat_total m'"
  by (simp_all add: nat_total_def)

lemma total_bytes_eq: "total_bytes m = of_nat (nat_total m)"
  by (induction m) (auto simp: total_bytes_def nat_total_def)

lemma keys_to_remove_take:
  assumes "unat removed + nat_total m < 2 ^ 64"
  shows "\<exists>k \<le> length m. keys_to_remove to_remove removed m = map fst (take k m)
    \<and> (k = length m \<or> unat to_remove \<le> unat removed + nat_total (take k m))"
  using assms
proof (induction to_remove removed m rule: keys_to_remove.induct)
  case (2 to_remove removed key entry m)
  show ?case
  proof (cases "removed \<ge> to_remove")
    case True
    then show ?thesis by (intro exI[of _ 0]) (simp add: word_le_nat_alt)
  next
    case False
    have u: "unat (removed + ce_size entry) = unat removed + unat (ce_size entry)"
      using "2.prems" by (subst unat_add_lem[THEN iffD1]) simp_all
    then obtain k where "k \<le> length m"
      "keys_to_remove to_remove (removed + ce_size entry) m = map fst (take k m)"
      "k = length m \<or> unat to_remove \<le> unat removed + unat (ce_size entry) + nat_total (take k m)"
      using "2.IH"[OF False] "2.prems" by (auto simp: add.assoc)
    then show ?thesis using False by (intro exI[of _ "Suc k"]) auto
  qed
qed simp

lemma hm_remove_absent_key: "k \<notin> fst ` set m \<Longrightarrow> hm_remove k m = m"
  by (simp add: hm_remove_def)

lemma fold_hm_remove_take: "hm_wf m \<Longrightarrow> fold hm_remove (map fst (take k m)) m = drop k m"
proof (induction k arbitrary: m)
  case (Suc k)
  then show ?case
  proof (cases m)
    case (Cons p m')
    then have "hm_remove (fst p) m = m'" using Suc.prems
      by (cases p) (simp add: hm_wf_def hm_remove_def)
    then show ?thesis using Suc Cons by (simp add: hm_wf_def)
  qed simp
qed simp

lemma hm_wf_drop: "hm_wf m \<Longrightarrow> hm_wf (drop k m)"
  by (simp add: hm_wf_def drop_map[symmetric])

lemma nat_total_take_drop: "nat_total m = nat_total (take k m) + nat_total (drop k m)"
  by (metis append_take_drop_id nat_total_simps(3))

lemma maybe_evict_total:
  assumes "hm_wf m" "nat_total m + unat needed < 2 ^ 64"
  shows "hm_wf (maybe_evict limit needed m)
    \<and> nat_total (maybe_evict limit needed m) + unat needed \<le> max (unat limit) (unat needed)
    \<and> (\<exists>k. maybe_evict limit needed m = drop k m)"
proof -
  have t: "unat (total_bytes m + needed) = nat_total m + unat needed"
    using assms(2) by (simp add: total_bytes_eq unat_word_ariths unat_of_nat)
  show ?thesis
  proof (cases "total_bytes m + needed \<le> limit")
    case True
    then have "maybe_evict limit needed m = drop 0 m" by (simp add: maybe_evict_def)
    then show ?thesis using True t assms(1) unfolding word_le_nat_alt by (metis drop0 max.coboundedI1)
  next
    case False
    let ?r = "saturating_sub (total_bytes m + needed) limit"
    have r: "unat ?r = nat_total m + unat needed - unat limit"
      using False t by (simp add: saturating_sub_def unat_sub)
    obtain k where k: "k \<le> length m" "keys_to_remove ?r 0 m = map fst (take k m)"
      "k = length m \<or> unat ?r \<le> nat_total (take k m)"
      using keys_to_remove_take[of 0 m ?r] assms(2) by auto
    then have e: "maybe_evict limit needed m = drop k m"
      using False fold_hm_remove_take[OF assms(1)] by (simp add: maybe_evict_def Let_def)
    have "nat_total (drop k m) + unat needed \<le> max (unat limit) (unat needed)"
    proof (cases "k = length m")
      case False
      then have "nat_total (drop k m) + unat needed \<le> unat limit"
        using k(3) r nat_total_take_drop[of m k] \<open>\<not> total_bytes m + needed \<le> limit\<close> t
        by (simp add: word_le_nat_alt)
      then show ?thesis by simp
    qed simp
    then show ?thesis unfolding e using hm_wf_drop[OF assms(1)] by blast
  qed
qed

lemma nat_total_insert: "nat_total (hm_insert k e m) \<le> nat_total m + unat (ce_size e)"
  by (induction m) (auto simp: hm_insert_def)

definition bounded_put ::
    "u64 \<Rightarrow> string \<Rightarrow> cache_entry \<Rightarrow> (string, cache_entry) hmap \<Rightarrow> (string, cache_entry) hmap" where
  "bounded_put limit k e m = hm_insert k e (maybe_evict limit (ce_size e) m)"

lemma fold_hm_remove_get: "hm_get (fold hm_remove ks m) k = Some v \<Longrightarrow> hm_get m k = Some v"
proof (induction ks arbitrary: m)
  case (Cons a ks)
  have "hm_get (hm_remove a m) k = Some v"
    using Cons.IH[of "hm_remove a m"] Cons.prems by (simp del: hm_get_remove)
  then show ?case by (simp split: if_splits)
qed simp

text \<open>The bounded cache is a cache: it may forget, but invents nothing.\<close>

interpretation bounded: cache hm_get "bounded_put limit" for limit
  by unfold_locales
    (auto simp: bounded_put_def maybe_evict_def Let_def split: if_splits dest: fold_hm_remove_get)

definition entry_of :: "bytes \<Rightarrow> cache_entry" where
  "entry_of content = \<lparr>ce_content = content, ce_size = of_nat (length content)\<rparr>"

lemma cache_content_eq:
  "cache_content cid content s
    = s\<lparr>st_cache := bounded_put (st_limit s) (cid_raw cid) (entry_of content) (st_cache s)\<rparr>"
  by (simp add: cache_content_def maybe_evict_cache_def bounded_put_def entry_of_def Let_def)

subsection \<open>What the operations leave alone\<close>

definition store_part where
  "store_part s = (st_path s, st_namespaces s, st_cache s, st_limit s, st_files s, st_io s, st_ios s)"

definition resolver_part where
  "resolver_part s = (rs_config s, rs_cache s, rs_files s, rs_io s, rs_ios s, rs_fetch s, rs_fetches s)"

lemma emit_store_part [simp]: "store_part (emit ev s) = store_part s"
  by (simp add: store_part_def emit_def write_line_def Let_def split: option.splits prod.splits)

lemma emit_resolver_part [simp]: "resolver_part (emit ev s) = resolver_part s"
  by (simp add: resolver_part_def)

lemma sink_store_part [simp]:
  "store_part (sink_content_fetch i src v s) = store_part s"
  "store_part (namespace_loaded owner s) = store_part s"
  "store_part (namespace_created owner s) = store_part s"
  "store_part (namespace_saved owner c s) = store_part s"
  "resolver_part (namespace_loaded owner s) = resolver_part s"
  "resolver_part (namespace_created owner s) = resolver_part s"
  "resolver_part (namespace_saved owner c s) = resolver_part s"
  by (simp_all add: sink_content_fetch_def content_fetch_def ts_now_eq namespace_loaded_def
      namespace_created_def namespace_saved_def)
    (simp add: store_part_def)

lemma resolver_store_part [simp]:
  "store_part (snd (next_answer s)) = store_part s"
  "store_part (store_cache X i b s) = store_part s"
  "store_part (snd (fetch_url url s)) = store_part s"
  "store_part (snd (read_cache_file n s)) = store_part s"
  "store_part (snd (check_cache X i s)) = store_part s"
  by (simp_all add: store_part_def next_answer_def store_cache_def fetch_url_def read_cache_file_def
      check_cache_def Let_def split: option.split fs_answer.split sum.split)

lemma try_gateways_store_part [simp]: "store_part (snd (try_gateways X P u gs s)) = store_part s"
proof (induction gs arbitrary: s)
  case (Cons g gs)
  let ?s = "snd (fetch_url (gateway_url g u) s)"
  show ?case using Cons.IH[of ?s]
    by (cases "fst (fetch_url (gateway_url g u) s)")
      (auto simp: case_prod_beta Let_def split: option.split)
qed simp

lemma fetch_store_part [simp]:
  "store_part (snd (fetch_by_sha256 X u s)) = store_part s"
  "store_part (snd (fetch_uri X P u s)) = store_part s"
  "store_part (snd (fetch_content X P uri s)) = store_part s"
proof -
  show sha: "store_part (snd (fetch_by_sha256 X u s)) = store_part s" for u s
    by (simp add: fetch_by_sha256_def case_prod_beta split: option.split)
  show uri: "store_part (snd (fetch_uri X P u s)) = store_part s" for u
    by (simp add: fetch_uri_def case_prod_beta Let_def fetch_from_ipfs_def sha split: option.split identifier_type.split)
  show "store_part (snd (fetch_content X P uri s)) = store_part s"
    by (simp add: fetch_content_def uri split: sum.split)
qed

lemma clock_only_parts:
  assumes "clock_only s s'"
  shows "store_part s' = store_part s" "resolver_part s' = resolver_part s"
proof -
  note h = assms[unfolded clock_only_def]
  show "store_part s' = store_part s" by (subst h) (simp add: store_part_def)
  show "resolver_part s' = resolver_part s" by (subst h) (simp add: resolver_part_def)
qed

subsection \<open>Loading, saving and writing\<close>

lemma store_partD:
  assumes "store_part s' = store_part s"
  shows "st_path s' = st_path s" "st_namespaces s' = st_namespaces s" "st_cache s' = st_cache s"
    "st_limit s' = st_limit s" "st_files s' = st_files s" "st_io s' = st_io s" "st_ios s' = st_ios s"
  using assms by (simp_all add: store_part_def)

lemmas sink_store = sink_store_part(2-4)[THEN store_partD(1)] sink_store_part(2-4)[THEN store_partD(2)]
  sink_store_part(2-4)[THEN store_partD(3)] sink_store_part(2-4)[THEN store_partD(4)]
  sink_store_part(2-4)[THEN store_partD(5)] sink_store_part(2-4)[THEN store_partD(6)]

lemma resolver_part_update [simp]:
  "resolver_part (s\<lparr>st_namespaces := n\<rparr>) = resolver_part s" "resolver_part (s\<lparr>st_files := f\<rparr>) = resolver_part s"
  "resolver_part (s\<lparr>st_cache := c\<rparr>) = resolver_part s" "resolver_part (s\<lparr>st_ios := i\<rparr>) = resolver_part s"
  by (simp_all add: resolver_part_def)

text \<open>What loading and saving keep: the content cache, the place of the files, the resolver.\<close>

definition store_kept :: "'z nstore_scheme \<Rightarrow> 'z nstore_scheme \<Rightarrow> bool" where
  "store_kept s s' = (st_cache s' = st_cache s \<and> st_path s' = st_path s \<and> st_limit s' = st_limit s
     \<and> st_io s' = st_io s \<and> resolver_part s' = resolver_part s)"

lemma store_kept_refl [simp]: "store_kept s s"
  by (simp add: store_kept_def)

lemma store_kept_trans: "\<lbrakk>store_kept s t; store_kept t u\<rbrakk> \<Longrightarrow> store_kept s u"
  by (simp add: store_kept_def)

lemma clock_only_kept: "clock_only s s' \<Longrightarrow> store_kept s s' \<and> st_namespaces s' = st_namespaces s
    \<and> st_files s' = st_files s"
  using clock_only_parts[of s s'] store_partD[of s' s] by (auto simp: store_kept_def)

lemma load_result:
  assumes "load J owner s = (r, s')"
  shows "store_kept s s' \<and> st_files s' = st_files s
    \<and> (case r of
        Inr ns \<Rightarrow> st_namespaces s' = (if hm_get (st_namespaces s) owner = None
              then hm_insert owner ns (st_namespaces s) else st_namespaces s)
          \<and> (hm_get (st_namespaces s) owner = Some ns \<or> hm_get (st_namespaces s) owner = None
             \<and> (\<exists>json. hm_get (st_files s) (namespace_path owner s) = Some json \<and> from_json J json = Inr ns))
      | Inl err \<Rightarrow> st_namespaces s' = st_namespaces s \<and> hm_get (st_namespaces s) owner = None
          \<and> ((\<exists>m. err = NotFound m) \<longrightarrow> hm_get (st_files s) (namespace_path owner s) = None))"
  using assms
  by (auto simp: load_def read_namespace_file_def next_st_io_def from_json_def sink_store store_kept_def Let_def
      split: option.splits store_answer.splits sum.splits if_splits)

lemma save_ok:
  assumes "save X J ns s = (Inr cid, s')"
  obtains json where "js_pretty J ns = Inr json" "store_kept s s'"
    "st_namespaces s' = hm_insert (ns_owner ns) ns (st_namespaces s)"
    "st_files s' = hm_insert (namespace_path (ns_owner ns) s) json (st_files s)"
    "to_cid X J ns = Inr cid"
  using assms
  by (auto simp: save_def next_st_io_def to_json_def namespace_path_def sink_store store_kept_def Let_def
      split: store_answer.splits sum.splits option.splits)

text \<open>Memory and files hold each namespace under the name of its owner.\<close>

definition owners_match :: "ns_codec \<Rightarrow> 'z nstore_scheme \<Rightarrow> bool" where
  "owners_match J s =
     ((\<forall>o1 ns. hm_get (st_namespaces s) o1 = Some ns \<longrightarrow> ns_owner ns = o1)
      \<and> (\<forall>o1 json ns. hm_get (st_files s) (namespace_path o1 s) = Some json \<longrightarrow> from_json J json = Inr ns
          \<longrightarrow> ns_owner ns = o1))"

lemma load_owner: "\<lbrakk>load J owner s = (Inr ns, s'); owners_match J s\<rbrakk> \<Longrightarrow> ns_owner ns = owner"
  using load_result[of J owner s "Inr ns" s'] by (auto simp: owners_match_def)

lemma load_or_create_ok:
  assumes "load_or_create X J owner s = (Inr ns, s')"
  shows "store_kept s s' \<and> (owners_match J s \<longrightarrow> ns_owner ns = owner)
    \<and> (\<forall>o1. o1 \<noteq> owner \<longrightarrow> hm_get (st_namespaces s') o1 = hm_get (st_namespaces s) o1)
    \<and> (\<forall>p. p \<noteq> namespace_path owner s \<longrightarrow> hm_get (st_files s') p = hm_get (st_files s) p)
    \<and> (case fst (load J owner s) of Inr ns' \<Rightarrow> ns = ns' | Inl _ \<Rightarrow> files (ns_root ns) = (\<lambda>_. None))"
proof -
  obtain r t where l: "load J owner s = (r, t)" by fastforce
  note lr = load_result[OF l]
  show ?thesis
  proof (cases r)
    case (Inr n)
    then have "n = ns" "t = s'" using assms l by (auto simp: load_or_create_def)
    then show ?thesis using lr l Inr load_owner[of J owner s ns s'] by auto
  next
    case (Inl err)
    then obtain m where m: "err = NotFound m" using assms l
      by (cases err) (auto simp: load_or_create_def)
    obtain q t1 where w: "with_owner_hex X J owner t = (q, t1)" by fastforce
    obtain c s2 where v: "q = Inr ns" "save X J ns t1 = (Inr c, s2)" "s' = namespace_created owner s2"
      using assms l Inl m w by (auto simp: load_or_create_def split: sum.splits prod.splits)
    have o1: "ns_owner ns = owner" "clock_only t t1" using with_owner_hex_clock[OF w] v by auto
    have root: "files (ns_root ns) = (\<lambda>_. None)"
      using w v(1) by (auto simp: with_owner_hex_def entry_directory_def split: option.splits if_splits prod.splits)
    obtain json where sv: "store_kept t1 s2" "st_namespaces s2 = hm_insert owner ns (st_namespaces t1)"
      "st_files s2 = hm_insert (namespace_path owner t1) json (st_files t1)"
      using save_ok[OF v(2)] o1(1) by metis
    have "store_kept s2 s'" "st_namespaces s' = st_namespaces s2" "st_files s' = st_files s2"
      unfolding v(3) by (simp_all add: sink_store store_kept_def)
    moreover have "namespace_path owner t1 = namespace_path owner s"
      using clock_only_kept[OF o1(2)] lr by (simp add: namespace_path_def store_kept_def)
    ultimately show ?thesis using sv clock_only_kept[OF o1(2)] lr Inl l o1(1) root
      by (auto intro: store_kept_trans)
  qed
qed

lemma ns_put_ok:
  assumes "ns_put path entry ns e = (Inr u, ns', e')"
  shows "resolve path ns' = Some entry \<and> ns_signature ns' = None \<and> ns_owner ns' = ns_owner ns \<and> clock_only e e'
    \<and> files (ns_root ns') = graft (path_components path) (files entry) (files (ns_root ns))"
proof -
  have ne: "path_components path \<noteq> []" using assms by (auto simp: ns_put_def)
  obtain l e1 where w: "walk_parent l (butlast (path_components path))
      (put_child (last (path_components path)) entry) (ns_root ns) e = (Inr u, ns_root ns', e1)"
    and s: "ns_signature ns' = None" using ns_put_root[OF assms ne] by auto
  have "resolve path ns' = Some entry" using walk_parent_resolve w ne by (fastforce simp: resolve_def)
  then show ?thesis using walk_parent_put[OF w] s ne ns_put_clock[OF assms] by auto
qed

lemma write_path_ok:
  assumes "write_path X J owner path content ct s = (Inr w, s')"
  obtains ns0 s1 ns t json where
    "load_or_create X J owner (cache_content (from_content X content) content s) = (Inr ns0, s1)"
    "ns_owner ns = ns_owner ns0"
    "resolve path ns = Some (NsFile (from_content X content) (of_nat (length content)) ct t)"
    "files (ns_root ns) = graft (path_components path)
       (files (NsFile (from_content X content) (of_nat (length content)) ct t)) (files (ns_root ns0))"
    "st_namespaces s' = hm_insert (ns_owner ns) ns (st_namespaces s1)" "js_pretty J ns = Inr json"
    "st_files s' = hm_insert (namespace_path (ns_owner ns) s1) json (st_files s1)"
    "store_kept s1 s'" "wr_cid w = from_content X content" "to_cid X J ns = Inr (wr_namespace_cid w)"
proof -
  obtain ns0 s1 where l: "load_or_create X J owner (cache_content (from_content X content) content s) = (Inr ns0, s1)"
    using assms by (auto simp: write_path_def store_content_def Let_def split: prod.splits sum.splits)
  obtain entry s2 where f: "entry_file (from_content X content) (of_nat (length content)) ct s1 = (entry, s2)"
    by fastforce
  obtain t where e: "entry = NsFile (from_content X content) (of_nat (length content)) ct t" "clock_only s1 s2"
    using entry_file_clock[OF f] by auto
  obtain u ns s3 where p: "ns_put path entry ns0 s2 = (Inr u, ns, s3)"
    using assms l f by (auto simp: write_path_def store_content_def Let_def split: prod.splits sum.splits)
  obtain c where v: "save X J ns s3 = (Inr c, s')" "wr_cid w = from_content X content" "wr_namespace_cid w = c"
    using assms l f p by (auto simp: write_path_def store_content_def Let_def split: prod.splits sum.splits)
  note q = ns_put_ok[OF p]
  have k: "store_kept s1 s3 \<and> st_namespaces s3 = st_namespaces s1 \<and> st_files s3 = st_files s1"
    using clock_only_kept clock_only_trans e(2) q by blast
  then have "namespace_path o1 s3 = namespace_path o1 s1" for o1
    by (simp add: namespace_path_def store_kept_def)
  moreover obtain json where sv: "js_pretty J ns = Inr json" "store_kept s3 s'"
    "st_namespaces s' = hm_insert (ns_owner ns) ns (st_namespaces s3)"
    "st_files s' = hm_insert (namespace_path (ns_owner ns) s3) json (st_files s3)" "to_cid X J ns = Inr c"
    by (rule save_ok[OF v(1)])
  moreover have "store_kept s1 s'" using k sv(2) store_kept_trans by blast
  ultimately show thesis using that[of ns0 s1 ns t json] q k v l e(1) by simp
qed

subsection \<open>Authentic content\<close>

definition store_authentic :: "externals \<Rightarrow> cid_parser \<Rightarrow> string set \<Rightarrow> 'z nstore_scheme \<Rightarrow> bool" where
  "store_authentic X P I s = (caches_authentic X P I s
     \<and> table.sound (\<lambda>i e. i \<in> I \<longrightarrow> authentic X P i (ce_content e)) (st_cache s))"

text \<open>Identifiers that can be checked and name no path below a CID.\<close>

definition bare_ids :: "cid_parser \<Rightarrow> string set \<Rightarrow> bool" where
  "bare_ids P I = (\<forall>i \<in> I. checkable P i \<and> CHR ''/'' \<notin> set i)"

text \<open>A SHA-256 digest is 32 bytes, and its hexadecimal text 64 digits.\<close>

definition sha_names :: "externals \<Rightarrow> bool" where
  "sha_names X = (\<forall>b. detect_type (hash_content X b) = Sha256)"

lemma caches_authentic_parts:
  assumes "caches_authentic X P I s" "resolver_part s' = resolver_part s"
  shows "caches_authentic X P I s'"
  using assms(2) by (auto simp: resolver_part_def intro: caches_authentic_frame[OF assms(1)])

lemma store_kept_authentic: "\<lbrakk>store_authentic X P I s; store_kept s s'\<rbrakk> \<Longrightarrow> store_authentic X P I s'"
  by (auto simp: store_authentic_def store_kept_def intro: caches_authentic_parts)

lemma cache_content_authentic:
  assumes "store_authentic X P I s" "cid_raw cid \<in> I \<Longrightarrow> authentic X P (cid_raw cid) content"
  shows "store_authentic X P I (cache_content cid content s)"
proof -
  have "table.sound (\<lambda>i e. i \<in> I \<longrightarrow> authentic X P i (ce_content e))
      (bounded_put (st_limit s) (cid_raw cid) (entry_of content) (st_cache s))"
    using assms by (intro bounded.sound_put) (auto simp: store_authentic_def entry_of_def)
  moreover have "caches_authentic X P I (cache_content cid content s)"
    using caches_authentic_parts[of X P I s "cache_content cid content s"] assms(1)
    by (simp add: store_authentic_def cache_content_eq)
  ultimately show ?thesis by (simp add: store_authentic_def cache_content_eq)
qed

lemma parse_bare:
  assumes "parse_content_uri (''elastos://'' @ i) = Inr u" "CHR ''/'' \<notin> set i"
  shows "uri_wf u \<and> uri_identifier u = i \<and> uri_path u = None"
proof -
  have "find_sub ''/'' i = None" using assms(2) by (rule find_sub_char(2))
  then show ?thesis using assms parse_uri_wf[OF assms(1)]
    by (auto simp: parse_content_uri_def Let_def simp del: find_sub.simps split: if_splits)
qed

lemma fetch_content_authentic:
  assumes "caches_authentic X P I s" "inj_on (cache_filename X) I" "bare_ids P I" "i \<in> I"
  shows "caches_authentic X P I (snd (fetch_content X P (''elastos://'' @ i) s))
    \<and> (\<forall>r. fst (fetch_content X P (''elastos://'' @ i) s) = Inr r \<longrightarrow> authentic X P i (fr_content r))"
proof (cases "parse_content_uri (''elastos://'' @ i)")
  case (Inl e)
  then show ?thesis using assms(1) by (simp add: fetch_content_def)
next
  case (Inr u)
  have u: "uri_wf u" "uri_identifier u = i" "uri_path u = None"
    using parse_bare[OF Inr] assms(3,4) by (auto simp: bare_ids_def)
  have "\<forall>i \<in> I. checkable P i" using assms(3) by (simp add: bare_ids_def)
  then show ?thesis using fetch_uri_authentic[OF assms(1,2) u(1,3)] u(2) assms(4) Inr
    by (simp add: fetch_content_def)
qed

lemma read_content_authentic:
  assumes "store_authentic X P I s" "inj_on (cache_filename X) I" "bare_ids P I" "cid_raw cid \<in> I"
    and "read_content X P cid s = (r, s')"
  shows "store_authentic X P I s' \<and> (\<forall>b. r = Inr b \<longrightarrow> authentic X P (cid_raw cid) b)"
proof (cases "hm_get (st_cache s) (cid_raw cid)")
  case (Some entry)
  then show ?thesis using assms by (auto simp: read_content_def store_authentic_def dest: table.soundD)
next
  case None
  obtain q t where f: "fetch_content X P (''elastos://'' @ cid_raw cid) s = (q, t)" by fastforce
  have t: "caches_authentic X P I t" "\<And>x. q = Inr x \<Longrightarrow> authentic X P (cid_raw cid) (fr_content x)"
    using fetch_content_authentic[OF _ assms(2-4), of s] assms(1) f by (auto simp: store_authentic_def)
  have "store_part t = store_part s"
    using fetch_store_part(3)[of X P "''elastos://'' @ cid_raw cid" s] f by (simp del: fetch_store_part)
  then have "store_authentic X P I t"
    using t(1) assms(1) by (auto simp: store_authentic_def dest: store_partD)
  then show ?thesis using t(2) assms(5) None f cache_content_authentic[of X P I t cid]
    by (auto simp: read_content_def split: sum.splits)
qed

lemma store_content_authentic:
  assumes "store_authentic X P I s" "sha_names X" "store_content X content s = (r, s')"
  shows "store_authentic X P I s'"
proof -
  have raw: "cid_raw (from_content X content) = hash_content X content"
    by (simp add: cid_raw_def from_content_def strip_prefix_def hash_content_def)
  have "authentic X P (hash_content X content) content"
    using assms(2) by (simp add: sha_names_def authentic_def verify_hash_def)
  then have "store_authentic X P I (cache_content (from_content X content) content s)"
    using assms(1) raw by (intro cache_content_authentic) simp_all
  then show ?thesis using assms(3) by (simp add: store_content_def Let_def)
qed

inductive ns_store_step ::
    "externals \<Rightarrow> ns_codec \<Rightarrow> cid_parser \<Rightarrow> string set \<Rightarrow> 'z nstore_scheme \<Rightarrow> 'z nstore_scheme \<Rightarrow> bool"
  for X J P I where
  step_read: "\<lbrakk>read_content X P cid s = (r, s'); cid_raw cid \<in> I\<rbrakk> \<Longrightarrow> ns_store_step X J P I s s'"
| step_store: "store_content X content s = (r1, s') \<Longrightarrow> ns_store_step X J P I s s'"
| step_load: "load J owner s = (r2, s') \<Longrightarrow> ns_store_step X J P I s s'"
| step_save: "save X J ns s = (Inr c, s') \<Longrightarrow> ns_store_step X J P I s s'"
| step_clock: "clock_only s s' \<Longrightarrow> ns_store_step X J P I s s'"
| step_clear: "ns_store_step X J P I s (store_clear_cache s)"
| step_resolver_clear: "ns_store_step X J P I s (clear_cache s)"
| step_restart: "ns_store_step X J P I s (ns_store_new p (resolver_new (rs_config s) s))"

lemma store_clear_authentic: "store_authentic X P I s \<Longrightarrow> store_authentic X P I (store_clear_cache s)"
  unfolding store_clear_cache_def store_authentic_def
  by (auto intro: caches_authentic_parts simp: table.sound_def)

lemma store_run_authentic:
  assumes "(ns_store_step X J P I)\<^sup>*\<^sup>* s s'" "store_authentic X P I s"
    and "inj_on (cache_filename X) I" "bare_ids P I" "sha_names X"
  shows "store_authentic X P I s'"
  using assms(1,2)
proof (induction rule: rtranclp_induct)
  case (step s1 s2)
  have s1: "store_authentic X P I s1" by (rule step.IH[OF step.prems])
  from step.hyps(2) show ?case
  proof cases
    case (step_read cid r)
    then show ?thesis using read_content_authentic[OF s1 assms(3,4)] by blast
  next
    case (step_store content r1)
    then show ?thesis using store_content_authentic[OF s1 assms(5)] by blast
  next
    case (step_load owner r2)
    then show ?thesis using load_result store_kept_authentic[OF s1] by blast
  next
    case (step_save ns c)
    then show ?thesis using save_ok store_kept_authentic[OF s1] by metis
  next
    case step_clock
    then show ?thesis using clock_only_kept store_kept_authentic[OF s1] by blast
  next
    case step_clear
    then show ?thesis using store_clear_authentic[OF s1] by simp
  next
    case step_resolver_clear
    have "store_part (clear_cache s1) = store_part s1"
      by (simp add: store_part_def clear_cache_def next_answer_def Let_def split: option.split fs_answer.split)
    then show ?thesis using step_resolver_clear s1 clear_cache_authentic
      by (auto simp: store_authentic_def dest: store_partD)
  next
    case (step_restart p)
    have "caches_authentic X P I (resolver_new (rs_config s1) s1)"
      using s1 by (simp add: store_authentic_def resolver_new_def caches_authentic_def no_torn_writes_def table.sound_def)
    then have "caches_authentic X P I s2"
      unfolding step_restart by (rule caches_authentic_frame) (simp_all add: ns_store_new_def)
    then show ?thesis using step_restart by (simp add: store_authentic_def ns_store_new_def table.sound_def)
  qed
qed

subsection \<open>Properties\<close>

text \<open>
  What is written is read back: after a successful write the same path of the same
  owner returns the content, its SHA-256 identifier, its size and content type, and the read
  is served from the cache, whatever the cache had to evict for the write.
\<close>

theorem write_then_read:
  assumes "owners_match J s" and "write_path X J owner path content ct s = (Inr w, s')"
  shows "fst (read_path X J P owner path s') = Inr \<lparr>rr_content = content, rr_cid = from_content X content,
      rr_size = of_nat (length content), rr_content_type = ct, rr_was_cached = True\<rparr>
    \<and> wr_cid w = from_content X content"
proof -
  let ?cid = "from_content X content"
  obtain ns0 s1 ns t json where l: "load_or_create X J owner (cache_content ?cid content s) = (Inr ns0, s1)"
    and o1: "ns_owner ns = ns_owner ns0"
    and r: "resolve path ns = Some (NsFile ?cid (of_nat (length content)) ct t)"
    and m: "st_namespaces s' = hm_insert (ns_owner ns) ns (st_namespaces s1)"
    and k: "store_kept s1 s'" and w: "wr_cid w = ?cid"
    by (rule write_path_ok[OF assms(2)])
  have "owners_match J (cache_content ?cid content s)"
    using assms(1) by (simp add: owners_match_def cache_content_eq namespace_path_def)
  then have "ns_owner ns = owner" using load_or_create_ok[OF l] o1 by simp
  then have load: "load J owner s' = (Inr ns, s')" using m by (simp add: load_def)
  have "st_cache s' = bounded_put (st_limit s) (cid_raw ?cid) (entry_of content) (st_cache s)"
    using k load_or_create_ok[OF l] by (simp add: store_kept_def cache_content_eq)
  then have "hm_get (st_cache s') (cid_raw ?cid) = Some (entry_of content)"
    using bounded.hit_after_put by metis
  then show ?thesis using load r w
    by (simp add: read_path_def read_content_def is_cached_def hm_contains_def entry_of_def)
qed

definition demo_store_codec :: ns_codec where
  "demo_store_codec = demo_codec\<lparr>js_pretty := (\<lambda>_. Inr ''n''), js_parse := (\<lambda>_. Inr demo_ns)\<rparr>"

definition demo_store :: nstore where
  "demo_store = content.extend demo_content (nstore.fields [''store''] [(ns_owner demo_ns, demo_ns)] []
     5 [] (\<lambda>_. StOk) 0)"

lemma demo_store_sel [simp]:
  "st_path demo_store = [''store'']" "st_namespaces demo_store = [(ns_owner demo_ns, demo_ns)]"
  "st_cache demo_store = []" "st_limit demo_store = 5" "st_files demo_store = []"
  "st_io demo_store = (\<lambda>_. StOk)" "st_ios demo_store = 0"
  "rs_config demo_store = demo_resolver_config" "rs_cache demo_store = []" "rs_files demo_store = []"
  "rs_io demo_store = (\<lambda>_. FsOk)"
  by (simp_all add: demo_store_def nstore.fields_def content.defs demo_content_def content.fields_def runtime.defs)

lemma ns_put_success:
  assumes "path_components path \<noteq> []" "\<not> blocked (ns_root ns) (path_components path)"
  shows "\<exists>ns' e'. ns_put path entry ns e = (Inr (), ns', e')"
proof -
  obtain r ns' e' where p: "ns_put path entry ns e = (r, ns', e')" by (metis surj_pair)
  obtain l e1 where "walk_parent l (butlast (path_components path))
      (put_child (last (path_components path)) entry) (ns_root ns) e = (r, ns_root ns', e1)"
    by (rule ns_put_root[OF p assms(1)])
  then show ?thesis using walk_parent_put assms p by fastforce
qed

lemma write_path_succeeds:
  assumes l: "load J owner (cache_content (from_content X content) content s) = (Inr ns0, s1)"
    and f: "entry_file (from_content X content) (of_nat (length content)) ct s1 = (entry, s2)"
    and p: "ns_put path entry ns0 s2 = (Inr u, ns, s3)"
    and io: "\<And>n. st_io s n = StOk" and j: "js_pretty J ns = Inr j" "js_compact J ns = Inr c"
  shows "\<exists>w s'. write_path X J owner path content ct s = (Inr w, s')"
proof -
  have "store_kept s1 s3" using clock_only_kept entry_file_clock[OF f] ns_put_ok[OF p] clock_only_trans by blast
  then have "st_io s3 = st_io s" using load_result[OF l] by (simp add: store_kept_def cache_content_eq)
  then have "\<exists>c s'. save X J ns s3 = (Inr c, s')"
    using j io by (simp add: save_def next_st_io_def to_json_def to_cid_def Let_def)
  then show ?thesis using l f p
    by (auto simp: write_path_def store_content_def load_or_create_def Let_def)
qed

lemma write_path_success:
  assumes "fst (load J owner (cache_content (from_content X content) content s)) = Inr ns0"
    and "path_components path \<noteq> []" "\<not> blocked (ns_root ns0) (path_components path)"
    and "\<And>n. st_io s n = StOk" "\<And>ns. \<exists>json. js_pretty J ns = Inr json" "\<And>ns. \<exists>json. js_compact J ns = Inr json"
  shows "\<exists>w s'. write_path X J owner path content ct s = (Inr w, s')"
proof -
  obtain s1 where l: "load J owner (cache_content (from_content X content) content s) = (Inr ns0, s1)"
    using assms(1) by (metis prod.collapse)
  obtain entry s2 where f: "entry_file (from_content X content) (of_nat (length content)) ct s1 = (entry, s2)"
    by fastforce
  obtain ns s3 where p: "ns_put path entry ns0 s2 = (Inr (), ns, s3)"
    using ns_put_success[OF assms(2,3)] by blast
  obtain j c where "js_pretty J ns = Inr j" "js_compact J ns = Inr c" using assms(5,6) by blast
  from write_path_succeeds[OF l f p assms(4) this] show ?thesis .
qed

lemma demo_store_owners: "owners_match demo_store_codec demo_store"
  by (simp add: owners_match_def hm_get_def)

lemma demo_write: "\<exists>w s'. write_path demo_ext demo_store_codec (ns_owner demo_ns) ''a/c'' [1, 2, 3] None demo_store
    = (Inr w, s')"
  by (rule write_path_success[of _ _ _ _ _ demo_ns])
    (simp_all add: load_def cache_content_eq hm_get_def demo_path demo_store_codec_def demo_codec_def,
     simp add: demo_ns_def demo_dir_def blocked_directory)

theorem write_then_read_witness:
  "\<exists>s. fst (read_path demo_ext demo_store_codec demo_cids (ns_owner demo_ns) ''a/c'' (s :: nstore))
     = Inr \<lparr>rr_content = [1, 2, 3], rr_cid = from_content demo_ext [1, 2, 3], rr_size = 3,
         rr_content_type = None, rr_was_cached = True\<rparr>"
proof -
  obtain w s' where "write_path demo_ext demo_store_codec (ns_owner demo_ns) ''a/c'' [1, 2, 3] None demo_store
      = (Inr w, s')" using demo_write by blast
  from write_then_read[OF demo_store_owners this, of demo_cids] show ?thesis by auto
qed



text \<open>
  Content read through the store is authentic: along every run of reads of bare,
  checkable identifiers, of writes, loads, saves, cache clearings and restarts from empty
  caches, with a file cache whose writes are not torn, whatever a path yields for such an
  identifier hashes to the identifier the namespace records for it.
\<close>

theorem store_reads_authentic:
  assumes "rs_cache s = []" "rs_files s = []" "no_torn_writes s" "st_cache s = []"
    and "inj_on (cache_filename X) I" "bare_ids P I" "sha_names X"
    and "(ns_store_step X J P I)\<^sup>*\<^sup>* s s'"
    and "read_path X J P owner path s' = (Inr r, s'')" "cid_raw (rr_cid r) \<in> I"
  shows "authentic X P (cid_raw (rr_cid r)) (rr_content r)"
proof -
  have "store_authentic X P I s"
    using assms(1-4) by (simp add: store_authentic_def caches_authentic_def table.sound_def)
  then have s': "store_authentic X P I s'" by (rule store_run_authentic[OF assms(8) _ assms(5-7)])
  obtain ns t where l: "load J owner s' = (Inr ns, t)"
    using assms(9) by (auto simp: read_path_def split: prod.splits sum.splits)
  have t: "store_authentic X P I t" using store_kept_authentic[OF s'] load_result[OF l] by blast
  obtain q where q: "read_content X P (rr_cid r) t = (q, s'')" "q = Inr (rr_content r)"
    using assms(9) l by (auto simp: read_path_def Let_def split: option.splits ns_entry.splits prod.splits sum.splits)
  show ?thesis using read_content_authentic[OF t assms(5,6,10) q(1)] q(2) by blast
qed

definition demo_sha_ext :: externals where
  "demo_sha_ext = demo_ext\<lparr>sha256 := \<lambda>b. take 32 (b @ replicate 32 0)\<rparr>"

lemma nibble_char_hexdigit: "n < 16 \<Longrightarrow> is_ascii_hexdigit (nibble_char n)"
  by (simp add: is_ascii_hexdigit_def)

lemma demo_hex_hexdigits: "list_all is_ascii_hexdigit (demo_hex b)"
  by (induction b) (simp_all add: nibble_char_hexdigit)

lemma demo_sha_length: "length (demo_hex (take 32 b @ replicate (32 - length b) 0)) = 64"
proof -
  have "length (take 32 b @ replicate (32 - length b) 0) = 32" by simp
  then show ?thesis using demo_hex_shape[of "take 32 b @ replicate (32 - length b) 0"] by (simp only:)
qed

lemma demo_sha_names: "sha_names demo_sha_ext"
  using demo_sha_length demo_hex_hexdigits
  by (simp add: sha_names_def hash_content_def detect_type_def demo_sha_ext_def strip_prefix_def)

lemma demo_sha_raw: "cid_raw (from_content demo_sha_ext b) = hash_content demo_sha_ext b"
  by (simp add: cid_raw_def from_content_def strip_prefix_def hash_content_def)

lemma hash_no_slash: "CHR ''/'' \<notin> set (hash_content demo_sha_ext b)"
proof -
  have "CHR ''/'' \<notin> set (demo_hex c)" for c
    using demo_hex_hexdigits[of c] by (auto simp: list_all_iff is_ascii_hexdigit_def char_nibble_def)
  then show ?thesis by (simp add: hash_content_def demo_sha_ext_def)
qed

theorem store_reads_authentic_witness:
  "\<exists>s r. fst (read_path demo_sha_ext demo_store_codec demo_cids (ns_owner demo_ns) ''a/c'' (s :: nstore)) = Inr r
     \<and> rr_content r = [1, 2, 3]
     \<and> authentic demo_sha_ext demo_cids (hash_content demo_sha_ext [1, 2, 3]) (rr_content r)"
proof -
  let ?i = "hash_content demo_sha_ext [1, 2, 3]"
  let ?s1 = "cache_content (from_content demo_sha_ext [1, 2, 3]) [1, 2, 3] demo_store"
  let ?ns = "demo_ns\<lparr>ns_root := demo_dir [(''a'', demo_dir [(''c'',
      NsFile (from_content demo_sha_ext [1, 2, 3]) 3 None (Timestamp 1 1))])]\<rparr>"
  obtain s2 c where v: "save demo_sha_ext demo_store_codec ?ns ?s1 = (Inr c, s2)"
    by (auto simp: save_def next_st_io_def to_json_def to_cid_def Let_def demo_store_codec_def demo_codec_def
        cache_content_eq)
  have k: "store_kept ?s1 s2" "st_namespaces s2 = hm_insert (ns_owner ?ns) ?ns (st_namespaces ?s1)"
    using save_ok[OF v] by metis+
  have run: "(ns_store_step demo_sha_ext demo_store_codec demo_cids {?i})\<^sup>*\<^sup>* demo_store s2"
    using step_store[of demo_sha_ext "[1, 2, 3]" demo_store] step_save[OF v]
    by (meson rtranclp.rtrancl_refl rtranclp.rtrancl_into_rtrancl store_content_def)
  have "hm_get (st_cache s2) ?i = Some (entry_of [1, 2, 3])"
    using k(1) bounded.hit_after_put[of 5 ?i] by (simp add: store_kept_def cache_content_eq demo_sha_raw)
  then have r: "read_path demo_sha_ext demo_store_codec demo_cids (ns_owner demo_ns) ''a/c'' s2
      = (Inr \<lparr>rr_content = [1, 2, 3], rr_cid = from_content demo_sha_ext [1, 2, 3], rr_size = 3,
          rr_content_type = None, rr_was_cached = True\<rparr>, s2)"
    using k(2) by (simp add: read_path_def load_def resolve_def demo_path demo_dir_def demo_sha_raw
        is_cached_def hm_contains_def read_content_def entry_of_def)
  have "bare_ids demo_cids {?i}" using demo_sha_names hash_no_slash
    by (simp add: bare_ids_def checkable_def sha_names_def)
  from store_reads_authentic[OF _ _ _ _ _ this demo_sha_names run r] r
  show ?thesis by (intro exI[of _ s2]) (auto simp: no_torn_writes_def demo_sha_raw)
qed

text \<open>The files of an owner as the store would load them.\<close>

definition files_view :: "ns_codec \<Rightarrow> string \<Rightarrow> 'z nstore_scheme \<Rightarrow> string list \<Rightarrow> ns_entry option" where
  "files_view J owner s = (case fst (load J owner s) of Inr ns \<Rightarrow> files (ns_root ns) | Inl _ \<Rightarrow> (\<lambda>_. None))"

lemma load_cache_content: "fst (load J owner (cache_content cid b s)) = fst (load J owner s)"
  by (simp add: load_def cache_content_eq namespace_path_def read_namespace_file_def next_st_io_def Let_def
      split: option.split store_answer.split sum.split)

text \<open>
  A write implements the update of one owner's map: after a successful write the files
  of the owner are those before it with everything at and below the path replaced by the new
  file, and nothing that is held for another owner, in memory or on the disk, has changed.
\<close>

theorem write_refines_map:
  assumes "owners_match J s" and "write_path X J owner path content ct s = (Inr w, s')"
  shows "(\<exists>t. files_view J owner s' = graft (path_components path)
      (files (NsFile (from_content X content) (of_nat (length content)) ct t)) (files_view J owner s))
    \<and> (\<forall>o1. o1 \<noteq> owner \<longrightarrow> hm_get (st_namespaces s') o1 = hm_get (st_namespaces s) o1)
    \<and> (\<forall>p. p \<noteq> namespace_path owner s \<longrightarrow> hm_get (st_files s') p = hm_get (st_files s) p)"
proof -
  let ?c = "cache_content (from_content X content) content s"
  obtain ns0 s1 ns t json where l: "load_or_create X J owner ?c = (Inr ns0, s1)"
    and o1: "ns_owner ns = ns_owner ns0"
    and f: "files (ns_root ns) = graft (path_components path)
       (files (NsFile (from_content X content) (of_nat (length content)) ct t)) (files (ns_root ns0))"
    and m: "st_namespaces s' = hm_insert (ns_owner ns) ns (st_namespaces s1)"
    and p: "st_files s' = hm_insert (namespace_path (ns_owner ns) s1) json (st_files s1)"
    by (rule write_path_ok[OF assms(2)])
  have c: "owners_match J ?c" "st_namespaces ?c = st_namespaces s" "st_files ?c = st_files s" "st_path ?c = st_path s"
    using assms(1) by (simp_all add: owners_match_def cache_content_eq namespace_path_def)
  note r = load_or_create_ok[OF l]
  have owner: "ns_owner ns = owner" using r c(1) o1 by simp
  have "files_view J owner s = files (ns_root ns0)"
    using r load_cache_content[of J owner "from_content X content" content s]
    by (auto simp: files_view_def split: sum.splits)
  moreover have "files_view J owner s' = files (ns_root ns)"
    using m owner by (simp add: files_view_def load_def)
  ultimately have "\<exists>t. files_view J owner s' = graft (path_components path)
      (files (NsFile (from_content X content) (of_nat (length content)) ct t)) (files_view J owner s)"
    using f by auto
  moreover have "\<forall>o1. o1 \<noteq> owner \<longrightarrow> hm_get (st_namespaces s') o1 = hm_get (st_namespaces s) o1"
    using r m owner c by simp
  moreover have "namespace_path owner s1 = namespace_path owner s" "namespace_path owner ?c = namespace_path owner s"
    using r c(4) by (simp_all add: namespace_path_def store_kept_def)
  then have "\<forall>p. p \<noteq> namespace_path owner s \<longrightarrow> hm_get (st_files s') p = hm_get (st_files s) p"
    using r p owner c by simp
  ultimately show ?thesis by blast
qed

theorem write_refines_map_witness:
  "\<exists>s. files_view demo_store_codec (ns_owner demo_ns) (s :: nstore) [''a'', ''b''] = Some demo_leaf"
proof -
  obtain w s' where w: "write_path demo_ext demo_store_codec (ns_owner demo_ns) ''a/c'' [1, 2, 3] None demo_store
      = (Inr w, s')" using demo_write by blast
  have "files_view demo_store_codec (ns_owner demo_ns) demo_store [''a'', ''b''] = Some demo_leaf"
    by (simp add: files_view_def load_def hm_get_def) (simp add: demo_ns_def demo_dir_def demo_leaf_def files_Cons)
  then show ?thesis using write_refines_map[OF demo_store_owners w] by (auto simp: demo_path graft_def intro!: exI[of _ s'])
qed

text \<open>
  The file of an owner is trusted: a namespace file stored under one owner but naming
  another, which nothing verifies, is loaded for the first, and a write on behalf of the first
  then replaces the namespace of the other, in memory and in the other's file.
\<close>

theorem misfiled_namespace_overwrites:
  assumes "hm_get (st_namespaces s) a = None" and "hm_get (st_files s) (namespace_path a s) = Some json"
    and "from_json J json = Inr n" and "ns_owner n = b"
    and "write_path X J a path content ct s = (Inr w, s')"
  shows "\<exists>ns t. fst (load J b s') = Inr ns
    \<and> files (ns_root ns) = graft (path_components path)
        (files (NsFile (from_content X content) (of_nat (length content)) ct t)) (files (ns_root n))
    \<and> (\<exists>json'. js_pretty J ns = Inr json' \<and> hm_get (st_files s') (namespace_path b s) = Some json')"
proof -
  let ?c = "cache_content (from_content X content) content s"
  obtain ns0 s1 ns t json' where l: "load_or_create X J a ?c = (Inr ns0, s1)"
    and o1: "ns_owner ns = ns_owner ns0"
    and f: "files (ns_root ns) = graft (path_components path)
       (files (NsFile (from_content X content) (of_nat (length content)) ct t)) (files (ns_root ns0))"
    and m: "st_namespaces s' = hm_insert (ns_owner ns) ns (st_namespaces s1)" and j: "js_pretty J ns = Inr json'"
    and p: "st_files s' = hm_insert (namespace_path (ns_owner ns) s1) json' (st_files s1)"
    by (rule write_path_ok[OF assms(5)])
  have c: "st_namespaces ?c = st_namespaces s" "st_files ?c = st_files s" "st_path ?c = st_path s"
    by (simp_all add: cache_content_eq)
  then have np: "namespace_path o1 ?c = namespace_path o1 s" for o1 by (simp add: namespace_path_def)
  obtain r s2 where ld: "load J a ?c = (r, s2)" by fastforce
  have "ns0 = n"
  proof (cases r)
    case (Inr n')
    then have "n' = n" using load_result[OF ld] assms(1-3) c np by simp
    then show ?thesis using load_or_create_ok[OF l] ld Inr by simp
  next
    case (Inl err)
    then show ?thesis using load_result[OF ld] l ld assms(2) c np
      by (cases err) (auto simp: load_or_create_def)
  qed
  then have "ns_owner ns = b" using o1 assms(4) by simp
  moreover have "namespace_path b s1 = namespace_path b s"
    using load_or_create_ok[OF l] c(3) by (simp add: namespace_path_def store_kept_def)
  ultimately show ?thesis using m p f j \<open>ns0 = n\<close> by (intro exI[of _ ns] exI[of _ t]) (simp add: load_def)
qed

definition demo_forged_store :: nstore where
  "demo_forged_store = demo_store\<lparr>st_namespaces := [],
     st_files := [(namespace_path ''mallory'' demo_store, ''n'')]\<rparr>"

lemma forged_load: "fst (load demo_store_codec ''mallory'' demo_forged_store) = Inr demo_ns"
proof -
  have "utf8_ok ''n''" by code_simp
  then show ?thesis
    by (simp add: load_def demo_forged_store_def namespace_path_def hm_get_def read_namespace_file_def
        next_st_io_def from_json_def demo_store_codec_def demo_codec_def)
qed

theorem misfiled_namespace_overwrites_witness:
  "\<exists>w s' ns. write_path demo_ext demo_store_codec ''mallory'' ''a/c'' [1, 2, 3] None demo_forged_store = (Inr w, s')
     \<and> ns_owner demo_ns \<noteq> ''mallory'' \<and> ns_verify demo_ext demo_store_codec demo_ns \<noteq> Inr True
     \<and> fst (load demo_store_codec (ns_owner demo_ns) s') = Inr ns \<and> files (ns_root ns) [''a'', ''c''] \<noteq> None"
proof -
  have "\<exists>w s'. write_path demo_ext demo_store_codec ''mallory'' ''a/c'' [1, 2, 3] None demo_forged_store = (Inr w, s')"
  proof (rule write_path_success)
    show "fst (load demo_store_codec ''mallory'' (cache_content (from_content demo_ext [1, 2, 3]) [1, 2, 3]
        demo_forged_store)) = Inr demo_ns" by (simp only: load_cache_content forged_load)
    show "\<not> blocked (ns_root demo_ns) (path_components ''a/c'')"
      by (simp add: demo_path demo_ns_def demo_dir_def blocked_directory)
  qed (simp_all add: demo_path demo_forged_store_def demo_store_codec_def demo_codec_def)
  then obtain w s' where w: "write_path demo_ext demo_store_codec ''mallory'' ''a/c'' [1, 2, 3] None demo_forged_store
      = (Inr w, s')" by blast
  have h: "hm_get (st_namespaces demo_forged_store) ''mallory'' = None"
    "hm_get (st_files demo_forged_store) (namespace_path ''mallory'' demo_forged_store) = Some ''n''"
    "from_json demo_store_codec ''n'' = Inr demo_ns"
    by (simp_all add: demo_forged_store_def namespace_path_def hm_get_def from_json_def demo_store_codec_def)
  have "length (ns_owner demo_ns) = 64" using demo_hex_shape by (simp add: demo_ns_def)
  then have "ns_owner demo_ns \<noteq> ''mallory''" by auto
  moreover have "ns_verify demo_ext demo_store_codec demo_ns \<noteq> Inr True"
  proof -
    have "demo_unhex ''sig'' = None" by code_simp
    then show ?thesis by (simp add: ns_verify_def demo_ns_def demo_unhex_hex demo_store_codec_def demo_codec_def)
  qed
  ultimately show ?thesis using misfiled_namespace_overwrites[OF h refl w] w
    by (auto simp: demo_path graft_def)
qed

lemma sha_name_type:
  assumes "parse_content_uri (''elastos://'' @ ''sha256:'' @ h) = Inr u"
  shows "uri_id_type u = Sha256"
proof -
  note u = parse_uri_wf[OF assms]
  have "uri_identifier u \<noteq> []" using u uri_wf_identifier by blast
  then have "hd (uri_identifier u) = CHR ''s''"
    using u by (cases "uri_identifier u") (auto simp: content_uri_display_def split: option.splits)
  then show ?thesis using u by (auto simp: uri_wf_def detect_type_def prefix_def split: if_splits)
qed

lemma no_cache_no_sha:
  assumes "rs_cache s = []" "cfg_cache_dir (rs_config s) = None"
  shows "\<exists>e. fst (fetch_content X P (''elastos://'' @ ''sha256:'' @ h) s) = Inl e"
proof (cases "parse_content_uri (''elastos://'' @ ''sha256:'' @ h)")
  case (Inr u)
  then show ?thesis using assms sha_name_type[OF Inr]
    by (auto simp: fetch_content_def fetch_uri_def check_cache_def fetch_by_sha256_def)
qed (simp add: fetch_content_def)

text \<open>
  The store persists names, not content: after a successful write and a restart of
  store and resolver (with no cache directory configured) the namespace is loaded again with
  all its files, but the content just written is nowhere, and reading it fails.
\<close>

theorem restart_loses_content:
  assumes "owners_match J s" and "write_path X J owner path content ct s = (Inr w, s')"
    and "cfg_cache_dir (rs_config s) = None" and "\<And>n. st_io s n = StOk"
    and "\<And>ns json. js_pretty J ns = Inr json \<Longrightarrow> js_parse J json = Inr ns \<and> utf8_ok json"
    and "restarted = ns_store_new (st_path s') (resolver_new (rs_config s') s')"
  shows "files_view J owner restarted = files_view J owner s'
    \<and> (\<exists>e. fst (read_path X J P owner path restarted) = Inl (FetchError e))"
proof -
  let ?c = "cache_content (from_content X content) content s"
  obtain ns0 s1 ns t json where l: "load_or_create X J owner ?c = (Inr ns0, s1)"
    and o1: "ns_owner ns = ns_owner ns0"
    and f: "resolve path ns = Some (NsFile (from_content X content) (of_nat (length content)) ct t)"
    and m: "st_namespaces s' = hm_insert (ns_owner ns) ns (st_namespaces s1)" and j: "js_pretty J ns = Inr json"
    and p: "st_files s' = hm_insert (namespace_path (ns_owner ns) s1) json (st_files s1)"
    and k: "store_kept s1 s'"
    by (rule write_path_ok[OF assms(2)])
  note r = load_or_create_ok[OF l]
  have "owners_match J ?c" using assms(1) by (simp add: owners_match_def cache_content_eq namespace_path_def)
  then have owner: "ns_owner ns = owner" using r o1 by simp
  have kept: "st_path s' = st_path s1" "st_io s' = st_io s" "rs_config s' = rs_config s"
    using k r by (simp_all add: store_kept_def cache_content_eq resolver_part_def)
  have v: "files_view J owner s' = files (ns_root ns)"
    using m owner by (simp add: files_view_def load_def)
  have fields: "st_namespaces restarted = []" "st_cache restarted = []" "st_files restarted = st_files s'"
    "st_path restarted = st_path s1" "st_io restarted = st_io s" "rs_cache restarted = []"
    "rs_config restarted = rs_config s"
    using assms(6) kept by (simp_all add: ns_store_new_def resolver_new_def)
  then have "namespace_path owner restarted = namespace_path owner s1" by (simp add: namespace_path_def)
  then have "hm_get (st_files restarted) (namespace_path owner restarted) = Some json"
    using p owner fields by simp
  then have ld: "fst (load J owner restarted) = Inr ns"
    using assms(4,5) j fields by (auto simp: load_def read_namespace_file_def next_st_io_def from_json_def Let_def)
  obtain t2 where t2: "load J owner restarted = (Inr ns, t2)" using ld by (metis prod.collapse)
  have "st_cache t2 = []" "rs_cache t2 = []" "cfg_cache_dir (rs_config t2) = None"
    using load_result[OF t2] fields assms(3) by (simp_all add: store_kept_def resolver_part_def)
  moreover obtain h where raw: "cid_raw (from_content X content) = ''sha256:'' @ h"
    by (simp add: cid_raw_def from_content_def strip_prefix_def)
  moreover obtain e where "fst (fetch_content X P (''elastos://'' @ ''sha256:'' @ h) t2) = Inl e"
    using no_cache_no_sha calculation by blast
  ultimately have "\<exists>e. fst (read_content X P (from_content X content) t2) = Inl (FetchError e)"
    by (simp add: read_content_def case_prod_beta del: append.simps)
  then have "\<exists>e. fst (read_path X J P owner path restarted) = Inl (FetchError e)"
    using t2 f by (auto simp: read_path_def Let_def split: prod.splits)
  then show ?thesis using v ld by (simp add: files_view_def)
qed

definition demo_uncached_store :: nstore where
  "demo_uncached_store = demo_store\<lparr>rs_config := resolver_config_default\<rparr>"

definition demo_written :: namespace where
  "demo_written = (let s1 = cache_content (from_content demo_ext [1, 2, 3]) [1, 2, 3] demo_uncached_store;
       (entry, s2) = entry_file (from_content demo_ext [1, 2, 3]) 3 None s1
     in fst (snd (ns_put ''a/c'' entry demo_ns s2)))"

definition demo_exact_codec :: ns_codec where
  "demo_exact_codec = demo_codec\<lparr>js_pretty := (\<lambda>ns. if ns = demo_written then Inr ''n'' else Inl ''no''),
     js_parse := (\<lambda>_. Inr demo_written)\<rparr>"

theorem restart_loses_content_witness:
  "\<exists>s e. files_view demo_exact_codec (ns_owner demo_ns) (s :: nstore) [''a'', ''c''] \<noteq> None
    \<and> fst (read_path demo_ext demo_exact_codec demo_cids (ns_owner demo_ns) ''a/c'' s) = Inl (FetchError e)"
proof -
  let ?s1 = "cache_content (from_content demo_ext [1, 2, 3]) [1, 2, 3] demo_uncached_store"
  have l: "load demo_exact_codec (ns_owner demo_ns) ?s1 = (Inr demo_ns, ?s1)"
    by (simp add: load_def cache_content_eq demo_uncached_store_def hm_get_def)
  obtain entry s2 where f: "entry_file (from_content demo_ext [1, 2, 3]) 3 None ?s1 = (entry, s2)" by fastforce
  obtain ns s3 where p: "ns_put ''a/c'' entry demo_ns s2 = (Inr (), ns, s3)"
    using ns_put_success[of "''a/c''" demo_ns entry s2]
    by (auto simp: demo_path demo_ns_def demo_dir_def blocked_directory)
  have ns: "ns = demo_written" using f p by (simp add: demo_written_def)
  obtain w s' where w: "write_path demo_ext demo_exact_codec (ns_owner demo_ns) ''a/c'' [1, 2, 3] None demo_uncached_store
      = (Inr w, s')"
  proof -
    have f': "entry_file (from_content demo_ext [1, 2, 3]) (of_nat (length [1 :: u8, 2, 3])) None ?s1 = (entry, s2)"
      using f by simp
    have io: "st_io demo_uncached_store n = StOk" for n by (simp add: demo_uncached_store_def)
    have "\<exists>j c. js_pretty demo_exact_codec ns = Inr j \<and> js_compact demo_exact_codec ns = Inr c"
      by (simp add: ns demo_exact_codec_def demo_codec_def)
    then show thesis using write_path_succeeds[OF l f' p io] that by blast
  qed
  have o1: "owners_match demo_exact_codec demo_uncached_store"
    by (simp add: owners_match_def hm_get_def demo_uncached_store_def)
  have u: "utf8_ok ''n''" by code_simp
  let ?t = "ns_store_new (st_path s') (resolver_new (rs_config s') s')"
  have "files_view demo_exact_codec (ns_owner demo_ns) ?t = files_view demo_exact_codec (ns_owner demo_ns) s'
    \<and> (\<exists>e. fst (read_path demo_ext demo_exact_codec demo_cids (ns_owner demo_ns) ''a/c'' ?t) = Inl (FetchError e))"
    by (rule restart_loses_content[OF o1 w _ _ _ refl])
      (auto simp: demo_uncached_store_def resolver_config_default_def demo_exact_codec_def u split: if_splits)
  moreover have "files_view demo_exact_codec (ns_owner demo_ns) s' [''a'', ''c''] \<noteq> None"
  proof -
    obtain ns0 s1 ns t json where q: "load_or_create demo_ext demo_exact_codec (ns_owner demo_ns)
        (cache_content (from_content demo_ext [1, 2, 3]) [1, 2, 3] demo_uncached_store) = (Inr ns0, s1)"
      "ns_owner ns = ns_owner ns0" "st_namespaces s' = hm_insert (ns_owner ns) ns (st_namespaces s1)"
      "files (ns_root ns) = graft (path_components ''a/c'')
         (files (NsFile (from_content demo_ext [1, 2, 3]) (of_nat (length [1 :: u8, 2, 3])) None t)) (files (ns_root ns0))"
      by (rule write_path_ok[OF w])
    have "ns0 = demo_ns" using q(1) l by (simp add: load_or_create_def)
    then show ?thesis using q(2-4) by (simp add: files_view_def load_def demo_path graft_def)
  qed
  ultimately show ?thesis by metis
qed

end
