(* ===== verification/Provider_Registry.thy ===== *)
theory Provider_Registry
  imports Audit_Log Localhost "HOL-Library.List_Lexorder" "HOL-Library.Char_ord" "HOL-Library.Product_Lexorder"
begin

section \<open>The provider registry: registration and routing\<close>

text \<open>
  \<^verbatim>\<open>elastos-runtime/src/provider/registry.rs\<close>: the two routing tables, the life cycle of
  \<^verbatim>\<open>elastos://\<close> sub-providers and Runtime-only targets, and the routing of resource requests
  and raw JSON requests. A provider is an \<^verbatim>\<open>Arc\<close>: its pointer, name and schemes. What the
  providers answer is an oracle, the n-th call gets the n-th answer; every call made to a
  provider is recorded in \<open>pv_calls\<close>. \<^verbatim>\<open>shutdown\<close> runs without a lock, so unregistering is two
  steps, between which other operations may run.
\<close>

subsection \<open>Requests, responses, errors\<close>

record provider =
  prov_ptr :: nat
  prov_name :: string
  prov_schemes :: "string list"

record provider_registration =
  pr_route_kind :: string
  pr_route :: string
  pr_provider :: string

datatype resource_action = RaRead | RaWrite | RaDelete | RaList | RaExists | RaStat | RaMkdir

record resource_request =
  rq_uri :: string
  rq_scheme :: string
  rq_path :: string
  rq_capsule_id :: string
  rq_action :: resource_action
  rq_content :: "bytes option"
  rq_recursive :: bool

datatype entry_type = EtFile | EtDirectory

record resource_entry =
  re_name :: string
  re_is_directory :: bool
  re_size :: "u64 option"
  re_modified :: "u64 option"

datatype resource_response = RData bytes | RWritten nat | RDeleted | RList "resource_entry list"
  | RExists bool | ROk | RMetadata u64 entry_type u64 | RCreated

text \<open>An I/O error and \<^verbatim>\<open>NotEnoughFreeSpace\<close> carry their text.\<close>

datatype provider_error = PNotFound string | PPermissionDenied string | PInvalidUri string
  | PProvider string | PNoProvider string | PUnavailable string | PIo string | PNotEnoughFreeSpace string

fun provider_error_display :: "provider_error \<Rightarrow> string" where
  "provider_error_display (PNotFound uri) = ''resource not found: '' @ uri"
| "provider_error_display (PPermissionDenied m) = ''permission denied: '' @ m"
| "provider_error_display (PInvalidUri uri) = ''invalid URI: '' @ uri"
| "provider_error_display (PProvider m) = ''provider error: '' @ m"
| "provider_error_display (PNoProvider scheme) = ''no provider for scheme: '' @ scheme"
| "provider_error_display (PUnavailable m) = ''peer unavailable: '' @ m"
| "provider_error_display (PIo e) = ''IO error: '' @ e"
| "provider_error_display (PNotEnoughFreeSpace e) = e"

subsection \<open>State\<close>

definition RESERVED_SUB_NAMES :: "string list" where
  "RESERVED_SUB_NAMES = [''peer'', ''did'', ''model'', ''ipfs'', ''content'', ''tunnel'', ''storage'',
     ''namespace'', ''message'', ''chain'', ''net'', ''exit'', ''browser-engine'', ''wallet'', ''library'',
     ''drm'', ''rights'', ''key'', ''decrypt'', ''inspect'', ''availability'', ''block-graph'', ''object'',
     ''collaboration-direct'', ''collaboration-profile'']"

definition RESERVED_RUNTIME_PROVIDER_TARGETS :: "string list" where
  "RESERVED_RUNTIME_PROVIDER_TARGETS = [''protect'', ''media'', ''custody'', ''protected-content-decrypt'',
     ''collaboration.history'', ''collaboration.shared'']"

datatype visibility = CapsuleResource | RuntimeOnly

datatype sub_registration =
  Ready provider visibility
| Settling provider visibility (shutdown_in_progress: bool)

datatype provider_call =
  CallHandle provider resource_request
| CallRaw provider json
| CallShutdown provider

record provider_registry =
  reg_providers :: "(string, provider) hmap"
  reg_sub :: "(string, sub_registration) hmap"
  pv_handle :: "nat \<Rightarrow> provider \<Rightarrow> resource_request \<Rightarrow> provider_error + resource_response"
  pv_raw :: "nat \<Rightarrow> provider \<Rightarrow> json \<Rightarrow> provider_error + json"
  pv_shutdown :: "nat \<Rightarrow> provider \<Rightarrow> provider_error + unit"
  pv_calls :: "provider_call list"

definition provider_registry_new :: "provider_registry \<Rightarrow> provider_registry" where
  "provider_registry_new R = R\<lparr>reg_providers := [], reg_sub := []\<rparr>"

fun ready_provider :: "sub_registration \<Rightarrow> provider option" where
  "ready_provider (Ready p _) = Some p"
| "ready_provider (Settling _ _ _) = None"

fun capsule_resource_provider :: "sub_registration \<Rightarrow> provider option" where
  "capsule_resource_provider (Ready p CapsuleResource) = Some p"
| "capsule_resource_provider (Ready p RuntimeOnly) = None"
| "capsule_resource_provider (Settling _ _ _) = None"

text \<open>The calls of the \<^verbatim>\<open>Provider\<close> trait.\<close>

definition call_handle ::
    "provider \<Rightarrow> resource_request \<Rightarrow> provider_registry \<Rightarrow> (provider_error + resource_response) \<times> provider_registry" where
  "call_handle p req R = (pv_handle R (length (pv_calls R)) p req, R\<lparr>pv_calls := pv_calls R @ [CallHandle p req]\<rparr>)"

definition call_raw :: "provider \<Rightarrow> json \<Rightarrow> provider_registry \<Rightarrow> (provider_error + json) \<times> provider_registry" where
  "call_raw p req R = (pv_raw R (length (pv_calls R)) p req, R\<lparr>pv_calls := pv_calls R @ [CallRaw p req]\<rparr>)"

definition call_shutdown :: "provider \<Rightarrow> provider_registry \<Rightarrow> (provider_error + unit) \<times> provider_registry" where
  "call_shutdown p R = (pv_shutdown R (length (pv_calls R)) p, R\<lparr>pv_calls := pv_calls R @ [CallShutdown p]\<rparr>)"

subsection \<open>Registration\<close>

text \<open>
  \<^verbatim>\<open>str::to_lowercase\<close>. Of the letters outside ASCII only the Kelvin sign becomes an ASCII
  letter; the others stay outside ASCII, where no registered name is, and are left as they are.
\<close>

fun lower :: "string \<Rightarrow> string" where
  "lower (a # b # c # s) =
     (if [a, b, c] = [CHR 0xE2, CHR 0x84, CHR 0xAA] then CHR ''k'' # lower s else ascii_lower a # lower (b # c # s))"
| "lower s = to_lowercase s"

declare lower.simps [simp del]

definition registry_register :: "provider \<Rightarrow> provider_registry \<Rightarrow> provider_registry" where
  "registry_register p R =
     R\<lparr>reg_providers := fold (\<lambda>scheme m. hm_insert scheme p m) (prov_schemes p) (reg_providers R)\<rparr>"

definition registry_unregister :: "string \<Rightarrow> provider_registry \<Rightarrow> provider_registry" where
  "registry_unregister scheme R = R\<lparr>reg_providers := hm_remove scheme (reg_providers R)\<rparr>"

definition registry_get :: "string \<Rightarrow> provider_registry \<Rightarrow> provider option" where
  "registry_get scheme R = hm_get (reg_providers R) scheme"

fun visibility_label :: "visibility \<Rightarrow> string" where
  "visibility_label CapsuleResource = ''sub-provider''"
| "visibility_label RuntimeOnly = ''runtime provider target''"

definition quoted :: "string \<Rightarrow> string" where
  "quoted s = [CHR 0x27] @ s @ [CHR 0x27]"

definition register_provider_target ::
    "string \<Rightarrow> provider \<Rightarrow> visibility \<Rightarrow> provider_registry \<Rightarrow> (provider_error + unit) \<times> provider_registry" where
  "register_provider_target name p v R =
     (if hm_contains (reg_sub R) name then
        (Inl (PProvider (visibility_label v @ '' '' @ quoted name @ '' is already registered'')), R)
      else (Inr (), R\<lparr>reg_sub := hm_insert name (Ready p v) (reg_sub R)\<rparr>))"

definition register_sub_provider :: "string \<Rightarrow> provider \<Rightarrow> provider_registry \<Rightarrow> (provider_error + unit) \<times> provider_registry" where
  "register_sub_provider name p R =
     (let name = lower name in
      if name \<notin> set RESERVED_SUB_NAMES then
        (Inl (PProvider (''sub-provider '' @ quoted name @ '' is not a reserved name'')), R)
      else register_provider_target name p CapsuleResource R)"

definition register_runtime_provider_target ::
    "string \<Rightarrow> provider \<Rightarrow> provider_registry \<Rightarrow> (provider_error + unit) \<times> provider_registry" where
  "register_runtime_provider_target name p R =
     (let name = lower name in
      if name \<notin> set RESERVED_RUNTIME_PROVIDER_TARGETS then
        (Inl (PProvider (''runtime provider target '' @ quoted name @ '' is not a reserved name'')), R)
      else register_provider_target name p RuntimeOnly R)"

text \<open>
  Unregistering, up to the call of \<^verbatim>\<open>shutdown\<close>: an early return, or the provider to shut down
  after its entry was marked as settling.
\<close>

definition begin_unregister ::
    "string \<Rightarrow> provider_registry \<Rightarrow> ((provider_error + unit) + provider) \<times> provider_registry" where
  "begin_unregister name R =
     (let key = lower name in case hm_get (reg_sub R) key of
        None \<Rightarrow> (Inl (Inr ()), R)
      | Some (Ready p v) \<Rightarrow> (Inr p, R\<lparr>reg_sub := hm_insert key (Settling p v True) (reg_sub R)\<rparr>)
      | Some (Settling p v busy) \<Rightarrow>
          if busy then
            (Inl (Inl (PUnavailable (visibility_label v @ '' '' @ quoted key @ '' shutdown is already settling''))), R)
          else (Inr p, R\<lparr>reg_sub := hm_insert key (Settling p v True) (reg_sub R)\<rparr>))"

text \<open>The rest of it, once \<^verbatim>\<open>shutdown\<close> of \<open>p\<close> has answered \<open>outcome\<close>.\<close>

definition finish_unregister ::
    "string \<Rightarrow> provider \<Rightarrow> provider_error + unit \<Rightarrow> provider_registry \<Rightarrow> (provider_error + unit) \<times> provider_registry" where
  "finish_unregister name p outcome R =
     (let key = lower name in case outcome of
        Inr _ \<Rightarrow> (Inr (), (case hm_get (reg_sub R) key of
            Some (Settling current _ _) \<Rightarrow>
              if prov_ptr current = prov_ptr p then R\<lparr>reg_sub := hm_remove key (reg_sub R)\<rparr> else R
          | _ \<Rightarrow> R))
      | Inl err \<Rightarrow> (Inl err, (case hm_get (reg_sub R) key of
            Some (Settling current v _) \<Rightarrow>
              if prov_ptr current = prov_ptr p
              then R\<lparr>reg_sub := hm_insert key (Settling current v False) (reg_sub R)\<rparr> else R
          | _ \<Rightarrow> R)))"

definition unregister_provider_target :: "string \<Rightarrow> provider_registry \<Rightarrow> (provider_error + unit) \<times> provider_registry" where
  "unregister_provider_target name R =
     (let (start, R) = begin_unregister name R in case start of
        Inl r \<Rightarrow> (r, R)
      | Inr p \<Rightarrow> (let (outcome, R) = call_shutdown p R in finish_unregister name p outcome R))"

definition unregister_sub_provider :: "string \<Rightarrow> provider_registry \<Rightarrow> (provider_error + unit) \<times> provider_registry" where
  "unregister_sub_provider name R =
     (let key = lower name in
      if key \<notin> set RESERVED_SUB_NAMES then
        (Inl (PProvider (''sub-provider '' @ quoted key @ '' is not a reserved name'')), R)
      else unregister_provider_target key R)"

definition unregister_runtime_provider_target :: "string \<Rightarrow> provider_registry \<Rightarrow> (provider_error + unit) \<times> provider_registry" where
  "unregister_runtime_provider_target name R =
     (let key = lower name in
      if key \<notin> set RESERVED_RUNTIME_PROVIDER_TARGETS then
        (Inl (PProvider (''runtime provider target '' @ quoted key @ '' is not a reserved name'')), R)
      else unregister_provider_target key R)"

definition get_sub_provider :: "string \<Rightarrow> provider_registry \<Rightarrow> provider option" where
  "get_sub_provider name R = Option.bind (hm_get (reg_sub R) (lower name)) capsule_resource_provider"

subsection \<open>Routing\<close>

definition split_sub_path :: "string \<Rightarrow> (string \<times> string) option" where
  "split_sub_path p =
     (if p = [] then None
      else case find_sub ''/'' p of
        Some pos \<Rightarrow> Some (take pos p, drop (pos + 1) p)
      | None \<Rightarrow> Some (p, []))"

definition parse_uri :: "string \<Rightarrow> provider_error + string \<times> string" where
  "parse_uri uri =
     (if prefix ''://'' uri then Inl (PInvalidUri ''URI cannot start with ://'')
      else case find_sub ''://'' uri of
        Some pos \<Rightarrow> Inr (take pos uri, drop (pos + 3) uri)
      | None \<Rightarrow> Inl (PInvalidUri (''URI must contain ://: '' @ uri)))"

definition is_webspaces_localhost_path :: "string \<Rightarrow> bool" where
  "is_webspaces_localhost_path p =
     (case (case parse_localhost_uri p of Some r \<Rightarrow> Some r | None \<Rightarrow> parse_localhost_path p) of
        Some (root, _) \<Rightarrow> root = ''WebSpaces'' | None \<Rightarrow> False)"

text \<open>The provider a URI is routed to, with the scheme and path it is given.\<close>

definition route_target :: "string \<Rightarrow> string \<Rightarrow> provider_registry \<Rightarrow> (provider \<times> string \<times> string) option" where
  "route_target scheme p R =
     (case (if scheme = ''localhost'' \<and> is_webspaces_localhost_path p
            then map_option (\<lambda>w. (w, ''webspace'', p)) (registry_get ''webspace'' R)
            else if scheme = ''elastos''
            then Option.bind (split_sub_path p) (\<lambda>(sub_name, sub_path).
              map_option (\<lambda>w. (w, sub_name, sub_path)) (get_sub_provider sub_name R))
            else None) of
        Some t \<Rightarrow> Some t
      | None \<Rightarrow> map_option (\<lambda>w. (w, scheme, p)) (registry_get scheme R))"

definition route_with_options ::
    "string \<Rightarrow> string \<Rightarrow> resource_action \<Rightarrow> bytes option \<Rightarrow> bool \<Rightarrow> provider_registry
     \<Rightarrow> (provider_error + resource_response) \<times> provider_registry" where
  "route_with_options uri capsule_id act content recursive R = (case parse_uri uri of
       Inl err \<Rightarrow> (Inl err, R)
     | Inr (scheme, p) \<Rightarrow> (case route_target scheme p R of
           None \<Rightarrow> (Inl (PNoProvider scheme), R)
         | Some (w, request_scheme, request_path) \<Rightarrow>
             call_handle w \<lparr>rq_uri = uri, rq_scheme = request_scheme, rq_path = request_path,
               rq_capsule_id = capsule_id, rq_action = act, rq_content = content,
               rq_recursive = recursive\<rparr> R))"

definition route ::
    "string \<Rightarrow> string \<Rightarrow> resource_action \<Rightarrow> bytes option \<Rightarrow> provider_registry
     \<Rightarrow> (provider_error + resource_response) \<times> provider_registry" where
  "route uri capsule_id act content R = route_with_options uri capsule_id act content False R"

subsection \<open>Queries\<close>

definition registry_schemes :: "provider_registry \<Rightarrow> string list" where
  "registry_schemes R = map fst (reg_providers R)"

definition sub_provider_schemes :: "provider_registry \<Rightarrow> string list" where
  "sub_provider_schemes R =
     map fst (filter (\<lambda>(_, entry). capsule_resource_provider entry \<noteq> None) (reg_sub R))"

definition has_provider :: "string \<Rightarrow> provider_registry \<Rightarrow> bool" where
  "has_provider scheme R = hm_contains (reg_providers R) scheme"

definition has_ready_runtime_provider_target :: "string \<Rightarrow> provider_registry \<Rightarrow> bool" where
  "has_ready_runtime_provider_target target R =
     (let key = lower target in
      key \<in> set RESERVED_RUNTIME_PROVIDER_TARGETS
      \<and> (case hm_get (reg_sub R) key of Some (Ready _ RuntimeOnly) \<Rightarrow> True | _ \<Rightarrow> False))"

definition registrations :: "provider_registry \<Rightarrow> provider_registration list" where
  "registrations R = sort_key (\<lambda>r. (pr_route_kind r, pr_route r, pr_provider r))
     (map (\<lambda>(r, p). \<lparr>pr_route_kind = ''scheme'', pr_route = r, pr_provider = prov_name p\<rparr>) (reg_providers R)
      @ List.map_filter (\<lambda>(r, entry). map_option (\<lambda>p. \<lparr>pr_route_kind = ''elastos-sub-provider'', pr_route = r,
          pr_provider = prov_name p\<rparr>) (capsule_resource_provider entry)) (reg_sub R))"

definition registration_for_uri :: "string \<Rightarrow> provider_registry \<Rightarrow> provider_registration option" where
  "registration_for_uri uri R = (case parse_uri uri of
       Inl _ \<Rightarrow> None
     | Inr (scheme, p) \<Rightarrow>
         if scheme = ''localhost'' \<and> is_webspaces_localhost_path p then
           map_option (\<lambda>w. \<lparr>pr_route_kind = ''localhost-webspace'', pr_route = ''webspace'',
             pr_provider = prov_name w\<rparr>) (registry_get ''webspace'' R)
         else if scheme = ''elastos'' then
           Option.bind (split_sub_path p) (\<lambda>(r, _). map_option (\<lambda>w. \<lparr>pr_route_kind = ''elastos-sub-provider'',
             pr_route = r, pr_provider = prov_name w\<rparr>) (get_sub_provider r R))
         else map_option (\<lambda>w. \<lparr>pr_route_kind = ''scheme'', pr_route = scheme,
           pr_provider = prov_name w\<rparr>) (registry_get scheme R))"

definition storage_usage :: "string \<Rightarrow> provider_registry \<Rightarrow> (provider_error + u64) \<times> provider_registry" where
  "storage_usage user_id R =
     (let (r, R) = route (''localhost://Users/'' @ user_id) user_id RaStat None R in
      (case r of Inr (RMetadata n _ _) \<Rightarrow> Inr n | Inr _ \<Rightarrow> Inr 0 | Inl (PNotFound _) \<Rightarrow> Inr 0
         | Inl e \<Rightarrow> Inl e, R))"

subsection \<open>Raw requests\<close>

text \<open>The accessors of \<^verbatim>\<open>serde_json::Value\<close>: \<^verbatim>\<open>get\<close> (with a key), \<^verbatim>\<open>as_str\<close>, \<^verbatim>\<open>as_u64\<close>, and so on.\<close>

fun j_get :: "string \<Rightarrow> json \<Rightarrow> json option" where
  "j_get key (JObj kvs) = map_of kvs key"
| "j_get key _ = None"

fun j_str :: "json \<Rightarrow> string option" where
  "j_str (JStr s) = Some s"
| "j_str _ = None"

fun j_u64 :: "json \<Rightarrow> u64 option" where
  "j_u64 (JInt n) = (if 0 \<le> n \<and> n < 2 ^ 64 then Some (word_of_int n) else None)"
| "j_u64 _ = None"

fun j_bool :: "json \<Rightarrow> bool option" where
  "j_bool (JBool b) = Some b"
| "j_bool _ = None"

fun j_array :: "json \<Rightarrow> json list option" where
  "j_array (JArr xs) = Some xs"
| "j_array _ = None"

fun j_object :: "json \<Rightarrow> (string \<times> json) list option" where
  "j_object (JObj kvs) = Some kvs"
| "j_object _ = None"

definition get_str :: "string \<Rightarrow> json \<Rightarrow> string option" where
  "get_str key v = Option.bind (j_get key v) j_str"

definition str_or_empty :: "string option \<Rightarrow> string" where
  "str_or_empty r = (case r of Some s \<Rightarrow> s | None \<Rightarrow> [])"

definition private_ipfs_operation :: "string \<Rightarrow> bool" where
  "private_ipfs_operation op = (op \<in> {''runtime_prepare_backend'', ''runtime_hash_staged_directory'',
     ''runtime_check_capacity'', ''runtime_add_local_object''})"

definition private_ipfs_unavailable :: provider_error where
  "private_ipfs_unavailable = PProvider ''local content preparation unavailable''"

definition private_provider_configuration :: "string \<Rightarrow> string \<Rightarrow> bool" where
  "private_provider_configuration target op =
     (to_lowercase target \<in> {''model'', ''ipfs''} \<and> op = ''init'')"

text \<open>The two checks every raw request passes first.\<close>

definition raw_refused :: "string \<Rightarrow> json \<Rightarrow> provider_error option" where
  "raw_refused target request =
     (if private_provider_configuration target (str_or_empty (get_str ''op'' request))
      then Some (PProvider ''provider configuration is Runtime-owned'')
      else if \<exists>op \<in> set_option (get_str ''op'' request). private_ipfs_operation op
      then Some private_ipfs_unavailable else None)"

definition raw_target :: "string \<Rightarrow> json \<Rightarrow> bool \<Rightarrow> provider_registry \<Rightarrow> provider option" where
  "raw_target scheme request include_runtime_only R =
     (let webspace = scheme = ''localhost''
          \<and> (\<exists>p \<in> set_option (get_str ''path'' request). is_webspaces_localhost_path p) in
      case (if webspace then registry_get ''webspace'' R else None) of Some w \<Rightarrow> Some w
      | None \<Rightarrow> (case registry_get scheme R of Some w \<Rightarrow> Some w
        | None \<Rightarrow> Option.bind (hm_get (reg_sub R) (lower scheme))
            (if include_runtime_only then ready_provider else capsule_resource_provider)))"

definition send_raw_with_target_visibility ::
    "string \<Rightarrow> json \<Rightarrow> bool \<Rightarrow> provider_registry \<Rightarrow> (provider_error + json) \<times> provider_registry" where
  "send_raw_with_target_visibility scheme request include_runtime_only R =
     (case raw_refused scheme request of Some err \<Rightarrow> (Inl err, R)
      | None \<Rightarrow> (case raw_target scheme request include_runtime_only R of
          None \<Rightarrow> (Inl (PNoProvider scheme), R)
        | Some w \<Rightarrow> call_raw w request R))"

definition send_raw :: "string \<Rightarrow> json \<Rightarrow> provider_registry \<Rightarrow> (provider_error + json) \<times> provider_registry" where
  "send_raw scheme request R = send_raw_with_target_visibility scheme request False R"

definition send_runtime_provider_target_raw ::
    "string \<Rightarrow> json \<Rightarrow> provider_registry \<Rightarrow> (provider_error + json) \<times> provider_registry" where
  "send_runtime_provider_target_raw target request R =
     (case raw_refused target request of Some err \<Rightarrow> (Inl err, R)
      | None \<Rightarrow> (let key = lower target in
          if key \<notin> set RESERVED_RUNTIME_PROVIDER_TARGETS then (Inl (PNoProvider target), R)
          else (case hm_get (reg_sub R) key of
              Some (Ready w RuntimeOnly) \<Rightarrow> call_raw w request R
            | _ \<Rightarrow> (Inl (PNoProvider target), R))))"

subsection \<open>The life cycle of a target\<close>

text \<open>
  Every entry stands under a reserved name of its kind, and an entry is marked as shutting
  down exactly while one shutdown of its provider, listed in \<open>F\<close>, is in flight.
\<close>

definition sub_visibility :: "sub_registration \<Rightarrow> visibility" where
  "sub_visibility e = (case e of Ready _ v \<Rightarrow> v | Settling _ v _ \<Rightarrow> v)"

definition reserved_for :: "visibility \<Rightarrow> string list" where
  "reserved_for v = (case v of CapsuleResource \<Rightarrow> RESERVED_SUB_NAMES
     | RuntimeOnly \<Rightarrow> RESERVED_RUNTIME_PROVIDER_TARGETS)"

definition targets_inv :: "provider_registry \<Rightarrow> (string \<times> provider) list \<Rightarrow> bool" where
  "targets_inv R F =
     ((\<forall>k e. hm_get (reg_sub R) k = Some e \<longrightarrow> k \<in> set (reserved_for (sub_visibility e)))
      \<and> distinct (map fst F)
      \<and> (\<forall>k p. (k, p) \<in> set F \<longleftrightarrow> (\<exists>v. hm_get (reg_sub R) k = Some (Settling p v True))))"

inductive target_step ::
    "provider_registry \<times> (string \<times> provider) list \<Rightarrow> provider_registry \<times> (string \<times> provider) list \<Rightarrow> bool" where
  step_register: "target_step (R, F) (registry_register p R, F)"
| step_unregister: "target_step (R, F) (registry_unregister scheme R, F)"
| step_register_sub: "register_sub_provider name p R = (r, R') \<Longrightarrow> target_step (R, F) (R', F)"
| step_register_target: "register_runtime_provider_target name p R = (r, R') \<Longrightarrow> target_step (R, F) (R', F)"
| step_begin: "begin_unregister name R = (Inr p, R') \<Longrightarrow> target_step (R, F) (R', (lower name, p) # F)"
| step_finish: "\<lbrakk>(k, p) \<in> set F; finish_unregister k p outcome R = (r, R')\<rbrakk>
    \<Longrightarrow> target_step (R, F) (R', filter (\<lambda>x. fst x \<noteq> k) F)"
| step_calls: "\<lbrakk>reg_sub R' = reg_sub R; reg_providers R' = reg_providers R\<rbrakk> \<Longrightarrow> target_step (R, F) (R', F)"

inductive_cases target_stepE: "target_step (R, F) (R', F')"

lemma reserved_lower: "k \<in> set RESERVED_SUB_NAMES \<union> set RESERVED_RUNTIME_PROVIDER_TARGETS \<Longrightarrow> lower k = k"
proof -
  have "\<forall>k \<in> set RESERVED_SUB_NAMES \<union> set RESERVED_RUNTIME_PROVIDER_TARGETS. lower k = k" by code_simp
  then show "k \<in> set RESERVED_SUB_NAMES \<union> set RESERVED_RUNTIME_PROVIDER_TARGETS \<Longrightarrow> lower k = k" by blast
qed

lemma inv_key_lower: "\<lbrakk>targets_inv R F; hm_get (reg_sub R) k = Some e\<rbrakk> \<Longrightarrow> lower k = k"
  using reserved_lower by (cases "sub_visibility e") (fastforce simp: targets_inv_def reserved_for_def)+

lemma register_target_inv:
  assumes "register_provider_target name p v R = (r, R')" "targets_inv R F" "name \<in> set (reserved_for v)"
  shows "targets_inv R' F"
proof (cases "hm_contains (reg_sub R) name")
  case False
  then have "hm_get (reg_sub R) name = None" by (simp add: hm_contains_def)
  then show ?thesis using assms False
    by (auto simp: register_provider_target_def targets_inv_def sub_visibility_def split: if_splits)
qed (use assms in \<open>simp add: register_provider_target_def\<close>)

lemma begin_inv:
  assumes "begin_unregister name R = (Inr p, R')" "targets_inv R F"
  shows "targets_inv R' ((lower name, p) # F)"
proof -
  obtain v where e: "hm_get (reg_sub R) (lower name) = Some (Ready p v)
      \<or> hm_get (reg_sub R) (lower name) = Some (Settling p v False)"
    and R': "reg_sub R' = hm_insert (lower name) (Settling p v True) (reg_sub R)"
    using assms(1) by (auto simp: begin_unregister_def Let_def split: option.splits sub_registration.splits if_splits)
  have res: "lower name \<in> set (reserved_for v)"
    using assms(2) e by (auto simp: targets_inv_def sub_visibility_def dest!: spec[of _ "lower name"])
  have fresh: "(lower name, q) \<notin> set F" for q
    using assms(2) e by (auto simp: targets_inv_def)
  have "distinct (map fst ((lower name, p) # F))"
    using assms(2) fresh by (auto simp: targets_inv_def)
  moreover have "(k, q) \<in> set ((lower name, p) # F) \<longleftrightarrow> (\<exists>v. hm_get (reg_sub R') k = Some (Settling q v True))" for k q
    using assms(2) fresh[of q] unfolding R' targets_inv_def by (cases "k = lower name") auto
  moreover have "k \<in> set (reserved_for (sub_visibility e))" if "hm_get (reg_sub R') k = Some e" for k e
    using that assms(2) res unfolding R' targets_inv_def
    by (cases "k = lower name") (auto simp: sub_visibility_def)
  ultimately show ?thesis unfolding targets_inv_def by blast
qed

lemma finish_inv:
  assumes "finish_unregister k p outcome R = (r, R')" "targets_inv R F" "(k, p) \<in> set F"
  shows "targets_inv R' (filter (\<lambda>x. fst x \<noteq> k) F)"
proof -
  obtain v where e: "hm_get (reg_sub R) k = Some (Settling p v True)"
    using assms(2,3) by (auto simp: targets_inv_def)
  have k: "lower k = k" by (rule inv_key_lower[OF assms(2) e])
  have R': "reg_sub R' = hm_remove k (reg_sub R) \<or> reg_sub R' = hm_insert k (Settling p v False) (reg_sub R)"
    using assms(1) e k by (auto simp: finish_unregister_def Let_def split: sum.splits)
  have "k \<in> set (reserved_for (sub_visibility (Settling p v True)))"
    using assms(2) e unfolding targets_inv_def by blast
  then have res: "k \<in> set (reserved_for v)" by (simp add: sub_visibility_def)
  have "(j, q) \<in> set (filter (\<lambda>x. fst x \<noteq> k) F) \<longleftrightarrow> (\<exists>v. hm_get (reg_sub R') j = Some (Settling q v True))" for j q
    using assms(2) R' unfolding targets_inv_def by (cases "j = k") auto
  moreover have "j \<in> set (reserved_for (sub_visibility e))" if "hm_get (reg_sub R') j = Some e" for j e
    using that assms(2) R' res unfolding targets_inv_def
    by (cases "j = k") (auto simp: sub_visibility_def)
  moreover have "distinct (map fst (filter (\<lambda>x. fst x \<noteq> k) F))"
    using assms(2) by (simp add: targets_inv_def distinct_map_filter)
  ultimately show ?thesis unfolding targets_inv_def by blast
qed

lemma target_step_inv: "\<lbrakk>target_step x y; targets_inv (fst x) (snd x)\<rbrakk> \<Longrightarrow> targets_inv (fst y) (snd y)"
proof (induction rule: target_step.induct)
  case (step_register_sub name p R r R' F)
  show ?case
  proof (cases "lower name \<in> set RESERVED_SUB_NAMES")
    case True
    then show ?thesis using step_register_sub
      by (auto simp: register_sub_provider_def reserved_for_def intro: register_target_inv[of _ _ CapsuleResource])
  qed (use step_register_sub in \<open>auto simp: register_sub_provider_def\<close>)
next
  case (step_register_target name p R r R' F)
  show ?case
  proof (cases "lower name \<in> set RESERVED_RUNTIME_PROVIDER_TARGETS")
    case True
    then show ?thesis using step_register_target
      by (auto simp: register_runtime_provider_target_def reserved_for_def intro: register_target_inv[of _ _ RuntimeOnly])
  qed (use step_register_target in \<open>auto simp: register_runtime_provider_target_def\<close>)
next
  case (step_begin name R p R' F)
  then show ?case using begin_inv by simp
next
  case (step_finish k p F outcome R r R')
  then show ?case using finish_inv by simp
qed (auto simp: targets_inv_def registry_register_def registry_unregister_def)

lemma target_run_inv: "\<lbrakk>target_step\<^sup>*\<^sup>* x y; targets_inv (fst x) (snd x)\<rbrakk> \<Longrightarrow> targets_inv (fst y) (snd y)"
  by (induction rule: rtranclp_induct) (auto dest: target_step_inv)

subsection \<open>Properties\<close>

text \<open>
  Registration keeps its discipline under every interleaving: whatever
  registrations, calls and two-phase unregistrations run from an empty registry, each target
  stands under a reserved name of its visibility, an entry is marked as shutting down exactly
  while a shutdown of its provider is in flight, and never two shutdowns run under one name.
\<close>

theorem registry_lifecycle_inv:
  assumes "target_step\<^sup>*\<^sup>* (provider_registry_new R0, []) (R, F)"
  shows "(\<forall>k e. hm_get (reg_sub R) k = Some e \<longrightarrow> k \<in> set (reserved_for (sub_visibility e)))
    \<and> (\<forall>k p. (k, p) \<in> set F \<longleftrightarrow> (\<exists>v. hm_get (reg_sub R) k = Some (Settling p v True)))
    \<and> distinct (map fst F)"
proof -
  have "targets_inv (provider_registry_new R0) []" by (simp add: targets_inv_def provider_registry_new_def)
  from target_run_inv[OF assms] this show ?thesis by (auto simp: targets_inv_def)
qed

definition demo_provider :: "nat \<Rightarrow> provider" where
  "demo_provider n = \<lparr>prov_ptr = n, prov_name = ''p'', prov_schemes = [''localhost'']\<rparr>"

definition demo_registry :: provider_registry where
  "demo_registry = \<lparr>reg_providers = [], reg_sub = [], pv_handle = (\<lambda>_ _ _. Inr ROk), pv_raw = (\<lambda>_ _ _. Inr JNull),
     pv_shutdown = (\<lambda>_ _. Inr ()), pv_calls = []\<rparr>"

theorem registry_lifecycle_inv_witness:
  "\<exists>R :: provider_registry. hm_get (reg_sub R) ''peer'' = Some (Settling (demo_provider 1) CapsuleResource True)
     \<and> ''peer'' \<in> set (reserved_for CapsuleResource)"
proof -
  let ?R1 = "demo_registry\<lparr>reg_sub := [(''peer'', Ready (demo_provider 1) CapsuleResource)]\<rparr>"
  let ?R2 = "demo_registry\<lparr>reg_sub := [(''peer'', Settling (demo_provider 1) CapsuleResource True)]\<rparr>"
  have l: "lower ''Peer'' = ''peer''" by code_simp
  have new: "provider_registry_new demo_registry = demo_registry" by (simp add: provider_registry_new_def demo_registry_def)
  have a: "register_sub_provider ''Peer'' (demo_provider 1) demo_registry = (Inr (), ?R1)"
    by (simp add: register_sub_provider_def l RESERVED_SUB_NAMES_def register_provider_target_def
        hm_contains_def demo_registry_def hm_insert_def)
  have b: "begin_unregister ''Peer'' ?R1 = (Inr (demo_provider 1), ?R2)"
    by (simp add: begin_unregister_def l hm_get_def hm_insert_def demo_registry_def)
  have s1: "target_step (demo_registry, []) (?R1, [])" by (rule step_register_sub[OF a])
  have s2: "target_step (?R1, []) (?R2, [(''peer'', demo_provider 1)])" using step_begin[OF b, of "[]"] l by simp
  have "target_step\<^sup>*\<^sup>* (provider_registry_new demo_registry, []) (?R2, [(''peer'', demo_provider 1)])"
    unfolding new
    by (rule rtranclp.rtrancl_into_rtrancl[where r = target_step, OF _ s2],
        rule r_into_rtranclp[where r = target_step, OF s1])
  from registry_lifecycle_inv[OF this, THEN conjunct1, rule_format, of "''peer''"] show ?thesis
    by (intro exI[of _ ?R2]) (simp add: hm_get_def sub_visibility_def)
qed

lemma get_sub_provider_Some:
  "get_sub_provider name R = Some w \<Longrightarrow> hm_get (reg_sub R) (lower name) = Some (Ready w CapsuleResource)"
  by (auto simp: get_sub_provider_def bind_eq_Some_conv elim!: capsule_resource_provider.elims)

text \<open>Whom a capsule may reach.\<close>

definition capsule_visible :: "provider \<Rightarrow> provider_registry \<Rightarrow> bool" where
  "capsule_visible w R = ((\<exists>scheme. hm_get (reg_providers R) scheme = Some w)
     \<or> (\<exists>name. hm_get (reg_sub R) name = Some (Ready w CapsuleResource)))"

lemma route_target_visible: "route_target scheme p R = Some (w, x, y) \<Longrightarrow> capsule_visible w R"
  by (auto simp: route_target_def capsule_visible_def registry_get_def bind_eq_Some_conv
      dest!: get_sub_provider_Some split: option.splits if_splits)

lemma raw_target_visible: "raw_target scheme request False R = Some w \<Longrightarrow> capsule_visible w R"
  by (auto simp: raw_target_def capsule_visible_def registry_get_def Let_def bind_eq_Some_conv
      elim!: capsule_resource_provider.elims split: option.splits if_splits)

text \<open>
  Property C22. No request of a capsule reaches a Runtime-only or settling target: routing a URI
  or sending a raw request calls at most one provider, once, and only one that is registered
  for a scheme or ready as a capsule-visible sub-provider; the request carries the URI, the
  action and the content as given and names the capsule that asked.
\<close>

theorem capsules_reach_visible_providers:
  assumes "route uri c act content R = (r, R') \<or> send_raw scheme req R = (q, R')"
  shows "pv_calls R' = pv_calls R \<or> (\<exists>w call. capsule_visible w R \<and> pv_calls R' = pv_calls R @ [call]
    \<and> (call = CallRaw w req \<and> raw_refused scheme req = None
       \<or> (\<exists>x y. call = CallHandle w \<lparr>rq_uri = uri, rq_scheme = x, rq_path = y, rq_capsule_id = c,
            rq_action = act, rq_content = content, rq_recursive = False\<rparr>)))"
  using assms
proof
  assume rt: "route uri c act content R = (r, R')"
  show ?thesis
  proof (cases "parse_uri uri")
    case (Inr sp)
    obtain scheme p where sp: "sp = (scheme, p)" by fastforce
    show ?thesis
    proof (cases "route_target scheme p R")
      case (Some t)
      obtain w x y where t: "t = (w, x, y)" by (cases t) auto
      have "capsule_visible w R" using route_target_visible Some t by blast
      then show ?thesis using rt Inr sp Some t
        by (intro disjI2) (auto simp: route_def route_with_options_def call_handle_def)
    qed (use rt Inr sp in \<open>auto simp: route_def route_with_options_def\<close>)
  qed (use rt in \<open>auto simp: route_def route_with_options_def\<close>)
next
  assume "send_raw scheme req R = (q, R')"
  then show ?thesis
    by (auto simp: send_raw_def send_raw_with_target_visibility_def call_raw_def dest!: raw_target_visible
        split: option.splits)
qed

definition demo_routes :: provider_registry where
  "demo_routes = demo_registry\<lparr>reg_providers := [(''localhost'', demo_provider 1)],
     reg_sub := [(''peer'', Ready (demo_provider 2) CapsuleResource), (''protect'', Ready (demo_provider 3) RuntimeOnly)]\<rparr>"

lemma demo_route_target:
  "route_target ''elastos'' ''peer/alice'' demo_routes = Some (demo_provider 2, ''peer'', ''alice'')"
proof -
  have "lower ''peer'' = ''peer''" by code_simp
  moreover have "split_sub_path ''peer/alice'' = Some (''peer'', ''alice'')" by code_simp
  ultimately show ?thesis
    by (simp add: route_target_def get_sub_provider_def demo_routes_def hm_get_def)
qed

lemma demo_parse: "parse_uri ''elastos://peer/alice'' = Inr (''elastos'', ''peer/alice'')"
  by code_simp

theorem capsules_reach_visible_providers_witness:
  "\<exists>w call. capsule_visible w demo_routes \<and> w \<noteq> demo_provider 3
     \<and> pv_calls (snd (route ''elastos://peer/alice'' ''c'' RaRead None demo_routes)) = [call]"
proof -
  let ?R = "snd (route ''elastos://peer/alice'' ''c'' RaRead None demo_routes)"
  have c: "pv_calls ?R = [CallHandle (demo_provider 2) \<lparr>rq_uri = ''elastos://peer/alice'', rq_scheme = ''peer'',
      rq_path = ''alice'', rq_capsule_id = ''c'', rq_action = RaRead, rq_content = None, rq_recursive = False\<rparr>]"
    by (simp add: route_def route_with_options_def demo_parse demo_route_target call_handle_def)
      (simp add: demo_routes_def demo_registry_def)
  have "pv_calls demo_routes = []" by (simp add: demo_routes_def demo_registry_def)
  then obtain w call where "capsule_visible w demo_routes" "pv_calls ?R = [call]"
      "call = CallRaw w JNull \<or> (\<exists>q. call = CallHandle w q)"
    using capsules_reach_visible_providers[of "''elastos://peer/alice''" "''c''" RaRead None demo_routes
        "fst (route ''elastos://peer/alice'' ''c'' RaRead None demo_routes)" ?R "''x''" JNull "Inr JNull"] c
    by auto
  then show ?thesis using c by (intro exI[of _ w] exI[of _ call]) (auto simp: demo_provider_def)
qed

text \<open>
  The registration reported for a URI is the one requests are routed by: if
  \<^verbatim>\<open>registration_for_uri\<close> names a provider, a request for the URI is handled by a provider of
  that name. The converse fails: without a matching sub-provider or without a webspace provider,
  requests fall through to the provider of the scheme, of which the report says nothing.
\<close>

theorem registration_agrees_with_route:
  "(\<forall>reg. registration_for_uri uri R = Some reg \<longrightarrow> (\<exists>scheme p w x y. parse_uri uri = Inr (scheme, p)
      \<and> route_target scheme p R = Some (w, x, y) \<and> prov_name w = pr_provider reg))
   \<and> (\<forall>scheme p. parse_uri uri = Inr (scheme, p) \<longrightarrow> registration_for_uri uri R = None
      \<longrightarrow> route_target scheme p R = (if scheme = ''elastos'' \<or> scheme = ''localhost'' \<and> is_webspaces_localhost_path p
          then map_option (\<lambda>w. (w, scheme, p)) (registry_get scheme R) else None))"
proof -
  have A: "\<exists>w x y. route_target scheme p R = Some (w, x, y) \<and> prov_name w = pr_provider reg"
    if "registration_for_uri uri R = Some reg" "parse_uri uri = Inr (scheme, p)" for reg scheme p
  proof (cases "scheme = ''localhost'' \<and> is_webspaces_localhost_path p")
    case True
    then show ?thesis using that by (auto simp: registration_for_uri_def route_target_def)
  next
    case f: False
    show ?thesis
    proof (cases "scheme = ''elastos''")
      case True
      then show ?thesis using that
        by (auto simp: registration_for_uri_def route_target_def bind_eq_Some_conv)
    next
      case False
      then show ?thesis using that f by (auto simp: registration_for_uri_def route_target_def)
    qed
  qed
  have B: "\<exists>scheme p. parse_uri uri = Inr (scheme, p)" if "registration_for_uri uri R = Some reg" for reg
    using that by (cases "parse_uri uri") (auto simp: registration_for_uri_def)
  have C: "route_target scheme p R = (if scheme = ''elastos'' \<or> scheme = ''localhost''
      \<and> is_webspaces_localhost_path p then map_option (\<lambda>w. (w, scheme, p)) (registry_get scheme R) else None)"
    if "parse_uri uri = Inr (scheme, p)" "registration_for_uri uri R = None" for scheme p
  proof (cases "scheme = ''localhost'' \<and> is_webspaces_localhost_path p")
    case True
    then show ?thesis using that by (auto simp: registration_for_uri_def route_target_def)
  next
    case f: False
    show ?thesis
    proof (cases "scheme = ''elastos''")
      case True
      then show ?thesis using that
        by (cases "split_sub_path p") (auto simp: registration_for_uri_def route_target_def)
    next
      case False
      then show ?thesis using that f by (auto simp: registration_for_uri_def route_target_def)
    qed
  qed
  show ?thesis
  proof (intro conjI allI impI)
    show "\<exists>scheme p w x y. parse_uri uri = Inr (scheme, p) \<and> route_target scheme p R = Some (w, x, y)
        \<and> prov_name w = pr_provider reg" if "registration_for_uri uri R = Some reg" for reg
      using A[OF that] B[OF that] by fastforce
  qed (rule C)
qed

theorem registration_agrees_with_route_witness:
  "\<exists>scheme p w x y. parse_uri ''elastos://peer/alice'' = Inr (scheme, p)
      \<and> route_target scheme p demo_routes = Some (w, x, y) \<and> prov_name w = ''p''"
proof -
  have "lower ''peer'' = ''peer''" by code_simp
  moreover have "split_sub_path ''peer/alice'' = Some (''peer'', ''alice'')" by code_simp
  ultimately have "registration_for_uri ''elastos://peer/alice'' demo_routes = Some \<lparr>pr_route_kind = ''elastos-sub-provider'',
      pr_route = ''peer'', pr_provider = ''p''\<rparr>"
    by (simp add: registration_for_uri_def demo_parse get_sub_provider_def demo_routes_def hm_get_def demo_provider_def)
  from registration_agrees_with_route[THEN conjunct1, rule_format, OF this] show ?thesis by simp
qed

end
