(* ===== verification/Provider_Stream.thy ===== *)
theory Provider_Stream
  imports Provider_Registry
begin

section \<open>Provider invocations: transfer contracts, byte ranges, streams\<close>

text \<open>
  The second half of \<^verbatim>\<open>elastos-runtime/src/provider/registry.rs\<close>: what one provider asks of
  another, the contract of the transfer (JSON, bytes, stream; a byte range; bounded reads with
  their receipts), the stream payload with its chunks, and the stream session that hands the
  bytes out in pieces. \<^verbatim>\<open>base64\<close> is the record \<open>base64\<close>; the transport to remote peers is an
  oracle. JSON numbers are integers here: the code only ever asks for \<^verbatim>\<open>as_u64\<close>, which
  answers none for any other number.
\<close>

subsection \<open>JSON objects\<close>

definition j_nat :: "nat \<Rightarrow> json" where
  "j_nat n = JInt (int n)"

definition j_word :: "u64 \<Rightarrow> json" where
  "j_word w = JInt (uint w)"

definition j_opt :: "('a \<Rightarrow> json) \<Rightarrow> 'a option \<Rightarrow> json" where
  "j_opt f r = (case r of None \<Rightarrow> JNull | Some x \<Rightarrow> f x)"

fun j_insert :: "string \<Rightarrow> json \<Rightarrow> json \<Rightarrow> json" where
  "j_insert key v (JObj kvs) = JObj (AList.update key v kvs)"
| "j_insert key v other = other"

lemma j_u64_nat [simp]: "n < 2 ^ 64 \<Longrightarrow> j_u64 (j_nat n) = Some (of_nat n)"
  by (simp add: j_nat_def)

lemma j_get_insert: "v \<in> range JObj \<Longrightarrow> j_get k (j_insert key w v) = (if k = key then Some w else j_get k v)"
  by (auto simp: update_conv')

record base64 =
  b64e :: "bytes \<Rightarrow> string"
  b64d :: "string \<Rightarrow> string + bytes"

subsection \<open>Invocations\<close>

datatype provider_transfer = TrJson | TrBytes | TrStream

fun transfer_str :: "provider_transfer \<Rightarrow> string" where
  "transfer_str TrJson = ''json''"
| "transfer_str TrBytes = ''bytes''"
| "transfer_str TrStream = ''stream''"

definition PROVIDER_STREAM_SCHEMA :: string where
  "PROVIDER_STREAM_SCHEMA = ''elastos.provider.stream/v1''"

definition PROVIDER_STREAM_ENCODING :: string where
  "PROVIDER_STREAM_ENCODING = ''base64-chunks''"

definition PROVIDER_STREAM_CHUNK_BYTES :: nat where
  "PROVIDER_STREAM_CHUNK_BYTES = 64 * 1024"

definition PROVIDER_STREAM_SESSION_SCHEMA :: string where
  "PROVIDER_STREAM_SESSION_SCHEMA = ''elastos.provider.stream-session/v1''"

definition PROVIDER_STREAM_EVENT_SCHEMA :: string where
  "PROVIDER_STREAM_EVENT_SCHEMA = ''elastos.provider.stream-event/v1''"

definition MAX_BOUNDED_PROVIDER_READ_BYTES :: u64 where
  "MAX_BOUNDED_PROVIDER_READ_BYTES = 64 * 1024"

datatype carrier_route =
  ConnectTicket string "string option" "u64 option"
| PeerDid string "u64 option" "u64 option"

fun timeout_ms :: "carrier_route \<Rightarrow> u64 option" where
  "timeout_ms (ConnectTicket _ _ t) = t"
| "timeout_ms (PeerDid _ t _) = t"

datatype transport = Local | Carrier carrier_route

fun transport_str :: "transport \<Rightarrow> string" where
  "transport_str Local = ''runtime-local-provider-plane''"
| "transport_str (Carrier _) = ''carrier-provider-plane''"

fun carrier_route_of :: "transport \<Rightarrow> carrier_route option" where
  "carrier_route_of Local = None"
| "carrier_route_of (Carrier r) = Some r"

record byte_range =
  br_start :: u64
  br_end :: "u64 option"

record progress_contract =
  pg_request_id :: string
  pg_expected_bytes :: "u64 option"

record invocation =
  in_source :: string
  in_target :: string
  in_op :: string
  in_request :: json
  in_transfer :: provider_transfer
  in_byte_range :: "byte_range option"
  in_progress :: "progress_contract option"
  in_transport :: transport

definition expected_bytes :: "invocation \<Rightarrow> u64 option" where
  "expected_bytes i = Option.bind (in_progress i) pg_expected_bytes"

subsection \<open>The transfer contract\<close>

definition validate_transfer_contract :: "invocation \<Rightarrow> provider_error + unit" where
  "validate_transfer_contract i =
     andthen (case in_byte_range i of None \<Rightarrow> Inr ()
       | Some r \<Rightarrow>
           if in_transfer i = TrJson then
             Inl (PProvider ''provider byte range requires bytes or stream transfer'')
           else (case br_end r of None \<Rightarrow> Inr ()
             | Some e \<Rightarrow> require (\<not> e < br_start r)
                 (PProvider (''provider byte range end '' @ show_u64 e @ '' is before start '' @ show_u64 (br_start r))))) (\<lambda>_.
     andthen (case in_progress i of None \<Rightarrow> Inr ()
       | Some p \<Rightarrow> require (trim (pg_request_id p) \<noteq> [])
           (PProvider ''provider progress receipt requires request_id'')) (\<lambda>_.
     case carrier_route_of (in_transport i) of None \<Rightarrow> Inr ()
     | Some r \<Rightarrow>
         andthen (case r of
             ConnectTicket ticket _ _ \<Rightarrow> require (trim ticket \<noteq> [])
               (PProvider ''Carrier provider invocation requires connect_ticket'')
           | PeerDid peer_did _ reply_wait_ms \<Rightarrow>
               if trim peer_did = [] then Inl (PProvider ''Carrier provider invocation requires peer_did'')
               else require (reply_wait_ms \<noteq> Some 0)
                 (PProvider ''Carrier provider invocation reply_wait_ms must be greater than zero'')) (\<lambda>_.
         require (timeout_ms r \<noteq> Some 0)
           (PProvider ''Carrier provider invocation timeout_ms must be greater than zero''))))"

definition bounded_read_nested_owner :: "invocation \<Rightarrow> bool" where
  "bounded_read_nested_owner i =
     (if in_target i = ''content'' \<and> in_op i = ''fetch'' then True
      else if in_target i = ''availability'' \<and> in_op i = ''fetch'' then in_transport i = Local
      else False)"

definition reads_content :: "invocation \<Rightarrow> bool" where
  "reads_content i = ((in_target i, in_op i) \<in> {(''ipfs'', ''cat''), (''content'', ''fetch''), (''availability'', ''fetch'')})"

definition in_limit :: "u64 \<Rightarrow> bool" where
  "in_limit n = (1 \<le> n \<and> n \<le> MAX_BOUNDED_PROVIDER_READ_BYTES)"

definition bounded_metadata_max :: "invocation \<Rightarrow> provider_error + u64 option" where
  "bounded_metadata_max i =
     (if \<not> reads_content i then Inr None
      else (case j_get ''max_bytes'' (in_request i) of None \<Rightarrow> Inr None
      | Some v \<Rightarrow> (let invalid = PProvider ''invalid complete metadata request'' in
          case j_u64 v of None \<Rightarrow> Inl invalid
          | Some n \<Rightarrow>
              if \<not> in_limit n then Inl invalid
              else if j_get ''bounded_read'' (in_request i) \<noteq> Some (JBool True)
                \<or> get_str ''path'' (in_request i) \<noteq> Some ''_elastos_object.json''
                \<or> in_byte_range i \<noteq> None \<or> j_get ''range'' (in_request i) \<noteq> None
                \<or> expected_bytes i \<noteq> None
                \<or> \<not> (in_transport i = Local \<or> bounded_read_nested_owner i)
                \<or> in_transfer i = TrJson then Inl invalid
              else Inr (if in_target i = ''ipfs'' then Some n else None))))"

definition bounded_read_range :: "invocation \<Rightarrow> provider_error + (byte_range \<times> u64) option" where
  "bounded_read_range i =
     (if j_get ''max_bytes'' (in_request i) \<noteq> None \<and> reads_content i
      then andthen (bounded_metadata_max i) (\<lambda>_. Inr None)
      else (let b = j_get ''bounded_read'' (in_request i) in
        if b = None \<or> b = Some (JBool False) then Inr None
        else if b \<noteq> Some (JBool True) then Inl (PProvider ''bounded_read must be a boolean'')
        else if in_byte_range i = None \<and> bounded_read_nested_owner i then Inr None
        else if in_target i \<noteq> ''ipfs'' \<or> in_op i \<noteq> ''cat'' \<or> in_transport i \<noteq> Local \<or> in_transfer i = TrJson
          then Inl (PProvider ''bounded read requires local IPFS Cat bytes or stream'')
        else (case in_byte_range i of None \<Rightarrow> Inl (PProvider ''bounded read requires a closed range'')
          | Some r \<Rightarrow>
              let n = Option.bind (br_end r) (\<lambda>e. if e < br_start r then None
                  else if e - br_start r = - 1 then None
                  else if e - br_start r + 1 \<le> MAX_BOUNDED_PROVIDER_READ_BYTES then Some (e - br_start r + 1)
                  else None)
              in case n of None \<Rightarrow> Inl (PProvider ''bounded read range exceeds limit'')
                 | Some n \<Rightarrow>
                     if expected_bytes i \<noteq> None \<and> expected_bytes i \<noteq> Some n
                     then Inl (PProvider ''bounded read expected length mismatch'')
                     else Inr (Some (r, n)))))"

subsection \<open>Receipts of the backend\<close>

text \<open>
  \<^verbatim>\<open>serde_json::from_value\<close> into a struct that denies unknown fields: an object with exactly
  the fields, or an array of them in order.
\<close>

definition struct_fields :: "string list \<Rightarrow> json \<Rightarrow> json list option" where
  "struct_fields names v = (case v of
       JObj kvs \<Rightarrow> if set (map fst kvs) = set names then those (map (map_of kvs) names) else None
     | JArr xs \<Rightarrow> if length xs = length names then Some xs else None
     | _ \<Rightarrow> None)"

record metadata_receipt =
  mr_schema :: string
  mr_cid :: string
  mr_path :: string
  mr_max_bytes :: u64
  mr_actual_bytes :: u64
  mr_completed :: bool

definition parse_metadata_receipt :: "json \<Rightarrow> metadata_receipt option" where
  "parse_metadata_receipt v =
     (case struct_fields [''schema'', ''cid'', ''path'', ''max_bytes'', ''actual_bytes'', ''completed''] v of
        Some [a, b, c, d, e, f] \<Rightarrow> (case (j_str a, j_str b, j_str c, j_u64 d, j_u64 e, j_bool f) of
            (Some a, Some b, Some c, Some d, Some e, Some f) \<Rightarrow> Some \<lparr>mr_schema = a, mr_cid = b, mr_path = c,
              mr_max_bytes = d, mr_actual_bytes = e, mr_completed = f\<rparr>
          | _ \<Rightarrow> None)
      | _ \<Rightarrow> None)"

record applied_range =
  ar_schema :: string
  ar_cid :: string
  ar_path :: string
  ar_start :: u64
  ar_end :: u64

definition parse_applied_range :: "json \<Rightarrow> applied_range option" where
  "parse_applied_range v =
     (case struct_fields [''schema'', ''cid'', ''path'', ''start'', ''end''] v of
        Some [a, b, c, d, e] \<Rightarrow> (case (j_str a, j_str b, j_str c, j_u64 d, j_u64 e) of
            (Some a, Some b, Some c, Some d, Some e) \<Rightarrow> Some \<lparr>ar_schema = a, ar_cid = b, ar_path = c,
              ar_start = d, ar_end = e\<rparr>
          | _ \<Rightarrow> None)
      | _ \<Rightarrow> None)"

text \<open>\<^verbatim>\<open>response["data"]\<close> as an object, and \<^verbatim>\<open>/data/data\<close> as a string.\<close>

definition data_object :: "json \<Rightarrow> (string \<times> json) list option" where
  "data_object response = Option.bind (j_get ''data'' response) j_object"

definition data_data :: "json \<Rightarrow> string option" where
  "data_data response = Option.bind (j_get ''data'' response) (get_str ''data'')"

definition only_data_field :: "json \<Rightarrow> bool" where
  "only_data_field response = (case data_object response of None \<Rightarrow> False | Some d \<Rightarrow> length d = 1)"

definition encoded_bound :: "u64 \<Rightarrow> nat" where
  "encoded_bound n = ((unat n + 2) div 3) * 4"

definition validate_complete_metadata ::
    "base64 \<Rightarrow> json \<Rightarrow> invocation \<Rightarrow> u64 \<Rightarrow> json option \<Rightarrow> provider_error + unit" where
  "validate_complete_metadata B response i max_bytes receipt =
     (let invalid = PProvider ''invalid complete metadata receipt or payload'' in
      andthen (ok_or invalid (Option.bind receipt parse_metadata_receipt)) (\<lambda>q.
      andthen (require (get_str ''status'' response = Some ''ok'' \<and> only_data_field response
          \<and> mr_schema q = ''elastos.provider.complete-metadata/v1'' \<and> mr_completed q
          \<and> mr_path q = ''_elastos_object.json'' \<and> mr_max_bytes q = max_bytes
          \<and> mr_actual_bytes q \<noteq> 0 \<and> mr_actual_bytes q \<le> max_bytes
          \<and> Some (mr_cid q) = get_str ''cid'' (in_request i)) invalid) (\<lambda>_.
      andthen (ok_or invalid (data_data response)) (\<lambda>encoded.
      andthen (require (length encoded \<le> encoded_bound max_bytes) invalid) (\<lambda>_.
      case b64d B encoded of Inl _ \<Rightarrow> Inl invalid
      | Inr bs \<Rightarrow> require (length bs = unat (mr_actual_bytes q) \<and> b64e B bs = encoded) invalid)))))"

definition validate_applied_range ::
    "base64 \<Rightarrow> json \<Rightarrow> invocation \<Rightarrow> byte_range \<Rightarrow> u64 \<Rightarrow> json option \<Rightarrow> provider_error + unit" where
  "validate_applied_range B response i r n applied =
     (let invalid = PProvider ''invalid bounded read receipt or payload'' in
      andthen (require (get_str ''status'' response = Some ''ok'' \<and> only_data_field response) invalid) (\<lambda>_.
      andthen (ok_or invalid (Option.bind applied parse_applied_range)) (\<lambda>q.
      andthen (require (ar_schema q = ''elastos.provider.applied-range/v1''
          \<and> Some (ar_cid q) = get_str ''cid'' (in_request i)
          \<and> ar_path q = str_or_empty (get_str ''path'' (in_request i))
          \<and> ar_start q = br_start r \<and> Some (ar_end q) = br_end r) invalid) (\<lambda>_.
      andthen (ok_or invalid (data_data response)) (\<lambda>encoded.
      andthen (require (length encoded \<le> encoded_bound n) invalid) (\<lambda>_.
      case b64d B encoded of Inl _ \<Rightarrow> Inl invalid
      | Inr bs \<Rightarrow> require (length bs = unat n) invalid))))))"

text \<open>\<^verbatim>\<open>response["data"].remove(key)\<close> and \<^verbatim>\<open>response["data"][key] = v\<close>.\<close>

definition update_data :: "((string \<times> json) list \<Rightarrow> (string \<times> json) list) \<Rightarrow> json \<Rightarrow> json" where
  "update_data f response = (case data_object response of None \<Rightarrow> response
     | Some d \<Rightarrow> j_insert ''data'' (JObj (f d)) response)"

definition take_data :: "string \<Rightarrow> json \<Rightarrow> json option \<times> json" where
  "take_data key response = (Option.bind (data_object response) (\<lambda>d. map_of d key),
     update_data (AList.delete key) response)"

definition redact_runtime_metadata :: "json \<Rightarrow> json" where
  "redact_runtime_metadata response = update_data (\<lambda>d. case map_of d ''runtime_invocation'' of
       Some (JObj kvs) \<Rightarrow> AList.update ''runtime_invocation'' (j_insert ''carrier'' JNull (JObj kvs)) d
     | _ \<Rightarrow> d) response"

subsection \<open>Stream payloads\<close>

text \<open>The loop over the chunks: \<open>k\<close> chunks and the bytes \<open>bs\<close> have been taken.\<close>

fun decode_chunks ::
    "base64 \<Rightarrow> nat \<Rightarrow> nat \<Rightarrow> bytes \<Rightarrow> json list \<Rightarrow> provider_error + bytes" where
  "decode_chunks B max_bytes k bs [] = Inr bs"
| "decode_chunks B max_bytes k bs (chunk # chunks) =
     (let err = (\<lambda>i m. PProvider (''provider stream chunk '' @ i @ m)) in
      andthen (ok_or (err (dec_of_nat k) '' must be an object'') (j_object chunk)) (\<lambda>_.
      andthen (ok_or (err (dec_of_nat k) '' requires index'') (Option.bind (j_get ''index'' chunk) j_u64)) (\<lambda>index.
      andthen (require (unat index = k) (PProvider (''provider stream chunk index mismatch: expected ''
          @ dec_of_nat k @ '', got '' @ show_u64 index))) (\<lambda>_.
      andthen (ok_or (err (show_u64 index) '' requires offset'') (Option.bind (j_get ''offset'' chunk) j_u64)) (\<lambda>offset.
      andthen (require (unat offset = length bs) (err (show_u64 index) ('' offset mismatch: expected ''
          @ dec_of_nat (length bs) @ '', got '' @ show_u64 offset))) (\<lambda>_.
      andthen (ok_or (err (show_u64 index) '' requires base64 data'') (get_str ''data'' chunk)) (\<lambda>encoded.
      (case b64d B encoded of
         Inl e \<Rightarrow> Inl (err (show_u64 index) ('' has invalid base64 data: '' @ e))
       | Inr decoded \<Rightarrow>
           if length bs + length decoded > max_bytes then
             Inl (PProvider (''provider stream payload exceeds '' @ dec_of_nat max_bytes @ '' bytes''))
           else (case Option.bind (j_get ''length'' chunk) j_u64 of
               Some n \<Rightarrow> if unat n \<noteq> length decoded then
                   Inl (err (show_u64 index) ('' length '' @ show_u64 n @ '' does not match decoded length ''
                     @ dec_of_nat (length decoded)))
                 else decode_chunks B max_bytes (k + 1) (bs @ decoded) chunks
             | None \<Rightarrow> decode_chunks B max_bytes (k + 1) (bs @ decoded) chunks)))))))))"

definition decode_stream_payload :: "base64 \<Rightarrow> json \<Rightarrow> nat \<Rightarrow> provider_error + bytes" where
  "decode_stream_payload B stream max_bytes =
     andthen (ok_or (PProvider ''provider stream payload must be an object'') (j_object stream)) (\<lambda>_.
     (let schema = str_or_empty (get_str ''schema'' stream); encoding = str_or_empty (get_str ''encoding'' stream) in
      andthen (require (schema = PROVIDER_STREAM_SCHEMA) (PProvider (''provider stream schema mismatch: expected ''
          @ PROVIDER_STREAM_SCHEMA @ '', got '' @ schema))) (\<lambda>_.
      andthen (require (encoding = PROVIDER_STREAM_ENCODING) (PProvider (''provider stream encoding mismatch: expected ''
          @ PROVIDER_STREAM_ENCODING @ '', got '' @ encoding))) (\<lambda>_.
      andthen (require (Option.bind (j_get ''completed'' stream) j_bool = Some True)
          (PProvider ''provider stream payload must be completed before response finalization'')) (\<lambda>_.
      andthen (ok_or (PProvider ''provider stream payload requires chunks array'')
          (Option.bind (j_get ''chunks'' stream) j_array)) (\<lambda>chunks.
      andthen (decode_chunks B max_bytes 0 [] chunks) (\<lambda>bs.
      (case Option.bind (j_get ''total_bytes'' stream) j_u64 of
         Some n \<Rightarrow> if unat n \<noteq> length bs then
             Inl (PProvider (''provider stream total_bytes '' @ show_u64 n @ '' does not match decoded length ''
               @ dec_of_nat (length bs)))
           else Inr bs
       | None \<Rightarrow> Inr bs))))))))"

fun stream_chunks :: "base64 \<Rightarrow> nat \<Rightarrow> nat \<Rightarrow> bytes list \<Rightarrow> json list" where
  "stream_chunks B index offset [] = []"
| "stream_chunks B index offset (chunk # chunks) =
     JObj [(''index'', j_nat index), (''offset'', j_nat offset), (''length'', j_nat (length chunk)),
       (''data'', JStr (b64e B chunk))]
     # stream_chunks B (index + 1) (offset + length chunk) chunks"

text \<open>\<^verbatim>\<open>slice::chunks\<close>.\<close>

function slice_chunks :: "nat \<Rightarrow> 'a list \<Rightarrow> 'a list list" where
  "slice_chunks n xs = (if xs = [] \<or> n = 0 then [] else take n xs # slice_chunks n (drop n xs))"
  by auto
termination by (relation "measure (length \<circ> snd)") auto

declare slice_chunks.simps [simp del]

definition stream_payload :: "base64 \<Rightarrow> bytes \<Rightarrow> json" where
  "stream_payload B bs = JObj [(''schema'', JStr PROVIDER_STREAM_SCHEMA), (''encoding'', JStr PROVIDER_STREAM_ENCODING),
     (''chunk_size'', j_nat PROVIDER_STREAM_CHUNK_BYTES), (''total_bytes'', j_nat (length bs)),
     (''completed'', JBool True), (''chunks'', JArr (stream_chunks B 0 0 (slice_chunks PROVIDER_STREAM_CHUNK_BYTES bs)))]"

definition stream_response_bytes :: "base64 \<Rightarrow> (string \<times> json) list \<Rightarrow> provider_error + bytes" where
  "stream_response_bytes B d = (case map_of d ''stream'' of
       Some stream \<Rightarrow> decode_stream_payload B stream (2 ^ 64 - 1)
     | None \<Rightarrow> andthen (ok_or (PProvider
           ''provider stream requires data.stream chunks or data.data base64 payload'')
           (Option.bind (map_of d ''data'') j_str)) (\<lambda>encoded.
         case b64d B encoded of
           Inl e \<Rightarrow> Inl (PProvider (''provider stream response has invalid base64 payload: '' @ e))
         | Inr bs \<Rightarrow> Inr bs))"

subsection \<open>Byte ranges\<close>

definition byte_range_bounds :: "nat \<Rightarrow> byte_range \<Rightarrow> provider_error + nat \<times> nat" where
  "byte_range_bounds n r =
     (if unat (br_start r) \<ge> n then
        Inl (PProvider (''provider byte range start '' @ show_u64 (br_start r) @ '' exceeds payload length ''
          @ dec_of_nat n))
      else Inr (unat (br_start r), case br_end r of Some e \<Rightarrow> min (unat e) (n - 1) | None \<Rightarrow> n - 1))"

text \<open>\<^verbatim>\<open>bytes[start..=end]\<close>; \<^verbatim>\<open>start > end + 1\<close> would panic and is ruled out by the contract.\<close>

definition inclusive_slice :: "nat \<Rightarrow> nat \<Rightarrow> 'a list \<Rightarrow> 'a list" where
  "inclusive_slice a b xs = take (b + 1 - a) (drop a xs)"

definition check_expected :: "string \<Rightarrow> invocation \<Rightarrow> bytes \<Rightarrow> provider_error + unit" where
  "check_expected what i bs = (case expected_bytes i of None \<Rightarrow> Inr ()
     | Some n \<Rightarrow> require (unat n = length bs) (PProvider (''provider '' @ what @ '' expected '' @ show_u64 n
         @ '' bytes but produced '' @ dec_of_nat (length bs))))"

definition apply_byte_range :: "base64 \<Rightarrow> json \<Rightarrow> invocation \<Rightarrow> provider_error + json" where
  "apply_byte_range B response i = (case in_byte_range i of None \<Rightarrow> Inr response
     | Some r \<Rightarrow>
         if in_transfer i \<noteq> TrBytes \<or> get_str ''status'' response = Some ''error'' then Inr response
         else
           andthen (ok_or (PProvider ''provider byte range requires response data.data base64 payload'')
             (Option.bind (data_object response) (\<lambda>d. map_of d ''data''))) (\<lambda>data_value.
           andthen (ok_or (PProvider ''provider byte range requires response data.data base64 string'')
             (j_str data_value)) (\<lambda>encoded.
           (case b64d B encoded of
              Inl e \<Rightarrow> Inl (PProvider (''provider byte range response has invalid base64 payload: '' @ e))
            | Inr bs \<Rightarrow> andthen (byte_range_bounds (length bs) r) (\<lambda>(a, b).
                let sliced = inclusive_slice a b bs in
                andthen (check_expected ''byte range'' i sliced) (\<lambda>_.
                  Inr (update_data (AList.update ''data'' (JStr (b64e B sliced))) response)))))))"

definition apply_stream_response :: "base64 \<Rightarrow> json \<Rightarrow> invocation \<Rightarrow> provider_error + json" where
  "apply_stream_response B response i =
     (if get_str ''status'' response = Some ''error'' then Inr response
      else andthen (ok_or (PProvider ''provider stream requires response data object'') (data_object response)) (\<lambda>d.
        andthen (stream_response_bytes B d) (\<lambda>bs.
        andthen (case in_byte_range i of None \<Rightarrow> Inr bs
          | Some r \<Rightarrow> andthen (byte_range_bounds (length bs) r) (\<lambda>(a, b). Inr (inclusive_slice a b bs))) (\<lambda>bs.
        andthen (check_expected ''stream'' i bs) (\<lambda>_.
          Inr (update_data (\<lambda>d. AList.update ''stream'' (stream_payload B bs)
            (if Option.bind (map_of d ''data'') j_str \<noteq> None then AList.delete ''data'' d else d)) response))))))"

definition apply_transfer_response :: "base64 \<Rightarrow> json \<Rightarrow> invocation \<Rightarrow> provider_error + json" where
  "apply_transfer_response B response i =
     andthen (bounded_read_range i) (\<lambda>bounded_range.
     andthen (bounded_metadata_max i) (\<lambda>metadata_max.
     let (complete, response) = take_data ''_runtime_complete_metadata'' response;
         failed = get_str ''status'' response = Some ''error'' in
     andthen (case metadata_max of
         Some max_bytes \<Rightarrow> if failed then Inr () else validate_complete_metadata B response i max_bytes complete
       | None \<Rightarrow> require (complete = None) (PProvider ''unexpected complete metadata receipt'')) (\<lambda>_.
     let (applied, response) = take_data ''_runtime_applied_range'' response in
     andthen (case bounded_range of
         Some (r, n) \<Rightarrow>
           if failed then Inr i
           else andthen (validate_applied_range B response i r n applied) (\<lambda>_. Inr (i\<lparr>in_byte_range := None\<rparr>))
       | None \<Rightarrow> andthen (require (applied = None) (PProvider ''unexpected applied range receipt'')) (\<lambda>_. Inr i))
       (\<lambda>i. andthen (case in_transfer i of
             TrJson \<Rightarrow> Inr response
           | TrBytes \<Rightarrow> apply_byte_range B response i
           | TrStream \<Rightarrow> apply_stream_response B response i)
         (\<lambda>response. Inr (redact_runtime_metadata response))))))"

subsection \<open>A payload is read back\<close>

text \<open>Base64 text decodes to the bytes it was made from.\<close>

definition base64_law :: "base64 \<Rightarrow> bool" where
  "base64_law B = (\<forall>bs. b64d B (b64e B bs) = Inr bs)"

lemma concat_slice_chunks: "n \<noteq> 0 \<Longrightarrow> concat (slice_chunks n xs) = xs"
proof (induction n xs rule: slice_chunks.induct)
  case (1 n xs)
  then show ?case by (subst slice_chunks.simps) (auto simp: append_take_drop_id)
qed

lemma length_slice_chunks: "length (slice_chunks n xs) \<le> length xs"
proof (induction n xs rule: slice_chunks.induct)
  case (1 n xs)
  then show ?case
    by (subst slice_chunks.simps) (cases "xs = [] \<or> n = 0", auto simp: Suc_le_eq intro: le_less_trans)
qed

lemma decode_stream_chunks:
  assumes "base64_law B"
  shows "\<lbrakk>length bs + length (concat cs) < 2 ^ 64; k + length cs < 2 ^ 64; length bs \<le> m\<rbrakk>
    \<Longrightarrow> decode_chunks B m k bs (stream_chunks B k (length bs) cs)
      = (if length bs + length (concat cs) \<le> m then Inr (bs @ concat cs)
         else Inl (PProvider (''provider stream payload exceeds '' @ dec_of_nat m @ '' bytes'')))"
proof (induction cs arbitrary: k bs)
  case (Cons c cs)
  have d: "b64d B (b64e B c) = Inr c" using assms by (simp add: base64_law_def)
  have b: "length bs < 2 ^ 64" "length c < 2 ^ 64" "k < 2 ^ 64" using Cons.prems by simp_all
  have u: "n < 2 ^ 64 \<Longrightarrow> unat (of_nat n :: u64) = n" for n by (simp add: unat_of_nat take_bit_nat_eq_self)
  have IH: "length bs + length c \<le> m \<Longrightarrow> decode_chunks B m (Suc k) (bs @ c)
      (stream_chunks B (Suc k) (length bs + length c) cs)
      = (if length bs + (length c + length (concat cs)) \<le> m then Inr (bs @ c @ concat cs)
         else Inl (PProvider (''provider stream payload exceeds '' @ dec_of_nat m @ '' bytes'')))"
    using Cons.IH[of "bs @ c" "Suc k"] Cons.prems by (simp add: add.assoc)
  show ?case
  proof (cases "length bs + length c \<le> m")
    case True
    then show ?thesis using b by (simp add: Let_def require_def ok_or_def get_str_def d u IH)
  next
    case False
    then show ?thesis using b by (simp add: Let_def require_def ok_or_def get_str_def d u)
  qed
qed simp

text \<open>
  The payload the runtime builds for a stream is a payload it reads back: decoding it
  gives the same bytes, and a limit smaller than their number makes the decoding fail with the
  error that names the limit, whatever the number and the sizes of the chunks.
\<close>

theorem stream_payload_roundtrip:
  assumes "base64_law B" and "length bs < 2 ^ 64"
  shows "decode_stream_payload B (stream_payload B bs) m =
    (if length bs \<le> m then Inr bs
     else Inl (PProvider (''provider stream payload exceeds '' @ dec_of_nat m @ '' bytes'')))"
proof -
  let ?cs = "slice_chunks PROVIDER_STREAM_CHUNK_BYTES bs"
  have c: "concat ?cs = bs" by (rule concat_slice_chunks) (simp add: PROVIDER_STREAM_CHUNK_BYTES_def)
  have "length ?cs < 2 ^ 64" using length_slice_chunks[of PROVIDER_STREAM_CHUNK_BYTES bs] assms(2) by simp
  then have "decode_chunks B m 0 [] (stream_chunks B 0 0 ?cs) = (if length bs \<le> m then Inr bs
     else Inl (PProvider (''provider stream payload exceeds '' @ dec_of_nat m @ '' bytes'')))"
    using decode_stream_chunks[OF assms(1), of "[]" ?cs 0 m] assms(2) by (simp add: c)
  moreover have "unat (of_nat (length bs) :: u64) = length bs"
    using assms(2) by (simp add: unat_of_nat take_bit_nat_eq_self)
  ultimately show ?thesis
    using assms(2) by (simp add: decode_stream_payload_def stream_payload_def Let_def require_def ok_or_def get_str_def str_or_empty_def)
qed

text \<open>Hexadecimal digits in place of base64: a codec on which the witnesses run.\<close>

definition demo_b64 :: base64 where
  "demo_b64 = \<lparr>b64e = demo_hex, b64d = (\<lambda>s. case demo_unhex s of None \<Rightarrow> Inl ''invalid'' | Some b \<Rightarrow> Inr b)\<rparr>"

lemma demo_base64_law [simp]: "base64_law demo_b64"
  by (simp add: base64_law_def demo_b64_def demo_unhex_hex)

theorem stream_payload_roundtrip_witness:
  "decode_stream_payload demo_b64 (stream_payload demo_b64 [1, 2, 3]) 3 = Inr [1, 2, 3]
   \<and> decode_stream_payload demo_b64 (stream_payload demo_b64 [1, 2, 3]) 2
     = Inl (PProvider ''provider stream payload exceeds 2 bytes'')"
proof -
  have "dec_of_nat 2 = ''2''" by code_simp
  then show ?thesis
    using stream_payload_roundtrip[of demo_b64 "[1, 2, 3]" 3] stream_payload_roundtrip[of demo_b64 "[1, 2, 3]" 2]
    by simp
qed

subsection \<open>Only contiguous payloads are accepted\<close>

definition chunk_ok :: "base64 \<Rightarrow> nat \<Rightarrow> nat \<Rightarrow> json \<Rightarrow> bytes \<Rightarrow> bool" where
  "chunk_ok B k offset v piece =
     (map_option unat (Option.bind (j_get ''index'' v) j_u64) = Some k
      \<and> map_option unat (Option.bind (j_get ''offset'' v) j_u64) = Some offset
      \<and> map_option (b64d B) (get_str ''data'' v) = Some (Inr piece)
      \<and> map_option unat (Option.bind (j_get ''length'' v) j_u64) \<in> {None, Some (length piece)})"

lemma decode_chunks_Cons:
  assumes "decode_chunks B m k bs (v # vs) = Inr out"
  shows "\<exists>p. chunk_ok B k (length bs) v p \<and> length bs + length p \<le> m \<and> decode_chunks B m (Suc k) (bs @ p) vs = Inr out"
proof -
  obtain n o' s where h: "Option.bind (j_get ''index'' v) j_u64 = Some n" "unat n = k"
    "Option.bind (j_get ''offset'' v) j_u64 = Some o'" "unat o' = length bs" "get_str ''data'' v = Some s"
    using assms by (auto simp: Let_def andthen_Inr simp del: bind_eq_Some_conv)
  with assms show ?thesis
    by (cases "b64d B s")
      (auto simp: Let_def andthen_Inr chunk_ok_def simp del: bind_eq_Some_conv split: if_splits option.splits)
qed

lemma decode_chunks_sound:
  "\<lbrakk>decode_chunks B m k bs vs = Inr out; length bs \<le> m\<rbrakk> \<Longrightarrow>
   \<exists>ps. length ps = length vs \<and> out = bs @ concat ps \<and> length out \<le> m
     \<and> (\<forall>j < length vs. chunk_ok B (k + j) (length bs + length (concat (take j ps))) (vs ! j) (ps ! j))"
proof (induction vs arbitrary: k bs)
  case (Cons v vs)
  obtain p where p: "chunk_ok B k (length bs) v p" "length bs + length p \<le> m"
    and rest: "decode_chunks B m (Suc k) (bs @ p) vs = Inr out"
    using decode_chunks_Cons[OF Cons.prems(1)] by blast
  obtain ps where ps: "length ps = length vs" "out = (bs @ p) @ concat ps" "length out \<le> m"
    and ok: "\<forall>j < length vs. chunk_ok B (Suc k + j) (length (bs @ p) + length (concat (take j ps))) (vs ! j) (ps ! j)"
    using Cons.IH[OF rest] p(2) by auto
  have "chunk_ok B (k + j) (length bs + length (concat (take j (p # ps)))) ((v # vs) ! j) ((p # ps) ! j)"
    if "j < length (v # vs)" for j
    using that ok p(1) by (cases j) (auto simp: add.assoc)
  then show ?case using ps by (intro exI[of _ "p # ps"]) auto
qed (auto simp: exI[of _ "[]"])

text \<open>
  A stream payload is accepted only when it is complete and contiguous: with the
  schema, the encoding and the mark of completion in place, its \<open>k\<close>-th chunk has the index \<open>k\<close>,
  stands at the offset where the chunks before it end, decodes to its piece, and states the
  length of the piece if it states any; the pieces in order are the answer, no longer than the
  limit and of the stated total.
\<close>

theorem decode_accepts_contiguous:
  assumes "decode_stream_payload B v m = Inr bs"
  shows "get_str ''schema'' v = Some PROVIDER_STREAM_SCHEMA \<and> get_str ''encoding'' v = Some PROVIDER_STREAM_ENCODING
    \<and> j_get ''completed'' v = Some (JBool True) \<and> length bs \<le> m
    \<and> map_option unat (Option.bind (j_get ''total_bytes'' v) j_u64) \<in> {None, Some (length bs)}
    \<and> (\<exists>vs ps. j_get ''chunks'' v = Some (JArr vs) \<and> length ps = length vs \<and> bs = concat ps
        \<and> (\<forall>k < length vs. chunk_ok B k (length (concat (take k ps))) (vs ! k) (ps ! k)))"
proof -
  have b: "Option.bind r j_bool = Some True \<longleftrightarrow> r = Some (JBool True)" for r
    by (cases "(r, True)" rule: prod.exhaust) (auto simp: bind_eq_Some_conv elim!: j_bool.elims)
  have a: "Option.bind r j_array = Some vs \<longleftrightarrow> r = Some (JArr vs)" for r vs
    by (auto simp: bind_eq_Some_conv elim!: j_array.elims)
  have s: "str_or_empty r = t \<Longrightarrow> t \<noteq> [] \<Longrightarrow> r = Some t" for r t
    by (auto simp: str_or_empty_def split: option.splits)
  have n: "PROVIDER_STREAM_SCHEMA \<noteq> []" "PROVIDER_STREAM_ENCODING \<noteq> []"
    by (simp_all add: PROVIDER_STREAM_SCHEMA_def PROVIDER_STREAM_ENCODING_def)
  let ?t = "Option.bind (j_get ''total_bytes'' v) j_u64"
  obtain vs where vs: "j_get ''chunks'' v = Some (JArr vs)" and d: "decode_chunks B m 0 [] vs = Inr bs"
    and t: "?t = None \<or> (\<exists>n. ?t = Some n \<and> unat n = length bs)"
    using assms by (cases ?t) (auto simp: decode_stream_payload_def Let_def andthen_Inr a split: if_splits simp del: bind_eq_Some_conv)
  have h0: "str_or_empty (get_str ''schema'' v) = PROVIDER_STREAM_SCHEMA"
    "str_or_empty (get_str ''encoding'' v) = PROVIDER_STREAM_ENCODING" "j_get ''completed'' v = Some (JBool True)"
    using assms by (auto simp: decode_stream_payload_def Let_def andthen_Inr b simp del: bind_eq_Some_conv)
  note h = s[OF h0(1) n(1)] s[OF h0(2) n(2)] h0(3)
  have tt: "map_option unat ?t \<in> {None, Some (length bs)}" using t by auto
  obtain ps where ps: "length ps = length vs" "bs = concat ps" "length bs \<le> m"
    "\<forall>k < length vs. chunk_ok B k (length (concat (take k ps))) (vs ! k) (ps ! k)"
    using decode_chunks_sound[OF d] by auto
  show ?thesis by (intro conjI h ps(3) tt exI[of _ vs] exI[of _ ps] vs ps(1,2,4))
qed

theorem decode_accepts_contiguous_witness:
  "\<exists>vs ps. length vs = 1 \<and> length ps = 1 \<and> concat ps = [1, 2, 3 :: u8] \<and> chunk_ok demo_b64 0 0 (vs ! 0) (ps ! 0)"
proof -
  let ?c = "JObj [(''index'', JInt 0), (''offset'', JInt 0), (''length'', JInt 3), (''data'', JStr ''010203'')]"
  let ?v = "JObj [(''schema'', JStr PROVIDER_STREAM_SCHEMA), (''encoding'', JStr PROVIDER_STREAM_ENCODING),
    (''completed'', JBool True), (''chunks'', JArr [?c])]"
  have d: "decode_stream_payload demo_b64 ?v 3 = Inr [1, 2, 3]" by code_simp
  from decode_accepts_contiguous[OF d] obtain vs ps where
    "j_get ''chunks'' ?v = Some (JArr vs)" "length ps = length vs" "[1, 2, 3] = concat ps"
    "\<forall>k < length vs. chunk_ok demo_b64 k (length (concat (take k ps))) (vs ! k) (ps ! k)" by blast
  then show ?thesis by (intro exI[of _ vs] exI[of _ ps]) auto
qed

subsection \<open>Byte ranges are exact\<close>

definition selected :: "byte_range \<Rightarrow> bytes \<Rightarrow> bytes" where
  "selected r bs = map ((!) bs)
     [unat (br_start r) ..< (case br_end r of None \<Rightarrow> length bs | Some e \<Rightarrow> min (unat e + 1) (length bs))]"

lemma inclusive_slice_nth: "b < length bs \<Longrightarrow> inclusive_slice a b bs = map ((!) bs) [a ..< b + 1]"
proof -
  assume "b < length bs"
  then have "drop a (take (b + 1) (map ((!) bs) [0 ..< length bs])) = map ((!) bs) [a ..< b + 1]"
    by (simp add: drop_map take_map del: upt_Suc map_nth)
  then show ?thesis by (simp add: inclusive_slice_def map_nth drop_take)
qed

lemma contract_range:
  "\<lbrakk>validate_transfer_contract i = Inr u; in_byte_range i = Some r; br_end r = Some e\<rbrakk> \<Longrightarrow> br_start r \<le> e"
  by (auto simp: validate_transfer_contract_def andthen_Inr split: if_splits)

lemma byte_range_selected:
  assumes "\<And>e. br_end r = Some e \<Longrightarrow> br_start r \<le> e" "unat (br_start r) < length bs"
  shows "\<exists>b. byte_range_bounds (length bs) r = Inr (unat (br_start r), b) \<and> unat (br_start r) \<le> b \<and> b < length bs
    \<and> inclusive_slice (unat (br_start r)) b bs = selected r bs \<and> selected r bs \<noteq> []"
proof (cases "br_end r")
  case None
  moreover have "Suc (length bs - Suc 0) = length bs" using assms(2) by simp
  ultimately show ?thesis using assms(2)
    by (auto simp: byte_range_bounds_def selected_def inclusive_slice_nth simp del: upt_Suc)
next
  case (Some e)
  have "unat (br_start r) \<le> unat e" using assms(1)[OF Some] by (simp add: word_le_nat_alt)
  moreover have "min (unat e) (length bs - 1) + 1 = min (unat e + 1) (length bs)" using assms(2) by auto
  moreover have "min (unat e) (length bs - 1) < length bs" using assms(2) by auto
  ultimately show ?thesis using assms(2) Some
    by (simp add: byte_range_bounds_def selected_def inclusive_slice_nth) auto
qed

lemma data_data_Some:
  assumes "data_data response = Some s"
  obtains d where "data_object response = Some d" "map_of d ''data'' = Some (JStr s)"
    "data_data (update_data (AList.update ''data'' (JStr x)) response) = Some x"
proof -
  have str: "j_str v = Some s \<longleftrightarrow> v = JStr s" for v s by (cases v) auto
  obtain kvs d where k: "response = JObj kvs" "map_of kvs ''data'' = Some (JObj d)" "map_of d ''data'' = Some (JStr s)"
    using assms by (cases response) (auto simp: data_data_def get_str_def bind_eq_Some_conv str elim!: j_get.elims)
  then have "data_data (update_data (AList.update ''data'' (JStr x)) response) = Some x"
    by (simp add: data_data_def update_data_def data_object_def get_str_def update_conv')
  with k that show thesis by (simp add: data_object_def)
qed

text \<open>
  A byte range asked of a bytes transfer gives exactly the bytes of the range. For an
  invocation whose contract was accepted and a response with the bytes \<open>bs\<close>, either the
  answer is an error, and then the range starts past the end of the payload or the number of bytes
  is not the expected one; or the answer carries the bytes from the start to the end of the range,
  both included, cut at the end of the payload, at least one, and as many as were expected.
\<close>

theorem byte_range_exact:
  assumes "base64_law B" and "validate_transfer_contract i = Inr ()" and "in_byte_range i = Some r"
    and "in_transfer i = TrBytes" and "get_str ''status'' response \<noteq> Some ''error''"
    and "data_data response = Some (b64e B bs)"
  shows "case apply_byte_range B response i of
      Inl _ \<Rightarrow> length bs \<le> unat (br_start r) \<or> map_option unat (expected_bytes i) \<notin> {None, Some (length (selected r bs))}
    | Inr q \<Rightarrow> unat (br_start r) < length bs \<and> data_data q = Some (b64e B (selected r bs)) \<and> selected r bs \<noteq> []
        \<and> map_option unat (expected_bytes i) \<in> {None, Some (length (selected r bs))}"
proof -
  let ?x = "b64e B (selected r bs)"
  obtain d where d: "data_object response = Some d" "map_of d ''data'' = Some (JStr (b64e B bs))"
    and u: "data_data (update_data (AList.update ''data'' (JStr ?x)) response) = Some ?x"
    by (rule data_data_Some[OF assms(6)])
  have b: "b64d B (b64e B bs) = Inr bs" using assms(1) by (simp add: base64_law_def)
  show ?thesis
  proof (cases "unat (br_start r) < length bs")
    case False
    then show ?thesis using assms d b by (simp add: apply_byte_range_def ok_or_def byte_range_bounds_def)
  next
    case True
    then obtain e where e: "byte_range_bounds (length bs) r = Inr (unat (br_start r), e)"
      "inclusive_slice (unat (br_start r)) e bs = selected r bs" "selected r bs \<noteq> []"
      using byte_range_selected[of r bs] contract_range[OF assms(2,3)] by blast
    then show ?thesis using assms d b True u
      by (auto simp: apply_byte_range_def ok_or_def check_expected_def require_def Let_def split: option.splits)
  qed
qed

theorem byte_range_exact_witness:
  "\<exists>q. apply_byte_range demo_b64 (JObj [(''data'', JObj [(''data'', JStr ''0a0b0c0d'')])])
     \<lparr>in_source = ''a'', in_target = ''ipfs'', in_op = ''cat'', in_request = JObj [], in_transfer = TrBytes,
      in_byte_range = Some \<lparr>br_start = 1, br_end = Some 2\<rparr>, in_progress = None, in_transport = Local\<rparr> = Inr q
     \<and> data_data q = Some ''0b0c''"
proof -
  let ?v = "JObj [(''data'', JObj [(''data'', JStr ''0a0b0c0d'')])]"
  let ?i = "\<lparr>in_source = ''a'', in_target = ''ipfs'', in_op = ''cat'', in_request = JObj [], in_transfer = TrBytes,
      in_byte_range = Some \<lparr>br_start = 1, br_end = Some 2\<rparr>, in_progress = None, in_transport = Local\<rparr>"
  let ?r = "\<lparr>br_start = 1, br_end = Some 2\<rparr>"
  have v: "validate_transfer_contract ?i = Inr ()" by code_simp
  have e: "data_data ?v = Some (b64e demo_b64 [10, 11, 12, 13])" by code_simp
  have s: "selected ?r [10, 11, 12, 13] = [11, 12]" by code_simp
  have x: "b64e demo_b64 [11, 12] = ''0b0c''" by code_simp
  have st: "get_str ''status'' ?v \<noteq> Some ''error''" by code_simp
  show ?thesis
    using byte_range_exact[OF demo_base64_law v _ _ st e, of ?r]
    by (auto simp: s x expected_bytes_def split: sum.splits)
qed

end
