(* ===== verification/Provider_Plane.thy ===== *)
theory Provider_Plane
  imports Provider_Stream
begin

section \<open>The provider plane: invocations and stream sessions\<close>

text \<open>
  \<^verbatim>\<open>ProviderRegistry::invoke_provider\<close> and \<^verbatim>\<open>open_provider_stream\<close> of
  \<^verbatim>\<open>elastos-runtime/src/provider/registry.rs\<close>, with the envelopes and receipts they attach,
  and the stream session a consumer reads. The lemmas show what an invocation can reach, that
  nothing of the route to a peer is disclosed, and that a session hands out its bytes once, in
  order and completely.
\<close>

subsection \<open>Envelopes and receipts\<close>

definition provider_invocation_capability :: "invocation \<Rightarrow> string" where
  "provider_invocation_capability i = ''provider:'' @ in_source i @ ''->'' @ in_target i @ '':'' @ in_op i"

definition provider_stream_contract :: "invocation \<Rightarrow> json option" where
  "provider_stream_contract i =
     (if in_transfer i = TrStream then Some (JObj [(''schema'', JStr PROVIDER_STREAM_SCHEMA),
        (''encoding'', JStr PROVIDER_STREAM_ENCODING), (''chunk_size'', j_nat PROVIDER_STREAM_CHUNK_BYTES),
        (''mode'', JStr ''runtime_stream_session''), (''transport_native'', JBool True),
        (''progress_mode'', JStr ''stream_events''),
        (''flow_control'', JObj [(''backpressure'', JStr ''read_next''), (''cancel'', JStr ''supported''),
          (''max_in_flight_chunks'', j_nat 1)])])
      else None)"

definition provider_transfer_abi :: "invocation \<Rightarrow> json" where
  "provider_transfer_abi i = JObj [(''schema'', JStr ''elastos.provider.transfer-abi/v1''),
     (''transfer'', JStr (transfer_str (in_transfer i))), (''transport'', JStr (transport_str (in_transport i))),
     (''range_supported'', JBool (in_transfer i \<noteq> TrJson)),
     (''progress_supported'', JBool (in_progress i \<noteq> None)),
     (''progress_mode'', JStr (if in_transfer i = TrStream then ''stream_events''
        else if in_progress i \<noteq> None then ''receipt_metadata'' else ''none'')),
     (''transport_native_stream'', JBool (in_transfer i = TrStream)),
     (''backpressure'', JStr (case in_transfer i of TrStream \<Rightarrow> ''read_next'' | _ \<Rightarrow> ''not_applicable'')),
     (''cancel_supported'', JBool (in_transfer i = TrStream))]"

definition range_json :: "byte_range \<Rightarrow> json" where
  "range_json r = JObj [(''start'', j_word (br_start r)), (''end'', j_opt j_word (br_end r))]"

definition progress_json :: "progress_contract \<Rightarrow> json" where
  "progress_json p = JObj [(''request_id'', JStr (pg_request_id p)), (''expected_bytes'', j_opt j_word (pg_expected_bytes p))]"

definition with_stream :: "invocation \<Rightarrow> json \<Rightarrow> json" where
  "with_stream i v = (case provider_stream_contract i of None \<Rightarrow> v | Some stream \<Rightarrow> j_insert ''stream'' stream v)"

definition provider_transfer_receipt :: "invocation \<Rightarrow> string \<Rightarrow> json" where
  "provider_transfer_receipt i status = with_stream i (JObj [(''schema'', JStr ''elastos.provider.transfer/v1''),
     (''source'', JStr (in_source i)), (''target'', JStr (in_target i)), (''op'', JStr (in_op i)),
     (''capability'', JStr (provider_invocation_capability i)),
     (''transport'', JStr (transport_str (in_transport i))), (''carrier'', JNull),
     (''transfer'', JStr (transfer_str (in_transfer i))), (''range'', j_opt range_json (in_byte_range i)),
     (''progress'', j_opt progress_json (in_progress i)), (''abi'', provider_transfer_abi i),
     (''status'', JStr status)])"

definition provider_invocation_envelope :: "invocation \<Rightarrow> json" where
  "provider_invocation_envelope i = with_stream i (JObj [(''schema'', JStr ''elastos.provider.invocation/v1''),
     (''source'', JStr (in_source i)), (''target'', JStr (in_target i)), (''op'', JStr (in_op i)),
     (''capability'', JStr (provider_invocation_capability i)),
     (''transport'', JStr (transport_str (in_transport i))), (''carrier'', JNull),
     (''transfer'', JStr (transfer_str (in_transfer i))), (''range'', j_opt range_json (in_byte_range i)),
     (''progress'', j_opt progress_json (in_progress i)), (''abi'', provider_transfer_abi i)])"

definition attach_provider_transfer_receipt :: "json \<Rightarrow> invocation \<Rightarrow> string \<Rightarrow> json" where
  "attach_provider_transfer_receipt response i status =
     j_insert ''_runtime_transfer'' (provider_transfer_receipt i status) response"

definition attach_provider_invocation_envelope :: "json \<Rightarrow> invocation \<Rightarrow> provider_error + json" where
  "attach_provider_invocation_envelope request i =
     andthen (require (j_object request \<noteq> None) (PProvider ''provider invocation request must be a JSON object'')) (\<lambda>_.
     (case find (\<lambda>reserved. j_get reserved request \<noteq> None) [''_runtime_invocation'', ''_runtime_transfer''] of
        Some reserved \<Rightarrow> Inl (PProvider (''provider invocation request must not predeclare runtime field '' @ reserved))
      | None \<Rightarrow> Inr (j_insert ''_runtime_invocation'' (provider_invocation_envelope i) request)))"

subsection \<open>The provider plane\<close>

text \<open>
  The registry, the transport to remote peers (the answer to the \<open>n\<close>-th call), the calls made
  to it, the counter of stream ids and \<^verbatim>\<open>Display\<close> of JSON values.
\<close>

record plane =
  pl_registry :: provider_registry
  pl_invoker :: "(nat \<Rightarrow> carrier_route \<Rightarrow> invocation \<Rightarrow> json \<Rightarrow> provider_error + json) option"
  pl_carrier_calls :: "(carrier_route \<times> invocation \<times> json) list"
  pl_next_stream_id :: u64
  pl_json_text :: "json \<Rightarrow> string"

definition set_carrier_invoker ::
    "(nat \<Rightarrow> carrier_route \<Rightarrow> invocation \<Rightarrow> json \<Rightarrow> provider_error + json) \<Rightarrow> plane \<Rightarrow> plane" where
  "set_carrier_invoker invoker P = P\<lparr>pl_invoker := Some invoker\<rparr>"

definition refused_invocation :: "invocation \<Rightarrow> provider_error option" where
  "refused_invocation i =
     (let op = get_str ''op'' (in_request i) in
      if private_provider_configuration (in_target i) (in_op i)
         \<or> private_provider_configuration (in_target i) (str_or_empty op)
      then Some (PProvider ''provider configuration is Runtime-owned'')
      else if private_ipfs_operation (in_op i) \<or> (case op of None \<Rightarrow> False | Some q \<Rightarrow> private_ipfs_operation q)
      then Some private_ipfs_unavailable
      else if trim (in_source i) = [] then Some (PProvider ''provider invocation requires source'')
      else if trim (in_target i) = [] then Some (PProvider ''provider invocation requires target'')
      else if trim (in_op i) = [] then Some (PProvider ''provider invocation requires op'')
      else None)"

definition prepared_request :: "invocation \<Rightarrow> provider_error + json" where
  "prepared_request i =
     (case refused_invocation i of Some e \<Rightarrow> Inl e
      | None \<Rightarrow>
          andthen (validate_transfer_contract i) (\<lambda>_.
          andthen (bounded_read_range i) (\<lambda>_.
          let target_op = str_or_empty (get_str ''op'' (in_request i)) in
          andthen (require (target_op = in_op i) (PProvider (''provider invocation op mismatch: envelope='' @ in_op i
              @ '', request='' @ target_op))) (\<lambda>_.
          attach_provider_invocation_envelope (in_request i) i))))"

definition dispatch :: "invocation \<Rightarrow> json \<Rightarrow> plane \<Rightarrow> (provider_error + json) \<times> plane" where
  "dispatch i request P =
     (case carrier_route_of (in_transport i) of
        Some r \<Rightarrow> (case pl_invoker P of
            None \<Rightarrow> (Inl (PProvider (''Carrier provider invocation requires registered Carrier invoker: ''
                @ pl_json_text P (provider_transfer_receipt i ''failed_closed''))), P)
          | Some invoker \<Rightarrow> (invoker (length (pl_carrier_calls P)) r i request,
              P\<lparr>pl_carrier_calls := pl_carrier_calls P @ [(r, i, request)]\<rparr>))
      | None \<Rightarrow> (let (q, R) = send_raw_with_target_visibility (in_target i) request True (pl_registry P)
          in (q, P\<lparr>pl_registry := R\<rparr>)))"

definition invoke_provider :: "base64 \<Rightarrow> invocation \<Rightarrow> plane \<Rightarrow> (provider_error + json) \<times> plane" where
  "invoke_provider B i P =
     (case prepared_request i of Inl e \<Rightarrow> (Inl e, P)
      | Inr request \<Rightarrow>
          let (q, P) = dispatch i request P in
          (andthen q (\<lambda>response. andthen (apply_transfer_response B response i) (\<lambda>response.
             Inr (attach_provider_transfer_receipt response i ''completed''))), P))"

subsection \<open>Stream sessions\<close>

record stream_session =
  ss_id :: string
  ss_source :: string
  ss_target :: string
  ss_op :: string
  ss_request_id :: string
  ss_bytes :: bytes
  ss_cursor :: nat
  ss_read_index :: nat
  ss_chunk_size :: nat
  ss_max_in_flight :: nat
  ss_cancelled :: bool
  ss_transfer_receipt :: "json option"

record stream_options =
  so_chunk_size :: nat
  so_max_in_flight :: nat

definition default_stream_options :: stream_options where
  "default_stream_options = \<lparr>so_chunk_size = PROVIDER_STREAM_CHUNK_BYTES, so_max_in_flight = 1\<rparr>"

record stream_read =
  sr_session_id :: string
  sr_index :: nat
  sr_offset :: nat
  sr_bytes :: bytes
  sr_completed :: bool
  sr_progress :: json

definition session_total_bytes :: "stream_session \<Rightarrow> nat" where
  "session_total_bytes S = length (ss_bytes S)"

definition session_receipt :: "stream_session \<Rightarrow> json" where
  "session_receipt S = JObj [(''schema'', JStr PROVIDER_STREAM_SESSION_SCHEMA), (''session_id'', JStr (ss_id S)),
     (''source'', JStr (ss_source S)), (''target'', JStr (ss_target S)), (''op'', JStr (ss_op S)),
     (''request_id'', JStr (ss_request_id S)), (''total_bytes'', j_nat (length (ss_bytes S))),
     (''chunk_size'', j_nat (ss_chunk_size S)), (''max_in_flight_chunks'', j_nat (ss_max_in_flight S)),
     (''transport_native_stream'', JBool True), (''backpressure'', JStr ''read_next''),
     (''cancel_supported'', JBool True), (''progress_mode'', JStr ''stream_events''),
     (''status'', JStr (if ss_cancelled S then ''cancelled''
        else if ss_cursor S \<ge> length (ss_bytes S) then ''completed'' else ''open'')),
     (''transfer'', j_opt id (ss_transfer_receipt S))]"

definition progress_event :: "stream_session \<Rightarrow> nat \<Rightarrow> nat \<Rightarrow> nat \<Rightarrow> string \<Rightarrow> json" where
  "progress_event S index offset n status = JObj [(''schema'', JStr PROVIDER_STREAM_EVENT_SCHEMA),
     (''session_id'', JStr (ss_id S)), (''request_id'', JStr (ss_request_id S)), (''source'', JStr (ss_source S)),
     (''target'', JStr (ss_target S)), (''op'', JStr (ss_op S)), (''index'', j_nat index), (''offset'', j_nat offset),
     (''bytes'', j_nat n), (''transferred_bytes'', j_nat (ss_cursor S)), (''total_bytes'', j_nat (length (ss_bytes S))),
     (''status'', JStr status)]"

definition read_next :: "stream_session \<Rightarrow> (provider_error + stream_read option) \<times> stream_session" where
  "read_next S =
     (if ss_cancelled S then (Inl (PProvider (''provider stream session '' @ ss_id S @ '' is cancelled'')), S)
      else if ss_cursor S \<ge> length (ss_bytes S) then (Inr None, S)
      else
        let start = ss_cursor S;
            e = min (start + ss_chunk_size S) (length (ss_bytes S));
            index = ss_read_index S;
            S = S\<lparr>ss_cursor := e, ss_read_index := index + 1\<rparr>;
            completed = ss_cursor S \<ge> length (ss_bytes S);
            chunk = take (e - start) (drop start (ss_bytes S));
            progress = progress_event S index start (length chunk) (if completed then ''completed'' else ''progress'')
        in (Inr (Some \<lparr>sr_session_id = ss_id S, sr_index = index, sr_offset = start, sr_bytes = chunk,
              sr_completed = completed, sr_progress = progress\<rparr>), S))"

definition cancel :: "stream_session \<Rightarrow> json \<times> stream_session" where
  "cancel S = (let S = S\<lparr>ss_cancelled := True\<rparr> in (progress_event S (ss_read_index S) (ss_cursor S) 0 ''cancelled'', S))"

text \<open>The loop of \<^verbatim>\<open>drain_to_vec\<close>; none when it does not return.\<close>

partial_function (option) drain_loop ::
    "bytes \<Rightarrow> stream_session \<Rightarrow> ((provider_error + bytes) \<times> stream_session) option" where
  "drain_loop out S = (case read_next S of
       (Inl e, S') \<Rightarrow> Some (Inl e, S')
     | (Inr None, S') \<Rightarrow> Some (Inr out, S')
     | (Inr (Some r), S') \<Rightarrow> drain_loop (out @ sr_bytes r) S')"

definition drain_to_vec :: "stream_session \<Rightarrow> ((provider_error + bytes) \<times> stream_session) option" where
  "drain_to_vec S = drain_loop [] S"

definition open_provider_stream ::
    "base64 \<Rightarrow> invocation \<Rightarrow> stream_options \<Rightarrow> plane \<Rightarrow> (provider_error + stream_session) \<times> plane" where
  "open_provider_stream B i opts P =
     (let i = i\<lparr>in_transfer := TrStream\<rparr>; (q, P) = invoke_provider B i P;
          opened = andthen q (\<lambda>response.
            if get_str ''status'' response = Some ''error'' then
              Inl (PProvider (''provider stream open failed: ''
                @ (case get_str ''message'' response of Some m \<Rightarrow> m | None \<Rightarrow> ''unknown provider stream error'')))
            else andthen (ok_or (PProvider ''provider stream open requires response data object'') (data_object response))
              (\<lambda>d. andthen (stream_response_bytes B d) (\<lambda>bs. Inr (bs, j_get ''_runtime_transfer'' response))))
      in case opened of Inl e \<Rightarrow> (Inl e, P)
         | Inr (bs, receipt) \<Rightarrow>
             let ident = ''provider-stream:'' @ show_u64 (pl_next_stream_id P) in
             (Inr \<lparr>ss_id = ident, ss_source = in_source i, ss_target = in_target i, ss_op = in_op i,
                ss_request_id = (case in_progress i of Some p \<Rightarrow> pg_request_id p | None \<Rightarrow> ident),
                ss_bytes = bs, ss_cursor = 0, ss_read_index = 0,
                ss_chunk_size = max 1 (min (so_chunk_size opts) PROVIDER_STREAM_CHUNK_BYTES),
                ss_max_in_flight = max (so_max_in_flight opts) 1, ss_cancelled = False,
                ss_transfer_receipt = receipt\<rparr>,
              P\<lparr>pl_next_stream_id := pl_next_stream_id P + 1\<rparr>))"

subsection \<open>What an invocation reaches\<close>

lemma prepared_request_Inr:
  assumes "prepared_request i = Inr request"
  shows "refused_invocation i = None" "str_or_empty (get_str ''op'' (in_request i)) = in_op i"
    "\<exists>kvs. in_request i = JObj kvs \<and> map_of kvs ''_runtime_invocation'' = None \<and> map_of kvs ''_runtime_transfer'' = None
      \<and> request = JObj (AList.update ''_runtime_invocation'' (provider_invocation_envelope i) kvs)"
proof -
  have h: "refused_invocation i = None \<and> str_or_empty (get_str ''op'' (in_request i)) = in_op i
    \<and> attach_provider_invocation_envelope (in_request i) i = Inr request"
    using assms by (auto simp: prepared_request_def Let_def andthen_Inr split: option.splits)
  then show "refused_invocation i = None" "str_or_empty (get_str ''op'' (in_request i)) = in_op i" by simp_all
  have "attach_provider_invocation_envelope (in_request i) i = Inr request" using h by simp
  then show "\<exists>kvs. in_request i = JObj kvs \<and> map_of kvs ''_runtime_invocation'' = None \<and> map_of kvs ''_runtime_transfer'' = None
      \<and> request = JObj (AList.update ''_runtime_invocation'' (provider_invocation_envelope i) kvs)"
    by (cases "in_request i") (auto simp: attach_provider_invocation_envelope_def andthen_Inr split: if_splits)
qed

lemma dispatch_calls:
  "snd (dispatch i request P) \<in> {P,
     P\<lparr>pl_registry := snd (send_raw_with_target_visibility (in_target i) request True (pl_registry P))\<rparr>}
   \<or> (\<exists>r. carrier_route_of (in_transport i) = Some r
        \<and> snd (dispatch i request P) = P\<lparr>pl_carrier_calls := pl_carrier_calls P @ [(r, i, request)]\<rparr>)"
  by (auto simp: dispatch_def split: option.splits prod.splits)

subsection \<open>The route is not disclosed\<close>

abbreviation via :: "carrier_route \<Rightarrow> invocation \<Rightarrow> invocation" where
  "via r i \<equiv> i\<lparr>in_transport := Carrier r\<rparr>"

lemma via_sel:
  "in_source (via r i) = in_source i" "in_target (via r i) = in_target i" "in_op (via r i) = in_op i"
  "in_request (via r i) = in_request i" "in_transfer (via r i) = in_transfer i"
  "in_byte_range (via r i) = in_byte_range i" "in_progress (via r i) = in_progress i"
  "transport_str (in_transport (via r i)) = ''carrier-provider-plane''"
  "in_transport (via r i) = Local \<longleftrightarrow> False"
  "(via r i)\<lparr>in_byte_range := x\<rparr> = via r (i\<lparr>in_byte_range := x\<rparr>)"
  by simp_all

lemma via_receipts:
  "provider_transfer_receipt (via r i) st = provider_transfer_receipt (via r' i) st"
  "provider_invocation_envelope (via r i) = provider_invocation_envelope (via r' i)"
  unfolding provider_transfer_receipt_def provider_invocation_envelope_def with_stream_def
    provider_stream_contract_def provider_invocation_capability_def provider_transfer_abi_def via_sel
  by (rule refl)+

lemma via_checks:
  "refused_invocation (via r i) = refused_invocation (via r' i)"
  "bounded_metadata_max (via r i) = bounded_metadata_max (via r' i)"
  "bounded_read_range (via r i) = bounded_read_range (via r' i)"
  "check_expected w (via r i) = check_expected w (via r' i)"
  unfolding refused_invocation_def bounded_read_range_def bounded_metadata_max_def reads_content_def
    bounded_read_nested_owner_def check_expected_def expected_bytes_def via_sel
  by (rule refl)+

lemma via_apply: "apply_transfer_response B v (via r i) = apply_transfer_response B v (via r' i)"
proof -
  have c: "check_expected w (via r i) = check_expected w (via r' i)" for w i by (rule via_checks)
  have b: "apply_byte_range B v (via r i) = apply_byte_range B v (via r' i)" for v i
    unfolding apply_byte_range_def via_sel c[of _ i] by (rule refl)
  have s: "apply_stream_response B v (via r i) = apply_stream_response B v (via r' i)" for v i
    unfolding apply_stream_response_def via_sel c[of _ i] by (rule refl)
  have m: "validate_complete_metadata B v (via r i) n q = validate_complete_metadata B v (via r' i) n q"
    "validate_applied_range B v (via r i) rg n q = validate_applied_range B v (via r' i) rg n q" for v n q rg
    unfolding validate_complete_metadata_def validate_applied_range_def via_sel by (rule refl)+
  have t: "andthen (case bo of
         Some (x, n) \<Rightarrow> if c then Inr (via r j) else andthen (V x n) (\<lambda>_. Inr (via r (j\<lparr>in_byte_range := None\<rparr>)))
       | None \<Rightarrow> andthen W (\<lambda>_. Inr (via r j)))
       (\<lambda>i. andthen (case in_transfer i of TrJson \<Rightarrow> Inr v | TrBytes \<Rightarrow> apply_byte_range B v i
          | TrStream \<Rightarrow> apply_stream_response B v i) f)
    = andthen (case bo of
         Some (x, n) \<Rightarrow> if c then Inr (via r' j) else andthen (V x n) (\<lambda>_. Inr (via r' (j\<lparr>in_byte_range := None\<rparr>)))
       | None \<Rightarrow> andthen W (\<lambda>_. Inr (via r' j)))
       (\<lambda>i. andthen (case in_transfer i of TrJson \<Rightarrow> Inr v | TrBytes \<Rightarrow> apply_byte_range B v i
          | TrStream \<Rightarrow> apply_stream_response B v i) f)"
    for bo c and V :: "byte_range \<Rightarrow> u64 \<Rightarrow> provider_error + unit" and W :: "provider_error + unit" and v f j
    using b[of v j] s[of v j] b[of v "j\<lparr>in_byte_range := None\<rparr>"] s[of v "j\<lparr>in_byte_range := None\<rparr>"]
    by (auto simp: andthen_def split: option.splits sum.splits provider_transfer.splits)
  show ?thesis
    unfolding apply_transfer_response_def via_checks(2,3)[of r i r'] m via_sel t by (rule refl)
qed

text \<open>
  A caller learns nothing of the route to a peer. When the peers answer by the
  target, the operation and the request alone, two invocations that differ only in the route,
  each with an acceptable contract, give their callers the same answer: the response with its
  receipt, or the error, also the one for a transport that is not there. The peers receive the
  same request.
\<close>

theorem route_not_disclosed:
  assumes "validate_transfer_contract (via r i) = Inr ()" and "validate_transfer_contract (via r' i) = Inr ()"
    and "\<And>invoker n v. pl_invoker P = Some invoker \<Longrightarrow> invoker n r (via r i) v = invoker n r' (via r' i) v"
  shows "fst (invoke_provider B (via r i) P) = fst (invoke_provider B (via r' i) P)
    \<and> map (\<lambda>(_, _, v). v) (pl_carrier_calls (snd (invoke_provider B (via r i) P)))
      = map (\<lambda>(_, _, v). v) (pl_carrier_calls (snd (invoke_provider B (via r' i) P)))"
proof -
  have a: "attach_provider_invocation_envelope v (via r i) = attach_provider_invocation_envelope v (via r' i)" for v
    unfolding attach_provider_invocation_envelope_def via_receipts(2)[of r i r'] by (rule refl)
  have p: "prepared_request (via r i) = prepared_request (via r' i)"
    unfolding prepared_request_def via_checks(1,3)[of r i r'] assms(1,2) via_sel a by (rule refl)
  have q: "attach_provider_transfer_receipt v (via r i) st = attach_provider_transfer_receipt v (via r' i) st" for v st
    unfolding attach_provider_transfer_receipt_def via_receipts(1)[of r i st r'] by (rule refl)
  have d: "fst (dispatch (via r i) v P) = fst (dispatch (via r' i) v P)
      \<and> map (\<lambda>(_, _, v). v) (pl_carrier_calls (snd (dispatch (via r i) v P)))
        = map (\<lambda>(_, _, v). v) (pl_carrier_calls (snd (dispatch (via r' i) v P)))" for v
    using assms(3) via_receipts(1)[of r i "''failed_closed''" r'] by (auto simp: dispatch_def split: option.split)
  show ?thesis
  proof (cases "prepared_request (via r' i)")
    case (Inr v)
    then show ?thesis using d[of v]
      by (simp add: invoke_provider_def p q via_apply[of B _ r i r'] prod.case_eq_if)
  qed (simp add: invoke_provider_def p)
qed

definition demo_invocation :: invocation where
  "demo_invocation = \<lparr>in_source = ''library'', in_target = ''content'', in_op = ''fetch'',
     in_request = JObj [(''op'', JStr ''fetch'')], in_transfer = TrJson, in_byte_range = None, in_progress = None,
     in_transport = Local\<rparr>"

definition demo_plane :: plane where
  "demo_plane = \<lparr>pl_registry = demo_routes, pl_invoker = Some (\<lambda>n r i v. Inr (JObj [(''status'', JStr ''ok'')])),
     pl_carrier_calls = [], pl_next_stream_id = 7, pl_json_text = (\<lambda>v. [])\<rparr>"

theorem route_not_disclosed_witness:
  "\<exists>response. fst (invoke_provider demo_b64 (via (ConnectTicket ''secret'' None None) demo_invocation) demo_plane) = Inr response
    \<and> fst (invoke_provider demo_b64 (via (PeerDid ''did:key:z'' None None) demo_invocation) demo_plane) = Inr response"
proof -
  let ?a = "ConnectTicket ''secret'' None None" and ?b = "PeerDid ''did:key:z'' None None"
  have c: "validate_transfer_contract (via ?a demo_invocation) = Inr ()"
    "validate_transfer_contract (via ?b demo_invocation) = Inr ()"
    by (simp_all add: validate_transfer_contract_def demo_invocation_def require_def trim_graphic graphic_def)
  obtain response where r: "fst (invoke_provider demo_b64 (via ?a demo_invocation) demo_plane) = Inr response"
  proof -
    have p: "refused_invocation (via ?a demo_invocation) = None" "bounded_read_range (via ?a demo_invocation) = Inr None"
      by (simp add: refused_invocation_def demo_invocation_def trim_graphic graphic_def get_str_def str_or_empty_def
          private_provider_configuration_def private_ipfs_operation_def, code_simp)
    have a: "apply_transfer_response demo_b64 (JObj [(''status'', JStr ''ok'')]) (via ?a demo_invocation)
      = Inr (JObj [(''status'', JStr ''ok'')])" by code_simp
    obtain v where "prepared_request (via ?a demo_invocation) = Inr v"
      by (simp add: prepared_request_def p c(1) del: via_sel)
        (simp add: demo_invocation_def get_str_def str_or_empty_def require_def attach_provider_invocation_envelope_def Let_def)
    then show thesis using that a by (simp add: invoke_provider_def dispatch_def demo_plane_def)
  qed
  moreover have "invoker n ?a (via ?a demo_invocation) v = invoker n ?b (via ?b demo_invocation) v"
    if "pl_invoker demo_plane = Some invoker" for invoker n v
    using that by (auto simp: demo_plane_def)
  ultimately show ?thesis using route_not_disclosed[OF c, of demo_plane demo_b64] by auto
qed

subsection \<open>Sessions hand out their bytes once and in order\<close>

text \<open>A consumer reads and cancels in any order; the second component holds what it was given.\<close>

inductive session_step :: "stream_session \<times> stream_read list \<Rightarrow> stream_session \<times> stream_read list \<Rightarrow> bool" where
  ss_read: "read_next S = (Inr (Some r), S') \<Longrightarrow> session_step (S, rs) (S', rs @ [r])"
| ss_end: "read_next S = (Inr None, S') \<Longrightarrow> session_step (S, rs) (S', rs)"
| ss_fail: "read_next S = (Inl e, S') \<Longrightarrow> session_step (S, rs) (S', rs)"
| ss_cancel: "cancel S = (v, S') \<Longrightarrow> session_step (S, rs) (S', rs)"

definition delivered :: "stream_read list \<Rightarrow> bytes" where
  "delivered rs = concat (map sr_bytes rs)"

lemma delivered_snoc [simp]: "delivered (rs @ [r]) = delivered rs @ sr_bytes r"
  by (simp add: delivered_def)

definition session_inv :: "stream_session \<Rightarrow> stream_read list \<Rightarrow> bool" where
  "session_inv S rs =
     (ss_chunk_size S \<noteq> 0 \<and> ss_cursor S \<le> length (ss_bytes S) \<and> ss_read_index S = length rs
      \<and> delivered rs = take (ss_cursor S) (ss_bytes S)
      \<and> (\<forall>k < length rs. sr_index (rs ! k) = k \<and> sr_offset (rs ! k) = length (delivered (take k rs))
          \<and> 0 < length (sr_bytes (rs ! k)) \<and> length (sr_bytes (rs ! k)) \<le> ss_chunk_size S
          \<and> sr_completed (rs ! k) = (delivered (take (Suc k) rs) = ss_bytes S)))"

lemma read_next_Some:
  assumes "read_next S = (Inr (Some r), S')"
  shows "\<not> ss_cancelled S \<and> ss_cursor S < length (ss_bytes S)
    \<and> S' = S\<lparr>ss_cursor := min (ss_cursor S + ss_chunk_size S) (length (ss_bytes S)), ss_read_index := ss_read_index S + 1\<rparr>
    \<and> sr_index r = ss_read_index S \<and> sr_offset r = ss_cursor S
    \<and> sr_bytes r = take (ss_chunk_size S) (drop (ss_cursor S) (ss_bytes S))
    \<and> sr_completed r = (length (ss_bytes S) \<le> ss_cursor S + ss_chunk_size S)"
  using assms by (auto simp: read_next_def Let_def min_def split: if_splits)

lemma session_inv_read:
  assumes "read_next S = (Inr (Some r), S')" "session_inv S rs"
  shows "session_inv S' (rs @ [r])"
proof -
  note n = read_next_Some[OF assms(1)]
  let ?c = "ss_cursor S" and ?bs = "ss_bytes S" and ?s = "ss_chunk_size S"
  have d: "delivered rs = take ?c ?bs" and s: "?s \<noteq> 0" and l: "ss_read_index S = length rs"
    using assms(2) by (simp_all add: session_inv_def)
  have e: "delivered (rs @ [r]) = take (min (?c + ?s) (length ?bs)) ?bs"
    using n d by (simp add: take_add min_def)
  have f: "sr_completed r = (delivered (rs @ [r]) = ?bs)"
  proof -
    have "take m ?bs = ?bs \<longleftrightarrow> length ?bs \<le> m" for m by (metis length_take min.cobounded1 min.commute min_def take_all)
    then show ?thesis using n unfolding e by simp
  qed
  have last: "sr_offset r = length (delivered rs)" using n d by simp
  have len: "0 < length (sr_bytes r) \<and> length (sr_bytes r) \<le> ?s" using n s by simp
  show ?thesis
    unfolding session_inv_def
  proof (intro conjI allI impI)
    show "delivered (rs @ [r]) = take (ss_cursor S') (ss_bytes S')" using e n by simp
    fix k assume k: "k < length (rs @ [r])"
    have "sr_index ((rs @ [r]) ! k) = k \<and> sr_offset ((rs @ [r]) ! k) = length (delivered (take k (rs @ [r])))
      \<and> 0 < length (sr_bytes ((rs @ [r]) ! k)) \<and> length (sr_bytes ((rs @ [r]) ! k)) \<le> ?s
      \<and> sr_completed ((rs @ [r]) ! k) = (delivered (take (Suc k) (rs @ [r])) = ?bs)"
      using k assms(2) n l f last len by (cases "k = length rs") (auto simp: session_inv_def nth_append)
    then show "sr_index ((rs @ [r]) ! k) = k" "sr_offset ((rs @ [r]) ! k) = length (delivered (take k (rs @ [r])))"
      "0 < length (sr_bytes ((rs @ [r]) ! k))" "length (sr_bytes ((rs @ [r]) ! k)) \<le> ss_chunk_size S'"
      "sr_completed ((rs @ [r]) ! k) = (delivered (take (Suc k) (rs @ [r])) = ss_bytes S')"
      using n by simp_all
  qed (use n s l in simp_all)
qed

lemma session_step_inv: "\<lbrakk>session_step x y; session_inv (fst x) (snd x)\<rbrakk> \<Longrightarrow> session_inv (fst y) (snd y)"
proof (induction rule: session_step.induct)
  case (ss_read S r S' rs)
  then show ?case using session_inv_read by simp
next
  case (ss_end S S' rs)
  then show ?case by (auto simp: read_next_def Let_def split: if_splits)
next
  case (ss_fail S e S' rs)
  then show ?case by (auto simp: read_next_def Let_def split: if_splits)
next
  case (ss_cancel S v S' rs)
  then show ?case by (auto simp: cancel_def session_inv_def Let_def)
qed

lemma session_step_bytes: "session_step x y \<Longrightarrow> ss_bytes (fst y) = ss_bytes (fst x) \<and> ss_chunk_size (fst y) = ss_chunk_size (fst x)"
  by (induction rule: session_step.induct) (auto simp: read_next_def cancel_def Let_def split: if_splits)

text \<open>
  However a consumer reads and cancels, a session hands out its bytes in order and
  once: the chunks given so far, joined, are the bytes up to the cursor; the \<open>k\<close>-th of them has
  the index \<open>k\<close>, stands at the offset where those before it end, is neither empty nor longer
  than the chunk size, and is marked as the last exactly when the bytes are complete.
\<close>

theorem session_hands_out_in_order:
  assumes "session_step\<^sup>*\<^sup>* (S\<^sub>0, []) (S, rs)" and "ss_cursor S\<^sub>0 = 0" and "ss_read_index S\<^sub>0 = 0"
    and "ss_chunk_size S\<^sub>0 \<noteq> 0"
  shows "session_inv S rs \<and> ss_bytes S = ss_bytes S\<^sub>0 \<and> ss_chunk_size S = ss_chunk_size S\<^sub>0"
proof -
  have "session_inv (fst y) (snd y) \<and> ss_bytes (fst y) = ss_bytes S\<^sub>0 \<and> ss_chunk_size (fst y) = ss_chunk_size S\<^sub>0"
    if "session_step\<^sup>*\<^sup>* (S\<^sub>0, []) y" for y
    using that
  proof (induction rule: rtranclp_induct)
    case base
    then show ?case using assms(2-4) by (simp add: session_inv_def delivered_def)
  next
    case (step y z)
    then show ?case using session_step_inv session_step_bytes by metis
  qed
  from this[OF assms(1)] show ?thesis by simp
qed

definition demo_session :: stream_session where
  "demo_session = \<lparr>ss_id = ''s'', ss_source = ''a'', ss_target = ''b'', ss_op = ''o'', ss_request_id = ''r'',
     ss_bytes = [1, 2, 3], ss_cursor = 0, ss_read_index = 0, ss_chunk_size = 2, ss_max_in_flight = 1,
     ss_cancelled = False, ss_transfer_receipt = None\<rparr>"

theorem session_hands_out_in_order_witness:
  "\<exists>S rs. session_inv S rs \<and> map sr_bytes rs = [[1, 2], [3 :: u8]] \<and> ss_cancelled S"
proof -
  let ?r1 = "read_next demo_session"
  let ?r2 = "read_next (snd ?r1)"
  have a: "read_next demo_session = (Inr (Some (the (projr (fst ?r1)))), snd ?r1)"
    and b: "read_next (snd ?r1) = (Inr (Some (the (projr (fst ?r2)))), snd ?r2)"
    by (simp_all add: read_next_def demo_session_def Let_def)
  let ?rs = "[] @ [the (projr (fst ?r1))] @ [the (projr (fst ?r2))]"
  have "session_step\<^sup>*\<^sup>* (demo_session, []) (snd (cancel (snd ?r2)), ?rs)"
    using ss_read[OF a, of "[]"] ss_read[OF b, of "[] @ [the (projr (fst ?r1))]"]
      ss_cancel[of "snd ?r2" _ _ ?rs, OF prod.collapse[symmetric]]
    by (auto intro: rtranclp_trans r_into_rtranclp)
  from session_hands_out_in_order[OF this] have "session_inv (snd (cancel (snd ?r2))) ?rs"
    by (simp add: demo_session_def)
  moreover have "map sr_bytes ?rs = [[1, 2], [3]] \<and> ss_cancelled (snd (cancel (snd ?r2)))"
    by (simp add: read_next_def demo_session_def Let_def cancel_def)
  ultimately show ?thesis by (rule exI[of _ "snd (cancel (snd ?r2))", OF exI[of _ ?rs], OF conjI])
qed

subsection \<open>Draining a session\<close>

lemma drain_loop_rest:
  "\<lbrakk>ss_chunk_size S \<noteq> 0; \<not> ss_cancelled S\<rbrakk> \<Longrightarrow>
   \<exists>S'. drain_loop out S = Some (Inr (out @ drop (ss_cursor S) (ss_bytes S)), S')
     \<and> length (ss_bytes S) \<le> ss_cursor S' \<and> ss_bytes S' = ss_bytes S"
proof (induction "length (ss_bytes S) - ss_cursor S" arbitrary: S out rule: less_induct)
  case less
  show ?case
  proof (cases "length (ss_bytes S) \<le> ss_cursor S")
    case True
    then have "read_next S = (Inr None, S)" using less.prems by (simp add: read_next_def)
    then show ?thesis using True by (subst drain_loop.simps) simp
  next
    case False
    then obtain r S' where r: "read_next S = (Inr (Some r), S')"
      using less.prems by (auto simp: read_next_def Let_def)
    note n = read_next_Some[OF r]
    have "length (ss_bytes S') - ss_cursor S' < length (ss_bytes S) - ss_cursor S"
      using n False less.prems by auto
    then obtain S'' where s: "drain_loop (out @ sr_bytes r) S' = Some (Inr ((out @ sr_bytes r) @ drop (ss_cursor S') (ss_bytes S')), S'')"
      "length (ss_bytes S') \<le> ss_cursor S''" "ss_bytes S'' = ss_bytes S'"
      using less.hyps[of S' "out @ sr_bytes r"] n less.prems by auto
    have "drop (ss_cursor S') (ss_bytes S') = drop (ss_chunk_size S) (drop (ss_cursor S) (ss_bytes S))"
      using n by (simp add: add.commute min_def)
    then have "sr_bytes r @ drop (ss_cursor S') (ss_bytes S') = drop (ss_cursor S) (ss_bytes S)"
      using n by (simp only: append_take_drop_id)
    moreover have "drain_loop out S = drain_loop (out @ sr_bytes r) S'"
      by (subst drain_loop.simps) (simp add: r)
    ultimately show ?thesis using s n by simp
  qed
qed

text \<open>
  Property C23. Draining a session returns, whatever has been read before: with the error of a
  cancelled session, and otherwise with all the bytes that were not read yet, the session then
  standing at its end.
\<close>

theorem drain_returns_rest:
  assumes "ss_chunk_size S \<noteq> 0"
  shows "\<exists>S'. drain_to_vec S = Some
      (if ss_cancelled S then Inl (PProvider (''provider stream session '' @ ss_id S @ '' is cancelled''))
       else Inr (drop (ss_cursor S) (ss_bytes S)), S')
    \<and> (ss_cancelled S \<or> length (ss_bytes S) \<le> ss_cursor S')"
proof (cases "ss_cancelled S")
  case True
  then have "drain_loop [] S = Some (Inl (PProvider (''provider stream session '' @ ss_id S @ '' is cancelled'')), S)"
    by (subst drain_loop.simps) (simp add: read_next_def)
  then show ?thesis using True by (simp add: drain_to_vec_def)
next
  case False
  then show ?thesis using drain_loop_rest[OF assms False, of "[]"] by (auto simp: drain_to_vec_def)
qed

theorem drain_returns_rest_witness:
  "\<exists>S'. drain_to_vec (snd (read_next demo_session)) = Some (Inr [3], S') \<and> 3 \<le> ss_cursor S'"
  using drain_returns_rest[of "snd (read_next demo_session)"]
  by (simp add: read_next_def demo_session_def Let_def numeral_3_eq_3)

subsection \<open>From the provider to the consumer\<close>

lemma update_data_sel:
  "data_object v = Some d \<Longrightarrow> data_object (update_data f v) = Some (f d)"
  "data_object v = None \<Longrightarrow> update_data f v = v"
  "k \<noteq> ''data'' \<Longrightarrow> j_get k (update_data f v) = j_get k v"
  "k \<noteq> ''data'' \<Longrightarrow> get_str k (update_data f v) = get_str k v"
proof -
  show "data_object v = Some d \<Longrightarrow> data_object (update_data f v) = Some (f d)"
    by (cases v) (auto simp: data_object_def update_data_def update_conv')
  show "data_object v = None \<Longrightarrow> update_data f v = v" by (simp add: update_data_def)
  show k: "k \<noteq> ''data'' \<Longrightarrow> j_get k (update_data f v) = j_get k v" for k
    by (cases v) (auto simp: update_data_def update_conv' split: option.split)
  show "k \<noteq> ''data'' \<Longrightarrow> get_str k (update_data f v) = get_str k v" using k by (simp add: get_str_def)
qed

lemma data_object_update: "data_object (update_data f v) = map_option f (data_object v)"
  by (cases "data_object v") (simp_all add: update_data_sel)

lemma stream_bytes_delete:
  "k \<notin> {''stream'', ''data''} \<Longrightarrow> stream_response_bytes B (AList.delete k d) = stream_response_bytes B d"
  by (cases "map_of d ''stream''") (auto simp: stream_response_bytes_def delete_conv')

lemma decode_own_payload:
  assumes "base64_law B"
  shows "decode_chunks B m k bs (stream_chunks B k' n cs) = Inr out \<Longrightarrow> out = bs @ concat cs"
proof (induction cs arbitrary: k bs k' n)
  case (Cons c cs)
  obtain p where p: "chunk_ok B k (length bs) (hd (stream_chunks B k' n (c # cs))) p"
    "decode_chunks B m (Suc k) (bs @ p) (tl (stream_chunks B k' n (c # cs))) = Inr out"
    using decode_chunks_Cons[of B m k bs "hd (stream_chunks B k' n (c # cs))" "tl (stream_chunks B k' n (c # cs))" out]
      Cons.prems by (auto simp del: decode_chunks.simps)
  have "p = c" using p(1) assms by (auto simp: chunk_ok_def get_str_def base64_law_def)
  then show ?case using Cons.IH p(2) by fastforce
qed simp

lemma stream_bytes_own:
  assumes "base64_law B" "map_of d ''stream'' = Some (stream_payload B bs)" "stream_response_bytes B d = Inr out"
  shows "out = bs"
proof -
  have "decode_chunks B (2 ^ 64 - 1) 0 [] (stream_chunks B 0 0 (slice_chunks PROVIDER_STREAM_CHUNK_BYTES bs)) = Inr out"
    using assms(2,3) by (auto simp: stream_response_bytes_def decode_stream_payload_def stream_payload_def Let_def andthen_Inr
        split: option.splits if_splits)
  from decode_own_payload[OF assms(1) this] show ?thesis
    by (simp add: concat_slice_chunks PROVIDER_STREAM_CHUNK_BYTES_def)
qed

definition ranged :: "byte_range option \<Rightarrow> bytes \<Rightarrow> bytes" where
  "ranged r bs = (case r of None \<Rightarrow> bs | Some r \<Rightarrow> selected r bs)"

lemma apply_stream_delivers:
  assumes "apply_stream_response B v i = Inr v'" and "get_str ''status'' v \<noteq> Some ''error''"
    and "\<And>r e. in_byte_range i = Some r \<Longrightarrow> br_end r = Some e \<Longrightarrow> br_start r \<le> e"
  shows "\<exists>d bs f. data_object v = Some d \<and> stream_response_bytes B d = Inr bs \<and> v' = update_data f v
    \<and> map_of (f d) ''stream'' = Some (stream_payload B (ranged (in_byte_range i) bs))
    \<and> map_option unat (expected_bytes i) \<in> {None, Some (length (ranged (in_byte_range i) bs))}"
proof -
  obtain d bs bs' where d: "data_object v = Some d" and s: "stream_response_bytes B d = Inr bs"
    and r: "(case in_byte_range i of None \<Rightarrow> Inr bs
      | Some r \<Rightarrow> andthen (byte_range_bounds (length bs) r) (\<lambda>(a, b). Inr (inclusive_slice a b bs))) = Inr bs'"
    and c: "check_expected ''stream'' i bs' = Inr ()"
    and v: "v' = update_data (\<lambda>d. AList.update ''stream'' (stream_payload B bs')
            (if Option.bind (map_of d ''data'') j_str \<noteq> None then AList.delete ''data'' d else d)) v"
    using assms(1,2) by (auto simp: apply_stream_response_def andthen_Inr simp del: bind_eq_None_conv)
  have b: "bs' = ranged (in_byte_range i) bs"
  proof (cases "in_byte_range i")
    case (Some r')
    then have l: "unat (br_start r') < length bs" using r by (auto simp: andthen_Inr byte_range_bounds_def split: if_splits)
    obtain e where "byte_range_bounds (length bs) r' = Inr (unat (br_start r'), e)"
      "inclusive_slice (unat (br_start r')) e bs = selected r' bs"
      using byte_range_selected[of r' bs] assms(3)[OF Some] l by blast
    then show ?thesis using r Some by (simp add: ranged_def)
  qed (use r in \<open>simp add: ranged_def\<close>)
  have "map_option unat (expected_bytes i) \<in> {None, Some (length bs')}"
    using c by (auto simp: check_expected_def split: option.splits)
  then show ?thesis using d s v b by (intro exI[of _ d] exI[of _ bs] exI conjI) (auto simp: update_conv')
qed

lemma apply_transfer_delivers:
  assumes "apply_transfer_response B v i = Inr v'" and "in_transfer i = TrStream"
    and "get_str ''status'' v' \<noteq> Some ''error''" and "validate_transfer_contract i = Inr ()"
    and "bounded_read_range i = Inr bounded"
  shows "\<exists>d bs d'. data_object v = Some d \<and> stream_response_bytes B d = Inr bs \<and> data_object v' = Some d'
    \<and> map_of d' ''stream'' = Some (stream_payload B (ranged (if bounded = None then in_byte_range i else None) bs))
    \<and> map_option unat (expected_bytes i)
        \<in> {None, Some (length (ranged (if bounded = None then in_byte_range i else None) bs))}"
proof -
  define w where "w = update_data (AList.delete ''_runtime_applied_range'') (update_data (AList.delete ''_runtime_complete_metadata'') v)"
  obtain j v1 where j: "j = (if bounded = None then i else i\<lparr>in_byte_range := None\<rparr>) \<or> get_str ''status'' v = Some ''error''"
    and s: "apply_stream_response B w j = Inr v1" and v': "v' = redact_runtime_metadata v1"
    using assms(1,2,5)
    by (cases bounded; cases "get_str ''status'' v = Some ''error''")
      (auto simp: apply_transfer_response_def andthen_Inr Let_def take_data_def w_def update_data_sel(4) split: prod.splits)
  have st: "get_str ''status'' w = get_str ''status'' v" by (simp add: w_def update_data_sel(4))
  have ne: "get_str ''status'' v \<noteq> Some ''error''"
  proof
    assume e: "get_str ''status'' v = Some ''error''"
    then have "v1 = w" using s st by (simp add: apply_stream_response_def)
    then show False using e st v' assms(3) by (simp add: redact_runtime_metadata_def update_data_sel(4))
  qed
  then have j': "j = (if bounded = None then i else i\<lparr>in_byte_range := None\<rparr>)"
    using j by simp
  have rg: "br_start r \<le> e" if "in_byte_range j = Some r" "br_end r = Some e" for r e
    using that j' contract_range[OF assms(4)] by (auto split: if_splits)
  have nw: "get_str ''status'' w \<noteq> Some ''error''" using ne st by simp
  from apply_stream_delivers[OF s nw rg] obtain d0 bs f where d0: "data_object w = Some d0"
    "stream_response_bytes B d0 = Inr bs" "v1 = update_data f w"
    "map_of (f d0) ''stream'' = Some (stream_payload B (ranged (in_byte_range j) bs))"
    "map_option unat (expected_bytes j) \<in> {None, Some (length (ranged (in_byte_range j) bs))}"
    by blast
  obtain d where d: "data_object v = Some d"
    "d0 = AList.delete ''_runtime_applied_range'' (AList.delete ''_runtime_complete_metadata'' d)"
    using d0(1) by (auto simp: w_def data_object_update)
  have sb: "stream_response_bytes B d = Inr bs" using d0(2) d(2) by (simp add: stream_bytes_delete)
  have "data_object v1 = Some (f d0)" using d0(1,3) by (simp add: data_object_update)
  then obtain d' where d': "data_object v' = Some d'" "map_of d' ''stream'' = map_of (f d0) ''stream''"
    unfolding v' redact_runtime_metadata_def
    by (auto simp: data_object_update update_conv' split: option.splits json.splits)
  have jr: "in_byte_range j = (if bounded = None then in_byte_range i else None)" "expected_bytes j = expected_bytes i"
    using j' by (simp_all add: expected_bytes_def)
  show ?thesis using d(1) sb d' d0(4,5) unfolding jr by auto
qed

text \<open>
  What a consumer drains from a stream is what the provider sent. When a stream
  opens, one request was answered, by the provider or the peer; the answer carried bytes, as
  chunks or in one piece; the bytes of the session are these bytes, cut to the range that was
  asked for unless the backend has applied it, as many as were expected; and draining the session
  gives them all, in chunks of at least one and at most 64 KiB.
\<close>

theorem open_stream_delivers:
  assumes "base64_law B" and "open_provider_stream B i opts P = (Inr S, P')"
  shows "\<exists>request response d bs bounded. let i' = i\<lparr>in_transfer := TrStream\<rparr>;
      out = ranged (if bounded = None then in_byte_range i else None) bs in
    prepared_request i' = Inr request \<and> fst (dispatch i' request P) = Inr response
    \<and> data_object response = Some d \<and> stream_response_bytes B d = Inr bs
    \<and> bounded_read_range i' = Inr bounded \<and> ss_bytes S = out
    \<and> map_option unat (expected_bytes i) \<in> {None, Some (length out)}
    \<and> map_option fst (drain_to_vec S) = Some (Inr out)
    \<and> 1 \<le> ss_chunk_size S \<and> ss_chunk_size S \<le> PROVIDER_STREAM_CHUNK_BYTES"
proof -
  let ?i = "i\<lparr>in_transfer := TrStream\<rparr>"
  obtain q P1 where inv: "invoke_provider B ?i P = (q, P1)" by fastforce
  obtain v2 d2 out where q: "q = Inr v2" and st: "get_str ''status'' v2 \<noteq> Some ''error''"
    and d2: "data_object v2 = Some d2" "stream_response_bytes B d2 = Inr out"
    and S: "ss_bytes S = out" "ss_cursor S = 0" "\<not> ss_cancelled S" "1 \<le> ss_chunk_size S"
      "ss_chunk_size S \<le> PROVIDER_STREAM_CHUNK_BYTES"
    using assms(2) by (auto simp: open_provider_stream_def Let_def inv andthen_Inr PROVIDER_STREAM_CHUNK_BYTES_def
        split: sum.splits if_splits prod.splits)
  obtain request where rq: "prepared_request ?i = Inr request"
    using inv q by (auto simp: invoke_provider_def split: sum.splits)
  obtain v v1 where v: "fst (dispatch ?i request P) = Inr v" "apply_transfer_response B v ?i = Inr v1"
    "v2 = attach_provider_transfer_receipt v1 ?i ''completed''"
    using inv q rq by (auto simp: invoke_provider_def andthen_Inr split: prod.splits)
  have sel: "get_str ''status'' v1 = get_str ''status'' v2" "data_object v1 = data_object v2"
    unfolding v(3) attach_provider_transfer_receipt_def
    by (cases v1; simp add: get_str_def data_object_def update_conv')+
  obtain bounded where b: "bounded_read_range ?i = Inr bounded" "validate_transfer_contract ?i = Inr ()"
    using rq by (auto simp: prepared_request_def andthen_Inr split: option.splits)
  have "get_str ''status'' v1 \<noteq> Some ''error''" using st sel by simp
  from apply_transfer_delivers[OF v(2) _ this b(2,1)] obtain d bs where
    d: "data_object v = Some d" "stream_response_bytes B d = Inr bs"
      "map_of d2 ''stream'' = Some (stream_payload B (ranged (if bounded = None then in_byte_range i else None) bs))"
      "map_option unat (expected_bytes i) \<in> {None, Some (length (ranged (if bounded = None then in_byte_range i else None) bs))}"
    using d2(1) sel(2) by (auto simp: expected_bytes_def)
  have o: "out = ranged (if bounded = None then in_byte_range i else None) bs"
    by (rule stream_bytes_own[OF assms(1) d(3) d2(2)])
  obtain S' where "drain_loop [] S = Some (Inr ([] @ drop (ss_cursor S) (ss_bytes S)), S')"
    using drain_loop_rest[of S "[]"] S(3,4) by auto
  then have dr: "map_option fst (drain_to_vec S) = Some (Inr out)" using S(1,2) by (simp add: drain_to_vec_def)
  show ?thesis
    unfolding Let_def
    using rq v(1) d(1,2) b(1) d(4) dr S(1,4,5) unfolding o by blast
qed

theorem open_stream_delivers_witness:
  "\<exists>S P'. open_provider_stream demo_b64
      (demo_invocation\<lparr>in_byte_range := Some \<lparr>br_start = 1, br_end = None\<rparr>\<rparr>) default_stream_options
      (demo_plane\<lparr>pl_invoker := None, pl_registry := demo_registry\<lparr>
         reg_sub := [(''content'', Ready (demo_provider 2) CapsuleResource)],
         pv_raw := (\<lambda>n w v. Inr (JObj [(''status'', JStr ''ok''), (''data'', JObj [(''data'', JStr ''010203'')])]))\<rparr>\<rparr>)
      = (Inr S, P') \<and> ss_bytes S = [2, 3] \<and> map_option fst (drain_to_vec S) = Some (Inr [2, 3])"
proof -
  let ?i = "demo_invocation\<lparr>in_byte_range := Some \<lparr>br_start = 1, br_end = None\<rparr>\<rparr>"
  let ?v = "JObj [(''status'', JStr ''ok''), (''data'', JObj [(''data'', JStr ''010203'')])]"
  let ?P = "demo_plane\<lparr>pl_invoker := None, pl_registry := demo_registry\<lparr>
         reg_sub := [(''content'', Ready (demo_provider 2) CapsuleResource)], pv_raw := (\<lambda>n w v. Inr ?v)\<rparr>\<rparr>"
  let ?j = "?i\<lparr>in_transfer := TrStream\<rparr>"
  let ?out = "JObj [(''status'', JStr ''ok''), (''data'', JObj [(''stream'', stream_payload demo_b64 [2, 3])])]"
  have rf: "refused_invocation ?j = None"
    by (simp add: refused_invocation_def demo_invocation_def trim_graphic graphic_def get_str_def str_or_empty_def
        private_provider_configuration_def private_ipfs_operation_def)
  have ck: "validate_transfer_contract ?j = Inr ()" "bounded_read_range ?j = Inr None" "bounded_metadata_max ?j = Inr None"
    by code_simp+
  obtain request where rq: "prepared_request ?j = Inr request" and op: "get_str ''op'' request = Some ''fetch''"
    using rf ck by (simp add: prepared_request_def)
      (simp add: demo_invocation_def get_str_def str_or_empty_def require_def attach_provider_invocation_envelope_def Let_def)
  have lo: "lower ''content'' = ''content''" "to_lowercase ''content'' = ''content''" by code_simp+
  have dp: "fst (dispatch ?j request ?P) = Inr ?v"
    by (simp add: dispatch_def demo_invocation_def demo_plane_def send_raw_with_target_visibility_def raw_refused_def
        private_provider_configuration_def op str_or_empty_def private_ipfs_operation_def raw_target_def lo hm_get_def
        call_raw_def split: option.split)
  have rb: "stream_response_bytes demo_b64 [(''data'', JStr ''010203'')] = Inr [1, 2, 3]" by code_simp
  have ap: "apply_transfer_response demo_b64 ?v ?j = Inr ?out"
    by (simp add: apply_transfer_response_def ck take_data_def data_object_def update_data_def get_str_def require_def)
      (simp add: demo_invocation_def apply_stream_response_def get_str_def data_object_def ok_or_def rb byte_range_bounds_def
        inclusive_slice_def check_expected_def expected_bytes_def update_data_def redact_runtime_metadata_def)
  let ?r = "attach_provider_transfer_receipt ?out ?j ''completed''"
  have iv: "fst (invoke_provider demo_b64 ?j ?P) = Inr ?r"
    unfolding invoke_provider_def rq sum.case prod.case_eq_if fst_conv Let_def dp andthen_simps ap by (rule refl)
  have own: "decode_stream_payload demo_b64 (stream_payload demo_b64 [2, 3]) (2 ^ 64 - 1) = Inr [2, 3]"
    using decode_stream_chunks[OF demo_base64_law, of "[]" "[[2, 3]]" 0 "2 ^ 64 - 1"]
    by (simp add: decode_stream_payload_def stream_payload_def Let_def require_def ok_or_def get_str_def str_or_empty_def
        PROVIDER_STREAM_CHUNK_BYTES_def slice_chunks.simps)
  have at: "get_str ''status'' ?r = Some ''ok''" "data_object ?r = Some [(''stream'', stream_payload demo_b64 [2, 3])]"
    by (simp_all add: attach_provider_transfer_receipt_def get_str_def data_object_def)
  have sr: "stream_response_bytes demo_b64 [(''stream'', stream_payload demo_b64 [2, 3])] = Inr [2, 3]"
    unfolding stream_response_bytes_def using own by simp
  have "\<exists>S P'. open_provider_stream demo_b64 ?i default_stream_options ?P = (Inr S, P')"
    unfolding open_provider_stream_def Let_def prod.case_eq_if iv andthen_simps at ok_or_def option.case sr sum.case
    by (simp add: at)
  then obtain S P' where o: "open_provider_stream demo_b64 ?i default_stream_options ?P = (Inr S, P')" by blast
  have "ss_bytes S = [2, 3] \<and> map_option fst (drain_to_vec S) = Some (Inr [2, 3])"
    using open_stream_delivers[OF demo_base64_law o] rq dp ck(2)
    by (auto simp: data_object_def rb ranged_def selected_def demo_invocation_def Let_def)
  with o show ?thesis by blast
qed

end
