(* ===== verification/Manifest.thy ===== *)
theory Manifest
  imports Externals Localhost Audit_Log "HOL-Library.List_Lexorder" "HOL-Library.Char_ord"
begin

section \<open>Capsule manifests\<close>

text \<open>
  \<^verbatim>\<open>elastos-common/src/manifest.rs\<close>: the manifest of a capsule and its validation, which
  decides what a package may declare before anything runs. A manifest here is one that has been
  read from JSON; the validation below is what \<^verbatim>\<open>validate\<close> does then, error texts included.
  The text of the component interface, a file of the repository that the code embeds, is the
  parameter \<open>wit\<close>.
\<close>

subsection \<open>The data\<close>

datatype capsule_type = Wasm | WebProjection | NativeProvider | NativeHost | MicroVM | Oci | Media | Data

datatype runtime_abi = AbiNativeHost | ProviderStdioV1 | WasiPreview1 | RuntimeProjectionV1 | ElastosComponentV1
  | MicrovmLinux | AbiData

datatype execution = ExNativeHost | ExNativeProvider | ExWasiReceipt | ExWasiApp | ExWebProjection | ExComponent
  | ExMicrovm | ExData

datatype window_policy = Single | Multiple | Hybrid

datatype projection = PjWeb | PjCli | PjTerminal | PjFacts | PjAffordances | PjGates | PjAuditMirror | PjCarrier
  | PjContent

fun projection_str :: "projection \<Rightarrow> string" where
  "projection_str PjWeb = ''web''"
| "projection_str PjCli = ''cli''"
| "projection_str PjTerminal = ''terminal''"
| "projection_str PjFacts = ''facts''"
| "projection_str PjAffordances = ''affordances''"
| "projection_str PjGates = ''gates''"
| "projection_str PjAuditMirror = ''audit-mirror''"
| "projection_str PjCarrier = ''carrier''"
| "projection_str PjContent = ''content''"

datatype role = Shell | App | Viewer | Provider | Content

definition is_shell_launchable :: "role \<Rightarrow> bool" where
  "is_shell_launchable r = (r \<in> {Shell, App, Viewer})"

definition is_content :: "role \<Rightarrow> bool" where
  "is_content r = (r = Content)"

definition is_app_viewer_or_content :: "role \<Rightarrow> bool" where
  "is_app_viewer_or_content r = (r \<in> {App, Viewer, Content})"

fun role_str :: "role \<Rightarrow> string" where
  "role_str Shell = ''shell''"
| "role_str App = ''app''"
| "role_str Viewer = ''viewer''"
| "role_str Provider = ''provider''"
| "role_str Content = ''content''"

record model_license =
  ml_spdx_id :: string
  ml_path :: string

record model_provenance =
  mp_base_repository :: string
  mp_base_revision :: string
  mp_base_license :: model_license
  mp_quantized_repository :: string
  mp_quantized_revision :: string
  mp_path :: string

record model_content =
  mc_format :: string
  mc_quantization :: string
  mc_engine :: string
  mc_consumer_interface :: string
  mc_consumer_interface_version :: string
  mc_minimum_memory_mb :: u32
  mc_license :: model_license
  mc_provenance :: model_provenance

datatype requirement_kind = RkCapsule | RkExternal

record requirement =
  rqm_name :: string
  rqm_kind :: requirement_kind

datatype approval_mode = ApNone | RuntimePolicy | User

datatype risk = RiskRead | RiskWrite | RiskLaunch | RiskPayment | RiskRights | RiskActuator | RiskPrivileged

datatype audit_mode = AuNone | Summary | Event | Full

record affordance =
  af_id :: string
  af_description :: "string option"
  af_risk :: risk
  af_approval :: approval_mode
  af_audit :: audit_mode
  af_resource :: "string option"
  af_operation :: "string option"
  af_input_schema :: "json option"
  af_output_schema :: "json option"

record interface_descriptor =
  if_id :: string
  if_version :: string
  if_description :: "string option"
  if_methods :: "affordance list"

record capability_schema =
  cs_resource :: string
  cs_actions :: "string list"
  cs_operations :: "string list"

record provider_authority =
  pa_reason :: string
  pa_capabilities :: "capability_schema list"
  pa_audit_events :: "string list"

record capsule_resources =
  rs_memory_mb :: u32
  rs_cpu_shares :: u32
  rs_gpu :: bool

definition capsule_resources_default :: capsule_resources where
  "capsule_resources_default = \<lparr>rs_memory_mb = 64, rs_cpu_shares = 100, rs_gpu = False\<rparr>"

record permissions =
  pm_host_process :: bool
  pm_guest_network :: bool
  pm_storage :: "string list"
  pm_messaging :: "string list"

definition permissions_default :: permissions where
  "permissions_default = \<lparr>pm_host_process = False, pm_guest_network = False, pm_storage = [], pm_messaging = []\<rparr>"

record microvm_config =
  vm_kernel :: "string option"
  vm_boot_args :: string
  vm_http_port :: "16 word option"
  vm_vcpu_count :: "u8 option"
  vm_rootfs_cid :: "string option"
  vm_kernel_cid :: "string option"
  vm_rootfs_size :: "u64 option"
  vm_persistent_storage_mb :: "u32 option"

definition default_boot_args :: string where
  "default_boot_args = ''console=ttyS0 reboot=k panic=1 init=/init''"

record manifest =
  mf_schema :: string
  mf_version :: string
  mf_name :: string
  mf_description :: "string option"
  mf_author :: "string option"
  mf_role :: role
  mf_capsule_type :: capsule_type
  mf_runtime_abi :: "runtime_abi option"
  mf_bus_contract :: "string option"
  mf_wit_world_sha256 :: "string option"
  mf_execution :: "execution option"
  mf_projections :: "projection list"
  mf_window_policy :: "window_policy option"
  mf_model_content :: "model_content option"
  mf_entrypoint :: string
  mf_requires :: "requirement list"
  mf_provides :: "string option"
  mf_authority :: "provider_authority option"
  mf_capabilities :: "string list"
  mf_interfaces :: "interface_descriptor list"
  mf_resources :: capsule_resources
  mf_permissions :: permissions
  mf_microvm :: "microvm_config option"
  mf_providers :: "(string, string) hmap option"
  mf_icon :: "string option"
  mf_viewer :: "string option"
  mf_signature :: "string option"

definition SCHEMA_V1 :: string where
  "SCHEMA_V1 = ''elastos.capsule/v1''"

definition ELASTOS_BUS_V1_CONTRACT :: string where
  "ELASTOS_BUS_V1_CONTRACT = ''elastos:bus@v1''"

definition ELASTOS_BUS_V1_WORLD :: string where
  "ELASTOS_BUS_V1_WORLD = ''product-capsule-v1''"

definition ELASTOS_RUNTIME_PROJECTION_V1_CONTRACT :: string where
  "ELASTOS_RUNTIME_PROJECTION_V1_CONTRACT = ''elastos.runtime-projection/v1''"

definition elastos_bus_v1_wit_sha256 :: "externals \<Rightarrow> bytes \<Rightarrow> string" where
  "elastos_bus_v1_wit_sha256 X wit = hex_encode X (sha256 X wit)"

subsection \<open>Text checks\<close>

text \<open>\<^verbatim>\<open>s.chars().any(..)\<close> for a class of characters given by their UTF-8 sequences.\<close>

definition has_char_of :: "string list \<Rightarrow> string \<Rightarrow> bool" where
  "has_char_of seqs s = list_ex (\<lambda>w. find_sub w s \<noteq> None) seqs"

text \<open>\<^verbatim>\<open>char::is_control\<close>: below space, DEL, and U+0080 to U+009F.\<close>

definition control_seqs :: "string list" where
  "control_seqs = map (\<lambda>n. [char_of n]) ([0 ..< 32] @ [127 :: nat]) @ map (\<lambda>n. [char_of (194 :: nat), char_of n]) [128 ..< 160]"

definition in_quotes :: "string \<Rightarrow> string" where
  "in_quotes s = [CHR 0x22] @ s @ [CHR 0x22]"

definition is_allowed_uri_scheme :: "string \<Rightarrow> bool" where
  "is_allowed_uri_scheme uri = is_supported_resource_scheme uri"

definition validate_descriptor_id :: "string \<Rightarrow> string \<Rightarrow> string + unit" where
  "validate_descriptor_id kind v = first_refusal [
     (trim v = [], kind @ '' must not be empty''),
     (trim v \<noteq> v, kind @ '' must not contain surrounding whitespace''),
     (length v > 128, kind @ '' must be 128 bytes or shorter''),
     (has_char_of (control_seqs @ ws_seqs) v, kind @ '' must not contain whitespace or control characters'')]"

definition is_lower_hex :: "char \<Rightarrow> bool" where
  "is_lower_hex c = (c \<in> set ''0123456789abcdef'')"

definition validate_sha256_hex :: "string \<Rightarrow> string \<Rightarrow> string + unit" where
  "validate_sha256_hex kind v = first_refusal [
     (length v \<noteq> 64, kind @ '' must be a 64-character SHA-256 hex digest''),
     (\<not> list_all is_lower_hex v, kind @ '' must use lowercase SHA-256 hex'')]"

definition validate_json_schema :: "string \<Rightarrow> json option \<Rightarrow> string + unit" where
  "validate_json_schema kind schema = (case schema of
       None \<Rightarrow> Inr () | Some (JObj _) \<Rightarrow> Inr () | Some (JBool _) \<Rightarrow> Inr ()
     | Some _ \<Rightarrow> Inl (kind @ '' schema must be a JSON object or boolean''))"

definition ascii_alnum :: "char \<Rightarrow> bool" where
  "ascii_alnum c = (let n = of_char c :: nat in
     (48 \<le> n \<and> n \<le> 57) \<or> (65 \<le> n \<and> n \<le> 90) \<or> (97 \<le> n \<and> n \<le> 122))"

definition ends_with :: "string \<Rightarrow> string \<Rightarrow> bool" where
  "ends_with s w = suffix w s"

definition model_path_part_ok :: "string \<Rightarrow> bool" where
  "model_path_part_ok part = (part \<noteq> [] \<and> part \<noteq> ''.'' \<and> part \<noteq> ''..'' \<and> \<not> ends_with part ''.''
     \<and> list_all (\<lambda>c. ascii_alnum c \<or> c \<in> set ''._-'') part)"

definition validate_model_content_path :: "string \<Rightarrow> string + unit" where
  "validate_model_content_path p = first_refusal [
     (p = [] \<or> length p > 256 \<or> \<not> list_all model_path_part_ok (split_on CHR ''/'' p),
      ''model_content path must be a bounded canonical relative path'')]"

definition traverses :: "string \<Rightarrow> bool" where
  "traverses p = (find_sub ''..'' p \<noteq> None)"

definition absolute :: "string \<Rightarrow> bool" where
  "absolute p = (prefix ''/'' p \<or> prefix [CHR 0x5C] p)"

subsection \<open>Interfaces and authority\<close>

definition validate_affordance :: "string \<Rightarrow> affordance \<Rightarrow> string + unit" where
  "validate_affordance interface_id a =
     andthen (validate_descriptor_id ''method id'' (af_id a)) (\<lambda>_.
     andthen (case af_resource a of None \<Rightarrow> Inr ()
       | Some resource \<Rightarrow> require (is_allowed_uri_scheme resource) (''interface '' @ interface_id @ '' method ''
           @ af_id a @ '' resource '' @ resource
           @ '' uses an unsupported URI scheme; allowed: elastos://, localhost://'')) (\<lambda>_.
     andthen (case af_operation a of None \<Rightarrow> Inr ()
       | Some operation \<Rightarrow> validate_descriptor_id ''method operation'' operation) (\<lambda>_.
     andthen (validate_json_schema (''interface '' @ interface_id @ '' method '' @ af_id a @ '' input'') (af_input_schema a)) (\<lambda>_.
     validate_json_schema (''interface '' @ interface_id @ '' method '' @ af_id a @ '' output'') (af_output_schema a)))))"

text \<open>A loop that validates each element and refuses one whose key has occurred.\<close>

fun validate_unique :: "('a \<Rightarrow> 'e + unit) \<Rightarrow> ('a \<Rightarrow> 'k) \<Rightarrow> ('a \<Rightarrow> 'e) \<Rightarrow> 'k set \<Rightarrow> 'a list \<Rightarrow> 'e + unit" where
  "validate_unique check key dup seen [] = Inr ()"
| "validate_unique check key dup seen (x # xs) =
     andthen (check x) (\<lambda>_. if key x \<in> seen then Inl (dup x)
       else validate_unique check key dup (insert (key x) seen) xs)"

definition validate_interface :: "interface_descriptor \<Rightarrow> string + unit" where
  "validate_interface i =
     andthen (validate_descriptor_id ''interface id'' (if_id i)) (\<lambda>_.
     andthen (first_refusal [
       (trim (if_version i) = [], ''interface '' @ if_id i @ '' version must not be empty''),
       (if_methods i = [], ''interface '' @ if_id i @ '' must declare at least one method'')]) (\<lambda>_.
     validate_unique (validate_affordance (if_id i)) af_id
       (\<lambda>a. ''interface '' @ if_id i @ '' declares duplicate method id '' @ af_id a) {} (if_methods i)))"

definition validate_interfaces :: "manifest \<Rightarrow> string + unit" where
  "validate_interfaces m = validate_unique validate_interface if_id
     (\<lambda>i. ''manifest declares duplicate interface id '' @ if_id i) {} (mf_interfaces m)"

definition validate_capability_schema :: "capability_schema \<Rightarrow> string + unit" where
  "validate_capability_schema c =
     andthen (first_refusal [
       (\<not> is_allowed_uri_scheme (cs_resource c), ''unsupported URI scheme in provider authority resource ''
          @ in_quotes (cs_resource c) @ ''; allowed: elastos://, localhost://''),
       (cs_actions c = [], ''provider authority capability must declare actions''),
       (cs_operations c = [], ''provider authority capability must declare operations'')]) (\<lambda>_.
     andthen (for_each (\<lambda>a. require (a \<in> {''read'', ''write'', ''execute'', ''delete'', ''message'', ''admin''})
         (''unsupported provider authority action '' @ in_quotes a)) (cs_actions c)) (\<lambda>_.
     for_each (\<lambda>operation. require (trim operation \<noteq> []) ''provider authority operation must not be empty'')
       (cs_operations c)))"

definition validate_authority :: "provider_authority \<Rightarrow> string + unit" where
  "validate_authority a =
     andthen (first_refusal [
       (trim (pa_reason a) = [], ''provider authority reason must not be empty''),
       (pa_capabilities a = [], ''provider authority must declare at least one capability schema''),
       (pa_audit_events a = [], ''provider authority must declare expected audit events'')]) (\<lambda>_.
     andthen (for_each validate_capability_schema (pa_capabilities a)) (\<lambda>_.
     for_each (\<lambda>event. require (trim event \<noteq> []) ''provider authority audit event must not be empty'')
       (pa_audit_events a)))"

subsection \<open>The execution boundary\<close>

definition is_v1 :: "manifest \<Rightarrow> bool" where
  "is_v1 m = (mf_schema m = SCHEMA_V1)"

definition is_component_capsule :: "manifest \<Rightarrow> bool" where
  "is_component_capsule m = (mf_runtime_abi m = Some ElastosComponentV1 \<or> mf_execution m = Some ExComponent
     \<or> mf_bus_contract m = Some ELASTOS_BUS_V1_CONTRACT)"

definition is_runtime_projection :: "manifest \<Rightarrow> bool" where
  "is_runtime_projection m = (mf_runtime_abi m = Some RuntimeProjectionV1 \<or> mf_execution m = Some ExWebProjection
     \<or> mf_bus_contract m = Some ELASTOS_RUNTIME_PROJECTION_V1_CONTRACT)"

definition execution_type :: "manifest \<Rightarrow> capsule_type" where
  "execution_type m =
     (if is_runtime_projection m then WebProjection
      else if mf_role m = Provider \<and> mf_capsule_type m \<in> {Wasm, MicroVM} \<and> \<not> is_component_capsule m
      then NativeProvider
      else if mf_role m = Shell \<and> mf_name m = ''shell'' \<and> mf_capsule_type m = MicroVM
        \<and> mf_entrypoint m = ''rootfs.ext4'' then NativeHost
      else mf_capsule_type m)"

definition effective_execution :: "manifest \<Rightarrow> execution option" where
  "effective_execution m = (case execution_type m of
       WebProjection \<Rightarrow> Some ExWebProjection
     | NativeProvider \<Rightarrow> Some ExNativeProvider
     | NativeHost \<Rightarrow> Some ExNativeHost
     | _ \<Rightarrow> mf_execution m)"

text \<open>\<^verbatim>\<open>BTreeSet\<close> of strings, in order.\<close>

definition resource_authority_bounds :: "manifest \<Rightarrow> string list" where
  "resource_authority_bounds m = sorted_list_of_set (set (mf_capabilities m) \<union> set (pm_storage (mf_permissions m)))"

definition validate_component :: "externals \<Rightarrow> bytes \<Rightarrow> manifest \<Rightarrow> string + unit" where
  "validate_component X wit m = (let expected_hash = elastos_bus_v1_wit_sha256 X wit in first_refusal [
     (mf_capsule_type m \<noteq> Wasm, ''component capsules must use type=wasm''),
     (mf_runtime_abi m \<noteq> Some ElastosComponentV1,
      ''component capsules must declare runtime_abi='' @ in_quotes ''elastos.component/v1''),
     (mf_execution m \<noteq> Some ExComponent, ''component capsules must declare execution='' @ in_quotes ''component''),
     (mf_bus_contract m \<noteq> Some ELASTOS_BUS_V1_CONTRACT,
      ''component capsules must declare bus_contract='' @ in_quotes ELASTOS_BUS_V1_CONTRACT),
     (mf_wit_world_sha256 m \<noteq> Some expected_hash,
      ''component capsules must declare wit_world_sha256='' @ in_quotes expected_hash @ '' for '' @ ELASTOS_BUS_V1_WORLD)])"

definition validate_projection :: "manifest \<Rightarrow> string + unit" where
  "validate_projection m = first_refusal [
     (mf_capsule_type m \<notin> {Wasm, WebProjection},
      ''web projection capsules must use type=wasm (legacy) or web-projection''),
     (mf_role m \<notin> {App, Viewer, Shell}, ''web projection capsules require an app, viewer or shell role''),
     (mf_execution m \<noteq> Some ExWebProjection, ''web projection capsules must declare execution=web-projection''),
     (mf_microvm m \<noteq> None \<or> mf_wit_world_sha256 m \<noteq> None,
      ''web projection capsules cannot declare microVM or component metadata''),
     (mf_runtime_abi m \<noteq> Some RuntimeProjectionV1,
      ''web projection capsules must declare runtime_abi='' @ in_quotes ''elastos.runtime-projection/v1''),
     (mf_bus_contract m \<noteq> Some ELASTOS_RUNTIME_PROJECTION_V1_CONTRACT,
      ''web projection capsules must declare bus_contract='' @ in_quotes ELASTOS_RUNTIME_PROJECTION_V1_CONTRACT),
     (PjWeb \<notin> set (mf_projections m), ''web projection capsules must declare a web projection'')]"

definition validate_native_provider :: "manifest \<Rightarrow> string + unit" where
  "validate_native_provider m = first_refusal [
     (mf_capsule_type m \<noteq> NativeProvider \<or> mf_role m \<noteq> Provider \<or> mf_execution m \<noteq> Some ExNativeProvider
        \<or> mf_runtime_abi m \<noteq> Some ProviderStdioV1,
      ''native providers require role=provider, type=native-provider, execution=native-provider and runtime_abi=elastos.provider-stdio/v1''),
     (mf_microvm m \<noteq> None \<or> mf_bus_contract m \<noteq> None \<or> mf_wit_world_sha256 m \<noteq> None,
      ''native providers cannot declare microVM, component or projection execution metadata'')]"

definition validate_execution_metadata :: "externals \<Rightarrow> bytes \<Rightarrow> manifest \<Rightarrow> string + unit" where
  "validate_execution_metadata X wit m =
     andthen (case mf_bus_contract m of None \<Rightarrow> Inr () | Some c \<Rightarrow> validate_descriptor_id ''bus_contract'' c) (\<lambda>_.
     andthen (case mf_wit_world_sha256 m of None \<Rightarrow> Inr () | Some h \<Rightarrow> validate_sha256_hex ''wit_world_sha256'' h) (\<lambda>_.
     andthen (first_refusal [
       (mf_runtime_abi m = Some WasiPreview1, ''WASI Preview 1 is not a supported product capsule ABI; use elastos.component/v1 or elastos.runtime-projection/v1''),
       (mf_execution m \<in> {Some ExWasiReceipt, Some ExWasiApp},
        ''WASI Preview 1 execution metadata is not supported for product capsules'')]) (\<lambda>_.
     andthen (validate_unique (\<lambda>_. Inr ()) projection_str
       (\<lambda>p. ''manifest declares duplicate projection '' @ projection_str p) {} (mf_projections m)) (\<lambda>_.
     andthen (require (\<not> (mf_role m = Content \<and> list_ex (\<lambda>p. p \<noteq> PjContent) (mf_projections m)))
       ''content capsules may only declare content projection metadata'') (\<lambda>_.
     andthen (if is_component_capsule m then validate_component X wit m else Inr ()) (\<lambda>_.
     andthen (if mf_capsule_type m = WebProjection \<or> is_runtime_projection m then validate_projection m else Inr ()) (\<lambda>_.
     andthen (if mf_capsule_type m = NativeProvider \<or> mf_execution m = Some ExNativeProvider
           \<or> mf_runtime_abi m = Some ProviderStdioV1 then validate_native_provider m else Inr ()) (\<lambda>_.
     first_refusal [
       ((mf_capsule_type m = NativeHost \<or> mf_execution m = Some ExNativeHost \<or> mf_runtime_abi m = Some AbiNativeHost)
          \<and> (mf_capsule_type m \<noteq> NativeHost \<or> mf_execution m \<noteq> Some ExNativeHost
            \<or> mf_runtime_abi m \<noteq> Some AbiNativeHost \<or> mf_role m \<noteq> Shell \<or> mf_name m \<noteq> ''shell''
            \<or> mf_entrypoint m \<noteq> ''shell'' \<or> mf_microvm m \<noteq> None \<or> mf_bus_contract m \<noteq> None
            \<or> mf_wit_world_sha256 m \<noteq> None \<or> mf_projections m \<noteq> []),
        ''native-host metadata describes only the existing trusted shell helper: role=shell, name=shell, entrypoint=shell, type/execution/runtime_abi=native-host''),
       ((mf_execution m = Some ExMicrovm \<or> mf_runtime_abi m = Some MicrovmLinux \<or> mf_microvm m \<noteq> None)
          \<and> mf_capsule_type m \<noteq> MicroVM, ''microVM execution metadata requires type=microvm''),
       ((mf_execution m = Some ExData \<or> mf_runtime_abi m = Some AbiData) \<and> mf_capsule_type m \<noteq> Data,
        ''data execution metadata requires type=data'')]))))))))"

subsection \<open>Model packages\<close>

definition validate_model_content :: "manifest \<Rightarrow> model_content \<Rightarrow> string + unit" where
  "validate_model_content m c =
     andthen (first_refusal [
       (mf_role m \<noteq> Content \<or> mf_capsule_type m \<noteq> Data \<or> mf_runtime_abi m \<noteq> None \<or> mf_execution m \<noteq> None
          \<or> mf_bus_contract m \<noteq> None \<or> mf_wit_world_sha256 m \<noteq> None \<or> mf_viewer m \<noteq> None \<or> mf_microvm m \<noteq> None
          \<or> mf_providers m \<noteq> None \<or> mf_authority m \<noteq> None \<or> mf_provides m \<noteq> None \<or> mf_requires m \<noteq> []
          \<or> mf_capabilities m \<noteq> [] \<or> mf_interfaces m \<noteq> [] \<or> pm_host_process (mf_permissions m)
          \<or> pm_guest_network (mf_permissions m) \<or> pm_storage (mf_permissions m) \<noteq> []
          \<or> pm_messaging (mf_permissions m) \<noteq> [],
        ''model_content requires passive content/data without execution authority''),
       (mc_format c \<noteq> ''gguf'' \<or> mc_quantization c \<notin> {''Q1_0'', ''Q4_K_M'', ''Q8_0''} \<or> mc_engine c \<noteq> ''llama.cpp''
          \<or> mc_consumer_interface c \<noteq> ''elastos.provider.model'' \<or> mc_consumer_interface_version c \<noteq> ''0.1.0''
          \<or> \<not> (1 \<le> mc_minimum_memory_mb c \<and> mc_minimum_memory_mb c \<le> 1048576),
        ''unsupported model_content format, engine, interface or resource requirement'')]) (\<lambda>_.
     andthen (validate_model_content_path (mf_entrypoint m)) (\<lambda>_.
     andthen (validate_descriptor_id ''model_content name'' (mf_name m)) (\<lambda>_.
     andthen (for_each (\<lambda>(v, limit). require (\<not> (length v > limit \<or> has_char_of control_seqs v))
         ''model_content display facts exceed their bounds'')
       [(mf_version m, 32), (case mf_description m of Some d \<Rightarrow> d | None \<Rightarrow> [], 1024),
        (case mf_author m of Some a \<Rightarrow> a | None \<Rightarrow> [], 128)]) (\<lambda>_.
     andthen (require (ends_with (mf_entrypoint m) ''.gguf'') ''model_content entrypoint must name its GGUF file'') (\<lambda>_.
     andthen (for_each (\<lambda>l. andthen (require (ml_spdx_id l = ''Apache-2.0'')
           ''model_content first profile requires Apache-2.0 license facts'') (\<lambda>_. validate_model_content_path (ml_path l)))
       [mc_license c, mp_base_license (mc_provenance c)]) (\<lambda>_.
     andthen (validate_model_content_path (mp_path (mc_provenance c))) (\<lambda>_.
     andthen (for_each (\<lambda>r. andthen (validate_model_content_path r) (\<lambda>_. require (length (split_on CHR ''/'' r) = 2)
           ''model_content provenance requires an owner/repository identifier''))
       [mp_base_repository (mc_provenance c), mp_quantized_repository (mc_provenance c)]) (\<lambda>_.
     for_each (\<lambda>r. require (length r = 40 \<and> list_all is_lower_hex r)
         ''model_content provenance requires an exact lowercase Git revision'')
       [mp_base_revision (mc_provenance c), mp_quantized_revision (mc_provenance c)]))))))))"

subsection \<open>Validation\<close>

definition window_policy_ok :: "manifest \<Rightarrow> bool" where
  "window_policy_ok m = (mf_role m \<in> {App, Viewer}
     \<and> (execution_type m, mf_execution m) \<in> {(WebProjection, Some ExWebProjection), (Wasm, Some ExComponent)}
     \<and> PjWeb \<in> set (mf_projections m))"

definition validate_icon :: "string \<Rightarrow> string + unit" where
  "validate_icon declared = (let icon = trim declared in first_refusal [
     (icon = [], ''icon must not be empty when declared''),
     (traverses icon, ''icon '' @ in_quotes icon @ '' contains path traversal ('' @ in_quotes ''..'' @ '' is not allowed)''),
     (absolute icon, ''icon '' @ in_quotes icon @ '' must be a relative path'')])"

text \<open>What app, viewer and content capsules may not declare.\<close>

definition validate_user_capsule :: "manifest \<Rightarrow> string + unit" where
  "validate_user_capsule m = first_refusal [
     (pm_guest_network (mf_permissions m), role_str (mf_role m)
        @ '' capsules cannot request guest_network; use a provider capsule for raw network backends''),
     (pm_host_process (mf_permissions m), role_str (mf_role m)
        @ '' capsules cannot request host-process execution; use a provider capsule for host services''),
     (mf_provides m \<noteq> None, role_str (mf_role m) @ '' capsules cannot provide protocol namespaces''),
     (list_ex (\<lambda>r. rqm_kind r = RkExternal) (mf_requires m), role_str (mf_role m)
        @ '' capsules cannot require external host dependencies; put protocol/tool adapters behind provider capsules''),
     (case mf_providers m of None \<Rightarrow> False | Some ps \<Rightarrow> ps \<noteq> [], role_str (mf_role m)
        @ '' capsules cannot choose provider implementations; the runtime/provider layer owns local vs network routing''),
     (Option.bind (mf_microvm m) vm_http_port \<noteq> None, role_str (mf_role m)
        @ '' capsules cannot expose microVM HTTP ports; use a host adapter or a provider capsule'')]"

definition validate_provider_fields :: "manifest \<Rightarrow> string + unit" where
  "validate_provider_fields m =
     andthen (first_refusal [
       (pm_host_process (mf_permissions m) \<and> (mf_role m \<noteq> Provider \<or> mf_provides m = None),
        ''host-process execution requires a provider capsule with an explicit provides namespace''),
       (pm_guest_network (mf_permissions m) \<and> (mf_role m \<noteq> Provider \<or> mf_provides m = None),
        ''guest_network requires a provider capsule with an explicit provides namespace''),
       (mf_provides m \<noteq> None \<and> mf_role m \<noteq> Provider, ''only provider capsules can provide protocol namespaces''),
       (mf_role m = Provider \<and> mf_provides m = None, ''provider capsules must declare a provides namespace'')]) (\<lambda>_.
     if mf_role m = Provider then
       andthen (ok_or ''provider capsules must declare authority metadata'' (mf_authority m)) validate_authority
     else require (mf_authority m = None) ''authority metadata is only valid on provider capsules'')"

definition validate_viewer :: "manifest \<Rightarrow> string \<Rightarrow> string + unit" where
  "validate_viewer m viewer = first_refusal [
     (mf_role m \<noteq> Content, ''viewer is only valid on content capsules''),
     (traverses viewer, ''viewer '' @ in_quotes viewer @ '' contains path traversal ('' @ in_quotes ''..''
        @ '' is not allowed)''),
     (absolute viewer, ''viewer '' @ in_quotes viewer @ '' must be a relative path or capsule name'')]"

definition validate_capability :: "manifest \<Rightarrow> string \<Rightarrow> string + unit" where
  "validate_capability m cap = first_refusal [
     (\<not> is_allowed_uri_scheme cap, ''unsupported URI scheme in capability '' @ in_quotes cap
        @ ''; allowed: elastos://, localhost://''),
     (is_app_viewer_or_content (mf_role m) \<and> is_system_only_backend_resource cap, role_str (mf_role m)
        @ '' capsules cannot request system-only backend capability '' @ in_quotes cap
        @ ''; use the product/provider contract instead''),
     (is_app_viewer_or_content (mf_role m) \<and> is_runtime_system_service_resource cap, role_str (mf_role m)
        @ '' capsules cannot request runtime system-service storage '' @ in_quotes cap)]"

definition validate_storage :: "manifest \<Rightarrow> string \<Rightarrow> string + unit" where
  "validate_storage m storage = first_refusal [
     (\<not> is_allowed_uri_scheme storage, ''unsupported URI scheme in storage permission '' @ in_quotes storage
        @ ''; allowed: elastos://, localhost://''),
     (is_app_viewer_or_content (mf_role m) \<and> is_runtime_system_service_resource storage, role_str (mf_role m)
        @ '' capsules cannot request runtime system-service storage '' @ in_quotes storage),
     (is_app_viewer_or_content (mf_role m) \<and> is_system_only_backend_resource storage, role_str (mf_role m)
        @ '' capsules cannot request system-only backend storage '' @ in_quotes storage
        @ ''; use the product/provider contract instead'')]"

definition validate_manifest :: "externals \<Rightarrow> bytes \<Rightarrow> manifest \<Rightarrow> string + unit" where
  "validate_manifest X wit m =
     andthen (case mf_model_content m of None \<Rightarrow> Inr () | Some c \<Rightarrow> validate_model_content m c) (\<lambda>_.
     andthen (first_refusal [
       (mf_schema m \<noteq> SCHEMA_V1, ''unsupported schema '' @ in_quotes (mf_schema m) @ '', expected '' @ in_quotes SCHEMA_V1),
       (trim (mf_version m) = [], ''manifest version must not be empty''),
       (mf_window_policy m \<noteq> None \<and> \<not> window_policy_ok m,
        ''window_policy requires an app or viewer with web/component execution and a web projection''),
       (traverses (mf_entrypoint m), ''entrypoint '' @ in_quotes (mf_entrypoint m) @ '' contains path traversal (''
          @ in_quotes ''..'' @ '' is not allowed)''),
       (absolute (mf_entrypoint m), ''entrypoint '' @ in_quotes (mf_entrypoint m) @ '' must be a relative path'')]) (\<lambda>_.
     andthen (case mf_icon m of None \<Rightarrow> Inr () | Some icon \<Rightarrow> validate_icon icon) (\<lambda>_.
     andthen (require (trim (mf_name m) \<noteq> []) ''manifest name must not be empty'') (\<lambda>_.
     andthen (validate_execution_metadata X wit m) (\<lambda>_.
     andthen (require (\<not> (mf_role m = Content \<and> mf_capsule_type m \<noteq> Data)) ''content capsules must use type=data'') (\<lambda>_.
     andthen (if is_app_viewer_or_content (mf_role m) then validate_user_capsule m else Inr ()) (\<lambda>_.
     andthen (validate_provider_fields m) (\<lambda>_.
     andthen (case mf_viewer m of None \<Rightarrow> Inr () | Some viewer \<Rightarrow> validate_viewer m viewer) (\<lambda>_.
     andthen (for_each (\<lambda>r. require (trim (rqm_name r) \<noteq> []) ''requirement name must not be empty'') (mf_requires m)) (\<lambda>_.
     andthen (case mf_provides m of None \<Rightarrow> Inr ()
       | Some provides \<Rightarrow> require (is_allowed_uri_scheme provides) (''unsupported URI scheme in provides ''
           @ in_quotes provides @ ''; allowed: elastos://, localhost://'')) (\<lambda>_.
     andthen (for_each (validate_capability m) (mf_capabilities m)) (\<lambda>_.
     andthen (validate_interfaces m) (\<lambda>_.
     for_each (validate_storage m) (pm_storage (mf_permissions m)))))))))))))))"

subsection \<open>What validation establishes\<close>

lemma validate_unique_Inr:
  "validate_unique check key dup seen xs = Inr u \<longleftrightarrow>
     (\<forall>x \<in> set xs. check x = Inr ()) \<and> distinct (map key xs) \<and> key ` set xs \<inter> seen = {}"
  by (induction xs arbitrary: seen) (auto simp: andthen_Inr)

lemma guards: "first_refusal ((bad, e) # checks) = Inr u \<longleftrightarrow> \<not> bad \<and> first_refusal checks = Inr u"
  by simp

declare first_refusal.simps(2) [simp del] guards [simp]

lemma validate_manifestD:
  assumes "validate_manifest X wit m = Inr u"
  shows "validate_execution_metadata X wit m = Inr ()" "validate_provider_fields m = Inr ()"
    "is_app_viewer_or_content (mf_role m) \<Longrightarrow> validate_user_capsule m = Inr ()"
    "mf_role m = Content \<Longrightarrow> mf_capsule_type m = Data"
    "c \<in> set (mf_capabilities m) \<Longrightarrow> validate_capability m c = Inr ()"
    "s \<in> set (pm_storage (mf_permissions m)) \<Longrightarrow> validate_storage m s = Inr ()"
    "validate_interfaces m = Inr ()" "\<not> traverses (mf_entrypoint m)" "\<not> absolute (mf_entrypoint m)"
    "mf_model_content m = Some mc \<Longrightarrow> validate_model_content m mc = Inr ()"
  using assms by (auto simp: validate_manifest_def andthen_Inr)

lemma validate_executionD:
  assumes "validate_execution_metadata X wit m = Inr u"
  shows "is_component_capsule m \<Longrightarrow> validate_component X wit m = Inr ()"
    "mf_capsule_type m = WebProjection \<or> is_runtime_projection m \<Longrightarrow> validate_projection m = Inr ()"
    "mf_capsule_type m = NativeProvider \<or> mf_execution m = Some ExNativeProvider \<or> mf_runtime_abi m = Some ProviderStdioV1
      \<Longrightarrow> validate_native_provider m = Inr ()"
    "mf_capsule_type m = NativeHost \<or> mf_execution m = Some ExNativeHost \<or> mf_runtime_abi m = Some AbiNativeHost \<Longrightarrow>
      mf_capsule_type m = NativeHost \<and> mf_execution m = Some ExNativeHost \<and> mf_role m = Shell \<and> mf_name m = ''shell''
      \<and> mf_entrypoint m = ''shell'' \<and> mf_bus_contract m = None \<and> mf_runtime_abi m = Some AbiNativeHost"
    "mf_execution m = Some ExMicrovm \<or> mf_runtime_abi m = Some MicrovmLinux \<or> mf_microvm m \<noteq> None \<Longrightarrow> mf_capsule_type m = MicroVM"
    "mf_execution m = Some ExData \<or> mf_runtime_abi m = Some AbiData \<Longrightarrow> mf_capsule_type m = Data"
    "mf_execution m \<notin> {Some ExWasiReceipt, Some ExWasiApp}" "mf_runtime_abi m \<noteq> Some WasiPreview1"
    "distinct (map projection_str (mf_projections m))"
    "mf_role m = Content \<Longrightarrow> set (mf_projections m) \<subseteq> {PjContent}"
  using assms
  by (auto simp: validate_execution_metadata_def andthen_Inr validate_unique_Inr list_ex_iff split: if_splits)


lemma valid_projectionD:
  assumes "validate_manifest X wit m = Inr ()" and "is_runtime_projection m \<or> mf_capsule_type m = WebProjection"
  shows "mf_role m \<in> {App, Viewer, Shell}" "mf_execution m = Some ExWebProjection" "mf_microvm m = None"
    "mf_capsule_type m \<in> {Wasm, WebProjection}" "is_runtime_projection m"
proof -
  have "validate_projection m = Inr ()"
    using validate_executionD(2)[OF validate_manifestD(1)[OF assms(1)]] assms(2) by blast
  then show "mf_role m \<in> {App, Viewer, Shell}" "mf_execution m = Some ExWebProjection" "mf_microvm m = None"
    "mf_capsule_type m \<in> {Wasm, WebProjection}" "is_runtime_projection m"
    by (auto simp: validate_projection_def is_runtime_projection_def)
qed

lemma valid_native_providerD:
  assumes "validate_manifest X wit m = Inr ()"
    and "mf_capsule_type m = NativeProvider \<or> mf_execution m = Some ExNativeProvider"
  shows "mf_role m = Provider" "mf_capsule_type m = NativeProvider"
proof -
  have "validate_native_provider m = Inr ()"
    using validate_executionD(3)[OF validate_manifestD(1)[OF assms(1)]] assms(2) by blast
  then show "mf_role m = Provider" "mf_capsule_type m = NativeProvider" by (auto simp: validate_native_provider_def)
qed

lemma valid_componentD:
  assumes "validate_manifest X wit m = Inr ()" and "is_component_capsule m"
  shows "mf_capsule_type m = Wasm" "mf_execution m = Some ExComponent"
    "mf_wit_world_sha256 m = Some (hex_encode X (sha256 X wit))" "\<not> is_runtime_projection m"
proof -
  have "validate_component X wit m = Inr ()"
    by (rule validate_executionD(1)[OF validate_manifestD(1)[OF assms(1)] assms(2)])
  then show x: "mf_capsule_type m = Wasm" "mf_execution m = Some ExComponent"
    "mf_wit_world_sha256 m = Some (hex_encode X (sha256 X wit))"
    by (auto simp: validate_component_def elastos_bus_v1_wit_sha256_def Let_def)
  show "\<not> is_runtime_projection m" using valid_projectionD(2)[OF assms(1)] x(2) by auto
qed

lemma valid_providerD:
  assumes "validate_manifest X wit m = Inr ()" and "mf_role m = Provider"
  shows "mf_provides m \<noteq> None \<and> map_option validate_authority (mf_authority m) = Some (Inr ())"
  using validate_manifestD(2)[OF assms(1)] assms(2) by (auto simp: validate_provider_fields_def andthen_Inr)

lemma execution_type_by_role:
  assumes "validate_manifest X wit m = Inr ()"
  shows "case execution_type m of
       WebProjection \<Rightarrow> mf_role m \<in> {App, Viewer, Shell} \<and> mf_execution m = Some ExWebProjection \<and> mf_microvm m = None
     | NativeProvider \<Rightarrow> mf_role m = Provider \<and> mf_provides m \<noteq> None
         \<and> map_option validate_authority (mf_authority m) = Some (Inr ())
     | NativeHost \<Rightarrow> mf_role m = Shell \<and> mf_name m = ''shell'' \<and> mf_entrypoint m \<in> {''shell'', ''rootfs.ext4''}
     | MicroVM \<Rightarrow> mf_role m \<in> {App, Viewer, Shell}
     | _ \<Rightarrow> True"
proof -
  note d = validate_manifestD[OF assms]
  note e = validate_executionD[OF d(1)]
  note pj = valid_projectionD[OF assms] and np = valid_native_providerD[OF assms]
    and cp = valid_componentD[OF assms] and pr = valid_providerD[OF assms]
  have k: "execution_type m = (if is_runtime_projection m then WebProjection
      else if mf_role m = Provider \<and> mf_capsule_type m \<in> {Wasm, MicroVM} \<and> \<not> is_component_capsule m then NativeProvider
      else if mf_role m = Shell \<and> mf_name m = ''shell'' \<and> mf_capsule_type m = MicroVM \<and> mf_entrypoint m = ''rootfs.ext4''
      then NativeHost else mf_capsule_type m)" by (simp add: execution_type_def)
  let ?np = "mf_role m = Provider \<and> mf_capsule_type m \<in> {Wasm, MicroVM} \<and> \<not> is_component_capsule m"
  let ?nh = "mf_role m = Shell \<and> mf_name m = ''shell'' \<and> mf_capsule_type m = MicroVM \<and> mf_entrypoint m = ''rootfs.ext4''"
  show ?thesis
  proof (cases "is_runtime_projection m")
    case True
    then have "execution_type m = WebProjection" by (simp add: k)
    then show ?thesis using pj(1-3) True by simp
  next
    case p: False
    show ?thesis
    proof (cases "?np")
      case True
      then have "execution_type m = NativeProvider" using p by (simp add: k)
      then show ?thesis using pr True by simp
    next
      case n: False
      show ?thesis
      proof (cases "?nh")
        case True
        then have "execution_type m = NativeHost" using p by (simp add: k)
        then show ?thesis using True by simp
      next
        case False
        then have x: "execution_type m = mf_capsule_type m" unfolding k using p n by (simp only: if_False)
        show ?thesis
        proof (cases "mf_capsule_type m")
          case MicroVM
          have "is_component_capsule m \<Longrightarrow> mf_capsule_type m = Wasm" using cp by blast
          then have "mf_role m \<noteq> Provider" "mf_role m \<noteq> Content" using n d(4) MicroVM by auto
          then show ?thesis using x MicroVM by (cases "mf_role m") simp_all
        next
          case WebProjection
          then show ?thesis using pj(5) p by blast
        next
          case NativeProvider
          then have "mf_role m = Provider" using np(1) by blast
          then show ?thesis using x NativeProvider pr by simp
        next
          case NativeHost
          then have "mf_role m = Shell" "mf_name m = ''shell''" "mf_entrypoint m = ''shell''" using e(4) by blast+
          then show ?thesis using x NativeHost by simp
        qed (use x in simp_all)
      qed
    qed
  qed
qed

lemma declared_execution_effective:
  assumes "validate_manifest X wit m = Inr ()"
  shows "mf_execution m = None \<or> effective_execution m = mf_execution m
        \<or> (mf_execution m = Some ExMicrovm \<and> execution_type m \<in> {NativeProvider, NativeHost})"
proof -
  note d = validate_manifestD[OF assms]
  note e = validate_executionD[OF d(1)]
  note pj = valid_projectionD[OF assms] and np = valid_native_providerD[OF assms]
    and cp = valid_componentD[OF assms] and pr = valid_providerD[OF assms]
  have k: "execution_type m = (if is_runtime_projection m then WebProjection
      else if mf_role m = Provider \<and> mf_capsule_type m \<in> {Wasm, MicroVM} \<and> \<not> is_component_capsule m then NativeProvider
      else if mf_role m = Shell \<and> mf_name m = ''shell'' \<and> mf_capsule_type m = MicroVM \<and> mf_entrypoint m = ''rootfs.ext4''
      then NativeHost else mf_capsule_type m)" by (simp add: execution_type_def)
  show ?thesis
  proof (cases "mf_execution m")
    case (Some x)
    have comp: "x = ExComponent \<Longrightarrow> is_component_capsule m" and proj: "x = ExWebProjection \<Longrightarrow> is_runtime_projection m"
      using Some by (auto simp: is_component_capsule_def is_runtime_projection_def)
    have eff: "execution_type m \<notin> {WebProjection, NativeProvider, NativeHost} \<Longrightarrow> effective_execution m = Some x"
      unfolding effective_execution_def Some by (cases "execution_type m") auto
    have wp: "x = ExWebProjection" if "is_runtime_projection m" using pj(2) that Some by simp
    show ?thesis
    proof (cases x)
      case ExNativeHost
      then have h: "mf_capsule_type m = NativeHost" "mf_role m = Shell" using e(4) Some by blast+
      have "\<not> is_runtime_projection m" using wp ExNativeHost by blast
      then have "execution_type m = NativeHost" using h by (simp add: k)
      then show ?thesis using Some ExNativeHost by (simp add: effective_execution_def)
    next
      case ExNativeProvider
      then have h: "mf_capsule_type m = NativeProvider" "mf_role m = Provider" using np Some by blast+
      have "\<not> is_runtime_projection m" using wp ExNativeProvider by blast
      then have "execution_type m = NativeProvider" using h by (simp add: k)
      then show ?thesis using Some ExNativeProvider by (simp add: effective_execution_def)
    next
      case ExWebProjection
      then have "execution_type m = WebProjection" using proj by (simp add: k)
      then show ?thesis using Some ExWebProjection by (simp add: effective_execution_def)
    next
      case ExComponent
      then have "execution_type m = Wasm" using cp(1,4) comp by (simp add: k)
      then show ?thesis using Some eff by simp
    next
      case ExMicrovm
      have "\<not> is_runtime_projection m" using wp ExMicrovm by blast
      moreover have "mf_capsule_type m = MicroVM" using e(5) Some ExMicrovm by blast
      ultimately have "execution_type m \<in> {MicroVM, NativeProvider, NativeHost}" by (simp add: k)
      then show ?thesis using eff Some ExMicrovm by auto
    next
      case ExData
      have "\<not> is_runtime_projection m" using wp ExData by blast
      moreover have "mf_capsule_type m = Data" using e(6) Some ExData by blast
      ultimately have "execution_type m = Data" by (simp add: k)
      then show ?thesis using eff Some by simp
    qed (use e(7) Some in simp_all)
  qed simp
qed

text \<open>
  Validation fixes what kind of execution a manifest can reach. A web projection
  belongs to an app, a viewer or the shell and declares itself as one; a native provider has the
  provider role, a namespace and a valid authority declaration; the native host is the shell
  helper; a micro-VM never belongs to a provider or to content; content is data; a component is
  WebAssembly, built against the embedded interface. The execution a manifest declares is the
  effective one, except that a provider or the shell helper in a micro-VM runs natively.
\<close>

theorem execution_boundary:
  assumes "validate_manifest X wit m = Inr ()"
  shows "(case execution_type m of
       WebProjection \<Rightarrow> mf_role m \<in> {App, Viewer, Shell} \<and> mf_execution m = Some ExWebProjection \<and> mf_microvm m = None
     | NativeProvider \<Rightarrow> mf_role m = Provider \<and> mf_provides m \<noteq> None
         \<and> map_option validate_authority (mf_authority m) = Some (Inr ())
     | NativeHost \<Rightarrow> mf_role m = Shell \<and> mf_name m = ''shell'' \<and> mf_entrypoint m \<in> {''shell'', ''rootfs.ext4''}
     | MicroVM \<Rightarrow> mf_role m \<in> {App, Viewer, Shell}
     | _ \<Rightarrow> True)
    \<and> (mf_role m = Content \<longrightarrow> execution_type m = Data)
    \<and> (is_component_capsule m \<longrightarrow> execution_type m = Wasm
        \<and> mf_wit_world_sha256 m = Some (hex_encode X (sha256 X wit)))
    \<and> (mf_execution m = None \<or> effective_execution m = mf_execution m
        \<or> (mf_execution m = Some ExMicrovm \<and> execution_type m \<in> {NativeProvider, NativeHost}))"
proof -
  note d = validate_manifestD[OF assms]
  note e = validate_executionD[OF d(1)]
  note pj = valid_projectionD[OF assms] and np = valid_native_providerD[OF assms]
    and cp = valid_componentD[OF assms] and pr = valid_providerD[OF assms]
  have k: "execution_type m = (if is_runtime_projection m then WebProjection
      else if mf_role m = Provider \<and> mf_capsule_type m \<in> {Wasm, MicroVM} \<and> \<not> is_component_capsule m then NativeProvider
      else if mf_role m = Shell \<and> mf_name m = ''shell'' \<and> mf_capsule_type m = MicroVM \<and> mf_entrypoint m = ''rootfs.ext4''
      then NativeHost else mf_capsule_type m)" by (simp add: execution_type_def)
  have c2: "mf_role m = Content \<longrightarrow> execution_type m = Data" using d(4) pj unfolding k by auto
  have c3: "is_component_capsule m \<longrightarrow> execution_type m = Wasm \<and> mf_wit_world_sha256 m = Some (hex_encode X (sha256 X wit))"
    using cp by (auto simp: k)
  show ?thesis using execution_type_by_role[OF assms] declared_execution_effective[OF assms] c2 c3 by blast
qed

subsection \<open>A valid manifest\<close>

lemma find_sub_set: "find_sub w s \<noteq> None \<Longrightarrow> set w \<subseteq> set s"
proof -
  assume "find_sub w s \<noteq> None"
  then obtain i where "find_sub w s = Some i" by auto
  from find_sub_Some[OF this] have "set s = set (take i s) \<union> set w \<union> set (drop (i + length w) s)"
    by (metis set_append Un_assoc)
  then show ?thesis by blast
qed

lemma control_seqs_not_graphic: "w \<in> set control_seqs \<Longrightarrow> \<exists>c \<in> set w. \<not> graphic c"
  by (auto simp: control_seqs_def graphic_def of_char_of)

lemma graphic_no_control:
  assumes "\<forall>c \<in> set s. graphic c"
  shows "\<not> has_char_of (control_seqs @ ws_seqs) s"
proof
  assume "has_char_of (control_seqs @ ws_seqs) s"
  then obtain w where w: "w \<in> set (control_seqs @ ws_seqs)" "set w \<subseteq> set s"
    using find_sub_set by (fastforce simp: has_char_of_def list_ex_iff)
  have "w \<noteq> [] \<and> \<not> graphic (hd w) \<or> (\<exists>c \<in> set w. \<not> graphic c)"
    using w(1) control_seqs_not_graphic ws_seqs_not_graphic by auto
  then show False using w(2) assms by (metis hd_in_set subsetD)
qed

definition demo_wit :: bytes where
  "demo_wit = replicate 32 0"

definition demo_manifest :: manifest where
  "demo_manifest = \<lparr>mf_schema = SCHEMA_V1, mf_version = ''1.0.0'', mf_name = ''notes'', mf_description = None,
     mf_author = None, mf_role = App, mf_capsule_type = Wasm, mf_runtime_abi = Some ElastosComponentV1,
     mf_bus_contract = Some ELASTOS_BUS_V1_CONTRACT,
     mf_wit_world_sha256 = Some (elastos_bus_v1_wit_sha256 demo_ext demo_wit), mf_execution = Some ExComponent,
     mf_projections = [PjWeb], mf_window_policy = Some Single, mf_model_content = None, mf_entrypoint = ''main.wasm'',
     mf_requires = [], mf_provides = None, mf_authority = None, mf_capabilities = [''elastos://content/*''],
     mf_interfaces = [], mf_resources = capsule_resources_default,
     mf_permissions = permissions_default\<lparr>pm_storage := [''localhost://Users/notes'']\<rparr>, mf_microvm = None,
     mf_providers = None, mf_icon = None, mf_viewer = None, mf_signature = None\<rparr>"

lemma demo_execution_valid: "validate_execution_metadata demo_ext demo_wit demo_manifest = Inr ()"
proof -
  have b: "validate_descriptor_id k ELASTOS_BUS_V1_CONTRACT = Inr ()" for k
  proof -
    have "\<not> has_char_of (control_seqs @ ws_seqs) ELASTOS_BUS_V1_CONTRACT"
      by (rule graphic_no_control) (simp add: ELASTOS_BUS_V1_CONTRACT_def graphic_def)
    then show ?thesis
      by (simp add: validate_descriptor_id_def ELASTOS_BUS_V1_CONTRACT_def trim_graphic graphic_def)
  qed
  have h: "validate_sha256_hex k (elastos_bus_v1_wit_sha256 demo_ext demo_wit) = Inr ()" for k
  proof -
    have "length (elastos_bus_v1_wit_sha256 demo_ext demo_wit) = 64
      \<and> list_all is_lower_hex (elastos_bus_v1_wit_sha256 demo_ext demo_wit)" by code_simp
    then show ?thesis by (simp add: validate_sha256_hex_def)
  qed
  have c: "is_component_capsule demo_manifest" "\<not> is_runtime_projection demo_manifest"
    by (simp_all add: is_component_capsule_def is_runtime_projection_def demo_manifest_def
        ELASTOS_RUNTIME_PROJECTION_V1_CONTRACT_def ELASTOS_BUS_V1_CONTRACT_def)
  have s: "mf_bus_contract demo_manifest = Some ELASTOS_BUS_V1_CONTRACT"
    "mf_wit_world_sha256 demo_manifest = Some (elastos_bus_v1_wit_sha256 demo_ext demo_wit)"
    "mf_runtime_abi demo_manifest = Some ElastosComponentV1" "mf_execution demo_manifest = Some ExComponent"
    "mf_projections demo_manifest = [PjWeb]" "mf_role demo_manifest = App" "mf_capsule_type demo_manifest = Wasm"
    "mf_microvm demo_manifest = None"
    by (simp_all add: demo_manifest_def)
  show ?thesis
    unfolding validate_execution_metadata_def validate_component_def s
    by (simp add: b h c Let_def first_refusal.simps require_def)
qed

lemma demo_manifest_valid: "validate_manifest demo_ext demo_wit demo_manifest = Inr ()"
proof -
  have t: "\<not> traverses ''main.wasm''" "\<not> absolute ''main.wasm''" by code_simp+
  have r: "is_supported_resource_scheme ''elastos://content/*''" "\<not> is_system_only_backend_resource ''elastos://content/*''"
    "\<not> is_runtime_system_service_resource ''elastos://content/*''"
    "is_supported_resource_scheme ''localhost://Users/notes''" "\<not> is_system_only_backend_resource ''localhost://Users/notes''"
    "\<not> is_runtime_system_service_resource ''localhost://Users/notes''"
    by code_simp+
  have c: "validate_capability demo_manifest ''elastos://content/*'' = Inr ()"
    "validate_storage demo_manifest ''localhost://Users/notes'' = Inr ()"
    "window_policy_ok demo_manifest" "validate_user_capsule demo_manifest = Inr ()"
    "validate_provider_fields demo_manifest = Inr ()" "validate_interfaces demo_manifest = Inr ()"
    by (simp_all add: r validate_capability_def validate_storage_def is_allowed_uri_scheme_def first_refusal.simps
        window_policy_ok_def execution_type_def is_runtime_projection_def ELASTOS_RUNTIME_PROJECTION_V1_CONTRACT_def
        ELASTOS_BUS_V1_CONTRACT_def validate_user_capsule_def validate_provider_fields_def validate_interfaces_def
        demo_manifest_def permissions_default_def require_def)
  have s: "mf_schema demo_manifest = SCHEMA_V1" "mf_version demo_manifest = ''1.0.0''" "mf_name demo_manifest = ''notes''"
    "mf_model_content demo_manifest = None" "mf_entrypoint demo_manifest = ''main.wasm''" "mf_icon demo_manifest = None"
    "mf_role demo_manifest = App" "mf_viewer demo_manifest = None" "mf_requires demo_manifest = []"
    "mf_provides demo_manifest = None" "mf_capabilities demo_manifest = [''elastos://content/*'']"
    "pm_storage (mf_permissions demo_manifest) = [''localhost://Users/notes'']"
    by (simp_all add: demo_manifest_def)
  show ?thesis
    unfolding validate_manifest_def s by (simp add: t c demo_execution_valid trim_graphic graphic_def first_refusal.simps require_def)
qed


theorem execution_boundary_witness:
  "execution_type demo_manifest = Wasm \<and> effective_execution demo_manifest = Some ExComponent"
proof -
  have "is_component_capsule demo_manifest" "mf_execution demo_manifest = Some ExComponent"
    by (simp_all add: is_component_capsule_def demo_manifest_def)
  then show ?thesis using execution_boundary[OF demo_manifest_valid] by auto
qed

end
