(* ===== verification/Capsule_Manager.thy ===== *)
theory Capsule_Manager
  imports Content_Resolver Manifest
begin

section \<open>Capsule life cycle\<close>

text \<open>
  \<^verbatim>\<open>elastos-runtime/src/capsule/manager.rs\<close>: launching, stopping and listing capsules over a
  compute provider. The provider is an oracle, its calls are recorded. The methods lock the table
  several times and wait in between, so each is split where it releases the lock; the
  methods are the compositions of the pieces, and the step relation interleaves the
  pieces of concurrent calls.
\<close>

datatype elastos_error = StorageError string | ComputeError string | PermissionError string
  | CapsuleNotFound string | InvalidManifest string | IoError string | JsonError string

fun elastos_error_display :: "elastos_error \<Rightarrow> string" where
  "elastos_error_display (StorageError e) = ''Storage error: '' @ e"
| "elastos_error_display (ComputeError e) = ''Compute error: '' @ e"
| "elastos_error_display (PermissionError e) = ''Permission denied: '' @ e"
| "elastos_error_display (CapsuleNotFound e) = ''Capsule not found: '' @ e"
| "elastos_error_display (InvalidManifest e) = ''Invalid manifest: '' @ e"
| "elastos_error_display (IoError e) = ''IO error: '' @ e"
| "elastos_error_display (JsonError e) = ''JSON error: '' @ e"

datatype capsule_state = Starting | Running | Suspended | Stopping | Stopped

record capsule_handle =
  ch_id :: string
  ch_manifest :: manifest
  ch_args :: "string list"

record capsule_info =
  ci_id :: string
  ci_manifest :: manifest
  ci_state :: capsule_state
  ci_cid :: "string option"
  ci_trust_level :: trust_level
  ci_handle :: capsule_handle

datatype compute_call = CallLoad string manifest | CallStart capsule_handle | CallStop capsule_handle

record capsules = content +
  cap_table :: "(string, capsule_info) hmap"
  cp_supports :: "capsule_type \<Rightarrow> bool"
  cp_load :: "nat \<Rightarrow> string \<Rightarrow> manifest \<Rightarrow> elastos_error + capsule_handle"
  cp_start :: "nat \<Rightarrow> capsule_handle \<Rightarrow> elastos_error + unit"
  cp_stop :: "nat \<Rightarrow> capsule_handle \<Rightarrow> elastos_error + unit"
  cp_calls :: "compute_call list"

definition capsules_new :: "'a capsules_scheme \<Rightarrow> 'a capsules_scheme" where
  "capsules_new s = s\<lparr>cap_table := []\<rparr>"

text \<open>The calls of the \<^verbatim>\<open>ComputeProvider\<close> trait.\<close>

definition compute_load ::
    "string \<Rightarrow> manifest \<Rightarrow> 'a capsules_scheme \<Rightarrow> (elastos_error + capsule_handle) \<times> 'a capsules_scheme" where
  "compute_load path m s = (cp_load s (length (cp_calls s)) path m, s\<lparr>cp_calls := cp_calls s @ [CallLoad path m]\<rparr>)"

definition compute_start ::
    "capsule_handle \<Rightarrow> 'a capsules_scheme \<Rightarrow> (elastos_error + unit) \<times> 'a capsules_scheme" where
  "compute_start h s = (cp_start s (length (cp_calls s)) h, s\<lparr>cp_calls := cp_calls s @ [CallStart h]\<rparr>)"

definition compute_stop ::
    "capsule_handle \<Rightarrow> 'a capsules_scheme \<Rightarrow> (elastos_error + unit) \<times> 'a capsules_scheme" where
  "compute_stop h s = (cp_stop s (length (cp_calls s)) h, s\<lparr>cp_calls := cp_calls s @ [CallStop h]\<rparr>)"

definition capsule_id_new :: "externals \<Rightarrow> 'a env_scheme \<Rightarrow> string \<times> 'a env_scheme" where
  "capsule_id_new X s = (let (b, s) = draw_uuid_bytes s in (''cap-'' @ hex_encode X b, s))"

subsection \<open>Launching\<close>

text \<open>\<^verbatim>\<open>{:?}\<close> of a capsule type.\<close>

fun capsule_type_debug :: "capsule_type \<Rightarrow> string" where
  "capsule_type_debug Wasm = ''Wasm''"
| "capsule_type_debug WebProjection = ''WebProjection''"
| "capsule_type_debug NativeProvider = ''NativeProvider''"
| "capsule_type_debug NativeHost = ''NativeHost''"
| "capsule_type_debug MicroVM = ''MicroVM''"
| "capsule_type_debug Oci = ''Oci''"
| "capsule_type_debug Media = ''Media''"
| "capsule_type_debug Data = ''Data''"

definition launch_refused :: "manifest \<Rightarrow> 'a capsules_scheme \<Rightarrow> elastos_error option" where
  "launch_refused m s =
     (if execution_type m \<in> {WebProjection, NativeProvider, NativeHost}
      then Some (ComputeError ''Web projections and native providers use their existing Runtime-owned host paths'')
      else if \<not> cp_supports s (mf_capsule_type m)
      then Some (ComputeError (''Unsupported capsule type: '' @ capsule_type_debug (mf_capsule_type m)))
      else None)"

text \<open>Up to the first lock: the checks, the new id, the metrics, loading.\<close>

definition launch_load ::
    "externals \<Rightarrow> string \<Rightarrow> manifest \<Rightarrow> string option \<Rightarrow> trust_level \<Rightarrow> 'a capsules_scheme
     \<Rightarrow> (elastos_error + capsule_info) \<times> 'a capsules_scheme" where
  "launch_load X path m cid trust s =
     (case launch_refused m s of Some e \<Rightarrow> (Inl e, s)
      | None \<Rightarrow>
          let (capsule_id, s) = capsule_id_new X s;
              s = start_capsule capsule_id s;
              (loaded, s) = compute_load path m s
          in (andthen loaded (\<lambda>handle. Inr \<lparr>ci_id = capsule_id, ci_manifest = m, ci_state = Starting, ci_cid = cid,
                ci_trust_level = trust, ci_handle = handle\<rparr>), s))"

definition launch_register :: "capsule_info \<Rightarrow> 'a capsules_scheme \<Rightarrow> 'a capsules_scheme" where
  "launch_register i s = s\<lparr>cap_table := hm_insert (ci_id i) i (cap_table s)\<rparr>"

text \<open>Under the read lock: starting, if the capsule is still there.\<close>

definition launch_start :: "string \<Rightarrow> 'a capsules_scheme \<Rightarrow> (elastos_error + unit) \<times> 'a capsules_scheme" where
  "launch_start capsule_id s = (case hm_get (cap_table s) capsule_id of None \<Rightarrow> (Inr (), s)
     | Some i \<Rightarrow> compute_start (ci_handle i) s)"

definition launch_abort :: "string \<Rightarrow> 'a capsules_scheme \<Rightarrow> 'a capsules_scheme" where
  "launch_abort capsule_id s =
     snd (stop_capsule capsule_id (s\<lparr>cap_table := hm_remove capsule_id (cap_table s)\<rparr>))"

definition set_state :: "string \<Rightarrow> capsule_state \<Rightarrow> 'a capsules_scheme \<Rightarrow> 'a capsules_scheme" where
  "set_state capsule_id st s =
     s\<lparr>cap_table := hm_modify capsule_id (\<lambda>i. i\<lparr>ci_state := st\<rparr>) (cap_table s)\<rparr>"

definition launch_finish :: "capsule_info \<Rightarrow> 'a capsules_scheme \<Rightarrow> 'a capsules_scheme" where
  "launch_finish i s = capsule_launch (ci_id i) (mf_name (ci_manifest i)) (ci_cid i) (ci_trust_level i)
     (set_state (ci_id i) Running s)"

definition launch_internal ::
    "externals \<Rightarrow> string \<Rightarrow> manifest \<Rightarrow> string option \<Rightarrow> trust_level \<Rightarrow> 'a capsules_scheme
     \<Rightarrow> (elastos_error + string) \<times> 'a capsules_scheme" where
  "launch_internal X path m cid trust s =
     (let (r, s) = launch_load X path m cid trust s in
      case r of Inl e \<Rightarrow> (Inl e, s)
      | Inr i \<Rightarrow>
          let s = launch_register i s; (started, s) = launch_start (ci_id i) s in
          (case started of
             Inl e \<Rightarrow> (Inl e, launch_abort (ci_id i) s)
           | Inr _ \<Rightarrow> (Inr (ci_id i), launch_finish i s)))"

definition launch_local ::
    "externals \<Rightarrow> string \<Rightarrow> manifest \<Rightarrow> trust_level \<Rightarrow> 'a capsules_scheme
     \<Rightarrow> (elastos_error + string) \<times> 'a capsules_scheme" where
  "launch_local X path m trust s = launch_internal X path m None trust s"

definition launch_from_cid ::
    "externals \<Rightarrow> string \<Rightarrow> manifest \<Rightarrow> string \<Rightarrow> trust_level \<Rightarrow> 'a capsules_scheme
     \<Rightarrow> (elastos_error + string) \<times> 'a capsules_scheme" where
  "launch_from_cid X path m cid trust s = launch_internal X path m (Some cid) trust s"

subsection \<open>Stopping\<close>

definition stop_mark :: "string \<Rightarrow> 'a capsules_scheme \<Rightarrow> (elastos_error + capsule_handle) \<times> 'a capsules_scheme" where
  "stop_mark capsule_id s = (case hm_get (cap_table s) capsule_id of
       None \<Rightarrow> (Inl (CapsuleNotFound (''Capsule not found: '' @ capsule_id)), s)
     | Some i \<Rightarrow> (Inr (ci_handle i), set_state capsule_id Stopping s))"

definition stop_finish :: "string \<Rightarrow> stop_reason \<Rightarrow> 'a capsules_scheme \<Rightarrow> 'a capsules_scheme" where
  "stop_finish capsule_id reason s =
     capsule_stop capsule_id reason (snd (stop_capsule capsule_id (set_state capsule_id Stopped s)))"

definition stop :: "string \<Rightarrow> stop_reason \<Rightarrow> 'a capsules_scheme \<Rightarrow> (elastos_error + unit) \<times> 'a capsules_scheme" where
  "stop capsule_id reason s =
     (let (r, s) = stop_mark capsule_id s in
      case r of Inl e \<Rightarrow> (Inl e, s)
      | Inr h \<Rightarrow> (let (stopped, s) = compute_stop h s in
          case stopped of Inl e \<Rightarrow> (Inl e, s) | Inr _ \<Rightarrow> (Inr (), stop_finish capsule_id reason s)))"

subsection \<open>Queries and shutdown\<close>

definition get_info :: "string \<Rightarrow> 'a capsules_scheme \<Rightarrow> capsule_info option" where
  "get_info capsule_id s = hm_get (cap_table s) capsule_id"

definition list_capsules :: "'a capsules_scheme \<Rightarrow> string list" where
  "list_capsules s = map fst (cap_table s)"

definition list_running :: "'a capsules_scheme \<Rightarrow> string list" where
  "list_running s = map fst (filter (\<lambda>(_, i). ci_state i = Running) (cap_table s))"

definition cleanup_stopped :: "'a capsules_scheme \<Rightarrow> 'a capsules_scheme" where
  "cleanup_stopped s = s\<lparr>cap_table := hm_retain (\<lambda>_ i. ci_state i \<noteq> Stopped) (cap_table s)\<rparr>"

definition count_by_state :: "'a capsules_scheme \<Rightarrow> (capsule_state, nat) hmap" where
  "count_by_state s = fold (\<lambda>(_, i) counts. hm_insert (ci_state i)
     ((case hm_get counts (ci_state i) of Some n \<Rightarrow> n | None \<Rightarrow> 0) + 1) counts) (cap_table s) []"

definition stop_all :: "stop_reason \<Rightarrow> 'a capsules_scheme \<Rightarrow> 'a capsules_scheme" where
  "stop_all reason s = fold (\<lambda>capsule_id s. snd (stop capsule_id reason s)) (list_running s) s"

subsection \<open>Frames\<close>

lemma capsules_frame [simp, frame]:
  "cap_table (emit ev s) = cap_table s" "cp_calls (emit ev s) = cp_calls s" "cp_load (emit ev s) = cp_load s"
  "cp_start (emit ev s) = cp_start s" "cp_stop (emit ev s) = cp_stop s" "cp_supports (emit ev s) = cp_supports s"
  by (simp_all add: emit_def write_line_def Let_def split: option.splits prod.splits)

lemma capsule_audit_frame [simp, frame]:
  "cap_table (capsule_launch c n d t s) = cap_table s" "cp_calls (capsule_launch c n d t s) = cp_calls s"
  "cp_load (capsule_launch c n d t s) = cp_load s" "cp_start (capsule_launch c n d t s) = cp_start s"
  "cp_stop (capsule_launch c n d t s) = cp_stop s" "cp_supports (capsule_launch c n d t s) = cp_supports s"
  "cap_table (capsule_stop c r s) = cap_table s" "cp_calls (capsule_stop c r s) = cp_calls s"
  "cp_load (capsule_stop c r s) = cp_load s" "cp_start (capsule_stop c r s) = cp_start s"
  "cp_stop (capsule_stop c r s) = cp_stop s" "cp_supports (capsule_stop c r s) = cp_supports s"
  by (simp_all add: capsule_launch_def capsule_stop_def ts_now_def read_wall_def fetch_counter_def Let_def)

definition generic :: "manifest \<Rightarrow> 'a capsules_scheme \<Rightarrow> bool" where
  "generic m s = (execution_type m \<notin> {WebProjection, NativeProvider, NativeHost} \<and> cp_supports s (mf_capsule_type m))"

text \<open>The state after a piece has the oracles of the state before, and at least its calls.\<close>

definition extends :: "'a capsules_scheme \<Rightarrow> 'a capsules_scheme \<Rightarrow> bool" where
  "extends s s' = ((\<exists>calls. cp_calls s' = cp_calls s @ calls) \<and> cp_load s' = cp_load s \<and> cp_start s' = cp_start s
     \<and> cp_supports s' = cp_supports s)"

text \<open>The compute provider loaded the handle of a capsule from its manifest; it started a handle.\<close>

definition loaded :: "'a capsules_scheme \<Rightarrow> capsule_info \<Rightarrow> bool" where
  "loaded s i = (generic (ci_manifest i) s \<and> (\<exists>n path. n < length (cp_calls s) \<and> cp_calls s ! n = CallLoad path (ci_manifest i)
     \<and> cp_load s n path (ci_manifest i) = Inr (ci_handle i)))"

definition started :: "'a capsules_scheme \<Rightarrow> capsule_handle \<Rightarrow> bool" where
  "started s h = (\<exists>n < length (cp_calls s). cp_calls s ! n = CallStart h \<and> cp_start s n h = Inr ())"

definition loads_generic :: "'a capsules_scheme \<Rightarrow> bool" where
  "loads_generic s = (\<forall>path m. CallLoad path m \<in> set (cp_calls s) \<longrightarrow> generic m s)"

lemma extends_loaded: "\<lbrakk>extends s s'; loaded s i\<rbrakk> \<Longrightarrow> loaded s' i"
  unfolding loaded_def extends_def generic_def
  by (elim conjE exE) (metis (no_types, lifting) length_append nth_append trans_less_add1)

lemma extends_started: "\<lbrakk>extends s s'; started s h\<rbrakk> \<Longrightarrow> started s' h"
  unfolding started_def extends_def
  by (elim conjE exE) (metis (no_types, lifting) length_append nth_append trans_less_add1)

lemma launch_load_cases:
  assumes "launch_load X path m cid trust s = (r, s')"
  shows "cap_table s' = cap_table s \<and> extends s s' \<and> (loads_generic s \<longrightarrow> loads_generic s')
    \<and> (\<forall>i. r = Inr i \<longrightarrow> ci_state i = Starting \<and> loaded s' i)"
proof (cases "launch_refused m s")
  case (Some e)
  then show ?thesis using assms by (auto simp: launch_load_def extends_def)
next
  case None
  then have g: "generic m s" by (auto simp: launch_refused_def generic_def split: if_splits)
  define u where "u = start_capsule (fst (capsule_id_new X s)) (snd (capsule_id_new X s))"
  have u: "cap_table u = cap_table s" "cp_calls u = cp_calls s" "cp_load u = cp_load s" "cp_start u = cp_start s"
    "cp_supports u = cp_supports s"
    by (simp_all add: u_def capsule_id_new_def draw_uuid_bytes_def start_capsule_def capsule_metrics_new_def
        read_wall_def Let_def)
  have s': "s' = u\<lparr>cp_calls := cp_calls u @ [CallLoad path m]\<rparr>"
    and r: "\<And>i. r = Inr i \<Longrightarrow> ci_state i = Starting \<and> ci_manifest i = m
      \<and> cp_load u (length (cp_calls u)) path m = Inr (ci_handle i)"
    using assms None by (auto simp: launch_load_def compute_load_def u_def Let_def prod.case_eq_if andthen_Inr)
  have "extends s s'" by (simp add: s' u extends_def)
  moreover have "loads_generic s \<longrightarrow> loads_generic s'" using g by (auto simp: loads_generic_def s' u generic_def)
  moreover have "ci_state i = Starting \<and> loaded s' i" if "r = Inr i" for i
    using r[OF that] g by (auto simp: loaded_def s' u generic_def nth_append intro!: exI[of _ "length (cp_calls s)"])
  ultimately show ?thesis by (simp add: s' u)
qed

lemma stop_capsule_frame [simp, frame]:
  "cap_table (snd (stop_capsule c s)) = cap_table s" "cp_calls (snd (stop_capsule c s)) = cp_calls s"
  "cp_load (snd (stop_capsule c s)) = cp_load s" "cp_start (snd (stop_capsule c s)) = cp_start s"
  "cp_stop (snd (stop_capsule c s)) = cp_stop s" "cp_supports (snd (stop_capsule c s)) = cp_supports s"
  by (simp_all add: stop_capsule_def)

lemma pieces_table [simp]:
  "cap_table (launch_register i s) = hm_insert (ci_id i) i (cap_table s)"
  "cap_table (launch_abort c s) = hm_remove c (cap_table s)"
  "cap_table (set_state c st s) = hm_modify c (\<lambda>i. i\<lparr>ci_state := st\<rparr>) (cap_table s)"
  "cap_table (launch_finish i s) = hm_modify (ci_id i) (\<lambda>i. i\<lparr>ci_state := Running\<rparr>) (cap_table s)"
  "cap_table (stop_finish c r s) = hm_modify c (\<lambda>i. i\<lparr>ci_state := Stopped\<rparr>) (cap_table s)"
  by (simp_all add: launch_register_def launch_abort_def set_state_def launch_finish_def stop_finish_def)

lemma pieces_extend [simp]:
  "extends s (launch_register i s)" "extends s (launch_abort c s)" "extends s (launch_finish i s)"
  "extends s (set_state c st s)" "extends s (stop_finish c r s)" "extends s (snd (compute_start h s))"
  "extends s (snd (compute_stop h s))" "extends s (cleanup_stopped s)"
  by (auto simp: extends_def launch_register_def launch_abort_def set_state_def launch_finish_def stop_finish_def
      compute_start_def compute_stop_def cleanup_stopped_def)

subsection \<open>Interleaved calls\<close>

text \<open>The calls in progress, each with what it holds between two pieces.\<close>

datatype flight =
  Loaded capsule_info
| Registered capsule_info
| Failed capsule_info elastos_error
| Started capsule_info
| Marked string capsule_handle stop_reason
| Halted string stop_reason

text \<open>The id a launch in progress works for.\<close>

fun launch_id :: "flight \<Rightarrow> string option" where
  "launch_id (Loaded i) = Some (ci_id i)"
| "launch_id (Registered i) = Some (ci_id i)"
| "launch_id (Failed i e) = Some (ci_id i)"
| "launch_id (Started i) = Some (ci_id i)"
| "launch_id (Marked c h r) = None"
| "launch_id (Halted c r) = None"

text \<open>
  The steps of concurrent launches and stops on a table. The third component holds the ids
  drawn so far: \<^verbatim>\<open>Uuid::new_v4\<close> does not repeat one.
\<close>

inductive capsule_step ::
    "externals \<Rightarrow> 'a capsules_scheme \<times> flight list \<times> string set
     \<Rightarrow> 'a capsules_scheme \<times> flight list \<times> string set \<Rightarrow> bool" for X where
  cs_load: "\<lbrakk>launch_load X path m cid trust s = (Inr i, s'); ci_id i \<notin> used\<rbrakk>
    \<Longrightarrow> capsule_step X (s, fs, used) (s', Loaded i # fs, insert (ci_id i) used)"
| cs_refused: "launch_load X path m cid trust s = (Inl e, s') \<Longrightarrow> capsule_step X (s, fs, used) (s', fs, used)"
| cs_register: "capsule_step X (s, fs @ Loaded i # gs, used) (launch_register i s, fs @ Registered i # gs, used)"
| cs_start: "launch_start (ci_id i) s = (Inr u, s')
    \<Longrightarrow> capsule_step X (s, fs @ Registered i # gs, used) (s', fs @ Started i # gs, used)"
| cs_fail: "launch_start (ci_id i) s = (Inl e, s')
    \<Longrightarrow> capsule_step X (s, fs @ Registered i # gs, used) (s', fs @ Failed i e # gs, used)"
| cs_abort: "capsule_step X (s, fs @ Failed i e # gs, used) (launch_abort (ci_id i) s, fs @ gs, used)"
| cs_finish: "capsule_step X (s, fs @ Started i # gs, used) (launch_finish i s, fs @ gs, used)"
| cs_mark: "stop_mark c s = (Inr h, s') \<Longrightarrow> capsule_step X (s, fs, used) (s', Marked c h r # fs, used)"
| cs_halt: "compute_stop h s = (Inr u, s')
    \<Longrightarrow> capsule_step X (s, fs @ Marked c h r # gs, used) (s', fs @ Halted c r # gs, used)"
| cs_stuck: "compute_stop h s = (Inl e, s') \<Longrightarrow> capsule_step X (s, fs @ Marked c h r # gs, used) (s', fs @ gs, used)"
| cs_stopped: "capsule_step X (s, fs @ Halted c r # gs, used) (stop_finish c r s, fs @ gs, used)"
| cs_cleanup: "capsule_step X (s, fs, used) (cleanup_stopped s, fs, used)"

subsection \<open>The life-cycle invariant\<close>

definition holds_handle :: "'a capsules_scheme \<Rightarrow> capsule_info \<Rightarrow> bool" where
  "holds_handle s i = (case hm_get (cap_table s) (ci_id i) of None \<Rightarrow> True | Some j \<Rightarrow> ci_handle j = ci_handle i)"

fun flight_ok :: "'a capsules_scheme \<Rightarrow> flight \<Rightarrow> bool" where
  "flight_ok s (Loaded i) = (loaded s i \<and> ci_state i = Starting \<and> hm_get (cap_table s) (ci_id i) = None)"
| "flight_ok s (Registered i) = holds_handle s i"
| "flight_ok s (Failed i e) = True"
| "flight_ok s (Started i) = (hm_get (cap_table s) (ci_id i) = None \<or> started s (ci_handle i) \<and> holds_handle s i)"
| "flight_ok s (Marked c h r) = True"
| "flight_ok s (Halted c r) = True"

fun is_loaded :: "flight \<Rightarrow> bool" where
  "is_loaded (Loaded i) = True"
| "is_loaded _ = False"

definition entry_ok :: "'a capsules_scheme \<Rightarrow> flight list \<Rightarrow> string \<Rightarrow> capsule_info \<Rightarrow> bool" where
  "entry_ok s fs c i = (ci_id i = c \<and> loaded s i \<and> ci_state i \<noteq> Suspended
     \<and> (ci_state i = Starting \<longrightarrow> (\<exists>f \<in> set fs. launch_id f = Some c \<and> \<not> is_loaded f))
     \<and> (ci_state i = Running \<longrightarrow> started s (ci_handle i)))"

fun launch_ids :: "flight list \<Rightarrow> string list" where
  "launch_ids [] = []"
| "launch_ids (f # fs) = (case launch_id f of None \<Rightarrow> launch_ids fs | Some c \<Rightarrow> c # launch_ids fs)"

definition lifecycle_inv :: "'a capsules_scheme \<times> flight list \<times> string set \<Rightarrow> bool" where
  "lifecycle_inv = (\<lambda>(s, fs, used).
     hm_wf (cap_table s) \<and> loads_generic s \<and> (\<forall>c i. hm_get (cap_table s) c = Some i \<longrightarrow> c \<in> used \<and> entry_ok s fs c i)
     \<and> (\<forall>f \<in> set fs. flight_ok s f) \<and> distinct (launch_ids fs) \<and> set (launch_ids fs) \<subseteq> used)"

lemma launch_ids_append [simp]: "launch_ids (fs @ gs) = launch_ids fs @ launch_ids gs"
  by (induction fs) (auto split: option.split)

lemma launch_ids_mem: "c \<in> set (launch_ids fs) \<longleftrightarrow> (\<exists>f \<in> set fs. launch_id f = Some c)"
  by (induction fs) (auto split: option.splits)

text \<open>
  What a piece has to establish: entries and flights that stay are kept by extending the state
  when their entry of the table keeps its handle; the rest is shown for each piece.
\<close>

lemma extends_refl [simp]: "extends s s"
  by (simp add: extends_def)

lemma loads_generic_cong:
  "\<lbrakk>loads_generic s; cp_supports s' = cp_supports s; {(p, m). CallLoad p m \<in> set (cp_calls s')} \<subseteq> {(p, m). CallLoad p m \<in> set (cp_calls s)}\<rbrakk>
   \<Longrightarrow> loads_generic s'"
  by (auto simp: loads_generic_def generic_def)

lemma pieces_generic:
  "loads_generic s \<Longrightarrow> loads_generic (launch_register i s)" "loads_generic s \<Longrightarrow> loads_generic (launch_abort c s)"
  "loads_generic s \<Longrightarrow> loads_generic (launch_finish i s)" "loads_generic s \<Longrightarrow> loads_generic (set_state c st s)"
  "loads_generic s \<Longrightarrow> loads_generic (stop_finish c r s)" "loads_generic s \<Longrightarrow> loads_generic (snd (compute_start h s))"
  "loads_generic s \<Longrightarrow> loads_generic (snd (compute_stop h s))" "loads_generic s \<Longrightarrow> loads_generic (cleanup_stopped s)"
  by (erule loads_generic_cong; auto simp: launch_register_def launch_abort_def set_state_def launch_finish_def
      stop_finish_def compute_start_def compute_stop_def cleanup_stopped_def)+

text \<open>A change of the table that only updates states and removes entries.\<close>

definition keeps_handles :: "'a capsules_scheme \<Rightarrow> 'a capsules_scheme \<Rightarrow> bool" where
  "keeps_handles s s' = (\<forall>c. case hm_get (cap_table s') c of None \<Rightarrow> True
     | Some i \<Rightarrow> (case hm_get (cap_table s) c of None \<Rightarrow> False | Some j \<Rightarrow> i = j\<lparr>ci_state := ci_state i\<rparr>))"

lemma flight_ok_keep:
  assumes "extends s s'" "keeps_handles s s'" "flight_ok s f"
  shows "flight_ok s' f"
proof -
  have n: "hm_get (cap_table s') c = None" if "hm_get (cap_table s) c = None" for c
    using assms(2) that unfolding keeps_handles_def by (metis (no_types, lifting) option.case_eq_if option.simps(4))
  have h: "holds_handle s' i" if "holds_handle s i" for i
  proof (cases "hm_get (cap_table s') (ci_id i)")
    case (Some j)
    then obtain k where "hm_get (cap_table s) (ci_id i) = Some k" "j = k\<lparr>ci_state := ci_state j\<rparr>"
      using assms(2) unfolding keeps_handles_def by (auto dest!: spec[of _ "ci_id i"] split: option.splits)
    then show ?thesis using that Some by (auto simp: holds_handle_def) (metis capsule_info.select_convs(6) capsule_info.surjective capsule_info.update_convs(3))
  qed (simp add: holds_handle_def)
  show ?thesis
    using assms(1,3) n h by (cases f) (auto intro: extends_loaded extends_started)
qed

lemma keeps_same_table: "cap_table s' = cap_table s \<Longrightarrow> keeps_handles s s'"
  by (auto simp: keeps_handles_def split: option.split)

lemma keeps_state: "cap_table s' = hm_modify c (\<lambda>i. i\<lparr>ci_state := st\<rparr>) (cap_table s) \<Longrightarrow> keeps_handles s s'"
  by (auto simp: keeps_handles_def split: option.split)

lemma keeps_remove: "cap_table s' = hm_remove c (cap_table s) \<Longrightarrow> keeps_handles s s'"
  by (auto simp: keeps_handles_def split: option.split)

lemma keeps_cleanup: "hm_wf (cap_table s) \<Longrightarrow> keeps_handles s (cleanup_stopped s)"
  by (auto simp: keeps_handles_def cleanup_stopped_def hm_get_retain split: option.split)

lemma lifecycle_keep:
  assumes inv: "lifecycle_inv (s, fs, used)" and ext: "extends s s'" and keep: "keeps_handles s s'"
    and wf: "hm_wf (cap_table s')" and gen: "loads_generic s'"
    and new: "\<And>f. f \<in> set fs' \<Longrightarrow> f \<in> set fs \<or> flight_ok s' f"
    and ids: "distinct (launch_ids fs')" "set (launch_ids fs') \<subseteq> used"
    and st: "\<And>c i. hm_get (cap_table s') c = Some i \<Longrightarrow> ci_state i \<noteq> Suspended
       \<and> (ci_state i = Starting \<longrightarrow> (\<exists>f \<in> set fs'. launch_id f = Some c \<and> \<not> is_loaded f))
       \<and> (ci_state i = Running \<longrightarrow> started s' (ci_handle i))"
  shows "lifecycle_inv (s', fs', used)"
proof -
  have e: "c \<in> used \<and> entry_ok s' fs' c i" if i: "hm_get (cap_table s') c = Some i" for c i
  proof -
    obtain j where j: "hm_get (cap_table s) c = Some j" "i = j\<lparr>ci_state := ci_state i\<rparr>"
      using keep i unfolding keeps_handles_def by (auto dest!: spec[of _ c] split: option.splits)
    then have "ci_id i = ci_id j" "ci_manifest i = ci_manifest j" "ci_handle i = ci_handle j"
      by (metis capsule_info.select_convs(1,2,6) capsule_info.surjective capsule_info.update_convs(3))+
    moreover have "c \<in> used" "ci_id j = c" "loaded s j" using inv j(1) by (auto simp: lifecycle_inv_def entry_ok_def)
    moreover have "loaded s' j" using extends_loaded[OF ext] calculation by blast
    ultimately show ?thesis using st[OF i] by (simp add: entry_ok_def loaded_def)
  qed
  moreover have "flight_ok s' f" if "f \<in> set fs'" for f
    using new[OF that] inv flight_ok_keep[OF ext keep] by (auto simp: lifecycle_inv_def)
  ultimately show ?thesis using wf gen ids by (auto simp: lifecycle_inv_def)
qed

lemma lifecycle_invD:
  assumes "lifecycle_inv (s, fs, used)"
  shows "hm_wf (cap_table s)" "loads_generic s" "f \<in> set fs \<Longrightarrow> flight_ok s f" "distinct (launch_ids fs)"
    "set (launch_ids fs) \<subseteq> used" "hm_get (cap_table s) c = Some i \<Longrightarrow> c \<in> used \<and> entry_ok s fs c i"
  using assms by (auto simp: lifecycle_inv_def)

lemma stop_mark_Inr: "stop_mark c s = (Inr h, s') \<Longrightarrow> s' = set_state c Stopping s"
  by (auto simp: stop_mark_def split: option.splits)

lemma launch_start_cases:
  assumes "launch_start c s = (r, s')"
  shows "cap_table s' = cap_table s \<and> extends s s' \<and> (loads_generic s \<longrightarrow> loads_generic s')
    \<and> (\<forall>i. hm_get (cap_table s) c = Some i \<longrightarrow> r = Inr () \<longrightarrow> started s' (ci_handle i))"
proof (cases "hm_get (cap_table s) c")
  case None
  then show ?thesis using assms by (simp add: launch_start_def)
next
  case (Some i)
  then have s': "s' = snd (compute_start (ci_handle i) s)" and r: "r = fst (compute_start (ci_handle i) s)"
    using assms by (simp_all add: launch_start_def)
  have "r = Inr () \<Longrightarrow> started s' (ci_handle i)"
    unfolding s' r compute_start_def started_def by (intro exI[of _ "length (cp_calls s)"]) simp
  moreover have "cap_table s' = cap_table s" by (simp add: s' compute_start_def)
  ultimately show ?thesis using Some s' pieces_generic(6) by auto
qed

lemma compute_stop_table [simp]: "cap_table (snd (compute_stop h s)) = cap_table s"
  by (simp add: compute_stop_def)

lemma lifecycle_step: "\<lbrakk>capsule_step X x y; lifecycle_inv x\<rbrakk> \<Longrightarrow> lifecycle_inv y"
proof (induction rule: capsule_step.induct)
  case (cs_load path m cid trust s i s' used fs)
  note d = lifecycle_invD[OF cs_load.prems] and l = launch_load_cases[OF cs_load.hyps(1)]
  have "lifecycle_inv (s', fs, used)"
    by (rule lifecycle_keep[OF cs_load.prems])
      (use l d extends_started in \<open>auto simp: keeps_same_table entry_ok_def dest!: d(6)\<close>)
  then have i: "lifecycle_inv (s', fs, insert (ci_id i) used)" by (auto simp: lifecycle_inv_def)
  have "hm_get (cap_table s') (ci_id i) = None" using cs_load.hyps(2) d(6) l by (metis option.exhaust)
  then show ?case
    using i l cs_load.hyps(2) d(5) by (auto simp: lifecycle_inv_def entry_ok_def)
next
  case (cs_refused path m cid trust s e s' fs used)
  note d = lifecycle_invD[OF cs_refused.prems] and l = launch_load_cases[OF cs_refused.hyps(1)]
  show ?case
    by (rule lifecycle_keep[OF cs_refused.prems])
      (use l d extends_started in \<open>auto simp: keeps_same_table entry_ok_def dest!: d(6)\<close>)
next
  case (cs_register s fs i gs used)
  note d = lifecycle_invD[OF cs_register.prems]
  have li: "loaded s i" "ci_state i = Starting" "hm_get (cap_table s) (ci_id i) = None"
    using d(3)[of "Loaded i"] by auto
  let ?s = "launch_register i s" and ?fs = "fs @ Registered i # gs"
  have x: "extends s ?s" by simp
  have "entry_ok ?s ?fs c j \<and> c \<in> used" if "hm_get (cap_table ?s) c = Some j" for c j
  proof (cases "c = ci_id i")
    case True
    then show ?thesis using that li extends_loaded[OF x li(1)] d(5) by (auto simp: entry_ok_def)
  next
    case False
    then have "entry_ok s (fs @ Loaded i # gs) c j" "c \<in> used" using that d(6) by auto
    then show ?thesis using extends_loaded[OF x] extends_started[OF x] by (auto simp: entry_ok_def)
  qed
  moreover have "flight_ok ?s f" if f: "f \<in> set ?fs" for f
  proof (cases "f = Registered i")
    case True
    then show ?thesis by (simp add: holds_handle_def)
  next
    case False
    then have m: "f \<in> set (fs @ gs)" and ok: "flight_ok s f" using f d(3)[of f] by auto
    have "launch_id f \<noteq> Some (ci_id i)" using m d(4) launch_ids_mem by fastforce
    then show ?thesis
      using ok extends_loaded[OF x] extends_started[OF x] by (cases f) (auto simp: holds_handle_def)
  qed
  ultimately show ?case using d(1,2,4,5) by (auto simp: lifecycle_inv_def pieces_generic)
next
  case (cs_start i s u s' fs gs used)
  note d = lifecycle_invD[OF cs_start.prems] and l = launch_start_cases[OF cs_start.hyps(1)]
  have "flight_ok s (Registered i)" by (rule d(3)) simp
  then have "flight_ok s' (Started i)" using l by (auto simp: holds_handle_def split: option.splits)
  then show ?case
    by (intro lifecycle_keep[OF cs_start.prems])
      (use l d(1,2,4,5) in \<open>auto simp: keeps_same_table entry_ok_def dest!: d(6) intro: extends_started\<close>)
next
  case (cs_fail i s e s' fs gs used)
  note d = lifecycle_invD[OF cs_fail.prems] and l = launch_start_cases[OF cs_fail.hyps(1)]
  show ?case
    by (rule lifecycle_keep[OF cs_fail.prems])
      (use l d(1,2,4,5) in \<open>auto simp: keeps_same_table entry_ok_def dest!: d(6) intro: extends_started\<close>)
next
  case (cs_abort s fs i e gs used)
  note d = lifecycle_invD[OF cs_abort.prems]
  show ?case
    by (rule lifecycle_keep[OF cs_abort.prems pieces_extend(2) keeps_remove])
      (use d(1,2,4,5) in \<open>auto simp: pieces_generic entry_ok_def dest!: d(6) split: if_splits
        intro: extends_started[OF pieces_extend(2)]\<close>)
next
  case (cs_finish s fs i gs used)
  note d = lifecycle_invD[OF cs_finish.prems]
  have "flight_ok s (Started i)" by (rule d(3)) simp
  then have fin: "started (launch_finish i s) (ci_handle z)" if "hm_get (cap_table s) (ci_id i) = Some z" for z
    using that extends_started[OF pieces_extend(3)] by (auto simp: holds_handle_def)
  show ?case
  proof (rule lifecycle_keep[OF cs_finish.prems pieces_extend(3) keeps_state])
    fix c j assume "hm_get (cap_table (launch_finish i s)) c = Some j"
    then obtain z where z: "hm_get (cap_table s) c = Some z" "ci_handle j = ci_handle z"
      "ci_state j = (if c = ci_id i then Running else ci_state z)" by (auto split: if_splits)
    have e: "entry_ok s (fs @ Started i # gs) c z" using d(6)[OF z(1)] by simp
    show "ci_state j \<noteq> Suspended
       \<and> (ci_state j = Starting \<longrightarrow> (\<exists>f \<in> set (fs @ gs). launch_id f = Some c \<and> \<not> is_loaded f))
       \<and> (ci_state j = Running \<longrightarrow> started (launch_finish i s) (ci_handle j))"
    proof (cases "c = ci_id i")
      case True
      then show ?thesis using z fin by simp
    next
      case False
      then show ?thesis using z e extends_started[OF pieces_extend(3)] by (auto simp: entry_ok_def)
    qed
  qed (use d(1,2,4,5) in \<open>auto simp: pieces_generic\<close>)
next
  case (cs_mark c s h s' fs used r)
  note d = lifecycle_invD[OF cs_mark.prems] and s' = stop_mark_Inr[OF cs_mark.hyps(1)]
  show ?case unfolding s'
    by (rule lifecycle_keep[OF cs_mark.prems pieces_extend(4) keeps_state])
      (use d(1,2,4,5) in \<open>auto simp: pieces_generic entry_ok_def dest!: d(6) split: if_splits
        intro: extends_started[OF pieces_extend(4)]\<close>)
next
  case (cs_halt h s u s' fs c r gs used)
  note d = lifecycle_invD[OF cs_halt.prems]
  have s': "s' = snd (compute_stop h s)" using cs_halt.hyps(1) by simp
  show ?case unfolding s'
    by (rule lifecycle_keep[OF cs_halt.prems pieces_extend(7) keeps_same_table])
      (use d(1,2,4,5) in \<open>auto simp: pieces_generic entry_ok_def dest!: d(6) intro: extends_started[OF pieces_extend(7)]\<close>)
next
  case (cs_stuck h s e s' fs c r gs used)
  note d = lifecycle_invD[OF cs_stuck.prems]
  have s': "s' = snd (compute_stop h s)" using cs_stuck.hyps(1) by simp
  show ?case unfolding s'
    by (rule lifecycle_keep[OF cs_stuck.prems pieces_extend(7) keeps_same_table])
      (use d(1,2,4,5) in \<open>auto simp: pieces_generic entry_ok_def dest!: d(6) intro: extends_started[OF pieces_extend(7)]\<close>)
next
  case (cs_stopped s fs c r gs used)
  note d = lifecycle_invD[OF cs_stopped.prems]
  show ?case
    by (rule lifecycle_keep[OF cs_stopped.prems pieces_extend(5) keeps_state])
      (use d(1,2,4,5) in \<open>auto simp: pieces_generic entry_ok_def dest!: d(6) split: if_splits
        intro: extends_started[OF pieces_extend(5)]\<close>)
next
  case (cs_cleanup s fs used)
  note d = lifecycle_invD[OF cs_cleanup.prems]
  have t: "cap_table (cleanup_stopped s) = hm_retain (\<lambda>_ i. ci_state i \<noteq> Stopped) (cap_table s)" by (simp add: cleanup_stopped_def)
  show ?case
    by (rule lifecycle_keep[OF cs_cleanup.prems pieces_extend(8) keeps_cleanup[OF d(1)]])
      (use d(1,2,4,5) in \<open>auto simp: pieces_generic t hm_get_retain entry_ok_def dest!: d(6) split: option.splits if_splits
        intro: extends_started[OF pieces_extend(8)]\<close>)
qed

text \<open>
  Property C24. However launches, stops and clean-ups interleave: only manifests of the generic
  execution kinds that the compute provider supports are ever loaded; every capsule in the table
  stands under its own id, with a handle the provider gave for its manifest; one that is starting
  has its launch in progress, and one that is running was started successfully. No capsule is
  suspended.
\<close>

theorem capsule_lifecycle_inv:
  assumes "(capsule_step X)\<^sup>*\<^sup>* (s\<^sub>0, [], {}) (s, fs, used)" and "cap_table s\<^sub>0 = []" and "cp_calls s\<^sub>0 = []"
  shows "(\<forall>path m. CallLoad path m \<in> set (cp_calls s) \<longrightarrow>
        execution_type m \<notin> {WebProjection, NativeProvider, NativeHost} \<and> cp_supports s (mf_capsule_type m))
    \<and> (\<forall>c i. hm_get (cap_table s) c = Some i \<longrightarrow> ci_id i = c \<and> loaded s i \<and> ci_state i \<noteq> Suspended
        \<and> (ci_state i = Starting \<longrightarrow> (\<exists>f \<in> set fs. launch_id f = Some c \<and> \<not> is_loaded f))
        \<and> (ci_state i = Running \<longrightarrow> started s (ci_handle i)))"
proof -
  have "lifecycle_inv (s\<^sub>0, [], {})" using assms(2,3) by (simp add: lifecycle_inv_def loads_generic_def)
  with assms(1) have "lifecycle_inv (s, fs, used)"
    by (induction rule: rtranclp_induct) (auto intro: lifecycle_step)
  then show ?thesis by (auto simp: lifecycle_inv_def entry_ok_def loads_generic_def generic_def)
qed

subsection \<open>Calls one after the other\<close>

lemma launch_load_Inr:
  assumes "launch_load X path m cid trust s = (Inr i, s')"
  shows "ci_id i = fst (capsule_id_new X s)" "ci_manifest i = m" "ci_cid i = cid" "ci_trust_level i = trust"
    "ci_state i = Starting" "cp_calls s' = cp_calls s @ [CallLoad path m]"
    "audit_buffer s' = audit_buffer s" "generic m s" "cp_load s (length (cp_calls s)) path m = Inr (ci_handle i)"
proof -
  have n: "launch_refused m s = None" using assms by (auto simp: launch_load_def split: option.splits)
  then show "generic m s" by (auto simp: launch_refused_def generic_def split: if_splits)
  show "ci_id i = fst (capsule_id_new X s)" "ci_manifest i = m" "ci_cid i = cid" "ci_trust_level i = trust"
    "ci_state i = Starting" "cp_calls s' = cp_calls s @ [CallLoad path m]"
    "audit_buffer s' = audit_buffer s" "cp_load s (length (cp_calls s)) path m = Inr (ci_handle i)"
    using assms n
    by (auto simp: launch_load_def Let_def prod.case_eq_if andthen_Inr compute_load_def capsule_id_new_def draw_uuid_bytes_def
        start_capsule_def capsule_metrics_new_def read_wall_def)
qed

lemma launch_load_Inl:
  "launch_load X path m cid trust s = (Inl e, s') \<Longrightarrow> audit_buffer s' = audit_buffer s"
  by (auto simp: launch_load_def Let_def prod.case_eq_if compute_load_def capsule_id_new_def draw_uuid_bytes_def
      start_capsule_def capsule_metrics_new_def read_wall_def split: option.splits)

lemma capsule_launch_buffer:
  "\<exists>t. audit_buffer (capsule_launch c n d tr s) = push_event (CapsuleLaunch t c n d tr) (audit_buffer s)"
  by (auto simp: capsule_launch_def Let_def ts_now_def read_wall_def fetch_counter_def)

lemma audit_buffer_pieces [simp]:
  "audit_buffer (launch_register i s) = audit_buffer s" "audit_buffer (set_state c st s) = audit_buffer s"
  "audit_buffer (launch_abort c s) = audit_buffer s" "audit_buffer (snd (compute_start h s)) = audit_buffer s"
  by (simp_all add: launch_register_def set_state_def launch_abort_def stop_capsule_def compute_start_def)

text \<open>
  Property C25. A launch that runs undisturbed, its id being new, does all or nothing. If it
  succeeds, the manifest is of a generic, supported kind, the provider has loaded and then
  started it, the capsule is in the table under the new id as running, with the trust level and
  content id it was launched with, and one launch event is logged. If it fails, the table is the
  one before and nothing is logged.
\<close>

theorem launch_all_or_nothing:
  assumes "launch_internal X path m cid trust s = (r, s')"
    and "hm_get (cap_table s) (fst (capsule_id_new X s)) = None"
  shows "case r of
      Inl e \<Rightarrow> hm_get (cap_table s') = hm_get (cap_table s) \<and> audit_buffer s' = audit_buffer s
    | Inr c \<Rightarrow> c = fst (capsule_id_new X s) \<and> generic m s
        \<and> (\<exists>h t. cp_load s (length (cp_calls s)) path m = Inr h \<and> cp_start s (Suc (length (cp_calls s))) h = Inr ()
            \<and> cp_calls s' = cp_calls s @ [CallLoad path m, CallStart h]
            \<and> hm_get (cap_table s') = (hm_get (cap_table s))(c \<mapsto> \<lparr>ci_id = c, ci_manifest = m, ci_state = Running,
                 ci_cid = cid, ci_trust_level = trust, ci_handle = h\<rparr>)
            \<and> audit_buffer s' = push_event (CapsuleLaunch t c (mf_name m) cid trust) (audit_buffer s))"
proof -
  obtain q s1 where q: "launch_load X path m cid trust s = (q, s1)" by fastforce
  note l = launch_load_cases[OF q]
  show ?thesis
  proof (cases q)
    case (Inl e)
    then show ?thesis using assms(1) q l launch_load_Inl by (auto simp: launch_internal_def)
  next
    case (Inr i)
    note f = launch_load_Inr[OF q[unfolded Inr]]
    let ?s = "launch_register i s1"
    have g: "hm_get (cap_table ?s) (ci_id i) = Some i" by simp
    then have st: "launch_start (ci_id i) ?s = compute_start (ci_handle i) ?s" by (simp add: launch_start_def)
    have c: "cp_calls ?s = cp_calls s @ [CallLoad path m]" "cp_start ?s = cp_start s"
      using f(6) l by (auto simp: launch_register_def extends_def)
    have tab: "hm_get (cap_table s1) = hm_get (cap_table s)" using l by simp
    show ?thesis
    proof (cases "cp_start s (Suc (length (cp_calls s))) (ci_handle i)")
      case e: (Inl e)
      have "r = Inl e" "s' = launch_abort (ci_id i) (snd (compute_start (ci_handle i) ?s))"
        using assms(1) q Inr e c st by (simp_all add: launch_internal_def Let_def compute_start_def)
      then show ?thesis
        using tab assms(2) f(1,7) by (auto simp: compute_start_def fun_eq_iff) 
    next
      case u: (Inr u)
      let ?t = "snd (compute_start (ci_handle i) ?s)"
      have r: "r = Inr (ci_id i)" "s' = launch_finish i ?t"
        using assms(1) q Inr u c st by (simp_all add: launch_internal_def Let_def compute_start_def)
      have calls: "cp_calls s' = cp_calls s @ [CallLoad path m, CallStart (ci_handle i)]"
        using r(2) c by (simp add: launch_finish_def set_state_def compute_start_def)
      have ct: "cap_table ?t = hm_insert (ci_id i) i (cap_table s1)" by (simp add: compute_start_def)
      have ri: "i\<lparr>ci_state := Running\<rparr> = \<lparr>ci_id = ci_id i, ci_manifest = m, ci_state = Running,
          ci_cid = cid, ci_trust_level = trust, ci_handle = ci_handle i\<rparr>"
        using f(2-4) by (cases i) simp
      have table: "hm_get (cap_table s') = (hm_get (cap_table s))(ci_id i \<mapsto> i\<lparr>ci_state := Running\<rparr>)"
        using r(2) ct tab by (auto simp: fun_eq_iff)
      obtain t where log: "audit_buffer s' = push_event (CapsuleLaunch t (ci_id i) (mf_name m) cid trust) (audit_buffer s)"
        using capsule_launch_buffer[of "ci_id i" "mf_name m" cid trust "set_state (ci_id i) Running ?t"] r(2) f(2-4,7)
        by (auto simp: launch_finish_def)
      show ?thesis using r(1) f(1,8,9) u calls table log unfolding ri by auto
    qed
  qed
qed

text \<open>
  A stop that runs undisturbed. When the compute provider fails to stop the capsule, the capsule
  stays in the state of one that is stopping: no shutdown lists it as running again, and no
  clean-up removes it.
\<close>

lemma stop_outcome:
  "stop c reason s = (r, s') \<Longrightarrow> case hm_get (cap_table s) c of
      None \<Rightarrow> r = Inl (CapsuleNotFound (''Capsule not found: '' @ c)) \<and> s' = s
    | Some i \<Rightarrow> hm_get (cap_table s') = (hm_get (cap_table s))(c \<mapsto> i\<lparr>ci_state := (if r = Inr () then Stopped else Stopping)\<rparr>)
        \<and> r = cp_stop s (length (cp_calls s)) (ci_handle i) \<and> cp_calls s' = cp_calls s @ [CallStop (ci_handle i)]"
  by (auto simp: stop_def stop_mark_def Let_def compute_stop_def set_state_def stop_finish_def fun_eq_iff
      split: option.splits prod.splits sum.splits)

lemma failed_stop_sticks:
  assumes "hm_wf (cap_table s)" and "hm_get (cap_table s) c = Some i" and "stop c reason s = (Inl e, s')"
  shows "c \<notin> set (list_running s') \<and> hm_get (cap_table (cleanup_stopped s')) c = Some (i\<lparr>ci_state := Stopping\<rparr>)"
proof -
  have t: "cap_table s' = hm_modify c (\<lambda>i. i\<lparr>ci_state := Stopping\<rparr>) (cap_table s)"
    using assms(2,3) by (auto simp: stop_def stop_mark_def Let_def compute_stop_def set_state_def split: prod.splits sum.splits)
  have w: "hm_wf (cap_table s')" using assms(1) t by simp
  have g: "hm_get (cap_table s') c = Some (i\<lparr>ci_state := Stopping\<rparr>)" using t assms(2) by simp
  have "c \<notin> set (list_running s')"
    using g w by (auto simp: list_running_def hm_get_Some_mem[symmetric])
  then show ?thesis using g w by (simp add: cleanup_stopped_def hm_get_retain)
qed

subsection \<open>Runs\<close>

definition demo_handle :: capsule_handle where
  "demo_handle = \<lparr>ch_id = ''h'', ch_manifest = demo_manifest, ch_args = []\<rparr>"

definition demo_capsules :: capsules where
  "demo_capsules = content.extend (demo_content\<lparr>uuid_bytes := (\<lambda>n. [of_nat n]), uuid_draws := 0\<rparr>)
     (capsules.fields [] (\<lambda>t. t = Wasm) (\<lambda>n path m. Inr demo_handle) (\<lambda>n h. Inr ()) (\<lambda>n h. Inr ()) [])"

lemma demo_capsules_sel [simp]:
  "cap_table demo_capsules = []" "cp_calls demo_capsules = []" "cp_load demo_capsules n p m = Inr demo_handle"
  "cp_start demo_capsules n h = Inr ()" "cp_stop demo_capsules n h = Inr ()" "cp_supports demo_capsules t = (t = Wasm)"
  "uuid_bytes demo_capsules = (\<lambda>n. [of_nat n])" "uuid_draws demo_capsules = 0"
  by (simp_all add: demo_capsules_def content.extend_def capsules.fields_def demo_content_def)

lemma demo_generic: "generic demo_manifest demo_capsules"
  using execution_type_by_role[OF demo_manifest_valid] declared_execution_effective[OF demo_manifest_valid]
  by (simp add: generic_def execution_type_def is_runtime_projection_def is_component_capsule_def demo_manifest_def
      ELASTOS_RUNTIME_PROJECTION_V1_CONTRACT_def ELASTOS_BUS_V1_CONTRACT_def)

definition demo_launched :: capsules where
  "demo_launched = snd (launch_load demo_ext ''/c'' demo_manifest None Untrusted demo_capsules)"

definition demo_info :: capsule_info where
  "demo_info = \<lparr>ci_id = ''cap-00'', ci_manifest = demo_manifest, ci_state = Starting, ci_cid = None,
     ci_trust_level = Untrusted, ci_handle = demo_handle\<rparr>"

lemma demo_capsule_load: "launch_load demo_ext ''/c'' demo_manifest None Untrusted demo_capsules = (Inr demo_info, demo_launched)"
proof -
  have hx: "demo_hex [0] = ''00''" by code_simp
  have "fst (launch_load demo_ext ''/c'' demo_manifest None Untrusted demo_capsules) = Inr demo_info"
    using demo_generic
    by (simp add: launch_load_def launch_refused_def generic_def Let_def prod.case_eq_if compute_load_def capsule_id_new_def
        draw_uuid_bytes_def demo_info_def start_capsule_def capsule_metrics_new_def read_wall_def hx del: demo_hex.simps)
  then show ?thesis unfolding demo_launched_def by (metis prod.collapse)
qed

theorem capsule_lifecycle_inv_witness:
  "\<exists>s fs used. (capsule_step demo_ext)\<^sup>*\<^sup>* (demo_capsules, [], {}) (s, fs, used)
     \<and> map_option ci_state (hm_get (cap_table s) ''cap-00'') = Some Running \<and> started s demo_handle"
proof -
  let ?s2 = "launch_register demo_info demo_launched"
  let ?s3 = "snd (launch_start ''cap-00'' ?s2)"
  let ?u = "{''cap-00''}"
  have id: "ci_id demo_info = ''cap-00''" by (simp add: demo_info_def)
  have l: "cap_table demo_launched = []" "extends demo_capsules demo_launched"
    using launch_load_cases[OF demo_capsule_load] by simp_all
  have st: "launch_start (ci_id demo_info) ?s2 = (Inr (), ?s3)"
    using l by (simp add: launch_start_def compute_start_def id[symmetric] extends_def launch_register_def)
  have run: "(capsule_step demo_ext)\<^sup>*\<^sup>* (demo_capsules, [], {}) (launch_finish demo_info ?s3, [], ?u)"
    using cs_load[OF demo_capsule_load, where used = "{}" and fs = "[]"] cs_register[where X = demo_ext and s = demo_launched and fs = "[]" and i = demo_info and gs = "[]" and used = ?u]
      cs_start[OF st, where X = demo_ext and fs = "[]" and gs = "[]" and used = ?u] cs_finish[where X = demo_ext and s = ?s3 and fs = "[]" and i = demo_info and gs = "[]" and used = ?u]
    by (auto simp: id intro: rtranclp_trans r_into_rtranclp)
  have t: "cap_table ?s3 = [(''cap-00'', demo_info)]"
    using launch_start_cases[OF st] l by (simp add: id hm_insert_def)
  have g: "hm_get (cap_table (launch_finish demo_info ?s3)) ''cap-00'' = Some (demo_info\<lparr>ci_state := Running\<rparr>)"
    by (simp add: t id hm_get_def hm_modify_def)
  note iv = capsule_lifecycle_inv[OF run demo_capsules_sel(1,2), THEN conjunct2, THEN spec, THEN spec, THEN mp, OF g]
  have "started (launch_finish demo_info ?s3) (ci_handle (demo_info\<lparr>ci_state := Running\<rparr>))" using iv by simp
  then have "started (launch_finish demo_info ?s3) demo_handle" by (simp add: demo_info_def)
  moreover have "map_option ci_state (hm_get (cap_table (launch_finish demo_info ?s3)) ''cap-00'') = Some Running"
    by (simp only: g) simp
  ultimately show ?thesis using run by blast
qed

theorem launch_all_or_nothing_witness:
  "\<exists>s'. launch_internal demo_ext ''/c'' demo_manifest None Untrusted demo_capsules = (Inr ''cap-00'', s')
     \<and> cp_calls s' = [CallLoad ''/c'' demo_manifest, CallStart demo_handle]"
proof -
  let ?s2 = "launch_register demo_info demo_launched"
  have "extends demo_capsules demo_launched" using launch_load_cases[OF demo_capsule_load] by simp
  then have c: "cp_start ?s2 = cp_start demo_capsules" by (simp add: extends_def launch_register_def)
  have g: "hm_get (cap_table ?s2) ''cap-00'' = Some demo_info" by (simp add: demo_info_def)
  have id: "ci_id demo_info = ''cap-00''" by (simp add: demo_info_def)
  have st: "fst (launch_start ''cap-00'' ?s2) = Inr ()" by (simp add: launch_start_def compute_start_def c id)
  obtain s' where r: "launch_internal demo_ext ''/c'' demo_manifest None Untrusted demo_capsules = (Inr ''cap-00'', s')"
    using demo_capsule_load st by (simp add: launch_internal_def Let_def prod.case_eq_if demo_info_def)
  then show ?thesis using launch_all_or_nothing[OF r] by auto
qed

text \<open>
  A stop between starting a capsule and marking it as running: the launch finishes last, and
  the table lists as running a capsule whose instance has been stopped.
\<close>

lemma stop_during_launch_resurrects:
  "\<exists>s used. (capsule_step demo_ext)\<^sup>*\<^sup>* (demo_capsules, [], {}) (s, [], used)
     \<and> list_running s = [''cap-00''] \<and> last (cp_calls s) = CallStop demo_handle"
proof -
  let ?s2 = "launch_register demo_info demo_launched"
  let ?s3 = "snd (launch_start ''cap-00'' ?s2)"
  let ?s4 = "set_state ''cap-00'' Stopping ?s3"
  let ?s5 = "snd (compute_stop demo_handle ?s4)"
  let ?s6 = "stop_finish ''cap-00'' Requested ?s5"
  let ?u = "{''cap-00''}"
  have id: "ci_id demo_info = ''cap-00''" "ci_handle demo_info = demo_handle" by (simp_all add: demo_info_def)
  have l: "cap_table demo_launched = []" "extends demo_capsules demo_launched" "cp_stop demo_launched = cp_stop demo_capsules"
    using launch_load_cases[OF demo_capsule_load]
    by (auto simp: demo_launched_def launch_load_def Let_def prod.case_eq_if compute_load_def capsule_id_new_def
        draw_uuid_bytes_def start_capsule_def capsule_metrics_new_def read_wall_def split: option.split)
  have st: "launch_start (ci_id demo_info) ?s2 = (Inr (), ?s3)"
    using l by (simp add: launch_start_def compute_start_def id(1)[symmetric] extends_def launch_register_def)
  have t: "cap_table ?s3 = [(''cap-00'', demo_info)]"
    using launch_start_cases[OF st] l by (simp add: id hm_insert_def)
  have mk: "stop_mark ''cap-00'' ?s3 = (Inr demo_handle, ?s4)" by (simp add: stop_mark_def t hm_get_def id)
  have h: "compute_stop demo_handle ?s4 = (Inr (), ?s5)"
    using l(3) by (simp add: compute_stop_def set_state_def launch_start_def compute_start_def launch_register_def split: option.split)
  have run: "(capsule_step demo_ext)\<^sup>*\<^sup>* (demo_capsules, [], {}) (launch_finish demo_info ?s6, [], ?u)"
    using cs_load[OF demo_capsule_load, where used = "{}" and fs = "[]"] cs_register[where X = demo_ext and s = demo_launched and fs = "[]" and i = demo_info and gs = "[]" and used = ?u]
      cs_start[OF st, where X = demo_ext and fs = "[]" and gs = "[]" and used = ?u] cs_mark[OF mk, where X = demo_ext and fs = "[Started demo_info]" and used = ?u and r = Requested]
      cs_halt[OF h, where X = demo_ext and fs = "[]" and c = "''cap-00''" and r = Requested and gs = "[Started demo_info]" and used = ?u]
      cs_stopped[where X = demo_ext and s = ?s5 and fs = "[]" and c = "''cap-00''" and r = Requested and gs = "[Started demo_info]" and used = ?u]
      cs_finish[where X = demo_ext and s = ?s6 and fs = "[]" and i = demo_info and gs = "[]" and used = ?u]
    by (auto simp: id intro: rtranclp_trans r_into_rtranclp)
  have "list_running (launch_finish demo_info ?s6) = [''cap-00'']"
    by (simp add: list_running_def t id hm_modify_def compute_stop_def)
  moreover have "last (cp_calls (launch_finish demo_info ?s6)) = CallStop demo_handle"
    by (simp add: launch_finish_def set_state_def stop_finish_def compute_stop_def)
  ultimately show ?thesis using run by blast
qed

end
