(* ===== verification/Request_Handler.thy ===== *)
theory Request_Handler
  imports Capsule_Manager Messaging Provider_Stream
begin

section \<open>Runtime-control requests\<close>

text \<open>
  \<^verbatim>\<open>elastos-runtime/src/handler/protocol.rs\<close>, \<^verbatim>\<open>handler/request_handler.rs\<close> and
  \<^verbatim>\<open>capsule/fetched_launch.rs\<close>: the requests of the shell and of the capsules, the checks each
  has to pass, and what it reaches: the capsule table, the capability manager, the message
  channel, the content resolver, the providers. A request is handled in one piece. JSON
  parsing of tokens and manifests is a parameter, the unpacked archive an oracle.
\<close>

subsection \<open>The protocol\<close>

record launch_config =
  lc_env :: "(string \<times> string) list"
  lc_args :: "string list"

record grant_constraints =
  gc_max_uses :: "u32 option"
  gc_expiry_secs :: "u64 option"
  gc_delegatable :: bool

datatype runtime_request =
  ListCapsules
| LaunchCapsule (rr_cid: string) launch_config
| StopCapsule (rr_capsule: string)
| GrantCapability (rr_capsule: string) (rr_resource: string) (rr_action: string) grant_constraints
| RevokeCapability (rr_token_id: string)
| SendMessage (rr_to: string) (rr_payload: bytes) "string option" "string option"
| ReceiveMessages
| FetchContent (rr_uri: string) "string option"
| StorageRead string (rr_path: string)
| StorageWrite string (rr_path: string) bytes
| GetRuntimeInfo
| Ping
| WindowControl string string "string option" "u32 option" "u32 option"
| ResourceRequest (rr_uri: string) (rr_action: string) "json option" "string option"

record capsule_list_entry =
  cle_id :: string
  cle_name :: string
  cle_status :: string

record incoming_message =
  im_id :: string
  im_from :: string
  im_payload :: bytes
  im_timestamp :: u64
  im_reply_to :: "string option"

datatype runtime_response =
  RespOk "json option"
| RespError (resp_code: string) string
| RespCapsuleList "capsule_list_entry list"
| RespCapsuleLaunched string
| RespCapabilityGranted string
| RespMessages "incoming_message list"
| RespContent bytes
| RespStorageData bytes
| RespRuntimeInfo string nat
| RespPong
| RespResource "json option" "json list option" "bool option" "json option"

subsection \<open>Fetched bundles\<close>

text \<open>
  The staging directory as the file system shows it, links followed: a file or something else,
  each with what reading it gives, a directory with what listing it gives, or a directory that
  cannot be listed.
\<close>

datatype bundle_node =
  BFile "string + bytes"
| BOther "string + bytes"
| BDir "bundle_entry list"
| BUnreadable string
and bundle_entry = BadEntry string | BEntry string bundle_node

datatype unpack_error = NotReadable string | EntryFailed string | UnpackFailed string

fun unpack_error_display :: "unpack_error \<Rightarrow> string" where
  "unpack_error_display (NotReadable e) = ''Fetched capsule bundle is not a readable tar archive: '' @ e"
| "unpack_error_display (EntryFailed e) = ''Failed to read fetched capsule bundle entry: '' @ e"
| "unpack_error_display (UnpackFailed e) = ''Failed to unpack fetched capsule bundle: '' @ e"

record prepared_capsule =
  pc_launch_dir :: string
  pc_manifest :: manifest

definition looks_like_gzip :: "bytes \<Rightarrow> bool" where
  "looks_like_gzip b = prefix [0x1f, 0x8b] b"

text \<open>The directory, its path and what is read from the manifest, for each \<^verbatim>\<open>capsule.json\<close>.\<close>

fun collect_manifest_paths :: "string \<Rightarrow> bundle_node \<Rightarrow> string + (string \<times> bundle_node \<times> (string + bytes)) list"
and collect_entries :: "string \<Rightarrow> bundle_node \<Rightarrow> bundle_entry list \<Rightarrow> string + (string \<times> bundle_node \<times> (string + bytes)) list"
where
  "collect_manifest_paths dir (BDir es) = collect_entries dir (BDir es) es"
| "collect_manifest_paths dir (BUnreadable e) =
     Inl (''Failed to read fetched capsule directory '' @ dir @ '': '' @ e)"
| "collect_manifest_paths dir _ = Inr []"
| "collect_entries dir d [] = Inr []"
| "collect_entries dir d (BadEntry e # es) =
     Inl (''Failed to inspect fetched capsule directory '' @ dir @ '': '' @ e)"
| "collect_entries dir d (BEntry name n # es) =
     andthen (case n of
         BDir _ \<Rightarrow> collect_manifest_paths (dir @ ''/'' @ name) n
       | BUnreadable _ \<Rightarrow> collect_manifest_paths (dir @ ''/'' @ name) n
       | BFile r \<Rightarrow> Inr (if name = ''capsule.json'' then [(dir, d, r)] else [])
       | BOther r \<Rightarrow> Inr (if name = ''capsule.json'' then [(dir, d, r)] else [])) (\<lambda>found.
     andthen (collect_entries dir d es) (\<lambda>more. Inr (found @ more)))"

fun bundle_child :: "string \<Rightarrow> bundle_entry list \<Rightarrow> bundle_node option" where
  "bundle_child name [] = None"
| "bundle_child name (BadEntry e # es) = bundle_child name es"
| "bundle_child name (BEntry k n # es) = (if k = name then Some n else bundle_child name es)"

text \<open>The file system's walk along a relative path; an empty segment and a dot stay, but only on a directory.\<close>

fun bundle_walk :: "bundle_node \<Rightarrow> string list \<Rightarrow> bundle_node option" where
  "bundle_walk n [] = Some n"
| "bundle_walk (BDir es) (seg # segs) =
     (if seg = [] \<or> seg = ''.'' then bundle_walk (BDir es) segs
      else case bundle_child seg es of None \<Rightarrow> None | Some n \<Rightarrow> bundle_walk n segs)"
| "bundle_walk _ (seg # segs) = None"

definition is_file :: "bundle_node \<Rightarrow> string \<Rightarrow> bool" where
  "is_file dir rel = (case bundle_walk dir (split_on CHR ''/'' rel) of Some (BFile _) \<Rightarrow> True | _ \<Rightarrow> False)"

subsection \<open>State\<close>

text \<open>
  The runtime with the parts the handler holds. \<open>hd_temp\<close> answers the creation of the
  staging directories, \<open>hd_unpack\<close> says what the archive leaves in one.
\<close>

record handler = capsules +
  hd_manager :: cap_manager
  hd_channel :: channel
  hd_registry :: "provider_registry option"
  hd_version :: string
  hd_shell :: "string option"
  hd_temp :: "nat \<Rightarrow> string + string"
  hd_unpack :: "nat \<Rightarrow> bytes \<Rightarrow> unpack_error + bundle_node"
  hd_temps :: nat

text \<open>The code of other crates.\<close>

record handler_ext =
  hx_ext :: externals
  hx_cid :: cid_parser
  hx_base64 :: base64
  hx_token :: "bytes \<Rightarrow> string + capability_token"
  hx_manifest :: "bytes \<Rightarrow> string + manifest"
  hx_wit :: bytes

definition handler_new :: "string \<Rightarrow> provider_registry option \<Rightarrow> 'a handler_scheme \<Rightarrow> 'a handler_scheme" where
  "handler_new version registry s = s\<lparr>hd_version := version, hd_registry := registry, hd_shell := None\<rparr>"

definition set_shell :: "string \<Rightarrow> 'a handler_scheme \<Rightarrow> 'a handler_scheme" where
  "set_shell capsule_id s = s\<lparr>hd_channel := set_shell_id capsule_id (hd_channel s), hd_shell := Some capsule_id\<rparr>"

definition is_shell :: "string \<Rightarrow> 'a handler_scheme \<Rightarrow> bool" where
  "is_shell capsule_id s = (hd_shell s = Some capsule_id)"

definition try_prepare_bundle ::
    "handler_ext \<Rightarrow> string \<Rightarrow> (unpack_error + bundle_node) \<Rightarrow> bytes \<Rightarrow> string + prepared_capsule option" where
  "try_prepare_bundle H root unpacked content =
     (if \<not> looks_like_gzip content then Inr None
      else case unpacked of Inl e \<Rightarrow> Inl (unpack_error_display e)
      | Inr tree \<Rightarrow>
        andthen (collect_manifest_paths root tree) (\<lambda>found. case found of
          [] \<Rightarrow> Inl ''Fetched capsule bundle is missing capsule.json; fetched launch requires a real bundle manifest.''
        | [(dir, node, read)] \<Rightarrow>
            andthen (case read of Inl e \<Rightarrow> Inl (''Failed to read fetched capsule manifest: '' @ e) | Inr b \<Rightarrow> Inr b) (\<lambda>b.
            andthen (case hx_manifest H b of Inl e \<Rightarrow> Inl (''Invalid fetched capsule manifest: '' @ e) | Inr m \<Rightarrow> Inr m) (\<lambda>m.
            andthen (case validate_manifest (hx_ext H) (hx_wit H) m of
                Inl e \<Rightarrow> Inl (''Fetched capsule manifest failed validation: '' @ e) | Inr u \<Rightarrow> Inr u) (\<lambda>_.
            if \<not> is_file node (mf_entrypoint m)
            then Inl (''Fetched capsule bundle entrypoint missing: '' @ dir @ ''/'' @ mf_entrypoint m)
            else Inr (Some \<lparr>pc_launch_dir = dir, pc_manifest = m\<rparr>))))
        | _ \<Rightarrow> Inl (''Fetched capsule bundle contains multiple capsule.json files: ''
            @ join_with '', '' (map (\<lambda>(dir, _). dir @ ''/capsule.json'') found))))"

definition prepare_fetched_capsule ::
    "handler_ext \<Rightarrow> fetch_result \<Rightarrow> 'a handler_scheme \<Rightarrow> (string + prepared_capsule) \<times> 'a handler_scheme" where
  "prepare_fetched_capsule H fetched s =
     (let n = hd_temps s; s = s\<lparr>hd_temps := Suc n\<rparr> in
      case hd_temp s n of Inl e \<Rightarrow> (Inl (''Failed to create temp dir: '' @ e), s)
      | Inr root \<Rightarrow>
        (andthen (try_prepare_bundle H root (hd_unpack s n (fr_content fetched)) (fr_content fetched)) (\<lambda>r. case r of
           Some p \<Rightarrow> Inr p
         | None \<Rightarrow> Inl (''Fetched content is not a capsule bundle with capsule.json and validated entrypoint. ''
             @ ''Raw fetched WASM launch is no longer supported on this path.'')), s))"

subsection \<open>Input checks\<close>

definition MAX_CAPSULE_ID_LEN :: nat where
  "MAX_CAPSULE_ID_LEN = 256"

definition MAX_RESOURCE_LEN :: nat where
  "MAX_RESOURCE_LEN = 4096"

definition MAX_CID_LEN :: nat where
  "MAX_CID_LEN = 128"

text \<open>A control character that is not white space.\<close>

definition has_control_chars :: "string \<Rightarrow> bool" where
  "has_control_chars s = has_char_of (filter (\<lambda>w. w \<notin> set ws_seqs) control_seqs) s"

definition is_ipfs_cid :: "string \<Rightarrow> bool" where
  "is_ipfs_cid i = (prefix ''Qm'' i \<and> length i = 46 \<or> prefix ''baf'' i \<and> length i \<ge> 50)"

definition normalize_launch_cid :: "string \<Rightarrow> runtime_response + string" where
  "normalize_launch_cid cid =
     (let launch_uri = (if prefix ''elastos://'' cid then cid else ''elastos://'' @ cid) in
      case parse_content_uri launch_uri of
        Inl err \<Rightarrow> Inl (RespError ''invalid_input'' (''LaunchCapsule requires a bare IPFS CID: '' @ parse_error_display err))
      | Inr parsed \<Rightarrow>
          if \<not> is_ipfs_cid (uri_identifier parsed) then
            Inl (RespError ''invalid_input'' ''LaunchCapsule currently accepts only bare IPFS CIDs'')
          else if uri_path parsed \<noteq> None then
            Inl (RespError ''invalid_input'' ''LaunchCapsule does not accept elastos:// sub-paths; pass a bare capsule CID'')
          else Inr (uri_identifier parsed))"

text \<open>The checks of a text field: its length, its characters, and for a URI its scheme.\<close>

definition bad_text :: "string \<Rightarrow> nat \<Rightarrow> string \<Rightarrow> (bool \<times> runtime_response) list" where
  "bad_text what limit v =
     [(length v > limit, RespError ''invalid_input'' (what @ '' exceeds maximum length'')),
      (has_control_chars v, RespError ''invalid_input'' (what @ '' contains control characters''))]"

definition bad_uri :: "string \<Rightarrow> (bool \<times> runtime_response) list" where
  "bad_uri uri = bad_text ''URI'' MAX_RESOURCE_LEN uri @
     [(find_sub ''://'' uri \<noteq> None \<and> \<not> is_supported_resource_scheme uri,
       RespError ''invalid_input'' ''resource URI must use localhost:// or elastos://'')]"

subsection \<open>Tokens\<close>

definition token_from_base64 :: "handler_ext \<Rightarrow> string \<Rightarrow> string + capability_token" where
  "token_from_base64 H v = andthen (case b64d (hx_base64 H) v of Inl e \<Rightarrow> Inl (''invalid base64: '' @ e) | Inr b \<Rightarrow> Inr b)
     (hx_token H)"

text \<open>The resource a URI or path stands for when a token is checked.\<close>

definition token_resource :: "string \<Rightarrow> runtime_response + resource_id" where
  "token_resource uri =
     (if prefix ''localhost://'' uri then
        andthen (ok_or (RespError ''invalid_input'' ''localhost resource must be rooted under localhost://<root>/...'')
          (rooted_localhost_uri uri)) (\<lambda>u. Inr (ResourceId u))
      else if find_sub ''://'' uri \<noteq> None then
        andthen (require (is_supported_resource_scheme uri)
          (RespError ''invalid_input'' ''resource URI must use localhost:// or elastos://'')) (\<lambda>_. Inr (ResourceId uri))
      else
        andthen (ok_or (RespError ''invalid_input'' ''storage path must be rooted under localhost://<root>/...'')
          (rooted_localhost_uri uri)) (\<lambda>u. Inr (ResourceId u)))"

definition validate_token ::
    "handler_ext \<Rightarrow> string \<Rightarrow> string \<Rightarrow> action \<Rightarrow> string \<Rightarrow> 'a handler_scheme
     \<Rightarrow> (runtime_response + unit) \<times> 'a handler_scheme" where
  "validate_token H token_b64 from act uri s =
     (if token_b64 = [] then (Inl (RespError ''missing_token'' ''Capability token required for resource access''), s)
      else case token_from_base64 H token_b64 of
        Inl e \<Rightarrow> (Inl (RespError ''invalid_token'' ''Failed to decode capability token''), s)
      | Inr token \<Rightarrow> (case token_resource uri of Inl r \<Rightarrow> (Inl r, s)
          | Inr resource \<Rightarrow>
              (let (r, s) = validate (hx_ext H) (hd_manager s) token from act resource None s in
               (case r of Inl e \<Rightarrow> Inl (RespError ''permission_denied'' (validation_error_display e)) | Inr u \<Rightarrow> Inr u, s))))"

text \<open>The gate of a request that is not the shell's; the shell passes.\<close>

definition pass_gate ::
    "handler_ext \<Rightarrow> string \<Rightarrow> string \<Rightarrow> action \<Rightarrow> string \<Rightarrow> 'a handler_scheme
     \<Rightarrow> (runtime_response + unit) \<times> 'a handler_scheme" where
  "pass_gate H token_b64 from act uri s =
     (if is_shell from s then (Inr (), s) else validate_token H token_b64 from act uri s)"

text \<open>The same with an optional token, which must be there and not be empty.\<close>

definition pass_gate_opt ::
    "handler_ext \<Rightarrow> string \<Rightarrow> string option \<Rightarrow> string \<Rightarrow> action \<Rightarrow> string \<Rightarrow> 'a handler_scheme
     \<Rightarrow> (runtime_response + unit) \<times> 'a handler_scheme" where
  "pass_gate_opt H what token from act uri s =
     (if is_shell from s then (Inr (), s)
      else case token of
        None \<Rightarrow> (Inl (RespError ''missing_token'' (''Capability token required for '' @ what)), s)
      | Some t \<Rightarrow> if t = [] then (Inl (RespError ''missing_token'' (''Capability token required for '' @ what)), s)
          else validate_token H t from act uri s)"

subsection \<open>Routing to a provider\<close>

definition j_opt_u64 :: "u64 option \<Rightarrow> json" where
  "j_opt_u64 v = (case v of None \<Rightarrow> JNull | Some n \<Rightarrow> j_nat (unat n))"

definition entry_json :: "resource_entry \<Rightarrow> json" where
  "entry_json e = JObj [(''name'', JStr (re_name e)), (''is_directory'', JBool (re_is_directory e)),
     (''size'', j_opt_u64 (re_size e)), (''modified'', j_opt_u64 (re_modified e))]"

fun provider_response :: "resource_response \<Rightarrow> runtime_response" where
  "provider_response (RData b) = RespContent b"
| "provider_response (RList entries) = RespResource None (Some (map entry_json entries)) None None"
| "provider_response ROk = RespOk None"
| "provider_response (RWritten n) = RespOk None"
| "provider_response RDeleted = RespOk None"
| "provider_response RCreated = RespOk None"
| "provider_response (RMetadata n t m) = RespResource None None None
     (Some (JObj [(''size'', j_nat (unat n)), (''is_directory'', JBool (t = EtDirectory)), (''modified'', j_nat (unat m))]))"
| "provider_response (RExists b) = RespResource None None (Some b) None"

fun provider_error_code :: "provider_error \<Rightarrow> string" where
  "provider_error_code (PNotFound _) = ''not_found''"
| "provider_error_code (PPermissionDenied _) = ''permission_denied''"
| "provider_error_code (PNoProvider _) = ''no_provider''"
| "provider_error_code _ = ''provider_error''"

definition route_to_provider ::
    "string \<Rightarrow> string \<Rightarrow> resource_action \<Rightarrow> bytes option \<Rightarrow> 'a handler_scheme
     \<Rightarrow> runtime_response \<times> 'a handler_scheme" where
  "route_to_provider from uri act content s = (case hd_registry s of
       None \<Rightarrow> (RespError ''no_provider'' ''No provider registry configured'', s)
     | Some R \<Rightarrow>
         (let (r, R) = route uri from act content R; s = s\<lparr>hd_registry := Some R\<rparr> in
          (case r of Inr response \<Rightarrow> provider_response response
             | Inl e \<Rightarrow> RespError (provider_error_code e) (provider_error_display e), s)))"

subsection \<open>The shell's requests\<close>

definition unauthorized :: "string \<Rightarrow> runtime_response" where
  "unauthorized what = RespError ''unauthorized'' (''Only shell can '' @ what)"

fun state_name :: "capsule_state \<Rightarrow> string" where
  "state_name Starting = ''starting''"
| "state_name Running = ''running''"
| "state_name Suspended = ''suspended''"
| "state_name Stopping = ''stopping''"
| "state_name Stopped = ''stopped''"

definition handle_list_capsules :: "string \<Rightarrow> 'a handler_scheme \<Rightarrow> runtime_response \<times> 'a handler_scheme" where
  "handle_list_capsules from s =
     (if \<not> is_shell from s then (unauthorized ''list capsules'', s)
      else (RespCapsuleList (List.map_filter (\<lambda>c. map_option (\<lambda>i.
          \<lparr>cle_id = c, cle_name = mf_name (ci_manifest i), cle_status = state_name (ci_state i)\<rparr>) (get_info c s))
          (list_capsules s)), s))"

definition handle_launch_capsule ::
    "handler_ext \<Rightarrow> string \<Rightarrow> string \<Rightarrow> launch_config \<Rightarrow> 'a handler_scheme \<Rightarrow> runtime_response \<times> 'a handler_scheme" where
  "handle_launch_capsule H from cid config s =
     (if \<not> is_shell from s then (unauthorized ''launch capsules'', s)
      else case andthen (first_refusal (bad_text ''CID'' MAX_CID_LEN cid)) (\<lambda>_. normalize_launch_cid cid) of
        Inl r \<Rightarrow> (r, s)
      | Inr normalized \<Rightarrow>
         (let (fetched, s) = fetch_content (hx_ext H) (hx_cid H) (''elastos://'' @ normalized) s in
          case fetched of
            Inl e \<Rightarrow> (RespError ''fetch_failed'' (''Failed to fetch: '' @ fetch_error_display e), s)
          | Inr result \<Rightarrow>
             (let (prepared, s) = prepare_fetched_capsule H result s in
              case prepared of
                Inl e \<Rightarrow> (RespError ''internal_error'' e, s)
              | Inr p \<Rightarrow>
                 (let (launched, s) = launch_from_cid (hx_ext H) (pc_launch_dir p) (pc_manifest p) normalized Untrusted s in
                  (case launched of
                     Inr capsule_id \<Rightarrow> RespCapsuleLaunched capsule_id
                   | Inl e \<Rightarrow> RespError ''launch_failed'' (''Failed to launch: '' @ elastos_error_display e), s)))))"

definition handle_stop_capsule :: "string \<Rightarrow> string \<Rightarrow> 'a handler_scheme \<Rightarrow> runtime_response \<times> 'a handler_scheme" where
  "handle_stop_capsule from capsule_id s =
     (if \<not> is_shell from s then (unauthorized ''stop capsules'', s)
      else
       (let (r, s) = stop capsule_id Requested s in
        (case r of Inr _ \<Rightarrow> RespOk None
           | Inl e \<Rightarrow> RespError ''stop_failed'' (''Failed to stop: '' @ elastos_error_display e), s)))"

definition grant_action :: "string \<Rightarrow> action option" where
  "grant_action a = map_of [(''read'', Read), (''write'', Write), (''execute'', Execute), (''message'', Message)] (lower a)"

definition handle_grant_capability ::
    "handler_ext \<Rightarrow> string \<Rightarrow> string \<Rightarrow> string \<Rightarrow> string \<Rightarrow> grant_constraints \<Rightarrow> 'a handler_scheme
     \<Rightarrow> runtime_response \<times> 'a handler_scheme" where
  "handle_grant_capability H from capsule_id resource act constraints s =
     (if \<not> is_shell from s then (unauthorized ''grant capabilities'', s)
      else case andthen (first_refusal
          [(length capsule_id > MAX_CAPSULE_ID_LEN, RespError ''invalid_input'' ''capsule_id exceeds maximum length''),
           (length resource > MAX_RESOURCE_LEN, RespError ''invalid_input'' ''resource exceeds maximum length''),
           (has_control_chars capsule_id \<or> has_control_chars resource,
            RespError ''invalid_input'' ''input contains control characters'')])
          (\<lambda>_. ok_or (RespError ''invalid_action'' (''Unknown action: '' @ act)) (grant_action act)) of
        Inl r \<Rightarrow> (r, s)
      | Inr a \<Rightarrow>
         (let con = \<lparr>con_epoch = current_epoch s, con_delegatable = gc_delegatable constraints,
                con_max_classification = None, con_max_uses = gc_max_uses constraints\<rparr>;
              (expiry, s) = (case gc_expiry_secs constraints of None \<Rightarrow> (None, s)
                | Some secs \<Rightarrow> (let (now, s) = ts_now s; (x, s) = ts_at (unix_secs now + secs) s in (Some x, s)));
              (token, s) = grant (hx_ext H) (hd_manager s) capsule_id (ResourceId resource) a con expiry s
          in (RespCapabilityGranted (token_id_display (hx_ext H) (tok_id token)), s)))"

definition handle_revoke_capability ::
    "handler_ext \<Rightarrow> string \<Rightarrow> string \<Rightarrow> 'a handler_scheme \<Rightarrow> runtime_response \<times> 'a handler_scheme" where
  "handle_revoke_capability H from token_id s =
     (if \<not> is_shell from s then (unauthorized ''revoke capabilities'', s)
      else case hex_decode (hx_ext H) token_id of
        None \<Rightarrow> (RespError ''invalid_token_id'' ''Token ID must be 32 hex characters'', s)
      | Some b \<Rightarrow> if length b \<noteq> 16 then (RespError ''invalid_token_id'' ''Token ID must be 32 hex characters'', s)
          else (RespOk None, revoke (hx_ext H) (TokenId b) ''Revoked by shell'' s))"

subsection \<open>Messages\<close>

definition handle_send_message ::
    "handler_ext \<Rightarrow> string \<Rightarrow> string \<Rightarrow> bytes \<Rightarrow> string option \<Rightarrow> string option \<Rightarrow> 'a handler_scheme
     \<Rightarrow> runtime_response \<times> 'a handler_scheme" where
  "handle_send_message H from to payload reply_to token s =
     (case (if is_shell from s then Inr None
        else case token of
          None \<Rightarrow> Inl (RespError ''missing_token'' ''Capability token required for messaging'')
        | Some t \<Rightarrow> if t = [] then Inl (RespError ''missing_token'' ''Capability token required for messaging'')
            else case token_from_base64 H t of
                Inr tok \<Rightarrow> Inr (Some tok)
              | Inl _ \<Rightarrow> Inl (RespError ''invalid_token'' ''Failed to decode capability token'')) of
        Inl r \<Rightarrow> (r, s)
      | Inr cap_token \<Rightarrow>
         (let (message, s) = message_new from to payload s;
              (r, C, s) = send (hx_ext H) (hd_manager s) message cap_token (hd_channel s) s;
              s = s\<lparr>hd_channel := C\<rparr>
          in (case r of Inr _ \<Rightarrow> RespOk None
                | Inl e \<Rightarrow> RespError ''send_failed'' (''Failed to send: '' @ message_error_display e), s)))"

definition incoming :: "handler_ext \<Rightarrow> msg \<Rightarrow> incoming_message" where
  "incoming H m = \<lparr>im_id = message_id_display (hx_ext H) (msg_id m), im_from = msg_from m, im_payload = msg_payload m,
     im_timestamp = unix_secs (msg_timestamp m),
     im_reply_to = map_option (message_id_display (hx_ext H)) (msg_reply_to m)\<rparr>"

definition handle_receive_messages :: "handler_ext \<Rightarrow> string \<Rightarrow> 'a handler_scheme \<Rightarrow> runtime_response \<times> 'a handler_scheme" where
  "handle_receive_messages H from s =
     (let (ms, C, s) = receive from (hd_channel s) s; s = s\<lparr>hd_channel := C\<rparr>
      in (RespMessages (map (incoming H) ms), s))"

subsection \<open>Content and storage\<close>

definition handle_fetch_content ::
    "handler_ext \<Rightarrow> string \<Rightarrow> string \<Rightarrow> string option \<Rightarrow> 'a handler_scheme \<Rightarrow> runtime_response \<times> 'a handler_scheme" where
  "handle_fetch_content H from uri token s =
     (case first_refusal (bad_uri uri) of Inl r \<Rightarrow> (r, s)
      | Inr _ \<Rightarrow>
         (let (g, s) = pass_gate_opt H ''content fetch'' token from Read uri s in
          case g of Inl r \<Rightarrow> (r, s)
          | Inr _ \<Rightarrow>
             (let (fetched, s) = fetch_content (hx_ext H) (hx_cid H) uri s in
              (case fetched of Inr result \<Rightarrow> RespContent (fr_content result)
                 | Inl e \<Rightarrow> RespError ''fetch_failed'' (''Failed to fetch: '' @ fetch_error_display e), s))))"

text \<open>Reading and writing differ in the action and the content.\<close>

definition handle_storage ::
    "handler_ext \<Rightarrow> action \<Rightarrow> resource_action \<Rightarrow> string \<Rightarrow> string \<Rightarrow> string \<Rightarrow> bytes option \<Rightarrow> 'a handler_scheme
     \<Rightarrow> runtime_response \<times> 'a handler_scheme" where
  "handle_storage H act ract from token path content s =
     (case first_refusal (bad_text ''path'' MAX_RESOURCE_LEN path) of Inl r \<Rightarrow> (r, s)
      | Inr _ \<Rightarrow>
         (let (g, s) = pass_gate H token from act path s in
          case g of Inl r \<Rightarrow> (r, s)
          | Inr _ \<Rightarrow> (case rooted_localhost_uri path of
                None \<Rightarrow> (RespError ''invalid_input'' ''storage path must be rooted under localhost://<root>/...'', s)
              | Some uri \<Rightarrow> route_to_provider from uri ract content s)))"

definition handle_storage_read ::
    "handler_ext \<Rightarrow> string \<Rightarrow> string \<Rightarrow> string \<Rightarrow> 'a handler_scheme \<Rightarrow> runtime_response \<times> 'a handler_scheme" where
  "handle_storage_read H from token path s = handle_storage H Read RaRead from token path None s"

definition handle_storage_write ::
    "handler_ext \<Rightarrow> string \<Rightarrow> string \<Rightarrow> string \<Rightarrow> bytes \<Rightarrow> 'a handler_scheme \<Rightarrow> runtime_response \<times> 'a handler_scheme" where
  "handle_storage_write H from token path content s = handle_storage H Write RaWrite from token path (Some content) s"

subsection \<open>Resource requests\<close>

definition resource_action_of :: "string \<Rightarrow> resource_action option" where
  "resource_action_of a = map_of [(''read'', RaRead), (''write'', RaWrite), (''list'', RaList), (''delete'', RaDelete),
     (''stat'', RaStat), (''mkdir'', RaMkdir), (''exists'', RaExists)] (lower a)"

fun capability_action :: "resource_action \<Rightarrow> action" where
  "capability_action RaRead = Read"
| "capability_action RaList = Read"
| "capability_action RaStat = Read"
| "capability_action RaExists = Read"
| "capability_action RaWrite = Write"
| "capability_action RaMkdir = Write"
| "capability_action RaDelete = Delete"

text \<open>The content of the parameters: a base64 text, or an array whose numbers are cut to bytes.\<close>

definition params_content :: "base64 \<Rightarrow> json option \<Rightarrow> bytes option" where
  "params_content B params =
     Option.bind (Option.bind params (j_get ''content'')) (\<lambda>c. case j_str c of
         Some v \<Rightarrow> (case b64d B v of Inr b \<Rightarrow> Some b | Inl _ \<Rightarrow> None)
       | None \<Rightarrow> map_option (List.map_filter (\<lambda>v. map_option ucast (j_u64 v))) (j_array c))"

definition handle_resource_request ::
    "handler_ext \<Rightarrow> string \<Rightarrow> string \<Rightarrow> string \<Rightarrow> json option \<Rightarrow> string option \<Rightarrow> 'a handler_scheme
     \<Rightarrow> runtime_response \<times> 'a handler_scheme" where
  "handle_resource_request H from uri act params token s =
     (case andthen (first_refusal (bad_uri uri)) (\<lambda>_.
        ok_or (RespError ''invalid_action'' (''Unknown resource action: '' @ lower act)) (resource_action_of act)) of
        Inl r \<Rightarrow> (r, s)
      | Inr a \<Rightarrow>
         (let (g, s) = pass_gate_opt H ''resource access'' token from (capability_action a) uri s in
          case g of Inl r \<Rightarrow> (r, s)
          | Inr _ \<Rightarrow> route_to_provider from uri a (params_content (hx_base64 H) params) s))"

definition handle_get_runtime_info :: "'a handler_scheme \<Rightarrow> runtime_response \<times> 'a handler_scheme" where
  "handle_get_runtime_info s = (RespRuntimeInfo (hd_version s) (length (list_running s)), s)"

fun handle :: "handler_ext \<Rightarrow> string \<Rightarrow> runtime_request \<Rightarrow> 'a handler_scheme \<Rightarrow> runtime_response \<times> 'a handler_scheme" where
  "handle H from ListCapsules s = handle_list_capsules from s"
| "handle H from (LaunchCapsule cid config) s = handle_launch_capsule H from cid config s"
| "handle H from (StopCapsule c) s = handle_stop_capsule from c s"
| "handle H from (GrantCapability c r a con) s = handle_grant_capability H from c r a con s"
| "handle H from (RevokeCapability t) s = handle_revoke_capability H from t s"
| "handle H from (SendMessage to payload reply_to token) s = handle_send_message H from to payload reply_to token s"
| "handle H from ReceiveMessages s = handle_receive_messages H from s"
| "handle H from (FetchContent uri token) s = handle_fetch_content H from uri token s"
| "handle H from (StorageRead token path) s = handle_storage_read H from token path s"
| "handle H from (StorageWrite token path content) s = handle_storage_write H from token path content s"
| "handle H from GetRuntimeInfo s = handle_get_runtime_info s"
| "handle H from Ping s = (RespPong, s)"
| "handle H from (WindowControl _ _ _ _ _) s =
     (RespError ''not_implemented'' ''Window control requires shell routing (not yet implemented)'', s)"
| "handle H from (ResourceRequest uri a params token) s = handle_resource_request H from uri a params token s"

subsection \<open>What validation leaves alone\<close>

lemma more_emit [simp]: "host.more (emit ev s) = host.more s"
  by (simp add: emit_def write_line_def Let_def split: option.splits prod.splits)

lemma runtime_more_emit [simp]: "runtime.more (emit ev s) = runtime.more s"
  by (simp add: emit_def write_line_def Let_def split: option.splits prod.splits)

lemma runtime_more_reads [simp]:
  "runtime.more (snd (ts_now s)) = runtime.more s" "runtime.more (snd (is_future t s)) = runtime.more s"
  "runtime.more (snd (is_expired t s)) = runtime.more s"
  by (simp_all add: time_reads Let_def)

lemma runtime_more_helpers [simp]:
  "runtime.more (capability_use X i c r a b s) = runtime.more s" "runtime.more (security_warning w d s) = runtime.more s"
  "runtime.more (record_capability_use c s) = runtime.more s" "runtime.more (audit_validation_failure X tok c w s) = runtime.more s"
  "runtime.more (snd (try_use_token i n s)) = runtime.more s"
  by (simp_all add: audit_helpers audit_validation_failure_def ts_now_eq record_capability_use_def try_use_token_def
      Let_def update_metrics_def)

lemma validate_more [simp]: "runtime.more (snd (validate X M t c a r cls s)) = runtime.more s"
proof -
  have uses: "runtime.more (snd (validate_uses X t c a r b s)) = runtime.more s" for b and s :: "'a runtime_scheme"
    by (auto simp: validate_uses_def prod.case_eq_if split: option.split sum.split)
  have cls: "runtime.more (snd (validate_class X t c a r cls b s)) = runtime.more s" for b and s :: "'a runtime_scheme"
    by (auto simp: validate_class_def uses split: option.split)
  have tm: "runtime.more (snd (validate_time X t c a r cls b s)) = runtime.more s" for b and s :: "'a runtime_scheme"
    by (auto simp: validate_time_def cls prod.case_eq_if split: option.split)
  show ?thesis by (simp add: validate_def validate_recurring_def tm)
qed

text \<open>The same runtime parts beyond the clock, the metrics, the audit log and the use counts.\<close>

definition untouched :: "'a handler_scheme \<Rightarrow> 'a handler_scheme \<Rightarrow> bool" where
  "untouched s s' = (runtime.more s' = runtime.more s \<and> store_epoch s' = store_epoch s
     \<and> revoked_tokens s' = revoked_tokens s \<and> store_disk s' = store_disk s)"

lemma untouchedD:
  assumes "untouched s s'"
  shows "hd_registry s' = hd_registry s" "hd_channel s' = hd_channel s" "hd_manager s' = hd_manager s"
    "hd_shell s' = hd_shell s" "hd_temps s' = hd_temps s" "cap_table s' = cap_table s" "cp_calls s' = cp_calls s"
    "rs_cache s' = rs_cache s" "rs_files s' = rs_files s" "rs_ios s' = rs_ios s" "rs_fetches s' = rs_fetches s"
    "store_epoch s' = store_epoch s" "revoked_tokens s' = revoked_tokens s" "store_disk s' = store_disk s"
    "handler.more s' = handler.more s"
  using assms by (cases s; cases s'; auto simp: untouched_def)+

lemma untouched_refl [simp]: "untouched s s"
  by (simp add: untouched_def)

lemma untouched_trans: "\<lbrakk>untouched s t; untouched t u\<rbrakk> \<Longrightarrow> untouched s u"
  by (simp add: untouched_def)

lemma validate_untouched: "untouched s (snd (validate X M t c a r cls s))"
  using validate_effect[where X = X and t = t and caller = c and act = a and res = r and b = True and s = s
      and M = M and cls = cls] validate_more[of X M t c a r cls s]
  by (simp add: untouched_def validate_def validation_effect_def)

lemma untouched_helpers [simp]:
  "untouched s (security_warning w d s)" "untouched s (record_message_sent c s)" "untouched s (record_message_received c s)"
  "untouched s (message_sent f t n s)" "untouched s (snd (message_new f t p s))"
  by (simp_all add: untouched_def security_warning_def record_message_sent_def record_message_received_def message_sent_def
      message_new_def message_id_new_def draw_uuid_bytes_def update_metrics_def check_period_reset_def read_instant_def
      ts_now_eq Let_def prod.case_eq_if)

lemma deliver_untouched: "untouched s (snd (snd (deliver m C s)))"
  by (auto simp: deliver_def Let_def split: option.split intro: untouched_trans[OF untouched_helpers(2) untouched_helpers(4)])

lemma send_untouched: "untouched s (snd (snd (send X M m token C s)))"
  by (auto simp: send_def deliver_untouched Let_def prod.case_eq_if split: option.split sum.split
      intro: untouched_trans[OF validate_untouched] untouched_helpers(1) deliver_untouched)

lemma receive_untouched: "untouched s (snd (snd (receive c C s)))"
proof -
  have "untouched s (fold (\<lambda>_. record_message_received c) ms s)" for ms :: "msg list"
    by (induction ms arbitrary: s) (auto intro: untouched_trans[OF untouched_helpers(3)])
  then show ?thesis by (simp add: receive_def Let_def split: option.split)
qed

subsection \<open>Complete mediation\<close>

text \<open>What a token entitles to: the checks of the capability manager, at the time of the request.\<close>

definition entitles ::
    "handler_ext \<Rightarrow> capability_token \<Rightarrow> string \<Rightarrow> action \<Rightarrow> resource_id \<Rightarrow> 'a handler_scheme \<Rightarrow> bool" where
  "entitles H t from act res s =
     (verify_signature (hx_ext H) (verifying_key (hd_manager s)) t \<and> tok_issuer t = verifying_key (hd_manager s)
      \<and> tok_capsule t = from \<and> tok_action t = act \<and> matches res (tok_resource t)
      \<and> store_epoch s \<le> con_epoch (tok_constraints t) \<and> tok_id t \<notin> set (revoked_tokens s)
      \<and> con_max_classification (tok_constraints t) = None
      \<and> (\<forall>n \<in> set_option (con_max_uses (tok_constraints t)). get_use_count (tok_id t) s < n)
      \<and> (\<forall>x \<in> set_option (tok_expiry t). \<exists>k \<ge> wall_reads s. wall_clock s k \<le> unix_secs x))"

lemma validate_entitles:
  assumes "fst (validate (hx_ext H) (hd_manager s) t from act res None s') = Inr u"
    and "untouched s s'" "wall_reads s \<le> wall_reads s'" "wall_clock s' = wall_clock s" "use_counts s' = use_counts s"
  shows "entitles H t from act res s"
proof -
  have "first_error (checks (hx_ext H) (hd_manager s) t from act res None s') = None"
    using assms(1) by (auto simp: validate_result split: option.splits)
  then have c: "\<forall>c \<in> set (checks (hx_ext H) (hd_manager s) t from act res None s'). fst c"
    by (simp add: first_error_None_iff)
  have "wall_clock s (Suc (wall_reads s')) \<le> unix_secs x" if "tok_expiry t = Some x" for x
    using c that assms(4) by (auto simp: checks_def less_eq_secure_timestamp_def is_before_def split: if_splits)
  then have "\<forall>x \<in> set_option (tok_expiry t). \<exists>k \<ge> wall_reads s. wall_clock s k \<le> unix_secs x"
    using assms(3) by (auto intro: exI[of _ "Suc (wall_reads s')"])
  then show ?thesis using c untouchedD(12,13)[OF assms(2)] assms(5)
    by (auto simp: checks_def entitles_def get_use_count_def)
qed

text \<open>The same control state: who the shell is, the capsules, the keys, the revocations, the providers registered.\<close>

definition control_same :: "'a handler_scheme \<Rightarrow> 'a handler_scheme \<Rightarrow> bool" where
  "control_same s s' = (hd_manager s' = hd_manager s \<and> hd_shell s' = hd_shell s \<and> hd_temps s' = hd_temps s
     \<and> shell_id (hd_channel s') = shell_id (hd_channel s) \<and> cap_table s' = cap_table s \<and> cp_calls s' = cp_calls s
     \<and> store_epoch s' = store_epoch s \<and> revoked_tokens s' = revoked_tokens s \<and> store_disk s' = store_disk s
     \<and> map_option reg_providers (hd_registry s') = map_option reg_providers (hd_registry s)
     \<and> map_option reg_sub (hd_registry s') = map_option reg_sub (hd_registry s))"

text \<open>Nothing of the content resolver, of the providers or in another capsule's inbox was reached.\<close>

definition unreached :: "string \<Rightarrow> 'a handler_scheme \<Rightarrow> 'a handler_scheme \<Rightarrow> bool" where
  "unreached from s s' = (hd_registry s' = hd_registry s \<and> rs_cache s' = rs_cache s \<and> rs_files s' = rs_files s
     \<and> rs_ios s' = rs_ios s \<and> rs_fetches s' = rs_fetches s
     \<and> (\<forall>d. d \<noteq> from \<longrightarrow> queue_of d (hd_channel s') = queue_of d (hd_channel s)))"

lemma untouched_control: "untouched s s' \<Longrightarrow> control_same s s' \<and> unreached from s s'"
  using untouchedD[of s s'] by (simp add: control_same_def unreached_def)

text \<open>A response that tells of nothing but the own inbox.\<close>

fun tells_nothing :: "handler_ext \<Rightarrow> msg list \<Rightarrow> runtime_response \<Rightarrow> bool" where
  "tells_nothing H inbox (RespError c m) = True"
| "tells_nothing H inbox RespPong = True"
| "tells_nothing H inbox (RespRuntimeInfo v n) = True"
| "tells_nothing H inbox (RespMessages ms) = (ms = map (incoming H) inbox)"
| "tells_nothing H inbox _ = False"

text \<open>The token a request carries, with the action and the resource it needs.\<close>

fun needs :: "runtime_request \<Rightarrow> (string \<times> action \<times> resource_id) option" where
  "needs (SendMessage to payload reply_to (Some t)) = Some (t, Message, message_resource to)"
| "needs (FetchContent uri (Some t)) = (case token_resource uri of Inr r \<Rightarrow> Some (t, Read, r) | _ \<Rightarrow> None)"
| "needs (StorageRead t path) = (case token_resource path of Inr r \<Rightarrow> Some (t, Read, r) | _ \<Rightarrow> None)"
| "needs (StorageWrite t path content) = (case token_resource path of Inr r \<Rightarrow> Some (t, Write, r) | _ \<Rightarrow> None)"
| "needs (ResourceRequest uri a params (Some t)) = (case (token_resource uri, resource_action_of a) of
     (Inr r, Some ra) \<Rightarrow> Some (t, capability_action ra, r) | _ \<Rightarrow> None)"
| "needs _ = None"

text \<open>
  What was reached is what the token names: at most one call of a provider, for the capsule, for
  the action and resource of the token; at most one message, from the capsule, to the inbox the
  resource names.
\<close>

definition names_resource :: "string \<Rightarrow> resource_id \<Rightarrow> bool" where
  "names_resource uri res = (uri = as_str res \<or> token_resource uri = Inr res)"

definition reached_as_named :: "string \<Rightarrow> action \<Rightarrow> resource_id \<Rightarrow> 'a handler_scheme \<Rightarrow> 'a handler_scheme \<Rightarrow> bool" where
  "reached_as_named from act res s s' =
     ((hd_registry s' = hd_registry s \<or> (\<exists>R R' w q. hd_registry s = Some R \<and> hd_registry s' = Some R'
         \<and> pv_calls R' = pv_calls R @ [CallHandle w q] \<and> rq_capsule_id q = from
         \<and> capability_action (rq_action q) = act \<and> names_resource (rq_uri q) res))
      \<and> (\<forall>d. queue_of d (hd_channel s') = queue_of d (hd_channel s)
         \<or> act = Message \<and> res = message_resource d \<and> (\<exists>m. msg_from m = from \<and> msg_to m = d
             \<and> queue_of d (hd_channel s') = queue_of d (hd_channel s) @ [m])))"

lemma refusals_are_errors:
  "first_refusal (bad_text what n v) = Inl r \<Longrightarrow> \<exists>c m. r = RespError c m"
  "first_refusal (bad_uri v) = Inl r \<Longrightarrow> \<exists>c m. r = RespError c m"
  "token_resource v = Inl r \<Longrightarrow> \<exists>c m. r = RespError c m"
  by (auto simp: bad_text_def bad_uri_def token_resource_def require_def ok_or_def andthen_def
      split: if_splits option.splits sum.splits)

lemma gate_cases:
  assumes "validate_token H t from act uri s = (g, s1)"
  shows "untouched s s1 \<and> (\<forall>r. g = Inl r \<longrightarrow> (\<exists>c m. r = RespError c m))
    \<and> (g = Inr () \<longrightarrow> (\<exists>tok res. token_from_base64 H t = Inr tok \<and> token_resource uri = Inr res
        \<and> entitles H tok from act res s))"
proof -
  consider "t = []" | e where "t \<noteq> []" "token_from_base64 H t = Inl e"
    | tok r where "t \<noteq> []" "token_from_base64 H t = Inr tok" "token_resource uri = Inl r"
    | tok res where "t \<noteq> []" "token_from_base64 H t = Inr tok" "token_resource uri = Inr res"
    by (metis sum.exhaust)
  then show ?thesis
  proof cases
    case (4 tok res)
    let ?v = "validate (hx_ext H) (hd_manager s) tok from act res None s"
    have g: "g = (case fst ?v of Inl e \<Rightarrow> Inl (RespError ''permission_denied'' (validation_error_display e)) | Inr u \<Rightarrow> Inr u)"
      "s1 = snd ?v" using assms 4 by (auto simp: validate_token_def prod.case_eq_if)
    have "entitles H tok from act res s" if "fst ?v = Inr u" for u
      using validate_entitles[OF that] by simp
    then show ?thesis using g 4 validate_untouched by (auto split: sum.splits)
  qed (use assms refusals_are_errors(3) in \<open>auto simp: validate_token_def\<close>)
qed
text \<open>Fetching works on the resolver's part of the state.\<close>

definition fetch_kept :: "'a content_scheme \<Rightarrow> 'a content_scheme \<Rightarrow> bool" where
  "fetch_kept s s' = (content.more s' = content.more s \<and> store_epoch s' = store_epoch s
     \<and> revoked_tokens s' = revoked_tokens s \<and> store_disk s' = store_disk s)"

lemma fetch_kept_refl [simp]: "fetch_kept s s"
  by (simp add: fetch_kept_def)

lemma fetch_kept_trans: "\<lbrakk>fetch_kept s t; fetch_kept t u\<rbrakk> \<Longrightarrow> fetch_kept s u"
  by (simp add: fetch_kept_def)

lemma fetch_kept_pieces [simp]:
  "fetch_kept s (sink_content_fetch i src v s)" "fetch_kept s (store_cache X i b s)"
  "fetch_kept s (snd (fetch_url url s))" "fetch_kept s (snd (read_cache_file n s))"
  "fetch_kept s (snd (check_cache X i s))"
proof -
  show r: "fetch_kept s (snd (read_cache_file n s))" for n
    by (simp add: fetch_kept_def read_cache_file_def next_answer_def Let_def split: option.split)
  show "fetch_kept s (sink_content_fetch i src v s)"
    by (simp add: fetch_kept_def sink_content_fetch_def content_fetch_def ts_now_eq emit_def write_line_def Let_def
        split: option.split prod.split)
  show "fetch_kept s (store_cache X i b s)"
    by (simp add: fetch_kept_def store_cache_def next_answer_def Let_def split: option.split fs_answer.split)
  show "fetch_kept s (snd (fetch_url url s))"
    by (simp add: fetch_kept_def fetch_url_def Let_def split: sum.split)
  have "fetch_kept s (s'\<lparr>rs_cache := c\<rparr>)" if "fetch_kept s s'" for s' :: "'a content_scheme" and c
    using that by (simp add: fetch_kept_def)
  from this[OF r] show "fetch_kept s (snd (check_cache X i s))"
    using r by (simp add: check_cache_def prod.case_eq_if split: option.split)
qed

lemma fetch_kept_after [intro]:
  fixes s :: "'a content_scheme" shows "fetch_kept s t \<Longrightarrow> fetch_kept s (sink_content_fetch i src v t)" "fetch_kept s t \<Longrightarrow> fetch_kept s (store_cache X j c t)"
  by (auto intro: fetch_kept_trans)

lemma try_gateways_kept: "fetch_kept s (snd (try_gateways X P u gs s))"
proof (induction gs arbitrary: s)
  case (Cons g gs)
  let ?s = "snd (fetch_url (gateway_url g u) s)"
  have f: "fetch_kept s ?s" by simp
  then have "fetch_kept s (sink_content_fetch i src v (store_cache X j c ?s))" "fetch_kept s (sink_content_fetch i src v ?s)"
    for i src v j c by blast+
  then show ?case using fetch_kept_trans[OF f Cons.IH]
    by (simp add: prod.case_eq_if Let_def split: sum.split option.split)
qed simp

lemma fetch_content_kept: "fetch_kept s (snd (fetch_content X P uri s))"
proof -
  have sha: "fetch_kept s (snd (fetch_by_sha256 X u s))" for u and s :: "'a content_scheme"
  proof -
    have "fetch_kept s (sink_content_fetch i src v (snd (read_cache_file n s)))" for i src v n
      by (rule fetch_kept_trans[OF fetch_kept_pieces(4) fetch_kept_pieces(1)])
    then show ?thesis by (simp add: fetch_by_sha256_def prod.case_eq_if split: option.split)
  qed
  have "fetch_kept s (snd (fetch_uri X P u s))" for u
  proof -
    define t where "t = snd (if cfg_enable_cache (rs_config s) then check_cache X (uri_identifier u) s else (None, s))"
    have t: "fetch_kept s t" by (simp add: t_def)
    show ?thesis using fetch_kept_trans[OF t sha] fetch_kept_trans[OF t try_gateways_kept] fetch_kept_trans[OF t fetch_kept_pieces(1)] t
      by (auto simp: fetch_uri_def prod.case_eq_if t_def[symmetric] fetch_from_ipfs_def split: option.split identifier_type.split)
  qed
  then show ?thesis by (simp add: fetch_content_def split: sum.split)
qed

lemma fetch_keptD:
  fixes s :: "'a handler_scheme"
  assumes "fetch_kept s s'"
  shows "hd_registry s' = hd_registry s" "hd_channel s' = hd_channel s" "hd_manager s' = hd_manager s"
    "hd_shell s' = hd_shell s" "hd_temps s' = hd_temps s" "cap_table s' = cap_table s" "cp_calls s' = cp_calls s"
    "store_epoch s' = store_epoch s" "revoked_tokens s' = revoked_tokens s" "store_disk s' = store_disk s"
    "cp_supports s' = cp_supports s" "cp_load s' = cp_load s" "cp_start s' = cp_start s"
    "hd_temp s' = hd_temp s" "hd_unpack s' = hd_unpack s" "hm_get (cap_table s') c = hm_get (cap_table s) c"
  using assms by (cases s; cases s'; auto simp: fetch_kept_def)+

lemma route_one_call:
  assumes "route uri c act content R = (r, R')"
  shows "reg_providers R' = reg_providers R \<and> reg_sub R' = reg_sub R
    \<and> (R' = R \<or> (\<exists>w q. pv_calls R' = pv_calls R @ [CallHandle w q] \<and> rq_capsule_id q = c \<and> rq_action q = act \<and> rq_uri q = uri))"
  using assms by (auto simp: route_def route_with_options_def call_handle_def split: sum.splits option.splits)

definition mediated :: "handler_ext \<Rightarrow> string \<Rightarrow> runtime_request \<Rightarrow> runtime_response \<Rightarrow> 'a handler_scheme \<Rightarrow> 'a handler_scheme \<Rightarrow> bool" where
  "mediated H from req resp s s' = (control_same s s' \<and>
     (unreached from s s' \<and> tells_nothing H (queue_of from (hd_channel s)) resp
      \<or> (\<exists>t tok act res. needs req = Some (t, act, res) \<and> token_from_base64 H t = Inr tok
           \<and> entitles H tok from act res s \<and> reached_as_named from act res s s')))"

lemma mediated_error: "mediated H from req (RespError c m) s s"
  by (simp add: mediated_def control_same_def unreached_def)

lemma mediated_refused: "untouched s s' \<Longrightarrow> mediated H from req (RespError c m) s s'"
  using untouched_control[of s s'] by (simp add: mediated_def)

lemma mediated_by:
  assumes "needs req = Some (t, act, res)" "token_from_base64 H t = Inr tok" "entitles H tok from act res s"
    and "control_same s s'" "reached_as_named from act res s s'"
  shows "mediated H from req resp s s'"
  using assms by (auto simp: mediated_def)

lemma routed:
  assumes "route_to_provider from uri a content s1 = (resp, s')" "untouched s s1" "names_resource uri res"
    and "capability_action a = act"
  shows "control_same s s' \<and> reached_as_named from act res s s'"
proof (cases "hd_registry s")
  case None
  then show ?thesis using assms untouchedD[OF assms(2)]
    by (auto simp: route_to_provider_def control_same_def reached_as_named_def)
next
  case (Some R)
  obtain r R' where R': "route uri from a content R = (r, R')" by fastforce
  have s': "s' = s1\<lparr>hd_registry := Some R'\<rparr>"
    using assms(1) R' Some untouchedD(1)[OF assms(2)] by (auto simp: route_to_provider_def)
  show ?thesis using route_one_call[OF R'] assms(3,4) Some untouchedD[OF assms(2)]
    by (auto simp: s' control_same_def reached_as_named_def)
qed

lemma handle_fetch_mediated:
  assumes "\<not> is_shell from s" "handle_fetch_content H from uri token s = (resp, s')"
  shows "mediated H from (FetchContent uri token) resp s s'"
proof (cases "first_refusal (bad_uri uri)")
  case (Inl r)
  then show ?thesis using assms(2) refusals_are_errors(2)[OF Inl] mediated_error by (auto simp: handle_fetch_content_def)
next
  case (Inr u)
  show ?thesis
  proof (cases "token = None \<or> token = Some []")
    case True
    then show ?thesis using assms Inr mediated_error by (auto simp: handle_fetch_content_def pass_gate_opt_def)
  next
    case False
    then obtain t where t: "token = Some t" "t \<noteq> []" by auto
    obtain g s1 where g: "validate_token H t from Read uri s = (g, s1)" by fastforce
    note gate = gate_cases[OF g]
    show ?thesis
    proof (cases g)
      case (Inl r)
      then show ?thesis using assms t g gate Inr mediated_refused[of s s1]
        by (auto simp: handle_fetch_content_def pass_gate_opt_def)
    next
      case v: (Inr u)
      then obtain tok res where e: "token_from_base64 H t = Inr tok" "token_resource uri = Inr res" "entitles H tok from Read res s"
        using gate by auto
      have s': "s' = snd (fetch_content (hx_ext H) (hx_cid H) uri s1)"
        using assms t g v Inr by (auto simp: handle_fetch_content_def pass_gate_opt_def prod.case_eq_if)
      note keep = fetch_keptD[OF fetch_content_kept[of s1 "hx_ext H" "hx_cid H" uri], folded s'] untouchedD[OF gate[THEN conjunct1]]
      show ?thesis
        by (rule mediated_by[where t = t and tok = tok and act = Read and res = res])
          (simp_all add: t e control_same_def reached_as_named_def keep)
    qed
  qed
qed

text \<open>A path that names a storage root is no \<^verbatim>\<open>elastos://\<close> URI: what is checked is what is routed.\<close>

lemma elastos_not_rooted:
  assumes "prefix ''elastos://'' uri"
  shows "rooted_localhost_uri uri = None"
proof -
  obtain v where v: "uri = CHR ''e'' # v" using assms by (auto simp: prefix_def)
  let ?t = "trim_end_char CHR ''/'' (trim_start_char CHR ''/'' (trim uri))"
  have e: "graphic CHR ''e''" by (simp add: graphic_def)
  have "trim_start uri = uri" by (rule trim_start_graphic) (simp add: v e)
  then have p: "prefix (trim uri) uri" using prefix_trim_end[of uri] by (simp add: trim_def)
  have "trim_start_char CHR ''/'' (trim uri) = trim uri"
    using p by (intro trim_start_char_id) (auto simp: v prefix_Cons)
  then have "prefix ?t uri" using p prefix_trim_end_char prefix_order.trans by metis
  then have t: "?t = [] \<or> hd ?t = CHR ''e''" by (auto simp: v prefix_Cons)
  have "take n ?t \<notin> set ALL_ROOTS" for n
    using t by (cases n; cases ?t) (auto simp: ALL_ROOTS_def)
  then have "parse_localhost_path uri = None"
    using t by (auto simp: parse_localhost_path_def Let_def ALL_ROOTS_def split: option.split)
  then show ?thesis
    by (simp add: rooted_localhost_uri_def parse_localhost_uri_def strip_prefix_def v)
qed

lemma path_resource: "\<lbrakk>token_resource path = Inr res; rooted_localhost_uri path = Some uri\<rbrakk> \<Longrightarrow> as_str res = uri"
  using elastos_not_rooted[of path]
  by (auto simp: token_resource_def andthen_Inr is_supported_resource_scheme_def split: if_splits)

lemma handle_storage_mediated:
  assumes "\<not> is_shell from s" "handle_storage H act ract from t path content s = (resp, s')"
    and "capability_action ract = act"
    and needs: "\<And>res. token_resource path = Inr res \<Longrightarrow> needs req = Some (t, act, res)"
  shows "mediated H from req resp s s'"
proof (cases "first_refusal (bad_text ''path'' MAX_RESOURCE_LEN path)")
  case (Inl r)
  then show ?thesis using assms(2) refusals_are_errors(1)[OF Inl] mediated_error by (auto simp: handle_storage_def)
next
  case (Inr u)
  obtain g s1 where g: "validate_token H t from act path s = (g, s1)" by fastforce
  note gate = gate_cases[OF g]
  show ?thesis
  proof (cases g)
    case (Inl r)
    then show ?thesis using assms(1,2) g gate Inr mediated_refused[of s s1]
      by (auto simp: handle_storage_def pass_gate_def)
  next
    case v: (Inr u)
    then obtain tok res where e: "token_from_base64 H t = Inr tok" "token_resource path = Inr res" "entitles H tok from act res s"
      using gate by auto
    show ?thesis
    proof (cases "rooted_localhost_uri path")
      case None
      then show ?thesis using assms(1,2) g v gate Inr mediated_refused[of s s1] by (auto simp: handle_storage_def pass_gate_def)
    next
      case (Some uri)
      have r: "route_to_provider from uri ract content s1 = (resp, s')"
        using assms(1,2) g v Inr Some by (simp add: handle_storage_def pass_gate_def)
      have "names_resource uri res"
        using e(2) Some path_resource by (auto simp: names_resource_def)
      from routed[OF r gate[THEN conjunct1] this assms(3)] show ?thesis
        using mediated_by[OF needs[OF e(2)] e(1,3)] by blast
    qed
  qed
qed
lemma handle_resource_mediated:
  assumes "\<not> is_shell from s" "handle_resource_request H from uri a params token s = (resp, s')"
  shows "mediated H from (ResourceRequest uri a params token) resp s s'"
proof (cases "first_refusal (bad_uri uri)")
  case (Inl r)
  then show ?thesis using assms(2) refusals_are_errors(2)[OF Inl] mediated_error by (auto simp: handle_resource_request_def)
next
  case ok: (Inr u)
  show ?thesis
  proof (cases "resource_action_of a = None \<or> token = None \<or> token = Some []")
    case True
    then show ?thesis using assms ok mediated_error
      by (cases "resource_action_of a") (auto simp: handle_resource_request_def pass_gate_opt_def ok_or_def)
  next
    case False
    then obtain t ra where t: "token = Some t" "t \<noteq> []" "resource_action_of a = Some ra" by auto
    obtain g s1 where g: "validate_token H t from (capability_action ra) uri s = (g, s1)" by fastforce
    note gate = gate_cases[OF g]
    show ?thesis
    proof (cases g)
      case (Inl r)
      then show ?thesis using assms t g gate ok mediated_refused[of s s1]
        by (auto simp: handle_resource_request_def pass_gate_opt_def ok_or_def)
    next
      case (Inr u)
      then obtain tok res where e: "token_from_base64 H t = Inr tok" "token_resource uri = Inr res"
          "entitles H tok from (capability_action ra) res s" using gate by auto
      have "route_to_provider from uri ra (params_content (hx_base64 H) params) s1 = (resp, s')"
        using assms t g Inr ok by (simp add: handle_resource_request_def pass_gate_opt_def ok_or_def)
      from routed[OF this gate[THEN conjunct1] _ refl, of res] e(2)
      have "control_same s s' \<and> reached_as_named from (capability_action ra) res s s'"
        by (simp add: names_resource_def)
      then show ?thesis
        by (intro mediated_by[where t = t and tok = tok and act = "capability_action ra" and res = res])
          (simp_all add: t e)
    qed
  qed
qed

lemma send_token_entitles:
  assumes "\<not> is_shell from s" "shell_id (hd_channel s) = hd_shell s" "message_new from to payload s = (m, s1)"
    and "fst (send (hx_ext H) (hd_manager s) m (Some tok) (hd_channel s) s1) = Inr (msg_id m)"
  shows "entitles H tok from Message (message_resource to) s"
proof -
  have m: "msg_from m = from" "msg_to m = to" and s1: "s1 = snd (message_new from to payload s)"
    using assms(3) by (auto simp: message_new_def Let_def prod.case_eq_if)
  have u: "untouched s s1" "wall_reads s \<le> wall_reads s1" "wall_clock s1 = wall_clock s" "use_counts s1 = use_counts s"
    by (simp_all add: s1 message_new_def message_id_new_def draw_uuid_bytes_def ts_now_eq Let_def prod.case_eq_if untouched_def)
  have "authorized (hx_ext H) (hd_manager s) m (Some tok) (hd_channel s) s1"
    using assms(4) by (auto simp: send_result send_checks_def split: option.splits if_splits)
  then have "fst (validate (hx_ext H) (hd_manager s) tok from Message (message_resource to) None s1) = Inr ()"
    using assms(1,2) by (auto simp: authorized_def validate_result m is_shell_def split: option.split)
  from validate_entitles[OF this u] show ?thesis .
qed

lemma handle_send_mediated:
  assumes "\<not> is_shell from s" "shell_id (hd_channel s) = hd_shell s"
    and "handle_send_message H from to payload reply_to token s = (resp, s')"
  shows "mediated H from (SendMessage to payload reply_to token) resp s s'"
proof (cases "token = None \<or> token = Some [] \<or> (\<exists>e. token_from_base64 H (the token) = Inl e)")
  case True
  then show ?thesis using assms mediated_error
    by (auto simp: handle_send_message_def split: option.splits if_splits)
next
  case False
  then obtain t tok where t: "token = Some t" "t \<noteq> []" "token_from_base64 H t = Inr tok"
    by (metis option.exhaust_sel sum.exhaust)
  obtain m s1 where m: "message_new from to payload s = (m, s1)" by fastforce
  then have m': "msg_from m = from" "msg_to m = to" by (auto simp: message_new_def Let_def prod.case_eq_if)
  obtain r C s2 where r: "send (hx_ext H) (hd_manager s1) m (Some tok) (hd_channel s1) s1 = (r, C, s2)" by (cases rule: prod_cases3)
  have s1: "untouched s s1" using m untouched_helpers(5)[of s "from" to payload] by simp
  have "untouched s s2" using untouched_trans[OF s1] send_untouched[of s1] r by (metis snd_conv)
  note k = untouchedD[OF this] and k1 = untouchedD[OF s1]
  have s': "s' = s2\<lparr>hd_channel := C\<rparr>"
    and resp: "resp = (case r of Inr _ \<Rightarrow> RespOk None
       | Inl e \<Rightarrow> RespError ''send_failed'' (''Failed to send: '' @ message_error_display e))"
    using assms(1,3) t m r by (auto simp: handle_send_message_def)
  have q: "queue_of d C = queue_of d (hd_channel s) @ (if r = Inr (msg_id m) \<and> msg_to m = d then [m] else [])" for d
    using queue_of_send[of d "hx_ext H" "hd_manager s1" m "Some tok" "hd_channel s1" s1] r k1 by simp
  have sh: "shell_id C = shell_id (hd_channel s)"
    using send_channel[of "hx_ext H" "hd_manager s1" m "Some tok" "hd_channel s1" s1] r k1 by simp
  have c: "control_same s s'" using k sh by (simp add: s' control_same_def)
  show ?thesis
  proof (cases "r = Inr (msg_id m)")
    case True
    have "entitles H tok from Message (message_resource to) s"
      using send_token_entitles[OF assms(1,2) m] r True k1 by simp
    then show ?thesis
      by (rule mediated_by[where t = t and tok = tok, rotated 2]) (use t c q True m' k in \<open>auto simp: reached_as_named_def s'\<close>)
  next
    case False
    have "\<exists>e. r = Inl e" using False send_result[of "hx_ext H" "hd_manager s1" m "Some tok" "hd_channel s1" s1] r
      by (auto split: option.splits)
    then show ?thesis using c q False k by (auto simp: mediated_def resp unreached_def s')
  qed
qed

lemma handle_receive_mediated:
  assumes "handle_receive_messages H from s = (resp, s')"
  shows "mediated H from ReceiveMessages resp s s'"
proof -
  obtain ms C s1 where r: "receive from (hd_channel s) s = (ms, C, s1)" by (cases rule: prod_cases3)
  have "untouched s s1" using receive_untouched[of s "from" "hd_channel s"] r by simp
  note k = untouchedD[OF this]
  have q: "ms = queue_of from (hd_channel s)" "\<And>d. d \<noteq> from \<Longrightarrow> queue_of d C = queue_of d (hd_channel s)"
    using queue_of_receive(1)[where d = "from" and C = "hd_channel s" and s = s] queue_of_receive(2)[of "from" "hd_channel s" s] r
    by (metis fst_conv, metis fst_conv snd_conv)
  have sh: "shell_id C = shell_id (hd_channel s)"
    using r by (auto simp: receive_def Let_def split: option.splits)
  show ?thesis using assms r k q sh
    by (auto simp: handle_receive_messages_def mediated_def control_same_def unreached_def)
qed

lemma handle_mediated:
  assumes "\<not> is_shell from s" "shell_id (hd_channel s) = hd_shell s" "handle H from req s = (resp, s')"
  shows "mediated H from req resp s s'"
proof -
  have un: "untouched s s" by simp
  note plain = untouched_control[OF un] and err = mediated_error
  show ?thesis
  proof (cases req)
    case (SendMessage to payload reply_to token)
    then show ?thesis using handle_send_mediated[OF assms(1,2)] assms(3) by simp
  next
    case (FetchContent uri token)
    then show ?thesis using handle_fetch_mediated[OF assms(1)] assms(3) by simp
  next
    case (StorageRead t path)
    then show ?thesis using assms(3)
      by (intro handle_storage_mediated[OF assms(1), of H Read RaRead t path None]) (simp_all add: handle_storage_read_def)
  next
    case (StorageWrite t path content)
    then show ?thesis using assms(3)
      by (intro handle_storage_mediated[OF assms(1), of H Write RaWrite t path "Some content"])
        (simp_all add: handle_storage_write_def)
  next
    case (ResourceRequest uri a params token)
    then show ?thesis using handle_resource_mediated[OF assms(1)] assms(3) by simp
  next
    case ReceiveMessages
    then show ?thesis using handle_receive_mediated assms(3) by simp
  qed (use assms(1,3) plain err in \<open>auto simp: handle_list_capsules_def handle_launch_capsule_def handle_stop_capsule_def
      handle_grant_capability_def handle_revoke_capability_def unauthorized_def handle_get_runtime_info_def mediated_def\<close>)
qed

subsection \<open>Revocation over the protocol\<close>

text \<open>What no request changes, and the revocations, which only grow.\<close>

definition steady :: "'a handler_scheme \<Rightarrow> 'a handler_scheme \<Rightarrow> bool" where
  "steady s s' = (hd_shell s' = hd_shell s \<and> shell_id (hd_channel s') = shell_id (hd_channel s)
     \<and> set (revoked_tokens s) \<subseteq> set (revoked_tokens s') \<and> handler.more s' = handler.more s
     \<and> (\<forall>d. is_registered d (hd_channel s') = is_registered d (hd_channel s)))"

lemma steady_refl [simp]: "steady s s"
  by (simp add: steady_def)

lemma steady_trans: "\<lbrakk>steady s t; steady t u\<rbrakk> \<Longrightarrow> steady s u"
  by (auto simp: steady_def)

lemma untouched_steady: "untouched s s' \<Longrightarrow> steady s s'"
  by (cases s; cases s'; simp add: untouched_def steady_def)

lemma fetch_steady: "fetch_kept s s' \<Longrightarrow> steady s s'" for s :: "'a handler_scheme"
  by (cases s; cases s'; simp add: fetch_kept_def steady_def)

text \<open>The capsule manager works on its part.\<close>

definition launch_kept :: "'a capsules_scheme \<Rightarrow> 'a capsules_scheme \<Rightarrow> bool" where
  "launch_kept s s' = (capsules.more s' = capsules.more s \<and> revoked_tokens s' = revoked_tokens s)"

lemma launch_steady: "launch_kept s s' \<Longrightarrow> steady s s'" for s :: "'a handler_scheme"
  by (cases s; cases s'; simp add: launch_kept_def steady_def)

lemma launch_kept_refl [simp]: "launch_kept s s"
  by (simp add: launch_kept_def)

lemma launch_kept_trans: "\<lbrakk>launch_kept s t; launch_kept t u\<rbrakk> \<Longrightarrow> launch_kept s u"
  by (simp add: launch_kept_def)

lemma capsules_more_emit [simp]: "capsules.more (emit ev s) = capsules.more s"
  by (simp add: emit_def write_line_def Let_def split: option.splits prod.splits)

lemma launch_kept_pieces [simp]:
  "launch_kept s (snd (launch_load X p m cid tr s))" "launch_kept s (launch_register i s)"
  "launch_kept s (snd (launch_start c s))" "launch_kept s (launch_abort c s)" "launch_kept s (launch_finish i s)"
  "launch_kept s (snd (stop_mark c s))" "launch_kept s (stop_finish c r s)" "launch_kept s (snd (compute_stop h s))"
  by (simp_all add: launch_kept_def launch_load_def launch_register_def launch_start_def launch_abort_def launch_finish_def
      stop_mark_def stop_finish_def set_state_def compute_load_def compute_start_def compute_stop_def stop_capsule_def
      start_capsule_def capsule_metrics_new_def read_wall_def capsule_id_new_def draw_uuid_bytes_def capsule_launch_def
      capsule_stop_def ts_now_eq Let_def prod.case_eq_if split: option.split)

lemma launch_internal_kept: "launch_kept s (snd (launch_internal X p m cid tr s))"
proof -
  let ?s1 = "snd (launch_load X p m cid tr s)"
  have r: "launch_kept s (launch_register i ?s1)" for i
    by (rule launch_kept_trans[OF launch_kept_pieces(1) launch_kept_pieces(2)])
  have st: "launch_kept s (snd (launch_start c (launch_register i ?s1)))" for c i
    by (rule launch_kept_trans[OF r launch_kept_pieces(3)])
  show ?thesis
    using launch_kept_trans[OF st launch_kept_pieces(4)] launch_kept_trans[OF st launch_kept_pieces(5)]
    by (simp add: launch_internal_def Let_def prod.case_eq_if split: sum.split)
qed

lemma stop_kept: "launch_kept s (snd (stop c r s))"
proof -
  let ?s1 = "snd (stop_mark c s)"
  have st: "launch_kept s (snd (compute_stop h ?s1))" for h
    by (rule launch_kept_trans[OF launch_kept_pieces(6) launch_kept_pieces(8)])
  show ?thesis using st launch_kept_trans[OF st launch_kept_pieces(7)]
    by (simp add: stop_def Let_def prod.case_eq_if split: sum.split)
qed

lemma grant_steady: "steady s (snd (grant X M c r a con x s))"
proof -
  have "runtime.more (snd (grant X M c r a con x s)) = runtime.more s"
    by (simp add: grant_def token_new_def token_id_new_def draw_uuid_bytes_def record_capability_request_def update_metrics_def
        check_period_reset_def read_instant_def capability_grant_def ts_now_eq Let_def prod.case_eq_if)
  then show ?thesis using same_storeD(2)[OF same_store_grant[of s X M c r a con x]]
    by (intro untouched_steady) (simp add: untouched_def same_store_def same_storeD[OF same_store_grant])
qed

lemma revoke_steady: "steady s (revoke X t w s) \<and> t \<in> set (revoked_tokens (revoke X t w s))"
proof -
  have m: "runtime.more (revoke X t w s) = runtime.more s"
    by (simp add: revoke_def revoke_token_def persist_revoked_tokens_def next_io_def capability_revoke_def ts_now_eq Let_def
        split: option.split io_outcome.split)
  have "hd_shell (revoke X t w s) = hd_shell s \<and> hd_channel (revoke X t w s) = hd_channel s
      \<and> handler.more (revoke X t w s) = handler.more s"
    using m by (cases s; cases "revoke X t w s"; simp)
  then show ?thesis using revoke_store[of X t w s] by (auto simp: steady_def)
qed

lemma route_steady: "steady s (snd (route_to_provider from uri a content s))"
  by (simp add: route_to_provider_def steady_def Let_def prod.case_eq_if split: option.split)

lemma gate_untouched: "untouched s (snd (validate_token H t from act uri s))"
  using gate_cases[of H t "from" act uri s "fst (validate_token H t from act uri s)"] by simp

lemma gates_steady [simp]:
  "steady s (snd (pass_gate H t from act uri s))" "steady s (snd (pass_gate_opt H what token from act uri s))"
  by (simp_all add: pass_gate_def pass_gate_opt_def untouched_steady[OF gate_untouched] split: option.split)

lemma prepare_steady: "steady s (snd (prepare_fetched_capsule H b s))"
  by (simp add: prepare_fetched_capsule_def steady_def Let_def split: sum.split)

lemma launch_handler_steady: "steady s (snd (handle_launch_capsule H from cid config s))"
proof -
  let ?f = "\<lambda>u. snd (fetch_content (hx_ext H) (hx_cid H) u s)"
  have f: "steady s (?f u)" for u by (rule fetch_steady[OF fetch_content_kept])
  have p: "steady s (snd (prepare_fetched_capsule H b (?f u)))" for b u
    by (rule steady_trans[OF f prepare_steady])
  have "steady s (snd (launch_internal X pa m c tr (snd (prepare_fetched_capsule H b (?f u)))))" for X pa m c tr b u
    by (rule steady_trans[OF p launch_steady[OF launch_internal_kept]])
  then show ?thesis using f p
    by (simp add: handle_launch_capsule_def launch_from_cid_def prod.case_eq_if split: sum.split)
qed

lemma grant_handler_steady: "steady s (snd (handle_grant_capability H from c r a con s))"
proof -
  have c: "steady s (snd (ts_at x (snd (ts_now s))))" for x
    by (rule untouched_steady) (simp add: untouched_def ts_at_def ts_now_eq fetch_counter_def Let_def)
  show ?thesis
    by (simp add: handle_grant_capability_def grant_steady steady_trans[OF c grant_steady] Let_def prod.case_eq_if
        split: option.split sum.split)
qed

lemma channel_registered [simp]:
  "is_registered d (fst (snd (send X M m tok C s))) = is_registered d C"
  "is_registered d (fst (snd (receive c C s))) = is_registered d C"
  by (auto simp: send_channel receive_def is_registered_def hm_contains_def Let_def split: option.split)

lemma messaging_steady:
  "steady s (snd (handle_send_message H from to payload reply_to token s))" "steady s (snd (handle_receive_messages H from s))"
proof -
  let ?m = "message_new from to payload s"
  have k: "steady s ((snd (snd (send X M m tok C (snd ?m))))\<lparr>hd_channel := fst (snd (send X M m tok C (snd ?m)))\<rparr>)"
    if "C = hd_channel s" for X M m tok C
    using channel_registered(1)[of _ X M m tok C "snd ?m"]
    by (simp add: steady_def send_channel that untouchedD(4,13,15)[OF untouched_trans[OF untouched_helpers(5) send_untouched]])
  show "steady s (snd (handle_send_message H from to payload reply_to token s))"
    using k[OF untouchedD(2)[OF untouched_helpers(5)]]
    by (simp add: handle_send_message_def Let_def prod.case_eq_if split: sum.split)
  have "shell_id (fst (snd (receive from C s))) = shell_id C" for C
    by (simp add: receive_def Let_def split: option.split)
  then show "steady s (snd (handle_receive_messages H from s))"
    by (simp add: handle_receive_messages_def steady_def untouchedD(4,13,15)[OF receive_untouched] Let_def prod.case_eq_if)
qed

lemma handle_steady: "steady s (snd (handle H from req s))"
proof (cases req)
  case (StopCapsule c)
  then show ?thesis
    by (simp add: handle_stop_capsule_def launch_steady[OF stop_kept] prod.case_eq_if)
next
  case (RevokeCapability t)
  then show ?thesis using revoke_steady by (auto simp: handle_revoke_capability_def split: option.split)
next
  case (FetchContent uri token)
  then show ?thesis
    by (simp add: steady_trans[OF gates_steady(2) fetch_steady[OF fetch_content_kept]] handle_fetch_content_def prod.case_eq_if split: sum.split)
next
  case (StorageRead t path)
  then show ?thesis
    by (simp add: steady_trans[OF gates_steady(1) route_steady] handle_storage_read_def handle_storage_def prod.case_eq_if split: sum.split option.split)
next
  case (StorageWrite t path content)
  then show ?thesis
    by (simp add: steady_trans[OF gates_steady(1) route_steady] handle_storage_write_def handle_storage_def prod.case_eq_if split: sum.split option.split)
next
  case (ResourceRequest uri a params token)
  then show ?thesis
    by (simp add: steady_trans[OF gates_steady(2) route_steady] handle_resource_request_def prod.case_eq_if split: sum.split)
qed (simp_all add: launch_handler_steady grant_handler_steady messaging_steady handle_list_capsules_def
    handle_get_runtime_info_def)

text \<open>Requests handled one after the other.\<close>

fun handle_all :: "handler_ext \<Rightarrow> (string \<times> runtime_request) list \<Rightarrow> 'a handler_scheme \<Rightarrow> 'a handler_scheme" where
  "handle_all H [] s = s"
| "handle_all H ((from, req) # reqs) s = handle_all H reqs (snd (handle H from req s))"

lemma handle_all_steady: "steady s (handle_all H reqs s)"
  by (induction H reqs s rule: handle_all.induct) (auto intro: steady_trans[OF handle_steady])

text \<open>
  Property C28. Revocation is final over the protocol. Once the shell's request to revoke a token id
  has been handled, then after any further requests by anyone, a request of a capsule that carries
  a token with that id reaches nothing and learns nothing.
\<close>

theorem revoked_over_protocol:
  assumes "handle H shell (RevokeCapability text) s = (RespOk None, s1)" "hex_decode (hx_ext H) text = Some b"
    and "shell_id (hd_channel s) = hd_shell s" "s2 = handle_all H reqs s1"
    and "\<not> is_shell from s2" "handle H from req s2 = (resp, s3)"
    and "needs req = Some (t, act, res)" "token_from_base64 H t = Inr tok" "tok_id tok = TokenId b"
  shows "control_same s2 s3 \<and> unreached from s2 s3 \<and> tells_nothing H (queue_of from (hd_channel s2)) resp"
proof -
  have "TokenId b \<in> set (revoked_tokens s1)"
    using assms(1,2) revoke_steady by (auto simp: handle_revoke_capability_def unauthorized_def split: if_splits)
  then have r: "tok_id tok \<in> set (revoked_tokens s2)"
    using handle_all_steady[where s = s1 and H = H and reqs = reqs] assms(4,9) by (auto simp: steady_def)
  have "steady s s1" using handle_steady[of s H shell "RevokeCapability text"] assms(1) by simp
  then have sync: "shell_id (hd_channel s2) = hd_shell s2"
    using handle_all_steady[where s = s1 and H = H and reqs = reqs] assms(3,4) by (simp add: steady_def)
  have "\<not> entitles H tok from act res s2" using r by (simp add: entitles_def)
  then show ?thesis using handle_mediated[OF assms(5) sync assms(6)] assms(7,8)
    by (auto simp: mediated_def)
qed

subsection \<open>Launching from content\<close>

lemma normalize_launch_cid_Inr: "normalize_launch_cid cid = Inr c \<Longrightarrow> is_ipfs_cid c"
  by (auto simp: normalize_launch_cid_def Let_def split: sum.splits if_splits)

lemma launch_refusal_error:
  "andthen (first_refusal (bad_text ''CID'' n cid)) (\<lambda>_. normalize_launch_cid cid) = Inl r \<Longrightarrow> \<exists>c m. r = RespError c m"
  by (auto simp: bad_text_def normalize_launch_cid_def Let_def andthen_def split: sum.splits if_splits)

lemma try_prepare_bundle_Some:
  assumes "try_prepare_bundle H root unpacked content = Inr (Some p)"
  shows "looks_like_gzip content \<and> (\<exists>tree dir node b. unpacked = Inr tree
    \<and> collect_manifest_paths root tree = Inr [(dir, node, Inr b)] \<and> hx_manifest H b = Inr (pc_manifest p)
    \<and> validate_manifest (hx_ext H) (hx_wit H) (pc_manifest p) = Inr () \<and> is_file node (mf_entrypoint (pc_manifest p))
    \<and> pc_launch_dir p = dir)"
proof -
  have gz: "looks_like_gzip content" using assms by (auto simp: try_prepare_bundle_def split: if_splits)
  obtain tree where tr: "unpacked = Inr tree" using assms gz by (cases unpacked) (auto simp: try_prepare_bundle_def)
  obtain found where f: "collect_manifest_paths root tree = Inr found"
    using assms gz tr by (cases "collect_manifest_paths root tree") (auto simp: try_prepare_bundle_def)
  obtain dir node r where one: "found = [(dir, node, r)]"
    using assms gz tr f by (cases found rule: remdups_adj.cases) (auto simp: try_prepare_bundle_def)
  obtain b where b: "r = Inr b" using assms gz tr f one by (cases r) (auto simp: try_prepare_bundle_def)
  obtain m where m: "hx_manifest H b = Inr m"
    using assms gz tr f one b by (cases "hx_manifest H b") (auto simp: try_prepare_bundle_def)
  have v: "validate_manifest (hx_ext H) (hx_wit H) m = Inr ()"
    using assms gz tr f one b m by (cases "validate_manifest (hx_ext H) (hx_wit H) m") (auto simp: try_prepare_bundle_def)
  then show ?thesis using assms gz tr f one b m by (auto simp: try_prepare_bundle_def split: if_splits)
qed

lemma prepare_Inr:
  assumes "prepare_fetched_capsule H b s = (Inr p, s1)"
  shows "s1 = s\<lparr>hd_temps := Suc (hd_temps s)\<rparr> \<and> (\<exists>root. hd_temp s (hd_temps s) = Inr root
    \<and> try_prepare_bundle H root (hd_unpack s (hd_temps s) (fr_content b)) (fr_content b) = Inr (Some p))"
  using assms
  by (auto simp: prepare_fetched_capsule_def Let_def andthen_Inr split: sum.splits option.splits)

lemma launch_internal_Inr:
  assumes "launch_internal X path m cid trust s = (Inr c, s')"
  shows "generic m s \<and> (\<exists>h. hm_get (cap_table s') c = Some \<lparr>ci_id = c, ci_manifest = m, ci_state = Running,
     ci_cid = cid, ci_trust_level = trust, ci_handle = h\<rparr>)"
proof -
  obtain q s1 where q: "launch_load X path m cid trust s = (q, s1)" by fastforce
  obtain i where i: "q = Inr i" using assms q by (cases q) (auto simp: launch_internal_def)
  note f = launch_load_Inr[OF q[unfolded i]]
  let ?s = "launch_register i s1"
  obtain u where u: "launch_start (ci_id i) ?s = (Inr (), u)"
    using assms q i by (cases "launch_start (ci_id i) ?s"; cases "fst (launch_start (ci_id i) ?s)")
      (auto simp: launch_internal_def Let_def)
  have s': "s' = launch_finish i u" "c = ci_id i" using assms q i u by (auto simp: launch_internal_def Let_def)
  have "cap_table u = cap_table ?s" using launch_start_cases[OF u] by simp
  then have "hm_get (cap_table s') c = Some (i\<lparr>ci_state := Running\<rparr>)" using s' by simp
  moreover have "i\<lparr>ci_state := Running\<rparr> = \<lparr>ci_id = c, ci_manifest = m, ci_state = Running,
     ci_cid = cid, ci_trust_level = trust, ci_handle = ci_handle i\<rparr>"
    using f(2-4) s'(2) by (cases i) simp
  ultimately show ?thesis using f(8) by auto
qed

text \<open>
  What a launch request puts in the table has been vetted. A success means the shell
  asked, for a bare IPFS CID; the content fetched for exactly this CID is a compressed archive with
  one manifest, which parses, passes validation and names an entrypoint that is a file of the
  bundle; the manifest is of a kind the generic launcher may run; and the capsule runs with it
  under the CID, untrusted.
\<close>

theorem launched_capsules_vetted:
  assumes "handle H from (LaunchCapsule cid config) s = (RespCapsuleLaunched c, s')"
  shows "is_shell from s \<and> (\<exists>i cidn fetched root tree dir node b.
      normalize_launch_cid cid = Inr cidn \<and> is_ipfs_cid cidn
      \<and> fst (fetch_content (hx_ext H) (hx_cid H) (''elastos://'' @ cidn) s) = Inr fetched \<and> looks_like_gzip (fr_content fetched)
      \<and> hd_temp s (hd_temps s) = Inr root \<and> hd_unpack s (hd_temps s) (fr_content fetched) = Inr tree
      \<and> collect_manifest_paths root tree = Inr [(dir, node, Inr b)] \<and> hx_manifest H b = Inr (ci_manifest i)
      \<and> validate_manifest (hx_ext H) (hx_wit H) (ci_manifest i) = Inr () \<and> is_file node (mf_entrypoint (ci_manifest i))
      \<and> execution_type (ci_manifest i) \<notin> {WebProjection, NativeProvider, NativeHost}
      \<and> cp_supports s (mf_capsule_type (ci_manifest i))
      \<and> hm_get (cap_table s') c = Some i \<and> ci_id i = c \<and> ci_state i = Running \<and> ci_trust_level i = Untrusted
      \<and> ci_cid i = Some cidn)"
proof -
  have sh: "is_shell from s" using assms by (auto simp: handle_launch_capsule_def unauthorized_def split: if_splits)
  obtain cidn where c: "normalize_launch_cid cid = Inr cidn"
    "andthen (first_refusal (bad_text ''CID'' MAX_CID_LEN cid)) (\<lambda>_. normalize_launch_cid cid) = Inr cidn"
    using assms sh launch_refusal_error[of MAX_CID_LEN cid]
    by (cases "andthen (first_refusal (bad_text ''CID'' MAX_CID_LEN cid)) (\<lambda>_. normalize_launch_cid cid)")
      (auto simp: handle_launch_capsule_def andthen_Inr)
  let ?f = "fetch_content (hx_ext H) (hx_cid H) (''elastos://'' @ cidn) s"
  obtain b where b: "fst ?f = Inr b" using assms sh c by (cases "fst ?f") (auto simp: handle_launch_capsule_def prod.case_eq_if)
  let ?p = "prepare_fetched_capsule H b (snd ?f)"
  obtain p where p: "?p = (Inr p, snd ?p)"
    using assms sh c b by (cases "fst ?p"; cases ?p) (auto simp: handle_launch_capsule_def prod.case_eq_if)
  have l: "launch_internal (hx_ext H) (pc_launch_dir p) (pc_manifest p) (Some cidn) Untrusted (snd ?p) = (Inr c, s')"
    using assms sh c b p by (auto simp: handle_launch_capsule_def launch_from_cid_def prod.case_eq_if prod_eq_iff split: sum.splits)
  note k = fetch_keptD[OF fetch_content_kept[of s "hx_ext H" "hx_cid H" "''elastos://'' @ cidn"]]
  from prepare_Inr[OF p] obtain root where r: "hd_temp s (hd_temps s) = Inr root" "cp_supports (snd ?p) = cp_supports s"
      "try_prepare_bundle H root (hd_unpack s (hd_temps s) (fr_content b)) (fr_content b) = Inr (Some p)"
    using k by auto
  from launch_internal_Inr[OF l] obtain h where h: "hm_get (cap_table s') c = Some \<lparr>ci_id = c, ci_manifest = pc_manifest p,
      ci_state = Running, ci_cid = Some cidn, ci_trust_level = Untrusted, ci_handle = h\<rparr>" "generic (pc_manifest p) (snd ?p)"
    by auto
  from try_prepare_bundle_Some[OF r(3)] normalize_launch_cid_Inr[OF c(1)] b r(1,2) h sh c(1) show ?thesis
    by (auto simp: generic_def)
qed

subsection \<open>Examples\<close>

text \<open>Every text decodes to the token \<open>demo_parent\<close>; the provider of \<^verbatim>\<open>elastos\<close> answers.\<close>

definition demo_hx :: handler_ext where
  "demo_hx = \<lparr>hx_ext = demo_ext, hx_cid = (\<lambda>_. Inl ''unknown''), hx_base64 = \<lparr>b64e = demo_hex, b64d = (\<lambda>_. Inr [])\<rparr>,
     hx_token = (\<lambda>_. Inr demo_parent), hx_manifest = (\<lambda>_. Inr demo_manifest), hx_wit = demo_wit\<rparr>"

definition demo_launch_cid :: string where
  "demo_launch_cid = ''QmYwAPJzv5CZsnA625s3Xf2nemtYgPpHdWEz79ojWnPbdG''"

definition demo_bundle :: bundle_node where
  "demo_bundle = BDir [BEntry ''main.wasm'' (BFile (Inr [0])), BEntry ''capsule.json'' (BFile (Inr [1]))]"

definition demo_handler :: handler where
  "demo_handler = capsules.extend (demo_capsules\<lparr>rs_cache := [(demo_launch_cid, [0x1f, 0x8b])]\<rparr>)
     (handler.fields demo_manager \<lparr>inboxes = [], shell_id = Some ''sh''\<rparr>
       (Some (demo_registry\<lparr>reg_providers := [(''elastos'', demo_provider 1)]\<rparr>)) ''1'' (Some ''sh'')
       (\<lambda>n. Inr ''/tmp'') (\<lambda>n b. Inr demo_bundle) 0)"

lemma demo_handler_sel [simp]:
  "hd_manager demo_handler = demo_manager" "hd_channel demo_handler = \<lparr>inboxes = [], shell_id = Some ''sh''\<rparr>"
  "hd_registry demo_handler = Some (demo_registry\<lparr>reg_providers := [(''elastos'', demo_provider 1)]\<rparr>)"
  "hd_shell demo_handler = Some ''sh''" "hd_temp demo_handler n = Inr ''/tmp''" "hd_unpack demo_handler n b = Inr demo_bundle"
  "store_epoch demo_handler = 0" "revoked_tokens demo_handler = []" "use_counts demo_handler = []"
  "wall_reads demo_handler = 0" "wall_clock demo_handler = (\<lambda>n. 1000 + of_nat n)"
  "rs_cache demo_handler = [(demo_launch_cid, [0x1f, 0x8b])]" "rs_config demo_handler = demo_resolver_config"
  "cap_table demo_handler = []" "cp_supports demo_handler t = (t = Wasm)" "cp_load demo_handler n p m = Inr demo_handle"
  "cp_start demo_handler n h = Inr ()"
  by (simp_all add: demo_handler_def demo_capsules_def content.extend_def capsules.defs handler.defs demo_content_def
      runtime.extend_def content.fields_def demo_rt_def)

lemma graphic_no_control_chars: "\<forall>c \<in> set v. graphic c \<Longrightarrow> \<not> has_control_chars v"
  using graphic_no_control[of v] by (auto simp: has_control_chars_def has_char_of_def list_ex_iff)

lemma demo_checks:
  "is_supported_resource_scheme ''elastos://a''" "\<not> has_control_chars ''elastos://a''" "lower ''read'' = ''read''"
  "token_resource ''elastos://a'' = Inr (ResourceId ''elastos://a'')"
proof -
  show s: "is_supported_resource_scheme ''elastos://a''" "lower ''read'' = ''read''" by code_simp+
  show "\<not> has_control_chars ''elastos://a''" by (rule graphic_no_control_chars) (simp add: graphic_def)
  have "find_sub ''://'' ''elastos://a'' = Some 7" by code_simp
  then show "token_resource ''elastos://a'' = Inr (ResourceId ''elastos://a'')"
    using s by (simp add: token_resource_def require_def)
qed

lemma demo_token_valid:
  "fst (validate demo_ext demo_manager demo_parent ''c'' Read (ResourceId ''elastos://a'') None demo_handler) = Inr ()"
proof -
  have "first_error (checks demo_ext demo_manager demo_parent ''c'' Read (ResourceId ''elastos://a'') None demo_handler) = None"
    by (simp add: checks_def demo_parent_sel demo_sel demo_parent_verifies scope.within_refl
        demo_constraints_def constraints_new_def get_use_count_def)
  then show ?thesis by (simp add: validate_result)
qed

lemma demo_decode: "token_from_base64 demo_hx v = Inr demo_parent"
  by (simp add: token_from_base64_def demo_hx_def)

lemma demo_hx_sel [simp]: "hx_ext demo_hx = demo_ext" "hx_manifest demo_hx b = Inr demo_manifest" "hx_wit demo_hx = demo_wit"
  by (simp_all add: demo_hx_def)

abbreviation demo_resource_request :: runtime_request where
  "demo_resource_request \<equiv> ResourceRequest ''elastos://a'' ''read'' None (Some ''t'')"

lemma demo_action: "resource_action_of ''read'' = Some RaRead"
  by (simp add: resource_action_of_def demo_checks)

lemma demo_routed: "\<exists>s'. handle demo_hx ''c'' demo_resource_request demo_handler = (RespOk None, s')"
proof -
  let ?v = "validate demo_ext demo_manager demo_parent ''c'' Read (ResourceId ''elastos://a'') None demo_handler"
  let ?R = "demo_registry\<lparr>reg_providers := [(''elastos'', demo_provider 1)]\<rparr>"
  have v: "validate_token demo_hx ''t'' ''c'' Read ''elastos://a'' demo_handler = (Inr (), snd ?v)"
    using demo_token_valid by (simp add: validate_token_def demo_decode demo_checks prod.case_eq_if)
  have b: "first_refusal (bad_uri ''elastos://a'') = Inr ()"
    by (simp add: bad_uri_def bad_text_def demo_checks MAX_RESOURCE_LEN_def first_refusal_Inr)
  have p: "parse_uri ''elastos://a'' = Inr (''elastos'', ''a'')" "split_sub_path ''a'' = Some (''a'', [])" by code_simp+
  have "route ''elastos://a'' ''c'' RaRead content ?R = (Inr ROk, snd (route ''elastos://a'' ''c'' RaRead content ?R))" for content
    by (simp add: route_def route_with_options_def p route_target_def get_sub_provider_def call_handle_def registry_get_def
        demo_registry_def hm_get_def prod_eq_iff)
  moreover have "hd_registry (snd ?v) = Some ?R" by (simp add: untouchedD(1)[OF validate_untouched])
  ultimately have "fst (route_to_provider ''c'' ''elastos://a'' RaRead content (snd ?v)) = RespOk None" for content
    by (simp add: route_to_provider_def prod.case_eq_if prod_eq_iff)
  then show ?thesis
    by (simp add: handle_resource_request_def b demo_action ok_or_def pass_gate_opt_def is_shell_def v prod_eq_iff)
qed


lemma demo_revoke_text: "hex_decode demo_ext (demo_hex (replicate 15 0 @ [200])) = Some (replicate 15 0 @ [200])"
  by (simp add: demo_unhex_hex)

theorem revoked_over_protocol_witness:
  "\<exists>s1 resp s3. handle demo_hx ''sh'' (RevokeCapability (demo_hex (replicate 15 0 @ [200]))) demo_handler = (RespOk None, s1)
     \<and> handle demo_hx ''c'' demo_resource_request s1 = (resp, s3) \<and> hd_registry s3 = hd_registry s1 \<and> resp \<noteq> RespOk None"
proof -
  let ?t = "demo_hex (replicate 15 0 @ [200])"
  let ?s1 = "revoke demo_ext (TokenId (replicate 15 0 @ [200])) ''Revoked by shell'' demo_handler"
  obtain resp s3 where h: "handle demo_hx ''c'' demo_resource_request ?s1 = (resp, s3)" by fastforce
  have r: "handle demo_hx ''sh'' (RevokeCapability ?t) demo_handler = (RespOk None, ?s1)"
    using demo_revoke_text by (simp add: handle_revoke_capability_def is_shell_def)
  have s: "hd_shell ?s1 = Some ''sh''"
    using revoke_steady[THEN conjunct1, of demo_handler demo_ext] by (simp add: steady_def)
  have "control_same ?s1 s3 \<and> unreached ''c'' ?s1 s3 \<and> tells_nothing demo_hx (queue_of ''c'' (hd_channel ?s1)) resp"
    using revoked_over_protocol[OF r _ _ _ _ h, where t = "''t''" and act = Read and res = "ResourceId ''elastos://a''"
        and tok = demo_parent and reqs = "[]" and b = "replicate 15 0 @ [200]"] demo_revoke_text s
    by (simp add: is_shell_def demo_checks demo_action demo_decode demo_parent_sel)
  then show ?thesis using r h by (auto simp: unreached_def)
qed

lemma launch_internal_ok:
  assumes "generic m s" "cp_load s = (\<lambda>_ _ _. Inr h)" "cp_start s = (\<lambda>_ _. Inr ())"
  shows "\<exists>c s'. launch_internal X path m cid trust s = (Inr c, s')"
proof -
  have n: "launch_refused m s = None" using assms(1) by (auto simp: launch_refused_def generic_def)
  let ?u = "start_capsule (fst (capsule_id_new X s)) (snd (capsule_id_new X s))"
  have o: "cp_load ?u = cp_load s" "cp_start ?u = cp_start s"
    by (simp_all add: start_capsule_def capsule_id_new_def draw_uuid_bytes_def capsule_metrics_new_def read_wall_def Let_def)
  obtain i where q: "launch_load X path m cid trust s = (Inr i, ?u\<lparr>cp_calls := cp_calls ?u @ [CallLoad path m]\<rparr>)"
    using n assms(2) o by (simp add: launch_load_def compute_load_def Let_def prod.case_eq_if)
  show ?thesis using q assms(3) o
    by (simp add: launch_internal_def launch_register_def launch_start_def compute_start_def)
qed

lemma demo_launch_cid_facts:
  "normalize_launch_cid demo_launch_cid = Inr demo_launch_cid" "length demo_launch_cid = 46" "\<forall>c \<in> set demo_launch_cid. graphic c"
  "parse_content_uri (''elastos://'' @ demo_launch_cid)
     = Inr \<lparr>uri_identifier = demo_launch_cid, uri_id_type = IpfsCid, uri_path = None\<rparr>"
  by code_simp+

theorem launched_capsules_vetted_witness:
  "\<exists>c s' i. handle demo_hx ''sh'' (LaunchCapsule demo_launch_cid \<lparr>lc_env = [], lc_args = []\<rparr>) demo_handler = (RespCapsuleLaunched c, s')
     \<and> hm_get (cap_table s') c = Some i \<and> ci_trust_level i = Untrusted \<and> ci_cid i = Some demo_launch_cid \<and> ci_manifest i = demo_manifest"
proof -
  let ?f = "fetch_content demo_ext (hx_cid demo_hx) (''elastos://'' @ demo_launch_cid) demo_handler"
  let ?p = "\<lparr>pc_launch_dir = ''/tmp'', pc_manifest = demo_manifest\<rparr>"
  have f0: "fst ?f = Inr \<lparr>fr_content = [0x1f, 0x8b], fr_source = NsLocalCache, fr_verified = True\<rparr>"
    unfolding fetch_content_def demo_launch_cid_facts(4)
    by (simp add: fetch_uri_def demo_resolver_config_def check_cache_def hm_get_def)
  define s1 where "s1 = snd ?f"
  have f: "?f = (Inr \<lparr>fr_content = [0x1f, 0x8b], fr_source = NsLocalCache, fr_verified = True\<rparr>, s1)"
    using f0 by (simp add: s1_def prod_eq_iff)
  note k = fetch_keptD[OF fetch_content_kept[of demo_handler demo_ext "hx_cid demo_hx" "''elastos://'' @ demo_launch_cid"], folded s1_def]
  have b: "try_prepare_bundle demo_hx ''/tmp'' (Inr demo_bundle) [0x1f, 0x8b] = Inr (Some ?p)"
  proof -
    have "split_on CHR ''/'' ''main.wasm'' = [''main.wasm'']" by code_simp
    then show ?thesis
      by (simp add: try_prepare_bundle_def looks_like_gzip_def demo_bundle_def demo_manifest_valid is_file_def)
        (simp add: demo_manifest_def)
  qed
  let ?q = "prepare_fetched_capsule demo_hx \<lparr>fr_content = [0x1f, 0x8b], fr_source = NsLocalCache, fr_verified = True\<rparr> s1"
  have q: "?q = (Inr ?p, s1\<lparr>hd_temps := Suc (hd_temps s1)\<rparr>)"
    by (simp add: prepare_fetched_capsule_def k b Let_def)
  have "generic demo_manifest (snd ?q)" using demo_generic by (simp add: q generic_def k)
  moreover have "cp_load (snd ?q) = (\<lambda>_ _ _. Inr demo_handle)" "cp_start (snd ?q) = (\<lambda>_ _. Inr ())"
    by (simp_all add: q k fun_eq_iff)
  ultimately obtain c s' where l: "launch_internal demo_ext ''/tmp'' demo_manifest (Some demo_launch_cid) Untrusted (snd ?q) = (Inr c, s')"
    using launch_internal_ok by blast
  have "first_refusal (bad_text ''CID'' MAX_CID_LEN demo_launch_cid) = Inr ()"
    using graphic_no_control_chars[OF demo_launch_cid_facts(3)]
    by (simp add: bad_text_def first_refusal_Inr MAX_CID_LEN_def demo_launch_cid_facts)
  then have h: "handle demo_hx ''sh'' (LaunchCapsule demo_launch_cid \<lparr>lc_env = [], lc_args = []\<rparr>) demo_handler
      = (RespCapsuleLaunched c, s')"
    unfolding handle.simps handle_launch_capsule_def demo_hx_sel
    by (simp add: is_shell_def demo_launch_cid_facts launch_from_cid_def f[unfolded append_Cons append_Nil] q l[unfolded q snd_conv])
  from launched_capsules_vetted[OF h] show ?thesis using h demo_launch_cid_facts(1) by auto
qed

end
