(* ===== verification/Runtime_Lifecycle.thy ===== *)
theory Runtime_Lifecycle
  imports Request_Handler
begin

section \<open>Assembling, starting and stopping the runtime\<close>

text \<open>
  \<^verbatim>\<open>elastos-runtime/src/bootstrap/shell.rs\<close>, \<^verbatim>\<open>bootstrap/runtime_builder.rs\<close> and
  \<^verbatim>\<open>handler/io_bridge.rs\<close>: the shell's life cycle, the configuration, the runtime built from its
  components, and the bridge that answers the lines a process writes. The text of the
  configuration file and of the requests is a parameter with its parser; reading a
  manifest is an oracle.
\<close>

subsection \<open>Configuration\<close>

record shell_config =
  sc_path :: "string option"
  sc_cid :: "string option"
  sc_trust_level :: trust_level

definition shell_config_default :: shell_config where
  "shell_config_default = \<lparr>sc_path = None, sc_cid = None, sc_trust_level = Trusted\<rparr>"

definition shell_config_local :: "string \<Rightarrow> shell_config" where
  "shell_config_local p = \<lparr>sc_path = Some p, sc_cid = None, sc_trust_level = Trusted\<rparr>"

definition shell_config_from_cid :: "string \<Rightarrow> shell_config" where
  "shell_config_from_cid cid = \<lparr>sc_path = None, sc_cid = Some cid, sc_trust_level = Trusted\<rparr>"

definition is_configured :: "shell_config \<Rightarrow> bool" where
  "is_configured c = (sc_path c \<noteq> None \<or> sc_cid c \<noteq> None)"

record runtime_config =
  rc_data_dir :: string
  rc_enable_audit :: bool
  rc_audit_log_path :: "string option"
  rc_ipfs_gateways :: "string list"
  rc_enable_cache :: bool
  rc_max_content_size :: u64
  rc_version :: string
  rc_shell :: shell_config
  rc_trusted_keys :: "string list"
  rc_dev_mode :: bool

text \<open>The version is that of the build.\<close>

definition runtime_config_default :: "string \<Rightarrow> runtime_config" where
  "runtime_config_default version = \<lparr>rc_data_dir = ''/tmp/elastos'', rc_enable_audit = True, rc_audit_log_path = None,
     rc_ipfs_gateways = [], rc_enable_cache = True, rc_max_content_size = 100 * 1024 * 1024, rc_version = version,
     rc_shell = shell_config_default, rc_trusted_keys = [], rc_dev_mode = False\<rparr>"

record config_file =
  cf_data_dir :: "string option"
  cf_enable_audit :: "bool option"
  cf_audit_log_path :: "string option"
  cf_ipfs_gateways :: "string list option"
  cf_enable_cache :: "bool option"
  cf_max_content_size_mb :: "u64 option"
  cf_trusted_keys :: "string list option"
  cf_dev_mode :: "bool option"

definition apply_file :: "config_file \<Rightarrow> runtime_config \<Rightarrow> runtime_config" where
  "apply_file cf c =
     (let c = (case cf_data_dir cf of None \<Rightarrow> c | Some d \<Rightarrow> c\<lparr>rc_data_dir := d\<rparr>);
          c = (case cf_enable_audit cf of None \<Rightarrow> c | Some v \<Rightarrow> c\<lparr>rc_enable_audit := v\<rparr>);
          c = (case cf_audit_log_path cf of None \<Rightarrow> c | Some p \<Rightarrow> c\<lparr>rc_audit_log_path := Some p\<rparr>);
          c = (case cf_ipfs_gateways cf of None \<Rightarrow> c | Some g \<Rightarrow> c\<lparr>rc_ipfs_gateways := g\<rparr>);
          c = (case cf_enable_cache cf of None \<Rightarrow> c | Some v \<Rightarrow> c\<lparr>rc_enable_cache := v\<rparr>);
          c = (case cf_max_content_size_mb cf of None \<Rightarrow> c | Some mb \<Rightarrow> c\<lparr>rc_max_content_size := mb * 1024 * 1024\<rparr>);
          c = (case cf_trusted_keys cf of None \<Rightarrow> c | Some keys \<Rightarrow> c\<lparr>rc_trusted_keys := keys\<rparr>)
      in (case cf_dev_mode cf of None \<Rightarrow> c | Some v \<Rightarrow> c\<lparr>rc_dev_mode := v\<rparr>))"

text \<open>
  The text of \<^verbatim>\<open>config.toml\<close>, if the file exists: an error or what reading gives. \<open>w\<close> says what the
  attempt to write the default text leaves at the path.
\<close>

definition runtime_config_load ::
    "(string \<Rightarrow> string + config_file) \<Rightarrow> string \<Rightarrow> (string \<Rightarrow> (string + string) option) \<Rightarrow> string \<Rightarrow> string
     \<Rightarrow> (string + string) option \<Rightarrow> (runtime_config \<times> bool) \<times> (string + string) option" where
  "runtime_config_load toml default_toml w version data_dir file =
     (let base = (runtime_config_default version)\<lparr>rc_data_dir := data_dir\<rparr> in
      case file of
        None \<Rightarrow> ((base, True), w default_toml)
      | Some (Inl e) \<Rightarrow> ((base, False), file)
      | Some (Inr contents) \<Rightarrow> (case toml contents of
            Inr cf \<Rightarrow> ((apply_file cf base, False), file)
          | Inl e \<Rightarrow> ((base, False), file)))"

subsection \<open>The shell\<close>

record runtime_top = handler +
  sm_shell :: "string option"
  sm_config :: shell_config
  sm_read :: "nat \<Rightarrow> string \<Rightarrow> string + string"
  sm_reads :: nat
  rt_config :: runtime_config
  rt_started :: bool
  rt_time :: time_source
  rt_persist :: "nat \<Rightarrow> write_outcome"
  rt_persists :: nat

datatype shell_error = ShellAlreadyRunning | ShellLaunch string | ShellStop string | ShellNotConfigured

fun shell_error_display :: "shell_error \<Rightarrow> string" where
  "shell_error_display ShellAlreadyRunning = ''shell is already running''"
| "shell_error_display (ShellLaunch e) = ''failed to launch shell: '' @ e"
| "shell_error_display (ShellStop e) = ''failed to stop shell: '' @ e"
| "shell_error_display ShellNotConfigured = ''shell not configured''"

definition shell_manager_new :: "shell_config \<Rightarrow> 'a runtime_top_scheme \<Rightarrow> 'a runtime_top_scheme" where
  "shell_manager_new config s = s\<lparr>sm_shell := None, sm_config := config\<rparr>"

definition launch_local_shell ::
    "handler_ext \<Rightarrow> string \<Rightarrow> 'a runtime_top_scheme \<Rightarrow> (shell_error + string) \<times> 'a runtime_top_scheme" where
  "launch_local_shell H p s =
     (let r = sm_read s (sm_reads s) (p @ ''/capsule.json''); s = s\<lparr>sm_reads := Suc (sm_reads s)\<rparr> in
      case andthen (case r of Inl e \<Rightarrow> Inl (ShellLaunch (''Failed to read shell manifest: '' @ e)) | Inr d \<Rightarrow> Inr d) (\<lambda>d.
           andthen (case hx_manifest H (bytes_of d) of
               Inl e \<Rightarrow> Inl (ShellLaunch (''Failed to parse shell manifest: '' @ e)) | Inr m \<Rightarrow> Inr m) (\<lambda>m.
           (case validate_manifest (hx_ext H) (hx_wit H) m of
               Inl e \<Rightarrow> Inl (ShellLaunch (''Invalid manifest: '' @ e)) | Inr _ \<Rightarrow> Inr m))) of
        Inl e \<Rightarrow> (Inl e, s)
      | Inr m \<Rightarrow>
          (let (launched, s) = launch_local (hx_ext H) p m (sc_trust_level (sm_config s)) s in
           (case launched of Inr c \<Rightarrow> Inr c
              | Inl e \<Rightarrow> Inl (ShellLaunch (''Failed to launch shell: '' @ elastos_error_display e)), s)))"

definition launch_cid_shell :: "string \<Rightarrow> shell_error + string" where
  "launch_cid_shell cid = Inl (ShellLaunch (''CID shell bootstrap is not supported in the trusted runtime core. Resolve ''
     @ cid @ '' through a trusted source first, then launch the shell from a local path.''))"

definition shell_bootstrap ::
    "handler_ext \<Rightarrow> 'a runtime_top_scheme \<Rightarrow> (shell_error + string) \<times> 'a runtime_top_scheme" where
  "shell_bootstrap H s =
     (if sm_shell s \<noteq> None then (Inl ShellAlreadyRunning, s)
      else
       (let (r, s) = (case sc_path (sm_config s) of
            Some p \<Rightarrow> launch_local_shell H p s
          | None \<Rightarrow> (case sc_cid (sm_config s) of
                Some cid \<Rightarrow> (launch_cid_shell cid, s)
              | None \<Rightarrow> (let (c, s) = capsule_id_new (hx_ext H) s in (Inr c, s))))
        in case r of Inl e \<Rightarrow> (Inl e, s)
           | Inr c \<Rightarrow>
              (let s = set_shell c s;
                   s = s\<lparr>hd_channel := set_shell_id c (hd_channel s)\<rparr>;
                   s = s\<lparr>hd_channel := register_capsule c (hd_channel s)\<rparr>
               in (Inr c, s\<lparr>sm_shell := Some c\<rparr>))))"

definition shell_stop :: "'a runtime_top_scheme \<Rightarrow> (shell_error + unit) \<times> 'a runtime_top_scheme" where
  "shell_stop s = (case sm_shell s of
       None \<Rightarrow> (Inr (), s)
     | Some c \<Rightarrow>
        (let s = s\<lparr>sm_shell := None\<rparr>;
             s = s\<lparr>hd_channel := unregister_capsule c (hd_channel s)\<rparr>
         in if get_info c s = None then (Inr (), s)
            else (let (r, s) = stop c Requested s in
              (case r of Inr _ \<Rightarrow> Inr ()
                 | Inl e \<Rightarrow> Inl (ShellStop (''Failed to stop shell: '' @ elastos_error_display e)), s))))"

subsection \<open>The runtime\<close>

datatype build_error = BuildIo string | BuildConfig string

datatype start_error = AlreadyStarted | ShellBootstrap string

datatype stop_error = NotStarted

fun build_error_display :: "build_error \<Rightarrow> string" where
  "build_error_display (BuildIo e) = ''IO error: '' @ e"
| "build_error_display (BuildConfig e) = ''configuration error: '' @ e"

fun start_error_display :: "start_error \<Rightarrow> string" where
  "start_error_display AlreadyStarted = ''runtime already started''"
| "start_error_display (ShellBootstrap e) = ''failed to bootstrap shell: '' @ e"

fun stop_error_display :: "stop_error \<Rightarrow> string" where
  "stop_error_display NotStarted = ''runtime not started''"

text \<open>What the data directory holds and how the calls on it go, with the text of an error.\<close>

record build_env =
  be_data_dir :: "string + unit"
  be_time :: "string option"
  be_audit_content :: string
  be_audit_dir :: bool
  be_audit_open :: bool
  be_store_dir :: bool
  be_store :: store_files
  be_key_write :: key_write
  be_key :: key_path
  be_random_key :: bytes
  be_error :: string

text \<open>The compute provider and the fetcher are the oracles of the state; the key file after the build is returned.\<close>

definition rt_build ::
    "externals \<Rightarrow> build_env \<Rightarrow> runtime_config \<Rightarrow> 'a runtime_top_scheme
     \<Rightarrow> (build_error + key_path) \<times> 'a runtime_top_scheme" where
  "rt_build X E config s =
     (case be_data_dir E of
        Inl e \<Rightarrow> (Inl (BuildIo (''Failed to create data directory: '' @ e)), s)
      | Inr _ \<Rightarrow>
       (let (time_source, s) = time_with_persistence (be_time E) s;
            audit = (if rc_enable_audit config
              then audit_with_file (case rc_audit_log_path config of Some p \<Rightarrow> p | None \<Rightarrow> rc_data_dir config @ ''/audit.log'')
                (be_audit_content E) (be_audit_dir E) (be_audit_open E) s
              else Some (audit_new s))
        in case audit of
          None \<Rightarrow> (Inl (BuildIo (''Failed to create audit log: '' @ be_error E)), s)
        | Some s \<Rightarrow>
           (let s = metrics_new s in
            case store_with_persistence X (be_store_dir E) (be_store E) s of
              None \<Rightarrow> (Inl (BuildIo (''Failed to create capability store: '' @ be_error E)), s)
            | Some s \<Rightarrow>
               (let (manager, key, s) = load_or_generate X (be_key_write E) (be_key E) (be_random_key E) s;
                    s = capsules_new s;
                    s = resolver_new \<lparr>cfg_cache_dir = Some (rc_data_dir config @ ''/content_cache''),
                          cfg_ipfs_gateways = rc_ipfs_gateways config,
                          cfg_max_content_size = unat (rc_max_content_size config),
                          cfg_enable_cache = rc_enable_cache config\<rparr> s;
                    s = s\<lparr>hd_manager := manager, hd_channel := channel_new\<rparr>;
                    s = handler_new (rc_version config) None s;
                    s = shell_manager_new (rc_shell config) s
                in (Inr key, s\<lparr>rt_config := config, rt_started := False, rt_time := time_source\<rparr>)))))"

definition rt_start :: "handler_ext \<Rightarrow> 'a runtime_top_scheme \<Rightarrow> (start_error + unit) \<times> 'a runtime_top_scheme" where
  "rt_start H s =
     (if rt_started s then (Inl AlreadyStarted, s)
      else
       (let s = runtime_start (rc_version (rt_config s)) s; (r, s) = shell_bootstrap H s in
        case r of Inl e \<Rightarrow> (Inl (ShellBootstrap (shell_error_display e)), s)
        | Inr _ \<Rightarrow> (Inr (), s\<lparr>rt_started := True\<rparr>)))"

definition rt_stop :: "externals \<Rightarrow> 'a runtime_top_scheme \<Rightarrow> (stop_error + unit) \<times> 'a runtime_top_scheme" where
  "rt_stop X s =
     (if \<not> rt_started s then (Inl NotStarted, s)
      else
       (let (_, s) = shell_stop s;
            s = stop_all Requested s;
            (_, s) = store_persist X s;
            (_, time_source) = time_persist (rt_persist s (rt_persists s)) (rt_time s) s;
            s = s\<lparr>rt_time := time_source, rt_persists := Suc (rt_persists s)\<rparr>;
            s = runtime_stop s
        in (Inr (), s\<lparr>rt_started := False\<rparr>)))"

subsection \<open>The bridge to a process\<close>

text \<open>
  The request and response envelopes carry the number of the request. Parsing and printing JSON
  is a parameter; a response that cannot be printed is \<^const>\<open>None\<close>.
\<close>

record bridge_codec =
  br_parse :: "string \<Rightarrow> string + u64 \<times> runtime_request"
  br_print :: "u64 \<times> runtime_response \<Rightarrow> string option"

definition MAX_LINE_BYTES :: nat where
  "MAX_LINE_BYTES = 1048576"

definition process_envelope ::
    "handler_ext \<Rightarrow> string \<Rightarrow> u64 \<times> runtime_request \<Rightarrow> 'a handler_scheme \<Rightarrow> (u64 \<times> runtime_response) \<times> 'a handler_scheme" where
  "process_envelope H capsule_id envelope s =
     (let (response, s) = handle H capsule_id (snd envelope) s in ((fst envelope, response), s))"

definition process_line ::
    "handler_ext \<Rightarrow> bridge_codec \<Rightarrow> string \<Rightarrow> string \<Rightarrow> 'a handler_scheme \<Rightarrow> string option \<times> 'a handler_scheme" where
  "process_line H B capsule_id line s =
     (let line = trim line in
      if line = [] then (None, s)
      else if length line > MAX_LINE_BYTES then
        (br_print B (0, RespError ''request_too_large''
           (''Request exceeds maximum size of '' @ dec_of_nat MAX_LINE_BYTES @ '' bytes'')), s)
      else (case br_parse B line of
          Inl e \<Rightarrow> (br_print B (0, RespError ''parse_error'' (''Failed to parse request: '' @ e)), s)
        | Inr envelope \<Rightarrow>
            (let (response, s) = process_envelope H capsule_id envelope s in (br_print B response, s))))"

text \<open>
  The lines read, with a failure to read, and what is written; \<open>w\<close> says which of the calls on the
  writer succeed. A call that fails ends the loop.
\<close>

fun process_lines ::
    "handler_ext \<Rightarrow> bridge_codec \<Rightarrow> string \<Rightarrow> (nat \<Rightarrow> bool) \<Rightarrow> nat \<Rightarrow> (string + string) list \<Rightarrow> 'a handler_scheme
     \<Rightarrow> string list \<times> 'a handler_scheme" where
  "process_lines H B c w n [] s = ([], s)"
| "process_lines H B c w n (Inl e # ls) s = ([], s)"
| "process_lines H B c w n (Inr line # ls) s =
     (let (r, s) = process_line H B c line s in
      case r of None \<Rightarrow> process_lines H B c w n ls s
      | Some json \<Rightarrow>
          if \<not> w n then ([], s)
          else if \<not> w (Suc n) then ([json @ [newline]], s)
          else (let (out, s) = process_lines H B c w (Suc (Suc n)) ls s in ((json @ [newline]) # out, s)))"

text \<open>The asynchronous loop: what each round selects, a signal to stop or the next line.\<close>

datatype bridge_event = EvShutdown | EvLine string | EvEof | EvReadError string

fun run_async ::
    "handler_ext \<Rightarrow> bridge_codec \<Rightarrow> string \<Rightarrow> (nat \<Rightarrow> bool) \<Rightarrow> nat \<Rightarrow> bridge_event list \<Rightarrow> 'a handler_scheme
     \<Rightarrow> string list \<times> 'a handler_scheme" where
  "run_async H B c w n [] s = ([], s)"
| "run_async H B c w n (EvShutdown # es) s = ([], s)"
| "run_async H B c w n (EvEof # es) s = ([], s)"
| "run_async H B c w n (EvReadError e # es) s = ([], s)"
| "run_async H B c w n (EvLine line # es) s =
     (let (r, s) = process_line H B c line s in
      case r of None \<Rightarrow> run_async H B c w n es s
      | Some json \<Rightarrow>
          if \<not> w n then ([], s)
          else if \<not> w (n + 1) then ([json], s)
          else if \<not> w (n + 2) then ([json, [newline]], s)
          else (let (out, s) = run_async H B c w (n + 3) es s in (json # [newline] # out, s)))"

subsection \<open>What a bridged capsule can do\<close>

lemma control_same_refl [simp]: "control_same s s"
  by (simp add: control_same_def)

lemma control_same_trans: "\<lbrakk>control_same s t; control_same t u\<rbrakk> \<Longrightarrow> control_same s u"
  by (simp add: control_same_def)

lemma process_line_control:
  assumes "\<not> is_shell c s" "shell_id (hd_channel s) = hd_shell s"
  shows "control_same s (snd (process_line H B c line s))"
  using handle_mediated[OF assms surjective_pairing]
  by (auto simp: process_line_def process_envelope_def mediated_def Let_def prod.case_eq_if split: sum.split)

lemma control_same_gate:
  "\<lbrakk>control_same s t; \<not> is_shell c s; shell_id (hd_channel s) = hd_shell s\<rbrakk>
   \<Longrightarrow> \<not> is_shell c t \<and> shell_id (hd_channel t) = hd_shell t"
  by (simp add: control_same_def is_shell_def)

lemma process_lines_control:
  "\<lbrakk>\<not> is_shell c s; shell_id (hd_channel s) = hd_shell s\<rbrakk> \<Longrightarrow> control_same s (snd (process_lines H B c w n ls s))"
proof (induction H B c w n ls s rule: process_lines.induct)
  case (3 H B c w n line ls s)
  let ?t = "snd (process_line H B c line s)"
  have k: "control_same s ?t" by (rule process_line_control[OF 3(3,4)])
  have g: "\<not> is_shell c ?t" "shell_id (hd_channel ?t) = hd_shell ?t" using control_same_gate[OF k 3(3,4)] by auto
  have i: "control_same s (snd (process_lines H B c w n ls ?t))" if "fst (process_line H B c line s) = None"
    using 3(1)[OF refl prod.collapse that g] control_same_trans[OF k] by simp
  have j: "control_same s (snd (process_lines H B c w (Suc (Suc n)) ls ?t))"
    if "fst (process_line H B c line s) = Some json" "w n" "w (Suc n)" for json
    using 3(2)[OF refl prod.collapse that(1) _ _ g] that control_same_trans[OF k] by simp
  show ?case using k i j by (auto simp: prod.case_eq_if split: option.split)
qed simp_all

lemma run_async_control:
  "\<lbrakk>\<not> is_shell c s; shell_id (hd_channel s) = hd_shell s\<rbrakk> \<Longrightarrow> control_same s (snd (run_async H B c w n es s))"
proof (induction H B c w n es s rule: run_async.induct)
  case (5 H B c w n line es s)
  let ?t = "snd (process_line H B c line s)"
  have k: "control_same s ?t" by (rule process_line_control[OF 5(3,4)])
  have g: "\<not> is_shell c ?t" "shell_id (hd_channel ?t) = hd_shell ?t" using control_same_gate[OF k 5(3,4)] by auto
  have i: "control_same s (snd (run_async H B c w n es ?t))" if "fst (process_line H B c line s) = None"
    using 5(1)[OF refl prod.collapse that g] control_same_trans[OF k] by simp
  have j: "control_same s (snd (run_async H B c w (n + 3) es ?t))"
    if "fst (process_line H B c line s) = Some json" "w n" "w (n + 1)" "w (n + 2)" for json
    using 5(2)[OF refl prod.collapse that(1) _ _ _ g] that control_same_trans[OF k] by simp
  show ?case using k i j by (auto simp: prod.case_eq_if split: option.split)
qed simp_all

text \<open>
  Property C30. Whatever a process that is not the shell writes, line by line, the bridge keeps it
  inside: the capsules, the signing keys, the revocations, the shell and the registered
  providers are the same after the last line, however the lines parse, the writer fails
  or the loop ends.
\<close>

theorem bridged_process_contained:
  assumes "\<not> is_shell c s" "shell_id (hd_channel s) = hd_shell s"
    and "process_lines H B c w n ls s = (out, s') \<or> run_async H B c w n es s = (out, s')"
  shows "control_same s s'"
  using assms(3) process_lines_control[OF assms(1,2), of H B w n ls] run_async_control[OF assms(1,2), of H B w n es]
  by auto

subsection \<open>The shell's authority\<close>

text \<open>The steps of a runtime: starting, stopping, a request of anyone, a line of a bridged process.\<close>

inductive rt_step :: "handler_ext \<Rightarrow> 'a runtime_top_scheme \<Rightarrow> 'a runtime_top_scheme \<Rightarrow> bool" for H where
  rt_starts: "rt_step H s (snd (rt_start H s))"
| rt_stops: "rt_step H s (snd (rt_stop (hx_ext H) s))"
| rt_request: "rt_step H s (snd (handle H from req s))"
| rt_line: "rt_step H s (snd (process_line H B c line s))"

definition authority_inv :: "'a runtime_top_scheme \<Rightarrow> bool" where
  "authority_inv s = (shell_id (hd_channel s) = hd_shell s \<and> (rt_started s \<longleftrightarrow> sm_shell s \<noteq> None)
     \<and> (\<forall>c. sm_shell s = Some c \<longrightarrow> hd_shell s = Some c)
     \<and> (\<forall>d. is_registered d (hd_channel s) \<longleftrightarrow> sm_shell s = Some d))"

text \<open>Steps on the parts below leave the shell and the inboxes alone.\<close>

definition shell_kept :: "'a runtime_top_scheme \<Rightarrow> 'a runtime_top_scheme \<Rightarrow> bool" where
  "shell_kept s s' = (hd_shell s' = hd_shell s \<and> shell_id (hd_channel s') = shell_id (hd_channel s)
     \<and> (\<forall>d. is_registered d (hd_channel s') = is_registered d (hd_channel s))
     \<and> rt_started s' = rt_started s \<and> sm_shell s' = sm_shell s)"

lemma steady_kept: "steady s s' \<Longrightarrow> shell_kept s s'" for s :: "'a runtime_top_scheme"
  by (cases s; cases s'; simp add: steady_def shell_kept_def)

lemma shell_kept_inv: "\<lbrakk>shell_kept s s'; authority_inv s\<rbrakk> \<Longrightarrow> authority_inv s'"
  by (simp add: shell_kept_def authority_inv_def)

lemma shell_kept_refl [simp]: "shell_kept s s"
  by (simp add: shell_kept_def)

lemma shell_kept_trans: "\<lbrakk>shell_kept s t; shell_kept t u\<rbrakk> \<Longrightarrow> shell_kept s u"
  by (simp add: shell_kept_def)

lemma launch_kept_steady: "launch_kept s s' \<Longrightarrow> shell_kept s s'" for s :: "'a runtime_top_scheme"
  by (rule steady_kept[OF launch_steady])

lemma stop_all_kept: "shell_kept s (stop_all r s)"
proof -
  have "shell_kept s (fold (\<lambda>c s. snd (stop c r s)) cs s)" for cs and s :: "'a runtime_top_scheme"
    by (induction cs arbitrary: s) (auto intro: shell_kept_trans[OF launch_kept_steady[OF stop_kept]])
  then show ?thesis by (simp add: stop_all_def)
qed

lemma store_persist_kept: "shell_kept s (snd (store_persist X s))"
proof -
  have "runtime.more (snd (store_persist X s)) = runtime.more s \<and> revoked_tokens (snd (store_persist X s)) = revoked_tokens s"
    by (simp add: store_persist_def persist_revoked_tokens_def next_io_def Let_def split: option.split io_outcome.split)
  then show ?thesis by (cases s; cases "snd (store_persist X s)"; simp add: shell_kept_def)
qed

lemma runtime_events_kept: "shell_kept s (runtime_start v s)" "shell_kept s (runtime_stop s)"
  by (rule launch_kept_steady, simp add: launch_kept_def runtime_start_def runtime_stop_def ts_now_eq)+

lemma capsule_id_kept: "shell_kept s (snd (capsule_id_new X s))"
  by (rule launch_kept_steady) (simp add: launch_kept_def capsule_id_new_def draw_uuid_bytes_def Let_def)

lemma launch_local_shell_kept: "shell_kept s (snd (launch_local_shell H p s))"
proof -
  let ?t = "s\<lparr>sm_reads := Suc (sm_reads s)\<rparr>"
  have t: "shell_kept s ?t" by (simp add: shell_kept_def)
  have "shell_kept s (snd (launch_local X p m tr ?t))" for X m tr
    unfolding launch_local_def by (rule shell_kept_trans[OF t launch_kept_steady[OF launch_internal_kept]])
  then show ?thesis using t by (simp add: launch_local_shell_def Let_def prod.case_eq_if split: sum.split)
qed

text \<open>Bootstrapping either fails and leaves the shell as it was, or makes one.\<close>

lemma shell_bootstrap_cases:
  assumes "shell_bootstrap H s = (r, s')"
  shows "(\<exists>e. r = Inl e) \<and> shell_kept s s'
    \<or> (\<exists>c t. r = Inr c \<and> sm_shell s = None \<and> shell_kept s t \<and> s' = (set_shell c t)\<lparr>hd_channel :=
        register_capsule c (set_shell_id c (hd_channel t)), sm_shell := Some c\<rparr>)"
proof (cases "sm_shell s = None")
  case False
  then show ?thesis using assms by (auto simp: shell_bootstrap_def)
next
  case True
  define q where "q = (case sc_path (sm_config s) of
      Some p \<Rightarrow> launch_local_shell H p s
    | None \<Rightarrow> (case sc_cid (sm_config s) of
          Some cid \<Rightarrow> (launch_cid_shell cid, s)
        | None \<Rightarrow> (let (c, s) = capsule_id_new (hx_ext H) s in (Inr c, s))))"
  have k: "shell_kept s (snd q)"
    by (simp add: q_def launch_local_shell_kept capsule_id_kept prod.case_eq_if split: option.split)
  have b: "shell_bootstrap H s = (case fst q of Inl e \<Rightarrow> (Inl e, snd q)
    | Inr c \<Rightarrow> (Inr c, (set_shell c (snd q))\<lparr>hd_channel := register_capsule c (set_shell_id c (hd_channel (snd q))), sm_shell := Some c\<rparr>))"
    using True by (simp add: shell_bootstrap_def q_def[symmetric] prod.case_eq_if Let_def set_shell_def set_shell_id_def split: sum.split)
  show ?thesis
  proof (cases "fst q")
    case (Inl e)
    then have "r = Inl e" "s' = snd q" using assms b by simp_all
    then show ?thesis using k by simp
  next
    case (Inr c)
    then show ?thesis using assms b k True by (intro disjI2 exI[of _ c] exI[of _ "snd q"]) auto
  qed
qed

lemma rt_start_inv: "authority_inv s \<Longrightarrow> authority_inv (snd (rt_start H s))"
proof -
  assume a: "authority_inv s"
  let ?t = "runtime_start (rc_version (rt_config s)) s"
  obtain r s' where b: "shell_bootstrap H ?t = (r, s')" by fastforce
  have t: "authority_inv ?t" by (rule shell_kept_inv[OF runtime_events_kept(1) a])
  show "authority_inv (snd (rt_start H s))"
  proof (cases "rt_started s")
    case False
    then have n: "\<not> rt_started ?t" using runtime_events_kept(1)[of s] by (simp add: shell_kept_def)
    from shell_bootstrap_cases[OF b] show ?thesis
    proof (elim disjE exE conjE)
      fix e assume "r = Inl e" "shell_kept ?t s'"
      then show ?thesis using False b shell_kept_inv[OF _ t] by (simp add: rt_start_def)
    next
      fix c u assume r: "r = Inr c" "shell_kept ?t u" "s' = (set_shell c u)\<lparr>hd_channel :=
        register_capsule c (set_shell_id c (hd_channel u)), sm_shell := Some c\<rparr>"
      have u: "authority_inv u" "\<not> rt_started u" using shell_kept_inv[OF r(2) t] r(2) n by (simp_all add: shell_kept_def)
      then have "\<not> is_registered d (hd_channel u)" for d by (simp add: authority_inv_def)
      then have "authority_inv (s'\<lparr>rt_started := True\<rparr>)"
        by (auto simp: r(3) authority_inv_def set_shell_def set_shell_id_def register_capsule_def is_registered_def hm_contains_def)
      then show ?thesis using False b r(1) by (simp add: rt_start_def)
    qed
  qed (simp add: rt_start_def a)
qed

lemma shell_stop_cases:
  "\<exists>t. shell_kept ((s\<lparr>sm_shell := None, hd_channel := (case sm_shell s of None \<Rightarrow> hd_channel s
      | Some c \<Rightarrow> unregister_capsule c (hd_channel s))\<rparr>)) t \<and> snd (shell_stop s) = t"
proof (cases "sm_shell s")
  case None
  then show ?thesis by (simp add: shell_stop_def shell_kept_def)
next
  case (Some c)
  then show ?thesis by (simp add: shell_stop_def Let_def prod.case_eq_if launch_kept_steady[OF stop_kept])
qed

lemma rt_stop_kept:
  assumes "sm_shell s = Some c"
  shows "shell_kept (s\<lparr>sm_shell := None, hd_channel := unregister_capsule c (hd_channel s)\<rparr>)
    (runtime_stop ((snd (store_persist X (stop_all Requested (snd (shell_stop s)))))\<lparr>rt_time := ts, rt_persists := n\<rparr>))"
    (is "shell_kept ?u _")
proof -
  let ?v = "snd (store_persist X (stop_all Requested (snd (shell_stop s))))"
  have t: "shell_kept ?u (snd (shell_stop s))" using shell_stop_cases[of s] assms by auto
  have "shell_kept ?u ?v" by (rule shell_kept_trans[OF shell_kept_trans[OF t stop_all_kept] store_persist_kept])
  then have "shell_kept ?u (?v\<lparr>rt_time := ts, rt_persists := n\<rparr>)" by (simp add: shell_kept_def)
  then show ?thesis by (rule shell_kept_trans[OF _ runtime_events_kept(2)])
qed

lemma rt_stop_inv: "authority_inv s \<Longrightarrow> authority_inv (snd (rt_stop X s))"
proof -
  assume a: "authority_inv s"
  show "authority_inv (snd (rt_stop X s))"
  proof (cases "rt_started s")
    case True
    then obtain c where c: "sm_shell s = Some c" using a by (auto simp: authority_inv_def)
    have "authority_inv (z\<lparr>rt_started := False\<rparr>)"
      if "shell_kept (s\<lparr>sm_shell := None, hd_channel := unregister_capsule c (hd_channel s)\<rparr>) z" for z
      using that a c
      by (auto simp: authority_inv_def shell_kept_def unregister_capsule_def is_registered_def hm_contains_def split: if_splits)
    from this[OF rt_stop_kept[OF c]] show ?thesis using True by (simp add: rt_stop_def Let_def prod.case_eq_if)
  qed (simp add: rt_stop_def a)
qed

lemma process_line_kept: "shell_kept s (snd (process_line H B c line s))"
  by (simp add: process_line_def process_envelope_def Let_def prod.case_eq_if steady_kept[OF handle_steady] split: sum.split)

lemma authority_step: "\<lbrakk>rt_step H s s'; authority_inv s\<rbrakk> \<Longrightarrow> authority_inv s'"
  by (induction rule: rt_step.induct)
    (auto intro: rt_start_inv rt_stop_inv shell_kept_inv[OF steady_kept[OF handle_steady]] shell_kept_inv[OF process_line_kept])

lemma rt_build_inv: "rt_build X E config s0 = (Inr key, s) \<Longrightarrow> authority_inv s"
  by (auto simp: rt_build_def Let_def prod.case_eq_if shell_manager_new_def handler_new_def channel_new_def authority_inv_def
      is_registered_def hm_contains_def hm_get_def split: sum.splits option.splits)
text \<open>
  Property C29. Who has the shell's authority. In every state a runtime reaches from its
  construction, by starts, stops, requests of anyone and lines of bridged processes, the request
  handler and the message channel agree on the shell; the runtime is started exactly when a
  shell has been bootstrapped; the shell's privileges are then those of the bootstrapped shell and
  of no one else; and the inboxes are the shell's alone.
\<close>

theorem shell_authority_inv:
  assumes "rt_build X E config s0 = (Inr key, s)" and "(rt_step H)\<^sup>*\<^sup>* s s'"
  shows "shell_id (hd_channel s') = hd_shell s' \<and> (rt_started s' \<longleftrightarrow> sm_shell s' \<noteq> None)
    \<and> (rt_started s' \<longrightarrow> (\<forall>c. is_shell c s' \<longleftrightarrow> sm_shell s' = Some c))
    \<and> set (list_registered (hd_channel s')) = set_option (sm_shell s')"
proof -
  from assms(2) have "authority_inv s'"
    by (induction rule: rtranclp_induct) (auto intro: rt_build_inv[OF assms(1)] authority_step)
  then have a: "authority_inv s'" .
  have "set (list_registered C) = {d. is_registered d C}" for C
    by (simp add: list_registered_def is_registered_def hm_contains_def hm_get_def dom_map_of_conv_image_fst[symmetric] dom_def)
  then show ?thesis using a by (auto simp: authority_inv_def is_shell_def)
qed

text \<open>
  Hence no capsule but the shell can send a message: its inbox is missing, whatever its token. And
  the shell keeps its authority when it has been stopped, until the next one is bootstrapped.
\<close>

lemma capsules_cannot_send:
  assumes "authority_inv s" "\<not> is_shell from s" "rt_started s"
  shows "\<exists>c m. fst (handle H from (SendMessage to payload reply_to token) s) = RespError c m"
proof -
  have "\<not> is_registered from (hd_channel s)" using assms by (auto simp: authority_inv_def is_shell_def)
  then have n: "fst (send X M (fst (message_new from to payload s)) tok (hd_channel s) s1) \<noteq> Inr u"
    for u and X :: externals and M :: cap_manager and tok and s1 :: "'a runtime_top_scheme"
    by (auto simp: send_result send_checks_def message_new_def Let_def prod.case_eq_if split: option.split)
  have C: "hd_channel (snd (message_new from to payload s)) = hd_channel s" by (rule untouchedD(2)[OF untouched_helpers(5)])
  show ?thesis
    using n[of "hx_ext H" "hd_manager (snd (message_new from to payload s))" _ "snd (message_new from to payload s)"] assms(2)
    by (auto simp: handle_send_message_def Let_def prod.case_eq_if C split: sum.split option.split)
qed

lemma stopped_shell_keeps_authority:
  assumes "authority_inv s" "rt_started s" "rt_stop X s = (r, s')"
  shows "sm_shell s' = None \<and> (\<exists>c. sm_shell s = Some c \<and> is_shell c s')"
proof -
  obtain c where c: "sm_shell s = Some c" "hd_shell s = Some c" using assms by (auto simp: authority_inv_def)
  let ?u = "s\<lparr>sm_shell := None, hd_channel := unregister_capsule c (hd_channel s)\<rparr>"
  note k = rt_stop_kept[OF c(1)]
  have "s' = (runtime_stop ((snd (store_persist X (stop_all Requested (snd (shell_stop s)))))\<lparr>rt_time := ts, rt_persists := n\<rparr>))\<lparr>rt_started := False\<rparr>
    \<Longrightarrow> sm_shell s' = None \<and> hd_shell s' = Some c" for ts n
    using k c by (simp add: shell_kept_def)
  then show ?thesis using assms c by (auto simp: rt_stop_def Let_def prod.case_eq_if is_shell_def)
qed

subsection \<open>Examples\<close>

definition demo_bridge_codec :: bridge_codec where
  "demo_bridge_codec = \<lparr>br_parse = (\<lambda>_. Inr (7, demo_resource_request)), br_print = (\<lambda>_. Some ''ok'')\<rparr>"

theorem bridged_process_contained_witness:
  "\<exists>s'. process_lines demo_hx demo_bridge_codec ''c'' (\<lambda>n. True) 0 [Inr ''x''] demo_handler = ([''ok'' @ [newline]], s')
     \<and> control_same demo_handler s'"
proof -
  obtain s' where h: "handle demo_hx ''c'' demo_resource_request demo_handler = (RespOk None, s')" using demo_routed by blast
  have "trim ''x'' = ''x''" by (simp add: trim_graphic graphic_def)
  then have p: "process_lines demo_hx demo_bridge_codec ''c'' (\<lambda>n. True) 0 [Inr ''x''] demo_handler = ([''ok'' @ [newline]], s')"
    using h by (simp add: process_line_def process_envelope_def demo_bridge_codec_def MAX_LINE_BYTES_def)
  have "\<not> is_shell ''c'' demo_handler" by (simp add: is_shell_def)
  from bridged_process_contained[OF this _ disjI1[OF p]] show ?thesis using p by auto
qed

definition demo_build_env :: build_env where
  "demo_build_env = \<lparr>be_data_dir = Inr (), be_time = None, be_audit_content = [], be_audit_dir = True, be_audit_open = True,
     be_store_dir = True, be_store = demo_files, be_key_write = KeyWritten, be_key = KeyMissing,
     be_random_key = demo_key, be_error = []\<rparr>"

definition demo_top :: runtime_top where
  "demo_top = handler.extend demo_handler (runtime_top.fields None shell_config_default (\<lambda>n p. Inl ''no file'') 0
     (runtime_config_default ''1'') False time_source_new (\<lambda>n. WriteOk) 0)"

lemma rt_build_ok:
  assumes "be_data_dir E = Inr ()" "be_audit_dir E" "be_audit_open E" "be_store_dir E"
  shows "\<exists>key s. rt_build X E config s0 = (Inr key, s) \<and> \<not> rt_started s \<and> sm_shell s = None \<and> sm_config s = rc_shell config"
  using assms
  by (auto simp: rt_build_def Let_def prod.case_eq_if audit_with_file_def store_with_persistence_def shell_manager_new_def)

lemma rt_start_virtual:
  assumes "\<not> rt_started s" "sm_shell s = None" "sc_path (sm_config s) = None" "sc_cid (sm_config s) = None"
  shows "rt_started (snd (rt_start H s))"
proof -
  let ?t = "runtime_start (rc_version (rt_config s)) s"
  have "capsules.more ?t = capsules.more s" by (simp add: runtime_start_def ts_now_eq)
  then have "sm_shell ?t = sm_shell s \<and> sm_config ?t = sm_config s" by (cases s; cases ?t; simp)
  then show ?thesis using assms by (simp add: rt_start_def shell_bootstrap_def Let_def prod.case_eq_if)
qed

lemma demo_build_env_ok:
  "be_data_dir demo_build_env = Inr ()" "be_audit_dir demo_build_env" "be_audit_open demo_build_env" "be_store_dir demo_build_env"
  by (simp_all add: demo_build_env_def)

theorem shell_authority_inv_witness:
  "\<exists>key s s' c. rt_build demo_ext demo_build_env (runtime_config_default ''1'') demo_top = (Inr key, s)
     \<and> (rt_step demo_hx)\<^sup>*\<^sup>* s s' \<and> rt_started s' \<and> is_shell c s' \<and> list_registered (hd_channel s') \<noteq> []"
proof -
  obtain key s where b: "rt_build demo_ext demo_build_env (runtime_config_default ''1'') demo_top = (Inr key, s)"
      "\<not> rt_started s" "sm_shell s = None" "sm_config s = rc_shell (runtime_config_default ''1'')"
    using rt_build_ok[OF demo_build_env_ok] by blast
  let ?s = "snd (rt_start demo_hx s)"
  have st: "rt_started ?s"
    using b by (intro rt_start_virtual) (simp_all add: runtime_config_default_def shell_config_default_def)
  have r: "(rt_step demo_hx)\<^sup>*\<^sup>* s ?s" by (rule r_into_rtranclp) (rule rt_starts)
  from shell_authority_inv[OF b(1) r] st show ?thesis using b(1) r
    by (auto intro!: exI[of _ ?s])
qed

end
