(* ===== verification/Signature_Verifier.thy ===== *)
theory Signature_Verifier
  imports Capsule_Manager Provider_Stream
begin

section \<open>Signatures of capsules\<close>

text \<open>
  \<^verbatim>\<open>elastos-runtime/src/signature/verifier.rs\<close>: the list of trusted publisher keys, read one hex key
  per line, and the signature over a manifest and the hash of its content. A \<^verbatim>\<open>VerifyingKey\<close> is the 32
  bytes it was made from. The checks that \<^verbatim>\<open>ed25519_dalek\<close> makes on keys and signatures, its strict
  verification, base64, and the JSON text of a manifest are parameters, errors with their text.
\<close>

record signature_ext =
  sx_ext :: externals
  sx_base64 :: base64
  sx_hex_error :: "string \<Rightarrow> string"
  sx_key_error :: "bytes \<Rightarrow> string option"
  sx_weak :: "bytes \<Rightarrow> bool"
  sx_from_slice :: "bytes \<Rightarrow> string + bytes"
  sx_verify_strict :: "bytes \<Rightarrow> bytes \<Rightarrow> bytes \<Rightarrow> bool"
  sx_manifest_json :: "manifest \<Rightarrow> string + string"

text \<open>
  What a theorem may use of them: a signature has the form the wire format asks for and passes
  the strict check under a key that is not weak; the strict check is stronger than the plain one.
\<close>

definition strict_correct :: "signature_ext \<Rightarrow> bool" where
  "strict_correct S = (\<forall>k m. \<not> sx_weak S (ed_public (sx_ext S) k)
     \<longrightarrow> sx_verify_strict S (ed_public (sx_ext S) k) m (ed_sign (sx_ext S) k m))"

definition strict_is_stronger :: "signature_ext \<Rightarrow> bool" where
  "strict_is_stronger S = (\<forall>p m s. sx_verify_strict S p m s \<longrightarrow> ed_verify (sx_ext S) p m s)"

definition signature_wire :: "signature_ext \<Rightarrow> bool" where
  "signature_wire S = (\<forall>k m. sx_from_slice S (ed_sign (sx_ext S) k m) = Inr (ed_sign (sx_ext S) k m))"

subsection \<open>Trusted keys\<close>

record signature_verifier =
  trusted_keys :: "bytes list"

definition verifier_new :: signature_verifier where
  "verifier_new = \<lparr>trusted_keys = []\<rparr>"

definition add_trusted_key ::
    "signature_ext \<Rightarrow> bytes \<Rightarrow> signature_verifier \<Rightarrow> (elastos_error + unit) \<times> signature_verifier" where
  "add_trusted_key S key V =
     (if sx_weak S key then (Inl (InvalidManifest ''Invalid public key: weak key''), V)
      else (Inr (), if key \<in> set (trusted_keys V) then V else V\<lparr>trusted_keys := trusted_keys V @ [key]\<rparr>))"

definition parse_key_hex :: "signature_ext \<Rightarrow> string \<Rightarrow> elastos_error + bytes" where
  "parse_key_hex S hex_key =
     (case hex_decode (sx_ext S) (trim hex_key) of
        None \<Rightarrow> Inl (InvalidManifest (''Invalid hex key: '' @ sx_hex_error S (trim hex_key)))
      | Some b \<Rightarrow> if length b \<noteq> 32 then Inl (InvalidManifest ''Key must be 32 bytes'')
          else (case sx_key_error S b of
              Some e \<Rightarrow> Inl (InvalidManifest (''Invalid public key: '' @ e))
            | None \<Rightarrow> Inr b))"

definition add_trusted_key_hex ::
    "signature_ext \<Rightarrow> string \<Rightarrow> signature_verifier \<Rightarrow> (elastos_error + unit) \<times> signature_verifier" where
  "add_trusted_key_hex S hex_key V =
     (case parse_key_hex S hex_key of Inl e \<Rightarrow> (Inl e, V) | Inr key \<Rightarrow> add_trusted_key S key V)"

fun load_key_lines ::
    "signature_ext \<Rightarrow> string list \<Rightarrow> nat \<Rightarrow> signature_verifier \<Rightarrow> (elastos_error + nat) \<times> signature_verifier" where
  "load_key_lines S [] count V = (Inr count, V)"
| "load_key_lines S (line # ls) count V =
     (let line = trim line in
      if line = [] \<or> hd line = CHR ''#'' then load_key_lines S ls count V
      else (let (r, V) = add_trusted_key_hex S line V in
        case r of Inl e \<Rightarrow> (Inl e, V) | Inr _ \<Rightarrow> load_key_lines S ls (count + 1) V))"

text \<open>The file is what reading it gives: an error or the text.\<close>

definition load_trusted_keys ::
    "signature_ext \<Rightarrow> string + string \<Rightarrow> signature_verifier \<Rightarrow> (elastos_error + nat) \<times> signature_verifier" where
  "load_trusted_keys S file V =
     (case file of Inl e \<Rightarrow> (Inl (IoError e), V) | Inr content \<Rightarrow> load_key_lines S (lines content) 0 V)"

definition trusted_key_count :: "signature_verifier \<Rightarrow> nat" where
  "trusted_key_count V = length (trusted_keys V)"

definition is_enabled :: "signature_verifier \<Rightarrow> bool" where
  "is_enabled V = (trusted_keys V \<noteq> [])"

subsection \<open>Signing and verifying\<close>

definition build_signing_message :: "signature_ext \<Rightarrow> manifest \<Rightarrow> bytes \<Rightarrow> elastos_error + bytes" where
  "build_signing_message S m content_hash =
     (case sx_manifest_json S (m\<lparr>mf_signature := None\<rparr>) of
        Inl e \<Rightarrow> Inl (InvalidManifest (''Failed to serialize manifest: '' @ e))
      | Inr text \<Rightarrow> Inr (sha256 (sx_ext S) (bytes_of text) @ content_hash))"

definition sign_capsule ::
    "signature_ext \<Rightarrow> bytes \<Rightarrow> manifest \<Rightarrow> bytes \<Rightarrow> (elastos_error + unit) \<times> manifest" where
  "sign_capsule S sk m content_hash =
     (let m = m\<lparr>mf_signature := None\<rparr> in
      case build_signing_message S m content_hash of
        Inl e \<Rightarrow> (Inl e, m)
      | Inr message \<Rightarrow>
          (Inr (), m\<lparr>mf_signature := Some (b64e (sx_base64 S) (ed_sign (sx_ext S) sk message))\<rparr>))"

definition decode_signature :: "signature_ext \<Rightarrow> manifest \<Rightarrow> elastos_error + bytes" where
  "decode_signature S m =
     (case mf_signature m of
        None \<Rightarrow> Inl (InvalidManifest ''Missing signature'')
      | Some text \<Rightarrow> (case b64d (sx_base64 S) text of
          Inl e \<Rightarrow> Inl (InvalidManifest (''Invalid signature encoding: '' @ e))
        | Inr b \<Rightarrow> (case sx_from_slice S b of
            Inl e \<Rightarrow> Inl (InvalidManifest (''Invalid signature: '' @ e))
          | Inr sig \<Rightarrow> Inr sig)))"

definition verify_capsule :: "signature_ext \<Rightarrow> signature_verifier \<Rightarrow> manifest \<Rightarrow> bytes \<Rightarrow> elastos_error + bool" where
  "verify_capsule S V m content_hash =
     andthen (decode_signature S m) (\<lambda>sig.
     andthen (build_signing_message S m content_hash) (\<lambda>message.
     Inr (list_ex (\<lambda>key. sx_verify_strict S key message sig) (trusted_keys V))))"

definition capsule_content_hash :: "externals \<Rightarrow> bytes \<Rightarrow> bytes" where
  "capsule_content_hash X content = sha256 X content"

subsection \<open>The trusted keys\<close>

text \<open>Only keys that parse and are not weak are trusted, each once.\<close>

definition keys_ok :: "signature_ext \<Rightarrow> signature_verifier \<Rightarrow> bool" where
  "keys_ok S V = (distinct (trusted_keys V) \<and> (\<forall>k \<in> set (trusted_keys V). \<not> sx_weak S k))"

lemma keys_ok_new [simp]: "keys_ok S verifier_new"
  by (simp add: keys_ok_def verifier_new_def)

lemma add_trusted_key_ok: "keys_ok S V \<Longrightarrow> keys_ok S (snd (add_trusted_key S key V))"
  by (auto simp: add_trusted_key_def keys_ok_def)

lemma add_trusted_key_set:
  "fst (add_trusted_key S key V) = Inr u \<Longrightarrow> set (trusted_keys (snd (add_trusted_key S key V))) = insert key (set (trusted_keys V))"
  by (auto simp: add_trusted_key_def split: if_splits)

lemma add_trusted_key_refused: "fst (add_trusted_key S key V) = Inl e \<Longrightarrow> snd (add_trusted_key S key V) = V"
  by (simp add: add_trusted_key_def split: if_splits)

definition key_line :: "string \<Rightarrow> bool" where
  "key_line l = (trim l \<noteq> [] \<and> hd (trim l) \<noteq> CHR ''#'')"

lemma add_trusted_key_hex_cases:
  assumes "add_trusted_key_hex S l V = (r, V')" "keys_ok S V"
  shows "keys_ok S V'"
    and "r = Inr () \<Longrightarrow> \<exists>k. parse_key_hex S l = Inr k \<and> set (trusted_keys V') = insert k (set (trusted_keys V))"
    and "r = Inl e \<Longrightarrow> V' = V"
  using assms by (auto simp: add_trusted_key_hex_def add_trusted_key_def keys_ok_def split: sum.splits if_splits)

lemma load_key_lines_spec:
  "\<lbrakk>load_key_lines S ls n V = (r, V'); keys_ok S V\<rbrakk>
   \<Longrightarrow> keys_ok S V' \<and> set (trusted_keys V) \<subseteq> set (trusted_keys V')
     \<and> (\<forall>c. r = Inr c \<longrightarrow> c = n + length (filter key_line ls)
          \<and> set (trusted_keys V') = set (trusted_keys V) \<union> {k. \<exists>l \<in> set (filter key_line ls). parse_key_hex S (trim l) = Inr k})"
proof (induction S ls n V arbitrary: r V' rule: load_key_lines.induct)
  case (2 S line ls n V)
  show ?case
  proof (cases "key_line line")
    case False
    then have c: "trim line = [] \<or> hd (trim line) = CHR ''#''" by (simp add: key_line_def)
    then have "load_key_lines S ls n V = (r, V')" using 2(3) by (simp add: Let_def)
    from 2(1)[OF refl c this 2(4)] False show ?thesis by simp
  next
    case True
    obtain r1 V1 where a: "add_trusted_key_hex S (trim line) V = (r1, V1)" by fastforce
    note c = add_trusted_key_hex_cases[OF a 2(4)]
    show ?thesis
    proof (cases r1)
      case (Inl e)
      then show ?thesis using True 2(3,4) a c by (auto simp: key_line_def)
    next
      case (Inr u)
      have l: "load_key_lines S ls (n + 1) V1 = (r, V')" using True 2(3) a Inr by (simp add: key_line_def)
      obtain k where k: "parse_key_hex S (trim line) = Inr k" "set (trusted_keys V1) = insert k (set (trusted_keys V))"
        using c(2) Inr by auto
      from 2(2)[OF refl _ a[symmetric] refl Inr l c(1)] True k show ?thesis
        by (auto simp: key_line_def)
    qed
  qed
qed simp

text \<open>
  What reading a file of trusted keys leaves. Starting from a verifier in order, it is in
  order again (no weak key, no key twice) and has forgotten none of its keys, also when a
  line is bad. When all lines are good, the keys added are exactly those of the lines
  that are neither empty nor comments, and the count is the number of these lines.
\<close>

lemma load_trusted_keys_spec:
  assumes "load_trusted_keys S file V = (r, V')" and "keys_ok S V"
  shows "keys_ok S V' \<and> set (trusted_keys V) \<subseteq> set (trusted_keys V')"
    and "r = Inr n \<Longrightarrow> \<exists>content. file = Inr content \<and> n = length (filter key_line (lines content))
      \<and> set (trusted_keys V') = set (trusted_keys V)
          \<union> {k. \<exists>l \<in> set (filter key_line (lines content)). parse_key_hex S (trim l) = Inr k}"
  using assms load_key_lines_spec[of S _ 0 V r V'] unfolding load_trusted_keys_def by (auto split: sum.splits)

subsection \<open>What a signature covers\<close>

lemma build_signing_message_unsigned [simp]:
  "build_signing_message S (m\<lparr>mf_signature := x\<rparr>) h = build_signing_message S m h"
  by (simp add: build_signing_message_def)

lemma verify_capsule_iff:
  "verify_capsule S V m h = Inr True \<longleftrightarrow>
     (\<exists>sig message key. decode_signature S m = Inr sig \<and> build_signing_message S m h = Inr message
        \<and> key \<in> set (trusted_keys V) \<and> sx_verify_strict S key message sig)"
  by (auto simp: verify_capsule_def andthen_Inr list_ex_iff)

text \<open>
  Sign and verify. A manifest that \<^verbatim>\<open>sign_capsule\<close> has signed with a trusted key verifies
  against the same content hash, and signing has changed nothing else in it.
\<close>

theorem signed_capsule_verifies:
  assumes "sign_capsule S k m h = (Inr (), m')" and "ed_public (sx_ext S) k \<in> set (trusted_keys V)" and "keys_ok S V"
    and "strict_correct S" "signature_wire S" "base64_law (sx_base64 S)"
  shows "verify_capsule S V m' h = Inr True \<and> m'\<lparr>mf_signature := mf_signature m\<rparr> = m"
proof -
  obtain msg where b: "build_signing_message S m h = Inr msg"
      and m': "m' = m\<lparr>mf_signature := Some (b64e (sx_base64 S) (ed_sign (sx_ext S) k msg))\<rparr>"
    using assms(1) by (auto simp: sign_capsule_def Let_def split: sum.splits)
  have "decode_signature S m' = Inr (ed_sign (sx_ext S) k msg)"
    using assms(5,6) by (simp add: m' decode_signature_def signature_wire_def base64_law_def)
  moreover have "sx_verify_strict S (ed_public (sx_ext S) k) msg (ed_sign (sx_ext S) k msg)"
    using assms(2-4) by (auto simp: strict_correct_def keys_ok_def)
  ultimately show ?thesis using b assms(2) by (auto simp: verify_capsule_iff m')
qed

text \<open>
  Property C31. What a signature binds. When a signature verifies under an honest key for two capsules, the
  digests of their manifests (without the signature) are the same and so are the hashes of their contents: a manifest or
  content exchanged after signing is caught, unless SHA-256 collides.
\<close>

theorem signature_binds_capsule:
  assumes "trusted_keys V = [ed_public (sx_ext S) k]"
    and "verify_capsule S V m h = Inr True" "verify_capsule S V m' h' = Inr True" "mf_signature m = mf_signature m'"
    and "sign_binding (sx_ext S)" "strict_is_stronger S" "digest_size (sx_ext S)"
  shows "h = h' \<and> (\<exists>t t'. sx_manifest_json S (m\<lparr>mf_signature := None\<rparr>) = Inr t
      \<and> sx_manifest_json S (m'\<lparr>mf_signature := None\<rparr>) = Inr t'
      \<and> sha256 (sx_ext S) (bytes_of t) = sha256 (sx_ext S) (bytes_of t'))"
proof -
  have d: "decode_signature S m' = decode_signature S m" using assms(4) by (simp add: decode_signature_def)
  obtain sig msg msg' where b: "build_signing_message S m h = Inr msg" "build_signing_message S m' h' = Inr msg'"
      and v: "sx_verify_strict S (ed_public (sx_ext S) k) msg sig" "sx_verify_strict S (ed_public (sx_ext S) k) msg' sig"
    using assms(2,3) by (auto simp: verify_capsule_iff d assms(1))
  have "msg = msg'" using v assms(5,6) by (meson sign_binding_def strict_is_stronger_def)
  then show ?thesis using b assms(7) by (auto simp: build_signing_message_def digest_size_def split: sum.splits)
qed

subsection \<open>Examples\<close>

definition demo_sig_ext :: signature_ext where
  "demo_sig_ext = \<lparr>sx_ext = demo_ext\<lparr>sha256 := (\<lambda>b. take 32 (b @ replicate 32 0))\<rparr>, sx_base64 = demo_b64,
     sx_hex_error = (\<lambda>_. ''odd''), sx_key_error = (\<lambda>_. None), sx_weak = (\<lambda>k. k = []),
     sx_from_slice = Inr, sx_verify_strict = (\<lambda>p m s. s = p @ m), sx_manifest_json = (\<lambda>m. Inr (mf_name m))\<rparr>"

lemma demo_sig_laws [simp]:
  "strict_correct demo_sig_ext" "strict_is_stronger demo_sig_ext" "signature_wire demo_sig_ext"
  "digest_size (sx_ext demo_sig_ext)" "sign_binding (sx_ext demo_sig_ext)" "base64_law (sx_base64 demo_sig_ext)"
  by (simp_all add: demo_sig_ext_def strict_correct_def strict_is_stronger_def signature_wire_def digest_size_def
      sign_binding_def demo_ext_def min_def)

definition demo_verifier :: signature_verifier where
  "demo_verifier = \<lparr>trusted_keys = [[1]]\<rparr>"

lemma demo_verifier_ok: "keys_ok demo_sig_ext demo_verifier" "ed_public (sx_ext demo_sig_ext) [1] = [1]"
    "trusted_keys demo_verifier = [[1]]"
  by (simp_all add: keys_ok_def demo_verifier_def demo_sig_ext_def demo_ext_def)

lemma demo_signs: "\<exists>m'. sign_capsule demo_sig_ext [1] demo_manifest [7] = (Inr (), m')"
  by (simp add: sign_capsule_def build_signing_message_def demo_sig_ext_def)

theorem signed_capsule_verifies_witness:
  "\<exists>m'. sign_capsule demo_sig_ext [1] demo_manifest [7] = (Inr (), m') \<and> verify_capsule demo_sig_ext demo_verifier m' [7] = Inr True"
proof -
  obtain m' where s: "sign_capsule demo_sig_ext [1] demo_manifest [7] = (Inr (), m')" using demo_signs by blast
  have "ed_public (sx_ext demo_sig_ext) [1] \<in> set (trusted_keys demo_verifier)" by (simp add: demo_verifier_ok)
  from signed_capsule_verifies[OF s this demo_verifier_ok(1)] s show ?thesis by simp
qed

theorem signature_binds_capsule_witness:
  "\<exists>m. verify_capsule demo_sig_ext demo_verifier m [7] = Inr True \<and> verify_capsule demo_sig_ext demo_verifier m [8] \<noteq> Inr True"
proof -
  let ?m = "demo_manifest\<lparr>mf_signature := Some (b64e demo_b64 ([1] @ take 32 (bytes_of ''notes'' @ replicate 32 0) @ [7]))\<rparr>"
  have n: "mf_name demo_manifest = ''notes''" by (simp add: demo_manifest_def)
  have v: "verify_capsule demo_sig_ext demo_verifier ?m [7] = Inr True"
    using demo_base64_law
    by (simp add: verify_capsule_iff decode_signature_def build_signing_message_def demo_sig_ext_def demo_verifier_def n base64_law_def)
  have "verify_capsule demo_sig_ext demo_verifier ?m [8] \<noteq> Inr True"
  proof
    assume w: "verify_capsule demo_sig_ext demo_verifier ?m [8] = Inr True"
    have "trusted_keys demo_verifier = [ed_public (sx_ext demo_sig_ext) [1]]" by (simp only: demo_verifier_ok)
    from signature_binds_capsule[OF this v w] show False by simp
  qed
  with v show ?thesis by blast
qed

end
