(* ===== verification/Invoke_Inspect.thy ===== *)
theory Invoke_Inspect
  imports Manifest Cap_Token
begin

section \<open>Planning invocations and inspecting objects\<close>

text \<open>
  \<^verbatim>\<open>elastos-runtime/src/invoke/mod.rs\<close>: what a call of an affordance or of a provider's operation will ask for,
  read off the manifest before anything is sent. \<^verbatim>\<open>elastos-runtime/src/inspect/mod.rs\<close>: who may look at
  which live object. A JSON number is an integer here; one beyond the 64-bit ranges stands for a number that
  \<^verbatim>\<open>serde_json\<close> keeps as a float.
\<close>

subsection \<open>Affordances\<close>

datatype invoke_error = InputTypeMismatch string | MissingRequiredField string | UnknownOperation string
  | UnknownDeclaredAction string

record invocation_plan =
  ip_capability_action :: action
  ip_approval :: approval_mode
  ip_audit :: audit_mode

record provider_operation_plan =
  op_resources :: "string list"
  op_actions :: "action list"
  op_audit_events :: "string list"

fun required_action :: "risk \<Rightarrow> action" where
  "required_action RiskRead = Read"
| "required_action RiskWrite = Write"
| "required_action RiskLaunch = Execute"
| "required_action RiskActuator = Execute"
| "required_action RiskPayment = Admin"
| "required_action RiskRights = Admin"
| "required_action RiskPrivileged = Admin"

definition integer_range :: "int \<Rightarrow> bool" where
  "integer_range n = (- (2 ^ 63) \<le> n \<and> n < 2 ^ 64)"

definition type_matches :: "string \<Rightarrow> json \<Rightarrow> bool" where
  "type_matches expected args =
     (if expected = ''object'' then (case args of JObj _ \<Rightarrow> True | _ \<Rightarrow> False)
      else if expected = ''array'' then (case args of JArr _ \<Rightarrow> True | _ \<Rightarrow> False)
      else if expected = ''string'' then (case args of JStr _ \<Rightarrow> True | _ \<Rightarrow> False)
      else if expected = ''number'' then (case args of JInt _ \<Rightarrow> True | _ \<Rightarrow> False)
      else if expected = ''integer'' then (case args of JInt n \<Rightarrow> integer_range n | _ \<Rightarrow> False)
      else if expected = ''boolean'' then (case args of JBool _ \<Rightarrow> True | _ \<Rightarrow> False)
      else if expected = ''null'' then args = JNull
      else True)"

fun member :: "string \<Rightarrow> json \<Rightarrow> json option" where
  "member key (JObj kvs) = map_of kvs key"
| "member key _ = None"

definition check_type :: "json \<Rightarrow> json \<Rightarrow> invoke_error + unit" where
  "check_type schema args = (case member ''type'' schema of
       Some (JStr expected) \<Rightarrow> require (type_matches expected args) (InputTypeMismatch expected)
     | _ \<Rightarrow> Inr ())"

definition check_field :: "json \<Rightarrow> json \<Rightarrow> invoke_error + unit" where
  "check_field args field = (case field of
       JStr name \<Rightarrow> require (member name args \<noteq> None) (MissingRequiredField name)
     | _ \<Rightarrow> Inr ())"

definition validate_input :: "json option \<Rightarrow> json \<Rightarrow> invoke_error + unit" where
  "validate_input input_schema args = (case input_schema of
       None \<Rightarrow> Inr ()
     | Some schema \<Rightarrow> andthen (check_type schema args) (\<lambda>_.
         (case member ''required'' schema of
            Some (JArr required) \<Rightarrow> for_each (check_field args) required
          | _ \<Rightarrow> Inr ())))"

definition plan :: "affordance \<Rightarrow> json \<Rightarrow> invoke_error + invocation_plan" where
  "plan a args = andthen (validate_input (af_input_schema a) args) (\<lambda>_.
     Inr \<lparr>ip_capability_action = required_action (af_risk a), ip_approval = af_approval a, ip_audit = af_audit a\<rparr>)"

subsection \<open>Operations of a provider\<close>

definition parse_declared_action :: "string \<Rightarrow> invoke_error + action" where
  "parse_declared_action v =
     (if v = ''read'' then Inr Read
      else if v = ''write'' then Inr Write
      else if v = ''execute'' then Inr Execute
      else if v = ''message'' then Inr Message
      else if v = ''delete'' then Inr Delete
      else if v = ''admin'' then Inr Admin
      else Inl (UnknownDeclaredAction v))"

text \<open>The \<^verbatim>\<open>contains\<close>/\<^verbatim>\<open>push\<close> pair of the source.\<close>

definition push_new :: "'a \<Rightarrow> 'a list \<Rightarrow> 'a list" where
  "push_new x xs = (if x \<in> set xs then xs else xs @ [x])"

fun add_actions :: "string list \<Rightarrow> action list \<Rightarrow> invoke_error + action list" where
  "add_actions [] actions = Inr actions"
| "add_actions (a # as) actions = andthen (parse_declared_action a) (\<lambda>action. add_actions as (push_new action actions))"

fun plan_capabilities ::
    "string \<Rightarrow> capability_schema list \<Rightarrow> string list \<Rightarrow> action list \<Rightarrow> invoke_error + string list \<times> action list" where
  "plan_capabilities operation [] resources actions = Inr (resources, actions)"
| "plan_capabilities operation (c # cs) resources actions =
     (if operation \<notin> set (cs_operations c) then plan_capabilities operation cs resources actions
      else andthen (add_actions (cs_actions c) actions) (\<lambda>actions.
        plan_capabilities operation cs (push_new (cs_resource c) resources) actions))"

definition plan_provider_operation :: "provider_authority \<Rightarrow> string \<Rightarrow> invoke_error + provider_operation_plan" where
  "plan_provider_operation authority operation =
     andthen (plan_capabilities operation (pa_capabilities authority) [] []) (\<lambda>(resources, actions).
     andthen (require (resources \<noteq> []) (UnknownOperation operation)) (\<lambda>_.
     Inr \<lparr>op_resources = resources, op_actions = actions, op_audit_events = pa_audit_events authority\<rparr>))"

subsection \<open>Inspection\<close>

definition INSPECT_SYSTEM :: string where
  "INSPECT_SYSTEM = ''elastos://inspect/*''"

definition INSPECT_SELF :: string where
  "INSPECT_SELF = ''elastos://inspect/self''"

datatype inspect_scope = ScopeSystem | SelfOnly

definition scope_for_grant :: "string \<Rightarrow> inspect_scope option" where
  "scope_for_grant resource =
     (if resource = INSPECT_SYSTEM then Some ScopeSystem
      else if resource = INSPECT_SELF then Some SelfOnly else None)"

fun scan_grants :: "string list \<Rightarrow> inspect_scope option \<Rightarrow> inspect_scope option" where
  "scan_grants [] scope = scope"
| "scan_grants (resource # granted) scope = (case scope_for_grant resource of
       Some ScopeSystem \<Rightarrow> Some ScopeSystem
     | Some SelfOnly \<Rightarrow> scan_grants granted (Some SelfOnly)
     | None \<Rightarrow> scan_grants granted scope)"

definition from_grants :: "bool \<Rightarrow> string list \<Rightarrow> inspect_scope option" where
  "from_grants shell granted = (if shell then Some ScopeSystem else scan_grants granted None)"

fun can_view :: "inspect_scope \<Rightarrow> string \<Rightarrow> string \<Rightarrow> bool" where
  "can_view ScopeSystem caller target = True"
| "can_view SelfOnly caller target = (caller = target)"

definition authorize_view :: "bool \<Rightarrow> string \<Rightarrow> string \<Rightarrow> string list \<Rightarrow> bool" where
  "authorize_view shell caller target granted =
     (case from_grants shell granted of None \<Rightarrow> False | Some scope \<Rightarrow> can_view scope caller target)"

subsection \<open>What a plan asks for\<close>

lemma push_new_props [simp]: "set (push_new x xs) = insert x (set xs)" "distinct xs \<Longrightarrow> distinct (push_new x xs)"
  by (auto simp: push_new_def)

lemma push_new_nonempty [simp]: "push_new x xs \<noteq> []"
  by (simp add: push_new_def) (metis empty_iff list.set(1))

lemma add_actions_spec:
  "add_actions as acts = Inr out
   \<Longrightarrow> set out = set acts \<union> {a. \<exists>v \<in> set as. parse_declared_action v = Inr a} \<and> (distinct acts \<longrightarrow> distinct out)
     \<and> (\<forall>v \<in> set as. \<exists>a. parse_declared_action v = Inr a)"
  by (induction as arbitrary: acts) (auto simp: andthen_Inr)

lemma add_actions_fails:
  "add_actions as acts = Inl e \<Longrightarrow> \<exists>v \<in> set as. parse_declared_action v = Inl e"
  by (induction as arbitrary: acts) (auto simp: andthen_def split: sum.splits)

definition serving :: "string \<Rightarrow> capability_schema list \<Rightarrow> capability_schema list" where
  "serving operation cs = filter (\<lambda>c. operation \<in> set (cs_operations c)) cs"

lemma plan_capabilities_spec:
  "plan_capabilities op cs rs acts = Inr (rs', acts')
   \<Longrightarrow> set rs' = set rs \<union> cs_resource ` set (serving op cs)
     \<and> set acts' = set acts \<union> {a. \<exists>c \<in> set (serving op cs). \<exists>v \<in> set (cs_actions c). parse_declared_action v = Inr a}
     \<and> (distinct rs \<longrightarrow> distinct rs') \<and> (distinct acts \<longrightarrow> distinct acts')
     \<and> (\<forall>c \<in> set (serving op cs). \<forall>v \<in> set (cs_actions c). \<exists>a. parse_declared_action v = Inr a)"
proof (induction op cs rs acts rule: plan_capabilities.induct)
  case (2 op c cs rs acts)
  show ?case
  proof (cases "op \<in> set (cs_operations c)")
    case True
    then obtain out where o: "add_actions (cs_actions c) acts = Inr out"
        "plan_capabilities op cs (push_new (cs_resource c) rs) out = Inr (rs', acts')"
      using 2(3) by (auto simp: andthen_Inr)
    show ?thesis using 2(2)[OF _ o(2)] True add_actions_spec[OF o(1)] by (auto simp: serving_def)
  qed (use 2 in \<open>simp add: serving_def\<close>)
qed (simp add: serving_def)

lemma plan_capabilities_fails:
  "plan_capabilities op cs rs acts = Inl e
   \<Longrightarrow> \<exists>c \<in> set (serving op cs). \<exists>v \<in> set (cs_actions c). parse_declared_action v = Inl e"
proof (induction op cs rs acts rule: plan_capabilities.induct)
  case (2 op c cs rs acts)
  then show ?case by (fastforce simp: serving_def andthen_def dest: add_actions_fails split: if_splits sum.splits)
qed simp

text \<open>
  Property C32. A provider operation is planned exactly when some declared capability serves it and all actions
  of the capabilities that serve it are known. The plan then lists, without repetition, the resources of exactly these
  capabilities and exactly their actions: no resource or action of a capability that does not serve the operation, and
  none left out.
\<close>

theorem operation_plan_exact:
  "(case plan_provider_operation authority operation of
      Inr p \<Rightarrow> serving operation (pa_capabilities authority) \<noteq> []
        \<and> set (op_resources p) = cs_resource ` set (serving operation (pa_capabilities authority)) \<and> distinct (op_resources p)
        \<and> Inr ` set (op_actions p) = parse_declared_action ` (\<Union>c \<in> set (serving operation (pa_capabilities authority)). set (cs_actions c))
        \<and> distinct (op_actions p) \<and> op_audit_events p = pa_audit_events authority
    | Inl e \<Rightarrow> e = UnknownOperation operation \<and> serving operation (pa_capabilities authority) = []
        \<or> (\<exists>c \<in> set (serving operation (pa_capabilities authority)). \<exists>v \<in> set (cs_actions c). parse_declared_action v = Inl e))"
proof (cases "plan_capabilities operation (pa_capabilities authority) [] []")
  case (Inl e)
  from plan_capabilities_fails[OF this] Inl show ?thesis by (simp add: plan_provider_operation_def)
next
  case (Inr p)
  obtain rs acts where "plan_capabilities operation (pa_capabilities authority) [] [] = Inr (rs, acts)" using Inr by (cases p) auto
  note p = this
  note s = plan_capabilities_spec[OF p]
  have a: "Inr ` set acts = parse_declared_action ` (\<Union>c \<in> set (serving operation (pa_capabilities authority)). set (cs_actions c))"
    using s by (auto simp: image_iff) (metis sum.inject(2))+
  have n: "rs = [] \<longleftrightarrow> serving operation (pa_capabilities authority) = []"
    using s by (metis image_is_empty set_empty sup_bot_left)
  show ?thesis using s a n by (auto simp: plan_provider_operation_def p require_def)
qed

lemma validate_input_iff:
  "validate_input (Some schema) args = Inr () \<longleftrightarrow>
     (\<forall>t. member ''type'' schema = Some (JStr t) \<longrightarrow> type_matches t args)
     \<and> (\<forall>fs f. member ''required'' schema = Some (JArr fs) \<and> JStr f \<in> set fs \<longrightarrow> member f args \<noteq> None)"
proof -
  have f: "(\<forall>x \<in> set fs. check_field args x = Inr ()) \<longleftrightarrow> (\<forall>f. JStr f \<in> set fs \<longrightarrow> member f args \<noteq> None)" for fs
    by (induction fs) (auto simp: check_field_def require_def split: json.splits)
  show ?thesis
    by (auto simp: validate_input_def check_type_def andthen_Inr f require_def split: option.splits json.splits)
qed

lemma plan_asks_for_risk:
  assumes "plan a args = Inr p"
  shows "ip_capability_action p = required_action (af_risk a) \<and> ip_approval p = af_approval a \<and> ip_audit p = af_audit a
    \<and> validate_input (af_input_schema a) args = Inr ()"
  using assms by (auto simp: plan_def andthen_Inr)

subsection \<open>Who may inspect\<close>

lemma inspect_patterns [simp]: "INSPECT_SELF \<noteq> INSPECT_SYSTEM" "INSPECT_SYSTEM \<noteq> INSPECT_SELF"
  by (simp_all add: INSPECT_SELF_def INSPECT_SYSTEM_def)

lemma scan_grants_spec:
  "scan_grants granted scope =
     (if INSPECT_SYSTEM \<in> set granted then Some ScopeSystem
      else if INSPECT_SELF \<in> set granted then Some SelfOnly else scope)"
  by (induction granted arbitrary: scope) (auto simp: scope_for_grant_def)

text \<open>
  Inspection is closed by default. A caller sees an object exactly when it is the shell, holds
  the system-wide pattern, or holds the pattern for itself and asks for its own object. The order and the
  repetition of the grants do not matter, and no other grant helps.
\<close>

theorem inspection_confined:
  "authorize_view shell caller target granted \<longleftrightarrow>
     shell \<or> INSPECT_SYSTEM \<in> set granted \<or> INSPECT_SELF \<in> set granted \<and> caller = target"
  by (auto simp: authorize_view_def from_grants_def scan_grants_spec)

end
