(* ===== verification/Replay_Codec.thy ===== *)
theory Replay_Codec
  imports Externals "HOL-Library.List_Lexorder"
begin

section \<open>The replay claims of a custody node: the state file\<close>

text \<open>
  \<^verbatim>\<open>elastos-protected-content-contracts/src/replay.rs\<close> and the first half of
  \<^verbatim>\<open>elastos-protected-content-custody/src/replay_store.rs\<close>: a custody node releases its share of a key once per
  request. The claims it has accepted are kept in one file: a header, records in strictly
  increasing order of their keys, a digest. Hashes, nonces and keys are byte lists of the lengths the source's
  arrays have (\<open>record_wf\<close>). The errors of decoding and encoding are all the same.
\<close>

datatype replay_error = AlreadyClaimed | Unavailable

fun replay_error_display :: "replay_error \<Rightarrow> string" where
  "replay_error_display AlreadyClaimed = ''authority nonce was already claimed''"
| "replay_error_display Unavailable = ''atomic replay storage is unavailable''"

record claim_key =
  ck_scope :: bytes
  ck_nonce :: bytes

record claim_entry =
  cl_key :: claim_key
  cl_expires_at :: u64

record stored_record =
  sr_rights_key :: claim_key
  sr_rights_expires_at :: u64
  sr_release_key :: claim_key
  sr_release_expires_at :: u64
  sr_audit_id :: bytes
  sr_operation_hash :: bytes
  sr_contribution :: "bytes option"

definition STATE_MAGIC :: bytes where
  "STATE_MAGIC = bytes_of ''epc-rcl1''"

definition STATE_DIGEST_DOMAIN :: bytes where
  "STATE_DIGEST_DOMAIN = bytes_of ''elastos/protected-content/node-replay-claims/state/v1''"

definition STATE_HEADER_BYTES :: nat where
  "STATE_HEADER_BYTES = 44"

definition REPLAY_CLAIM_KEY_BYTES :: nat where
  "REPLAY_CLAIM_KEY_BYTES = 48"

definition STORED_RESULT_STATE_CLAIM_ONLY :: u8 where
  "STORED_RESULT_STATE_CLAIM_ONLY = 0"

definition STORED_RESULT_STATE_PRESENT :: u8 where
  "STORED_RESULT_STATE_PRESENT = 1"

definition MAX_RECIPIENT_SEALED_CONTRIBUTION_BYTES :: nat where
  "MAX_RECIPIENT_SEALED_CONTRIBUTION_BYTES = 16 * 1024"

definition MAX_STORED_CONTRIBUTION_BYTES :: nat where
  "MAX_STORED_CONTRIBUTION_BYTES = MAX_RECIPIENT_SEALED_CONTRIBUTION_BYTES + 4 * 1024"

definition STATE_RECORD_FIXED_BYTES :: nat where
  "STATE_RECORD_FIXED_BYTES = (REPLAY_CLAIM_KEY_BYTES + 8) * 2 + 32 + 32 + 1 + 2"

definition STATE_DIGEST_BYTES :: nat where
  "STATE_DIGEST_BYTES = 32"

definition MAX_REPLAY_CLAIMS :: nat where
  "MAX_REPLAY_CLAIMS = 4096"

definition MAX_NODE_RELEASE_RECORDS :: nat where
  "MAX_NODE_RELEASE_RECORDS = MAX_REPLAY_CLAIMS div 2"

definition MAX_STATE_BYTES :: nat where
  "MAX_STATE_BYTES = 8 * 1024 * 1024"

definition MAX_STATE_PAYLOAD_BYTES :: nat where
  "MAX_STATE_PAYLOAD_BYTES = MAX_STATE_BYTES - STATE_DIGEST_BYTES"

subsection \<open>Records\<close>

definition claim_only :: "claim_entry \<Rightarrow> claim_entry \<Rightarrow> bytes \<Rightarrow> bytes \<Rightarrow> stored_record" where
  "claim_only rights_claim release_claim audit_id operation_hash =
     \<lparr>sr_rights_key = cl_key rights_claim, sr_rights_expires_at = cl_expires_at rights_claim,
      sr_release_key = cl_key release_claim, sr_release_expires_at = cl_expires_at release_claim,
      sr_audit_id = audit_id, sr_operation_hash = operation_hash, sr_contribution = None\<rparr>"

definition rights_active :: "u64 \<Rightarrow> stored_record \<Rightarrow> bool" where
  "rights_active now r = (sr_rights_expires_at r > now)"

definition release_active :: "u64 \<Rightarrow> stored_record \<Rightarrow> bool" where
  "release_active now r = (sr_release_expires_at r > now)"

definition any_active :: "u64 \<Rightarrow> stored_record \<Rightarrow> bool" where
  "any_active now r = (rights_active now r \<or> release_active now r)"

definition replay_claim_sort_key :: "claim_key \<Rightarrow> bytes" where
  "replay_claim_sort_key k = ck_scope k @ ck_nonce k"

definition record_sort_key :: "stored_record \<Rightarrow> bytes" where
  "record_sort_key r = replay_claim_sort_key (sr_release_key r) @ replay_claim_sort_key (sr_rights_key r)"

text \<open>An identifier of all zeros is no audit identifier.\<close>

definition audit_id_new :: "bytes \<Rightarrow> replay_error + bytes" where
  "audit_id_new b = (if b = replicate 32 0 then Inl Unavailable else Inr b)"

subsection \<open>Encoding\<close>

definition be_bytes :: "nat \<Rightarrow> 'a::len word \<Rightarrow> bytes" where
  "be_bytes n w = rev (le_bytes n w)"

definition state_integrity_digest :: "externals \<Rightarrow> bytes \<Rightarrow> bytes" where
  "state_integrity_digest X payload = sha256 X (STATE_DIGEST_DOMAIN @ payload)"

definition encode_contribution :: "bytes option \<Rightarrow> replay_error + bytes" where
  "encode_contribution c = (case c of
       Some b \<Rightarrow>
         if b = [] \<or> length b > MAX_STORED_CONTRIBUTION_BYTES then Inl Unavailable
         else if length b \<ge> 2 ^ 16 then Inl Unavailable
         else Inr (STORED_RESULT_STATE_PRESENT # be_bytes 2 (of_nat (length b) :: 16 word) @ b)
     | None \<Rightarrow> Inr (STORED_RESULT_STATE_CLAIM_ONLY # be_bytes 2 (0 :: 16 word)))"

definition encode_record :: "stored_record \<Rightarrow> replay_error + bytes" where
  "encode_record r = andthen (encode_contribution (sr_contribution r)) (\<lambda>c. Inr
     (ck_scope (sr_rights_key r) @ ck_nonce (sr_rights_key r) @ be_bytes 8 (sr_rights_expires_at r)
      @ ck_scope (sr_release_key r) @ ck_nonce (sr_release_key r) @ be_bytes 8 (sr_release_expires_at r)
      @ sr_audit_id r @ sr_operation_hash r @ c))"

definition after_previous :: "bytes option \<Rightarrow> bytes \<Rightarrow> bool" where
  "after_previous previous key = (case previous of None \<Rightarrow> True | Some prior \<Rightarrow> prior < key)"

fun encode_records :: "bytes option \<Rightarrow> stored_record list \<Rightarrow> replay_error + bytes" where
  "encode_records previous [] = Inr []"
| "encode_records previous (r # rs) =
     andthen (require (after_previous previous (record_sort_key r)) Unavailable) (\<lambda>_.
     andthen (encode_record r) (\<lambda>b.
     andthen (encode_records (Some (record_sort_key r)) rs) (\<lambda>bs. Inr (b @ bs))))"

definition encode_state :: "externals \<Rightarrow> bytes \<Rightarrow> stored_record list \<Rightarrow> replay_error + bytes" where
  "encode_state X node records =
     andthen (require (length records \<le> MAX_NODE_RELEASE_RECORDS) Unavailable) (\<lambda>_.
     andthen (encode_records None records) (\<lambda>body.
     (let payload = STATE_MAGIC @ node @ be_bytes 4 (of_nat (length records) :: u32) @ body in
      andthen (require (length payload \<le> MAX_STATE_PAYLOAD_BYTES) Unavailable) (\<lambda>_.
      (let bytes = payload @ state_integrity_digest X payload in
       andthen (require (length bytes \<le> MAX_STATE_BYTES) Unavailable) (\<lambda>_. Inr bytes))))))"

subsection \<open>Decoding\<close>

text \<open>The part of the input that is left takes the place of the source's offset.\<close>

definition split_at :: "nat \<Rightarrow> 'a list \<Rightarrow> 'a list \<times> 'a list" where
  "split_at n xs = (take n xs, drop n xs)"

definition decode_contribution :: "u8 \<Rightarrow> nat \<Rightarrow> bytes \<Rightarrow> replay_error + bytes option \<times> bytes" where
  "decode_contribution state len rest =
     (if length rest < len then Inl Unavailable
      else if state = STORED_RESULT_STATE_CLAIM_ONLY then
        (if len \<noteq> 0 then Inl Unavailable else Inr (None, rest))
      else if state = STORED_RESULT_STATE_PRESENT then
        (if len = 0 \<or> len > MAX_STORED_CONTRIBUTION_BYTES then Inl Unavailable
         else Inr (Some (take len rest), drop len rest))
      else Inl Unavailable)"

definition decode_record :: "bytes \<Rightarrow> replay_error + stored_record \<times> bytes" where
  "decode_record p =
     (if length p < STATE_RECORD_FIXED_BYTES then Inl Unavailable
      else
       (let (rights_scope, p) = split_at 32 p;
            (rights_nonce, p) = split_at 16 p;
            (rights_expires, p) = split_at 8 p;
            (release_scope, p) = split_at 32 p;
            (release_nonce, p) = split_at 16 p;
            (release_expires, p) = split_at 8 p;
            (audit, p) = split_at 32 p;
            (operation, p) = split_at 32 p;
            state = hd p;
            (len, p) = split_at 2 (tl p)
        in andthen (decode_contribution state (unat (word_rcat len :: 16 word)) p) (\<lambda>(contribution, p).
           andthen (audit_id_new audit) (\<lambda>audit.
           Inr (\<lparr>sr_rights_key = \<lparr>ck_scope = rights_scope, ck_nonce = rights_nonce\<rparr>,
                  sr_rights_expires_at = word_rcat rights_expires,
                  sr_release_key = \<lparr>ck_scope = release_scope, ck_nonce = release_nonce\<rparr>,
                  sr_release_expires_at = word_rcat release_expires,
                  sr_audit_id = audit, sr_operation_hash = operation, sr_contribution = contribution\<rparr>, p)))))"

fun decode_records :: "nat \<Rightarrow> bytes option \<Rightarrow> bytes \<Rightarrow> replay_error + stored_record list" where
  "decode_records 0 previous p = (if p \<noteq> [] then Inl Unavailable else Inr [])"
| "decode_records (Suc n) previous p =
     andthen (decode_record p) (\<lambda>(r, p).
     andthen (require (after_previous previous (record_sort_key r)) Unavailable) (\<lambda>_.
     andthen (decode_records n (Some (record_sort_key r)) p) (\<lambda>rs. Inr (r # rs))))"

definition decode_state :: "externals \<Rightarrow> bytes \<Rightarrow> bytes \<Rightarrow> replay_error + stored_record list" where
  "decode_state X bytes node =
     (if length bytes < STATE_HEADER_BYTES + STATE_DIGEST_BYTES then Inl Unavailable
      else
       (let (payload, digest) = split_at (length bytes - STATE_DIGEST_BYTES) bytes in
        if take 8 payload \<noteq> STATE_MAGIC then Inl Unavailable
        else if state_integrity_digest X payload \<noteq> digest then Inl Unavailable
        else if take 32 (drop 8 payload) \<noteq> node then Inl Unavailable
        else
         (let count = unat (word_rcat (take 4 (drop 40 payload)) :: u32) in
          if count > MAX_NODE_RELEASE_RECORDS then Inl Unavailable
          else decode_records count None (drop STATE_HEADER_BYTES payload))))"

subsection \<open>Big-endian numbers\<close>

lemma length_be_bytes [simp]: "length (be_bytes n w) = n"
  by (simp add: be_bytes_def)

lemma bit_word_rcat:
  "bit (word_rcat bs :: 'b::len word) n \<longleftrightarrow> n < LENGTH('b) \<and> n div 8 < length bs \<and> bit (rev (bs :: u8 list) ! (n div 8)) (n mod 8)"
  using bit_horner_sum_uint_exp_iff[of "rev bs" n] by (auto simp: word_rcat_def bit_simps)

lemma rcat_be_bytes: "LENGTH('a) \<le> 8 * n \<Longrightarrow> word_rcat (be_bytes n (w :: 'a::len word)) = w"
proof (rule bit_word_eqI)
  fix k assume n: "LENGTH('a) \<le> 8 * n" and k: "k < LENGTH('a)"
  have "k div 8 < n" using n k by linarith
  then show "bit (word_rcat (be_bytes n w) :: 'a word) k = bit w k"
    using k by (simp add: bit_word_rcat be_bytes_def le_bytes_def bit_ucast_iff bit_drop_bit_eq)
qed

lemma be_bytes_rcat: "length bs = n \<Longrightarrow> LENGTH('a::len) = 8 * n \<Longrightarrow> be_bytes n (word_rcat bs :: 'a word) = bs"
proof -
  assume n: "length bs = n" and l: "LENGTH('a) = 8 * n"
  have "le_bytes n (word_rcat bs :: 'a word) = rev bs"
  proof (rule nth_equalityI)
    fix i assume "i < length (le_bytes n (word_rcat bs :: 'a word))"
    then have i: "i < n" by simp
    have "bit (ucast (drop_bit (8 * i) (word_rcat bs :: 'a word)) :: u8) j = bit (rev bs ! i) j" if "j < 8" for j
    proof -
      have "8 * i + j < LENGTH('a)" "(8 * i + j) div 8 = i" "(8 * i + j) mod 8 = j" using i l that by auto
      then show ?thesis using i n that by (simp add: bit_ucast_iff bit_drop_bit_eq bit_word_rcat)
    qed
    then have "(ucast (drop_bit (8 * i) (word_rcat bs :: 'a word)) :: u8) = rev bs ! i" by (intro bit_word_eqI) simp
    then show "le_bytes n (word_rcat bs :: 'a word) ! i = rev bs ! i" using i by (simp add: le_bytes_def)
  qed (simp add: n)
  then show ?thesis by (simp add: be_bytes_def)
qed

subsection \<open>Encoding and decoding are inverse\<close>

definition key_wf :: "claim_key \<Rightarrow> bool" where
  "key_wf k = (length (ck_scope k) = 32 \<and> length (ck_nonce k) = 16)"

definition record_wf :: "stored_record \<Rightarrow> bool" where
  "record_wf r = (key_wf (sr_rights_key r) \<and> key_wf (sr_release_key r) \<and> length (sr_audit_id r) = 32
     \<and> sr_audit_id r \<noteq> replicate 32 0 \<and> length (sr_operation_hash r) = 32)"

lemma state_sizes [simp]:
  "STATE_RECORD_FIXED_BYTES = 179" "STATE_HEADER_BYTES = 44" "STATE_DIGEST_BYTES = 32" "MAX_NODE_RELEASE_RECORDS = 2048"
  "MAX_STORED_CONTRIBUTION_BYTES = 20480" "MAX_STATE_BYTES = 8388608" "MAX_STATE_PAYLOAD_BYTES = 8388576"
  by (simp_all add: STATE_RECORD_FIXED_BYTES_def REPLAY_CLAIM_KEY_BYTES_def STATE_HEADER_BYTES_def STATE_DIGEST_BYTES_def
      MAX_NODE_RELEASE_RECORDS_def MAX_REPLAY_CLAIMS_def MAX_STORED_CONTRIBUTION_BYTES_def
      MAX_RECIPIENT_SEALED_CONTRIBUTION_BYTES_def MAX_STATE_BYTES_def MAX_STATE_PAYLOAD_BYTES_def)

lemma rcat_be_fixed [simp]:
  "word_rcat (be_bytes 2 (v :: 16 word)) = v" "word_rcat (be_bytes 4 (w :: u32)) = w" "word_rcat (be_bytes 8 (x :: u64)) = x"
  by (simp_all add: rcat_be_bytes)

lemma encode_contribution_Inr:
  "encode_contribution c = Inr b \<longleftrightarrow>
     (c = None \<and> b = [0] @ be_bytes 2 (0 :: 16 word)
      \<or> (\<exists>x. c = Some x \<and> x \<noteq> [] \<and> length x \<le> 20480 \<and> b = [1] @ be_bytes 2 (of_nat (length x) :: 16 word) @ x))"
  by (auto simp: encode_contribution_def STORED_RESULT_STATE_CLAIM_ONLY_def STORED_RESULT_STATE_PRESENT_def split: option.splits)

lemma encode_record_Inr:
  "encode_record r = Inr b \<longleftrightarrow> (\<exists>c. encode_contribution (sr_contribution r) = Inr c \<and>
     b = ck_scope (sr_rights_key r) @ ck_nonce (sr_rights_key r) @ be_bytes 8 (sr_rights_expires_at r)
      @ ck_scope (sr_release_key r) @ ck_nonce (sr_release_key r) @ be_bytes 8 (sr_release_expires_at r)
      @ sr_audit_id r @ sr_operation_hash r @ c)"
  by (auto simp: encode_record_def andthen_Inr)

lemma decode_record_pieces:
  assumes "length a1 = 32" "length a2 = 16" "length a3 = 8" "length a4 = 32" "length a5 = 16" "length a6 = 8"
    "length a7 = 32" "length a8 = 32" "length l = 2"
  shows "decode_record (a1 @ a2 @ a3 @ a4 @ a5 @ a6 @ a7 @ a8 @ [s] @ l @ q) =
    andthen (decode_contribution s (unat (word_rcat l :: 16 word)) q) (\<lambda>(c, q).
    andthen (audit_id_new a7) (\<lambda>a7. Inr (\<lparr>sr_rights_key = \<lparr>ck_scope = a1, ck_nonce = a2\<rparr>, sr_rights_expires_at = word_rcat a3,
      sr_release_key = \<lparr>ck_scope = a4, ck_nonce = a5\<rparr>, sr_release_expires_at = word_rcat a6,
      sr_audit_id = a7, sr_operation_hash = a8, sr_contribution = c\<rparr>, q)))"
  using assms by (simp add: decode_record_def split_at_def)

lemma decode_encode_contribution:
  assumes "encode_contribution c = Inr b"
  shows "\<exists>s l x. b = [s] @ l @ x \<and> length l = 2 \<and> decode_contribution s (unat (word_rcat l :: 16 word)) (x @ q) = Inr (c, q)"
proof (cases c)
  case None
  then show ?thesis using assms
    by (intro exI[of _ 0] exI[of _ "be_bytes 2 (0 :: 16 word)"] exI[of _ "[]"])
      (simp add: encode_contribution_Inr decode_contribution_def STORED_RESULT_STATE_CLAIM_ONLY_def)
next
  case (Some x)
  then have x: "x \<noteq> []" "length x \<le> 20480" "b = [1] @ be_bytes 2 (of_nat (length x) :: 16 word) @ x"
    using assms by (auto simp: encode_contribution_Inr)
  have "unat (of_nat (length x) :: 16 word) = length x" using x(2) by (simp add: unat_of_nat)
  then show ?thesis using x Some
    by (intro exI[of _ 1] exI[of _ "be_bytes 2 (of_nat (length x) :: 16 word)"] exI[of _ x])
      (simp add: decode_contribution_def STORED_RESULT_STATE_CLAIM_ONLY_def STORED_RESULT_STATE_PRESENT_def)
qed

lemma decode_encode_record:
  assumes "record_wf r" "encode_record r = Inr b"
  shows "decode_record (b @ q) = Inr (r, q)"
proof -
  obtain c where c: "encode_contribution (sr_contribution r) = Inr c"
    "b = ck_scope (sr_rights_key r) @ ck_nonce (sr_rights_key r) @ be_bytes 8 (sr_rights_expires_at r)
      @ ck_scope (sr_release_key r) @ ck_nonce (sr_release_key r) @ be_bytes 8 (sr_release_expires_at r)
      @ sr_audit_id r @ sr_operation_hash r @ c"
    using assms(2) by (auto simp: encode_record_Inr)
  obtain s l x where s: "c = [s] @ l @ x" "length l = 2"
      "decode_contribution s (unat (word_rcat l :: 16 word)) (x @ q) = Inr (sr_contribution r, q)"
    using decode_encode_contribution[OF c(1)] by blast
  have "b @ q = ck_scope (sr_rights_key r) @ ck_nonce (sr_rights_key r) @ be_bytes 8 (sr_rights_expires_at r)
      @ ck_scope (sr_release_key r) @ ck_nonce (sr_release_key r) @ be_bytes 8 (sr_release_expires_at r)
      @ sr_audit_id r @ sr_operation_hash r @ [s] @ l @ x @ q" by (simp add: c(2) s(1))
  moreover have "sr_audit_id r \<noteq> replicate 32 0" using assms(1) by (simp add: record_wf_def)
  ultimately show ?thesis using assms(1) s(2,3)
    by (simp only: decode_record_pieces record_wf_def key_wf_def length_be_bytes) (simp add: audit_id_new_def)
qed

lemma cut: "n \<le> length p \<Longrightarrow> \<exists>a q. p = a @ q \<and> length a = n"
  by (rule exI[of _ "take n p"], rule exI[of _ "drop n p"]) simp

lemma cutE:
  assumes "n + m \<le> length p" obtains a q where "p = a @ q" "length a = n" "m \<le> length q"
  using cut[of n p] assms by fastforce

lemma decode_contribution_Inr:
  assumes "decode_contribution s (unat (word_rcat l :: 16 word)) p = Inr (c, q)" "length l = 2"
  shows "\<exists>b. encode_contribution c = Inr b \<and> [s] @ l @ p = b @ q"
proof -
  have l: "be_bytes 2 (word_rcat l :: 16 word) = l" using assms(2) by (simp add: be_bytes_rcat)
  let ?n = "unat (word_rcat l :: 16 word)"
  consider "s = 0" "?n = 0" "c = None" "q = p"
    | "s = 1" "?n \<noteq> 0" "?n \<le> 20480" "?n \<le> length p" "c = Some (take ?n p)" "q = drop ?n p"
    using assms(1) by (auto simp: decode_contribution_def STORED_RESULT_STATE_CLAIM_ONLY_def STORED_RESULT_STATE_PRESENT_def split: if_splits)
  then show ?thesis
  proof cases
    case 1
    then have "word_rcat l = (0 :: 16 word)" by (simp add: unat_eq_0)
    then show ?thesis using 1 l by (simp add: encode_contribution_Inr)
  next
    case 2
    have "(of_nat (length (take ?n p)) :: 16 word) = word_rcat l" using 2 by simp
    then show ?thesis using 2 l by (auto simp: encode_contribution_Inr)
  qed
qed

lemma decode_record_Inr:
  assumes "decode_record p = Inr (r, q)"
  shows "record_wf r \<and> (\<exists>b. encode_record r = Inr b \<and> p = b @ q)"
proof -
  have "179 \<le> length p" using assms by (simp add: decode_record_def split: if_splits)
  then obtain a1 p1 where 1: "p = a1 @ p1" "length a1 = 32" "147 \<le> length p1" by (rule_tac cutE[of 32 147 p]) auto
  from 1(3) obtain a2 p2 where 2: "p1 = a2 @ p2" "length a2 = 16" "131 \<le> length p2" by (rule_tac cutE[of 16 131 p1]) auto
  from 2(3) obtain a3 p3 where 3: "p2 = a3 @ p3" "length a3 = 8" "123 \<le> length p3" by (rule_tac cutE[of 8 123 p2]) auto
  from 3(3) obtain a4 p4 where 4: "p3 = a4 @ p4" "length a4 = 32" "91 \<le> length p4" by (rule_tac cutE[of 32 91 p3]) auto
  from 4(3) obtain a5 p5 where 5: "p4 = a5 @ p5" "length a5 = 16" "75 \<le> length p5" by (rule_tac cutE[of 16 75 p4]) auto
  from 5(3) obtain a6 p6 where 6: "p5 = a6 @ p6" "length a6 = 8" "67 \<le> length p6" by (rule_tac cutE[of 8 67 p5]) auto
  from 6(3) obtain a7 p7 where 7: "p6 = a7 @ p7" "length a7 = 32" "35 \<le> length p7" by (rule_tac cutE[of 32 35 p6]) auto
  from 7(3) obtain a8 p8 where 8: "p7 = a8 @ p8" "length a8 = 32" "3 \<le> length p8" by (rule_tac cutE[of 32 3 p7]) auto
  from 8(3) obtain s p9 where 9: "p8 = s # p9" "2 \<le> length p9" by (cases p8) auto
  from 9(2) obtain l p0 where 0: "p9 = l @ p0" "length l = 2" by (rule_tac cutE[of 2 0 p9]) auto
  note lens = 1(2) 2(2) 3(2) 4(2) 5(2) 6(2) 7(2) 8(2) 0(2)
  have p: "p = a1 @ a2 @ a3 @ a4 @ a5 @ a6 @ a7 @ a8 @ [s] @ l @ p0"
    by (simp add: 1(1) 2(1) 3(1) 4(1) 5(1) 6(1) 7(1) 8(1) 9(1) 0(1))
  obtain c where c: "decode_contribution s (unat (word_rcat l :: 16 word)) p0 = Inr (c, q)" and a: "a7 \<noteq> replicate 32 0"
    and r: "r = \<lparr>sr_rights_key = \<lparr>ck_scope = a1, ck_nonce = a2\<rparr>, sr_rights_expires_at = word_rcat a3,
      sr_release_key = \<lparr>ck_scope = a4, ck_nonce = a5\<rparr>, sr_release_expires_at = word_rcat a6,
      sr_audit_id = a7, sr_operation_hash = a8, sr_contribution = c\<rparr>"
    using assms unfolding p decode_record_pieces[OF lens]
    by (auto simp: andthen_Inr audit_id_new_def split: if_splits prod.splits)
  obtain b where b: "encode_contribution c = Inr b" "[s] @ l @ p0 = b @ q" using decode_contribution_Inr[OF c lens(9)] by blast
  have "be_bytes 8 (word_rcat a3 :: u64) = a3" "be_bytes 8 (word_rcat a6 :: u64) = a6" using lens by (simp_all add: be_bytes_rcat)
  then have "encode_record r = Inr (a1 @ a2 @ a3 @ a4 @ a5 @ a6 @ a7 @ a8 @ b)"
    "p = (a1 @ a2 @ a3 @ a4 @ a5 @ a6 @ a7 @ a8 @ b) @ q" using b by (simp_all add: r encode_record_Inr p)
  then show ?thesis using lens a by (auto simp: r record_wf_def key_wf_def)
qed

lemma decode_encode_records:
  "\<lbrakk>encode_records prev rs = Inr b; \<forall>r \<in> set rs. record_wf r\<rbrakk> \<Longrightarrow> decode_records (length rs) prev b = Inr rs"
  by (induction prev rs arbitrary: b rule: encode_records.induct)
    (auto simp: andthen_Inr decode_encode_record)

lemma decode_records_Inr:
  "decode_records n prev p = Inr rs \<Longrightarrow> length rs = n \<and> (\<forall>r \<in> set rs. record_wf r) \<and> encode_records prev rs = Inr p"
proof (induction n prev p arbitrary: rs rule: decode_records.induct)
  case (2 n prev p)
  then obtain r q rs' where d: "decode_record p = Inr (r, q)" "after_previous prev (record_sort_key r)"
      "decode_records n (Some (record_sort_key r)) q = Inr rs'" "rs = r # rs'"
    by (auto simp: andthen_Inr)
  from 2(1)[OF d(3)] d(2) have "length rs' = n \<and> (\<forall>r \<in> set rs'. record_wf r)
      \<and> encode_records (Some (record_sort_key r)) rs' = Inr q" by auto
  with decode_record_Inr[OF d(1)] d show ?case by (auto simp: andthen_Inr)
qed (auto split: if_splits)

lemma encode_state_Inr:
  "encode_state X node records = Inr out \<longleftrightarrow> length records \<le> 2048 \<and> (\<exists>body. encode_records None records = Inr body \<and>
     (let payload = STATE_MAGIC @ node @ be_bytes 4 (of_nat (length records) :: u32) @ body in
      length payload \<le> 8388576 \<and> out = payload @ state_integrity_digest X payload \<and> length out \<le> 8388608))"
  by (auto simp: encode_state_def andthen_Inr Let_def)

lemma length_STATE_MAGIC [simp]: "length STATE_MAGIC = 8"
  by (simp add: STATE_MAGIC_def)

lemma header_pieces: "q = take 8 q @ take 32 (drop 8 q) @ take 4 (drop 40 q) @ drop 44 q"
proof -
  have "drop 40 q = take 4 (drop 40 q) @ drop 44 q" using append_take_drop_id[of 4 "drop 40 q"] by (simp add: drop_drop)
  moreover have "drop 8 q = take 32 (drop 8 q) @ drop 40 q" using append_take_drop_id[of 32 "drop 8 q"] by (simp add: drop_drop)
  ultimately show ?thesis by (metis append_take_drop_id)
qed

lemma decode_state_Inr:
  assumes "digest_size X"
  shows "decode_state X file node = Inr records \<longleftrightarrow>
     (\<exists>l body. file = (STATE_MAGIC @ node @ l @ body) @ state_integrity_digest X (STATE_MAGIC @ node @ l @ body)
        \<and> length node = 32 \<and> length l = 4 \<and> unat (word_rcat l :: u32) \<le> 2048
        \<and> decode_records (unat (word_rcat l :: u32)) None body = Inr records)" (is "?L \<longleftrightarrow> ?R")
proof
  assume ?R
  then obtain l body where f: "file = (STATE_MAGIC @ node @ l @ body) @ state_integrity_digest X (STATE_MAGIC @ node @ l @ body)"
      "length node = 32" "length l = 4" "unat (word_rcat l :: u32) \<le> 2048"
      "decode_records (unat (word_rcat l :: u32)) None body = Inr records" by blast
  have "length (state_integrity_digest X p) = 32" for p using assms by (simp add: digest_size_def state_integrity_digest_def)
  then show ?L using f(2-5) by (simp add: decode_state_def split_at_def f(1))
next
  assume L: ?L
  let ?p = "take (length file - 32) file"
  have len: "76 \<le> length file" and m: "take 8 ?p = STATE_MAGIC" and d: "state_integrity_digest X ?p = drop (length file - 32) file"
    and n: "take 32 (drop 8 ?p) = node" and c: "unat (word_rcat (take 4 (drop 40 ?p)) :: u32) \<le> 2048"
    and r: "decode_records (unat (word_rcat (take 4 (drop 40 ?p)) :: u32)) None (drop 44 ?p) = Inr records"
    using L by (auto simp: decode_state_def split_at_def Let_def simp del: take_take drop_take split: if_splits)
  note a = header_pieces[of ?p]
  have f: "file = ?p @ drop (length file - 32) file" by simp
  let ?l = "take 4 (drop 40 ?p)" and ?b = "drop 44 ?p"
  have lp: "44 \<le> length ?p" using len by simp
  have p: "?p = STATE_MAGIC @ node @ ?l @ ?b" using a m n by (simp only:)
  have "length node = 32" "length ?l = 4" using lp by (simp_all add: n[symmetric])
  moreover have "file = (STATE_MAGIC @ node @ ?l @ ?b) @ state_integrity_digest X (STATE_MAGIC @ node @ ?l @ ?b)"
    using f d unfolding p[symmetric] by simp
  ultimately show ?R using c r by blast
qed

text \<open>
  Property C10. The state file of the replay claims and the list of records determine each other. Decoding
  succeeds exactly on the files that encoding writes for this node, and gives back the records written: no record is lost or
  altered by a restart, and a file with another node's key, another order, a field out of its range,
  spare bytes or a wrong digest is refused.
\<close>

theorem state_file_exact:
  assumes "digest_size X" and "length node = 32"
  shows "decode_state X file node = Inr records \<and> length file \<le> MAX_STATE_BYTES
    \<longleftrightarrow> encode_state X node records = Inr file \<and> (\<forall>r \<in> set records. record_wf r)"
proof
  assume L: "decode_state X file node = Inr records \<and> length file \<le> MAX_STATE_BYTES"
  then obtain l body where f: "file = (STATE_MAGIC @ node @ l @ body) @ state_integrity_digest X (STATE_MAGIC @ node @ l @ body)"
      "length l = 4" "unat (word_rcat l :: u32) \<le> 2048" "decode_records (unat (word_rcat l :: u32)) None body = Inr records"
    by (auto simp: decode_state_Inr[OF assms(1)])
  from decode_records_Inr[OF f(4)] have r: "length records = unat (word_rcat l :: u32)" "\<forall>r \<in> set records. record_wf r"
      "encode_records None records = Inr body" by auto
  have l: "be_bytes 4 (of_nat (length records) :: u32) = l" using f(2) by (simp add: r(1) be_bytes_rcat)
  have "length (state_integrity_digest X p) = 32" for p using assms by (simp add: digest_size_def state_integrity_digest_def)
  then show "encode_state X node records = Inr file \<and> (\<forall>r \<in> set records. record_wf r)"
    using L f(1-3) r l by (simp add: encode_state_Inr)
next
  assume R: "encode_state X node records = Inr file \<and> (\<forall>r \<in> set records. record_wf r)"
  then obtain body where e: "length records \<le> 2048" "encode_records None records = Inr body" "length file \<le> 8388608"
      "file = (STATE_MAGIC @ node @ be_bytes 4 (of_nat (length records) :: u32) @ body)
        @ state_integrity_digest X (STATE_MAGIC @ node @ be_bytes 4 (of_nat (length records) :: u32) @ body)"
    by (auto simp: encode_state_Inr Let_def)
  have "unat (of_nat (length records) :: u32) = length records" using e(1) by (simp add: unat_of_nat)
  moreover have "decode_records (length records) None body = Inr records" using R e(2) by (simp add: decode_encode_records)
  ultimately have "decode_state X file node = Inr records"
    unfolding decode_state_Inr[OF assms(1)] using assms(2) e(1,4)
    by (intro exI[of _ "be_bytes 4 (of_nat (length records) :: u32)"] exI[of _ body]) simp
  then show "decode_state X file node = Inr records \<and> length file \<le> MAX_STATE_BYTES" using e(3) by simp
qed

subsection \<open>Sizes and order\<close>

lemma encode_records_sorted:
  "encode_records prev rs = Inr b \<Longrightarrow> (\<forall>r \<in> set rs. after_previous prev (record_sort_key r)) \<and> distinct rs"
proof (induction prev rs arbitrary: b rule: encode_records.induct)
  case (2 prev r rs)
  then obtain b' where e: "after_previous prev (record_sort_key r)" "encode_records (Some (record_sort_key r)) rs = Inr b'"
    by (auto simp: andthen_Inr)
  have i: "(\<forall>q \<in> set rs. after_previous (Some (record_sort_key r)) (record_sort_key q)) \<and> distinct rs"
    using 2 e by (auto simp: andthen_Inr)
  then show ?case using e(1) by (auto simp: after_previous_def split: option.splits)
qed simp

definition record_size :: "stored_record \<Rightarrow> nat" where
  "record_size r = STATE_RECORD_FIXED_BYTES + (case sr_contribution r of None \<Rightarrow> 0 | Some b \<Rightarrow> length b)"

definition contribution_fits :: "stored_record \<Rightarrow> bool" where
  "contribution_fits r = (case sr_contribution r of None \<Rightarrow> True | Some b \<Rightarrow> b \<noteq> [] \<and> length b \<le> MAX_STORED_CONTRIBUTION_BYTES)"

lemma encode_record_possible:
  assumes "record_wf r" "contribution_fits r"
  shows "\<exists>b. encode_record r = Inr b \<and> length b = record_size r"
  using assms
  by (cases "sr_contribution r")
    (auto simp: encode_record_Inr encode_contribution_Inr record_wf_def key_wf_def contribution_fits_def record_size_def)

lemma encode_records_possible:
  "\<lbrakk>sorted_wrt (<) (map record_sort_key rs); rs \<noteq> [] \<longrightarrow> after_previous prev (record_sort_key (hd rs));
    \<forall>r \<in> set rs. record_wf r \<and> contribution_fits r\<rbrakk>
   \<Longrightarrow> \<exists>b. encode_records prev rs = Inr b \<and> length b = sum_list (map record_size rs)"
proof (induction rs arbitrary: prev)
  case (Cons r rs)
  have "rs \<noteq> [] \<longrightarrow> after_previous (Some (record_sort_key r)) (record_sort_key (hd rs))"
    using Cons.prems(1) by (cases rs) (auto simp: after_previous_def)
  then obtain b where "encode_records (Some (record_sort_key r)) rs = Inr b" "length b = sum_list (map record_size rs)"
    using Cons.IH[of "Some (record_sort_key r)"] Cons.prems by auto
  moreover obtain a where "encode_record r = Inr a" "length a = record_size r" using encode_record_possible[of r] Cons.prems(3) by auto
  ultimately show ?case using Cons.prems(2) by (auto simp: andthen_Inr)
qed simp

lemma encode_state_possible:
  assumes "digest_size X" "length node = 32" "sorted_wrt (<) (map record_sort_key rs)" "\<forall>r \<in> set rs. record_wf r \<and> contribution_fits r"
    and "length rs \<le> MAX_NODE_RELEASE_RECORDS" "sum_list (map record_size rs) + STATE_HEADER_BYTES + STATE_DIGEST_BYTES \<le> MAX_STATE_BYTES"
  shows "\<exists>b. encode_state X node rs = Inr b"
proof -
  obtain body where b: "encode_records None rs = Inr body" "length body = sum_list (map record_size rs)"
    using encode_records_possible[OF assms(3) _ assms(4), of None] by (auto simp: after_previous_def)
  have "length (state_integrity_digest X p) = 32" for p using assms(1) by (simp add: digest_size_def state_integrity_digest_def)
  then show ?thesis using assms(2,5,6) b unfolding encode_state_Inr Let_def by (intro exI) (auto intro!: exI[of _ body])
qed

lemma encode_records_strict:
  "encode_records prev rs = Inr b \<Longrightarrow> sorted_wrt (<) (map record_sort_key rs)"
proof (induction prev rs arbitrary: b rule: encode_records.induct)
  case (2 prev r rs)
  then obtain b' where e: "encode_records (Some (record_sort_key r)) rs = Inr b'" by (auto simp: andthen_Inr)
  then show ?case using 2 encode_records_sorted[OF e] by (auto simp: andthen_Inr after_previous_def)
qed simp

subsection \<open>Examples\<close>

definition demo_replay_ext :: externals where
  "demo_replay_ext = demo_ext\<lparr>sha256 := (\<lambda>b. take 32 (b @ replicate 32 0))\<rparr>"

lemma demo_replay_digest [simp]: "digest_size demo_replay_ext"
  by (simp add: digest_size_def demo_replay_ext_def demo_ext_def min_def)

definition demo_node :: bytes where
  "demo_node = replicate 32 1"

lemma demo_node_length [simp]: "length demo_node = 32"
  by (simp add: demo_node_def)

definition demo_record :: stored_record where
  "demo_record = \<lparr>sr_rights_key = \<lparr>ck_scope = replicate 32 2, ck_nonce = replicate 16 3\<rparr>, sr_rights_expires_at = 100,
     sr_release_key = \<lparr>ck_scope = replicate 32 4, ck_nonce = replicate 16 5\<rparr>, sr_release_expires_at = 100,
     sr_audit_id = replicate 32 6, sr_operation_hash = replicate 32 7, sr_contribution = Some [42]\<rparr>"

theorem state_file_exact_witness:
  "\<exists>file. encode_state demo_replay_ext demo_node [demo_record] = Inr file
     \<and> decode_state demo_replay_ext file demo_node = Inr [demo_record]"
proof -
  have w: "\<forall>r \<in> set [demo_record]. record_wf r \<and> contribution_fits r"
    by (simp add: demo_record_def record_wf_def key_wf_def contribution_fits_def)
  obtain b where b: "encode_state demo_replay_ext demo_node [demo_record] = Inr b"
    using encode_state_possible[OF demo_replay_digest demo_node_length _ w] by (auto simp: record_size_def demo_record_def)
  then show ?thesis using state_file_exact[OF demo_replay_digest demo_node_length, of b "[demo_record]"] w by auto
qed

end
