(* ===== verification/Replay_Store.thy ===== *)
theory Replay_Store
  imports Replay_Codec
begin

section \<open>The replay claims of a custody node: claiming and replaying\<close>

text \<open>
  The store of \<^verbatim>\<open>elastos-protected-content-custody/src/replay_store.rs\<close>: under an exclusive lock on its
  directory, one call reads the claims, drops the expired ones, and either replays the contribution it has
  stored for exactly this operation, or refuses an overlap, or writes the claim, produces the contribution, and
  writes it too. What the directory holds are entries with owner and mode; every call of the file system may
  fail, as the oracle \<open>cd_io\<close> says, and a failing \<^verbatim>\<open>write_all\<close> leaves a prefix. A process that dies at a call is a call that
  fails there, for nothing is done after an error. The lock makes a call one step.

  The operation, the rights decision, the share and the contribution are types of other parts of the
  repository: a call is given by what their checks say (\<open>release_call\<close>), the contribution is a type with
  its canonical bytes (\<open>contribution_codec\<close>).
\<close>

unbundle bit_operations_syntax

subsection \<open>The directory\<close>

datatype entry_kind = RegularFile | DirectoryKind | SymlinkKind | OtherKind

record disk_entry =
  en_kind :: entry_kind
  en_uid :: u32
  en_mode :: u32
  en_nlink :: u64
  en_data :: bytes

datatype slot = ParentDir | StateDir | LockFile | StateFile | TempFile

record claim_dir =
  cd_entries :: "slot \<Rightarrow> disk_entry option"
  cd_euid :: u32
  cd_io :: "nat \<Rightarrow> bool"
  cd_short :: "nat \<Rightarrow> nat"
  cd_calls :: nat

type_synonym 'a disk_op = "claim_dir \<Rightarrow> (replay_error + 'a) \<times> claim_dir"

definition ret_op :: "'a \<Rightarrow> 'a disk_op" where
  "ret_op x d = (Inr x, d)"

definition fail_op :: "'a disk_op" where
  "fail_op d = (Inl Unavailable, d)"

definition bind_op :: "'a disk_op \<Rightarrow> ('a \<Rightarrow> 'b disk_op) \<Rightarrow> 'b disk_op" where
  "bind_op m f d = (case m d of (Inl e, d) \<Rightarrow> (Inl e, d) | (Inr x, d) \<Rightarrow> f x d)"

definition lift_op :: "replay_error + 'a \<Rightarrow> 'a disk_op" where
  "lift_op r d = (r, d)"

definition io_call :: "unit disk_op" where
  "io_call d = (if cd_io d (cd_calls d) then Inr () else Inl Unavailable, d\<lparr>cd_calls := Suc (cd_calls d)\<rparr>)"

definition get_entry :: "slot \<Rightarrow> disk_entry option disk_op" where
  "get_entry s d = (Inr (cd_entries d s), d)"

definition get_euid :: "u32 disk_op" where
  "get_euid d = (Inr (cd_euid d), d)"

definition put_entry :: "slot \<Rightarrow> disk_entry option \<Rightarrow> unit disk_op" where
  "put_entry s e d = (Inr (), d\<lparr>cd_entries := (cd_entries d)(s := e)\<rparr>)"

text \<open>\<^verbatim>\<open>symlink_metadata\<close>: nothing there, an entry, or another error.\<close>

definition symlink_metadata :: "slot \<Rightarrow> disk_entry option disk_op" where
  "symlink_metadata s = bind_op io_call (\<lambda>_. get_entry s)"

definition existing :: "disk_entry option \<Rightarrow> disk_entry disk_op" where
  "existing e = (case e of None \<Rightarrow> fail_op | Some x \<Rightarrow> ret_op x)"

subsection \<open>Owner-only files and directories\<close>

definition validate_owner_and_mode :: "disk_entry \<Rightarrow> u32 \<Rightarrow> unit disk_op" where
  "validate_owner_and_mode e exact_mode = bind_op get_euid (\<lambda>euid.
     lift_op (require (en_uid e = euid \<and> en_mode e AND 0x1FF = exact_mode) Unavailable))"

definition validate_owner_only_directory_metadata :: "disk_entry \<Rightarrow> unit disk_op" where
  "validate_owner_only_directory_metadata e =
     bind_op (lift_op (require (en_kind e = DirectoryKind) Unavailable)) (\<lambda>_. validate_owner_and_mode e 0x1C0)"

definition validate_owner_only_directory :: "slot \<Rightarrow> unit disk_op" where
  "validate_owner_only_directory s = bind_op (symlink_metadata s) (\<lambda>e. bind_op (existing e) validate_owner_only_directory_metadata)"

definition validate_owner_only_regular_file_metadata :: "disk_entry \<Rightarrow> unit disk_op" where
  "validate_owner_only_regular_file_metadata e =
     bind_op (lift_op (require (en_kind e = RegularFile) Unavailable)) (\<lambda>_.
     bind_op (validate_owner_and_mode e 0x180) (\<lambda>_.
     lift_op (require (en_nlink e = 1) Unavailable)))"

definition sync_directory :: "unit disk_op" where
  "sync_directory = bind_op io_call (\<lambda>_. io_call)"

text \<open>Creating a directory that is there already is no error.\<close>

definition create_owner_only_directory :: "slot \<Rightarrow> unit disk_op" where
  "create_owner_only_directory s = bind_op (get_entry s) (\<lambda>old. case old of
       Some _ \<Rightarrow> ret_op ()
     | None \<Rightarrow> bind_op io_call (\<lambda>_. bind_op get_euid (\<lambda>euid.
         put_entry s (Some \<lparr>en_kind = DirectoryKind, en_uid = euid, en_mode = 0x1C0, en_nlink = 2, en_data = []\<rparr>))))"

definition file_metadata :: "slot \<Rightarrow> unit disk_op" where
  "file_metadata s = bind_op (symlink_metadata s) (\<lambda>e. bind_op (existing e) validate_owner_only_regular_file_metadata)"

definition open_owner_only_file :: "slot \<Rightarrow> unit disk_op" where
  "open_owner_only_file s =
     bind_op io_call (\<lambda>_.
     bind_op (get_entry s) (\<lambda>e.
     bind_op (existing e) (\<lambda>e.
     bind_op (lift_op (require (en_kind e \<noteq> SymlinkKind) Unavailable)) (\<lambda>_. file_metadata s))))"

definition create_new_file :: "slot \<Rightarrow> unit disk_op" where
  "create_new_file s =
     bind_op io_call (\<lambda>_.
     bind_op get_euid (\<lambda>euid.
     put_entry s (Some \<lparr>en_kind = RegularFile, en_uid = euid, en_mode = 0x180, en_nlink = 1, en_data = []\<rparr>)))"

definition open_or_create_owner_only_lock_file :: "unit disk_op" where
  "open_or_create_owner_only_lock_file =
     bind_op (validate_owner_only_directory StateDir) (\<lambda>_.
     bind_op (get_entry LockFile) (\<lambda>old. case old of
        None \<Rightarrow> bind_op (create_new_file LockFile) (\<lambda>_. bind_op (file_metadata LockFile) (\<lambda>_. sync_directory))
      | Some _ \<Rightarrow> open_owner_only_file LockFile))"

definition acquire_lock :: "unit disk_op" where
  "acquire_lock =
     bind_op open_or_create_owner_only_lock_file (\<lambda>_.
     bind_op io_call (\<lambda>_. file_metadata LockFile))"

definition open_owner_only_temp_file_for_write :: "unit disk_op" where
  "open_owner_only_temp_file_for_write =
     bind_op (validate_owner_only_directory StateDir) (\<lambda>_.
     bind_op (get_entry TempFile) (\<lambda>old. case old of
        Some _ \<Rightarrow> fail_op
      | None \<Rightarrow> bind_op (create_new_file TempFile) (\<lambda>_. bind_op (file_metadata TempFile) (\<lambda>_. sync_directory))))"

subsection \<open>The store's files\<close>

definition ensure_state_dir :: "unit disk_op" where
  "ensure_state_dir =
     bind_op (validate_owner_only_directory ParentDir) (\<lambda>_.
     bind_op (symlink_metadata StateDir) (\<lambda>e. case e of
        Some m \<Rightarrow> validate_owner_only_directory_metadata m
      | None \<Rightarrow> bind_op (create_owner_only_directory StateDir) (\<lambda>_.
                bind_op sync_directory (\<lambda>_. validate_owner_only_directory StateDir))))"

definition cleanup_stale_temp :: "unit disk_op" where
  "cleanup_stale_temp = bind_op (symlink_metadata TempFile) (\<lambda>e. case e of
        None \<Rightarrow> ret_op ()
      | Some m \<Rightarrow>
         bind_op (validate_owner_only_regular_file_metadata m) (\<lambda>_.
         bind_op io_call (\<lambda>_.
         bind_op (put_entry TempFile None) (\<lambda>_. sync_directory))))"

definition read_state :: "externals \<Rightarrow> bytes \<Rightarrow> stored_record list disk_op" where
  "read_state X node = bind_op (symlink_metadata StateFile) (\<lambda>e. case e of
        None \<Rightarrow> ret_op []
      | Some m \<Rightarrow>
         bind_op (validate_owner_only_regular_file_metadata m) (\<lambda>_.
         bind_op (lift_op (require (length (en_data m) \<le> MAX_STATE_BYTES) Unavailable)) (\<lambda>_.
         bind_op (open_owner_only_file StateFile) (\<lambda>_.
         bind_op io_call (\<lambda>_.
         lift_op (decode_state X (en_data m) node))))))"

definition write_all :: "slot \<Rightarrow> bytes \<Rightarrow> unit disk_op" where
  "write_all s b d = (case cd_entries d s of
       None \<Rightarrow> (Inl Unavailable, d)
     | Some e \<Rightarrow>
        (let n = cd_calls d; (r, d) = io_call d in
         (r, d\<lparr>cd_entries := (cd_entries d)(s := Some (e\<lparr>en_data := if r = Inr () then b else take (cd_short d n) b\<rparr>))\<rparr>)))"

definition rename_temp :: "unit disk_op" where
  "rename_temp = bind_op io_call (\<lambda>_. bind_op (get_entry TempFile) (\<lambda>e.
     bind_op (existing e) (\<lambda>e. bind_op (put_entry StateFile (Some e)) (\<lambda>_. put_entry TempFile None))))"

definition write_temp :: "externals \<Rightarrow> bytes \<Rightarrow> stored_record list \<Rightarrow> unit disk_op" where
  "write_temp X node records =
     bind_op (symlink_metadata StateFile) (\<lambda>e.
     bind_op (case e of None \<Rightarrow> ret_op () | Some m \<Rightarrow> validate_owner_only_regular_file_metadata m) (\<lambda>_.
     bind_op open_owner_only_temp_file_for_write (\<lambda>_.
     bind_op (lift_op (encode_state X node records)) (\<lambda>b.
     bind_op (write_all TempFile b) (\<lambda>_.
     bind_op io_call (\<lambda>_. file_metadata TempFile))))))"

definition write_state :: "externals \<Rightarrow> bytes \<Rightarrow> stored_record list \<Rightarrow> unit disk_op" where
  "write_state X node records =
     bind_op (write_temp X node records) (\<lambda>_.
     bind_op rename_temp (\<lambda>_. sync_directory))"

subsection \<open>Finding claims\<close>

definition matches_key :: "stored_record \<Rightarrow> claim_key \<Rightarrow> bool" where
  "matches_key r k = (sr_rights_key r = k \<or> sr_release_key r = k)"

definition has_conflicting_active_record ::
    "stored_record list \<Rightarrow> claim_key \<Rightarrow> claim_key \<Rightarrow> bytes \<Rightarrow> u64 \<Rightarrow> bool" where
  "has_conflicting_active_record records rights_key release_key audit_id now =
     list_ex (\<lambda>r. any_active now r
       \<and> (matches_key r rights_key \<or> matches_key r release_key \<or> sr_audit_id r = audit_id)) records"

fun find_exact_record_index ::
    "nat \<Rightarrow> nat option \<Rightarrow> stored_record list \<Rightarrow> claim_key \<Rightarrow> claim_key \<Rightarrow> bytes \<Rightarrow> bytes \<Rightarrow> u64 \<Rightarrow> replay_error + nat option" where
  "find_exact_record_index index exact [] rights_key release_key audit_id operation_hash now = Inr exact"
| "find_exact_record_index index exact (r # rs) rights_key release_key audit_id operation_hash now =
     (if \<not> any_active now r then find_exact_record_index (Suc index) exact rs rights_key release_key audit_id operation_hash now
      else if sr_rights_key r = rights_key \<and> sr_release_key r = release_key \<and> sr_audit_id r = audit_id then
        (if sr_operation_hash r \<noteq> operation_hash then Inl Unavailable
         else find_exact_record_index (Suc index) (Some index) rs rights_key release_key audit_id operation_hash now)
      else find_exact_record_index (Suc index) exact rs rights_key release_key audit_id operation_hash now)"

subsection \<open>Claiming or replaying\<close>

datatype custody_error = CeContract string | CeRelease string | CeRuntimeReleaseOperation string
  | CeRuntimeCustodyProvisioning string | CeReplay replay_error | CeNodeShareStore string | CePqHybrid string
  | CeShamir string | CeBindingMismatch string | CeMalformedShare string | CeContentKeyCommitmentMismatch
  | CeInvalidPayload string | CePayloadIo | CeRandomnessUnavailable

datatype rights_decision = RightsDenied | RightsAllowed

text \<open>
  Of a contribution: its canonical bytes, reading them back, and the canonical bytes of the rights decision it carries.
\<close>

record 'c contribution_codec =
  cc_canonical :: "'c \<Rightarrow> custody_error + bytes"
  cc_parse :: "bytes \<Rightarrow> custody_error + 'c"
  cc_decision :: "'c \<Rightarrow> custody_error + bytes"

definition contribution_law :: "'c contribution_codec \<Rightarrow> bool" where
  "contribution_law C = (\<forall>c b. cc_canonical C c = Inr b \<longrightarrow> cc_parse C b = Inr c)"

text \<open>
  A call: the claims of its operation, and what the checks of its arguments give (the node's key, the share, the recipient,
  the node set, the rights decision, the validity window, the node's secret). \<open>rc_produce\<close> is the contribution that would be
  produced now, \<open>rc_verify\<close> the check of a stored one.
\<close>

record 'c release_call =
  rc_randomness :: bool
  rc_node_key :: "custody_error + bytes"
  rc_share_context :: "custody_error + unit"
  rc_recipient_suite :: string
  rc_recipient_identity :: "custody_error + bytes"
  rc_operation_recipient :: bytes
  rc_node_set :: "custody_error + unit"
  rc_rights_decision :: "custody_error + rights_decision"
  rc_active_window :: "custody_error + unit"
  rc_share_node :: "custody_error + unit"
  rc_secret_matches :: "custody_error + unit"
  rc_rights_claim :: claim_entry
  rc_release_claim :: claim_entry
  rc_audit_id :: bytes
  rc_operation_hash :: bytes
  rc_decision_bytes :: "custody_error + bytes"
  rc_produce :: "custody_error + 'c"
  rc_verify :: "'c \<Rightarrow> custody_error + unit"

definition CUSTODY_X_WING_AES256GCM_SUITE_ID_V1 :: string where
  "CUSTODY_X_WING_AES256GCM_SUITE_ID_V1 = ''elastos-xwing-draft06-hkdf-sha256-aes256gcm/v1''"

text \<open>The checks before the store is touched; they end with the bytes of the decision.\<close>

definition check_call :: "bytes \<Rightarrow> 'c release_call \<Rightarrow> custody_error + bytes" where
  "check_call node call =
     andthen (rc_node_key call) (\<lambda>selected.
     andthen (require (selected = node) (CeBindingMismatch ''store_node_public_key'')) (\<lambda>_.
     andthen (rc_share_context call) (\<lambda>_.
     andthen (require (rc_recipient_suite call = CUSTODY_X_WING_AES256GCM_SUITE_ID_V1)
       (CeBindingMismatch ''recipient_encryption_suite_id'')) (\<lambda>_.
     andthen (rc_recipient_identity call) (\<lambda>identity.
     andthen (require (identity = rc_operation_recipient call) (CeBindingMismatch ''recipient_key_identity'')) (\<lambda>_.
     andthen (rc_node_set call) (\<lambda>_.
     andthen (rc_rights_decision call) (\<lambda>decision.
     andthen (require (decision = RightsAllowed) (CeRelease ''RightsDenied'')) (\<lambda>_.
     andthen (rc_active_window call) (\<lambda>_.
     andthen (rc_share_node call) (\<lambda>_.
     andthen (rc_secret_matches call) (\<lambda>_.
     rc_decision_bytes call))))))))))))"

definition open_store :: "externals \<Rightarrow> bytes \<Rightarrow> u64 \<Rightarrow> stored_record list disk_op" where
  "open_store X node now =
     bind_op ensure_state_dir (\<lambda>_.
     bind_op acquire_lock (\<lambda>_.
     bind_op cleanup_stale_temp (\<lambda>_.
     bind_op (read_state X node) (\<lambda>records. ret_op (filter (any_active now) records)))))"

definition replay_exact_contribution ::
    "'c contribution_codec \<Rightarrow> stored_record \<Rightarrow> bytes \<Rightarrow> 'c release_call \<Rightarrow> custody_error + 'c" where
  "replay_exact_contribution C r decision_bytes call =
     andthen (case sr_contribution r of None \<Rightarrow> Inl (CeReplay Unavailable) | Some b \<Rightarrow> Inr b) (\<lambda>b.
     andthen (cc_parse C b) (\<lambda>contribution.
     andthen (cc_decision C contribution) (\<lambda>d.
     andthen (require (d = decision_bytes) (CeBindingMismatch ''node_rights_decision'')) (\<lambda>_.
     andthen (rc_verify call contribution) (\<lambda>_. Inr contribution)))))"

definition call_record :: "'c release_call \<Rightarrow> stored_record" where
  "call_record call = claim_only (rc_rights_claim call) (rc_release_claim call) (rc_audit_id call) (rc_operation_hash call)"

definition is_record_of :: "'c release_call \<Rightarrow> stored_record \<Rightarrow> bool" where
  "is_record_of call r = (sr_rights_key r = cl_key (rc_rights_claim call) \<and> sr_release_key r = cl_key (rc_release_claim call)
     \<and> sr_audit_id r = rc_audit_id call \<and> sr_operation_hash r = rc_operation_hash call)"

text \<open>The first record of the call gets the contribution; none if there is no such record.\<close>

fun set_contribution :: "'c release_call \<Rightarrow> bytes \<Rightarrow> stored_record list \<Rightarrow> stored_record list option" where
  "set_contribution call b [] = None"
| "set_contribution call b (r # rs) =
     (if is_record_of call r then Some (r\<lparr>sr_contribution := Some b\<rparr> # rs)
      else map_option ((#) r) (set_contribution call b rs))"

text \<open>The part after the claim is written: produce, then store the contribution.\<close>

definition release_claimed ::
    "externals \<Rightarrow> 'c contribution_codec \<Rightarrow> bytes \<Rightarrow> 'c release_call \<Rightarrow> stored_record list \<Rightarrow> claim_dir
     \<Rightarrow> (custody_error + 'c) \<times> claim_dir" where
  "release_claimed X C node call records d =
     (case andthen (rc_produce call) (\<lambda>c. andthen (cc_canonical C c) (\<lambda>b. Inr (c, b))) of
        Inl e \<Rightarrow> (Inl e, d)
      | Inr (c, b) \<Rightarrow> (case set_contribution call b records of
          None \<Rightarrow> (Inl (CeReplay Unavailable), d)
        | Some records \<Rightarrow> (case write_state X node records d of
            (Inl e, d) \<Rightarrow> (Inl (CeReplay e), d) | (Inr _, d) \<Rightarrow> (Inr c, d))))"

definition claim_new ::
    "externals \<Rightarrow> 'c contribution_codec \<Rightarrow> bytes \<Rightarrow> 'c release_call \<Rightarrow> stored_record list \<Rightarrow> claim_dir
     \<Rightarrow> (custody_error + 'c) \<times> claim_dir" where
  "claim_new X C node call records d =
     (let records = sort_key record_sort_key (records @ [call_record call]) in
      if length records > MAX_NODE_RELEASE_RECORDS then (Inl (CeReplay Unavailable), d)
      else (case write_state X node records d of
          (Inl e, d) \<Rightarrow> (Inl (CeReplay e), d)
        | (Inr _, d) \<Rightarrow> release_claimed X C node call records d))"

definition claim_or_replay ::
    "externals \<Rightarrow> 'c contribution_codec \<Rightarrow> bytes \<Rightarrow> 'c release_call \<Rightarrow> u64 \<Rightarrow> claim_dir \<Rightarrow> (custody_error + 'c) \<times> claim_dir" where
  "claim_or_replay X C node call now d =
     (if \<not> rc_randomness call then (Inl CeRandomnessUnavailable, d)
      else (case check_call node call of
        Inl e \<Rightarrow> (Inl e, d)
      | Inr decision_bytes \<Rightarrow> (case open_store X node now d of
          (Inl e, d) \<Rightarrow> (Inl (CeReplay e), d)
        | (Inr records, d) \<Rightarrow>
           (let rights = cl_key (rc_rights_claim call); release = cl_key (rc_release_claim call) in
            case find_exact_record_index 0 None records rights release (rc_audit_id call) (rc_operation_hash call) now of
              Inl e \<Rightarrow> (Inl (CeReplay e), d)
            | Inr (Some index) \<Rightarrow> (replay_exact_contribution C (records ! index) decision_bytes call, d)
            | Inr None \<Rightarrow>
                if has_conflicting_active_record records rights release (rc_audit_id call) now
                then (Inl (CeReplay Unavailable), d)
                else claim_new X C node call records d))))"

subsection \<open>What the file operations leave alone\<close>

named_theorems keeping

text \<open>The operations other than \<^const>\<open>write_state\<close> never touch the state file.\<close>

definition keeps :: "'a disk_op \<Rightarrow> bool" where
  "keeps m = (\<forall>d. cd_entries (snd (m d)) StateFile = cd_entries d StateFile)"

lemma keeps_bind [keeping]: "\<lbrakk>keeps m; \<And>x. keeps (f x)\<rbrakk> \<Longrightarrow> keeps (bind_op m f)"
  by (auto simp: keeps_def bind_op_def split: prod.split sum.split) (metis snd_conv)+

lemma keeps_basic [keeping]:
  "keeps (ret_op x)" "keeps fail_op" "keeps (lift_op r)" "keeps io_call" "keeps (get_entry s)" "keeps get_euid"
  "s \<noteq> StateFile \<Longrightarrow> keeps (put_entry s e)" "s \<noteq> StateFile \<Longrightarrow> keeps (write_all s b)"
  by (auto simp: keeps_def ret_op_def fail_op_def lift_op_def io_call_def get_entry_def get_euid_def put_entry_def write_all_def
      Let_def split: option.split)

lemma keeps_option [keeping]: "\<lbrakk>keeps m; \<And>x. keeps (f x)\<rbrakk> \<Longrightarrow> keeps (case e of None \<Rightarrow> m | Some x \<Rightarrow> f x)"
  by (cases e) auto

lemma keeps_ops [keeping]:
  "keeps (symlink_metadata s)" "keeps (existing e)" "keeps (validate_owner_and_mode m n)"
  "keeps (validate_owner_only_directory_metadata m)" "keeps (validate_owner_only_regular_file_metadata m)" "keeps sync_directory"
  by (simp_all add: symlink_metadata_def existing_def validate_owner_and_mode_def validate_owner_only_directory_metadata_def
      validate_owner_only_regular_file_metadata_def sync_directory_def keeping)

lemma keeps_dirs [keeping]: "keeps (validate_owner_only_directory s)" "keeps (file_metadata s)"
  by (simp_all add: validate_owner_only_directory_def file_metadata_def keeping)

lemma keeps_files [keeping]: "keeps (open_owner_only_file s)" "s \<noteq> StateFile \<Longrightarrow> keeps (create_new_file s)"
  by (simp_all add: open_owner_only_file_def create_new_file_def keeping)

lemma keeps_store [keeping]:
  "keeps open_or_create_owner_only_lock_file" "keeps open_owner_only_temp_file_for_write" "keeps cleanup_stale_temp"
  "keeps (create_owner_only_directory StateDir)" "keeps (read_state X node)"
  by (simp_all add: open_or_create_owner_only_lock_file_def open_owner_only_temp_file_for_write_def cleanup_stale_temp_def
      create_owner_only_directory_def read_state_def keeping)

lemma keeps_open [keeping]: "keeps acquire_lock" "keeps ensure_state_dir"
  by (simp_all add: acquire_lock_def ensure_state_dir_def keeping)

lemma keepsD: "\<lbrakk>keeps m; m d = (r, d')\<rbrakk> \<Longrightarrow> cd_entries d' StateFile = cd_entries d StateFile"
  by (metis keeps_def snd_conv)

lemma bind_op_Inr: "bind_op m f d = (Inr y, d') \<longleftrightarrow> (\<exists>x d1. m d = (Inr x, d1) \<and> f x d1 = (Inr y, d'))"
  by (auto simp: bind_op_def split: prod.split sum.split)

lemma basic_Inr [simp]:
  "ret_op x d = (Inr y, d') \<longleftrightarrow> y = x \<and> d' = d" "lift_op r d = (Inr y, d') \<longleftrightarrow> r = Inr y \<and> d' = d" "fail_op d \<noteq> (Inr y, d')"
  by (auto simp: ret_op_def lift_op_def fail_op_def)

text \<open>The operations that only read.\<close>

definition reads :: "'a disk_op \<Rightarrow> bool" where
  "reads m = (\<forall>d. cd_entries (snd (m d)) = cd_entries d)"

lemma reads_bind [keeping]: "\<lbrakk>reads m; \<And>x. reads (f x)\<rbrakk> \<Longrightarrow> reads (bind_op m f)"
  by (auto simp: reads_def bind_op_def split: prod.split sum.split) (metis snd_conv)+

lemma reads_basic [keeping]:
  "reads (ret_op x)" "reads fail_op" "reads (lift_op r)" "reads io_call" "reads (get_entry s)" "reads get_euid"
  by (auto simp: reads_def ret_op_def fail_op_def lift_op_def io_call_def get_entry_def get_euid_def)

lemma reads_option [keeping]: "\<lbrakk>reads m; \<And>x. reads (f x)\<rbrakk> \<Longrightarrow> reads (case e of None \<Rightarrow> m | Some x \<Rightarrow> f x)"
  by (cases e) auto

lemma reads_ops [keeping]:
  "reads (symlink_metadata s)" "reads (existing e)" "reads (validate_owner_and_mode m n)"
  "reads (validate_owner_only_regular_file_metadata m)" "reads sync_directory" "reads (file_metadata s)"
  by (simp_all add: symlink_metadata_def existing_def validate_owner_and_mode_def file_metadata_def
      validate_owner_only_regular_file_metadata_def sync_directory_def keeping)

lemma readsD: "\<lbrakk>reads m; m d = (r, d')\<rbrakk> \<Longrightarrow> cd_entries d' = cd_entries d"
  by (metis reads_def snd_conv)

subsection \<open>What the store holds\<close>

definition stored :: "externals \<Rightarrow> bytes \<Rightarrow> claim_dir \<Rightarrow> stored_record list option" where
  "stored X node d = (case cd_entries d StateFile of
       None \<Rightarrow> Some []
     | Some e \<Rightarrow> (case decode_state X (en_data e) node of Inl _ \<Rightarrow> None | Inr rs \<Rightarrow> Some rs))"

lemma stored_cong: "cd_entries d' StateFile = cd_entries d StateFile \<Longrightarrow> stored X node d' = stored X node d"
  by (simp add: stored_def)

lemma stored_wf: "\<lbrakk>digest_size X; stored X node d = Some rs; r \<in> set rs\<rbrakk> \<Longrightarrow> record_wf r"
  using decode_records_Inr by (fastforce simp: stored_def decode_state_Inr split: option.splits sum.splits)

lemma symlink_metadata_Inr:
  "symlink_metadata s d = (Inr e, d') \<Longrightarrow> e = cd_entries d s \<and> cd_entries d' = cd_entries d"
  by (auto simp: symlink_metadata_def bind_op_Inr io_call_def get_entry_def)

lemma read_state_Inr: "read_state X node d = (Inr rs, d') \<Longrightarrow> stored X node d = Some rs"
  by (auto simp: read_state_def bind_op_Inr stored_def dest!: symlink_metadata_Inr split: option.splits)

lemma open_store_Inr:
  assumes "open_store X node now d = (Inr rs, d')"
  shows "\<exists>all. stored X node d = Some all \<and> rs = filter (any_active now) all \<and> cd_entries d' StateFile = cd_entries d StateFile"
proof -
  obtain d1 all where 1: "(bind_op ensure_state_dir (\<lambda>_. bind_op acquire_lock (\<lambda>_. cleanup_stale_temp))) d = (Inr (), d1)"
      "read_state X node d1 = (Inr all, d')" "rs = filter (any_active now) all"
    using assms by (auto simp: open_store_def bind_op_Inr)
  have "keeps (bind_op ensure_state_dir (\<lambda>_. bind_op acquire_lock (\<lambda>_. cleanup_stale_temp)))" by (simp add: keeping)
  note k = keepsD[OF this 1(1)]
  show ?thesis using k keepsD[OF keeps_store(5) 1(2)] read_state_Inr[OF 1(2)] 1(3) stored_cong[OF k, of X node] by simp
qed

lemma open_store_keeps [keeping]: "keeps (open_store X node now)"
  by (simp add: open_store_def keeping)

lemma write_all_Inr: "write_all s b d = (Inr (), d') \<Longrightarrow> \<exists>e. cd_entries d' s = Some e \<and> en_data e = b"
  by (auto simp: write_all_def io_call_def Let_def split: option.splits if_splits)

lemma write_temp_keeps [keeping]: "keeps (write_temp X node rs)"
  by (simp add: write_temp_def keeping)

lemma write_temp_Inr:
  assumes "write_temp X node rs d = (Inr (), d')"
  shows "\<exists>e. cd_entries d' TempFile = Some e \<and> encode_state X node rs = Inr (en_data e)"
proof -
  obtain b d1 d2 where 1: "encode_state X node rs = Inr b" "write_all TempFile b d1 = (Inr (), d2)"
      "bind_op io_call (\<lambda>_. file_metadata TempFile) d2 = (Inr (), d')"
    using assms by (auto simp: write_temp_def bind_op_Inr)
  have "reads (bind_op io_call (\<lambda>_. file_metadata TempFile))" by (simp add: keeping)
  from readsD[OF this 1(3)] write_all_Inr[OF 1(2)] 1(1) show ?thesis by auto
qed

lemma rename_temp_cases:
  assumes "rename_temp d = (r, d')"
  shows "(\<exists>x. r = Inl x) \<and> cd_entries d' StateFile = cd_entries d StateFile
    \<or> r = Inr () \<and> cd_entries d' StateFile = cd_entries d TempFile"
  using assms by (auto simp: rename_temp_def bind_op_def io_call_def get_entry_def existing_def fail_op_def ret_op_def put_entry_def
      split: option.splits prod.splits sum.splits if_splits)

text \<open>Writing is atomic for the reader: the old file or the whole new one, the new one if all went well.\<close>

lemma write_state_cases:
  assumes "write_state X node rs d = (r, d')"
  shows "(\<exists>x. r = Inl x) \<and> cd_entries d' StateFile = cd_entries d StateFile
    \<or> (\<exists>e. cd_entries d' StateFile = Some e \<and> encode_state X node rs = Inr (en_data e))"
proof -
  obtain r1 d1 where 1: "write_temp X node rs d = (r1, d1)" by fastforce
  note k = keepsD[OF write_temp_keeps 1]
  show ?thesis
  proof (cases r1)
    case (Inl x)
    then show ?thesis using assms 1 k by (auto simp: write_state_def bind_op_def)
  next
    case (Inr u)
    obtain e where e: "cd_entries d1 TempFile = Some e" "encode_state X node rs = Inr (en_data e)"
      using write_temp_Inr[of X node rs d d1] 1 Inr by auto
    obtain r2 d2 where 2: "rename_temp d1 = (r2, d2)" by fastforce
    show ?thesis
    proof (cases r2)
      case (Inl x)
      then show ?thesis using assms 1 2 \<open>r1 = Inr u\<close> k rename_temp_cases[OF 2] by (auto simp: write_state_def bind_op_def)
    next
      case (Inr v)
      obtain r3 where 3: "sync_directory d2 = (r3, d')" using assms 1 2 \<open>r1 = Inr u\<close> Inr by (simp add: write_state_def bind_op_def)
      show ?thesis using readsD[OF reads_ops(5) 3] rename_temp_cases[OF 2] Inr e by auto
    qed
  qed
qed

lemma write_state_stored:
  assumes "write_state X node rs d = (r, d')" "digest_size X" "length node = 32" "\<forall>r \<in> set rs. record_wf r"
  shows "(\<exists>x. r = Inl x) \<and> stored X node d' = stored X node d \<and> cd_entries d' StateFile = cd_entries d StateFile
    \<or> stored X node d' = Some rs"
  using write_state_cases[OF assms(1)]
proof
  assume "(\<exists>x. r = Inl x) \<and> cd_entries d' StateFile = cd_entries d StateFile"
  then show ?thesis by (auto dest: stored_cong)
next
  assume "\<exists>e. cd_entries d' StateFile = Some e \<and> encode_state X node rs = Inr (en_data e)"
  then obtain e where e: "cd_entries d' StateFile = Some e" "encode_state X node rs = Inr (en_data e)" by blast
  then have "decode_state X (en_data e) node = Inr rs" using state_file_exact[OF assms(2,3), of "en_data e" rs] assms(4) by simp
  then show ?thesis using e by (simp add: stored_def)
qed

subsection \<open>The outcomes of a call\<close>

definition overlap :: "stored_record \<Rightarrow> stored_record \<Rightarrow> bool" where
  "overlap r q = (matches_key r (sr_rights_key q) \<or> matches_key r (sr_release_key q) \<or> sr_audit_id r = sr_audit_id q)"

lemma call_record_sel [simp]:
  "sr_rights_key (call_record call) = cl_key (rc_rights_claim call)" "sr_release_key (call_record call) = cl_key (rc_release_claim call)"
  "sr_audit_id (call_record call) = rc_audit_id call" "sr_operation_hash (call_record call) = rc_operation_hash call"
  "sr_contribution (call_record call) = None" "is_record_of call (call_record call)"
  by (simp_all add: call_record_def claim_only_def is_record_of_def)

lemma conflict_iff:
  "has_conflicting_active_record rs (cl_key (rc_rights_claim call)) (cl_key (rc_release_claim call)) (rc_audit_id call) now
   \<longleftrightarrow> (\<exists>r \<in> set rs. any_active now r \<and> overlap r (call_record call))"
  by (auto simp: has_conflicting_active_record_def list_ex_iff overlap_def)

lemma find_exact_Some:
  "find_exact_record_index i ex rs k l a h now = Inr (Some j)
   \<Longrightarrow> ex = Some j \<or> (i \<le> j \<and> j < i + length rs \<and> any_active now (rs ! (j - i)) \<and> sr_rights_key (rs ! (j - i)) = k
      \<and> sr_release_key (rs ! (j - i)) = l \<and> sr_audit_id (rs ! (j - i)) = a \<and> sr_operation_hash (rs ! (j - i)) = h)"
proof (induction i ex rs k l a h now rule: find_exact_record_index.induct)
  case (2 i ex r rs k l a h now)
  have s: "(r # rs) ! (j - i) = rs ! (j - Suc i)" if "Suc i \<le> j" using that by (simp add: nth_Cons' Suc_diff_le)
  show ?case
    using 2 s by (auto split: if_splits simp: Suc_le_eq)
qed simp

lemma find_exact_call:
  assumes "find_exact_record_index 0 None rs (cl_key (rc_rights_claim call)) (cl_key (rc_release_claim call)) (rc_audit_id call)
      (rc_operation_hash call) now = Inr (Some j)"
  shows "rs ! j \<in> set rs \<and> any_active now (rs ! j) \<and> is_record_of call (rs ! j)"
  using find_exact_Some[OF assms] by (auto simp: is_record_of_def)

lemma set_contribution_Some:
  "set_contribution call b rs = Some rs' \<Longrightarrow> \<exists>xs r ys. rs = xs @ r # ys \<and> is_record_of call r
     \<and> rs' = xs @ r\<lparr>sr_contribution := Some b\<rparr> # ys"
proof (induction rs arbitrary: rs')
  case (Cons r rs)
  show ?case
  proof (cases "is_record_of call r")
    case True
    then show ?thesis using Cons.prems by (intro exI[of _ "[]"]) auto
  next
    case False
    then obtain q where "set_contribution call b rs = Some q" "rs' = r # q" using Cons.prems by auto
    with Cons.IH[OF this(1)] show ?thesis by (metis append_Cons)
  qed
qed simp

definition call_wf :: "'c release_call \<Rightarrow> bool" where
  "call_wf call = record_wf (call_record call)"

text \<open>
  What can have happened: nothing was written; nothing was written and the stored contribution is returned; the claim
  was added to the active records; or the claim with its contribution.
\<close>

definition outcome ::
    "externals \<Rightarrow> 'c contribution_codec \<Rightarrow> bytes \<Rightarrow> 'c release_call \<Rightarrow> u64 \<Rightarrow> claim_dir \<Rightarrow> custody_error + 'c \<Rightarrow> claim_dir \<Rightarrow> bool" where
  "outcome X C node call now d res d' =
     (cd_entries d' StateFile = cd_entries d StateFile \<and>
        (case res of Inl e \<Rightarrow> True
         | Inr c \<Rightarrow> (\<exists>rs r b. stored X node d = Some rs \<and> r \<in> set rs \<and> any_active now r \<and> is_record_of call r
              \<and> sr_contribution r = Some b \<and> cc_parse C b = Inr c))
      \<or> (\<exists>rs active rs'. stored X node d = Some rs \<and> active = filter (any_active now) rs
           \<and> (\<forall>r \<in> set active. \<not> overlap r (call_record call))
           \<and> stored X node d' = Some rs'
           \<and> (set rs' = insert (call_record call) (set active) \<and> (\<exists>e. res = Inl e)
              \<or> (\<exists>b. set rs' = insert ((call_record call)\<lparr>sr_contribution := Some b\<rparr>) (set active)
                    \<and> (\<forall>c. res = Inr c \<longrightarrow> cc_canonical C c = Inr b)))))"

lemma outcome_cong:
  "cd_entries d1 StateFile = cd_entries d StateFile \<Longrightarrow> outcome X C node call now d1 res d' = outcome X C node call now d res d'"
  using stored_cong[of d1 d X node] unfolding outcome_def by (simp only:)

lemma replay_exact_Inr:
  "replay_exact_contribution C r db call = Inr c \<Longrightarrow> \<exists>b. sr_contribution r = Some b \<and> cc_parse C b = Inr c"
  by (auto simp: replay_exact_contribution_def andthen_Inr split: option.splits)

lemma overlap_self: "is_record_of call r \<Longrightarrow> overlap r (call_record call)"
  by (simp add: overlap_def matches_key_def is_record_of_def)

lemma set_around: "\<lbrakk>distinct (xs @ r # ys); set (xs @ r # ys) = insert r A; r \<notin> A\<rbrakk> \<Longrightarrow> set xs \<union> set ys = A"
  by auto

lemma release_claimed_outcome:
  assumes "release_claimed X C node call recs d = (res, d')" "digest_size X" "length node = 32" "\<forall>r \<in> set recs. record_wf r"
    and "stored X node d = Some recs"
    and s: "set recs = insert (call_record call) A" "\<forall>r \<in> A. \<not> is_record_of call r" and dist: "distinct recs"
  shows "\<exists>rs'. stored X node d' = Some rs' \<and> (rs' = recs \<and> (\<exists>e. res = Inl e)
     \<or> (\<exists>b. set rs' = insert ((call_record call)\<lparr>sr_contribution := Some b\<rparr>) A \<and> (\<forall>c. res = Inr c \<longrightarrow> cc_canonical C c = Inr b)))"
proof (cases "andthen (rc_produce call) (\<lambda>c. andthen (cc_canonical C c) (\<lambda>b. Inr (c, b)))")
  case (Inl e)
  then show ?thesis using assms(1,5) by (auto simp: release_claimed_def)
next
  case (Inr p)
  then obtain c b where p: "p = (c, b)" "cc_canonical C c = Inr b" by (auto simp: andthen_Inr)
  show ?thesis
  proof (cases "set_contribution call b recs")
    case None
    then show ?thesis using assms(1,5) Inr p by (auto simp: release_claimed_def)
  next
    case (Some new)
    obtain xs r ys where x: "recs = xs @ r # ys" "is_record_of call r" "new = xs @ r\<lparr>sr_contribution := Some b\<rparr> # ys"
      using set_contribution_Some[OF Some] by blast
    have "r = call_record call" using x s by auto
    moreover have "call_record call \<notin> A" using s(2) call_record_sel(6)[of call] by blast
    then have "set xs \<union> set ys = A" using set_around[of xs r ys A] dist s(1) x(1) \<open>r = call_record call\<close> by simp
    ultimately have set_new: "set new = insert ((call_record call)\<lparr>sr_contribution := Some b\<rparr>) A" by (auto simp: x(3))
    have wf: "\<forall>r \<in> set new. record_wf r" using assms(4) x by (auto simp: record_wf_def)
    obtain w d1 where w: "write_state X node new d = (w, d1)" by fastforce
    have r: "d' = d1" "res = (case w of Inl e \<Rightarrow> Inl (CeReplay e) | Inr _ \<Rightarrow> Inr c)"
      using assms(1) Inr p Some w by (auto simp: release_claimed_def split: sum.splits)
    from write_state_stored[OF w assms(2,3) wf] show ?thesis
      using r set_new p(2) assms(5) by (auto split: sum.splits)
  qed
qed

lemma stored_distinct: "\<lbrakk>digest_size X; stored X node d = Some rs\<rbrakk> \<Longrightarrow> distinct rs"
  using decode_records_Inr encode_records_sorted
  by (fastforce simp: stored_def decode_state_Inr split: option.splits sum.splits)

lemma claim_new_outcome:
  assumes c: "claim_new X C node call active d = (res, d')" and x: "digest_size X" "length node = 32"
    and wf: "call_wf call" "\<forall>r \<in> set active. record_wf r" and free: "\<forall>r \<in> set active. \<not> overlap r (call_record call)"
    and st: "stored X node d = Some rs" "active = filter (any_active now) rs"
  shows "outcome X C node call now d res d'"
proof -
  define recs where "recs = sort_key record_sort_key (active @ [call_record call])"
  have rs: "set recs = insert (call_record call) (set active)" by (auto simp: recs_def)
  have w: "\<forall>r \<in> set recs. record_wf r" using wf rs by (auto simp: call_wf_def)
  show ?thesis
  proof (cases "length recs > MAX_NODE_RELEASE_RECORDS")
    case True
    then show ?thesis using c by (auto simp: claim_new_def recs_def[symmetric] Let_def outcome_def)
  next
    case False
    obtain r1 d1 where 1: "write_state X node recs d = (r1, d1)" by fastforce
    note s1 = write_state_stored[OF 1 x w]
    show ?thesis
    proof (cases r1)
      case (Inl e)
      then have "res = Inl (CeReplay e)" "d' = d1" using c False 1 by (auto simp: claim_new_def recs_def[symmetric] Let_def)
      then show ?thesis using s1 rs st free by (fastforce simp: outcome_def)
    next
      case (Inr u)
      then have r: "release_claimed X C node call recs d1 = (res, d')" and t: "stored X node d1 = Some recs"
        using c False 1 s1 by (auto simp: claim_new_def recs_def[symmetric] Let_def)
      have "\<forall>r \<in> set active. \<not> is_record_of call r" using free overlap_self by blast
      from release_claimed_outcome[OF r x w t rs this stored_distinct[OF x(1) t]] show ?thesis
        using st free rs by (auto simp: outcome_def)
    qed
  qed
qed

lemma claim_or_replay_outcome:
  assumes "claim_or_replay X C node call now d = (res, d')" "digest_size X" "length node = 32" "call_wf call"
  shows "outcome X C node call now d res d'"
proof (cases "rc_randomness call")
  case False
  then show ?thesis using assms(1) by (auto simp: claim_or_replay_def outcome_def)
next
  case rnd: True
  show ?thesis
  proof (cases "check_call node call")
    case (Inl e)
    then show ?thesis using assms(1) rnd by (auto simp: claim_or_replay_def outcome_def)
  next
    case (Inr db)
    obtain r1 d1 where 1: "open_store X node now d = (r1, d1)" by fastforce
    note k = keepsD[OF open_store_keeps 1]
    let ?find = "\<lambda>rs. find_exact_record_index 0 None rs (cl_key (rc_rights_claim call)) (cl_key (rc_release_claim call))
      (rc_audit_id call) (rc_operation_hash call) now"
    show ?thesis
    proof (cases r1)
      case (Inl e)
      then show ?thesis using assms(1) rnd \<open>check_call node call = Inr db\<close> 1 k by (auto simp: claim_or_replay_def outcome_def)
    next
      case (Inr active)
      obtain rs where rs: "stored X node d = Some rs" "active = filter (any_active now) rs"
        using open_store_Inr[of X node now d active d1] 1 Inr by auto
      have st: "stored X node d1 = Some rs" using rs(1) k stored_cong by metis
      have run: "(case ?find active of Inl e \<Rightarrow> (Inl (CeReplay e), d1)
          | Inr (Some index) \<Rightarrow> (replay_exact_contribution C (active ! index) db call, d1)
          | Inr None \<Rightarrow> if has_conflicting_active_record active (cl_key (rc_rights_claim call)) (cl_key (rc_release_claim call))
                (rc_audit_id call) now then (Inl (CeReplay Unavailable), d1)
              else claim_new X C node call active d1) = (res, d')"
        using assms(1) rnd \<open>check_call node call = Inr db\<close> 1 Inr by (simp add: claim_or_replay_def Let_def)
      note ci = conflict_iff[of active call now]
      consider (bad) e where "?find active = Inl e" | (exact) j where "?find active = Inr (Some j)" | (none) "?find active = Inr None"
        by (metis not_Some_eq sum.exhaust)
      then show ?thesis
      proof cases
        case bad
        then show ?thesis using run k by (auto simp: outcome_def)
      next
        case exact
        note f = find_exact_call[OF exact]
        have "active ! j \<in> set rs" using f rs(2) by auto
        then show ?thesis using run exact k f rs(1)
          by (auto simp: outcome_def split: sum.split dest!: replay_exact_Inr)
      next
        case none
        show ?thesis
        proof (cases "\<exists>r \<in> set active. any_active now r \<and> overlap r (call_record call)")
          case True
          then have "has_conflicting_active_record active (cl_key (rc_rights_claim call)) (cl_key (rc_release_claim call))
              (rc_audit_id call) now" using ci by blast
          then show ?thesis using run none k by (auto simp: outcome_def)
        next
          case False
          then have free: "\<forall>r \<in> set active. \<not> overlap r (call_record call)" using rs(2) by auto
          have c: "claim_new X C node call active d1 = (res, d')" using run none False ci by simp
          have "\<forall>r \<in> set active. record_wf r" using stored_wf[OF assms(2) rs(1)] rs(2) by auto
          from claim_new_outcome[OF c assms(2,3,4) this free st rs(2)] show ?thesis
            unfolding outcome_cong[OF k] .
        qed
      qed
    qed
  qed
qed

subsection \<open>At most one release\<close>

lemma overlap_sym: "overlap r q \<longleftrightarrow> overlap q r"
  by (auto simp: overlap_def matches_key_def)

lemma overlap_contribution [simp]:
  "overlap (r\<lparr>sr_contribution := x\<rparr>) q = overlap r q" "overlap q (r\<lparr>sr_contribution := x\<rparr>) = overlap q r"
  by (auto simp: overlap_def matches_key_def)

lemma overlap_record_of: "is_record_of call r \<Longrightarrow> overlap r q = overlap (call_record call) q"
  by (simp add: overlap_def matches_key_def is_record_of_def)

text \<open>Different stored claims have nothing in common.\<close>

definition store_ok :: "externals \<Rightarrow> bytes \<Rightarrow> claim_dir \<Rightarrow> bool" where
  "store_ok X node d = (\<forall>rs. stored X node d = Some rs \<longrightarrow> (\<forall>r \<in> set rs. \<forall>q \<in> set rs. r \<noteq> q \<longrightarrow> \<not> overlap r q))"

lemma outcome_store_ok:
  assumes "outcome X C node call now d res d'" "store_ok X node d"
  shows "store_ok X node d'"
proof -
  have new: "store_ok X node d'" if "stored X node d = Some rs" "\<forall>r \<in> set (filter (any_active now) rs). \<not> overlap r (call_record call)"
      "stored X node d' = Some rs'" "set rs' = insert ((call_record call)\<lparr>sr_contribution := x\<rparr>) (set (filter (any_active now) rs))" for rs rs' x
  proof -
    have f: "\<not> overlap r (call_record call) \<and> \<not> overlap (call_record call) r" if "r \<in> set (filter (any_active now) rs)" for r
      using that \<open>\<forall>r \<in> set (filter (any_active now) rs). \<not> overlap r (call_record call)\<close> overlap_sym by blast
    have o: "\<not> overlap r q" if "r \<in> set rs" "q \<in> set rs" "r \<noteq> q" for r q
      using that assms(2) \<open>stored X node d = Some rs\<close> by (simp add: store_ok_def)
    show ?thesis using that(3,4) f o by (simp add: store_ok_def)
  qed
  have n: "(call_record call)\<lparr>sr_contribution := None\<rparr> = call_record call" by (simp add: call_record_def claim_only_def)
  from assms(1) consider (same) "cd_entries d' StateFile = cd_entries d StateFile"
    | (claimed) rs rs' where "stored X node d = Some rs" "\<forall>r \<in> set (filter (any_active now) rs). \<not> overlap r (call_record call)"
      "stored X node d' = Some rs'" "set rs' = insert (call_record call) (set (filter (any_active now) rs))"
    | (released) rs rs' b where "stored X node d = Some rs" "\<forall>r \<in> set (filter (any_active now) rs). \<not> overlap r (call_record call)"
      "stored X node d' = Some rs'" "set rs' = insert ((call_record call)\<lparr>sr_contribution := Some b\<rparr>) (set (filter (any_active now) rs))"
    unfolding outcome_def by blast
  then show ?thesis
  proof cases
    case same
    then show ?thesis using assms(2) by (simp add: store_ok_def stored_def)
  next
    case claimed
    then show ?thesis using new[of rs rs' None] by (simp only: n)
  qed (rule new)
qed

lemma outcome_keeps_active:
  assumes "outcome X C node call now d res d'" "stored X node d = Some rs" "r \<in> set rs" "any_active now r"
  shows "\<exists>rs'. stored X node d' = Some rs' \<and> r \<in> set rs'"
  using assms(1)
proof (unfold outcome_def, elim disjE)
  assume "cd_entries d' StateFile = cd_entries d StateFile \<and> (case res of Inl e \<Rightarrow> True
      | Inr c \<Rightarrow> (\<exists>rs r b. stored X node d = Some rs \<and> r \<in> set rs \<and> any_active now r \<and> is_record_of call r
              \<and> sr_contribution r = Some b \<and> cc_parse C b = Inr c))"
  then show ?thesis using assms(2,3) stored_cong by metis
qed (use assms in auto)

lemma outcome_owned:
  assumes o: "outcome X C node call now d res d'" and ok: "store_ok X node d"
    and r: "stored X node d = Some rs" "r \<in> set rs" "any_active now r" "overlap r (call_record call)"
  shows "cd_entries d' StateFile = cd_entries d StateFile
    \<and> (\<forall>c. res = Inr c \<longrightarrow> is_record_of call r \<and> (\<exists>b. sr_contribution r = Some b \<and> cc_parse C b = Inr c))"
proof -
  have "q = r" if "q \<in> set rs" "is_record_of call q" for q
    using ok r that overlap_record_of[OF that(2), of r] overlap_sym unfolding store_ok_def by metis
  then show ?thesis using o r unfolding outcome_def by (auto split: sum.splits)
qed

text \<open>Calls of anyone on the store while a claim is active: the clock of each lies before the claim's expiry.\<close>

inductive while_active ::
    "externals \<Rightarrow> 'c contribution_codec \<Rightarrow> bytes \<Rightarrow> stored_record \<Rightarrow> claim_dir \<Rightarrow> claim_dir \<Rightarrow> bool" for X C node r d where
  no_call: "while_active X C node r d d"
| next_call: "\<lbrakk>while_active X C node r d d1; call_wf call; any_active now r\<rbrakk>
    \<Longrightarrow> while_active X C node r d (snd (claim_or_replay X C node call now d1))"

lemma while_active_keeps:
  assumes "while_active X C node r d d'" "digest_size X" "length node = 32" "store_ok X node d" "stored X node d = Some rs" "r \<in> set rs"
  shows "store_ok X node d' \<and> (\<exists>rs'. stored X node d' = Some rs' \<and> r \<in> set rs')"
  using assms(1)
proof induction
  case (next_call d1 call now)
  from claim_or_replay_outcome[OF surjective_pairing assms(2,3) next_call(2), of C now d1] next_call(3,4) show ?case
    using outcome_store_ok outcome_keeps_active by blast
qed (use assms in auto)

lemma release_is_stored:
  assumes "claim_or_replay X C node call now d = (Inr c, d')" "digest_size X" "length node = 32" "contribution_law C" "call_wf call"
  shows "\<exists>rs r b. stored X node d' = Some rs \<and> r \<in> set rs \<and> is_record_of call r \<and> sr_contribution r = Some b \<and> cc_parse C b = Inr c"
  using claim_or_replay_outcome[OF assms(1-3,5)] unfolding outcome_def
proof (elim disjE conjE exE)
  fix rs active rs' b
  assume st: "stored X node d' = Some rs'" "set rs' = insert ((call_record call)\<lparr>sr_contribution := Some b\<rparr>) (set active)"
    and c: "\<forall>c'. (Inr c :: custody_error + _) = Inr c' \<longrightarrow> cc_canonical C c' = Inr b"
  have "cc_parse C b = Inr c" using c assms(4) by (simp add: contribution_law_def)
  then show ?thesis using st
    by (intro exI[of _ rs'] exI[of _ "(call_record call)\<lparr>sr_contribution := Some b\<rparr>"] exI[of _ b]) (simp add: is_record_of_def)
qed (auto simp: stored_def)

text \<open>
  Property C7. A node releases at most one contribution for a claim. When a call has returned a contribution, then, while
  its claim is active and whatever other calls come in between, whatever calls of the file system fail, a call
  that shares a key or the audit identifier with it either fails or is the same operation and returns the
  same contribution again, and it leaves the stored claims as they are.
\<close>

theorem released_at_most_once:
  assumes "digest_size X" "length node = 32" "contribution_law C" "store_ok X node d"
    and first: "call_wf call" "claim_or_replay X C node call now d = (Inr c, d1)"
    and claim: "stored X node d1 = Some rs" "r \<in> set rs" "is_record_of call r"
    and between: "while_active X C node r d1 d2"
    and second: "call_wf call2" "overlap (call_record call) (call_record call2)" "any_active now2 r"
      "claim_or_replay X C node call2 now2 d2 = (Inr c2, d3)"
  shows "c2 = c \<and> rc_operation_hash call2 = rc_operation_hash call \<and> cd_entries d3 StateFile = cd_entries d2 StateFile"
proof -
  have ok1: "store_ok X node d1"
    using outcome_store_ok[OF claim_or_replay_outcome[OF first(2) assms(1,2) first(1)] assms(4)] .
  obtain q b where q: "q \<in> set rs" "is_record_of call q" "sr_contribution q = Some b" "cc_parse C b = Inr c"
    using release_is_stored[OF first(2) assms(1,2,3) first(1)] claim(1) by auto
  have "q = r" using ok1 claim q(1,2) overlap_record_of[OF q(2), of r] overlap_self[OF claim(3)] overlap_sym
    unfolding store_ok_def by metis
  obtain rs2 where s2: "store_ok X node d2" "stored X node d2 = Some rs2" "r \<in> set rs2"
    using while_active_keeps[OF between assms(1,2) ok1 claim(1,2)] by auto
  have "overlap r (call_record call2)" using overlap_record_of[OF claim(3)] second(2) by simp
  from outcome_owned[OF claim_or_replay_outcome[OF second(4) assms(1,2) second(1)] s2 second(3) this]
  show ?thesis using q(3,4) \<open>q = r\<close> claim(3) by (auto simp: is_record_of_def)
qed

text \<open>
  Property C8. A claim that has no result yet blocks. While a stored claim is active, a call that overlaps it without
  being its own operation, or before its contribution is stored (the process died while producing it), is refused and
  changes no claim: the node fails closed rather than release a second time.
\<close>

theorem claim_fails_closed:
  assumes "digest_size X" "length node = 32" "call_wf call" "store_ok X node d"
    and "stored X node d = Some rs" "r \<in> set rs" "any_active now r" "overlap r (call_record call)"
    and "sr_contribution r = None \<or> \<not> is_record_of call r"
  shows "\<exists>e d'. claim_or_replay X C node call now d = (Inl e, d') \<and> cd_entries d' StateFile = cd_entries d StateFile"
proof -
  obtain res d' where c: "claim_or_replay X C node call now d = (res, d')" by fastforce
  from outcome_owned[OF claim_or_replay_outcome[OF c assms(1-3)] assms(4-8)] assms(9) c show ?thesis
    by (cases res) auto
qed

subsection \<open>Calls that succeed\<close>

definition file_ok :: "u32 \<Rightarrow> disk_entry \<Rightarrow> bool" where
  "file_ok euid e = (en_kind e = RegularFile \<and> en_uid e = euid \<and> en_mode e AND 0x1FF = 0x180 \<and> en_nlink e = 1)"

definition dir_ok :: "u32 \<Rightarrow> disk_entry \<Rightarrow> bool" where
  "dir_ok euid e = (en_kind e = DirectoryKind \<and> en_uid e = euid \<and> en_mode e AND 0x1FF = 0x1C0)"

text \<open>A directory in order on a file system without failures.\<close>

definition healthy :: "claim_dir \<Rightarrow> bool" where
  "healthy d = ((\<forall>n. cd_io d n) \<and> (\<exists>e. cd_entries d ParentDir = Some e \<and> dir_ok (cd_euid d) e)
     \<and> (\<forall>e. cd_entries d StateDir = Some e \<longrightarrow> dir_ok (cd_euid d) e)
     \<and> (\<forall>e. cd_entries d LockFile = Some e \<longrightarrow> file_ok (cd_euid d) e)
     \<and> (\<forall>e. cd_entries d StateFile = Some e \<longrightarrow> file_ok (cd_euid d) e \<and> length (en_data e) \<le> MAX_STATE_BYTES)
     \<and> (\<forall>e. cd_entries d TempFile = Some e \<longrightarrow> file_ok (cd_euid d) e))"

definition opened :: "claim_dir \<Rightarrow> bool" where
  "opened d = (healthy d \<and> cd_entries d StateDir \<noteq> None \<and> cd_entries d TempFile = None)"

lemmas op_defs = bind_op_def io_call_def get_entry_def put_entry_def get_euid_def ret_op_def lift_op_def require_def existing_def
  symlink_metadata_def sync_directory_def validate_owner_and_mode_def validate_owner_only_directory_metadata_def
  validate_owner_only_regular_file_metadata_def validate_owner_only_directory_def file_metadata_def create_new_file_def
  open_owner_only_file_def

lemma ok_ensure:
  assumes "healthy d"
  shows "\<exists>d'. ensure_state_dir d = (Inr (), d') \<and> healthy d' \<and> cd_entries d' StateDir \<noteq> None
    \<and> cd_entries d' StateFile = cd_entries d StateFile"
  using assms
  by (cases "cd_entries d StateDir")
    (auto simp: ensure_state_dir_def create_owner_only_directory_def op_defs healthy_def dir_ok_def)

lemma ok_lock:
  assumes "healthy d" "cd_entries d StateDir \<noteq> None"
  shows "\<exists>d'. acquire_lock d = (Inr (), d') \<and> healthy d' \<and> cd_entries d' StateDir \<noteq> None
    \<and> cd_entries d' StateFile = cd_entries d StateFile"
  using assms
  by (cases "cd_entries d LockFile")
    (auto simp: acquire_lock_def open_or_create_owner_only_lock_file_def op_defs healthy_def dir_ok_def file_ok_def)

lemma ok_cleanup:
  assumes "healthy d" "cd_entries d StateDir \<noteq> None"
  shows "\<exists>d'. cleanup_stale_temp d = (Inr (), d') \<and> opened d' \<and> cd_entries d' StateFile = cd_entries d StateFile"
  using assms
  by (cases "cd_entries d TempFile")
    (auto simp: cleanup_stale_temp_def opened_def op_defs healthy_def dir_ok_def file_ok_def)

lemma ok_read:
  assumes "opened d" "stored X node d = Some rs"
  shows "\<exists>d'. read_state X node d = (Inr rs, d') \<and> opened d' \<and> cd_entries d' StateFile = cd_entries d StateFile"
  using assms
  by (cases "cd_entries d StateFile")
    (auto simp: read_state_def opened_def op_defs healthy_def dir_ok_def file_ok_def stored_def split: sum.splits)

lemma ok_open:
  assumes "healthy d" "stored X node d = Some rs"
  shows "\<exists>d'. open_store X node now d = (Inr (filter (any_active now) rs), d') \<and> opened d'
    \<and> cd_entries d' StateFile = cd_entries d StateFile"
proof -
  obtain d1 where 1: "ensure_state_dir d = (Inr (), d1)" "healthy d1" "cd_entries d1 StateDir \<noteq> None"
      "cd_entries d1 StateFile = cd_entries d StateFile" using ok_ensure[OF assms(1)] by blast
  obtain d2 where 2: "acquire_lock d1 = (Inr (), d2)" "healthy d2" "cd_entries d2 StateDir \<noteq> None"
      "cd_entries d2 StateFile = cd_entries d1 StateFile" using ok_lock[OF 1(2,3)] by blast
  obtain d3 where 3: "cleanup_stale_temp d2 = (Inr (), d3)" "opened d3" "cd_entries d3 StateFile = cd_entries d2 StateFile"
    using ok_cleanup[OF 2(2,3)] by blast
  have "stored X node d3 = Some rs" using assms(2) 1(4) 2(4) 3(3) by (simp add: stored_def)
  from ok_read[OF 3(2) this] obtain d4 where 4: "read_state X node d3 = (Inr rs, d4)" "opened d4"
      "cd_entries d4 StateFile = cd_entries d3 StateFile" by blast
  show ?thesis using 1 2 3 4 by (simp add: open_store_def bind_op_def ret_op_def)
qed

lemma ok_write_temp:
  assumes "opened d" "encode_state X node rs = Inr b"
  shows "\<exists>d' e. write_temp X node rs d = (Inr (), d') \<and> healthy d' \<and> cd_entries d' StateDir \<noteq> None
    \<and> cd_entries d' TempFile = Some e \<and> en_data e = b \<and> file_ok (cd_euid d') e"
  using assms
  by (cases "cd_entries d StateFile")
    (auto simp: write_temp_def open_owner_only_temp_file_for_write_def write_all_def opened_def op_defs healthy_def dir_ok_def
      file_ok_def Let_def)

lemma ok_write:
  assumes "opened d" "encode_state X node rs = Inr b" "digest_size X" "length node = 32" "\<forall>r \<in> set rs. record_wf r"
  shows "\<exists>d'. write_state X node rs d = (Inr (), d') \<and> opened d' \<and> stored X node d' = Some rs"
proof -
  have dec: "decode_state X b node = Inr rs" "length b \<le> MAX_STATE_BYTES"
    using state_file_exact[OF assms(3,4), of b rs] assms(2,5) by auto
  obtain d1 e where 1: "write_temp X node rs d = (Inr (), d1)" "healthy d1" "cd_entries d1 StateDir \<noteq> None"
      "cd_entries d1 TempFile = Some e" "en_data e = b" "file_ok (cd_euid d1) e" using ok_write_temp[OF assms(1,2)] by blast
  then show ?thesis using dec
    by (auto simp: write_state_def rename_temp_def op_defs healthy_def opened_def stored_def)
qed

text \<open>The stored records are in strict order; adding one whose keys are new keeps it.\<close>

lemma stored_facts:
  assumes "digest_size X" "stored X node d = Some rs"
  shows "sorted_wrt (<) (map record_sort_key rs)" "\<forall>r \<in> set rs. record_wf r \<and> contribution_fits r"
proof -
  have c: "rs = [] \<or> (\<exists>b. encode_records None rs = Inr b) \<and> (\<forall>r \<in> set rs. record_wf r)"
    using assms decode_records_Inr by (fastforce simp: stored_def decode_state_Inr split: option.splits sum.splits)
  then show "sorted_wrt (<) (map record_sort_key rs)" by (auto dest: encode_records_strict)
  have "encode_records prev qs = Inr b \<Longrightarrow> \<forall>r \<in> set qs. contribution_fits r" for prev qs b
    by (induction prev qs arbitrary: b rule: encode_records.induct)
      (auto simp: andthen_Inr encode_record_Inr encode_contribution_Inr contribution_fits_def)
  then show "\<forall>r \<in> set rs. record_wf r \<and> contribution_fits r" using c by auto
qed

lemma sort_key_strict: "distinct (map f xs) \<Longrightarrow> sorted_wrt (<) (map f (sort_key f xs))"
proof -
  assume "distinct (map f xs)"
  then have "distinct (map f (sort_key f xs))"
    using distinct_map[of f xs] by (simp add: distinct_map)
  then show ?thesis by (simp add: strict_sorted_iff)
qed

lemma sort_key_overlap:
  "\<lbrakk>record_sort_key r = record_sort_key q; record_wf r; record_wf q\<rbrakk> \<Longrightarrow> overlap r q"
  by (auto simp: record_sort_key_def replay_claim_sort_key_def record_wf_def key_wf_def overlap_def matches_key_def
      intro!: claim_key.equality)

lemma claimed_list:
  assumes "digest_size X" "stored X node d = Some rs" "call_wf call"
    and "\<forall>r \<in> set (filter P rs). \<not> overlap r (call_record call)"
  shows "sorted_wrt (<) (map record_sort_key (sort_key record_sort_key (filter P rs @ [call_record call])))"
proof (rule sort_key_strict)
  have "distinct (map record_sort_key rs)" using stored_facts(1)[OF assms(1,2)] by (simp add: strict_sorted_iff)
  then have "distinct (map record_sort_key (filter P rs))" by (rule distinct_map_filter)
  moreover have "record_sort_key (call_record call) \<notin> record_sort_key ` set (filter P rs)"
    using sort_key_overlap stored_facts(2)[OF assms(1,2)] assms(3,4) by (fastforce simp: call_wf_def)
  ultimately show "distinct (map record_sort_key (filter P rs @ [call_record call]))" by simp
qed

lemma sum_list_sort_key: "sum_list (map g (sort_key f xs)) = (sum_list (map g xs) :: nat)"
proof (induction xs)
  case (Cons x xs)
  have "sum_list (map g (insort_key f x ys)) = g x + sum_list (map g ys)" for ys by (induction ys) simp_all
  then show ?case using Cons by simp
qed simp

lemma find_exact_none:
  "\<forall>r \<in> set rs. \<not> overlap r (call_record call)
   \<Longrightarrow> find_exact_record_index i ex rs (cl_key (rc_rights_claim call)) (cl_key (rc_release_claim call)) (rc_audit_id call)
        (rc_operation_hash call) now = Inr ex"
  by (induction rs arbitrary: i ex) (auto simp: overlap_def matches_key_def)

lemma set_contribution_exists:
  assumes "call_record call \<in> set recs"
  shows "\<exists>new. set_contribution call b recs = Some new"
  using assms by (induction recs) auto

lemma sum_sizes_set:
  "sum_list (map record_size (xs @ r\<lparr>sr_contribution := Some b\<rparr> # ys)) + (case sr_contribution r of None \<Rightarrow> 0 | Some c \<Rightarrow> length c)
   = sum_list (map record_size (xs @ r # ys)) + length b"
  by (simp add: record_size_def split: option.split)

text \<open>
  Property C11. A free claim is released. On a file system that works, a call that passes its checks and overlaps no active claim
  returns the contribution that is produced, and stores it, provided there is room for one more record with its bytes.
\<close>

theorem free_claim_is_released:
  assumes X: "digest_size X" "length node = 32" and d: "healthy d" "stored X node d = Some rs"
    and call: "rc_randomness call" "check_call node call = Inr decision" "call_wf call"
    and free: "\<forall>r \<in> set (filter (any_active now) rs). \<not> overlap r (call_record call)"
    and made: "rc_produce call = Inr c" "cc_canonical C c = Inr b" "b \<noteq> []" "length b \<le> MAX_STORED_CONTRIBUTION_BYTES"
    and room: "length (filter (any_active now) rs) < MAX_NODE_RELEASE_RECORDS"
      "sum_list (map record_size (filter (any_active now) rs)) + STATE_RECORD_FIXED_BYTES + length b + STATE_HEADER_BYTES
        + STATE_DIGEST_BYTES \<le> MAX_STATE_BYTES"
  shows "\<exists>d' rs'. claim_or_replay X C node call now d = (Inr c, d') \<and> healthy d' \<and> stored X node d' = Some rs'
    \<and> set rs' = insert ((call_record call)\<lparr>sr_contribution := Some b\<rparr>) (set (filter (any_active now) rs))"
proof -
  define active where "active = filter (any_active now) rs"
  define recs where "recs = sort_key record_sort_key (active @ [call_record call])"
  have in_recs: "set recs = insert (call_record call) (set active)" by (auto simp: recs_def)
  have size_call: "record_size (call_record call) = STATE_RECORD_FIXED_BYTES" by (simp add: record_size_def)
  have sizes: "sum_list (map record_size recs) = sum_list (map record_size active) + STATE_RECORD_FIXED_BYTES"
    unfolding recs_def sum_list_sort_key by (simp add: size_call)
  have sorted: "sorted_wrt (<) (map record_sort_key recs)"
    unfolding recs_def active_def by (rule claimed_list[OF X(1) d(2) call(3) free])
  have "contribution_fits (call_record call)" by (simp add: contribution_fits_def)
  then have fits: "\<forall>r \<in> set recs. record_wf r \<and> contribution_fits r"
    using in_recs stored_facts(2)[OF X(1) d(2)] call(3) by (auto simp: active_def call_wf_def)
  obtain new where new: "set_contribution call b recs = Some new" using set_contribution_exists in_recs by blast
  obtain xs r ys where x: "recs = xs @ r # ys" "is_record_of call r" "new = xs @ r\<lparr>sr_contribution := Some b\<rparr> # ys"
    using set_contribution_Some[OF new] by blast
  have "\<forall>r \<in> set active. \<not> is_record_of call r" using free overlap_self unfolding active_def by blast
  then have r: "r = call_record call" using x in_recs by auto
  have keys: "map record_sort_key new = map record_sort_key recs" by (simp add: x record_sort_key_def)
  have fits2: "\<forall>r \<in> set new. record_wf r \<and> contribution_fits r"
    using fits made(3,4) by (auto simp: x contribution_fits_def record_wf_def)
  have sizes2: "sum_list (map record_size new) = sum_list (map record_size recs) + length b"
    using sum_sizes_set[where xs = xs and r = r and b = b and ys = ys] by (simp add: x r)
  have "length recs = Suc (length active)" by (simp add: recs_def)
  moreover have "length new = length recs" by (simp add: x)
  ultimately have len: "length recs \<le> MAX_NODE_RELEASE_RECORDS" "length new = length recs"
    using room(1) by (simp_all add: active_def[symmetric])
  obtain e1 where e1: "encode_state X node recs = Inr e1"
    using encode_state_possible[OF X sorted fits len(1)] sizes room(2) by (auto simp: active_def)
  obtain e2 where e2: "encode_state X node new = Inr e2"
    using encode_state_possible[OF X _ fits2] sorted keys len sizes2 sizes room(2) by (auto simp: active_def)
  obtain d1 where 1: "open_store X node now d = (Inr active, d1)" "opened d1" using ok_open[OF d] unfolding active_def by blast
  obtain d2 where 2: "write_state X node recs d1 = (Inr (), d2)" "opened d2" using ok_write[OF 1(2) e1 X] fits by blast
  obtain d3 where 3: "write_state X node new d2 = (Inr (), d3)" "opened d3" "stored X node d3 = Some new"
    using ok_write[OF 2(2) e2 X] fits2 by blast
  have f: "find_exact_record_index 0 None active (cl_key (rc_rights_claim call)) (cl_key (rc_release_claim call)) (rc_audit_id call)
      (rc_operation_hash call) now = Inr None" using find_exact_none free unfolding active_def by blast
  have n: "\<not> has_conflicting_active_record active (cl_key (rc_rights_claim call)) (cl_key (rc_release_claim call)) (rc_audit_id call) now"
    using free by (auto simp: conflict_iff active_def)
  have ran: "claim_or_replay X C node call now d = (Inr c, d3)"
    using call(1,2) 1(1) f n len(1) 2(1) 3(1) made new
    by (simp add: claim_or_replay_def claim_new_def release_claimed_def recs_def[symmetric])
  have "distinct recs" using sorted by (simp add: strict_sorted_iff distinct_map)
  moreover have "call_record call \<notin> set active" using \<open>\<forall>r \<in> set active. \<not> is_record_of call r\<close> call_record_sel(6)[of call] by blast
  ultimately have "set xs \<union> set ys = set active" using set_around[of xs r ys "set active"] in_recs x(1) r by simp
  then have "set new = insert ((call_record call)\<lparr>sr_contribution := Some b\<rparr>) (set active)" by (auto simp: x(3) r)
  with ran show ?thesis using 3 unfolding active_def opened_def by blast
qed

lemma find_exact_finds:
  "\<forall>q \<in> set rs. overlap q (call_record call) \<longrightarrow> sr_operation_hash q = rc_operation_hash call
   \<Longrightarrow> \<exists>x. find_exact_record_index i ex rs (cl_key (rc_rights_claim call)) (cl_key (rc_release_claim call)) (rc_audit_id call)
        (rc_operation_hash call) now = Inr x
      \<and> (ex \<noteq> None \<or> (\<exists>q \<in> set rs. any_active now q \<and> is_record_of call q) \<longrightarrow> x \<noteq> None)"
proof (induction rs arbitrary: i ex)
  case (Cons q rs)
  show ?case using Cons.IH[of "Suc i" ex] Cons.IH[of "Suc i" "Some i"] Cons.prems
    by (auto simp: is_record_of_def overlap_def matches_key_def)
qed simp

lemma exact_retry_replayed:
  assumes d: "healthy d" "stored X node d = Some rs" "store_ok X node d"
    and call: "rc_randomness call" "check_call node call = Inr decision"
    and r: "r \<in> set rs" "any_active now r" "is_record_of call r" "sr_contribution r = Some b"
    and c: "cc_parse C b = Inr c" "cc_decision C c = Inr decision" "rc_verify call c = Inr ()"
  shows "\<exists>d'. claim_or_replay X C node call now d = (Inr c, d') \<and> healthy d' \<and> cd_entries d' StateFile = cd_entries d StateFile"
proof -
  define active where "active = filter (any_active now) rs"
  obtain d1 where 1: "open_store X node now d = (Inr active, d1)" "opened d1" "cd_entries d1 StateFile = cd_entries d StateFile"
    using ok_open[OF d(1,2)] unfolding active_def by blast
  have only: "q = r" if "q \<in> set active" "overlap q (call_record call)" for q
    using that r(1,3) d(2,3) overlap_record_of[OF r(3), of q] overlap_sym[of q] unfolding store_ok_def active_def
    by (metis filter_is_subset overlap_sym subsetD)
  then have "\<forall>q \<in> set active. overlap q (call_record call) \<longrightarrow> sr_operation_hash q = rc_operation_hash call"
    using r(3) by (auto simp: is_record_of_def)
  from find_exact_finds[OF this, of 0 None now] r obtain j where
    j: "find_exact_record_index 0 None active (cl_key (rc_rights_claim call)) (cl_key (rc_release_claim call)) (rc_audit_id call)
        (rc_operation_hash call) now = Inr (Some j)" by (auto simp: active_def)
  have "active ! j = r" using find_exact_call[OF j] only overlap_self by blast
  then have "replay_exact_contribution C (active ! j) decision call = Inr c"
    using r(4) c by (simp add: replay_exact_contribution_def require_def)
  then show ?thesis using 1 j call by (auto simp: claim_or_replay_def opened_def)
qed

text \<open>
  Property C9. Nothing is produced before its claim is on disk. When the state file that a call leaves holds no record of its
  operation, the call has run as if any other contribution (or none) could have been produced.
\<close>

theorem nothing_produced_unclaimed:
  assumes "claim_or_replay X C node call now d = (res, d')" "digest_size X" "length node = 32" "call_wf call"
    and "\<forall>rs. stored X node d' = Some rs \<longrightarrow> (\<forall>r \<in> set rs. \<not> is_record_of call r)"
  shows "claim_or_replay X C node (call\<lparr>rc_produce := p\<rparr>) now d = (res, d')"
proof -
  let ?call = "call\<lparr>rc_produce := p\<rparr>"
  have same: "check_call node ?call = check_call node call" "call_record ?call = call_record call"
      "replay_exact_contribution C r db ?call = replay_exact_contribution C r db call" for r db
    by (simp_all add: check_call_def call_record_def replay_exact_contribution_def)
  have new: "claim_new X C node ?call active d1 = (res, d')"
    if c: "claim_new X C node call active d1 = (res, d')" and st: "stored X node d1 = Some rs" "active = filter (any_active now) rs"
      and free: "\<forall>r \<in> set active. \<not> overlap r (call_record call)" for active d1 rs
  proof -
    define recs where "recs = sort_key record_sort_key (active @ [call_record call])"
    have wf: "\<forall>r \<in> set recs. record_wf r"
      using stored_wf[OF assms(2) st(1)] st(2) assms(4) by (auto simp: recs_def call_wf_def)
    have n: "\<forall>r \<in> set active. \<not> is_record_of call r" using free overlap_self by blast
    have i: "set recs = insert (call_record call) (set active)" by (auto simp: recs_def)
    have no: "release_claimed X C node call recs d2 \<noteq> (res, d')" if t: "stored X node d2 = Some recs" for d2
    proof
      assume rc: "release_claimed X C node call recs d2 = (res, d')"
      obtain rs' where st: "stored X node d' = Some rs'"
          and "rs' = recs \<or> (\<exists>b. set rs' = insert ((call_record call)\<lparr>sr_contribution := Some b\<rparr>) (set active))"
        using release_claimed_outcome[OF rc assms(2,3) wf t i n stored_distinct[OF assms(2) t]] by blast
      then have "call_record call \<in> set rs' \<or> (\<exists>b. (call_record call)\<lparr>sr_contribution := Some b\<rparr> \<in> set rs')" using i by blast
      moreover have "is_record_of call ((call_record call)\<lparr>sr_contribution := Some b\<rparr>)" for b by (simp add: is_record_of_def)
      ultimately show False using assms(5) st call_record_sel(6)[of call] by blast
    qed
    show ?thesis
      using c no write_state_stored[of X node recs d1 "Inr ()", OF _ assms(2,3) wf]
      by (auto simp: claim_new_def same(2) recs_def[symmetric] Let_def split: prod.splits sum.splits if_splits)
  qed
  let ?find = "\<lambda>rs. find_exact_record_index 0 None rs (cl_key (rc_rights_claim call)) (cl_key (rc_release_claim call))
      (rc_audit_id call) (rc_operation_hash call) now"
  let ?conflict = "\<lambda>rs. has_conflicting_active_record rs (cl_key (rc_rights_claim call)) (cl_key (rc_release_claim call)) (rc_audit_id call) now"
  show ?thesis
  proof (cases "rc_randomness call \<and> (\<exists>db active d1. check_call node call = Inr db
      \<and> open_store X node now d = (Inr active, d1) \<and> ?find active = Inr None \<and> \<not> ?conflict active)")
    case False
    then show ?thesis using assms(1)
      by (auto simp: claim_or_replay_def same Let_def split: sum.splits prod.splits option.splits if_splits)
  next
    case True
    then obtain db active d1 where t: "rc_randomness call" "check_call node call = Inr db" "open_store X node now d = (Inr active, d1)"
        "?find active = Inr None" "\<not> ?conflict active" by blast
    obtain rs where rs: "stored X node d = Some rs" "active = filter (any_active now) rs"
        "cd_entries d1 StateFile = cd_entries d StateFile" using open_store_Inr[OF t(3)] by blast
    have "claim_new X C node call active d1 = (res, d')" using assms(1) t by (simp add: claim_or_replay_def)
    moreover have "stored X node d1 = Some rs" using rs stored_cong by metis
    moreover have "\<forall>r \<in> set active. \<not> overlap r (call_record call)" using t(5) rs(2) by (auto simp: conflict_iff)
    ultimately have "claim_new X C node ?call active d1 = (res, d')" using new rs(2) by blast
    then show ?thesis using t by (simp add: claim_or_replay_def same)
  qed
qed

subsection \<open>Examples\<close>

definition demo_codec_release :: "bytes contribution_codec" where
  "demo_codec_release = \<lparr>cc_canonical = Inr, cc_parse = Inr, cc_decision = (\<lambda>_. Inr [9])\<rparr>"

definition demo_call :: "bytes release_call" where
  "demo_call = \<lparr>rc_randomness = True, rc_node_key = Inr demo_node, rc_share_context = Inr (),
     rc_recipient_suite = CUSTODY_X_WING_AES256GCM_SUITE_ID_V1, rc_recipient_identity = Inr [8], rc_operation_recipient = [8],
     rc_node_set = Inr (), rc_rights_decision = Inr RightsAllowed, rc_active_window = Inr (), rc_share_node = Inr (),
     rc_secret_matches = Inr (), rc_rights_claim = \<lparr>cl_key = \<lparr>ck_scope = replicate 32 2, ck_nonce = replicate 16 3\<rparr>, cl_expires_at = 100\<rparr>,
     rc_release_claim = \<lparr>cl_key = \<lparr>ck_scope = replicate 32 4, ck_nonce = replicate 16 5\<rparr>, cl_expires_at = 100\<rparr>,
     rc_audit_id = replicate 32 6, rc_operation_hash = replicate 32 7, rc_decision_bytes = Inr [9], rc_produce = Inr [42],
     rc_verify = (\<lambda>_. Inr ())\<rparr>"

definition demo_claim_dir :: claim_dir where
  "demo_claim_dir = \<lparr>cd_entries = (\<lambda>s. if s = ParentDir then Some \<lparr>en_kind = DirectoryKind, en_uid = 0, en_mode = 0x1C0,
     en_nlink = 2, en_data = []\<rparr> else None), cd_euid = 0, cd_io = (\<lambda>_. True), cd_short = (\<lambda>_. 0), cd_calls = 0\<rparr>"

lemma demo_call_facts [simp]:
  "call_wf demo_call" "check_call demo_node demo_call = Inr [9]" "check_call demo_node (demo_call\<lparr>rc_produce := p\<rparr>) = Inr [9]"
  "rc_randomness demo_call" "rc_produce demo_call = Inr [42]" "rc_verify demo_call = (\<lambda>_. Inr ())"
  "call_record (demo_call\<lparr>rc_produce := p\<rparr>) = call_record demo_call" "is_record_of (demo_call\<lparr>rc_produce := p\<rparr>) r = is_record_of demo_call r"
  by (simp_all add: call_wf_def record_wf_def key_wf_def demo_call_def call_record_def claim_only_def check_call_def demo_node_def
      is_record_of_def require_def)

lemma demo_codec_facts [simp]:
  "contribution_law demo_codec_release" "cc_canonical demo_codec_release = Inr" "cc_parse demo_codec_release = Inr"
  "cc_decision demo_codec_release = (\<lambda>_. Inr [9])"
  by (simp_all add: contribution_law_def demo_codec_release_def)

lemma demo_dir_facts: "healthy demo_claim_dir" "stored X node demo_claim_dir = Some []" "store_ok X node demo_claim_dir"
  by (simp_all add: healthy_def demo_claim_dir_def dir_ok_def stored_def store_ok_def)

lemma demo_active: "any_active 20 (call_record demo_call)" "any_active 20 ((call_record demo_call)\<lparr>sr_contribution := x\<rparr>)"
  by (simp_all add: any_active_def rights_active_def demo_call_def call_record_def claim_only_def)

theorem free_claim_is_released_witness:
  "\<exists>d' rs. claim_or_replay demo_replay_ext demo_codec_release demo_node demo_call 10 demo_claim_dir = (Inr [42], d') \<and> healthy d'
     \<and> stored demo_replay_ext demo_node d' = Some rs \<and> set rs = {(call_record demo_call)\<lparr>sr_contribution := Some [42]\<rparr>}"
proof -
  from free_claim_is_released[of demo_replay_ext demo_node demo_claim_dir "[]" demo_call "[9]" 10 "[42]" demo_codec_release "[42]"]
  show ?thesis by (simp add: demo_dir_facts)
qed

lemma demo_first:
  "\<exists>d'. claim_or_replay demo_replay_ext demo_codec_release demo_node demo_call 10 demo_claim_dir = (Inr [42], d') \<and> healthy d'
     \<and> store_ok demo_replay_ext demo_node d' \<and> stored demo_replay_ext demo_node d' = Some [(call_record demo_call)\<lparr>sr_contribution := Some [42]\<rparr>]"
proof -
  let ?r = "(call_record demo_call)\<lparr>sr_contribution := Some [42]\<rparr>"
  from free_claim_is_released[of demo_replay_ext demo_node demo_claim_dir "[]" demo_call "[9]" 10 "[42]" demo_codec_release "[42]"]
  obtain d' rs where d: "claim_or_replay demo_replay_ext demo_codec_release demo_node demo_call 10 demo_claim_dir = (Inr [42], d')"
      "healthy d'" "stored demo_replay_ext demo_node d' = Some rs" "set rs = {?r}" by (auto simp: demo_dir_facts)
  have "distinct rs" by (rule stored_distinct[OF demo_replay_digest d(3)])
  then have "rs = [?r]" using d(4) by (cases rs) (auto simp: subset_singleton_iff)
  then show ?thesis using d by (auto simp: store_ok_def)
qed

theorem released_at_most_once_witness:
  "\<exists>d1 d2. claim_or_replay demo_replay_ext demo_codec_release demo_node demo_call 10 demo_claim_dir = (Inr [42], d1)
     \<and> claim_or_replay demo_replay_ext demo_codec_release demo_node (demo_call\<lparr>rc_produce := Inr [43]\<rparr>) 20 d1 = (Inr [42], d2)
     \<and> cd_entries d2 StateFile = cd_entries d1 StateFile"
proof -
  let ?r = "(call_record demo_call)\<lparr>sr_contribution := Some [42]\<rparr>" and ?call2 = "demo_call\<lparr>rc_produce := Inr [43]\<rparr>"
  obtain d1 where d1: "claim_or_replay demo_replay_ext demo_codec_release demo_node demo_call 10 demo_claim_dir = (Inr [42], d1)"
      "healthy d1" "store_ok demo_replay_ext demo_node d1" "stored demo_replay_ext demo_node d1 = Some [?r]" using demo_first by blast
  have r: "is_record_of demo_call ?r" by (simp add: is_record_of_def)
  have wf2: "call_wf ?call2" using demo_call_facts(1) by (simp add: call_wf_def)
  have ov: "overlap (call_record demo_call) (call_record ?call2)" by (simp add: overlap_def matches_key_def)
  obtain d2 where d2: "claim_or_replay demo_replay_ext demo_codec_release demo_node ?call2 20 d1 = (Inr [42], d2)"
    using exact_retry_replayed[OF d1(2,4,3), of ?call2 "[9]" ?r 20 "[42]" demo_codec_release "[42]"] r demo_active by auto
  have "?r \<in> set [?r]" by simp
  from released_at_most_once[OF demo_replay_digest demo_node_length demo_codec_facts(1) demo_dir_facts(3) demo_call_facts(1) d1(1)
      d1(4) this r no_call wf2 ov demo_active(2) d2] d1(1) d2
  show ?thesis by blast
qed

theorem claim_fails_closed_witness:
  "\<exists>d e d'. stored demo_replay_ext demo_node d = Some [call_record demo_call]
     \<and> claim_or_replay demo_replay_ext demo_codec_release demo_node demo_call 20 d = (Inl e, d')"
proof -
  have w: "\<forall>r \<in> set [call_record demo_call]. record_wf r \<and> contribution_fits r"
    using demo_call_facts(1) by (simp add: call_wf_def contribution_fits_def)
  obtain b where b: "encode_state demo_replay_ext demo_node [call_record demo_call] = Inr b"
    using encode_state_possible[OF demo_replay_digest demo_node_length _ w] by (auto simp: record_size_def)
  let ?d = "demo_claim_dir\<lparr>cd_entries := (cd_entries demo_claim_dir)(StateFile := Some \<lparr>en_kind = RegularFile, en_uid = 0,
    en_mode = 0x180, en_nlink = 1, en_data = b\<rparr>)\<rparr>"
  have s: "stored demo_replay_ext demo_node ?d = Some [call_record demo_call]"
    using state_file_exact[OF demo_replay_digest demo_node_length, of b "[call_record demo_call]"] b w by (simp add: stored_def)
  have ok: "store_ok demo_replay_ext demo_node ?d" using s by (simp add: store_ok_def)
  have "call_record demo_call \<in> set [call_record demo_call]" by simp
  from claim_fails_closed[OF demo_replay_digest demo_node_length demo_call_facts(1) ok s this demo_active(1)
      overlap_self[OF call_record_sel(6)], of demo_codec_release] s
  show ?thesis by auto
qed

theorem nothing_produced_unclaimed_witness:
  "claim_or_replay demo_replay_ext demo_codec_release demo_node (demo_call\<lparr>rc_rights_decision := Inr RightsDenied, rc_produce := Inr [43]\<rparr>) 10
     demo_claim_dir = (Inl (CeRelease ''RightsDenied''), demo_claim_dir)"
proof -
  let ?call = "demo_call\<lparr>rc_rights_decision := Inr RightsDenied\<rparr>"
  have c: "check_call demo_node ?call = Inl (CeRelease ''RightsDenied'')"
    by (simp add: check_call_def demo_call_def demo_node_def require_def)
  then have r: "claim_or_replay demo_replay_ext demo_codec_release demo_node ?call 10 demo_claim_dir
      = (Inl (CeRelease ''RightsDenied''), demo_claim_dir)" by (simp add: claim_or_replay_def)
  have "call_record ?call = call_record demo_call" by (simp add: call_record_def)
  then have "call_wf ?call" using demo_call_facts(1) by (simp add: call_wf_def)
  from nothing_produced_unclaimed[OF r demo_replay_digest demo_node_length this] show ?thesis by (simp add: demo_dir_facts)
qed

end
