(* ===== verification/Web_Sign_In.thy ===== *)
theory Web_Sign_In
  imports Content_Resolver
begin

section \<open>Signing in with a wallet\<close>

text \<open>
  \<^verbatim>\<open>elastos-auth/src/lib.rs\<close>, the proofs: a challenge is a text that the wallet signs (Sign-In with Ethereum). The
  text names the web origin, the account, the chain, a nonce, the times and the resource of the challenge. Keccak, the recovery of
  the signer's key, the formatting and parsing of times, and the parser of IPv6 literals are parameters.
\<close>

record auth_ext =
  ax_ext :: externals
  ax_keccak :: "bytes \<Rightarrow> bytes"
  ax_hex_error :: "string \<Rightarrow> string"
  ax_signature :: "bytes \<Rightarrow> string + bytes"
  ax_recover :: "bytes \<Rightarrow> bytes \<Rightarrow> u8 \<Rightarrow> string + bytes"
  ax_format_time :: "int \<Rightarrow> string option"
  ax_parse_time :: "string \<Rightarrow> string + int"
  ax_ipv6 :: "string \<Rightarrow> bool"

subsection \<open>Characters and strings\<close>

definition code :: "char \<Rightarrow> nat" where
  "code c = of_char c"

definition is_ascii :: "string \<Rightarrow> bool" where
  "is_ascii s = (\<forall>c \<in> set s. code c < 128)"

definition is_ascii_control :: "char \<Rightarrow> bool" where
  "is_ascii_control c = (code c < 32 \<or> code c = 127)"

definition is_ascii_whitespace :: "char \<Rightarrow> bool" where
  "is_ascii_whitespace c = (code c \<in> {9, 10, 12, 13, 32})"

definition is_ascii_digit :: "char \<Rightarrow> bool" where
  "is_ascii_digit c = (48 \<le> code c \<and> code c \<le> 57)"

definition strip_suffix :: "string \<Rightarrow> string \<Rightarrow> string option" where
  "strip_suffix suf s = (if suffix suf s then Some (take (length s - length suf) s) else None)"

text \<open>\<^verbatim>\<open>split_once\<close> at the first, \<^verbatim>\<open>rsplit_once\<close> at the last occurrence.\<close>

definition split_once :: "string \<Rightarrow> string \<Rightarrow> (string \<times> string) option" where
  "split_once sep s = (case find_sub sep s of None \<Rightarrow> None | Some i \<Rightarrow> Some (take i s, drop (i + length sep) s))"

definition rsplit_once :: "char \<Rightarrow> string \<Rightarrow> (string \<times> string) option" where
  "rsplit_once c s = (if c \<in> set s
     then Some (butlast (rev (dropWhile (\<lambda>d. d \<noteq> c) (rev s))), rev (takeWhile (\<lambda>d. d \<noteq> c) (rev s))) else None)"

subsection \<open>Web origins\<close>

definition validate_web_port :: "string \<Rightarrow> string \<Rightarrow> string + unit" where
  "validate_web_port port field =
     (if port = [] \<or> \<not> (\<forall>c \<in> set port. is_ascii_digit c)
         \<or> (case digits_val 0 port of None \<Rightarrow> True | Some n \<Rightarrow> n \<ge> 2 ^ 16)
      then Inl (field @ '' has an invalid authority'') else Inr ())"

definition host_label_ok :: "string \<Rightarrow> bool" where
  "host_label_ok label = (\<not> (label = [] \<or> length label > 63 \<or> hd label = CHR ''-'' \<or> last label = CHR ''-''
     \<or> \<not> (\<forall>c \<in> set label. is_ascii_alphanumeric c \<or> c = CHR ''-'')))"

definition host_ok :: "string \<Rightarrow> bool" where
  "host_ok host = (\<not> (host = [] \<or> length host > 253 \<or> (\<exists>label \<in> set (split_on CHR ''.'' host). \<not> host_label_ok label)))"

definition validate_web_authority :: "auth_ext \<Rightarrow> string \<Rightarrow> string \<Rightarrow> string + unit" where
  "validate_web_authority A authority field =
     (let invalid = field @ '' has an invalid authority'' in
      if authority = [] \<or> CHR ''@'' \<in> set authority \<or> CHR 0x5C \<in> set authority then Inl invalid
      else case strip_prefix ''['' authority of
        Some rest \<Rightarrow> (case split_once '']'' rest of
            None \<Rightarrow> Inl invalid
          | Some (host, suf) \<Rightarrow>
              if \<not> ax_ipv6 A host then Inl invalid
              else if suf = [] then Inr ()
              else (case strip_prefix '':'' suf of None \<Rightarrow> Inl invalid | Some port \<Rightarrow> validate_web_port port field))
      | None \<Rightarrow>
          andthen (case rsplit_once CHR '':'' authority of
              Some (host, port) \<Rightarrow> if CHR '':'' \<in> set host then Inl invalid else Inr (host, Some port)
            | None \<Rightarrow> Inr (authority, None)) (\<lambda>(host, port).
          andthen (case port of Some p \<Rightarrow> validate_web_port p field | None \<Rightarrow> Inr ()) (\<lambda>_.
          require (host_ok host) invalid)))"

fun valid_percent_encoding :: "string \<Rightarrow> bool" where
  "valid_percent_encoding [] = True"
| "valid_percent_encoding (c # cs) =
     (if c = CHR ''%'' then (case cs of
          a # b # rest \<Rightarrow> is_ascii_hexdigit a \<and> is_ascii_hexdigit b \<and> valid_percent_encoding rest
        | _ \<Rightarrow> False)
      else valid_percent_encoding cs)"

definition ends_authority :: "char \<Rightarrow> bool" where
  "ends_authority c = (c = CHR ''/'' \<or> c = CHR ''?'' \<or> c = CHR ''#'')"

definition raw_web_origin :: "auth_ext \<Rightarrow> string \<Rightarrow> string \<Rightarrow> string + string" where
  "raw_web_origin A v field =
     (if v = [] \<or> length v > 512 \<or> \<not> is_ascii v \<or> (\<exists>c \<in> set v. is_ascii_control c \<or> is_ascii_whitespace c)
      then Inl (field @ '' is invalid'')
      else case split_once ''://'' v of
        None \<Rightarrow> Inl (field @ '' must include an explicit scheme'')
      | Some (scheme, remainder) \<Rightarrow>
          if scheme \<noteq> ''http'' \<and> scheme \<noteq> ''https'' then Inl (field @ '' must use http or https'')
          else
           (let authority = takeWhile (\<lambda>c. \<not> ends_authority c) remainder;
                suf = dropWhile (\<lambda>c. \<not> ends_authority c) remainder
            in andthen (validate_web_authority A authority field) (\<lambda>_.
               if CHR 0x5C \<in> set suf \<or> \<not> valid_percent_encoding suf then Inl (field @ '' is not a valid absolute URL'')
               else Inr (take (length scheme + 3 + length authority) v))))"

definition validate_explicit_siwe_origin :: "auth_ext \<Rightarrow> string \<Rightarrow> string + unit" where
  "validate_explicit_siwe_origin A origin =
     andthen (raw_web_origin A origin ''SIWE domain'') (\<lambda>raw.
     require (raw = origin) ''SIWE domain must contain only the explicit origin'')"

definition validate_siwe_origin_binding :: "auth_ext \<Rightarrow> string \<Rightarrow> string \<Rightarrow> string + unit" where
  "validate_siwe_origin_binding A origin uri =
     andthen (validate_explicit_siwe_origin A origin) (\<lambda>_.
     andthen (raw_web_origin A uri ''SIWE URI'') (\<lambda>uri_origin.
     require (uri_origin = origin) ''SIWE URI origin does not match SIWE domain''))"

subsection \<open>Accounts\<close>

definition normalize_evm_address :: "string \<Rightarrow> string" where
  "normalize_evm_address address = to_lowercase (trim address)"

definition validate_evm_address :: "string \<Rightarrow> string + unit" where
  "validate_evm_address address =
     (case strip_prefix ''0x'' (trim address) of
        None \<Rightarrow> Inl ''EVM address must start with 0x''
      | Some raw \<Rightarrow> require (length raw = 40 \<and> (\<forall>c \<in> set raw. is_ascii_hexdigit c)) ''EVM address must be 20 bytes of hex'')"

definition ascii_upper :: "char \<Rightarrow> char" where
  "ascii_upper c = (if 97 \<le> code c \<and> code c \<le> 122 then char_of (code c - 32) else c)"

definition is_ascii_alphabetic :: "char \<Rightarrow> bool" where
  "is_ascii_alphabetic c = (65 \<le> code c \<and> code c \<le> 90 \<or> 97 \<le> code c \<and> code c \<le> 122)"

fun checksum_chars :: "string \<Rightarrow> string \<Rightarrow> string + string" where
  "checksum_chars [] hash = Inr []"
| "checksum_chars (ch # cs) hash =
     (case (case hash of [] \<Rightarrow> None | h # _ \<Rightarrow> char_nibble h) of
        None \<Rightarrow> Inl ''failed to checksum EVM address''
      | Some nibble \<Rightarrow>
          andthen (checksum_chars cs (tl hash)) (\<lambda>rest.
          Inr ((if is_ascii_alphabetic ch \<and> nibble \<ge> 8 then ascii_upper ch else ch) # rest)))"

definition checksum_evm_address :: "auth_ext \<Rightarrow> string \<Rightarrow> string + string" where
  "checksum_evm_address A address =
     andthen (validate_evm_address address) (\<lambda>_.
     andthen (case strip_prefix ''0x'' (trim address) of None \<Rightarrow> Inl ''EVM address must start with 0x'' | Some r \<Rightarrow> Inr r) (\<lambda>raw.
     (let raw = to_lowercase raw; hash = hex_encode (ax_ext A) (ax_keccak A (bytes_of raw)) in
      andthen (checksum_chars raw hash) (\<lambda>rest. Inr (''0x'' @ rest)))))"

definition normalize_recovery_id :: "u8 \<Rightarrow> string + u8" where
  "normalize_recovery_id v = (if v = 0 \<or> v = 1 then Inr v else if v = 27 \<or> v = 28 then Inr (v - 27)
     else Inl ''unsupported EVM recovery id'')"

definition ethereum_signed_message_hash :: "auth_ext \<Rightarrow> bytes \<Rightarrow> bytes" where
  "ethereum_signed_message_hash A message =
     ax_keccak A (bytes_of ([char_of (25::nat)] @ ''Ethereum Signed Message:'' @ [newline] @ dec_of_nat (length message)) @ message)"

definition recover_evm_address :: "auth_ext \<Rightarrow> string \<Rightarrow> string \<Rightarrow> string + string \<times> bytes" where
  "recover_evm_address A message signature_hex =
     (let signature_hex = (case strip_prefix ''0x'' signature_hex of Some s \<Rightarrow> s | None \<Rightarrow> signature_hex) in
      case hex_decode (ax_ext A) signature_hex of
        None \<Rightarrow> Inl (''invalid signature hex: '' @ ax_hex_error A signature_hex)
      | Some b \<Rightarrow>
          andthen (require (length b = 65) ''EVM signature must be 65 bytes'') (\<lambda>_.
          andthen (case ax_signature A (take 64 b) of Inl e \<Rightarrow> Inl (''invalid EVM signature: '' @ e) | Inr s \<Rightarrow> Inr s) (\<lambda>sig.
          andthen (normalize_recovery_id (b ! 64)) (\<lambda>id.
          (let message_hash = ethereum_signed_message_hash A (bytes_of message) in
           andthen (case ax_recover A message_hash sig id of Inl e \<Rightarrow> Inl (''failed to recover EVM signer: '' @ e) | Inr k \<Rightarrow> Inr k) (\<lambda>public_key.
           andthen (require (length public_key = 65) ''unexpected recovered public key length'') (\<lambda>_.
           Inr (''0x'' @ hex_encode (ax_ext A) (drop 12 (ax_keccak A (tl public_key))), message_hash))))))))"

subsection \<open>Proof bindings\<close>

datatype proof_binding_kind = PasskeyWebAuthn | EvmAccount | BtcAddress | DidKey | DidElastos | Essentials

record passkey_binding =
  pk_credential_id :: string
  pk_public_key :: string
  pk_sign_count :: u32
  pk_user_verified :: bool
  pk_origin :: string
  pk_rp_id :: string
  pk_created_at :: u64
  pk_last_used_at :: u64
  pk_revoked_at :: "u64 option"

record proof_binding =
  pb_kind :: proof_binding_kind
  pb_subject :: string
  pb_chain_id :: "u64 option"
  pb_verified_at :: u64
  pb_passkey :: "passkey_binding option"

definition evm_account :: "u64 \<Rightarrow> string \<Rightarrow> u64 \<Rightarrow> proof_binding" where
  "evm_account chain_id address verified_at =
     \<lparr>pb_kind = EvmAccount, pb_subject = normalize_evm_address address, pb_chain_id = Some chain_id,
      pb_verified_at = verified_at, pb_passkey = None\<rparr>"

definition passkey_webauthn :: "passkey_binding \<Rightarrow> proof_binding" where
  "passkey_webauthn binding =
     \<lparr>pb_kind = PasskeyWebAuthn, pb_subject = pk_credential_id binding, pb_chain_id = None,
      pb_verified_at = pk_last_used_at binding, pb_passkey = Some binding\<rparr>"

definition proof_binding_id :: "externals \<Rightarrow> proof_binding \<Rightarrow> string" where
  "proof_binding_id X p = (case pb_kind p of
       PasskeyWebAuthn \<Rightarrow> (case pb_passkey p of
           Some passkey \<Rightarrow> ''proof:passkey:'' @ pk_rp_id passkey @ '':''
             @ hex_encode X (take 16 (sha256 X (bytes_of (pk_rp_id passkey @ '':'' @ pk_credential_id passkey))))
         | None \<Rightarrow> ''proof:passkey:unknown:'' @ hex_encode X (take 16 (sha256 X (bytes_of (pb_subject p)))))
     | EvmAccount \<Rightarrow> ''proof:wallet:eip155:'' @ show_u64 (case pb_chain_id p of Some c \<Rightarrow> c | None \<Rightarrow> 0) @ '':'' @ pb_subject p
     | BtcAddress \<Rightarrow> ''proof:wallet:bip122:'' @ pb_subject p
     | DidKey \<Rightarrow> ''proof:'' @ pb_subject p
     | DidElastos \<Rightarrow> ''proof:'' @ pb_subject p
     | Essentials \<Rightarrow> ''proof:essentials:'' @ pb_subject p)"

subsection \<open>Challenges\<close>

record auth_challenge =
  ac_schema :: string
  ac_challenge_id :: string
  ac_domain :: string
  ac_uri :: string
  ac_statement :: string
  ac_address :: string
  ac_chain_id :: u64
  ac_nonce :: string
  ac_issued_at :: u64
  ac_expires_at :: u64
  ac_resources :: "string list"

record challenge_input =
  ci_challenge_id :: string
  ci_domain :: string
  ci_uri :: string
  ci_address :: string
  ci_chain_id :: u64
  ci_nonce :: string
  ci_issued_at :: u64
  ci_ttl_secs :: u64
  ci_resources :: "string list"

definition CHALLENGE_SCHEMA :: string where
  "CHALLENGE_SCHEMA = ''elastos.auth.challenge/v1''"

definition saturating_add :: "u64 \<Rightarrow> u64 \<Rightarrow> u64" where
  "saturating_add a b = (if unat a + unat b < 2 ^ 64 then a + b else - 1)"

text \<open>\<^const>\<open>None\<close> is the panic on an address that is none.\<close>

definition challenge_new :: "auth_ext \<Rightarrow> challenge_input \<Rightarrow> auth_challenge option" where
  "challenge_new A i = (case checksum_evm_address A (ci_address i) of
       Inl _ \<Rightarrow> None
     | Inr address \<Rightarrow> Some \<lparr>ac_schema = CHALLENGE_SCHEMA, ac_challenge_id = ci_challenge_id i, ac_domain = ci_domain i,
         ac_uri = ci_uri i, ac_statement = ''Sign in to ElastOS Runtime.'', ac_address = address, ac_chain_id = ci_chain_id i,
         ac_nonce = ci_nonce i, ac_issued_at = ci_issued_at i, ac_expires_at = saturating_add (ci_issued_at i) (ci_ttl_secs i),
         ac_resources = ci_resources i\<rparr>)"

definition challenge_resource :: "auth_challenge \<Rightarrow> string" where
  "challenge_resource c = ''elastos://auth/challenge/'' @ ac_challenge_id c"

text \<open>A time that has no calendar form is written as the epoch.\<close>

definition rfc3339 :: "auth_ext \<Rightarrow> u64 \<Rightarrow> string" where
  "rfc3339 A secs = (case ax_format_time A (sint secs) of
       Some t \<Rightarrow> t | None \<Rightarrow> (case ax_format_time A 0 of Some t \<Rightarrow> t | None \<Rightarrow> []))"

definition parse_rfc3339 :: "auth_ext \<Rightarrow> string \<Rightarrow> string + u64" where
  "parse_rfc3339 A v = (case ax_parse_time A v of
       Inl e \<Rightarrow> Inl (''invalid RFC3339 timestamp: '' @ e)
     | Inr timestamp \<Rightarrow> if timestamp < 0 then Inl ''timestamp before unix epoch'' else Inr (word_of_int timestamp))"

definition SIWE_SUFFIX :: string where
  "SIWE_SUFFIX = '' wants you to sign in with your Ethereum account:''"

definition siwe_message :: "auth_ext \<Rightarrow> auth_challenge \<Rightarrow> string" where
  "siwe_message A c =
     ac_domain c @ SIWE_SUFFIX @ [newline]
     @ trim (ac_address c) @ [newline] @ [newline]
     @ ac_statement c @ [newline] @ [newline]
     @ ''URI: '' @ ac_uri c @ [newline]
     @ ''Version: 1'' @ [newline]
     @ ''Chain ID: '' @ show_u64 (ac_chain_id c) @ [newline]
     @ ''Nonce: '' @ ac_nonce c @ [newline]
     @ ''Issued At: '' @ rfc3339 A (ac_issued_at c) @ [newline]
     @ ''Expiration Time: '' @ rfc3339 A (ac_expires_at c)
     @ (if ac_resources c = [] then []
        else [newline] @ ''Resources:'' @ concat (map (\<lambda>r. [newline] @ ''- '' @ r) (ac_resources c)))"

record siwe =
  si_domain :: string
  si_address :: string
  si_uri :: string
  si_version :: string
  si_chain_id :: u64
  si_nonce :: string
  si_issued_at :: u64
  si_expires_at :: "u64 option"
  si_resources :: "string list"

text \<open>The fields while the lines are read.\<close>

record siwe_fields =
  sf_uri :: "string option"
  sf_version :: "string option"
  sf_chain_id :: "u64 option"
  sf_nonce :: "string option"
  sf_issued_at :: "u64 option"
  sf_expires_at :: "u64 option"
  sf_resources :: "string list"
  sf_in_resources :: bool

definition siwe_fields_new :: siwe_fields where
  "siwe_fields_new = \<lparr>sf_uri = None, sf_version = None, sf_chain_id = None, sf_nonce = None, sf_issued_at = None,
     sf_expires_at = None, sf_resources = [], sf_in_resources = False\<rparr>"

definition siwe_field_line :: "auth_ext \<Rightarrow> string \<Rightarrow> siwe_fields \<Rightarrow> string + siwe_fields" where
  "siwe_field_line A line F =
     (case strip_prefix ''URI: '' line of Some v \<Rightarrow> Inr (F\<lparr>sf_uri := Some v\<rparr>)
      | None \<Rightarrow> (case strip_prefix ''Version: '' line of Some v \<Rightarrow> Inr (F\<lparr>sf_version := Some v\<rparr>)
      | None \<Rightarrow> (case strip_prefix ''Chain ID: '' line of
          Some v \<Rightarrow> (case parse_u64 v of None \<Rightarrow> Inl ''SIWE chain ID must be numeric'' | Some n \<Rightarrow> Inr (F\<lparr>sf_chain_id := Some n\<rparr>))
      | None \<Rightarrow> (case strip_prefix ''Nonce: '' line of Some v \<Rightarrow> Inr (F\<lparr>sf_nonce := Some v\<rparr>)
      | None \<Rightarrow> (case strip_prefix ''Issued At: '' line of
          Some v \<Rightarrow> andthen (parse_rfc3339 A v) (\<lambda>t. Inr (F\<lparr>sf_issued_at := Some t\<rparr>))
      | None \<Rightarrow> (case strip_prefix ''Expiration Time: '' line of
          Some v \<Rightarrow> andthen (parse_rfc3339 A v) (\<lambda>t. Inr (F\<lparr>sf_expires_at := Some t\<rparr>))
      | None \<Rightarrow> Inr F))))))"

definition siwe_line :: "auth_ext \<Rightarrow> string \<Rightarrow> siwe_fields \<Rightarrow> string + siwe_fields" where
  "siwe_line A line F =
     (if line = ''Resources:'' then Inr (F\<lparr>sf_in_resources := True\<rparr>)
      else if sf_in_resources F then (case strip_prefix ''- '' line of
          None \<Rightarrow> Inl (''SIWE resources must use '' @ [CHR 0x27] @ ''- '' @ [CHR 0x27] @ '' lines'')
        | Some r \<Rightarrow> Inr (F\<lparr>sf_resources := sf_resources F @ [r]\<rparr>))
      else siwe_field_line A line F)"

fun siwe_lines :: "auth_ext \<Rightarrow> string list \<Rightarrow> siwe_fields \<Rightarrow> string + siwe_fields" where
  "siwe_lines A [] F = Inr F"
| "siwe_lines A (line # ls) F = andthen (siwe_line A line F) (siwe_lines A ls)"

definition siwe_finish :: "auth_ext \<Rightarrow> string \<Rightarrow> string \<Rightarrow> siwe_fields \<Rightarrow> string + siwe" where
  "siwe_finish A domain address F =
     andthen (ok_or ''SIWE URI is required'' (sf_uri F)) (\<lambda>uri.
     andthen (validate_siwe_origin_binding A domain uri) (\<lambda>_.
     andthen (ok_or ''SIWE version is required'' (sf_version F)) (\<lambda>version.
     andthen (ok_or ''SIWE chain ID is required'' (sf_chain_id F)) (\<lambda>chain_id.
     andthen (ok_or ''SIWE nonce is required'' (sf_nonce F)) (\<lambda>nonce.
     andthen (ok_or ''SIWE issued-at is required'' (sf_issued_at F)) (\<lambda>issued_at.
     Inr \<lparr>si_domain = domain, si_address = normalize_evm_address address, si_uri = uri, si_version = version,
       si_chain_id = chain_id, si_nonce = nonce, si_issued_at = issued_at, si_expires_at = sf_expires_at F,
       si_resources = sf_resources F\<rparr>))))))"

definition parse_siwe_message :: "auth_ext \<Rightarrow> string \<Rightarrow> string + siwe" where
  "parse_siwe_message A message =
     (case lines message of
        [] \<Rightarrow> Inl ''SIWE message missing domain line''
      | first # rest \<Rightarrow>
          andthen (ok_or ''SIWE message has invalid domain line'' (strip_suffix SIWE_SUFFIX first)) (\<lambda>domain.
          (case rest of
             [] \<Rightarrow> Inl ''SIWE message missing address''
           | second # rest \<Rightarrow>
               (let address = trim second in
                andthen (validate_evm_address address) (\<lambda>_.
                andthen (siwe_lines A rest siwe_fields_new) (siwe_finish A domain address))))))"

record verified_siwe =
  vs_binding :: proof_binding
  vs_recovered_address :: string
  vs_message_hash :: bytes

definition verify_siwe_challenge ::
    "auth_ext \<Rightarrow> auth_challenge \<Rightarrow> string \<Rightarrow> string \<Rightarrow> u64 \<Rightarrow> string + verified_siwe" where
  "verify_siwe_challenge A c message signature_hex now =
     andthen (require (ac_schema c = CHALLENGE_SCHEMA) ''unsupported auth challenge schema'') (\<lambda>_.
     andthen (require (\<not> ac_expires_at c \<le> now) ''auth challenge expired'') (\<lambda>_.
     andthen (validate_siwe_origin_binding A (ac_domain c) (ac_uri c)) (\<lambda>_.
     andthen (parse_siwe_message A message) (\<lambda>p.
     andthen (require (si_domain p = ac_domain c) ''SIWE domain does not match challenge'') (\<lambda>_.
     andthen (require (si_uri p = ac_uri c) ''SIWE URI does not match challenge'') (\<lambda>_.
     andthen (require (si_version p = ''1'') ''unsupported SIWE version'') (\<lambda>_.
     andthen (require (si_chain_id p = ac_chain_id c) ''SIWE chain ID does not match challenge'') (\<lambda>_.
     andthen (require (si_nonce p = ac_nonce c) ''SIWE nonce does not match challenge'') (\<lambda>_.
     andthen (require (normalize_evm_address (si_address p) = normalize_evm_address (ac_address c))
       ''SIWE address does not match challenge'') (\<lambda>_.
     andthen (require (\<not> si_issued_at p > saturating_add now 300) ''SIWE issued-at is in the future'') (\<lambda>_.
     andthen (ok_or ''SIWE expiration-time is required'' (si_expires_at p)) (\<lambda>expires_at.
     andthen (require (\<not> expires_at \<le> now) ''SIWE proof expired'') (\<lambda>_.
     andthen (require (\<not> expires_at > ac_expires_at c) ''SIWE proof outlives challenge'') (\<lambda>_.
     andthen (require (si_resources p = ac_resources c) ''SIWE resources do not match challenge'') (\<lambda>_.
     andthen (require (challenge_resource c \<in> set (si_resources p)) ''SIWE resources missing challenge binding'') (\<lambda>_.
     andthen (require (message = siwe_message A c) ''SIWE message does not match challenge'') (\<lambda>_.
     andthen (recover_evm_address A message signature_hex) (\<lambda>(recovered_address, message_hash).
     andthen (require (normalize_evm_address recovered_address = normalize_evm_address (ac_address c))
       ''SIWE signature does not recover expected address'') (\<lambda>_.
     Inr \<lparr>vs_binding = evm_account (ac_chain_id c) recovered_address now,
       vs_recovered_address = normalize_evm_address recovered_address, vs_message_hash = message_hash\<rparr>)))))))))))))))))))"

subsection \<open>What an origin is\<close>

lemma raw_web_origin_Inr:
  assumes "raw_web_origin A v field = Inr origin"
  shows "\<exists>scheme authority rest. (scheme = ''http'' \<or> scheme = ''https'') \<and> origin = scheme @ ''://'' @ authority
    \<and> v = origin @ rest \<and> (rest = [] \<or> ends_authority (hd rest)) \<and> (\<forall>c \<in> set authority. \<not> ends_authority c)
    \<and> validate_web_authority A authority field = Inr () \<and> (\<forall>c \<in> set v. \<not> is_ascii_control c \<and> \<not> is_ascii_whitespace c)"
proof -
  obtain scheme remainder where s: "split_once ''://'' v = Some (scheme, remainder)" "scheme = ''http'' \<or> scheme = ''https''"
    and a: "validate_web_authority A (takeWhile (\<lambda>c. \<not> ends_authority c) remainder) field = Inr ()"
    and o: "origin = take (length scheme + 3 + length (takeWhile (\<lambda>c. \<not> ends_authority c) remainder)) v"
    and clean: "\<forall>c \<in> set v. \<not> is_ascii_control c \<and> \<not> is_ascii_whitespace c"
    using assms unfolding raw_web_origin_def
    by (auto simp: andthen_Inr Let_def split: if_splits option.splits prod.splits)
  obtain i where i: "find_sub ''://'' v = Some i" "scheme = take i v" "remainder = drop (i + 3) v"
    using s(1) by (auto simp: split_once_def numeral_3_eq_3 split: option.splits)
  have v: "v = scheme @ ''://'' @ remainder" using find_sub_Some[OF i(1)] i by (simp add: numeral_3_eq_3)
  let ?a = "takeWhile (\<lambda>c. \<not> ends_authority c) remainder" and ?r = "dropWhile (\<lambda>c. \<not> ends_authority c) remainder"
  have v2: "v = (scheme @ ''://'' @ ?a) @ ?r" using v by simp
  have "origin = scheme @ ''://'' @ ?a" unfolding o by (subst v) (simp add: numeral_3_eq_3 takeWhile_eq_take[symmetric])
  moreover have "?r = [] \<or> ends_authority (hd ?r)" using hd_dropWhile[of "\<lambda>c. \<not> ends_authority c" remainder] by auto
  moreover have "\<forall>c \<in> set ?a. \<not> ends_authority c" by (auto dest: set_takeWhileD)
  moreover have "v = origin @ ?r" using calculation(1) v2 by simp
  ultimately show ?thesis using s(2) a clean by blast
qed

subsection \<open>What the authority of an origin is\<close>

lemma authority_no_userinfo:
  assumes "validate_web_authority A authority field = Inr ()"
  shows "authority \<noteq> [] \<and> CHR ''@'' \<notin> set authority \<and> CHR 0x5C \<notin> set authority"
  using assms by (auto simp: validate_web_authority_def Let_def split: if_splits)

lemma origin_binding_Inr:
  assumes "validate_siwe_origin_binding A origin uri = Inr ()"
  shows "raw_web_origin A origin ''SIWE domain'' = Inr origin" "raw_web_origin A uri ''SIWE URI'' = Inr origin"
  using assms by (auto simp: validate_siwe_origin_binding_def validate_explicit_siwe_origin_def andthen_Inr)

text \<open>
  Property C34. When the server accepts an origin and a URI for a sign-in, the origin is \<^verbatim>\<open>http://\<close> or \<^verbatim>\<open>https://\<close>
  followed by an authority with no user part, no backslash, no path, query or fragment; and the URI is that very origin, followed by
  nothing or by a path, a query or a fragment. So no URI whose host only starts with the origin's host, or that hides another host
  behind an at sign, is taken for the origin.
\<close>

theorem origin_confined:
  assumes "validate_siwe_origin_binding A origin uri = Inr ()"
  shows "\<exists>scheme authority rest. (scheme = ''http'' \<or> scheme = ''https'') \<and> origin = scheme @ ''://'' @ authority
    \<and> authority \<noteq> [] \<and> set authority \<inter> {CHR ''@'', CHR 0x5C, CHR ''/'', CHR ''?'', CHR ''#''} = {}
    \<and> uri = origin @ rest \<and> (rest = [] \<or> hd rest \<in> {CHR ''/'', CHR ''?'', CHR ''#''})"
proof -
  obtain scheme authority rest where u: "scheme = ''http'' \<or> scheme = ''https''" "origin = scheme @ ''://'' @ authority"
      "uri = origin @ rest" "rest = [] \<or> ends_authority (hd rest)" "\<forall>c \<in> set authority. \<not> ends_authority c"
      "validate_web_authority A authority ''SIWE URI'' = Inr ()"
    using raw_web_origin_Inr[OF origin_binding_Inr(2)[OF assms]] by blast
  then have "set authority \<inter> {CHR ''@'', CHR 0x5C, CHR ''/'', CHR ''?'', CHR ''#''} = {}"
    using authority_no_userinfo[OF u(6)] by (auto simp: ends_authority_def)
  moreover have "rest = [] \<or> hd rest \<in> {CHR ''/'', CHR ''?'', CHR ''#''}" using u(4) by (auto simp: ends_authority_def)
  ultimately show ?thesis using u(1-3) authority_no_userinfo[OF u(6)] by blast
qed

subsection \<open>What an accepted sign-in shows\<close>

lemma verify_siwe_Inr:
  assumes "verify_siwe_challenge A c message signature now = Inr V"
  obtains p addr where
    "parse_siwe_message A message = Inr p" "si_domain p = ac_domain c" "si_uri p = ac_uri c" "si_chain_id p = ac_chain_id c"
    "si_nonce p = ac_nonce c" "normalize_evm_address (si_address p) = normalize_evm_address (ac_address c)"
    "si_resources p = ac_resources c" "challenge_resource c \<in> set (ac_resources c)" "now < ac_expires_at c"
    "message = siwe_message A c" "recover_evm_address A message signature = Inr (addr, vs_message_hash V)"
    "normalize_evm_address addr = normalize_evm_address (ac_address c)"
    "vs_recovered_address V = normalize_evm_address (ac_address c)"
    "vs_binding V = evm_account (ac_chain_id c) addr now"
    "validate_siwe_origin_binding A (ac_domain c) (ac_uri c) = Inr ()"
  using assms that unfolding verify_siwe_challenge_def
  by (clarsimp simp: andthen_Inr not_le not_less split: prod.splits)

text \<open>
  Property C33. A signed message answers one challenge. When one message is accepted for two challenges, with any signatures and at
  any times, the two agree in the origin, the URI, the chain, the nonce, the resources and the account; and each challenge's own
  resource is among the resources of the other, so a message signed for one challenge passes for another only if that one lists it.
\<close>

theorem sign_in_bound:
  assumes "verify_siwe_challenge A c message signature now = Inr V"
    and "verify_siwe_challenge A c' message signature' now' = Inr V'"
  shows "ac_domain c' = ac_domain c \<and> ac_uri c' = ac_uri c \<and> ac_chain_id c' = ac_chain_id c \<and> ac_nonce c' = ac_nonce c
    \<and> ac_resources c' = ac_resources c \<and> vs_recovered_address V' = vs_recovered_address V
    \<and> {challenge_resource c, challenge_resource c'} \<subseteq> set (ac_resources c) \<and> siwe_message A c' = siwe_message A c"
  by (rule verify_siwe_Inr[OF assms(1)], rule verify_siwe_Inr[OF assms(2)]) auto

subsection \<open>An honest sign-in is accepted\<close>

text \<open>A text on one line.\<close>

definition one_line :: "string \<Rightarrow> bool" where
  "one_line s = (\<forall>c \<in> set s. c \<noteq> newline \<and> c \<noteq> char_of (13::nat))"

lemma one_line_simps [simp]:
  "one_line []" "one_line (c # s) \<longleftrightarrow> c \<noteq> newline \<and> c \<noteq> char_of (13::nat) \<and> one_line s"
  "one_line (s @ t) \<longleftrightarrow> one_line s \<and> one_line t"
  by (auto simp: one_line_def)

lemma line_ends: "newline = CHR 0x0A" "char_of (13::nat) = CHR 0x0D"
  by code_simp+

lemma one_line_graphic: "\<forall>c \<in> set s. graphic c \<Longrightarrow> one_line s"
  by (auto simp: one_line_def graphic_def newline_def)

lemma one_line_clean: "\<forall>c \<in> set s. \<not> is_ascii_control c \<Longrightarrow> one_line s"
  by (auto simp: one_line_def newline_def is_ascii_control_def code_def of_char_of)

lemma lines_join_one_line:
  assumes "xs \<noteq> []" "\<forall>x \<in> set xs. one_line x" "last xs \<noteq> []"
  shows "lines (join_with [newline] xs) = xs"
proof -
  have "split_on newline (join_with [newline] xs) = xs"
    using assms(1,2) by (intro split_join) (auto simp: one_line_def)
  moreover have "strip_cr x = x" if "x \<in> set xs" for x
    using assms(2) that by (auto simp: strip_cr_def one_line_def)
  then have "map strip_cr (butlast xs) = butlast xs" by (intro map_idI) (auto dest: in_set_butlastD)
  ultimately show ?thesis using assms(1,3) by (simp add: lines_def)
qed

lemma join_with_map: "join_with sep (x # map f rs) = x @ concat (map (\<lambda>r. sep @ f r) rs)"
  by (induction rs arbitrary: x) auto

definition siwe_message_lines :: "auth_ext \<Rightarrow> auth_challenge \<Rightarrow> string list" where
  "siwe_message_lines A c =
     [ac_domain c @ SIWE_SUFFIX, trim (ac_address c), [], ac_statement c, [], ''URI: '' @ ac_uri c, ''Version: 1'',
      ''Chain ID: '' @ show_u64 (ac_chain_id c), ''Nonce: '' @ ac_nonce c, ''Issued At: '' @ rfc3339 A (ac_issued_at c),
      ''Expiration Time: '' @ rfc3339 A (ac_expires_at c)]
     @ (if ac_resources c = [] then [] else ''Resources:'' # map ((@) ''- '') (ac_resources c))"

lemma siwe_message_join: "siwe_message A c = join_with [newline] (siwe_message_lines A c)"
proof (cases "ac_resources c")
  case (Cons r rs)
  have "join_with [newline] (''Resources:'' # map ((@) ''- '') (ac_resources c))
      = ''Resources:'' @ concat (map (\<lambda>r. [newline] @ ''- '' @ r) (ac_resources c))"
    by (rule join_with_map)
  then show ?thesis by (simp add: siwe_message_def siwe_message_lines_def Cons)
qed (simp add: siwe_message_def siwe_message_lines_def)

lemma siwe_lines_append: "siwe_lines A (xs @ ys) F = andthen (siwe_lines A xs F) (siwe_lines A ys)"
  by (induction xs arbitrary: F) (auto simp: andthen_def split: sum.splits)

lemma siwe_lines_resources:
  "sf_in_resources F \<Longrightarrow> siwe_lines A (map ((@) ''- '') rs) F = Inr (F\<lparr>sf_resources := sf_resources F @ rs\<rparr>)"
  by (induction rs arbitrary: F) (auto simp: siwe_line_def strip_prefix_def andthen_def)

text \<open>The calendar form of a time before the year 10000 is one line and parses to the time.\<close>

definition time_codec :: "auth_ext \<Rightarrow> bool" where
  "time_codec A = (\<forall>t. 0 \<le> t \<longrightarrow> t < 253402300800 \<longrightarrow>
     (\<exists>s. ax_format_time A t = Some s \<and> one_line s \<and> ax_parse_time A s = Inr t))"

lemma time_codecD:
  assumes "time_codec A" "n < 253402300800"
  obtains s where "ax_format_time A (int n) = Some s" "one_line s" "ax_parse_time A s = Inr (int n)"
proof -
  have "int n < 253402300800" using assms(2) by linarith
  then show thesis using assms(1) that unfolding time_codec_def by (meson of_nat_0_le_iff)
qed

lemma sint_small: "unat (t :: u64) < 253402300800 \<Longrightarrow> sint t = int (unat t)"
proof -
  assume "unat t < 253402300800"
  then have t: "0 \<le> int (unat t)" "int (unat t) < 253402300800" by linarith+
  have "signed_take_bit 63 x = x" if "0 \<le> x" "x < 253402300800" for x :: int
    using that by (intro signed_take_bit_int_eq_self) auto
  from this[OF t] show ?thesis by (simp add: sint_uint)
qed

lemma time_roundtrip:
  assumes "time_codec A" "unat t < 253402300800"
  shows "one_line (rfc3339 A t) \<and> parse_rfc3339 A (rfc3339 A t) = Inr t"
  by (rule time_codecD[OF assms]) (simp add: rfc3339_def parse_rfc3339_def sint_small[OF assms(2)])

lemma code_char_of: "n < 256 \<Longrightarrow> code (char_of n) = n"
  by (simp add: code_def of_char_of)

lemma ascii_lower_upper: "ascii_lower (ascii_upper ch) = ascii_lower ch"
  by (auto simp: ascii_lower_def ascii_upper_def code_def of_char_of Let_def)

lemma ascii_lower_idem [simp]: "ascii_lower (ascii_lower c) = ascii_lower c"
  by (auto simp: ascii_lower_def of_char_of Let_def)

lemma hexdigit_graphic: "is_ascii_hexdigit c \<Longrightarrow> graphic c"
  by (auto simp: is_ascii_hexdigit_def char_nibble_def graphic_def Let_def split: if_splits)

lemma hexdigit_upper: "is_ascii_hexdigit c \<Longrightarrow> is_ascii_hexdigit (ascii_upper c)"
  by (auto simp: is_ascii_hexdigit_def char_nibble_def ascii_upper_def code_def of_char_of Let_def split: if_splits)

lemma hexdigit_lower: "is_ascii_hexdigit c \<Longrightarrow> is_ascii_hexdigit (ascii_lower c)"
  by (auto simp: is_ascii_hexdigit_def char_nibble_def ascii_lower_def of_char_of Let_def split: if_splits)

lemma checksum_chars_Inr:
  assumes "checksum_chars cs hash = Inr r"
  shows "map ascii_lower r = map ascii_lower cs \<and> ((\<forall>c \<in> set cs. is_ascii_hexdigit c) \<longrightarrow> (\<forall>c \<in> set r. is_ascii_hexdigit c))"
  using assms
proof (induction cs hash arbitrary: r rule: checksum_chars.induct)
  case (2 ch cs hash)
  then show ?case
    by (auto simp: andthen_Inr ascii_lower_upper hexdigit_upper split: option.splits list.splits if_splits)
qed simp

text \<open>The checksummed form of an address is the same address, in one line without space.\<close>

lemma checksum_evm_address_Inr:
  assumes "checksum_evm_address A address = Inr r"
  shows "trim r = r \<and> normalize_evm_address r = normalize_evm_address address \<and> validate_evm_address r = Inr () \<and> one_line r
    \<and> normalize_evm_address (normalize_evm_address r) = normalize_evm_address r"
proof -
  obtain raw rest where t: "trim address = ''0x'' @ raw" "length raw = 40" "\<forall>c \<in> set raw. is_ascii_hexdigit c"
    and c: "checksum_chars (to_lowercase raw) (hex_encode (ax_ext A) (ax_keccak A (bytes_of (to_lowercase raw)))) = Inr rest"
      "r = ''0x'' @ rest"
    using assms unfolding checksum_evm_address_def validate_evm_address_def
    by (auto simp: andthen_Inr Let_def strip_prefix_Some split: option.splits)
  have l: "map ascii_lower rest = map ascii_lower raw" and h: "\<forall>c \<in> set rest. is_ascii_hexdigit c"
    using checksum_chars_Inr[OF c(1)] t(3) by (auto simp: to_lowercase_def hexdigit_lower)
  have g: "\<forall>c \<in> set r. graphic c" using h c(2) by (auto simp: hexdigit_graphic) (simp_all add: graphic_def)
  have tr: "trim r = r" by (rule trim_all_graphic[OF g])
  then have tr2: "trim (CHR ''0'' # CHR ''x'' # rest) = CHR ''0'' # CHR ''x'' # rest" by (simp add: c(2))
  have "length rest = 40" using arg_cong[OF l, of length] t(2) by simp
  then have "validate_evm_address r = Inr ()"
    using h by (simp add: c(2) tr2 validate_evm_address_def strip_prefix_def)
  moreover have "normalize_evm_address r = normalize_evm_address address"
    by (simp add: normalize_evm_address_def tr2 t(1) c(2) to_lowercase_def l)
  moreover have "\<forall>c \<in> set (to_lowercase r). graphic c"
    using h by (auto simp: c(2) to_lowercase_def hexdigit_graphic hexdigit_lower) (simp_all add: graphic_def ascii_lower_def)
  then have "normalize_evm_address (normalize_evm_address r) = normalize_evm_address r"
    by (simp add: normalize_evm_address_def tr trim_all_graphic) (simp add: to_lowercase_def)
  ultimately show ?thesis using tr g by (simp add: one_line_graphic)
qed

lemma strip_suffix_append [simp]: "strip_suffix suf (s @ suf) = Some s"
  by (simp add: strip_suffix_def suffix_def)

lemma one_line_show_u64 [simp]: "one_line (show_u64 w)"
  by (rule one_line_graphic) (simp add: show_u64_def dec_of_nat_graphic)

lemma siwe_message_lines_ok:
  assumes "time_codec A" "unat (ac_issued_at c) < 253402300800" "unat (ac_expires_at c) < 253402300800"
    and "one_line (ac_domain c)" "one_line (ac_uri c)" "one_line (trim (ac_address c))" "one_line (ac_statement c)"
    and "one_line (ac_nonce c)" "\<forall>r \<in> set (ac_resources c). one_line r"
  shows "lines (siwe_message A c) = siwe_message_lines A c"
proof -
  have "one_line SIWE_SUFFIX" by (simp add: SIWE_SUFFIX_def line_ends)
  then have "\<forall>x \<in> set (siwe_message_lines A c). one_line x"
    using assms time_roundtrip by (auto simp: siwe_message_lines_def line_ends)
  moreover have "siwe_message_lines A c \<noteq> [] \<and> last (siwe_message_lines A c) \<noteq> []"
    by (auto simp: siwe_message_lines_def last_map)
  ultimately show ?thesis unfolding siwe_message_join by (intro lines_join_one_line) auto
qed

text \<open>Reading the lines below the address gives the fields of the challenge.\<close>

lemma siwe_lines_challenge:
  assumes "time_codec A" "unat (ac_issued_at c) < 253402300800" "unat (ac_expires_at c) < 253402300800"
    and "ac_statement c = ''Sign in to ElastOS Runtime.''"
  shows "siwe_lines A (drop 2 (siwe_message_lines A c)) siwe_fields_new = Inr \<lparr>sf_uri = Some (ac_uri c),
    sf_version = Some ''1'', sf_chain_id = Some (ac_chain_id c), sf_nonce = Some (ac_nonce c), sf_issued_at = Some (ac_issued_at c),
    sf_expires_at = Some (ac_expires_at c), sf_resources = ac_resources c, sf_in_resources = (ac_resources c \<noteq> [])\<rparr>"
  using time_roundtrip[OF assms(1,2)] time_roundtrip[OF assms(1,3)] assms(4)
  by (simp add: siwe_message_lines_def siwe_lines_append siwe_line_def siwe_field_line_def strip_prefix_def andthen_def
      siwe_lines_resources siwe_fields_new_def)

lemma parse_siwe_challenge:
  assumes "time_codec A" "unat (ac_issued_at c) < 253402300800" "unat (ac_expires_at c) < 253402300800"
    and "checksum_evm_address A address = Inr (ac_address c)" "ac_statement c = ''Sign in to ElastOS Runtime.''"
    and "validate_siwe_origin_binding A (ac_domain c) (ac_uri c) = Inr ()"
    and "one_line (ac_nonce c)" "\<forall>r \<in> set (ac_resources c). one_line r"
  shows "parse_siwe_message A (siwe_message A c) = Inr \<lparr>si_domain = ac_domain c,
    si_address = normalize_evm_address (ac_address c), si_uri = ac_uri c, si_version = ''1'', si_chain_id = ac_chain_id c,
    si_nonce = ac_nonce c, si_issued_at = ac_issued_at c, si_expires_at = Some (ac_expires_at c), si_resources = ac_resources c\<rparr>"
proof -
  have one: "one_line (ac_domain c)" "one_line (ac_uri c)"
    using raw_web_origin_Inr[OF origin_binding_Inr(1)[OF assms(6)]] raw_web_origin_Inr[OF origin_binding_Inr(2)[OF assms(6)]]
    by (blast intro: one_line_clean)+
  have ad: "trim (ac_address c) = ac_address c" "validate_evm_address (ac_address c) = Inr ()" "one_line (ac_address c)"
    using checksum_evm_address_Inr[OF assms(4)] by auto
  have st: "one_line (ac_statement c)" by (simp add: assms(5) line_ends)
  have "lines (siwe_message A c) = siwe_message_lines A c"
    by (rule siwe_message_lines_ok) (use assms one ad st in simp_all)
  moreover have "siwe_message_lines A c
      = (ac_domain c @ SIWE_SUFFIX) # ac_address c # drop 2 (siwe_message_lines A c)"
    by (simp add: siwe_message_lines_def ad(1))
  ultimately have ls: "lines (siwe_message A c)
      = (ac_domain c @ SIWE_SUFFIX) # ac_address c # drop 2 (siwe_message_lines A c)" by simp
  show ?thesis unfolding parse_siwe_message_def ls
    using siwe_lines_challenge[OF assms(1-3,5)] assms(6)
    by (simp add: andthen_def ok_or_def ad siwe_finish_def)
qed

lemma challenge_new_Some:
  assumes "challenge_new A i = Some c"
  shows "ac_schema c = CHALLENGE_SCHEMA" "ac_challenge_id c = ci_challenge_id i" "ac_domain c = ci_domain i" "ac_uri c = ci_uri i"
    "ac_statement c = ''Sign in to ElastOS Runtime.''" "checksum_evm_address A (ci_address i) = Inr (ac_address c)"
    "ac_chain_id c = ci_chain_id i" "ac_nonce c = ci_nonce i" "ac_issued_at c = ci_issued_at i"
    "ac_expires_at c = saturating_add (ci_issued_at i) (ci_ttl_secs i)" "ac_resources c = ci_resources i"
  using assms by (auto simp: challenge_new_def split: sum.splits)

lemma unat_saturating_add: "unat (saturating_add a b) = min (unat a + unat b) (2 ^ 64 - 1)"
proof (cases "unat a + unat b < 2 ^ 64")
  case True
  then have "unat (a + b) = unat a + unat b" by (simp add: unat_add_lem[symmetric])
  then show ?thesis using True by (simp add: saturating_add_def)
next
  case False
  then show ?thesis by (simp add: saturating_add_def unsigned_minus_1_eq_mask mask_eq_exp_minus_1)
qed

text \<open>The checks of the verifier, on the text of a challenge made for an account.\<close>

lemma verify_siwe_accepts:
  assumes "time_codec A" "ac_schema c = CHALLENGE_SCHEMA" "ac_statement c = ''Sign in to ElastOS Runtime.''"
    and "checksum_evm_address A address = Inr (ac_address c)" "validate_siwe_origin_binding A (ac_domain c) (ac_uri c) = Inr ()"
    and "one_line (ac_nonce c)" "\<forall>r \<in> set (ac_resources c). one_line r" "challenge_resource c \<in> set (ac_resources c)"
    and "unat (ac_issued_at c) \<le> unat now + 300" "unat (ac_issued_at c) \<le> unat (ac_expires_at c)"
    and "now < ac_expires_at c" "unat (ac_expires_at c) < 253402300800"
    and "recover_evm_address A (siwe_message A c) signature = Inr (addr, h)"
    and "normalize_evm_address addr = normalize_evm_address address"
  shows "verify_siwe_challenge A c (siwe_message A c) signature now = Inr \<lparr>vs_binding = evm_account (ac_chain_id c) addr now,
    vs_recovered_address = normalize_evm_address address, vs_message_hash = h\<rparr>"
proof -
  have t: "\<not> ac_expires_at c \<le> now" "\<not> saturating_add now 300 < ac_issued_at c"
    using assms(9-12) by (simp_all add: word_less_nat_alt unat_saturating_add not_le)
  have ad: "normalize_evm_address (normalize_evm_address (ac_address c)) = normalize_evm_address (ac_address c)"
    "normalize_evm_address (ac_address c) = normalize_evm_address address"
    using checksum_evm_address_Inr[OF assms(4)] by blast+
  have p: "parse_siwe_message A (siwe_message A c) = Inr \<lparr>si_domain = ac_domain c,
    si_address = normalize_evm_address (ac_address c), si_uri = ac_uri c, si_version = ''1'', si_chain_id = ac_chain_id c,
    si_nonce = ac_nonce c, si_issued_at = ac_issued_at c, si_expires_at = Some (ac_expires_at c), si_resources = ac_resources c\<rparr>"
    by (rule parse_siwe_challenge) (use assms in simp_all)
  show ?thesis unfolding verify_siwe_challenge_def p
    using t assms ad by (simp add: andthen_def ok_or_def require_def)
qed

text \<open>
  Property C35. An honest sign-in is accepted. The server makes a challenge whose URI belongs to its origin, whose nonce and resources
  are lines of text that name the challenge, and that ends before the year 10000; the wallet signs the text of the challenge with the
  key of the account, and brings it back while the challenge lives (the server's clock may be up to 300 seconds behind the issuer's).
  Then the parser reads back every field, every comparison holds, and the proof binds the account on the challenge's chain. The law
  on times is that of the RFC 3339 library: the form of a time is one line that parses to the time.
\<close>

theorem honest_sign_in:
  assumes "time_codec A" "challenge_new A i = Some c"
    and "validate_siwe_origin_binding A (ci_domain i) (ci_uri i) = Inr ()"
    and "one_line (ci_nonce i)" "\<forall>r \<in> set (ci_resources i). one_line r"
    and "''elastos://auth/challenge/'' @ ci_challenge_id i \<in> set (ci_resources i)"
    and "unat (ci_issued_at i) + unat (ci_ttl_secs i) < 253402300800"
    and "unat (ci_issued_at i) \<le> unat now + 300" "unat now < unat (ci_issued_at i) + unat (ci_ttl_secs i)"
    and "recover_evm_address A (siwe_message A c) signature = Inr (addr, h)"
    and "normalize_evm_address addr = normalize_evm_address (ci_address i)"
  shows "verify_siwe_challenge A c (siwe_message A c) signature now = Inr \<lparr>vs_binding = evm_account (ci_chain_id i) addr now,
    vs_recovered_address = normalize_evm_address (ci_address i), vs_message_hash = h\<rparr>"
proof -
  note c = challenge_new_Some[OF assms(2)]
  have ex: "unat (ac_expires_at c) = unat (ci_issued_at i) + unat (ci_ttl_secs i)"
    using assms(7) by (simp add: c(10) unat_saturating_add)
  then have "now < ac_expires_at c" using assms(9) by (simp add: word_less_nat_alt)
  then show ?thesis
    using verify_siwe_accepts[OF assms(1) c(1,5,6) _ _ _ _ _ _ _ _ assms(10,11)] assms ex by (simp add: c challenge_resource_def)
qed

subsection \<open>A concrete sign-in\<close>

definition demo_auth :: auth_ext where
  "demo_auth = \<lparr>ax_ext = demo_ext, ax_keccak = (\<lambda>b. replicate 12 0 @ replicate 20 0x9A), ax_hex_error = (\<lambda>s. s),
     ax_signature = Inr, ax_recover = (\<lambda>h s v. Inr (replicate 65 4)), ax_format_time = (\<lambda>t. Some (dec_of_nat (nat t))),
     ax_parse_time = (\<lambda>s. case digits_val 0 s of None \<Rightarrow> Inl ''bad'' | Some n \<Rightarrow> Inr (int n)), ax_ipv6 = (\<lambda>s. False)\<rparr>"

definition demo_wallet :: string where
  "demo_wallet = ''0x'' @ concat (replicate 20 ''9a'')"

definition demo_signature :: string where
  "demo_signature = ''0x'' @ replicate 130 CHR ''0''"

definition demo_input :: challenge_input where
  "demo_input = \<lparr>ci_challenge_id = ''c-1'', ci_domain = ''https://elastos.local'', ci_uri = ''https://elastos.local/apps/home/'',
     ci_address = demo_wallet, ci_chain_id = 8453, ci_nonce = ''ABC123xyz'', ci_issued_at = 1800000000, ci_ttl_secs = 300,
     ci_resources = [''elastos://auth/challenge/c-1'', ''elastos://apps/home'']\<rparr>"

definition demo_challenge :: auth_challenge where
  "demo_challenge = the (challenge_new demo_auth demo_input)"

lemma demo_time_codec: "time_codec demo_auth"
  unfolding time_codec_def demo_auth_def using dec_of_nat_graphic by (auto simp: digits_val_dec intro: one_line_graphic)

lemma demo_origin: "validate_siwe_origin_binding demo_auth ''https://elastos.local'' ''https://elastos.local/apps/home/'' = Inr ()"
  by code_simp

definition demo_account :: string where
  "demo_account = concat (replicate 20 ''9a'')"

lemma demo_wallet_facts:
  "trim demo_wallet = demo_wallet" "strip_prefix ''0x'' demo_wallet = Some demo_account" "length demo_account = 40"
  "\<forall>c \<in> set demo_account. is_ascii_hexdigit c" "to_lowercase demo_account = demo_account"
  "\<exists>r. checksum_chars demo_account (demo_hex (replicate 12 0 @ replicate 20 0x9A)) = Inr r"
proof -
  show "trim demo_wallet = demo_wallet" by (rule trim_all_graphic) code_simp
  show "strip_prefix ''0x'' demo_wallet = Some demo_account" "length demo_account = 40"
    "\<forall>c \<in> set demo_account. is_ascii_hexdigit c" "to_lowercase demo_account = demo_account" by code_simp+
  have "\<not> isl (checksum_chars demo_account (demo_hex (replicate 12 0 @ replicate 20 0x9A)))" by code_simp
  then show "\<exists>r. checksum_chars demo_account (demo_hex (replicate 12 0 @ replicate 20 0x9A)) = Inr r"
    by (cases "checksum_chars demo_account (demo_hex (replicate 12 0 @ replicate 20 0x9A))") auto
qed

lemma demo_auth_sel:
  "ax_ext demo_auth = demo_ext" "ax_keccak demo_auth b = replicate 12 0 @ replicate 20 0x9A" "ax_signature demo_auth = Inr"
  "ax_recover demo_auth m s v = Inr (replicate 65 4)"
  by (simp_all add: demo_auth_def)

lemma demo_challenge_new: "challenge_new demo_auth demo_input = Some demo_challenge"
proof -
  obtain r where "checksum_chars demo_account (demo_hex (replicate 12 0 @ replicate 20 0x9A)) = Inr r"
    using demo_wallet_facts(6) by blast
  then have "checksum_evm_address demo_auth demo_wallet = Inr (''0x'' @ r)"
    using demo_wallet_facts(1-5)
    by (simp add: checksum_evm_address_def validate_evm_address_def require_def andthen_def Let_def demo_auth_sel)
  then show ?thesis by (simp add: demo_challenge_def challenge_new_def demo_input_def)
qed

lemma demo_recovers: "recover_evm_address demo_auth m demo_signature = Inr (demo_wallet, replicate 12 0 @ replicate 20 0x9A)"
proof -
  have "strip_prefix ''0x'' demo_signature = Some (replicate 130 CHR ''0'')" by code_simp
  moreover have "demo_unhex (replicate 130 CHR ''0'') = Some (replicate 65 0)" by code_simp
  moreover have "''0x'' @ demo_hex (drop 12 (replicate 12 0 @ replicate 20 0x9A)) = demo_wallet" by code_simp
  moreover have "length (replicate 65 (0 :: u8)) = 65" "replicate 65 (0 :: u8) ! 64 = 0" by simp_all
  ultimately show ?thesis
    by (simp add: recover_evm_address_def demo_auth_sel require_def andthen_def normalize_recovery_id_def
        ethereum_signed_message_hash_def Let_def del: append_Cons append_Nil replicate_append_same)
qed

theorem origin_confined_witness:
  "\<exists>scheme authority rest. (scheme = ''http'' \<or> scheme = ''https'') \<and> ''https://elastos.local'' = scheme @ ''://'' @ authority
    \<and> authority \<noteq> [] \<and> set authority \<inter> {CHR ''@'', CHR 0x5C, CHR ''/'', CHR ''?'', CHR ''#''} = {}
    \<and> ''https://elastos.local/apps/home/'' = ''https://elastos.local'' @ rest
    \<and> (rest = [] \<or> hd rest \<in> {CHR ''/'', CHR ''?'', CHR ''#''})"
  by (rule origin_confined[OF demo_origin])

theorem honest_sign_in_witness:
  "verify_siwe_challenge demo_auth demo_challenge (siwe_message demo_auth demo_challenge) demo_signature 1800000010
     = Inr \<lparr>vs_binding = evm_account 8453 demo_wallet 1800000010, vs_recovered_address = normalize_evm_address demo_wallet,
         vs_message_hash = replicate 12 0 @ replicate 20 0x9A\<rparr>"
  using honest_sign_in[OF demo_time_codec demo_challenge_new, of 1800000010 demo_signature demo_wallet
      "replicate 12 0 @ replicate 20 0x9A", OF _ _ _ _ _ _ _ demo_recovers] demo_origin
  by (simp add: demo_input_def line_ends)

lemma demo_verified:
  assumes "1799999700 \<le> unat now" "unat now < 1800000300"
  shows "\<exists>V. verify_siwe_challenge demo_auth demo_challenge (siwe_message demo_auth demo_challenge) demo_signature now = Inr V"
proof -
  note c = challenge_new_Some[OF demo_challenge_new, unfolded demo_input_def, simplified]
  have ex: "unat (ac_expires_at demo_challenge) = 1800000300" by (simp add: c unat_saturating_add)
  then have "now < ac_expires_at demo_challenge" using assms(2) by (simp add: word_less_nat_alt)
  then show ?thesis
    using verify_siwe_accepts[OF demo_time_codec c(1,5,6) _ _ _ _ _ _ _ _ demo_recovers] assms ex demo_origin
    by (auto simp: c challenge_resource_def line_ends)
qed

theorem sign_in_bound_witness:
  "\<exists>V V'. verify_siwe_challenge demo_auth demo_challenge (siwe_message demo_auth demo_challenge) demo_signature 1800000010 = Inr V
    \<and> verify_siwe_challenge demo_auth demo_challenge (siwe_message demo_auth demo_challenge) demo_signature 1800000020 = Inr V'
    \<and> vs_recovered_address V' = vs_recovered_address V \<and> challenge_resource demo_challenge \<in> set (ac_resources demo_challenge)"
proof -
  have "1799999700 \<le> unat (1800000010 :: u64) \<and> unat (1800000010 :: u64) < 1800000300"
    "1799999700 \<le> unat (1800000020 :: u64) \<and> unat (1800000020 :: u64) < 1800000300" by simp_all
  then obtain V V' where v:
    "verify_siwe_challenge demo_auth demo_challenge (siwe_message demo_auth demo_challenge) demo_signature 1800000010 = Inr V"
    "verify_siwe_challenge demo_auth demo_challenge (siwe_message demo_auth demo_challenge) demo_signature 1800000020 = Inr V'"
    using demo_verified by blast
  from sign_in_bound[OF v] show ?thesis using v by blast
qed

end
