(* ===== verification/Canonical.thy ===== *)
theory Canonical
  imports Replay_Codec
begin

named_theorems codec \<open>reading back what was written, one field at a time\<close>
named_theorems encoded \<open>which encodings succeed, and how long they are\<close>

section \<open>Canonical contracts\<close>

text \<open>
  \<^verbatim>\<open>elastos-protected-content-contracts/src/canonical.rs\<close>: the one representation that contracts are signed and hashed in. A
  contract type is a domain, a validator, an encoder and a decoder of its fields (the trait \<^verbatim>\<open>CanonicalBody\<close>); the bytes of a
  contract are its domain, a zero byte and its fields. The locale states what a type must promise for the bytes to determine the
  contract, and shows that decoding accepts exactly the bytes that encoding gives.
\<close>

datatype contract_error =
    WrongDomain
  | UnexpectedEnd
  | TrailingBytes
  | InvalidUtf8 string
  | InvalidField string
  | FieldTooLong string

subsection \<open>Encoding\<close>

text \<open>An encoder only appends: a step is the bytes it appends, or an error.\<close>

fun enc_seq :: "(contract_error + bytes) list \<Rightarrow> contract_error + bytes" where
  "enc_seq [] = Inr []"
| "enc_seq (p # ps) = andthen p (\<lambda>b. andthen (enc_seq ps) (\<lambda>bs. Inr (b @ bs)))"

declare enc_seq.simps [simp del]

definition enc_new :: "string \<Rightarrow> bytes" where
  "enc_new domain = bytes_of domain @ [0]"

definition enc_fixed :: "bytes \<Rightarrow> contract_error + bytes" where
  "enc_fixed b = Inr b"

definition enc_u8 :: "u8 \<Rightarrow> contract_error + bytes" where
  "enc_u8 v = Inr [v]"

definition enc_u16 :: "16 word \<Rightarrow> contract_error + bytes" where
  "enc_u16 v = Inr (be_bytes 2 v)"

definition enc_u32 :: "u32 \<Rightarrow> contract_error + bytes" where
  "enc_u32 v = Inr (be_bytes 4 v)"

definition enc_u64 :: "u64 \<Rightarrow> contract_error + bytes" where
  "enc_u64 v = Inr (be_bytes 8 v)"

definition enc_bytes :: "bytes \<Rightarrow> contract_error + bytes" where
  "enc_bytes v =
     (if length v \<ge> 2 ^ 16 then Inl (FieldTooLong ''canonical byte string'')
      else enc_seq [enc_u16 (of_nat (length v)), enc_fixed v])"

definition enc_str :: "string \<Rightarrow> contract_error + bytes" where
  "enc_str s = enc_bytes (bytes_of s)"

subsection \<open>Decoding\<close>

text \<open>A decoder step takes its value from the front of the bytes that are left.\<close>

type_synonym 'a decoder = "bytes \<Rightarrow> contract_error + 'a \<times> bytes"

definition dec_bind :: "'a decoder \<Rightarrow> ('a \<Rightarrow> 'b decoder) \<Rightarrow> 'b decoder" where
  "dec_bind d f bs = (case d bs of Inl e \<Rightarrow> Inl e | Inr (x, r) \<Rightarrow> f x r)"

definition dec_lift :: "contract_error + 'a \<Rightarrow> 'a decoder" where
  "dec_lift v bs = (case v of Inl e \<Rightarrow> Inl e | Inr x \<Rightarrow> Inr (x, bs))"

text \<open>A field whose value is checked or converted as soon as it is read.\<close>

definition dec_check :: "'a decoder \<Rightarrow> ('a \<Rightarrow> contract_error + 'b) \<Rightarrow> 'b decoder" where
  "dec_check d g = dec_bind d (\<lambda>x. dec_lift (g x))"

definition dec_new :: "bytes \<Rightarrow> string \<Rightarrow> contract_error + bytes" where
  "dec_new b domain =
     (let pre = bytes_of domain in
      if length b \<le> length pre \<or> take (length pre) b \<noteq> pre \<or> b ! length pre \<noteq> 0 then Inl WrongDomain
      else Inr (drop (length pre + 1) b))"

definition dec_take :: "nat \<Rightarrow> bytes decoder" where
  "dec_take n bs = (if n \<le> length bs then Inr (take n bs, drop n bs) else Inl UnexpectedEnd)"

definition dec_fixed :: "nat \<Rightarrow> bytes decoder" where
  "dec_fixed n = dec_take n"

definition dec_u8 :: "u8 decoder" where
  "dec_u8 = dec_bind (dec_take 1) (\<lambda>b. dec_lift (Inr (b ! 0)))"

definition dec_u16 :: "16 word decoder" where
  "dec_u16 = dec_bind (dec_fixed 2) (\<lambda>b. dec_lift (Inr (word_rcat b)))"

definition dec_u32 :: "u32 decoder" where
  "dec_u32 = dec_bind (dec_fixed 4) (\<lambda>b. dec_lift (Inr (word_rcat b)))"

definition dec_u64 :: "u64 decoder" where
  "dec_u64 = dec_bind (dec_fixed 8) (\<lambda>b. dec_lift (Inr (word_rcat b)))"

definition dec_bytes :: "string \<Rightarrow> nat \<Rightarrow> bytes decoder" where
  "dec_bytes field maximum = dec_bind dec_u16 (\<lambda>len.
     if unat len > maximum then dec_lift (Inl (FieldTooLong field)) else dec_take (unat len))"

definition string_of_bytes :: "bytes \<Rightarrow> string" where
  "string_of_bytes b = map (\<lambda>w. char_of (unat w)) b"

definition dec_str :: "string \<Rightarrow> nat \<Rightarrow> string decoder" where
  "dec_str field maximum = dec_bind (dec_bytes field maximum) (\<lambda>b.
     dec_lift (if utf8_ok (string_of_bytes b) then Inr (string_of_bytes b) else Inl (InvalidUtf8 field)))"

definition dec_finish :: "bytes \<Rightarrow> contract_error + unit" where
  "dec_finish b = (if b = [] then Inr () else Inl TrailingBytes)"

subsection \<open>Contract types\<close>

record 'a contract =
  ct_domain :: string
  ct_validate :: "'a \<Rightarrow> contract_error + unit"
  ct_encode :: "'a \<Rightarrow> contract_error + bytes"
  ct_decode :: "'a decoder"

definition canonical_bytes :: "'a contract \<Rightarrow> 'a \<Rightarrow> contract_error + bytes" where
  "canonical_bytes T x =
     andthen (ct_validate T x) (\<lambda>_. andthen (ct_encode T x) (\<lambda>fields. Inr (enc_new (ct_domain T) @ fields)))"

definition from_canonical_bytes :: "'a contract \<Rightarrow> bytes \<Rightarrow> contract_error + 'a" where
  "from_canonical_bytes T b =
     andthen (dec_new b (ct_domain T)) (\<lambda>r.
     andthen (ct_decode T r) (\<lambda>(x, r).
     andthen (dec_finish r) (\<lambda>_.
     andthen (ct_validate T x) (\<lambda>_.
     andthen (canonical_bytes T x) (\<lambda>b'.
     if b' \<noteq> b then Inl (InvalidField ''non-canonical encoding'') else Inr x)))))"

definition canonical_hash :: "externals \<Rightarrow> 'a contract \<Rightarrow> 'a \<Rightarrow> contract_error + bytes" where
  "canonical_hash X T x = andthen (canonical_bytes T x) (\<lambda>b. Inr (sha256 X b))"

definition enc_nested :: "'a contract \<Rightarrow> 'a \<Rightarrow> contract_error + bytes" where
  "enc_nested T x = andthen (canonical_bytes T x) enc_bytes"

definition dec_nested :: "'a contract \<Rightarrow> string \<Rightarrow> 'a decoder" where
  "dec_nested T field = dec_bind (dec_bytes field 65535) (\<lambda>b. dec_lift (from_canonical_bytes T b))"

text \<open>A constructor \<^verbatim>\<open>new\<close> returns the value it has validated.\<close>

definition checked :: "('a \<Rightarrow> contract_error + unit) \<Rightarrow> 'a \<Rightarrow> contract_error + 'a" where
  "checked validate x = andthen (validate x) (\<lambda>_. Inr x)"

lemma checked_Inr [codec]: "checked validate x = Inr y \<longleftrightarrow> validate x = Inr () \<and> y = x"
  by (auto simp: checked_def andthen_Inr)

definition validate_ascii_identifier :: "string \<Rightarrow> string \<Rightarrow> nat \<Rightarrow> contract_error + unit" where
  "validate_ascii_identifier v field maximum =
     (if v = [] then Inl (InvalidField field)
      else if length v > maximum then Inl (FieldTooLong field)
      else if \<not> (\<forall>c \<in> set v. graphic c) then Inl (InvalidField field)
      else Inr ())"

subsection \<open>Reading back what was written\<close>

text \<open>\<open>decodes d x b\<close>: from any bytes that begin with \<open>b\<close>, the decoder takes \<open>x\<close> and leaves the rest.\<close>

definition decodes :: "'a decoder \<Rightarrow> 'a \<Rightarrow> bytes \<Rightarrow> bool" where
  "decodes d x b \<longleftrightarrow> (\<forall>r. d (b @ r) = Inr (x, r))"

lemma decodesD: "decodes d x b \<Longrightarrow> d (b @ r) = Inr (x, r)"
  by (simp add: decodes_def)

lemma decodes_bind: "decodes d x b \<Longrightarrow> decodes (f x) y c \<Longrightarrow> decodes (dec_bind d f) y (b @ c)"
  by (simp add: decodes_def dec_bind_def)

lemma decodes_lift: "v = Inr x \<Longrightarrow> decodes (dec_lift v) x []"
  by (simp add: decodes_def dec_lift_def)

lemma decodes_lift_bind: "v = Inr x \<Longrightarrow> decodes (f x) y c \<Longrightarrow> decodes (dec_bind (dec_lift v) f) y c"
  by (simp add: decodes_def dec_bind_def dec_lift_def)

lemma decodes_check: "decodes d x b \<Longrightarrow> g x = Inr y \<Longrightarrow> decodes (dec_check d g) y b"
  by (simp add: decodes_def dec_check_def dec_bind_def dec_lift_def)

lemma decodes_fixed: "length b = n \<Longrightarrow> decodes (dec_fixed n) b b"
  by (simp add: decodes_def dec_fixed_def dec_take_def)

lemma decodes_u8: "decodes dec_u8 v [v]"
  by (simp add: decodes_def dec_u8_def dec_bind_def dec_take_def dec_lift_def)

lemma decodes_u16: "decodes dec_u16 v (be_bytes 2 v)"
  by (simp add: decodes_def dec_u16_def dec_bind_def dec_fixed_def dec_take_def dec_lift_def rcat_be_bytes)

lemma decodes_u32: "decodes dec_u32 v (be_bytes 4 v)"
  by (simp add: decodes_def dec_u32_def dec_bind_def dec_fixed_def dec_take_def dec_lift_def rcat_be_bytes)

lemma decodes_u64: "decodes dec_u64 v (be_bytes 8 v)"
  by (simp add: decodes_def dec_u64_def dec_bind_def dec_fixed_def dec_take_def dec_lift_def rcat_be_bytes)

lemma enc_bytes_Inr: "enc_bytes v = Inr b \<longleftrightarrow> length v < 65536 \<and> b = be_bytes 2 (of_nat (length v) :: 16 word) @ v"
  by (auto simp: enc_bytes_def enc_u16_def enc_fixed_def enc_seq.simps)

lemma decodes_bytes:
  assumes "enc_bytes v = Inr b" "length v \<le> maximum"
  shows "decodes (dec_bytes field maximum) v b"
proof -
  have b: "b = be_bytes 2 (of_nat (length v) :: 16 word) @ v" and len: "unat (of_nat (length v) :: 16 word) = length v"
    using assms(1) by (auto simp: enc_bytes_Inr unat_of_nat)
  show ?thesis unfolding dec_bytes_def b
    by (rule decodes_bind[OF decodes_u16]) (use assms(2) len in \<open>simp add: decodes_def dec_take_def\<close>)
qed

lemma string_of_bytes_of [simp]: "string_of_bytes (bytes_of s) = s"
proof -
  have "char_of (unat (of_char c :: u8)) = c" for c
  proof -
    have "(of_char c :: u8) = of_nat (of_char c)" by (rule of_nat_of_char [symmetric])
    then have "unat (of_char c :: u8) = of_char c" by (simp add: unat_of_nat)
    then show ?thesis by simp
  qed
  then show ?thesis by (simp add: string_of_bytes_def bytes_of_def comp_def)
qed

lemma decodes_str:
  assumes "enc_str s = Inr b" "length s \<le> maximum" "utf8_ok s"
  shows "decodes (dec_str field maximum) s b"
proof -
  have "decodes (dec_str field maximum) s (b @ [])"
    unfolding dec_str_def using assms
    by (intro decodes_bind[OF decodes_bytes decodes_lift]) (auto simp: enc_str_def)
  then show ?thesis by simp
qed

text \<open>The bytes of a step that succeeds, so that the field is a term of the value.\<close>

definition enc_ok :: "contract_error + bytes \<Rightarrow> bool" where
  "enc_ok p = (case p of Inl _ \<Rightarrow> False | Inr _ \<Rightarrow> True)"

definition enc_out :: "contract_error + bytes \<Rightarrow> bytes" where
  "enc_out p = (case p of Inl _ \<Rightarrow> [] | Inr b \<Rightarrow> b)"

lemma enc_ok_Inr: "enc_ok p \<Longrightarrow> p = Inr (enc_out p)"
  by (auto simp: enc_ok_def enc_out_def split: sum.splits)

lemma enc_seq_Inr [codec]:
  "enc_seq (p # ps) = Inr b \<longleftrightarrow> enc_ok p \<and> (\<exists>d. enc_seq ps = Inr d \<and> b = enc_out p @ d)"
  "enc_seq [] = Inr b \<longleftrightarrow> b = []"
  by (auto simp: enc_seq.simps andthen_Inr enc_ok_def enc_out_def split: sum.splits)

lemma enc_basic [codec]:
  "enc_ok (enc_fixed b)" "enc_ok (enc_u8 v)" "enc_ok (enc_u16 h)" "enc_ok (enc_u32 w)" "enc_ok (enc_u64 d)"
  "enc_out (enc_fixed b) = b" "enc_out (enc_u8 v) = [v]" "enc_out (enc_u16 h) = be_bytes 2 h" "enc_out (enc_u32 w) = be_bytes 4 w"
  "enc_out (enc_u64 d) = be_bytes 8 d"
  by (simp_all add: enc_ok_def enc_out_def enc_fixed_def enc_u8_def enc_u16_def enc_u32_def enc_u64_def)

lemma decodes_bind_iff: "decodes d x b \<Longrightarrow> decodes (dec_bind d f) y (b @ c) \<longleftrightarrow> decodes (f x) y c"
  by (simp add: decodes_def dec_bind_def)

lemma decodes_bind_lift [codec]: "decodes (dec_bind (dec_lift (Inr x)) f) y c \<longleftrightarrow> decodes (f x) y c"
  by (simp add: decodes_def dec_bind_def dec_lift_def)

lemma decodes_bind_check [codec]:
  "decodes (dec_bind (dec_check d g) f) y c \<longleftrightarrow> decodes (dec_bind d (\<lambda>v. dec_bind (dec_lift (g v)) f)) y c"
proof -
  have "dec_bind (dec_check d g) f = dec_bind d (\<lambda>v. dec_bind (dec_lift (g v)) f)"
    by (rule ext) (auto simp: dec_check_def dec_bind_def split: sum.split prod.split)
  then show ?thesis by simp
qed

lemma decodes_end [codec]: "decodes (dec_lift v) y [] \<longleftrightarrow> v = Inr y"
  by (cases v) (simp_all add: decodes_def dec_lift_def)

lemma decodes_bind_last: "decodes d x b \<Longrightarrow> decodes (dec_bind d f) y b \<longleftrightarrow> decodes (f x) y []"
  using decodes_bind_iff[of d x b f y "[]"] by simp

lemmas decodes_last [codec] =
  decodes_bind_last[OF decodes_fixed] decodes_bind_last[OF decodes_u32] decodes_bind_last[OF decodes_u64]
  decodes_bind_last[OF decodes_bytes[OF enc_ok_Inr]] decodes_bind_last[OF decodes_str[OF enc_ok_Inr]]

lemmas decodes_fields [codec] =
  decodes_bind_iff[OF decodes_fixed] decodes_bind_iff[OF decodes_u8, simplified]
  decodes_bind_iff[OF decodes_u32] decodes_bind_iff[OF decodes_u64]
  decodes_bind_iff[OF decodes_bytes[OF enc_ok_Inr]] decodes_bind_iff[OF decodes_str[OF enc_ok_Inr]]

lemma dec_bind_Inr: "dec_bind d f b = Inr z \<longleftrightarrow> (\<exists>x r. d b = Inr (x, r) \<and> f x r = Inr z)"
  by (auto simp: dec_bind_def split: sum.splits)

lemma dec_lift_Inr: "dec_lift v b = Inr (x, r) \<longleftrightarrow> v = Inr x \<and> r = b"
  by (auto simp: dec_lift_def split: sum.splits)

lemma dec_check_Inr: "dec_check d g b = Inr (y, r) \<longleftrightarrow> (\<exists>x. d b = Inr (x, r) \<and> g x = Inr y)"
  by (auto simp: dec_check_def dec_bind_Inr dec_lift_Inr)

lemma dec_fixed_Inr: "dec_fixed n b = Inr (x, r) \<Longrightarrow> length x = n"
  by (auto simp: dec_fixed_def dec_take_def split: if_splits)

lemma dec_new_Inr: "dec_new b domain = Inr r \<longleftrightarrow> b = enc_new domain @ r"
proof -
  have "b = take n b @ [0] @ drop (n + 1) b" if "n < length b" "b ! n = 0" for n
    using that id_take_nth_drop[of n b] by simp
  then show ?thesis
    by (auto simp: dec_new_def enc_new_def Let_def nth_append split: if_splits) (metis not_le append_Cons append_Nil Suc_eq_plus1)?
qed

lemma dec_finish_Inr: "dec_finish b = Inr u \<longleftrightarrow> b = []"
  by (simp add: dec_finish_def)

lemma canonical_bytes_Inr:
  "canonical_bytes T x = Inr b \<longleftrightarrow> ct_validate T x = Inr () \<and> (\<exists>f. ct_encode T x = Inr f \<and> b = enc_new (ct_domain T) @ f)"
  by (auto simp: canonical_bytes_def andthen_Inr)

lemma from_canonical_bytes_Inr:
  "from_canonical_bytes T b = Inr x \<longleftrightarrow>
     (\<exists>r. b = enc_new (ct_domain T) @ r \<and> ct_decode T r = Inr (x, [])) \<and> canonical_bytes T x = Inr b"
  by (auto simp: from_canonical_bytes_def andthen_Inr dec_new_Inr dec_finish_Inr canonical_bytes_Inr split: if_splits)

definition hash_collision :: "externals \<Rightarrow> bytes \<Rightarrow> bytes \<Rightarrow> bool" where
  "hash_collision X b c \<longleftrightarrow> b \<noteq> c \<and> sha256 X b = sha256 X c"

subsection \<open>How long an encoding is\<close>

definition enc_size :: "contract_error + bytes \<Rightarrow> nat" where
  "enc_size p = length (enc_out p)"

lemma enc_ok_basic [encoded]:
  "enc_ok (enc_fixed b)" "enc_ok (enc_u8 u)" "enc_ok (enc_u32 w)" "enc_ok (enc_u64 d)"
  "enc_size (enc_fixed b) = length b" "enc_size (enc_u8 u) = 1" "enc_size (enc_u32 w) = 4" "enc_size (enc_u64 d) = 8"
  by (simp_all add: enc_basic enc_size_def)

lemma enc_ok_seq [encoded]:
  "enc_ok (enc_seq [])" "enc_size (enc_seq []) = 0"
  "enc_ok (enc_seq (p # ps)) \<longleftrightarrow> enc_ok p \<and> enc_ok (enc_seq ps)"
  "enc_ok p \<Longrightarrow> enc_ok (enc_seq ps) \<Longrightarrow> enc_size (enc_seq (p # ps)) = enc_size p + enc_size (enc_seq ps)"
  by (auto simp: enc_ok_def enc_out_def enc_size_def enc_seq.simps andthen_def split: sum.splits)

lemma enc_ok_bytes [encoded]:
  "enc_ok (enc_bytes v) \<longleftrightarrow> length v < 65536"
  "length v < 65536 \<Longrightarrow> enc_size (enc_bytes v) = length v + 2"
  "enc_ok (enc_str s) \<longleftrightarrow> length s < 65536"
  "length s < 65536 \<Longrightarrow> enc_size (enc_str s) = length s + 2"
proof -
  have *: "enc_ok (enc_bytes v) \<longleftrightarrow> length v < 65536" "length v < 65536 \<Longrightarrow> enc_size (enc_bytes v) = length v + 2" for v
    by (auto simp: enc_ok_def enc_out_def enc_size_def enc_bytes_def enc_u16_def enc_fixed_def enc_seq.simps)
  show "enc_ok (enc_bytes v) \<longleftrightarrow> length v < 65536" "length v < 65536 \<Longrightarrow> enc_size (enc_bytes v) = length v + 2"
    "enc_ok (enc_str s) \<longleftrightarrow> length s < 65536" "length s < 65536 \<Longrightarrow> enc_size (enc_str s) = length s + 2"
    using *[of v] *[of "bytes_of s"] by (simp_all add: enc_str_def bytes_of_def)
qed

lemma enc_ok_canonical:
  "enc_ok (canonical_bytes T x) \<longleftrightarrow> ct_validate T x = Inr () \<and> enc_ok (ct_encode T x)"
  "ct_validate T x = Inr () \<Longrightarrow> enc_ok (ct_encode T x) \<Longrightarrow>
    enc_size (canonical_bytes T x) = length (ct_domain T) + 1 + enc_size (ct_encode T x)"
  by (auto simp: canonical_bytes_def enc_ok_def enc_out_def enc_size_def enc_new_def bytes_of_def andthen_def split: sum.splits)

lemma enc_ok_nested:
  "enc_ok (enc_nested T x) \<longleftrightarrow> enc_ok (canonical_bytes T x) \<and> enc_size (canonical_bytes T x) < 65536"
  "enc_ok (canonical_bytes T x) \<Longrightarrow> enc_size (canonical_bytes T x) < 65536 \<Longrightarrow>
    enc_size (enc_nested T x) = enc_size (canonical_bytes T x) + 2"
  using enc_ok_bytes(1,2)[of "enc_out (canonical_bytes T x)"]
  by (cases "canonical_bytes T x"; simp add: enc_nested_def enc_ok_def enc_out_def enc_size_def)+

text \<open>A valid value has canonical bytes, and no more of them than the bound.\<close>

definition encodes_within :: "'a contract \<Rightarrow> 'a \<Rightarrow> nat \<Rightarrow> bool" where
  "encodes_within T x n \<longleftrightarrow> enc_ok (canonical_bytes T x) \<and> enc_size (canonical_bytes T x) \<le> n"

lemma encodes_withinI:
  "\<lbrakk>ct_validate T x = Inr (); enc_ok (ct_encode T x); enc_size (ct_encode T x) + length (ct_domain T) < n\<rbrakk> \<Longrightarrow> encodes_within T x n"
  by (simp add: encodes_within_def enc_ok_canonical)

lemma encodes_withinD: "encodes_within T x n \<Longrightarrow> \<exists>b. canonical_bytes T x = Inr b \<and> length b \<le> n"
  unfolding encodes_within_def enc_size_def using enc_ok_Inr by blast

lemma encodes_within_nested:
  assumes "encodes_within T x n" "n < 65536"
  shows "enc_ok (enc_nested T x)" "enc_size (enc_nested T x) \<le> n + 2"
  using assms enc_ok_nested[of T x] by (auto simp: encodes_within_def)

subsection \<open>What a contract type promises\<close>

text \<open>
  \<open>wf\<close> holds of the values that the source's types can hold: byte arrays have their lengths. A valid value is
  read back from its fields, whatever follows them; and a decoder yields such values only.
\<close>

locale canonical_contract =
  fixes T :: "'a contract" and wf :: "'a \<Rightarrow> bool"
  assumes decode_encoded: "\<lbrakk>wf x; ct_validate T x = Inr (); ct_encode T x = Inr f\<rbrakk> \<Longrightarrow> decodes (ct_decode T) x f"
    and decode_wf: "ct_decode T b = Inr (x, r) \<Longrightarrow> wf x"
begin

lemma roundtrip:
  assumes "wf x" "canonical_bytes T x = Inr b"
  shows "from_canonical_bytes T b = Inr x"
proof -
  obtain f where f: "ct_validate T x = Inr ()" "ct_encode T x = Inr f" "b = enc_new (ct_domain T) @ f"
    using assms(2) by (auto simp: canonical_bytes_Inr)
  have "ct_decode T (f @ []) = Inr (x, [])" by (rule decodesD[OF decode_encoded[OF assms(1) f(1,2)]])
  then show ?thesis using f(3) assms(2) by (auto simp: from_canonical_bytes_Inr)
qed

text \<open>The bytes that are accepted are those of a value, and they are its only ones.\<close>

lemma exact: "from_canonical_bytes T b = Inr x \<longleftrightarrow> wf x \<and> canonical_bytes T x = Inr b"
  using roundtrip decode_wf by (auto simp: from_canonical_bytes_Inr)

lemma determined:
  assumes "wf x" "wf y" "canonical_bytes T x = Inr b" "canonical_bytes T y = Inr b"
  shows "x = y"
  using roundtrip[OF assms(1,3)] roundtrip[OF assms(2,4)] by simp

lemma decodes_nested:
  assumes "wf x" "enc_nested T x = Inr f"
  shows "decodes (dec_nested T field) x f"
proof -
  obtain b where b: "canonical_bytes T x = Inr b" "enc_bytes b = Inr f"
    using assms(2) by (auto simp: enc_nested_def andthen_Inr)
  have l: "length b \<le> 65535" using b(2) by (simp add: enc_bytes_Inr)
  have "decodes (dec_nested T field) x (f @ [])" unfolding dec_nested_def
    by (intro decodes_bind[OF decodes_bytes[OF b(2) l]] decodes_lift roundtrip[OF assms(1) b(1)])
  then show ?thesis by simp
qed

lemma nested [codec]:
  "\<lbrakk>wf x; enc_ok (enc_nested T x)\<rbrakk> \<Longrightarrow>
    decodes (dec_bind (dec_nested T field) g) y (enc_out (enc_nested T x) @ c) \<longleftrightarrow> decodes (g x) y c"
  by (rule decodes_bind_iff[OF decodes_nested[OF _ enc_ok_Inr]])

lemma nested_last [codec]:
  "\<lbrakk>wf x; enc_ok (enc_nested T x)\<rbrakk> \<Longrightarrow>
    decodes (dec_bind (dec_nested T field) g) y (enc_out (enc_nested T x)) \<longleftrightarrow> decodes (g x) y []"
  by (rule decodes_bind_last[OF decodes_nested[OF _ enc_ok_Inr]])

lemma nested_wf: "dec_nested T field b = Inr (x, r) \<Longrightarrow> wf x"
  using exact by (auto simp: dec_nested_def dec_bind_Inr dec_lift_Inr)

text \<open>Two values with one hash are equal, or their bytes are a collision of the hash.\<close>

lemma hash_determined:
  assumes "wf x" "wf y" "canonical_hash X T x = Inr h" "canonical_hash X T y = Inr h"
  shows "x = y \<or> (\<exists>b c. canonical_bytes T x = Inr b \<and> canonical_bytes T y = Inr c \<and> hash_collision X b c)"
proof -
  obtain b c where "canonical_bytes T x = Inr b" "canonical_bytes T y = Inr c" "sha256 X b = h" "sha256 X c = h"
    using assms(3,4) by (auto simp: canonical_hash_def andthen_Inr)
  then show ?thesis using determined[OF assms(1,2)] by (auto simp: hash_collision_def)
qed

end

end
