(* ===== verification/Content_Identity.thy ===== *)
theory Content_Identity
  imports Canonical
begin

section \<open>Identities of protected content\<close>

text \<open>
  \<^verbatim>\<open>elastos-protected-content-contracts/src/identity.rs\<close>, with the identities of \<^verbatim>\<open>custody_epoch.rs\<close> and \<^verbatim>\<open>custody_pool.rs\<close>:
  what a contract names its content, key envelope, policy, profile, wallet and session by. Byte arrays are byte lists with
  the lengths that the predicates \<open>wf\<close> state. Which bytes are an Ed25519 key is a parameter.
\<close>

record key_ext =
  kx_ext :: externals
  kx_ed25519 :: "bytes \<Rightarrow> bool"
  kx_x_wing :: "bytes \<Rightarrow> bool"
  kx_low_order :: "bytes \<Rightarrow> bool"

definition MAX_ENCRYPTED_CONTENT_BYTES :: u64 where "MAX_ENCRYPTED_CONTENT_BYTES = 2 ^ 50"
definition MAX_KEY_ENVELOPE_BYTES :: u32 where "MAX_KEY_ENVELOPE_BYTES = 2 ^ 20"
definition MAX_RIGHTS_POLICY_BYTES :: u32 where "MAX_RIGHTS_POLICY_BYTES = 2 ^ 20"
definition MAX_RECIPIENT_ENCRYPTION_SUITE_ID_BYTES :: nat where "MAX_RECIPIENT_ENCRYPTION_SUITE_ID_BYTES = 96"
definition MAX_THRESHOLD_NODES :: u8 where "MAX_THRESHOLD_NODES = 16"

subsection \<open>Recipients\<close>

record recipient_identity =
  ri_suite_id :: string
  ri_key_id :: bytes

lemma recipient_identity_same [codec]: "\<lparr>ri_suite_id = ri_suite_id x, ri_key_id = ri_key_id x\<rparr> = x"
  by simp

definition recipient_validate :: "recipient_identity \<Rightarrow> contract_error + unit" where
  "recipient_validate x =
     validate_ascii_identifier (ri_suite_id x) ''recipient_encryption_suite_id'' MAX_RECIPIENT_ENCRYPTION_SUITE_ID_BYTES"

definition recipient_new :: "string \<Rightarrow> bytes \<Rightarrow> contract_error + recipient_identity" where
  "recipient_new suite_id key_id = checked recipient_validate \<lparr>ri_suite_id = suite_id, ri_key_id = key_id\<rparr>"

definition matches_public_key :: "externals \<Rightarrow> recipient_identity \<Rightarrow> bytes \<Rightarrow> bool" where
  "matches_public_key X x public_key = (sha256 X public_key = ri_key_id x)"

definition recipient_contract :: "recipient_identity contract" where
  "recipient_contract = \<lparr>ct_domain = ''elastos.protected-content.recipient-key-identity/v1'',
     ct_validate = recipient_validate,
     ct_encode = (\<lambda>x. enc_seq [enc_str (ri_suite_id x), enc_fixed (ri_key_id x)]),
     ct_decode = dec_bind (dec_str ''recipient_encryption_suite_id'' MAX_RECIPIENT_ENCRYPTION_SUITE_ID_BYTES) (\<lambda>s.
       dec_bind (dec_fixed 32) (\<lambda>k. dec_lift (recipient_new s k)))\<rparr>"

definition recipient_wf :: "recipient_identity \<Rightarrow> bool" where
  "recipient_wf x \<longleftrightarrow> length (ri_key_id x) = 32"

lemma ascii_identifier_Inr:
  "validate_ascii_identifier v field m = Inr () \<Longrightarrow> length v \<le> m \<and> utf8_ok v"
  by (auto simp: validate_ascii_identifier_def split: if_splits intro: utf8_ok_graphic)

lemma recipient_validate_bounds:
  "recipient_validate x = Inr () \<Longrightarrow> length (ri_suite_id x) \<le> MAX_RECIPIENT_ENCRYPTION_SUITE_ID_BYTES"
  "recipient_validate x = Inr () \<Longrightarrow> utf8_ok (ri_suite_id x)"
  using ascii_identifier_Inr by (auto simp: recipient_validate_def)

lemmas dec_simps = dec_bind_Inr dec_check_Inr dec_lift_Inr checked_Inr

interpretation recipient: canonical_contract recipient_contract recipient_wf
  by unfold_locales
    (auto simp: recipient_contract_def recipient_wf_def recipient_new_def recipient_validate_bounds codec dec_simps
      dest: dec_fixed_Inr)

subsection \<open>Profiles, content, policies\<close>

text \<open>
  A profile is the bytes of its key; \<^verbatim>\<open>did:key\<close> text is not part of a contract. Keys of other kinds are checked in the same way,
  under the name of their field.
\<close>

definition ed25519_key :: "key_ext \<Rightarrow> string \<Rightarrow> bytes \<Rightarrow> contract_error + bytes" where
  "ed25519_key K field b = (if kx_ed25519 K b then Inr b else Inl (InvalidField field))"

definition profile_new :: "key_ext \<Rightarrow> bytes \<Rightarrow> contract_error + bytes" where
  "profile_new K b = ed25519_key K ''profile_public_key'' b"

definition profile_validate :: "key_ext \<Rightarrow> bytes \<Rightarrow> contract_error + unit" where
  "profile_validate K b = andthen (profile_new K b) (\<lambda>_. Inr ())"

definition profile_contract :: "key_ext \<Rightarrow> bytes contract" where
  "profile_contract K = \<lparr>ct_domain = ''elastos.protected-content.profile-identity/v1'', ct_validate = profile_validate K,
     ct_encode = (\<lambda>b. enc_seq [enc_fixed b]),
     ct_decode = dec_bind (dec_fixed 32) (\<lambda>b. dec_lift (profile_new K b))\<rparr>"

definition ed25519_wf :: "bytes \<Rightarrow> bool" where
  "ed25519_wf b \<longleftrightarrow> length b = 32"

lemma ed25519_key_Inr [codec]: "ed25519_key K field b = Inr k \<longleftrightarrow> kx_ed25519 K b \<and> k = b"
  by (auto simp: ed25519_key_def)

lemma ed25519_key_ok [codec]: "kx_ed25519 K b \<Longrightarrow> ed25519_key K field b = Inr b"
  by (simp add: ed25519_key_def)

interpretation profile: canonical_contract "profile_contract K" ed25519_wf for K
  by unfold_locales
    (auto simp: profile_contract_def ed25519_wf_def profile_new_def profile_validate_def andthen_Inr codec dec_simps dest: dec_fixed_Inr)

text \<open>The binding of a session is a digest other than zero.\<close>

definition session_binding_new :: "bytes \<Rightarrow> contract_error + bytes" where
  "session_binding_new v = (if v = replicate 32 0 then Inl (InvalidField ''runtime_session_binding'') else Inr v)"

record threshold =
  th_required :: u8
  th_total :: u8

lemma threshold_same [codec]: "\<lparr>th_required = th_required x, th_total = th_total x\<rparr> = x"
  by simp

definition threshold_validate :: "threshold \<Rightarrow> contract_error + unit" where
  "threshold_validate t =
     (if th_required t < 2 \<or> th_required t > th_total t \<or> th_total t > MAX_THRESHOLD_NODES
      then Inl (InvalidField ''threshold'') else Inr ())"

definition threshold_new :: "u8 \<Rightarrow> u8 \<Rightarrow> contract_error + threshold" where
  "threshold_new r t = checked threshold_validate \<lparr>th_required = r, th_total = t\<rparr>"

definition threshold_encode :: "threshold \<Rightarrow> contract_error + bytes" where
  "threshold_encode t = enc_seq [enc_u8 (th_required t), enc_u8 (th_total t)]"

definition threshold_decode :: "threshold decoder" where
  "threshold_decode = dec_bind dec_u8 (\<lambda>r. dec_bind dec_u8 (\<lambda>t. dec_lift (threshold_new r t)))"

record encrypted_content =
  ec_sha256 :: bytes
  ec_bytes :: u64

lemma encrypted_content_same [codec]: "\<lparr>ec_sha256 = ec_sha256 x, ec_bytes = ec_bytes x\<rparr> = x"
  by simp

definition encrypted_content_validate :: "encrypted_content \<Rightarrow> contract_error + unit" where
  "encrypted_content_validate x =
     (if ec_bytes x = 0 \<or> ec_bytes x > MAX_ENCRYPTED_CONTENT_BYTES then Inl (InvalidField ''ciphertext_bytes'') else Inr ())"

definition encrypted_content_new :: "bytes \<Rightarrow> u64 \<Rightarrow> contract_error + encrypted_content" where
  "encrypted_content_new d n = checked encrypted_content_validate \<lparr>ec_sha256 = d, ec_bytes = n\<rparr>"

definition encrypted_content_contract :: "encrypted_content contract" where
  "encrypted_content_contract = \<lparr>ct_domain = ''elastos.protected-content.encrypted-content/v1'',
     ct_validate = encrypted_content_validate,
     ct_encode = (\<lambda>x. enc_seq [enc_fixed (ec_sha256 x), enc_u64 (ec_bytes x)]),
     ct_decode = dec_bind (dec_fixed 32) (\<lambda>d. dec_bind dec_u64 (\<lambda>n. dec_lift (encrypted_content_new d n)))\<rparr>"

definition encrypted_content_wf :: "encrypted_content \<Rightarrow> bool" where
  "encrypted_content_wf x \<longleftrightarrow> length (ec_sha256 x) = 32"

interpretation encrypted_content: canonical_contract encrypted_content_contract encrypted_content_wf
  by unfold_locales
    (auto simp: encrypted_content_contract_def encrypted_content_wf_def encrypted_content_new_def codec dec_simps dest: dec_fixed_Inr)

record policy_identity =
  pi_sha256 :: bytes
  pi_bytes :: u32

lemma policy_identity_same [codec]: "\<lparr>pi_sha256 = pi_sha256 x, pi_bytes = pi_bytes x\<rparr> = x"
  by simp

definition policy_identity_validate :: "policy_identity \<Rightarrow> contract_error + unit" where
  "policy_identity_validate x =
     (if pi_bytes x = 0 \<or> pi_bytes x > MAX_RIGHTS_POLICY_BYTES then Inl (InvalidField ''policy_bytes'') else Inr ())"

definition policy_identity_new :: "bytes \<Rightarrow> u32 \<Rightarrow> contract_error + policy_identity" where
  "policy_identity_new d n = checked policy_identity_validate \<lparr>pi_sha256 = d, pi_bytes = n\<rparr>"

definition policy_identity_contract :: "policy_identity contract" where
  "policy_identity_contract = \<lparr>ct_domain = ''elastos.protected-content.rights-policy-identity/v1'',
     ct_validate = policy_identity_validate,
     ct_encode = (\<lambda>x. enc_seq [enc_fixed (pi_sha256 x), enc_u32 (pi_bytes x)]),
     ct_decode = dec_bind (dec_fixed 32) (\<lambda>d. dec_bind dec_u32 (\<lambda>n. dec_lift (policy_identity_new d n)))\<rparr>"

definition policy_identity_wf :: "policy_identity \<Rightarrow> bool" where
  "policy_identity_wf x \<longleftrightarrow> length (pi_sha256 x) = 32"

interpretation policy_identity: canonical_contract policy_identity_contract policy_identity_wf
  by unfold_locales
    (auto simp: policy_identity_contract_def policy_identity_wf_def policy_identity_new_def codec dec_simps dest: dec_fixed_Inr)

subsection \<open>Custody pools, epochs, committees\<close>

record pool_identity =
  pl_sha256 :: bytes
  pl_bytes :: u32

lemma pool_identity_same [codec]: "\<lparr>pl_sha256 = pl_sha256 x, pl_bytes = pl_bytes x\<rparr> = x"
  by simp

definition pool_identity_validate :: "pool_identity \<Rightarrow> contract_error + unit" where
  "pool_identity_validate x =
     (if pl_bytes x = 0 \<or> pl_bytes x > 65535 then Inl (InvalidField ''pool_bytes'') else Inr ())"

definition pool_identity_new :: "bytes \<Rightarrow> u32 \<Rightarrow> contract_error + pool_identity" where
  "pool_identity_new d n = checked pool_identity_validate \<lparr>pl_sha256 = d, pl_bytes = n\<rparr>"

definition pool_identity_contract :: "pool_identity contract" where
  "pool_identity_contract = \<lparr>ct_domain = ''elastos.protected-content.custody-pool.identity/v1'',
     ct_validate = pool_identity_validate,
     ct_encode = (\<lambda>x. enc_seq [enc_fixed (pl_sha256 x), enc_u32 (pl_bytes x)]),
     ct_decode = dec_bind (dec_fixed 32) (\<lambda>d. dec_bind dec_u32 (\<lambda>n. dec_lift (pool_identity_new d n)))\<rparr>"

definition pool_identity_wf :: "pool_identity \<Rightarrow> bool" where
  "pool_identity_wf x \<longleftrightarrow> length (pl_sha256 x) = 32"

interpretation pool_identity: canonical_contract pool_identity_contract pool_identity_wf
  by unfold_locales
    (auto simp: pool_identity_contract_def pool_identity_wf_def pool_identity_new_def codec dec_simps dest: dec_fixed_Inr)

record epoch_identity =
  ep_sha256 :: bytes
  ep_bytes :: u32

lemma epoch_identity_same [codec]: "\<lparr>ep_sha256 = ep_sha256 x, ep_bytes = ep_bytes x\<rparr> = x"
  by simp

definition epoch_identity_validate :: "epoch_identity \<Rightarrow> contract_error + unit" where
  "epoch_identity_validate x =
     (if ep_bytes x = 0 \<or> ep_bytes x > 65535 then Inl (InvalidField ''epoch_bytes'') else Inr ())"

definition epoch_identity_new :: "bytes \<Rightarrow> u32 \<Rightarrow> contract_error + epoch_identity" where
  "epoch_identity_new d n = checked epoch_identity_validate \<lparr>ep_sha256 = d, ep_bytes = n\<rparr>"

definition epoch_identity_contract :: "epoch_identity contract" where
  "epoch_identity_contract = \<lparr>ct_domain = ''elastos.protected-content.custody-epoch-identity/v1'',
     ct_validate = epoch_identity_validate,
     ct_encode = (\<lambda>x. enc_seq [enc_fixed (ep_sha256 x), enc_u32 (ep_bytes x)]),
     ct_decode = dec_bind (dec_fixed 32) (\<lambda>d. dec_bind dec_u32 (\<lambda>n. dec_lift (epoch_identity_new d n)))\<rparr>"

definition epoch_identity_wf :: "epoch_identity \<Rightarrow> bool" where
  "epoch_identity_wf x \<longleftrightarrow> length (ep_sha256 x) = 32"

interpretation epoch_identity: canonical_contract epoch_identity_contract epoch_identity_wf
  by unfold_locales
    (auto simp: epoch_identity_contract_def epoch_identity_wf_def epoch_identity_new_def codec dec_simps dest: dec_fixed_Inr)

record committee_identity =
  cm_sha256 :: bytes
  cm_bytes :: u32

lemma committee_identity_same [codec]: "\<lparr>cm_sha256 = cm_sha256 x, cm_bytes = cm_bytes x\<rparr> = x"
  by simp

definition committee_identity_validate :: "committee_identity \<Rightarrow> contract_error + unit" where
  "committee_identity_validate x =
     (if cm_bytes x = 0 \<or> cm_bytes x > 65535 then Inl (InvalidField ''authorization_bytes'') else Inr ())"

definition committee_identity_new :: "bytes \<Rightarrow> u32 \<Rightarrow> contract_error + committee_identity" where
  "committee_identity_new d n = checked committee_identity_validate \<lparr>cm_sha256 = d, cm_bytes = n\<rparr>"

definition committee_identity_contract :: "committee_identity contract" where
  "committee_identity_contract = \<lparr>ct_domain = ''elastos.protected-content.custody-committee-authorization.identity/v1'',
     ct_validate = committee_identity_validate,
     ct_encode = (\<lambda>x. enc_seq [enc_fixed (cm_sha256 x), enc_u32 (cm_bytes x)]),
     ct_decode = dec_bind (dec_fixed 32) (\<lambda>d. dec_bind dec_u32 (\<lambda>n. dec_lift (committee_identity_new d n)))\<rparr>"

definition committee_identity_wf :: "committee_identity \<Rightarrow> bool" where
  "committee_identity_wf x \<longleftrightarrow> length (cm_sha256 x) = 32"

interpretation committee_identity: canonical_contract committee_identity_contract committee_identity_wf
  by unfold_locales
    (auto simp: committee_identity_contract_def committee_identity_wf_def committee_identity_new_def codec dec_simps dest: dec_fixed_Inr)

subsection \<open>Key envelopes\<close>

lemma threshold_encode_ok [codec]: "enc_ok (threshold_encode t)" "enc_out (threshold_encode t) = [th_required t, th_total t]"
  by (simp_all add: threshold_encode_def enc_seq.simps enc_u8_def enc_ok_def enc_out_def)

lemma decodes_threshold: "threshold_validate t = Inr () \<Longrightarrow> decodes threshold_decode t [th_required t, th_total t]"
  by (simp add: threshold_decode_def threshold_new_def codec)

lemma decodes_bind_threshold [codec]:
  "threshold_validate t = Inr () \<Longrightarrow>
    decodes (dec_bind threshold_decode f) y (th_required t # th_total t # c) \<longleftrightarrow> decodes (f t) y c"
  using decodes_bind_iff[OF decodes_threshold] by simp

record key_envelope =
  ke_encrypted_content :: encrypted_content
  ke_sha256 :: bytes
  ke_bytes :: u32
  ke_node_set_id :: bytes
  ke_threshold :: threshold
  ke_pool :: pool_identity
  ke_epoch :: epoch_identity
  ke_committee :: committee_identity

lemma key_envelope_same [codec]:
  "\<lparr>ke_encrypted_content = ke_encrypted_content x, ke_sha256 = ke_sha256 x, ke_bytes = ke_bytes x, ke_node_set_id = ke_node_set_id x,
    ke_threshold = ke_threshold x, ke_pool = ke_pool x, ke_epoch = ke_epoch x, ke_committee = ke_committee x\<rparr> = x"
  by simp

definition key_envelope_validate :: "key_envelope \<Rightarrow> contract_error + unit" where
  "key_envelope_validate x =
     andthen (encrypted_content_validate (ke_encrypted_content x)) (\<lambda>_.
     andthen (threshold_validate (ke_threshold x)) (\<lambda>_.
     andthen (pool_identity_validate (ke_pool x)) (\<lambda>_.
     andthen (epoch_identity_validate (ke_epoch x)) (\<lambda>_.
     andthen (committee_identity_validate (ke_committee x)) (\<lambda>_.
     if ke_bytes x = 0 \<or> ke_bytes x > MAX_KEY_ENVELOPE_BYTES then Inl (InvalidField ''envelope_bytes'') else Inr ())))))"

definition key_envelope_new ::
    "encrypted_content \<Rightarrow> bytes \<Rightarrow> u32 \<Rightarrow> bytes \<Rightarrow> threshold \<Rightarrow> pool_identity \<Rightarrow> epoch_identity \<Rightarrow> committee_identity
      \<Rightarrow> contract_error + key_envelope" where
  "key_envelope_new content sha n node_set t pool epoch committee = checked key_envelope_validate
     \<lparr>ke_encrypted_content = content, ke_sha256 = sha, ke_bytes = n, ke_node_set_id = node_set, ke_threshold = t,
      ke_pool = pool, ke_epoch = epoch, ke_committee = committee\<rparr>"

definition key_envelope_contract :: "key_envelope contract" where
  "key_envelope_contract = \<lparr>ct_domain = ''elastos.protected-content.key-envelope/v1'',
     ct_validate = key_envelope_validate,
     ct_encode = (\<lambda>x. enc_seq [enc_nested encrypted_content_contract (ke_encrypted_content x), enc_fixed (ke_sha256 x),
       enc_u32 (ke_bytes x), enc_fixed (ke_node_set_id x), threshold_encode (ke_threshold x),
       enc_nested pool_identity_contract (ke_pool x), enc_nested epoch_identity_contract (ke_epoch x),
       enc_nested committee_identity_contract (ke_committee x)]),
     ct_decode =
       dec_bind (dec_nested encrypted_content_contract ''encrypted_content'') (\<lambda>content.
       dec_bind (dec_fixed 32) (\<lambda>sha.
       dec_bind dec_u32 (\<lambda>n.
       dec_bind (dec_fixed 32) (\<lambda>node_set.
       dec_bind threshold_decode (\<lambda>t.
       dec_bind (dec_nested pool_identity_contract ''custody_pool'') (\<lambda>pool.
       dec_bind (dec_nested epoch_identity_contract ''custody_epoch'') (\<lambda>epoch.
       dec_bind (dec_nested committee_identity_contract ''custody_committee_authorization'') (\<lambda>committee.
       dec_lift (key_envelope_new content sha n node_set t pool epoch committee)))))))))\<rparr>"

definition key_envelope_wf :: "key_envelope \<Rightarrow> bool" where
  "key_envelope_wf x \<longleftrightarrow> encrypted_content_wf (ke_encrypted_content x) \<and> length (ke_sha256 x) = 32 \<and> length (ke_node_set_id x) = 32
     \<and> pool_identity_wf (ke_pool x) \<and> epoch_identity_wf (ke_epoch x) \<and> committee_identity_wf (ke_committee x)"

lemma key_envelope_validate_parts:
  "key_envelope_validate x = Inr () \<Longrightarrow> threshold_validate (ke_threshold x) = Inr ()"
  by (auto simp: key_envelope_validate_def andthen_Inr)

interpretation key_envelope: canonical_contract key_envelope_contract key_envelope_wf
  by unfold_locales
    (auto simp: key_envelope_contract_def key_envelope_wf_def key_envelope_new_def key_envelope_validate_parts codec dec_simps
      dest: dec_fixed_Inr encrypted_content.nested_wf pool_identity.nested_wf epoch_identity.nested_wf committee_identity.nested_wf)

subsection \<open>Bindings\<close>

text \<open>What a release is about: the content, its key envelope and policy, and who may have the key in which session.\<close>

record binding =
  bi_encrypted_content :: encrypted_content
  bi_key_envelope :: key_envelope
  bi_policy :: policy_identity
  bi_profile :: bytes
  bi_wallet :: bytes
  bi_session :: bytes

lemma binding_same [codec]:
  "\<lparr>bi_encrypted_content = bi_encrypted_content x, bi_key_envelope = bi_key_envelope x, bi_policy = bi_policy x,
    bi_profile = bi_profile x, bi_wallet = bi_wallet x, bi_session = bi_session x\<rparr> = x"
  by simp

definition binding_validate :: "key_ext \<Rightarrow> binding \<Rightarrow> contract_error + unit" where
  "binding_validate K x =
     andthen (encrypted_content_validate (bi_encrypted_content x)) (\<lambda>_.
     andthen (key_envelope_validate (bi_key_envelope x)) (\<lambda>_.
     andthen (policy_identity_validate (bi_policy x)) (\<lambda>_.
     andthen (profile_validate K (bi_profile x)) (\<lambda>_.
     andthen (session_binding_new (bi_session x)) (\<lambda>_.
     require (ke_encrypted_content (bi_key_envelope x) = bi_encrypted_content x) (InvalidField ''key_envelope.encrypted_content''))))))"

definition binding_new ::
    "key_ext \<Rightarrow> encrypted_content \<Rightarrow> key_envelope \<Rightarrow> policy_identity \<Rightarrow> bytes \<Rightarrow> bytes \<Rightarrow> bytes \<Rightarrow> contract_error + binding" where
  "binding_new K content envelope policy profile wallet session = checked (binding_validate K)
     \<lparr>bi_encrypted_content = content, bi_key_envelope = envelope, bi_policy = policy, bi_profile = profile, bi_wallet = wallet,
      bi_session = session\<rparr>"

definition binding_contract :: "key_ext \<Rightarrow> binding contract" where
  "binding_contract K = \<lparr>ct_domain = ''elastos.protected-content.binding/v1'',
     ct_validate = binding_validate K,
     ct_encode = (\<lambda>x. enc_seq [enc_nested encrypted_content_contract (bi_encrypted_content x),
       enc_nested key_envelope_contract (bi_key_envelope x), enc_nested policy_identity_contract (bi_policy x),
       enc_nested (profile_contract K) (bi_profile x), enc_fixed (bi_wallet x), enc_fixed (bi_session x)]),
     ct_decode =
       dec_bind (dec_nested encrypted_content_contract ''encrypted_content'') (\<lambda>content.
       dec_bind (dec_nested key_envelope_contract ''key_envelope'') (\<lambda>envelope.
       dec_bind (dec_nested policy_identity_contract ''rights_policy'') (\<lambda>policy.
       dec_bind (dec_nested (profile_contract K) ''profile'') (\<lambda>profile.
       dec_bind (dec_fixed 20) (\<lambda>wallet.
       dec_bind (dec_check (dec_fixed 32) session_binding_new) (\<lambda>session.
       dec_lift (binding_new K content envelope policy profile wallet session)))))))\<rparr>"

definition binding_wf :: "binding \<Rightarrow> bool" where
  "binding_wf x \<longleftrightarrow> encrypted_content_wf (bi_encrypted_content x) \<and> key_envelope_wf (bi_key_envelope x)
     \<and> policy_identity_wf (bi_policy x) \<and> ed25519_wf (bi_profile x) \<and> length (bi_wallet x) = 20 \<and> length (bi_session x) = 32"

lemma session_binding_Inr: "session_binding_new v = Inr w \<longleftrightarrow> v \<noteq> replicate 32 0 \<and> w = v"
  by (auto simp: session_binding_new_def)

lemma binding_validate_parts: "binding_validate K x = Inr () \<Longrightarrow> session_binding_new (bi_session x) = Inr (bi_session x)"
  by (auto simp: binding_validate_def andthen_Inr session_binding_Inr)

interpretation binding: canonical_contract "binding_contract K" binding_wf for K
  by unfold_locales
    (auto simp: binding_contract_def binding_wf_def binding_new_def binding_validate_parts session_binding_Inr codec dec_simps
      dest: dec_fixed_Inr encrypted_content.nested_wf key_envelope.nested_wf policy_identity.nested_wf profile.nested_wf)

subsection \<open>Every valid identity can be encoded\<close>

lemma recipient_encoded:
  assumes "recipient_validate x = Inr ()" "recipient_wf x"
  shows "encodes_within recipient_contract x 190"
  using recipient_validate_bounds[OF assms(1)] assms
  by (intro encodes_withinI) (simp_all add: recipient_contract_def recipient_wf_def MAX_RECIPIENT_ENCRYPTION_SUITE_ID_BYTES_def encoded)

lemma encrypted_content_encoded:
  "encrypted_content_validate x = Inr () \<Longrightarrow> encrypted_content_wf x \<Longrightarrow> encodes_within encrypted_content_contract x 90"
  by (intro encodes_withinI) (simp_all add: encrypted_content_contract_def encrypted_content_wf_def encoded)

lemma policy_identity_encoded:
  "policy_identity_validate x = Inr () \<Longrightarrow> policy_identity_wf x \<Longrightarrow> encodes_within policy_identity_contract x 100"
  by (intro encodes_withinI) (simp_all add: policy_identity_contract_def policy_identity_wf_def encoded)

lemma pool_identity_encoded:
  "pool_identity_validate x = Inr () \<Longrightarrow> pool_identity_wf x \<Longrightarrow> encodes_within pool_identity_contract x 110"
  by (intro encodes_withinI) (simp_all add: pool_identity_contract_def pool_identity_wf_def encoded)

lemma epoch_identity_encoded:
  "epoch_identity_validate x = Inr () \<Longrightarrow> epoch_identity_wf x \<Longrightarrow> encodes_within epoch_identity_contract x 110"
  by (intro encodes_withinI) (simp_all add: epoch_identity_contract_def epoch_identity_wf_def encoded)

lemma committee_identity_encoded:
  "committee_identity_validate x = Inr () \<Longrightarrow> committee_identity_wf x \<Longrightarrow> encodes_within committee_identity_contract x 130"
  by (intro encodes_withinI) (simp_all add: committee_identity_contract_def committee_identity_wf_def encoded)

lemma profile_encoded: "profile_validate K x = Inr () \<Longrightarrow> ed25519_wf x \<Longrightarrow> encodes_within (profile_contract K) x 90"
  by (intro encodes_withinI) (simp_all add: profile_contract_def ed25519_wf_def encoded)

lemma threshold_encoded [encoded]: "enc_size (threshold_encode t) = 2"
  by (simp add: enc_size_def threshold_encode_ok)

lemma key_envelope_encoded:
  assumes "key_envelope_validate x = Inr ()" "key_envelope_wf x"
  shows "encodes_within key_envelope_contract x 700"
proof -
  have parts: "encodes_within encrypted_content_contract (ke_encrypted_content x) 90"
    "encodes_within pool_identity_contract (ke_pool x) 110" "encodes_within epoch_identity_contract (ke_epoch x) 110"
    "encodes_within committee_identity_contract (ke_committee x) 130"
    using assms by (auto simp: key_envelope_validate_def key_envelope_wf_def andthen_Inr
      intro!: encrypted_content_encoded pool_identity_encoded epoch_identity_encoded committee_identity_encoded)
  show ?thesis using assms parts[THEN encodes_within_nested(1)] parts[THEN encodes_within_nested(2)]
    by (intro encodes_withinI) (simp_all add: key_envelope_contract_def key_envelope_wf_def encoded threshold_encode_ok)
qed

lemma binding_encoded:
  assumes "binding_validate K x = Inr ()" "binding_wf x"
  shows "encodes_within (binding_contract K) x 1200"
proof -
  have parts: "encodes_within encrypted_content_contract (bi_encrypted_content x) 90"
    "encodes_within key_envelope_contract (bi_key_envelope x) 700" "encodes_within policy_identity_contract (bi_policy x) 100"
    "encodes_within (profile_contract K) (bi_profile x) 90"
    using assms by (auto simp: binding_validate_def binding_wf_def andthen_Inr
      intro!: encrypted_content_encoded key_envelope_encoded policy_identity_encoded profile_encoded)
  show ?thesis using assms parts[THEN encodes_within_nested(1)] parts[THEN encodes_within_nested(2)]
    by (intro encodes_withinI) (simp_all add: binding_contract_def binding_wf_def encoded)
qed

end
