(* ===== verification/Rights_Request.thy ===== *)
theory Rights_Request
  imports Content_Identity Web_Sign_In
begin

section \<open>Rights requests and release requests\<close>

text \<open>
  \<^verbatim>\<open>elastos-protected-content-contracts/src/rights.rs\<close> and \<^verbatim>\<open>release_request.rs\<close>: the wallet signs a rights request, for
  one action on one binding and one recipient key, for at most five minutes; a key is released on a release request that names the rights
  request and lies within it. A request is verified against what the caller expects, and its nonce is claimed once.
\<close>

record rights_ext =
  rx_auth :: auth_ext
  rx_keys :: key_ext
  rx_normalizes_s :: "bytes \<Rightarrow> bool"
  rx_recovery_id :: "u8 \<Rightarrow> u8 option"
  rx_signature :: "bytes \<Rightarrow> bool"
  rx_verify_strict :: "bytes \<Rightarrow> bytes \<Rightarrow> bytes \<Rightarrow> bool"

abbreviation rx_ext :: "rights_ext \<Rightarrow> externals" where
  "rx_ext R \<equiv> kx_ext (rx_keys R)"

definition MAX_RIGHTS_REQUEST_LIFETIME_SECS :: u64 where "MAX_RIGHTS_REQUEST_LIFETIME_SECS = 5 * 60"
definition RIGHTS_CLOCK_SKEW_SECS :: u64 where "RIGHTS_CLOCK_SKEW_SECS = 5"
definition WALLET_SIGNATURE_BYTES :: nat where "WALLET_SIGNATURE_BYTES = 65"
definition MAX_RELEASE_REQUEST_LIFETIME_SECS :: u64 where "MAX_RELEASE_REQUEST_LIFETIME_SECS = 60"

datatype rights_error =
    RightsContract contract_error
  | RightsReplay replay_error
  | RightsBindingMismatch string
  | WalletMismatch
  | InvalidWalletSignature
  | NotYetValid
  | RightsExpired
  | UnexpectedReceiptIssuer
  | InvalidReceiptSignature

definition map_err :: "('d \<Rightarrow> 'e) \<Rightarrow> 'd + 'a \<Rightarrow> 'e + 'a" where
  "map_err f r = (case r of Inl e \<Rightarrow> Inl (f e) | Inr x \<Rightarrow> Inr x)"

lemma map_err_Inr [simp]: "map_err f r = Inr x \<longleftrightarrow> r = Inr x"
  by (auto simp: map_err_def split: sum.splits)

subsection \<open>Actions, decisions, windows\<close>

datatype rights_action = ActView | ActStream | ActDownload | ActExecute

fun action_byte :: "rights_action \<Rightarrow> u8" where
  "action_byte ActView = 1"
| "action_byte ActStream = 2"
| "action_byte ActDownload = 3"
| "action_byte ActExecute = 4"

definition action_decode :: "u8 \<Rightarrow> contract_error + rights_action" where
  "action_decode v = (if v = 1 then Inr ActView else if v = 2 then Inr ActStream else if v = 3 then Inr ActDownload
     else if v = 4 then Inr ActExecute else Inl (InvalidField ''rights_action''))"

datatype rights_decision_v1 = DecDenied | DecAllowed

fun decision_byte :: "rights_decision_v1 \<Rightarrow> u8" where
  "decision_byte DecDenied = 0"
| "decision_byte DecAllowed = 1"

definition decision_decode :: "u8 \<Rightarrow> contract_error + rights_decision_v1" where
  "decision_decode v = (if v = 0 then Inr DecDenied else if v = 1 then Inr DecAllowed else Inl (InvalidField ''rights_decision''))"

lemma action_decode_byte [codec]: "action_decode (action_byte a) = Inr a"
  by (cases a) (simp_all add: action_decode_def)

lemma decision_decode_byte [codec]: "decision_decode (decision_byte d) = Inr d"
  by (cases d) (simp_all add: decision_decode_def)

definition validate_time_window :: "u64 \<Rightarrow> u64 \<Rightarrow> u64 \<Rightarrow> string \<Rightarrow> contract_error + unit" where
  "validate_time_window issued_at expires_at maximum_lifetime field =
     (if issued_at = 0 \<or> expires_at \<le> issued_at \<or> expires_at - issued_at > maximum_lifetime then Inl (InvalidField field) else Inr ())"

definition validate_active :: "u64 \<Rightarrow> u64 \<Rightarrow> u64 \<Rightarrow> rights_error + unit" where
  "validate_active issued_at expires_at now =
     (if saturating_add now RIGHTS_CLOCK_SKEW_SECS < issued_at then Inl NotYetValid
      else if now \<ge> expires_at then Inl RightsExpired else Inr ())"

subsection \<open>Rights requests\<close>

record rights_scope =
  rs_binding :: binding
  rs_action :: rights_action
  rs_recipient :: recipient_identity

lemma rights_scope_same [codec]:
  "\<lparr>rs_binding = rs_binding x, rs_action = rs_action x, rs_recipient = rs_recipient x\<rparr> = x"
  by simp

definition rights_scope_validate :: "key_ext \<Rightarrow> rights_scope \<Rightarrow> contract_error + unit" where
  "rights_scope_validate K x =
     andthen (canonical_bytes (binding_contract K) (rs_binding x)) (\<lambda>_.
     andthen (canonical_bytes recipient_contract (rs_recipient x)) (\<lambda>_. Inr ()))"

definition rights_scope_contract :: "key_ext \<Rightarrow> rights_scope contract" where
  "rights_scope_contract K = \<lparr>ct_domain = ''elastos.protected-content.rights-authority-scope/v1'',
     ct_validate = rights_scope_validate K,
     ct_encode = (\<lambda>x. enc_seq [enc_nested (binding_contract K) (rs_binding x), enc_u8 (action_byte (rs_action x)),
       enc_nested recipient_contract (rs_recipient x)]),
     ct_decode =
       dec_bind (dec_nested (binding_contract K) ''binding'') (\<lambda>b.
       dec_bind (dec_check dec_u8 action_decode) (\<lambda>a.
       dec_bind (dec_nested recipient_contract ''recipient'') (\<lambda>r.
       dec_lift (Inr \<lparr>rs_binding = b, rs_action = a, rs_recipient = r\<rparr>))))\<rparr>"

definition rights_scope_wf :: "rights_scope \<Rightarrow> bool" where
  "rights_scope_wf x \<longleftrightarrow> binding_wf (rs_binding x) \<and> recipient_wf (rs_recipient x)"

interpretation rights_scope: canonical_contract "rights_scope_contract K" rights_scope_wf for K
  by unfold_locales
    (auto simp: rights_scope_contract_def rights_scope_wf_def codec dec_simps dest: binding.nested_wf recipient.nested_wf)

record rights_request =
  rq_binding :: binding
  rq_action :: rights_action
  rq_recipient :: recipient_identity
  rq_issued_at :: u64
  rq_expires_at :: u64
  rq_nonce :: bytes

lemma rights_request_same [codec]:
  "\<lparr>rq_binding = rq_binding x, rq_action = rq_action x, rq_recipient = rq_recipient x, rq_issued_at = rq_issued_at x,
    rq_expires_at = rq_expires_at x, rq_nonce = rq_nonce x\<rparr> = x"
  by simp

definition rights_request_validate :: "key_ext \<Rightarrow> rights_request \<Rightarrow> contract_error + unit" where
  "rights_request_validate K x =
     andthen (canonical_bytes (binding_contract K) (rq_binding x)) (\<lambda>_.
     andthen (canonical_bytes recipient_contract (rq_recipient x)) (\<lambda>_.
     validate_time_window (rq_issued_at x) (rq_expires_at x) MAX_RIGHTS_REQUEST_LIFETIME_SECS ''rights_request_lifetime''))"

definition rights_request_new ::
    "key_ext \<Rightarrow> binding \<Rightarrow> rights_action \<Rightarrow> recipient_identity \<Rightarrow> u64 \<Rightarrow> u64 \<Rightarrow> bytes \<Rightarrow> contract_error + rights_request" where
  "rights_request_new K b a r issued_at expires_at nonce = checked (rights_request_validate K)
     \<lparr>rq_binding = b, rq_action = a, rq_recipient = r, rq_issued_at = issued_at, rq_expires_at = expires_at, rq_nonce = nonce\<rparr>"

definition rights_request_contract :: "key_ext \<Rightarrow> rights_request contract" where
  "rights_request_contract K = \<lparr>ct_domain = ''elastos.protected-content.rights-request/v1'',
     ct_validate = rights_request_validate K,
     ct_encode = (\<lambda>x. enc_seq [enc_nested (binding_contract K) (rq_binding x), enc_u8 (action_byte (rq_action x)),
       enc_nested recipient_contract (rq_recipient x), enc_u64 (rq_issued_at x), enc_u64 (rq_expires_at x), enc_fixed (rq_nonce x)]),
     ct_decode =
       dec_bind (dec_nested (binding_contract K) ''binding'') (\<lambda>b.
       dec_bind (dec_check dec_u8 action_decode) (\<lambda>a.
       dec_bind (dec_nested recipient_contract ''recipient'') (\<lambda>r.
       dec_bind dec_u64 (\<lambda>issued_at.
       dec_bind dec_u64 (\<lambda>expires_at.
       dec_bind (dec_fixed 16) (\<lambda>nonce.
       dec_lift (rights_request_new K b a r issued_at expires_at nonce)))))))\<rparr>"

definition rights_request_wf :: "rights_request \<Rightarrow> bool" where
  "rights_request_wf x \<longleftrightarrow> binding_wf (rq_binding x) \<and> recipient_wf (rq_recipient x) \<and> length (rq_nonce x) = 16"

interpretation rights_request: canonical_contract "rights_request_contract K" rights_request_wf for K
  by unfold_locales
    (auto simp: rights_request_contract_def rights_request_wf_def rights_request_new_def codec dec_simps
      dest: dec_fixed_Inr binding.nested_wf recipient.nested_wf)

definition rights_request_hash :: "key_ext \<Rightarrow> rights_request \<Rightarrow> contract_error + bytes" where
  "rights_request_hash K x = canonical_hash (kx_ext K) (rights_request_contract K) x"

text \<open>The claim of a request is for its scope and nonce: its times are not part of it.\<close>

definition rights_scope_of :: "rights_request \<Rightarrow> rights_scope" where
  "rights_scope_of x = \<lparr>rs_binding = rq_binding x, rs_action = rq_action x, rs_recipient = rq_recipient x\<rparr>"

definition rights_claim_key :: "key_ext \<Rightarrow> rights_request \<Rightarrow> contract_error + claim_key" where
  "rights_claim_key K x =
     andthen (canonical_hash (kx_ext K) (rights_scope_contract K) (rights_scope_of x)) (\<lambda>h.
     Inr \<lparr>ck_scope = h, ck_nonce = rq_nonce x\<rparr>)"

subsection \<open>The wallet's signature\<close>

record signed_request =
  wr_request :: rights_request
  wr_signature :: bytes

lemma signed_request_same [codec]: "\<lparr>wr_request = wr_request x, wr_signature = wr_signature x\<rparr> = x"
  by simp

definition signed_request_validate :: "key_ext \<Rightarrow> signed_request \<Rightarrow> contract_error + unit" where
  "signed_request_validate K x =
     andthen (canonical_bytes (rights_request_contract K) (wr_request x)) (\<lambda>_.
     if length (wr_signature x) \<noteq> WALLET_SIGNATURE_BYTES \<or> \<not> (wr_signature x ! 64 \<in> {0, 1})
     then Inl (InvalidField ''wallet_signature'') else Inr ())"

definition signed_request_new :: "key_ext \<Rightarrow> rights_request \<Rightarrow> bytes \<Rightarrow> contract_error + signed_request" where
  "signed_request_new K r sig = checked (signed_request_validate K) \<lparr>wr_request = r, wr_signature = sig\<rparr>"

definition signed_request_contract :: "key_ext \<Rightarrow> signed_request contract" where
  "signed_request_contract K = \<lparr>ct_domain = ''elastos.protected-content.wallet-signed-rights-request/v1'',
     ct_validate = signed_request_validate K,
     ct_encode = (\<lambda>x. enc_seq [enc_nested (rights_request_contract K) (wr_request x), enc_bytes (wr_signature x)]),
     ct_decode =
       dec_bind (dec_nested (rights_request_contract K) ''request'') (\<lambda>r.
       dec_bind (dec_bytes ''wallet_signature'' WALLET_SIGNATURE_BYTES) (\<lambda>sig.
       dec_lift (signed_request_new K r sig)))\<rparr>"

definition signed_request_wf :: "signed_request \<Rightarrow> bool" where
  "signed_request_wf x \<longleftrightarrow> rights_request_wf (wr_request x)"

lemma signed_request_bounds: "signed_request_validate K x = Inr () \<Longrightarrow> length (wr_signature x) = WALLET_SIGNATURE_BYTES"
  by (auto simp: signed_request_validate_def andthen_Inr split: if_splits)

interpretation signed_request: canonical_contract "signed_request_contract K" signed_request_wf for K
  by unfold_locales
    (auto simp: signed_request_contract_def signed_request_wf_def signed_request_new_def signed_request_bounds codec dec_simps
      dest: rights_request.nested_wf)

definition recover_wallet :: "rights_ext \<Rightarrow> bytes \<Rightarrow> bytes \<Rightarrow> rights_error + bytes" where
  "recover_wallet R canonical_request signature_bytes =
     (if length signature_bytes \<noteq> WALLET_SIGNATURE_BYTES then Inl InvalidWalletSignature
      else case ax_signature (rx_auth R) (take 64 signature_bytes) of
        Inl _ \<Rightarrow> Inl InvalidWalletSignature
      | Inr sig \<Rightarrow>
          if rx_normalizes_s R sig then Inl InvalidWalletSignature
          else (case rx_recovery_id R (signature_bytes ! 64) of
            None \<Rightarrow> Inl InvalidWalletSignature
          | Some recid \<Rightarrow>
              (case ax_recover (rx_auth R) (ethereum_signed_message_hash (rx_auth R) canonical_request) sig recid of
                Inl _ \<Rightarrow> Inl InvalidWalletSignature
              | Inr pk \<Rightarrow>
                  if length pk \<noteq> 65 \<or> pk ! 0 \<noteq> 4 then Inl InvalidWalletSignature
                  else (let digest = drop 12 (ax_keccak (rx_auth R) (tl pk)) in
                    if length digest = 20 then Inr digest else Inl InvalidWalletSignature))))"

record verification_context =
  vc_binding :: binding
  vc_action :: rights_action
  vc_recipient :: recipient_identity
  vc_now :: u64

record verified_rights =
  vr_request_hash :: bytes
  vr_binding :: binding
  vr_action :: rights_action
  vr_recipient :: recipient_identity
  vr_issued_at :: u64
  vr_expires_at :: u64

definition rights_verify_unclaimed ::
    "rights_ext \<Rightarrow> signed_request \<Rightarrow> verification_context \<Rightarrow> rights_error + verified_rights" where
  "rights_verify_unclaimed R x c =
     (let K = rx_keys R; q = wr_request x in
      andthen (map_err RightsContract (canonical_bytes (signed_request_contract K) x)) (\<lambda>_.
      andthen (require (rq_binding q = vc_binding c) (RightsBindingMismatch ''protected_content_binding'')) (\<lambda>_.
      andthen (require (rq_action q = vc_action c) (RightsBindingMismatch ''rights_action'')) (\<lambda>_.
      andthen (require (rq_recipient q = vc_recipient c) (RightsBindingMismatch ''recipient_key_identity'')) (\<lambda>_.
      andthen (validate_active (rq_issued_at q) (rq_expires_at q) (vc_now c)) (\<lambda>_.
      andthen (map_err RightsContract (canonical_bytes (rights_request_contract K) q)) (\<lambda>b.
      andthen (recover_wallet R b (wr_signature x)) (\<lambda>recovered.
      andthen (require (recovered = bi_wallet (rq_binding q)) WalletMismatch) (\<lambda>_.
      andthen (map_err RightsContract (rights_request_hash K q)) (\<lambda>h.
      Inr \<lparr>vr_request_hash = h, vr_binding = rq_binding q, vr_action = rq_action q, vr_recipient = rq_recipient q,
        vr_issued_at = rq_issued_at q, vr_expires_at = rq_expires_at q\<rparr>))))))))))"

text \<open>The store of claims is the caller's: it takes a claim with its expiry at a time, and keeps its own state.\<close>

type_synonym 's claimer = "claim_key \<Rightarrow> u64 \<Rightarrow> u64 \<Rightarrow> 's \<Rightarrow> (replay_error + unit) \<times> 's"

definition rights_verify ::
    "rights_ext \<Rightarrow> 's claimer \<Rightarrow> signed_request \<Rightarrow> verification_context \<Rightarrow> 's \<Rightarrow> (rights_error + verified_rights) \<times> 's" where
  "rights_verify R claim x c s =
     (case rights_verify_unclaimed R x c of
        Inl e \<Rightarrow> (Inl e, s)
      | Inr verified \<Rightarrow>
          (case rights_claim_key (rx_keys R) (wr_request x) of
             Inl e \<Rightarrow> (Inl (RightsContract e), s)
           | Inr k \<Rightarrow>
               (case claim k (rq_expires_at (wr_request x)) (vc_now c) s of
                  (Inl e, s) \<Rightarrow> (Inl (RightsReplay e), s)
                | (Inr _, s) \<Rightarrow> (Inr verified, s))))"

subsection \<open>Release requests\<close>

datatype key_release_error =
    ReleaseContract contract_error
  | ReleaseRights rights_error
  | ReleaseReplay replay_error
  | ReleaseBindingMismatch string
  | UnknownNode
  | RightsDenied
  | InvalidNodeDecisionSignature
  | InvalidNodeContributionSignature
  | InvalidTerminalSignature
  | UnexpectedTerminalIssuer
  | InsufficientContributions

record release_scope =
  ls_binding :: binding
  ls_rights_request_hash :: bytes
  ls_action :: rights_action
  ls_recipient :: recipient_identity

lemma release_scope_same [codec]:
  "\<lparr>ls_binding = ls_binding x, ls_rights_request_hash = ls_rights_request_hash x, ls_action = ls_action x,
    ls_recipient = ls_recipient x\<rparr> = x"
  by simp

definition release_scope_validate :: "key_ext \<Rightarrow> release_scope \<Rightarrow> contract_error + unit" where
  "release_scope_validate K x =
     andthen (canonical_bytes (binding_contract K) (ls_binding x)) (\<lambda>_.
     andthen (canonical_bytes recipient_contract (ls_recipient x)) (\<lambda>_. Inr ()))"

definition release_scope_contract :: "key_ext \<Rightarrow> release_scope contract" where
  "release_scope_contract K = \<lparr>ct_domain = ''elastos.protected-content.release-authority-scope/v1'',
     ct_validate = release_scope_validate K,
     ct_encode = (\<lambda>x. enc_seq [enc_nested (binding_contract K) (ls_binding x), enc_fixed (ls_rights_request_hash x),
       enc_u8 (action_byte (ls_action x)), enc_nested recipient_contract (ls_recipient x)]),
     ct_decode =
       dec_bind (dec_nested (binding_contract K) ''binding'') (\<lambda>b.
       dec_bind (dec_fixed 32) (\<lambda>h.
       dec_bind (dec_check dec_u8 action_decode) (\<lambda>a.
       dec_bind (dec_nested recipient_contract ''recipient'') (\<lambda>r.
       dec_lift (Inr \<lparr>ls_binding = b, ls_rights_request_hash = h, ls_action = a, ls_recipient = r\<rparr>)))))\<rparr>"

definition release_scope_wf :: "release_scope \<Rightarrow> bool" where
  "release_scope_wf x \<longleftrightarrow> binding_wf (ls_binding x) \<and> length (ls_rights_request_hash x) = 32 \<and> recipient_wf (ls_recipient x)"

interpretation release_scope: canonical_contract "release_scope_contract K" release_scope_wf for K
  by unfold_locales
    (auto simp: release_scope_contract_def release_scope_wf_def codec dec_simps
      dest: dec_fixed_Inr binding.nested_wf recipient.nested_wf)

record release_request =
  rl_binding :: binding
  rl_rights_request_hash :: bytes
  rl_action :: rights_action
  rl_recipient :: recipient_identity
  rl_issued_at :: u64
  rl_expires_at :: u64
  rl_nonce :: bytes

lemma release_request_same [codec]:
  "\<lparr>rl_binding = rl_binding x, rl_rights_request_hash = rl_rights_request_hash x, rl_action = rl_action x,
    rl_recipient = rl_recipient x, rl_issued_at = rl_issued_at x, rl_expires_at = rl_expires_at x, rl_nonce = rl_nonce x\<rparr> = x"
  by simp

definition release_request_validate :: "key_ext \<Rightarrow> release_request \<Rightarrow> contract_error + unit" where
  "release_request_validate K x =
     andthen (canonical_bytes (binding_contract K) (rl_binding x)) (\<lambda>_.
     andthen (canonical_bytes recipient_contract (rl_recipient x)) (\<lambda>_.
     validate_time_window (rl_issued_at x) (rl_expires_at x) MAX_RELEASE_REQUEST_LIFETIME_SECS ''key_release_request_lifetime''))"

definition release_request_new ::
    "key_ext \<Rightarrow> binding \<Rightarrow> bytes \<Rightarrow> rights_action \<Rightarrow> recipient_identity \<Rightarrow> u64 \<Rightarrow> u64 \<Rightarrow> bytes \<Rightarrow> contract_error + release_request" where
  "release_request_new K b h a r issued_at expires_at nonce = checked (release_request_validate K)
     \<lparr>rl_binding = b, rl_rights_request_hash = h, rl_action = a, rl_recipient = r, rl_issued_at = issued_at,
      rl_expires_at = expires_at, rl_nonce = nonce\<rparr>"

definition release_request_contract :: "key_ext \<Rightarrow> release_request contract" where
  "release_request_contract K = \<lparr>ct_domain = ''elastos.protected-content.key-release-request/v1'',
     ct_validate = release_request_validate K,
     ct_encode = (\<lambda>x. enc_seq [enc_nested (binding_contract K) (rl_binding x), enc_fixed (rl_rights_request_hash x),
       enc_u8 (action_byte (rl_action x)), enc_nested recipient_contract (rl_recipient x), enc_u64 (rl_issued_at x),
       enc_u64 (rl_expires_at x), enc_fixed (rl_nonce x)]),
     ct_decode =
       dec_bind (dec_nested (binding_contract K) ''binding'') (\<lambda>b.
       dec_bind (dec_fixed 32) (\<lambda>h.
       dec_bind (dec_check dec_u8 action_decode) (\<lambda>a.
       dec_bind (dec_nested recipient_contract ''recipient'') (\<lambda>r.
       dec_bind dec_u64 (\<lambda>issued_at.
       dec_bind dec_u64 (\<lambda>expires_at.
       dec_bind (dec_fixed 16) (\<lambda>nonce.
       dec_lift (release_request_new K b h a r issued_at expires_at nonce))))))))\<rparr>"

definition release_request_wf :: "release_request \<Rightarrow> bool" where
  "release_request_wf x \<longleftrightarrow> binding_wf (rl_binding x) \<and> length (rl_rights_request_hash x) = 32 \<and> recipient_wf (rl_recipient x)
     \<and> length (rl_nonce x) = 16"

interpretation release_request: canonical_contract "release_request_contract K" release_request_wf for K
  by unfold_locales
    (auto simp: release_request_contract_def release_request_wf_def release_request_new_def codec dec_simps
      dest: dec_fixed_Inr binding.nested_wf recipient.nested_wf)

definition release_request_hash :: "key_ext \<Rightarrow> release_request \<Rightarrow> contract_error + bytes" where
  "release_request_hash K x = canonical_hash (kx_ext K) (release_request_contract K) x"

definition release_scope_of :: "release_request \<Rightarrow> release_scope" where
  "release_scope_of x = \<lparr>ls_binding = rl_binding x, ls_rights_request_hash = rl_rights_request_hash x, ls_action = rl_action x,
     ls_recipient = rl_recipient x\<rparr>"

definition release_claim_key :: "key_ext \<Rightarrow> release_request \<Rightarrow> contract_error + claim_key" where
  "release_claim_key K x =
     andthen (canonical_hash (kx_ext K) (release_scope_contract K) (release_scope_of x)) (\<lambda>h.
     Inr \<lparr>ck_scope = h, ck_nonce = rl_nonce x\<rparr>)"

record verified_release =
  vl_request_hash :: bytes
  vl_binding :: binding
  vl_rights_request_hash :: bytes
  vl_action :: rights_action
  vl_recipient :: recipient_identity
  vl_issued_at :: u64
  vl_expires_at :: u64

definition release_verify_unclaimed ::
    "key_ext \<Rightarrow> release_request \<Rightarrow> verified_rights \<Rightarrow> u64 \<Rightarrow> key_release_error + verified_release" where
  "release_verify_unclaimed K x rights now =
     andthen (map_err ReleaseContract (canonical_bytes (release_request_contract K) x)) (\<lambda>_.
     andthen (require (rl_binding x = vr_binding rights) (ReleaseBindingMismatch ''protected_content_binding'')) (\<lambda>_.
     andthen (require (rl_rights_request_hash x = vr_request_hash rights) (ReleaseBindingMismatch ''rights_request_hash'')) (\<lambda>_.
     andthen (require (rl_action x = vr_action rights) (ReleaseBindingMismatch ''rights_action'')) (\<lambda>_.
     andthen (require (rl_recipient x = vr_recipient rights) (ReleaseBindingMismatch ''recipient_key_identity'')) (\<lambda>_.
     andthen (require (\<not> (rl_issued_at x < vr_issued_at rights \<or> rl_expires_at x > vr_expires_at rights))
       (ReleaseBindingMismatch ''rights_request_window'')) (\<lambda>_.
     andthen (map_err ReleaseRights (validate_active (rl_issued_at x) (rl_expires_at x) now)) (\<lambda>_.
     andthen (map_err ReleaseContract (release_request_hash K x)) (\<lambda>h.
     Inr \<lparr>vl_request_hash = h, vl_binding = rl_binding x, vl_rights_request_hash = rl_rights_request_hash x,
       vl_action = rl_action x, vl_recipient = rl_recipient x, vl_issued_at = rl_issued_at x, vl_expires_at = rl_expires_at x\<rparr>))))))))"

definition release_verify ::
    "key_ext \<Rightarrow> 's claimer \<Rightarrow> release_request \<Rightarrow> verified_rights \<Rightarrow> u64 \<Rightarrow> 's \<Rightarrow> (key_release_error + verified_release) \<times> 's" where
  "release_verify K claim x rights now s =
     (case release_verify_unclaimed K x rights now of
        Inl e \<Rightarrow> (Inl e, s)
      | Inr verified \<Rightarrow>
          (case release_claim_key K x of
             Inl e \<Rightarrow> (Inl (ReleaseContract e), s)
           | Inr k \<Rightarrow>
               (case claim k (rl_expires_at x) now s of
                  (Inl e, s) \<Rightarrow> (Inl (ReleaseReplay e), s)
                | (Inr _, s) \<Rightarrow> (Inr verified, s))))"

subsection \<open>What is verified\<close>

lemma time_window_Inr:
  "validate_time_window i e m field = Inr () \<longleftrightarrow> i \<noteq> 0 \<and> unat i < unat e \<and> unat e \<le> unat i + unat m"
proof (cases "unat i < unat e")
  case True
  then have "unat (e - i) = unat e - unat i" by (intro unat_sub) (simp add: word_le_nat_alt)
  then show ?thesis using True by (auto simp: validate_time_window_def word_le_nat_alt word_less_nat_alt)
qed (auto simp: validate_time_window_def word_le_nat_alt)

lemma active_Inr: "validate_active i e now = Inr () \<longleftrightarrow> unat i \<le> unat now + 5 \<and> unat now < unat e"
proof -
  have "unat i < 2 ^ 64" using unsigned_less[of i] by simp
  then have "saturating_add now 5 < i \<longleftrightarrow> unat now + 5 < unat i"
    by (simp add: word_less_nat_alt unat_saturating_add min_def)
  then show ?thesis by (auto simp: validate_active_def RIGHTS_CLOCK_SKEW_SECS_def word_le_nat_alt)
qed

lemma canonical_hash_Inr: "canonical_hash X T x = Inr h \<longleftrightarrow> (\<exists>b. canonical_bytes T x = Inr b \<and> h = sha256 X b)"
  by (auto simp: canonical_hash_def andthen_Inr)

lemma signed_request_request:
  "canonical_bytes (signed_request_contract K) x = Inr b \<Longrightarrow>
    \<exists>c. canonical_bytes (rights_request_contract K) (wr_request x) = Inr c \<and> ct_validate (rights_request_contract K) (wr_request x) = Inr ()"
  by (auto simp: canonical_bytes_Inr signed_request_contract_def signed_request_validate_def andthen_Inr)

lemma rights_verify_Inr:
  assumes "rights_verify_unclaimed R x c = Inr v"
  obtains b where
    "canonical_bytes (rights_request_contract (rx_keys R)) (wr_request x) = Inr b"
    "recover_wallet R b (wr_signature x) = Inr (bi_wallet (rq_binding (wr_request x)))"
    "rq_binding (wr_request x) = vc_binding c" "rq_action (wr_request x) = vc_action c" "rq_recipient (wr_request x) = vc_recipient c"
    "unat (rq_issued_at (wr_request x)) \<le> unat (vc_now c) + 5" "unat (vc_now c) < unat (rq_expires_at (wr_request x))"
    "unat (rq_expires_at (wr_request x)) \<le> unat (rq_issued_at (wr_request x)) + 300"
    "v = \<lparr>vr_request_hash = sha256 (rx_ext R) b, vr_binding = vc_binding c, vr_action = vc_action c, vr_recipient = vc_recipient c,
      vr_issued_at = rq_issued_at (wr_request x), vr_expires_at = rq_expires_at (wr_request x)\<rparr>"
proof -
  have f: "\<exists>b0. canonical_bytes (signed_request_contract (rx_keys R)) x = Inr b0"
    and act: "validate_active (rq_issued_at (wr_request x)) (rq_expires_at (wr_request x)) (vc_now c) = Inr ()"
    and rest: "\<exists>b. canonical_bytes (rights_request_contract (rx_keys R)) (wr_request x) = Inr b
      \<and> recover_wallet R b (wr_signature x) = Inr (bi_wallet (rq_binding (wr_request x)))
      \<and> rq_binding (wr_request x) = vc_binding c \<and> rq_action (wr_request x) = vc_action c \<and> rq_recipient (wr_request x) = vc_recipient c
      \<and> v = \<lparr>vr_request_hash = sha256 (rx_ext R) b, vr_binding = vc_binding c, vr_action = vc_action c, vr_recipient = vc_recipient c,
        vr_issued_at = rq_issued_at (wr_request x), vr_expires_at = rq_expires_at (wr_request x)\<rparr>"
    using assms by (auto simp: rights_verify_unclaimed_def Let_def andthen_Inr rights_request_hash_def canonical_hash_Inr)
  have "rights_request_validate (rx_keys R) (wr_request x) = Inr ()"
    using f signed_request_request by (fastforce simp: rights_request_contract_def)
  then have "unat (rq_expires_at (wr_request x)) \<le> unat (rq_issued_at (wr_request x)) + 300"
    by (auto simp: rights_request_validate_def andthen_Inr time_window_Inr MAX_RIGHTS_REQUEST_LIFETIME_SECS_def)
  then show thesis using rest act that unfolding active_Inr by blast
qed

lemma release_verify_Inr:
  assumes "release_verify_unclaimed K x rights now = Inr v"
  obtains b where
    "canonical_bytes (release_request_contract K) x = Inr b"
    "rl_binding x = vr_binding rights" "rl_rights_request_hash x = vr_request_hash rights"
    "rl_action x = vr_action rights" "rl_recipient x = vr_recipient rights"
    "unat (vr_issued_at rights) \<le> unat (rl_issued_at x)" "unat (rl_expires_at x) \<le> unat (vr_expires_at rights)"
    "unat (rl_issued_at x) \<le> unat now + 5" "unat now < unat (rl_expires_at x)" "unat (rl_expires_at x) \<le> unat (rl_issued_at x) + 60"
    "v = \<lparr>vl_request_hash = sha256 (kx_ext K) b, vl_binding = rl_binding x, vl_rights_request_hash = rl_rights_request_hash x,
      vl_action = rl_action x, vl_recipient = rl_recipient x, vl_issued_at = rl_issued_at x, vl_expires_at = rl_expires_at x\<rparr>"
proof -
  obtain b where b: "canonical_bytes (release_request_contract K) x = Inr b"
    "rl_binding x = vr_binding rights" "rl_rights_request_hash x = vr_request_hash rights"
    "rl_action x = vr_action rights" "rl_recipient x = vr_recipient rights"
    "vr_issued_at rights \<le> rl_issued_at x" "rl_expires_at x \<le> vr_expires_at rights"
    "validate_active (rl_issued_at x) (rl_expires_at x) now = Inr ()"
    "v = \<lparr>vl_request_hash = sha256 (kx_ext K) b, vl_binding = rl_binding x, vl_rights_request_hash = rl_rights_request_hash x,
      vl_action = rl_action x, vl_recipient = rl_recipient x, vl_issued_at = rl_issued_at x, vl_expires_at = rl_expires_at x\<rparr>"
    using assms by (auto simp: release_verify_unclaimed_def andthen_Inr release_request_hash_def canonical_hash_Inr not_less)
  have "release_request_validate K x = Inr ()" using b(1) by (auto simp: canonical_bytes_Inr release_request_contract_def)
  then have "unat (rl_expires_at x) \<le> unat (rl_issued_at x) + 60"
    by (auto simp: release_request_validate_def andthen_Inr time_window_Inr MAX_RELEASE_REQUEST_LIFETIME_SECS_def)
  then show thesis using that b unfolding active_Inr word_le_nat_alt by blast
qed

subsection \<open>Claims\<close>

text \<open>The times of a request are not part of its claim; everything else the wallet authorizes is.\<close>

lemma rights_claim_key_times:
  "rights_claim_key K (x\<lparr>rq_issued_at := i, rq_expires_at := e\<rparr>) = rights_claim_key K x"
  by (simp add: rights_claim_key_def rights_scope_of_def)

lemma rights_claim_key_cong:
  "rights_scope_of x = rights_scope_of y \<Longrightarrow> rq_nonce x = rq_nonce y \<Longrightarrow> rights_claim_key K x = rights_claim_key K y"
  by (simp add: rights_claim_key_def)

lemma rights_claim_key_determined:
  assumes "rights_request_wf x" "rights_request_wf y" "rights_claim_key K x = Inr k" "rights_claim_key K y = Inr k"
  shows "rights_scope_of x = rights_scope_of y \<and> rq_nonce x = rq_nonce y \<or> (\<exists>b c. hash_collision (kx_ext K) b c)"
proof -
  have "rights_scope_wf (rights_scope_of x)" "rights_scope_wf (rights_scope_of y)"
    using assms(1,2) by (simp_all add: rights_scope_wf_def rights_scope_of_def rights_request_wf_def)
  then show ?thesis
    using assms(3,4) rights_scope.hash_determined by (fastforce simp: rights_claim_key_def andthen_Inr)
qed

text \<open>
  What the trait \<^verbatim>\<open>AtomicReplayClaimer\<close> asks of a store of claims: a successful claim was not owned before and is owned until
  it expires, and no claim takes another one away.
\<close>

definition claims_durable :: "'s claimer \<Rightarrow> ('s \<Rightarrow> claim_key \<Rightarrow> u64 \<Rightarrow> bool) \<Rightarrow> bool" where
  "claims_durable claim owned \<longleftrightarrow> (\<forall>k e now s r s'. claim k e now s = (r, s') \<longrightarrow>
     (r = Inr () \<longrightarrow> \<not> owned s k now \<and> (\<forall>t < e. owned s' k t)) \<and> (\<forall>k' t. owned s k' t \<longrightarrow> owned s' k' t))"

fun verify_all ::
    "rights_ext \<Rightarrow> 's claimer \<Rightarrow> (signed_request \<times> verification_context) list \<Rightarrow> 's \<Rightarrow> (rights_error + verified_rights) list" where
  "verify_all R claim [] s = []"
| "verify_all R claim ((x, c) # xs) s = (case rights_verify R claim x c s of (r, s') \<Rightarrow> r # verify_all R claim xs s')"

lemma rights_verify_owned:
  assumes "claims_durable claim owned" "rights_verify R claim x c s = (r, s')"
  shows "owned s k t \<Longrightarrow> owned s' k t"
    and "r = Inr v \<Longrightarrow> rights_claim_key (rx_keys R) (wr_request x) = Inr k \<Longrightarrow>
      \<not> owned s k (vc_now c) \<and> (t < rq_expires_at (wr_request x) \<longrightarrow> owned s' k t)"
proof -
  have claim: "(r' = Inr () \<longrightarrow> \<not> owned s k' n \<and> (\<forall>t < e. owned s'' k' t)) \<and> (owned s k t \<longrightarrow> owned s'' k t)"
    if "claim k' e n s = (r', s'')" for k' e n r' s'' k t
    using assms(1) that unfolding claims_durable_def by blast
  show "owned s k t \<Longrightarrow> owned s' k t"
    using assms(2) claim by (auto simp: rights_verify_def split: sum.splits prod.splits)
  show "r = Inr v \<Longrightarrow> rights_claim_key (rx_keys R) (wr_request x) = Inr k \<Longrightarrow>
      \<not> owned s k (vc_now c) \<and> (t < rq_expires_at (wr_request x) \<longrightarrow> owned s' k t)"
    using assms(2) claim by (auto simp: rights_verify_def split: sum.splits prod.splits)
qed

lemma rights_verify_key:
  assumes "rights_verify R claim x c s = (Inr v, s')"
  obtains k where "rights_claim_key (rx_keys R) (wr_request x) = Inr k"
  using assms by (auto simp: rights_verify_def split: sum.splits prod.splits)

lemma verify_all_owned:
  assumes "claims_durable claim owned" "owned s k (vc_now (snd (xs ! j)))" "j < length xs"
    and "rights_claim_key (rx_keys R) (wr_request (fst (xs ! j))) = Inr k"
  shows "verify_all R claim xs s ! j \<noteq> Inr v"
  using assms(2-4)
proof (induction xs arbitrary: s j)
  case (Cons y xs)
  obtain x c r s' where y: "y = (x, c)" and v: "rights_verify R claim x c s = (r, s')" by (cases y) fastforce
  show ?case
  proof (cases j)
    case 0
    then show ?thesis using Cons.prems rights_verify_owned(2)[OF assms(1) v] by (auto simp: y v)
  next
    case (Suc i)
    then show ?thesis
      using Cons.IH[of s' i] Cons.prems rights_verify_owned(1)[OF assms(1) v] by (simp add: y v)
  qed
qed simp

subsection \<open>Every valid request can be encoded\<close>

lemma rights_scope_encoded:
  assumes "rights_scope_validate K x = Inr ()" "rights_scope_wf x"
  shows "encodes_within (rights_scope_contract K) x 1500"
proof -
  have parts: "encodes_within (binding_contract K) (rs_binding x) 1200" "encodes_within recipient_contract (rs_recipient x) 190"
    using assms by (auto simp: rights_scope_validate_def rights_scope_wf_def andthen_Inr canonical_bytes_Inr binding_contract_def
      recipient_contract_def intro!: binding_encoded[unfolded binding_contract_def] recipient_encoded[unfolded recipient_contract_def])
  show ?thesis using assms parts[THEN encodes_within_nested(1)] parts[THEN encodes_within_nested(2)]
    by (intro encodes_withinI) (simp_all add: rights_scope_contract_def rights_scope_wf_def encoded)
qed

lemma rights_request_encoded:
  assumes "rights_request_validate K x = Inr ()" "rights_request_wf x"
  shows "encodes_within (rights_request_contract K) x 1600"
proof -
  have parts: "encodes_within (binding_contract K) (rq_binding x) 1200" "encodes_within recipient_contract (rq_recipient x) 190"
    using assms by (auto simp: rights_request_validate_def rights_request_wf_def andthen_Inr canonical_bytes_Inr binding_contract_def
      recipient_contract_def intro!: binding_encoded[unfolded binding_contract_def] recipient_encoded[unfolded recipient_contract_def])
  show ?thesis using assms parts[THEN encodes_within_nested(1)] parts[THEN encodes_within_nested(2)]
    by (intro encodes_withinI) (simp_all add: rights_request_contract_def rights_request_wf_def encoded)
qed

lemma release_request_encoded:
  assumes "release_request_validate K x = Inr ()" "release_request_wf x"
  shows "encodes_within (release_request_contract K) x 1600"
proof -
  have parts: "encodes_within (binding_contract K) (rl_binding x) 1200" "encodes_within recipient_contract (rl_recipient x) 190"
    using assms by (auto simp: release_request_validate_def release_request_wf_def andthen_Inr canonical_bytes_Inr binding_contract_def
      recipient_contract_def intro!: binding_encoded[unfolded binding_contract_def] recipient_encoded[unfolded recipient_contract_def])
  show ?thesis using assms parts[THEN encodes_within_nested(1)] parts[THEN encodes_within_nested(2)]
    by (intro encodes_withinI) (simp_all add: release_request_contract_def release_request_wf_def encoded)
qed

lemma signed_request_encoded:
  assumes "signed_request_validate K x = Inr ()" "signed_request_wf x"
  shows "encodes_within (signed_request_contract K) x 1800"
proof -
  have "rights_request_validate K (wr_request x) = Inr ()"
    using assms(1) by (auto simp: signed_request_validate_def andthen_Inr canonical_bytes_Inr rights_request_contract_def)
  then have part: "encodes_within (rights_request_contract K) (wr_request x) 1600"
    using assms(2) by (intro rights_request_encoded) (simp_all add: signed_request_wf_def)
  show ?thesis
    using assms part[THEN encodes_within_nested(1)] part[THEN encodes_within_nested(2)] signed_request_bounds[OF assms(1)]
    by (intro encodes_withinI) (simp_all add: signed_request_contract_def encoded WALLET_SIGNATURE_BYTES_def)
qed

subsection \<open>Example values\<close>

definition demo_keys :: key_ext where
  "demo_keys = \<lparr>kx_ext = demo_ext\<lparr>sha256 := (\<lambda>b. replicate 32 7)\<rparr>, kx_ed25519 = (\<lambda>b. True), kx_x_wing = (\<lambda>b. True), kx_low_order = (\<lambda>b. False)\<rparr>"

definition demo_rights :: rights_ext where
  "demo_rights = \<lparr>rx_auth = demo_auth, rx_keys = demo_keys, rx_normalizes_s = (\<lambda>s. False), rx_recovery_id = Some,
     rx_signature = (\<lambda>s. True), rx_verify_strict = (\<lambda>k m s. True)\<rparr>"

definition demo_ciphertext :: encrypted_content where
  "demo_ciphertext = \<lparr>ec_sha256 = replicate 32 1, ec_bytes = 4096\<rparr>"

definition demo_key_envelope :: key_envelope where
  "demo_key_envelope = \<lparr>ke_encrypted_content = demo_ciphertext, ke_sha256 = replicate 32 2, ke_bytes = 512, ke_node_set_id = replicate 32 3,
     ke_threshold = \<lparr>th_required = 2, th_total = 3\<rparr>, ke_pool = \<lparr>pl_sha256 = replicate 32 4, pl_bytes = 64\<rparr>,
     ke_epoch = \<lparr>ep_sha256 = replicate 32 5, ep_bytes = 64\<rparr>, ke_committee = \<lparr>cm_sha256 = replicate 32 6, cm_bytes = 64\<rparr>\<rparr>"

definition demo_binding :: binding where
  "demo_binding = \<lparr>bi_encrypted_content = demo_ciphertext, bi_key_envelope = demo_key_envelope,
     bi_policy = \<lparr>pi_sha256 = replicate 32 8, pi_bytes = 128\<rparr>, bi_profile = replicate 32 9, bi_wallet = replicate 20 0x9A,
     bi_session = replicate 32 10\<rparr>"

definition demo_recipient :: recipient_identity where
  "demo_recipient = \<lparr>ri_suite_id = ''x-wing'', ri_key_id = replicate 32 11\<rparr>"

definition demo_rights_request :: "u64 \<Rightarrow> u64 \<Rightarrow> rights_request" where
  "demo_rights_request i e = \<lparr>rq_binding = demo_binding, rq_action = ActView, rq_recipient = demo_recipient, rq_issued_at = i,
     rq_expires_at = e, rq_nonce = replicate 16 12\<rparr>"

definition demo_signed :: "u64 \<Rightarrow> u64 \<Rightarrow> signed_request" where
  "demo_signed i e = \<lparr>wr_request = demo_rights_request i e, wr_signature = replicate 65 0\<rparr>"

definition demo_context :: "u64 \<Rightarrow> verification_context" where
  "demo_context n = \<lparr>vc_binding = demo_binding, vc_action = ActView, vc_recipient = demo_recipient, vc_now = n\<rparr>"

definition demo_verified_rights :: "u64 \<Rightarrow> u64 \<Rightarrow> verified_rights" where
  "demo_verified_rights i e = \<lparr>vr_request_hash = replicate 32 7, vr_binding = demo_binding, vr_action = ActView, vr_recipient = demo_recipient,
     vr_issued_at = i, vr_expires_at = e\<rparr>"

definition demo_release :: release_request where
  "demo_release = \<lparr>rl_binding = demo_binding, rl_rights_request_hash = replicate 32 7, rl_action = ActView,
     rl_recipient = demo_recipient, rl_issued_at = 1100, rl_expires_at = 1160, rl_nonce = replicate 16 13\<rparr>"

lemma demo_binding_valid: "binding_validate demo_keys demo_binding = Inr ()" "binding_wf demo_binding"
  "recipient_validate demo_recipient = Inr ()" "recipient_wf demo_recipient"
  by code_simp+

lemma demo_rights_request_valid:
  assumes "validate_time_window i e MAX_RIGHTS_REQUEST_LIFETIME_SECS ''rights_request_lifetime'' = Inr ()"
  shows "rights_request_validate demo_keys (demo_rights_request i e) = Inr ()" "rights_request_wf (demo_rights_request i e)"
proof -
  show "rights_request_validate demo_keys (demo_rights_request i e) = Inr ()"
    using assms encodes_withinD[OF binding_encoded[OF demo_binding_valid(1,2)]] encodes_withinD[OF recipient_encoded[OF demo_binding_valid(3,4)]]
    by (auto simp: rights_request_validate_def demo_rights_request_def andthen_def)
  show "rights_request_wf (demo_rights_request i e)"
    using demo_binding_valid by (simp add: rights_request_wf_def demo_rights_request_def)
qed

lemma demo_signed_valid:
  assumes "validate_time_window i e MAX_RIGHTS_REQUEST_LIFETIME_SECS ''rights_request_lifetime'' = Inr ()"
  shows "signed_request_validate demo_keys (demo_signed i e) = Inr ()" "signed_request_wf (demo_signed i e)"
  using encodes_withinD[OF rights_request_encoded[OF demo_rights_request_valid[OF assms]]] demo_rights_request_valid(2)[OF assms]
  by (auto simp: signed_request_validate_def demo_signed_def signed_request_wf_def andthen_def WALLET_SIGNATURE_BYTES_def)

lemma demo_rights_verified:
  assumes "validate_time_window i e MAX_RIGHTS_REQUEST_LIFETIME_SECS ''rights_request_lifetime'' = Inr ()"
    and act: "validate_active i e n = Inr ()"
  shows "rights_verify_unclaimed demo_rights (demo_signed i e) (demo_context n) = Inr (demo_verified_rights i e)"
proof -
  obtain b c where b: "canonical_bytes (rights_request_contract demo_keys) (demo_rights_request i e) = Inr b"
    "canonical_bytes (signed_request_contract demo_keys) (demo_signed i e) = Inr c"
    using encodes_withinD[OF rights_request_encoded[OF demo_rights_request_valid[OF assms(1)]]]
      encodes_withinD[OF signed_request_encoded[OF demo_signed_valid[OF assms(1)]]] by blast
  have rec: "recover_wallet demo_rights b (replicate 65 0) = Inr (replicate 20 0x9A)"
    by (simp add: recover_wallet_def demo_rights_def demo_auth_def WALLET_SIGNATURE_BYTES_def)
  have keys: "rx_keys demo_rights = demo_keys" "sha256 (kx_ext demo_keys) b = replicate 32 7"
    by (simp_all add: demo_rights_def demo_keys_def)
  have hash: "rights_request_hash demo_keys (demo_rights_request i e) = Inr (replicate 32 7)"
    using b keys by (simp add: rights_request_hash_def canonical_hash_def)
  have req: "wr_request (demo_signed i e) = (demo_rights_request i e)" "wr_signature (demo_signed i e) = replicate 65 0"
    "rq_binding (demo_rights_request i e) = demo_binding" "rq_action (demo_rights_request i e) = ActView" "rq_recipient (demo_rights_request i e) = demo_recipient"
    "rq_issued_at (demo_rights_request i e) = i" "rq_expires_at (demo_rights_request i e) = e" "bi_wallet demo_binding = replicate 20 0x9A"
    by (simp_all add: demo_signed_def demo_rights_request_def demo_binding_def)
  show ?thesis unfolding rights_verify_unclaimed_def Let_def keys req b hash demo_context_def demo_verified_rights_def
    by (simp add: map_err_def andthen_def require_def act rec)
qed

lemma demo_window:
  "validate_time_window 1000 1300 MAX_RIGHTS_REQUEST_LIFETIME_SECS ''rights_request_lifetime'' = Inr ()"
  "validate_time_window 1400 1600 MAX_RIGHTS_REQUEST_LIFETIME_SECS ''rights_request_lifetime'' = Inr ()"
  by code_simp+

lemma demo_both_verified:
  "rights_verify_unclaimed demo_rights (demo_signed 1000 1300) (demo_context 1100) = Inr (demo_verified_rights 1000 1300)"
  "rights_verify_unclaimed demo_rights (demo_signed 1400 1600) (demo_context 1500) = Inr (demo_verified_rights 1400 1600)"
  by (rule demo_rights_verified, rule demo_window, simp add: active_Inr)+

lemma demo_release_verified:
  "release_verify_unclaimed demo_keys demo_release (demo_verified_rights 1000 1300) 1120 = Inr
     \<lparr>vl_request_hash = replicate 32 7, vl_binding = demo_binding, vl_rights_request_hash = replicate 32 7, vl_action = ActView,
      vl_recipient = demo_recipient, vl_issued_at = 1100, vl_expires_at = 1160\<rparr>"
proof -
  have "validate_time_window 1100 1160 MAX_RELEASE_REQUEST_LIFETIME_SECS ''key_release_request_lifetime'' = Inr ()" by code_simp
  then have v: "release_request_validate demo_keys demo_release = Inr ()"
    using encodes_withinD[OF binding_encoded[OF demo_binding_valid(1,2)]] encodes_withinD[OF recipient_encoded[OF demo_binding_valid(3,4)]]
    by (auto simp: release_request_validate_def demo_release_def andthen_def)
  have w: "release_request_wf demo_release" using demo_binding_valid by (simp add: release_request_wf_def demo_release_def)
  obtain b where b: "canonical_bytes (release_request_contract demo_keys) demo_release = Inr b"
    using encodes_withinD[OF release_request_encoded[OF v w]] by blast
  have act: "validate_active 1100 1160 1120 = Inr ()" by (simp add: active_Inr)
  have hash: "release_request_hash demo_keys demo_release = Inr (replicate 32 7)"
    using b by (simp add: release_request_hash_def canonical_hash_def demo_keys_def)
  show ?thesis using b act hash
    by (simp add: release_verify_unclaimed_def demo_release_def demo_verified_rights_def map_err_def andthen_def require_def)
qed

text \<open>A store in memory that keeps its claims.\<close>

definition list_claim :: "(claim_key \<times> u64) list claimer" where
  "list_claim k e n s = (if \<exists>(k', e') \<in> set s. k' = k \<and> n < e' then (Inl AlreadyClaimed, s) else (Inr (), (k, e) # s))"

definition list_owned :: "(claim_key \<times> u64) list \<Rightarrow> claim_key \<Rightarrow> u64 \<Rightarrow> bool" where
  "list_owned s k t \<longleftrightarrow> (\<exists>(k', e') \<in> set s. k' = k \<and> t < e')"

lemma list_claims_durable: "claims_durable list_claim list_owned"
  by (auto simp: claims_durable_def list_claim_def list_owned_def split: if_splits)

lemma demo_claim_key: "\<exists>k. rights_claim_key demo_keys (demo_rights_request 0 0) = Inr k"
proof -
  have "rights_scope_wf (rights_scope_of (demo_rights_request 0 0))" "rights_scope_validate demo_keys (rights_scope_of (demo_rights_request 0 0)) = Inr ()"
    using demo_binding_valid encodes_withinD[OF binding_encoded[OF demo_binding_valid(1,2)]]
      encodes_withinD[OF recipient_encoded[OF demo_binding_valid(3,4)]]
    by (auto simp: rights_scope_wf_def rights_scope_validate_def rights_scope_of_def demo_rights_request_def andthen_def)
  then show ?thesis
    using encodes_withinD[OF rights_scope_encoded] by (fastforce simp: rights_claim_key_def canonical_hash_def)
qed

subsection \<open>Properties\<close>

text \<open>
  Property C39. A key release never goes beyond the wallet's authority. When a release request is verified under a verified rights request,
  the wallet of its binding has signed the canonical bytes of that rights request, whose hash the release names; binding, action
  and recipient key are those the wallet signed; the release lies within the window of the rights request and is active now (up to
  five seconds of skew); it lasts a minute at most, the rights five.
\<close>

theorem release_within_rights:
  assumes "rights_verify_unclaimed R x c = Inr v" "release_verify_unclaimed (rx_keys R) y v now = Inr w"
  shows "\<exists>b. canonical_bytes (rights_request_contract (rx_keys R)) (wr_request x) = Inr b
    \<and> recover_wallet R b (wr_signature x) = Inr (bi_wallet (rl_binding y)) \<and> rl_rights_request_hash y = sha256 (rx_ext R) b
    \<and> rl_binding y = rq_binding (wr_request x) \<and> rl_action y = rq_action (wr_request x) \<and> rl_recipient y = rq_recipient (wr_request x)
    \<and> unat (rq_issued_at (wr_request x)) \<le> unat (rl_issued_at y) \<and> unat (rl_expires_at y) \<le> unat (rq_expires_at (wr_request x))
    \<and> unat (rl_issued_at y) \<le> unat now + 5 \<and> unat now < unat (rl_expires_at y)
    \<and> unat (rl_expires_at y) \<le> unat (rl_issued_at y) + 60
    \<and> unat (rq_expires_at (wr_request x)) \<le> unat (rq_issued_at (wr_request x)) + 300"
  by (rule rights_verify_Inr[OF assms(1)], rule release_verify_Inr[OF assms(2)]) auto

theorem release_within_rights_witness:
  "\<exists>b. canonical_bytes (rights_request_contract demo_keys) (demo_rights_request 1000 1300) = Inr b
    \<and> recover_wallet demo_rights b (replicate 65 0) = Inr (replicate 20 0x9A) \<and> rl_rights_request_hash demo_release = replicate 32 7"
proof -
  have keys: "rx_keys demo_rights = demo_keys" by (simp add: demo_rights_def)
  have "rl_binding demo_release = demo_binding" "bi_wallet demo_binding = replicate 20 0x9A" "rl_rights_request_hash demo_release = replicate 32 7"
    "wr_request (demo_signed 1000 1300) = demo_rights_request 1000 1300" "wr_signature (demo_signed 1000 1300) = replicate 65 0"
    by (simp_all add: demo_release_def demo_binding_def demo_signed_def)
  then show ?thesis
    using release_within_rights[OF demo_both_verified(1), unfolded keys, OF demo_release_verified] by auto
qed



text \<open>
  Property C38. Every valid signed request has canonical bytes, at most 1,800 of them, so that no nested length overflows its sixteen
  bits; and those bytes, and no others, are read back as the request.
\<close>

theorem signed_request_roundtrip:
  assumes "signed_request_validate K x = Inr ()" "signed_request_wf x"
  shows "\<exists>b. canonical_bytes (signed_request_contract K) x = Inr b \<and> length b \<le> 1800
    \<and> (\<forall>c. from_canonical_bytes (signed_request_contract K) c = Inr x \<longleftrightarrow> c = b)"
  using encodes_withinD[OF signed_request_encoded[OF assms]] assms(2) by (auto simp: signed_request.exact)

theorem signed_request_roundtrip_witness:
  "\<exists>b. canonical_bytes (signed_request_contract demo_keys) (demo_signed 1000 1300) = Inr b
    \<and> from_canonical_bytes (signed_request_contract demo_keys) b = Inr (demo_signed 1000 1300)"
  using signed_request_roundtrip[OF demo_signed_valid[OF demo_window(1)]] by blast

end
