(* ===== verification/Spec2Isabelle.thy ===== *)
theory Spec2Isabelle
  imports Prelude Strings_Bytes Externals Secure_Time Cap_Token Resource_Scope Audit_Log Metrics Cap_Store
    Cap_Manager Session Pending Policy Messaging Localhost Content_Resolver Namespace_Tree Namespace_Store
    Provider_Registry Provider_Stream Provider_Plane Manifest Capsule_Manager Request_Handler Runtime_Lifecycle Signature_Verifier Invoke_Inspect
    Replay_Codec Replay_Store Web_Sign_In Principal_Root
    Canonical Content_Identity Rights_Request
begin

section \<open>The capability runtime\<close>

text \<open>
  The repository is a runtime that runs capsules (WebAssembly components, micro VMs, web
  projections) and mediates everything they do. This library models its core in
  \<^verbatim>\<open>src/elastos/crates/\<close>: \<^verbatim>\<open>elastos-runtime\<close>, \<^verbatim>\<open>elastos-common\<close> and \<^verbatim>\<open>elastos-namespace\<close>; and the parts
  of \<^verbatim>\<open>elastos-auth\<close>, \<^verbatim>\<open>elastos-protected-content-custody\<close> and \<^verbatim>\<open>elastos-protected-content-contracts\<close> that
  decide who a user is and when a content key may be released.

  \<^bold>\<open>How the parts interact.\<close> A capsule holds signed capability tokens. A request of a capsule
  reaches the request handler, which checks the token with the capability manager against the
  revocations and use counts of the capability store and the clock, and then passes the request on:
  to the provider that the provider registry routes the URI to, to the content resolver, or to the
  inbox of another capsule. One capsule, the shell, is exempt; it alone lists, launches and
  stops capsules and grants and revokes tokens. A capsule that lacks a token asks for one:
  the request is pending until the user or the policy evaluator decides. Sessions tie the callers of
  the local API to a capsule. Every decision is written to the audit log; counters and limits are
  kept by the metrics. The runtime's lifecycle builds these parts and gives the shell its authority. Processes
  that run outside reach the handler through a bridge of lines on their standard input and output.

  A user signs in with a wallet, over a text bound to one challenge, and has a principal whose home is one
  local directory. The key of protected content is released on a request under a rights request that the
  wallet has signed, both in one canonical encoding; a custody node claims the nonces of both before it contributes.

  \<^bold>\<open>Theories and sources\<close> (paths below \<^verbatim>\<open>elastos-runtime/src/\<close> unless they name a crate; definitions keep
  the source's names, prefixed or suffixed where HOL or another theory has the name).

  \<^item> \<^verbatim>\<open>Prelude\<close>, \<^verbatim>\<open>Strings_Bytes\<close>: hash maps as association lists without duplicate keys, the operator
    \<^verbatim>\<open>?\<close> and rows of guards, UTF-8 strings as byte strings, searching, splitting, trimming, decimal
    numbers, little-endian words. \<^verbatim>\<open>Externals\<close>: SHA-256, Ed25519 and hex as one record of parameters.
  \<^item> \<^verbatim>\<open>Secure_Time\<close>: \<^verbatim>\<open>elastos-common/src/timestamp.rs\<close>, \<^verbatim>\<open>primitives/time.rs\<close>. \<^verbatim>\<open>Audit_Log\<close>:
    \<^verbatim>\<open>primitives/audit.rs\<close>. \<^verbatim>\<open>Metrics\<close>: \<^verbatim>\<open>primitives/metrics.rs\<close>.
  \<^item> \<^verbatim>\<open>Cap_Token\<close>, \<^verbatim>\<open>Resource_Scope\<close>: \<^verbatim>\<open>capability/token.rs\<close>, with the order of resource patterns.
    \<^verbatim>\<open>Cap_Store\<close>: \<^verbatim>\<open>capability/store.rs\<close>. \<^verbatim>\<open>Cap_Manager\<close>: \<^verbatim>\<open>capability/manager.rs\<close>.
    \<^verbatim>\<open>Pending\<close>: \<^verbatim>\<open>capability/pending.rs\<close>.
  \<^item> \<^verbatim>\<open>Session\<close>: \<^verbatim>\<open>session/\<close>. \<^verbatim>\<open>Policy\<close>: \<^verbatim>\<open>capability/policy.rs\<close> and \<^verbatim>\<open>capability/evaluator.rs\<close>.
    \<^verbatim>\<open>Messaging\<close>: \<^verbatim>\<open>messaging/channel.rs\<close>.
  \<^item> \<^verbatim>\<open>Localhost\<close>: \<^verbatim>\<open>elastos-common/src/localhost.rs\<close>, the URIs and directories of local storage.
  \<^item> \<^verbatim>\<open>Content_Resolver\<close>: \<^verbatim>\<open>elastos-namespace/src/resolver.rs\<close>. \<^verbatim>\<open>Namespace_Tree\<close>,
    \<^verbatim>\<open>Namespace_Store\<close>: \<^verbatim>\<open>elastos-namespace/src/namespace.rs\<close> and \<^verbatim>\<open>store.rs\<close>.
  \<^item> \<^verbatim>\<open>Provider_Registry\<close>, \<^verbatim>\<open>Provider_Stream\<close>, \<^verbatim>\<open>Provider_Plane\<close>: \<^verbatim>\<open>provider/registry.rs\<close>, in the order
    registration and routing, transfer contract and payloads, invocations and stream sessions.
  \<^item> \<^verbatim>\<open>Manifest\<close>: \<^verbatim>\<open>elastos-common/src/manifest.rs\<close>. \<^verbatim>\<open>Capsule_Manager\<close>: \<^verbatim>\<open>capsule/manager.rs\<close>.
  \<^item> \<^verbatim>\<open>Request_Handler\<close>: \<^verbatim>\<open>handler/protocol.rs\<close>, \<^verbatim>\<open>handler/request_handler.rs\<close>,
    \<^verbatim>\<open>capsule/fetched_launch.rs\<close>.
  \<^item> \<^verbatim>\<open>Runtime_Lifecycle\<close>: \<^verbatim>\<open>bootstrap/shell.rs\<close>, \<^verbatim>\<open>bootstrap/runtime_builder.rs\<close>, \<^verbatim>\<open>handler/io_bridge.rs\<close>.
    \<^verbatim>\<open>Signature_Verifier\<close>: \<^verbatim>\<open>signature/verifier.rs\<close>. \<^verbatim>\<open>Invoke_Inspect\<close>: \<^verbatim>\<open>invoke/mod.rs\<close>, \<^verbatim>\<open>inspect/mod.rs\<close>.
  \<^item> \<^verbatim>\<open>Web_Sign_In\<close>, \<^verbatim>\<open>Principal_Root\<close>: \<^verbatim>\<open>elastos-auth/src/lib.rs\<close>, in the order signing in with a wallet, and the
    protection and recovery of a principal's root.
  \<^item> \<^verbatim>\<open>Replay_Codec\<close>, \<^verbatim>\<open>Replay_Store\<close>: \<^verbatim>\<open>elastos-protected-content-custody/src/replay_store.rs\<close> with
    \<^verbatim>\<open>elastos-protected-content-contracts/src/replay.rs\<close>.
  \<^item> \<^verbatim>\<open>Canonical\<close>, \<^verbatim>\<open>Content_Identity\<close>, \<^verbatim>\<open>Rights_Request\<close>: in \<^verbatim>\<open>elastos-protected-content-contracts/src/\<close>,
    \<^verbatim>\<open>canonical.rs\<close>; \<^verbatim>\<open>identity.rs\<close> and the identities of \<^verbatim>\<open>custody_epoch.rs\<close> and \<^verbatim>\<open>custody_pool.rs\<close>; \<^verbatim>\<open>rights.rs\<close> and
    \<^verbatim>\<open>release_request.rs\<close>. A contract type is a record of its domain, validator, encoder and decoder.

  \<^bold>\<open>State.\<close> The structs that share the clock, the audit log, the metrics and the capability store are one
  extensible record, \<open>env\<close> (clock, random numbers), \<open>host\<close> (audit log), \<open>meter\<close>, \<open>runtime\<close> (store), \<open>content\<close>
  (resolver), \<open>capsules\<close> (capsule table), \<open>handler\<close>, each extending the one before; an operation is
  defined on the smallest of them and applies to the larger ones. Structs behind a lock of their own
  (sessions, pending requests, inboxes, namespaces, providers) are records beside it. An operation takes
  the state and returns its result with the new state. Errors are values of the source's error types in
  a sum; the texts of the errors are the source's.

  \<^bold>\<open>Oracles.\<close> What the environment answers is a function of the number of the call, kept in the state with
  a counter: the wall clock, random bytes, the outcome of file operations, the answers of HTTP
  gateways, of providers, of the compute provider, the contents of an unpacked archive, and, for the replay
  store, of every operation on the disk. So theorems hold for every behaviour of the environment, and failures may strike at every call. Base64, JSON and CID
  parsing, Keccak, the recovery of a wallet's key and the calendar are parameters; a theorem
  that needs one of their laws (\<open>sign_correct\<close>, \<open>sign_binding\<close>, \<open>hex_codec\<close>,
  \<open>base64_law\<close>) names it, and its witness runs on a concrete instance that has it.

  \<^bold>\<open>Numbers, bounds, loops.\<close> Integers of the source have their width as words, so sums wrap as in a release
  build; lengths of memory objects are natural numbers. All loops are recursions that HOL accepts as
  total: over lists, over the segments of a path, or with a measure (the remaining bytes of a stream). No
  fuel is used. The lines a process writes to its bridge are a finite list, which the loop of the bridge takes one by one.
  The constants of the source (queue and cache sizes, time limits, chunk sizes) are definitions with its values.

  \<^bold>\<open>Concurrency.\<close> Operations that hold one lock throughout are single steps. Where the code releases a lock between
  two parts of an operation, the parts are definitions of their own and a step relation interleaves
  them: registering and unregistering providers (\<open>target_step\<close>), launching and stopping capsules
  (\<open>capsule_step\<close>). The runtime starts, stops and takes requests and bridged lines in any order (\<open>rt_step\<close>); the calls of
  a custody node come in any order while a claim is active (\<open>while_active\<close>). Sessions, pending requests and the
  namespace store have step relations of their operations, with invariants of all reachable states. A
  runtime-control request is handled in one piece.

  \<^bold>\<open>What the lemmas show.\<close>

  \<^item> Capabilities: validation reports the first failing check of the source's list and accepts exactly
    when none fails; what is signed is what is checked; a delegated token is narrower; a revoked token
    never validates again, through restarts; use limits hold under any number of calls; the pattern matching
    is the segment-wise order.
  \<^item> Users of the store: pending requests, sessions and providers keep their invariants; policies only tighten.
  \<^item> Data: inboxes are queues, the namespace tree is a map from paths, content that is read is
    what its hash says, caches stay within their bounds, local paths do not leave their root.
  \<^item> Providers: capsules reach only visible providers, invocations reach the named target with the checked
    operation, streams deliver the bytes in order and completely, and end.
  \<^item> Capsules: validated manifests ask for nothing reserved, launches succeed entirely or leave no trace.
  \<^item> Across components: no request of a capsule has an effect or reads anything beyond what a valid token of its
    own names; a revocation by the shell is final for all later requests; a capsule launched
    from content has a validated manifest and runs untrusted.
  \<^item> Runtime: only the capsule that the runtime started as the shell has its authority; a bridged process that is not the
    shell changes no capsule, key, revocation or registration; a verified signature binds manifest and content; the
    plan of an operation holds exactly the actions its capabilities give.
  \<^item> Users: a signed message answers one challenge, its URI is of the origin, and every honest
    sign-in is accepted; root protection is accepted exactly when it meets its profile; homes are disjoint.
  \<^item> Protected content: a valid contract has canonical bytes that are read back as it and as nothing else; a release stays
    within what the wallet signed; a nonce is claimed once, through crashes and failing disks, and nothing is contributed
    before the claim is durable.

  The interfaces between components are locales, interpreted on the model in the theory that provides them:
  \<open>permanent_refusal\<close> (\<^verbatim>\<open>Cap_Store\<close>: what is refused stays refused), \<open>scope_order\<close> (\<^verbatim>\<open>Resource_Scope\<close>), \<open>policy_verifier\<close> and
  \<open>tightening_verifier\<close> (\<^verbatim>\<open>Policy\<close>), \<open>cache\<close> (\<^verbatim>\<open>Content_Resolver\<close>), \<open>canonical_contract\<close> (\<^verbatim>\<open>Canonical\<close>, interpreted for every contract
  type).

  \<^bold>\<open>Not modelled.\<close> In these crates: the JSON text of requests, manifests and tokens (\<^verbatim>\<open>serde\<close>); logging;
  the local model sockets and the IPFS preparation of the provider registry; the provider
  bridges and the model broker; passkeys and the other sign-in methods of the server; of the contracts, the policies, receipts,
  node decisions and contributions, custody provisioning and the statements of epochs and pools. Other crates: the HTTP server
  with its gateway and authentication pages, the storage, identity, wallet and the other protected-content
  crates, the VM back ends, the guest library, the capsules themselves and their user interfaces: input and output,
  cryptography, or clients of the core above.
\<close>

end
